(* ===== verification/Prelude.thy ===== *)
theory Prelude
  imports Main "HOL-Library.Word" "HOL-Library.Multiset"
begin

unbundle bit_operations_syntax

text \<open>
  What every component shares: the fixed-width integer types of the C++ sources, the
  operations of std::string the sources call (a string is a list of bytes, a position
  is a nat, std::string::npos is None), the C library's bounded copies, and the
  generic lemmas on lists and words that the component proofs use through the simpset
  or through the two collections declared here.
\<close>

named_theorems str_defs \<open>definitions of the std::string searches\<close>
named_theorems step_defs \<open>definitions a step of a state machine unfolds to\<close>

type_synonym u8 = "8 word"
type_synonym u16 = "16 word"
type_synonym u32 = "32 word"

section \<open>std::string searches\<close>

text \<open>Position of the first character that satisfies a predicate.\<close>

fun find_index :: "('a \<Rightarrow> bool) \<Rightarrow> 'a list \<Rightarrow> nat option" where
  "find_index P [] = None"
| "find_index P (c # cs) = (if P c then Some 0 else map_option Suc (find_index P cs))"

text \<open>
  \<open>s.find_first_of(set, pos)\<close> and \<open>s.find_first_not_of(set, pos)\<close>: the search starts at
  \<open>pos\<close>, the result counts from the start of the string.
\<close>

definition find_from :: "('a \<Rightarrow> bool) \<Rightarrow> nat \<Rightarrow> 'a list \<Rightarrow> nat option" where
  "find_from P pos s = map_option (\<lambda>i. pos + i) (find_index P (drop pos s))"

text \<open>
  \<open>s.find_last_of(set)\<close> and \<open>s.find_last_not_of(set)\<close>, and the same with a last
  position \<open>pos\<close> to look at.
\<close>

definition find_last :: "('a \<Rightarrow> bool) \<Rightarrow> 'a list \<Rightarrow> nat option" where
  "find_last P s = map_option (\<lambda>i. length s - 1 - i) (find_index P (rev s))"

definition find_last_upto :: "('a \<Rightarrow> bool) \<Rightarrow> nat \<Rightarrow> 'a list \<Rightarrow> nat option" where
  "find_last_upto P pos s = find_last P (take (Suc pos) s)"

text \<open>\<open>s.substr(pos, n)\<close>; the sources only call it with \<open>pos <= s.size()\<close>.\<close>

definition substr :: "nat \<Rightarrow> nat \<Rightarrow> 'a list \<Rightarrow> 'a list" where
  "substr pos n s = take n (drop pos s)"

declare find_from_def [str_defs] find_last_def [str_defs] find_last_upto_def [str_defs]
  substr_def [str_defs]

lemma find_index_None: "find_index P s = None \<longleftrightarrow> (\<forall>c \<in> set s. \<not> P c)"
  by (induction s) auto

lemma find_index_SomeD:
  "find_index P s = Some i \<Longrightarrow> i < length s \<and> P (s ! i) \<and> (\<forall>j < i. \<not> P (s ! j))"
proof (induction s arbitrary: i)
  case Nil
  then show ?case by simp
next
  case (Cons c cs)
  show ?case
  proof (cases "P c")
    case True
    with Cons.prems show ?thesis by simp
  next
    case False
    with Cons.prems obtain j where j: "find_index P cs = Some j" "i = Suc j" by auto
    from Cons.IH [OF j(1)] False j(2) show ?thesis
      by (auto simp: nth_Cons split: nat.splits)
  qed
qed

lemma find_index_length: "find_index P s = Some i \<Longrightarrow> i < length s"
  by (drule find_index_SomeD) simp

lemma find_index_takeWhile:
  "find_index P s = Some i \<Longrightarrow> takeWhile (\<lambda>c. \<not> P c) s = take i s \<and> dropWhile (\<lambda>c. \<not> P c) s = drop i s"
  by (induction s arbitrary: i) (auto split: if_splits)

lemma find_index_None_takeWhile:
  "find_index P s = None \<Longrightarrow> takeWhile (\<lambda>c. \<not> P c) s = s \<and> dropWhile (\<lambda>c. \<not> P c) s = []"
  by (simp add: takeWhile_eq_all_conv find_index_None)

lemma plus_Suc_fun: "(+) (Suc n) = (\<lambda>x. Suc (n + x))"
  by auto

lemma plus_0_fun: "(+) (0 :: nat) = id"
  by auto

lemma find_index_append:
  "find_index P (xs @ ys) =
     (case find_index P xs of Some i \<Rightarrow> Some i
      | None \<Rightarrow> map_option (\<lambda>i. length xs + i) (find_index P ys))"
  by (induction xs)
    (simp_all add: option.map_comp comp_def plus_Suc_fun plus_0_fun option.map_id split: option.split)

lemma find_index_append_skip [simp]:
  "\<forall>c \<in> set xs. \<not> P c \<Longrightarrow> find_index P (xs @ ys) = map_option (\<lambda>i. length xs + i) (find_index P ys)"
  by (induction xs) (simp_all add: option.map_comp comp_def plus_Suc_fun plus_0_fun option.map_id)

lemma find_index_append_hit [simp]:
  "\<forall>c \<in> set xs. \<not> P c \<Longrightarrow> P y \<Longrightarrow> find_index P (xs @ y # ys) = Some (length xs)"
  by simp

section \<open>Trimming\<close>

text \<open>
  The trimming that several sources write with \<open>find_first_not_of\<close>,
  \<open>find_last_not_of\<close> and \<open>substr\<close>, as a specification on lists.
\<close>

definition strip :: "('a \<Rightarrow> bool) \<Rightarrow> 'a list \<Rightarrow> 'a list" where
  "strip W s = rev (dropWhile W (rev (dropWhile W s)))"

lemma strip_Nil [simp]: "strip W [] = []"
  by (simp add: strip_def)

lemma strip_all [simp]: "\<forall>c \<in> set s. W c \<Longrightarrow> strip W s = []"
  by (simp add: strip_def dropWhile_eq_Nil_conv [THEN iffD2])

lemma strip_eq_Nil [simp]: "strip W s = [] \<longleftrightarrow> (\<forall>c \<in> set s. W c)"
proof
  assume "strip W s = []"
  then have "\<forall>c \<in> set (dropWhile W s). W c"
    by (simp add: strip_def)
  then have "dropWhile W s = []"
    by (cases "dropWhile W s") (auto simp: dropWhile_eq_Cons_conv)
  then show "\<forall>c \<in> set s. W c" by simp
qed simp

lemma strip_id:
  assumes "s \<noteq> []" "\<not> W (hd s)" "\<not> W (last s)"
  shows "strip W s = s"
proof -
  have "dropWhile W s = s"
    using assms(1,2) by (cases s) auto
  moreover have "dropWhile W (rev s) = rev s"
    using assms(1,3) by (cases s rule: rev_cases) auto
  ultimately show ?thesis by (simp add: strip_def)
qed

lemma dropWhile_append_all: "\<forall>c \<in> set xs. W c \<Longrightarrow> dropWhile W (xs @ ys) = dropWhile W ys"
  by (induction xs) auto

lemma strip_pad:
  assumes "\<forall>c \<in> set l. W c" "\<forall>c \<in> set r. W c"
  shows "strip W (l @ s @ r) = strip W s"
proof (cases "\<forall>c \<in> set s. W c")
  case True
  with assms have "\<forall>c \<in> set (l @ s @ r). W c" by auto
  then have "strip W (l @ s @ r) = []" by (rule strip_all)
  moreover from True have "strip W s = []" by (rule strip_all)
  ultimately show ?thesis by simp
next
  case False
  then have "dropWhile W (s @ r) = dropWhile W s @ r"
    by (auto simp: dropWhile_append1)
  with assms show ?thesis
    by (simp add: strip_def dropWhile_append_all)
qed

lemma find_index_dropWhile:
  "find_index (\<lambda>c. \<not> W c) s = Some i \<Longrightarrow> drop i s = dropWhile W s"
  using find_index_takeWhile [of "\<lambda>c. \<not> W c" s i] by simp

lemma find_last_take:
  assumes "find_last (\<lambda>c. \<not> W c) s = Some e"
  shows "take (Suc e) s = rev (dropWhile W (rev s)) \<and> e < length s \<and> \<not> W (s ! e)"
proof -
  from assms obtain i where i: "find_index (\<lambda>c. \<not> W c) (rev s) = Some i" "e = length s - 1 - i"
    by (auto simp: find_last_def)
  from find_index_SomeD [OF i(1)] have lt: "i < length s" and nW: "\<not> W (rev s ! i)" by simp_all
  from find_index_dropWhile [OF i(1)] have "dropWhile W (rev s) = drop i (rev s)" by simp
  then have "rev (dropWhile W (rev s)) = take (length s - i) s"
    by (simp add: drop_rev)
  moreover have "Suc e = length s - i" "e < length s" using i(2) lt by simp_all
  moreover have "\<not> W (s ! e)" using nW lt i(2) by (simp add: rev_nth)
  ultimately show ?thesis by simp
qed

lemma find_last_None: "find_last P s = None \<longleftrightarrow> (\<forall>c \<in> set s. \<not> P c)"
  by (simp add: find_last_def find_index_None)

text \<open>
  The way the sources trim: first and last position outside the set, and the piece in
  between, is \<open>strip\<close>.
\<close>

lemma trim_is_strip:
  assumes "find_index (\<lambda>c. \<not> W c) s = Some b" "find_last (\<lambda>c. \<not> W c) s = Some e"
  shows "b \<le> e \<and> e < length s \<and> take (e - b + 1) (drop b s) = strip W s"
proof -
  from assms(1) have b: "drop b s = dropWhile W s" "b < length s" "\<not> W (s ! b)" "\<forall>j < b. W (s ! j)"
    using find_index_dropWhile find_index_SomeD by fastforce+
  from find_last_take [OF assms(2)] have e: "take (Suc e) s = rev (dropWhile W (rev s))"
    "e < length s" "\<not> W (s ! e)" by simp_all
  have be: "b \<le> e"
    using b(4) e(3) not_le_imp_less by blast
  have sp: "s = take b s @ dropWhile W s" using b(1) by (metis append_take_drop_id)
  have tb: "\<forall>c \<in> set (take b s). W c"
    using b(4) b(2) by (auto simp: in_set_conv_nth)
  have nall: "\<exists>x \<in> set (rev (dropWhile W s)). \<not> W x"
    using b by (metis drop_eq_Nil hd_dropWhile hd_in_set linorder_not_less set_rev)
  have "dropWhile W (rev s) = dropWhile W (rev (dropWhile W s) @ rev (take b s))"
    using sp by (metis rev_append)
  also have "\<dots> = dropWhile W (rev (dropWhile W s)) @ rev (take b s)"
    using nall by (auto simp: dropWhile_append1)
  finally have "take (Suc e) s = take b s @ strip W s"
    by (simp add: e(1) strip_def)
  then have "drop b (take (Suc e) s) = strip W s"
    using b(2) by simp
  moreover have "drop b (take (Suc e) s) = take (e - b + 1) (drop b s)"
    using be by (simp add: drop_take Suc_diff_le)
  ultimately show ?thesis using be e(2) by simp
qed

lemma strip_split: "\<exists>u r. v = u @ strip W v @ r \<and> (\<forall>c \<in> set u. W c) \<and> (\<forall>c \<in> set r. W c)"
proof (intro exI conjI)
  have "rev (dropWhile W v) = takeWhile W (rev (dropWhile W v)) @ dropWhile W (rev (dropWhile W v))"
    by simp
  then have "dropWhile W v = strip W v @ rev (takeWhile W (rev (dropWhile W v)))"
    unfolding strip_def by (metis rev_append rev_rev_ident)
  then show "v = takeWhile W v @ strip W v @ rev (takeWhile W (rev (dropWhile W v)))"
    by (metis takeWhile_dropWhile_id)
qed (auto dest: set_takeWhileD)

lemma strip_ends:
  assumes "strip W v \<noteq> []"
  shows "\<not> W (hd (strip W v))" "\<not> W (last (strip W v))"
proof -
  from assms have ne: "dropWhile W (rev (dropWhile W v)) \<noteq> []" by (simp add: strip_def)
  from hd_dropWhile [OF this] show "\<not> W (last (strip W v))" by (simp add: strip_def last_rev)
  from assms obtain x xs where x: "dropWhile W v = x # xs" "\<not> W x"
    by (cases "dropWhile W v") (auto simp: strip_def dropWhile_eq_Cons_conv)
  then have "dropWhile W (rev (dropWhile W v)) = dropWhile W (rev xs) @ [x] \<or>
      dropWhile W (rev (dropWhile W v)) = [x]"
    by (cases "\<forall>c \<in> set (rev xs). W c") (auto simp: dropWhile_append1 dropWhile_append_all)
  with x(2) show "\<not> W (hd (strip W v))" by (auto simp: strip_def)
qed

lemma find_index_pad:
  "\<forall>c \<in> set u. W c \<Longrightarrow> t \<noteq> [] \<Longrightarrow> \<not> W (hd t) \<Longrightarrow>
   find_index (\<lambda>c. \<not> W c) (u @ t @ r) = Some (length u)"
  by (cases t) auto

lemma find_last_pad:
  "\<forall>c \<in> set r. W c \<Longrightarrow> t \<noteq> [] \<Longrightarrow> \<not> W (last t) \<Longrightarrow>
   find_last (\<lambda>c. \<not> W c) (u @ t @ r) = Some (length u + length t - 1)"
  using find_index_pad [of "rev r" W "rev t" "rev u"]
  by (simp add: find_last_def hd_rev)

section \<open>Splitting at a separator\<close>

text \<open>
  The pieces of a string between separators: the reference for every loop of the
  sources that walks a string with \<open>find(sep, pos)\<close>.
\<close>

fun split_acc :: "'a \<Rightarrow> 'a list \<Rightarrow> 'a list \<Rightarrow> 'a list list" where
  "split_acc d cur [] = [cur]"
| "split_acc d cur (c # cs) =
     (if c = d then cur # split_acc d [] cs else split_acc d (cur @ [c]) cs)"

definition split_on :: "'a \<Rightarrow> 'a list \<Rightarrow> 'a list list" where
  "split_on d s = split_acc d [] s"

fun join_with :: "'a \<Rightarrow> 'a list list \<Rightarrow> 'a list" where
  "join_with d [] = []"
| "join_with d [x] = x"
| "join_with d (x # y # ys) = x @ d # join_with d (y # ys)"

lemma split_acc_find:
  "split_acc d cur s =
     (case find_index (\<lambda>c. c = d) s of
        None \<Rightarrow> [cur @ s] | Some k \<Rightarrow> (cur @ take k s) # split_on d (drop (Suc k) s))"
  by (induction d cur s rule: split_acc.induct) (auto simp: split_on_def split: option.splits)

lemma split_on_find:
  "split_on d s =
     (case find_index (\<lambda>c. c = d) s of
        None \<Rightarrow> [s] | Some k \<Rightarrow> take k s # split_on d (drop (Suc k) s))"
  by (simp add: split_on_def split_acc_find [of d "[]"] split: option.split)

lemma split_on_Nil [simp]: "split_on d [] = [[]]"
  by (simp add: split_on_def)

lemma split_on_single [simp]: "d \<notin> set x \<Longrightarrow> split_on d x = [x]"
  by (subst split_on_find) (auto simp: find_index_None split: option.split dest!: find_index_SomeD)

lemma split_on_append [simp]: "d \<notin> set x \<Longrightarrow> split_on d (x @ d # s) = x # split_on d s"
proof -
  assume "d \<notin> set x"
  then have "find_index (\<lambda>c. c = d) (x @ d # s) = Some (length x)"
    by (intro find_index_append_hit) auto
  then show ?thesis by (subst split_on_find) simp
qed

lemma split_join:
  "xs \<noteq> [] \<Longrightarrow> \<forall>x \<in> set xs. d \<notin> set x \<Longrightarrow> split_on d (join_with d xs) = xs"
  by (induction d xs rule: join_with.induct) auto

section \<open>C strings\<close>

text \<open>
  A \<open>const char*\<close> ends at the first NUL, so a std::string passed through \<open>c_str()\<close>
  loses what follows one. \<open>strlcpy(dst, src, size)\<close> and \<open>snprintf(dst, size, ...)\<close>
  keep at most \<open>size - 1\<close> characters.
\<close>

definition NUL :: char where
  "NUL = CHR 0x00"

definition c_str :: "string \<Rightarrow> string" where
  "c_str s = takeWhile (\<lambda>c. c \<noteq> NUL) s"

definition strlcpy :: "nat \<Rightarrow> string \<Rightarrow> string" where
  "strlcpy cap src = take (cap - 1) (c_str src)"

lemma length_strlcpy: "length (strlcpy cap src) \<le> cap - 1"
  by (simp add: strlcpy_def)

lemma c_str_id: "NUL \<notin> set s \<Longrightarrow> c_str s = s"
  by (auto simp: c_str_def takeWhile_eq_all_conv)

lemma c_str_no_NUL [simp]: "NUL \<notin> set (c_str s)"
  by (auto simp: c_str_def dest: set_takeWhileD)

lemma c_str_idem [simp]: "c_str (c_str s) = c_str s"
  by (simp add: c_str_id)

lemma c_str_take: "NUL \<notin> set (take n (c_str s))"
  using c_str_no_NUL in_set_takeD by fastforce

lemma strlcpy_no_NUL [simp]: "NUL \<notin> set (strlcpy n s)"
  by (simp add: strlcpy_def c_str_take)

lemma strlcpy_id: "NUL \<notin> set s \<Longrightarrow> length s < cap \<Longrightarrow> strlcpy cap s = s"
  by (simp add: strlcpy_def c_str_id)

text \<open>\<open>tolower\<close> and the case-insensitive comparison of \<open>strcasecmp\<close>, on ASCII bytes.\<close>

abbreviation byte :: "char \<Rightarrow> nat" where
  "byte c \<equiv> of_char c"

definition ascii_lower :: "char \<Rightarrow> char" where
  "ascii_lower c =
     (if 65 \<le> byte c \<and> byte c \<le> 90 then char_of (byte c + 32) else c)"

definition caseeq :: "string \<Rightarrow> string \<Rightarrow> bool" where
  "caseeq a b \<longleftrightarrow> map ascii_lower a = map ascii_lower b"

lemma caseeq_refl [simp]: "caseeq a a"
  by (simp add: caseeq_def)

section \<open>Words\<close>

lemma u8_less_128_iff: "(x :: u8) < 128 \<longleftrightarrow> take_bit 7 x = x"
proof -
  have "x < 128 \<longleftrightarrow> uint x < 2 ^ 7" by (simp add: word_less_def)
  also have "\<dots> \<longleftrightarrow> take_bit 7 (uint x) = uint x" by (simp add: take_bit_int_eq_self_iff)
  also have "\<dots> \<longleftrightarrow> take_bit 7 x = x" by (simp add: word_uint_eq_iff unsigned_take_bit_eq)
  finally show ?thesis .
qed

section \<open>Elapsed time on a wrapping 32-bit clock\<close>

text \<open>
  \<open>static_cast<int32_t>(now - deadline) >= 0\<close>, with \<open>deadline = start + span\<close> taken
  when the clock read \<open>start\<close>. While less than 2^31 ms have passed and the span is below
  2^31 ms, the test says exactly that the span has elapsed, also across a wrap of the
  clock.
\<close>

definition deadline_passed :: "u32 \<Rightarrow> u32 \<Rightarrow> bool" where
  "deadline_passed now until \<longleftrightarrow> 0 \<le> sint (now - until)"

lemma sint_nonneg_iff: "0 \<le> sint (w :: u32) \<longleftrightarrow> uint w < 2 ^ 31"
proof -
  have lt: "uint w < 2 ^ 32" using uint_lt2p [of w] by simp
  have "0 \<le> sint w \<longleftrightarrow> \<not> bit (uint w) 31"
    by (simp add: sint_uint signed_take_bit_nonnegative_iff)
  also have "\<dots> \<longleftrightarrow> uint w < 2 ^ 31"
  proof (cases "uint w < 2 ^ 31")
    case True
    then have "uint w div 2 ^ 31 = 0" using uint_ge_0 [of w] by simp
    with True show ?thesis by (simp add: bit_iff_odd)
  next
    case False
    then have "uint w div 2 ^ 31 = 1" using lt by simp
    with False show ?thesis by (simp add: bit_iff_odd)
  qed
  finally show ?thesis .
qed

lemma len_of_32: "LENGTH(32) = 32"
  by simp

lemma wrapped_difference:
  fixes a b :: int
  assumes "0 \<le> a" "0 \<le> b" "a < 2 ^ 31" "b < 2 ^ 31"
  shows "(if b \<le> a then a - b else a - b + 2 ^ 32) < 2 ^ 31 \<longleftrightarrow> b \<le> a"
  using assms by auto

lemma deadline_passed_iff:
  assumes "uint elapsed < 2 ^ 31" "uint span < 2 ^ 31"
  shows "deadline_passed (start + elapsed) (start + span) \<longleftrightarrow> span \<le> elapsed"
proof -
  have "start + elapsed - (start + span) = elapsed - span" by simp
  then have "deadline_passed (start + elapsed) (start + span) \<longleftrightarrow> uint (elapsed - span) < 2 ^ 31"
    by (simp only: deadline_passed_def sint_nonneg_iff)
  also have "\<dots> \<longleftrightarrow> uint span \<le> uint elapsed"
    using wrapped_difference [OF uint_ge_0 uint_ge_0 assms]
    by (simp only: uint_sub_if' [where 'a = 32, unfolded len_of_32])
  also have "\<dots> \<longleftrightarrow> span \<le> elapsed"
    by (simp only: word_le_def)
  finally show ?thesis .
qed

text \<open>A property of all words below a bound, checked value by value.\<close>

lemma small_word:
  assumes "list_all (\<lambda>k. P (of_nat k)) [0..<n]" "unat (w :: 'a::len word) < n"
  shows "P w"
proof -
  have "P (of_nat (unat w))"
    using assms(1) unfolding list_all_iff by (rule bspec) (use assms(2) in simp)
  then show ?thesis by simp
qed

section \<open>Decimal numbers\<close>

text \<open>What \<open>%u\<close> prints, and the digits read back.\<close>

fun decimal :: "nat \<Rightarrow> string" where
  "decimal n = (if n < 10 then [char_of (48 + n)] else decimal (n div 10) @ [char_of (48 + n mod 10)])"

declare decimal.simps [simp del]

definition is_dec :: "char \<Rightarrow> bool" where
  "is_dec c \<longleftrightarrow> 48 \<le> byte c \<and> byte c \<le> 57"

fun dec_value :: "nat \<Rightarrow> string \<Rightarrow> nat" where
  "dec_value a [] = a"
| "dec_value a (c # p) = (if is_dec c then dec_value (a * 10 + (byte c - 48)) p else a)"

lemma byte_digit: "n < 10 \<Longrightarrow> byte (char_of (48 + n)) = 48 + n"
  by (simp add: of_char_of)

lemma decimal_digits: "list_all is_dec (decimal n)"
proof (induction n rule: decimal.induct)
  case (1 n)
  have d: "is_dec (char_of (48 + m mod 10))" for m :: nat
    using byte_digit [of "m mod 10"] by (simp add: is_dec_def)
  show ?case
    using 1 d [of n] d [of "n div 1"] by (subst decimal.simps) (cases "n < 10"; simp)
qed

lemma decimal_nonempty [simp]: "decimal n \<noteq> []"
  by (subst decimal.simps) simp

lemma dec_value_append: "list_all is_dec p \<Longrightarrow> dec_value a (p @ q) = dec_value (dec_value a p) q"
  by (induction p arbitrary: a) auto

lemma dec_value_decimal: "dec_value 0 (decimal n) = n"
proof (induction n rule: decimal.induct)
  case (1 n)
  have d: "is_dec (char_of (48 + m))" "byte (char_of (48 + m)) = 48 + m" if "m < 10" for m :: nat
    using byte_digit [OF that] that by (simp_all add: is_dec_def)
  show ?case
  proof (cases "n < 10")
    case True
    then show ?thesis using d [of n] by (subst decimal.simps) simp
  next
    case False
    have "decimal n = decimal (n div 10) @ [char_of (48 + n mod 10)]"
      using False by (subst decimal.simps) simp
    then show ?thesis
      using 1 False d [of "n mod 10"] by (simp add: dec_value_append [OF decimal_digits])
  qed
qed

lemma dec_value_stop:
  "list_all is_dec p \<Longrightarrow> q = [] \<or> \<not> is_dec (hd q) \<Longrightarrow> dec_value a (p @ q) = dec_value a p"
  by (cases q) (simp_all add: dec_value_append)

lemma dropWhile_dec:
  "list_all is_dec p \<Longrightarrow> q = [] \<or> \<not> is_dec (hd q) \<Longrightarrow> dropWhile is_dec (p @ q) = q"
  by (induction p) (cases q; simp)+

end
