(* ===== verification/MachineTypes.thy ===== *)
theory MachineTypes
  imports Prelude
begin

text \<open>
  FluidNC/src/Types.h, Error.h and Error.cpp: the machine states every component asks about
  with \<open>state_is\<close>, the error codes the handlers return, and the table of their names. The
  enumeration of the codes is an 8-bit integer in the code and a number here; its
  enumerators are abbreviations.
\<close>

section \<open>Machine states\<close>

datatype mstate =
    Idle | Alarm | CheckMode | Homing | Cycle | Hold | Jog | SafetyDoor | Sleep
  | ConfigAlarm | Critical

section \<open>Error codes\<close>

type_synonym error_code = nat

abbreviation (input) Error_Ok :: error_code where "Error_Ok \<equiv> 0"
abbreviation (input) Error_ExpectedCommandLetter :: error_code where "Error_ExpectedCommandLetter \<equiv> 1"
abbreviation (input) Error_BadNumberFormat :: error_code where "Error_BadNumberFormat \<equiv> 2"
abbreviation (input) Error_InvalidStatement :: error_code where "Error_InvalidStatement \<equiv> 3"
abbreviation (input) Error_NegativeValue :: error_code where "Error_NegativeValue \<equiv> 4"
abbreviation (input) Error_SettingDisabled :: error_code where "Error_SettingDisabled \<equiv> 5"
abbreviation (input) Error_SettingStepPulseMin :: error_code where "Error_SettingStepPulseMin \<equiv> 6"
abbreviation (input) Error_SettingReadFail :: error_code where "Error_SettingReadFail \<equiv> 7"
abbreviation (input) Error_IdleError :: error_code where "Error_IdleError \<equiv> 8"
abbreviation (input) Error_SystemGcLock :: error_code where "Error_SystemGcLock \<equiv> 9"
abbreviation (input) Error_SoftLimitError :: error_code where "Error_SoftLimitError \<equiv> 10"
abbreviation (input) Error_Overflow :: error_code where "Error_Overflow \<equiv> 11"
abbreviation (input) Error_MaxStepRateExceeded :: error_code where "Error_MaxStepRateExceeded \<equiv> 12"
abbreviation (input) Error_CheckDoor :: error_code where "Error_CheckDoor \<equiv> 13"
abbreviation (input) Error_LineLengthExceeded :: error_code where "Error_LineLengthExceeded \<equiv> 14"
abbreviation (input) Error_TravelExceeded :: error_code where "Error_TravelExceeded \<equiv> 15"
abbreviation (input) Error_InvalidJogCommand :: error_code where "Error_InvalidJogCommand \<equiv> 16"
abbreviation (input) Error_SettingDisabledLaser :: error_code where "Error_SettingDisabledLaser \<equiv> 17"
abbreviation (input) Error_HomingNoCycles :: error_code where "Error_HomingNoCycles \<equiv> 18"
abbreviation (input) Error_SingleAxisHoming :: error_code where "Error_SingleAxisHoming \<equiv> 19"
abbreviation (input) Error_GcodeUnsupportedCommand :: error_code where "Error_GcodeUnsupportedCommand \<equiv> 20"
abbreviation (input) Error_GcodeModalGroupViolation :: error_code where "Error_GcodeModalGroupViolation \<equiv> 21"
abbreviation (input) Error_GcodeUndefinedFeedRate :: error_code where "Error_GcodeUndefinedFeedRate \<equiv> 22"
abbreviation (input) Error_GcodeCommandValueNotInteger :: error_code where "Error_GcodeCommandValueNotInteger \<equiv> 23"
abbreviation (input) Error_GcodeAxisCommandConflict :: error_code where "Error_GcodeAxisCommandConflict \<equiv> 24"
abbreviation (input) Error_GcodeWordRepeated :: error_code where "Error_GcodeWordRepeated \<equiv> 25"
abbreviation (input) Error_GcodeNoAxisWords :: error_code where "Error_GcodeNoAxisWords \<equiv> 26"
abbreviation (input) Error_GcodeInvalidLineNumber :: error_code where "Error_GcodeInvalidLineNumber \<equiv> 27"
abbreviation (input) Error_GcodeValueWordMissing :: error_code where "Error_GcodeValueWordMissing \<equiv> 28"
abbreviation (input) Error_GcodeUnsupportedCoordSys :: error_code where "Error_GcodeUnsupportedCoordSys \<equiv> 29"
abbreviation (input) Error_GcodeG53InvalidMotionMode :: error_code where "Error_GcodeG53InvalidMotionMode \<equiv> 30"
abbreviation (input) Error_GcodeAxisWordsExist :: error_code where "Error_GcodeAxisWordsExist \<equiv> 31"
abbreviation (input) Error_GcodeNoAxisWordsInPlane :: error_code where "Error_GcodeNoAxisWordsInPlane \<equiv> 32"
abbreviation (input) Error_GcodeInvalidTarget :: error_code where "Error_GcodeInvalidTarget \<equiv> 33"
abbreviation (input) Error_GcodeArcRadiusError :: error_code where "Error_GcodeArcRadiusError \<equiv> 34"
abbreviation (input) Error_GcodeNoOffsetsInPlane :: error_code where "Error_GcodeNoOffsetsInPlane \<equiv> 35"
abbreviation (input) Error_GcodeUnusedWords :: error_code where "Error_GcodeUnusedWords \<equiv> 36"
abbreviation (input) Error_GcodeG43DynamicAxisError :: error_code where "Error_GcodeG43DynamicAxisError \<equiv> 37"
abbreviation (input) Error_GcodeMaxValueExceeded :: error_code where "Error_GcodeMaxValueExceeded \<equiv> 38"
abbreviation (input) Error_PParamMaxExceeded :: error_code where "Error_PParamMaxExceeded \<equiv> 39"
abbreviation (input) Error_CheckControlPins :: error_code where "Error_CheckControlPins \<equiv> 40"
abbreviation (input) Error_FsFailedMount :: error_code where "Error_FsFailedMount \<equiv> 60"
abbreviation (input) Error_FsFailedRead :: error_code where "Error_FsFailedRead \<equiv> 61"
abbreviation (input) Error_FsFailedOpenDir :: error_code where "Error_FsFailedOpenDir \<equiv> 62"
abbreviation (input) Error_FsDirNotFound :: error_code where "Error_FsDirNotFound \<equiv> 63"
abbreviation (input) Error_FsFileEmpty :: error_code where "Error_FsFileEmpty \<equiv> 64"
abbreviation (input) Error_FsFileNotFound :: error_code where "Error_FsFileNotFound \<equiv> 65"
abbreviation (input) Error_FsFailedOpenFile :: error_code where "Error_FsFailedOpenFile \<equiv> 66"
abbreviation (input) Error_FsFailedBusy :: error_code where "Error_FsFailedBusy \<equiv> 67"
abbreviation (input) Error_FsFailedDelDir :: error_code where "Error_FsFailedDelDir \<equiv> 68"
abbreviation (input) Error_FsFailedDelFile :: error_code where "Error_FsFailedDelFile \<equiv> 69"
abbreviation (input) Error_FsFailedRenameFile :: error_code where "Error_FsFailedRenameFile \<equiv> 70"
abbreviation (input) Error_NumberRange :: error_code where "Error_NumberRange \<equiv> 80"
abbreviation (input) Error_InvalidValue :: error_code where "Error_InvalidValue \<equiv> 81"
abbreviation (input) Error_FsFailedCreateFile :: error_code where "Error_FsFailedCreateFile \<equiv> 82"
abbreviation (input) Error_FsFailedFormat :: error_code where "Error_FsFailedFormat \<equiv> 83"
abbreviation (input) Error_MessageFailed :: error_code where "Error_MessageFailed \<equiv> 90"
abbreviation (input) Error_NvsSetFailed :: error_code where "Error_NvsSetFailed \<equiv> 100"
abbreviation (input) Error_NvsGetStatsFailed :: error_code where "Error_NvsGetStatsFailed \<equiv> 101"
abbreviation (input) Error_AuthenticationFailed :: error_code where "Error_AuthenticationFailed \<equiv> 110"
abbreviation (input) Error_Eol :: error_code where "Error_Eol \<equiv> 111"
abbreviation (input) Error_Eof :: error_code where "Error_Eof \<equiv> 112"
abbreviation (input) Error_Reset :: error_code where "Error_Reset \<equiv> 113"
abbreviation (input) Error_NoData :: error_code where "Error_NoData \<equiv> 114"
abbreviation (input) Error_AnotherInterfaceBusy :: error_code where "Error_AnotherInterfaceBusy \<equiv> 120"
abbreviation (input) Error_JogCancelled :: error_code where "Error_JogCancelled \<equiv> 130"
abbreviation (input) Error_BadPinSpecification :: error_code where "Error_BadPinSpecification \<equiv> 150"
abbreviation (input) Error_BadRuntimeConfigSetting :: error_code where "Error_BadRuntimeConfigSetting \<equiv> 151"
abbreviation (input) Error_ConfigurationInvalid :: error_code where "Error_ConfigurationInvalid \<equiv> 152"
abbreviation (input) Error_UploadFailed :: error_code where "Error_UploadFailed \<equiv> 160"
abbreviation (input) Error_DownloadFailed :: error_code where "Error_DownloadFailed \<equiv> 161"
abbreviation (input) Error_ReadOnlySetting :: error_code where "Error_ReadOnlySetting \<equiv> 162"
abbreviation (input) Error_ExpressionDivideByZero :: error_code where "Error_ExpressionDivideByZero \<equiv> 170"
abbreviation (input) Error_ExpressionInvalidArgument :: error_code where "Error_ExpressionInvalidArgument \<equiv> 171"
abbreviation (input) Error_ExpressionInvalidResult :: error_code where "Error_ExpressionInvalidResult \<equiv> 172"
abbreviation (input) Error_ExpressionUnknownOp :: error_code where "Error_ExpressionUnknownOp \<equiv> 173"
abbreviation (input) Error_ExpressionArgumentOutOfRange :: error_code where "Error_ExpressionArgumentOutOfRange \<equiv> 174"
abbreviation (input) Error_ExpressionSyntaxError :: error_code where "Error_ExpressionSyntaxError \<equiv> 175"
abbreviation (input) Error_FlowControlSyntaxError :: error_code where "Error_FlowControlSyntaxError \<equiv> 176"
abbreviation (input) Error_FlowControlNotExecutingMacro :: error_code where "Error_FlowControlNotExecutingMacro \<equiv> 177"
abbreviation (input) Error_FlowControlOutOfMemory :: error_code where "Error_FlowControlOutOfMemory \<equiv> 178"
abbreviation (input) Error_FlowControlStackOverflow :: error_code where "Error_FlowControlStackOverflow \<equiv> 179"
abbreviation (input) Error_ParameterAssignmentFailed :: error_code where "Error_ParameterAssignmentFailed \<equiv> 180"
abbreviation (input) Error_GcodeValueWordInvalid :: error_code where "Error_GcodeValueWordInvalid \<equiv> 181"

text \<open>The enumerators, in the order of the enumeration.\<close>

definition Error_values :: "error_code list" where
  "Error_values = [
     Error_Ok, Error_ExpectedCommandLetter, Error_BadNumberFormat, Error_InvalidStatement,
     Error_NegativeValue, Error_SettingDisabled, Error_SettingStepPulseMin,
     Error_SettingReadFail, Error_IdleError, Error_SystemGcLock, Error_SoftLimitError,
     Error_Overflow, Error_MaxStepRateExceeded, Error_CheckDoor, Error_LineLengthExceeded,
     Error_TravelExceeded, Error_InvalidJogCommand, Error_SettingDisabledLaser,
     Error_HomingNoCycles, Error_SingleAxisHoming, Error_GcodeUnsupportedCommand,
     Error_GcodeModalGroupViolation, Error_GcodeUndefinedFeedRate,
     Error_GcodeCommandValueNotInteger, Error_GcodeAxisCommandConflict,
     Error_GcodeWordRepeated, Error_GcodeNoAxisWords, Error_GcodeInvalidLineNumber,
     Error_GcodeValueWordMissing, Error_GcodeUnsupportedCoordSys,
     Error_GcodeG53InvalidMotionMode, Error_GcodeAxisWordsExist, Error_GcodeNoAxisWordsInPlane,
     Error_GcodeInvalidTarget, Error_GcodeArcRadiusError, Error_GcodeNoOffsetsInPlane,
     Error_GcodeUnusedWords, Error_GcodeG43DynamicAxisError, Error_GcodeMaxValueExceeded,
     Error_PParamMaxExceeded, Error_CheckControlPins, Error_FsFailedMount, Error_FsFailedRead,
     Error_FsFailedOpenDir, Error_FsDirNotFound, Error_FsFileEmpty, Error_FsFileNotFound,
     Error_FsFailedOpenFile, Error_FsFailedBusy, Error_FsFailedDelDir, Error_FsFailedDelFile,
     Error_FsFailedRenameFile, Error_NumberRange, Error_InvalidValue, Error_FsFailedCreateFile,
     Error_FsFailedFormat, Error_MessageFailed, Error_NvsSetFailed, Error_NvsGetStatsFailed,
     Error_AuthenticationFailed, Error_Eol, Error_Eof, Error_Reset, Error_NoData,
     Error_AnotherInterfaceBusy, Error_JogCancelled, Error_BadPinSpecification,
     Error_BadRuntimeConfigSetting, Error_ConfigurationInvalid, Error_UploadFailed,
     Error_DownloadFailed, Error_ReadOnlySetting, Error_ExpressionDivideByZero,
     Error_ExpressionInvalidArgument, Error_ExpressionInvalidResult, Error_ExpressionUnknownOp,
     Error_ExpressionArgumentOutOfRange, Error_ExpressionSyntaxError,
     Error_FlowControlSyntaxError, Error_FlowControlNotExecutingMacro,
     Error_FlowControlOutOfMemory, Error_FlowControlStackOverflow,
     Error_ParameterAssignmentFailed, Error_GcodeValueWordInvalid]"

definition ErrorNames :: "(error_code \<times> string) list" where
  "ErrorNames = [
     (Error_Ok, ''No error''),
     (Error_ExpectedCommandLetter, ''Expected GCodecommand letter''),
     (Error_BadNumberFormat, ''Bad GCode number format''),
     (Error_InvalidStatement, ''Invalid $ statement''),
     (Error_NegativeValue, ''Negative value''),
     (Error_SettingDisabled, ''Setting disabled''),
     (Error_SettingStepPulseMin, ''Step pulse too short''),
     (Error_SettingReadFail, ''Failed to read settings''),
     (Error_IdleError, ''Command requires idle state''),
     (Error_SystemGcLock, ''GCode cannot be executed in lock or alarm state''),
     (Error_SoftLimitError, ''Soft limit error''),
     (Error_Overflow, ''Line too long''),
     (Error_MaxStepRateExceeded, ''Max step rate exceeded''),
     (Error_CheckDoor, ''Check door''),
     (Error_LineLengthExceeded, ''Startup line too long''),
     (Error_TravelExceeded, ''Max travel exceeded during jog''),
     (Error_InvalidJogCommand, ''Invalid jog command''),
     (Error_SettingDisabledLaser, ''Laser mode requires PWM output''),
     (Error_HomingNoCycles, ''No Homing/Cycle defined in settings''),
     (Error_SingleAxisHoming, ''Single axis homing not allowed''),
     (Error_GcodeUnsupportedCommand, ''Unsupported GCode command''),
     (Error_GcodeModalGroupViolation, ''Gcode modal group violation''),
     (Error_GcodeUndefinedFeedRate, ''Gcode undefined feed rate''),
     (Error_GcodeCommandValueNotInteger, ''Gcode command value not integer''),
     (Error_GcodeAxisCommandConflict, ''Gcode axis command conflict''),
     (Error_GcodeWordRepeated, ''Gcode word repeated''),
     (Error_GcodeNoAxisWords, ''Gcode no axis words''),
     (Error_GcodeInvalidLineNumber, ''Gcode invalid line number''),
     (Error_GcodeValueWordMissing, ''Gcode value word missing''),
     (Error_GcodeUnsupportedCoordSys, ''Gcode unsupported coordinate system''),
     (Error_GcodeG53InvalidMotionMode, ''Gcode G53 invalid motion mode''),
     (Error_GcodeAxisWordsExist, ''Gcode extra axis words''),
     (Error_GcodeNoAxisWordsInPlane, ''Gcode no axis words in plane''),
     (Error_GcodeInvalidTarget, ''Gcode invalid target''),
     (Error_GcodeArcRadiusError, ''Gcode arc radius error''),
     (Error_GcodeNoOffsetsInPlane, ''Gcode no offsets in plane''),
     (Error_GcodeUnusedWords, ''Gcode unused words''),
     (Error_GcodeG43DynamicAxisError, ''Gcode G43 dynamic axis error''),
     (Error_GcodeMaxValueExceeded, ''Gcode max value exceeded''),
     (Error_PParamMaxExceeded, ''P param max exceeded''),
     (Error_CheckControlPins, ''Check control pins''),
     (Error_FsFailedMount, ''Failed to mount device''),
     (Error_FsFailedRead, ''Read failed''),
     (Error_FsFailedOpenDir, ''Failed to open directory''),
     (Error_FsDirNotFound, ''Directory not found''),
     (Error_FsFileEmpty, ''File empty''),
     (Error_FsFileNotFound, ''File not found''),
     (Error_FsFailedOpenFile, ''Failed to open file''),
     (Error_FsFailedBusy, ''Device is busy''),
     (Error_FsFailedDelDir, ''Failed to delete directory''),
     (Error_FsFailedDelFile, ''Failed to delete file''),
     (Error_FsFailedRenameFile, ''Failed to rename file''),
     (Error_FsFailedCreateFile, ''Failed to create file''),
     (Error_FsFailedFormat, ''Failed to format filesystem''),
     (Error_NumberRange, ''Number out of range for setting''),
     (Error_InvalidValue, ''Invalid value for setting''),
     (Error_MessageFailed, ''Failed to send message''),
     (Error_NvsSetFailed, ''Failed to store setting''),
     (Error_NvsGetStatsFailed, ''Failed to get setting status''),
     (Error_AuthenticationFailed, ''Authentication failed!''),
     (Error_Eol, ''End of line''),
     (Error_Eof, ''End of file''),
     (Error_Reset, ''System Reset''),
     (Error_NoData, ''No Data''),
     (Error_AnotherInterfaceBusy, ''Another interface is busy''),
     (Error_BadPinSpecification, ''Bad Pin Specification''),
     (Error_BadRuntimeConfigSetting, ''Bad Runtime Config Setting''),
     (Error_JogCancelled, ''Jog Cancelled''),
     (Error_ConfigurationInvalid, ''Configuration is invalid. Check boot messages for ERR'' @ CHR 0x27 # ''s.''),
     (Error_UploadFailed, ''File Upload Failed''),
     (Error_DownloadFailed, ''File Download Failed''),
     (Error_ReadOnlySetting, ''Read-only setting''),
     (Error_ExpressionDivideByZero, ''Expression Divide By Zero''),
     (Error_ExpressionInvalidArgument, ''Expression Invalid Argument''),
     (Error_ExpressionUnknownOp, ''Expression Unknown Operator''),
     (Error_ExpressionArgumentOutOfRange, ''Expression Argument Out of Range''),
     (Error_ExpressionSyntaxError, ''Expression Syntax Error''),
     (Error_FlowControlSyntaxError, ''Flow Control Syntax Error''),
     (Error_FlowControlNotExecutingMacro, ''Flow Control Not Executing Macro''),
     (Error_FlowControlOutOfMemory, ''Flow Control Out of Memory''),
     (Error_FlowControlStackOverflow, ''Flow Control Stack Overflow''),
     (Error_ParameterAssignmentFailed, ''Parameter Assignment Failed''),
     (Error_GcodeValueWordInvalid, ''Gcode invalid word value'')]"

text \<open>ProcessSettings.cpp, \<open>errorString\<close>: None is the null pointer.\<close>

definition errorString :: "error_code \<Rightarrow> string option" where
  "errorString e = map_of ErrorNames e"

lemma errorString_None: "errorString e = None \<longleftrightarrow> e \<notin> set (map fst ErrorNames)"
  by (simp add: errorString_def map_of_eq_None_iff)

text \<open>An invalid expression result has no text: \<open>errorString\<close> returns the null pointer.\<close>

lemma errorString_gap: "errorString Error_ExpressionInvalidResult = None"
  unfolding errorString_None by (simp add: ErrorNames_def)

end
