(* ===== verification/PlaylistParse.thy ===== *)
theory PlaylistParse
  imports Prelude Complex_Main
begin

text \<open>
  FluidNC/src/PlaylistParse.cpp and .h: the pure parsing and policy helpers of the
  playlist module. One definition per function. A std::string is a \<open>string\<close>, an
  optional \<open>const char*\<close> is a \<open>string option\<close>, an output parameter is a component of
  the result. A float is the rational number it stands for; the scanner
  \<open>sscanf(line, "%f %f", ...)\<close> of \<open>first_rho\<close> is an argument that yields those two
  numbers, so that no rounding is assumed.
\<close>

section \<open>Clear modes and clear files\<close>

abbreviation (input) CLEAR_NONE :: int where "CLEAR_NONE \<equiv> 0"
abbreviation (input) CLEAR_ADAPTIVE :: int where "CLEAR_ADAPTIVE \<equiv> 1"
abbreviation (input) CLEAR_IN :: int where "CLEAR_IN \<equiv> 2"
abbreviation (input) CLEAR_OUT :: int where "CLEAR_OUT \<equiv> 3"
abbreviation (input) CLEAR_SIDEWAY :: int where "CLEAR_SIDEWAY \<equiv> 4"
abbreviation (input) CLEAR_RANDOM :: int where "CLEAR_RANDOM \<equiv> 5"

datatype clear = NoClear | FromIn | FromOut | Sideway

section \<open>Line policy\<close>

definition is_blank :: "char \<Rightarrow> bool" where
  "is_blank c \<longleftrightarrow> c = CHR '' '' \<or> c = CHR 0x09 \<or> c = CHR 0x0D"

definition clean_line :: "string \<Rightarrow> string" where
  "clean_line raw =
     (let fin = (case find_index (\<lambda>c. c = CHR ''#'') raw of Some k \<Rightarrow> k | None \<Rightarrow> length raw)
      in case find_index (\<lambda>c. \<not> is_blank c) raw of
           None \<Rightarrow> []
         | Some b \<Rightarrow>
             if b \<ge> fin then []
             else (case find_last_upto (\<lambda>c. \<not> is_blank c) (fin - 1) raw of
                     None \<Rightarrow> (if raw ! b \<noteq> CHR ''/'' then ''/'' else []) @ drop b raw
                   | Some e \<Rightarrow> (if raw ! b \<noteq> CHR ''/'' then ''/'' else []) @ substr b (e + 1 - b) raw))"

text \<open>
  The reference policy: cut the comment, trim, add the leading slash. (In
  \<open>clean_line\<close> the position \<open>e\<close> always exists; the None branch is what the code would
  append with npos.)
\<close>

definition slashed :: "string \<Rightarrow> string" where
  "slashed t = (if t = [] then [] else if hd t = CHR ''/'' then t else CHR ''/'' # t)"

definition uncomment :: "string \<Rightarrow> string" where
  "uncomment raw = takeWhile (\<lambda>c. c \<noteq> CHR ''#'') raw"

function parse_loop :: "nat \<Rightarrow> string \<Rightarrow> string list \<Rightarrow> string list" where
  "parse_loop max_items rest items =
     (if rest \<noteq> [] \<and> length items < max_items then
        let (raw, rest') =
              (case find_index (\<lambda>c. c = CHR 0x0A) rest of
                 None \<Rightarrow> (rest, [])
               | Some eol \<Rightarrow> (take eol rest, drop (eol + 1) rest));
            path = clean_line raw
        in parse_loop max_items rest' (if path \<noteq> [] then items @ [path] else items)
      else items)"
  by pat_completeness auto
termination
  by (relation "measure (\<lambda>(m, rest, items). length rest)")
    (auto split: option.splits prod.splits)

declare parse_loop.simps [simp del]

definition parse_playlist :: "string \<Rightarrow> nat \<Rightarrow> string list" where
  "parse_playlist content max_items = parse_loop max_items content []"

section \<open>First radius of a pattern\<close>

definition eps_1e9 :: rat where
  "eps_1e9 = 9007199 / 9007199254740992"

definition is_zero_pair :: "rat \<times> rat \<Rightarrow> bool" where
  "is_zero_pair c \<longleftrightarrow>
     - eps_1e9 < fst c \<and> fst c < eps_1e9 \<and> - eps_1e9 < snd c \<and> snd c < eps_1e9"

function coords_loop ::
  "(string \<Rightarrow> (rat \<times> rat) option) \<Rightarrow> string \<Rightarrow> (rat \<times> rat) list \<Rightarrow> (rat \<times> rat) list" where
  "coords_loop scan2 rest coords =
     (if length coords < 3 \<and> rest \<noteq> [] then
        let (line, rest') =
              (case find_index (\<lambda>c. c = CHR 0x0A) rest of
                 None \<Rightarrow> (rest, [])
               | Some eol \<Rightarrow> (take eol rest, drop (eol + 1) rest))
        in if line = [] \<or> hd line = CHR ''#'' then coords_loop scan2 rest' coords
           else (case scan2 line of
                   None \<Rightarrow> coords_loop scan2 rest' coords
                 | Some tr \<Rightarrow> coords_loop scan2 rest' (coords @ [tr]))
      else coords)"
  by pat_completeness auto
termination
  by (relation "measure (\<lambda>(s, rest, cs). length rest)")
    (auto split: option.splits prod.splits)

declare coords_loop.simps [simp del]

definition first_rho :: "(string \<Rightarrow> (rat \<times> rat) option) \<Rightarrow> string \<Rightarrow> rat" where
  "first_rho scan2 content =
     (let coords = coords_loop scan2 content []
      in if coords = [] then - 1
         else if length coords \<ge> 3 \<and> is_zero_pair (coords ! 0) \<and> is_zero_pair (coords ! 1)
         then snd (coords ! 2)
         else snd (coords ! 0))"

definition choose_clear :: "int \<Rightarrow> rat \<Rightarrow> u32 \<Rightarrow> clear" where
  "choose_clear clear_mode rho rnd =
     (if clear_mode = CLEAR_IN then FromIn
      else if clear_mode = CLEAR_OUT then FromOut
      else if clear_mode = CLEAR_SIDEWAY then Sideway
      else if clear_mode = CLEAR_RANDOM then [FromIn, FromOut, Sideway] ! unat (rnd mod 3)
      else if clear_mode = CLEAR_ADAPTIVE then
        (if rho < 0 then (if rnd AND 1 \<noteq> 0 then FromIn else FromOut)
         else if rho < 1 / 2 then FromOut else FromIn)
      else NoClear)"

section \<open>Names and arguments\<close>

definition clear_mode_table :: "(string \<times> int) list" where
  "clear_mode_table =
     [(''none'', CLEAR_NONE), (''adaptive'', CLEAR_ADAPTIVE), (''in'', CLEAR_IN),
      (''out'', CLEAR_OUT), (''sideway'', CLEAR_SIDEWAY), (''side'', CLEAR_SIDEWAY),
      (''random'', CLEAR_RANDOM)]"

text \<open>\<open>parse_clear_mode\<close>: None is the result false, which leaves \<open>mode\<close> as it was.\<close>

definition parse_clear_mode :: "string option \<Rightarrow> int option" where
  "parse_clear_mode name =
     (case name of None \<Rightarrow> None
      | Some n \<Rightarrow> if n = [] then None
                  else map_option snd (find (\<lambda>e. caseeq n (fst e)) clear_mode_table))"

function ext_loop :: "string \<Rightarrow> string \<Rightarrow> bool" where
  "ext_loop name p =
     (if p = [] then False
      else let p1 = dropWhile (\<lambda>c. c = CHR '' '') p;
               ext = takeWhile (\<lambda>c. c \<noteq> CHR '' '') p1;
               e = dropWhile (\<lambda>c. c \<noteq> CHR '' '') p1;
               el = length ext
           in if el \<noteq> 0 \<and> length name \<ge> el \<and> caseeq (drop (length name - el) name) ext then True
              else ext_loop name e)"
  by pat_completeness auto
termination
proof (relation "measure (\<lambda>(n, p). length p)", goal_cases)
  case 1
  show ?case by simp
next
  case (2 name p p1 ext e el)
  have "length e < length p"
  proof (cases "hd p = CHR '' ''")
    case True
    with 2 have "length p1 < length p"
      by (cases p) (auto simp: less_Suc_eq_le length_dropWhile_le)
    moreover have "length e \<le> length p1" using 2 by (simp add: length_dropWhile_le)
    ultimately show ?thesis by simp
  next
    case False
    with 2 have "p1 = p" by (cases p) auto
    with False 2 show ?thesis
      by (cases p) (auto simp: less_Suc_eq_le length_dropWhile_le)
  qed
  with 2 show ?case by simp
qed

declare ext_loop.simps [simp del]

definition has_ext_in :: "string \<Rightarrow> string option \<Rightarrow> bool" where
  "has_ext_in name exts =
     (case exts of None \<Rightarrow> True | Some x \<Rightarrow> if x = [] then True else ext_loop name x)"

definition kPatternExts :: string where
  "kPatternExts = ''.thr .gcode .gc .nc''"

text \<open>
  \<open>parse_run_args(value, path, clear_mode)\<close>: the returned flag, then the two output
  strings.
\<close>

definition parse_run_args :: "string \<Rightarrow> bool \<times> string \<times> string" where
  "parse_run_args v =
     (case find_last (\<lambda>c. \<not> is_blank c) v of
        None \<Rightarrow> (False, [], [])
      | Some fin \<Rightarrow>
          (let begin = (case find_index (\<lambda>c. \<not> is_blank c) v of Some b \<Rightarrow> b | None \<Rightarrow> 0);
               last_ws = find_last_upto (\<lambda>c. c = CHR '' '' \<or> c = CHR 0x09) fin v;
               tok = (case last_ws of None \<Rightarrow> begin
                      | Some w \<Rightarrow> if w < begin then begin else w + 1)
           in if substr tok 6 v = ''clear='' then
                let clear_mode = substr (tok + 6) (fin + 1 - (tok + 6)) v
                in if tok = begin then (False, [], clear_mode)
                   else (case find_last_upto (\<lambda>c. \<not> is_blank c) (the last_ws) v of
                           Some fin' \<Rightarrow> (True, substr begin (fin' + 1 - begin) v, clear_mode)
                         | None \<Rightarrow> (True, drop begin v, clear_mode))
              else (True, substr begin (fin + 1 - begin) v, [])))"

section \<open>What the line policy computes\<close>

lemma find_index_take:
  "find_index P s = Some b \<Longrightarrow> b < n \<Longrightarrow> find_index P (take n s) = Some b"
  by (induction s arbitrary: b n) (auto simp: take_Cons' split: if_splits)

lemma find_index_nth_prefix: "find_index P s = Some b \<Longrightarrow> \<forall>c \<in> set (take b s). \<not> P c"
  by (drule find_index_SomeD) (auto simp: in_set_conv_nth)

lemma uncomment_take:
  "uncomment raw = take (case find_index (\<lambda>c. c = CHR ''#'') raw of Some k \<Rightarrow> k | None \<Rightarrow> length raw) raw"
  using find_index_takeWhile [of "\<lambda>c. c = CHR ''#''" raw]
    find_index_None_takeWhile [of "\<lambda>c. c = CHR ''#''" raw]
  by (auto simp: uncomment_def split: option.splits)

lemma trimmed_piece:
  assumes b: "find_index (\<lambda>c. \<not> W c) raw = Some b" and bf: "b < fin" and fl: "fin \<le> length raw"
  shows "\<exists>e. find_last_upto (\<lambda>c. \<not> W c) (fin - 1) raw = Some e \<and>
             substr b (e + 1 - b) raw = strip W (take fin raw)"
proof -
  from b bf have b': "find_index (\<lambda>c. \<not> W c) (take fin raw) = Some b"
    by (rule find_index_take)
  have up: "find_last_upto (\<lambda>c. \<not> W c) (fin - 1) raw = find_last (\<lambda>c. \<not> W c) (take fin raw)"
    using bf by (simp add: find_last_upto_def)
  from find_index_SomeD [OF b'] have "\<exists>c \<in> set (take fin raw). \<not> W c"
    using nth_mem by blast
  then obtain e where e: "find_last (\<lambda>c. \<not> W c) (take fin raw) = Some e"
    using find_last_None [of "\<lambda>c. \<not> W c" "take fin raw"] by (metis not_Some_eq)
  from trim_is_strip [OF b' e] fl
  have "b \<le> e" "e < fin" "take (e - b + 1) (drop b (take fin raw)) = strip W (take fin raw)"
    by simp_all
  then have "substr b (e + 1 - b) raw = strip W (take fin raw)"
    by (simp add: substr_def drop_take min_def Suc_diff_le split: if_splits)
  with up e show ?thesis by auto
qed

lemma hd_strip:
  "find_index (\<lambda>c. \<not> W c) s = Some b \<Longrightarrow> strip W s \<noteq> [] \<and> hd (strip W s) = s ! b"
proof -
  assume b: "find_index (\<lambda>c. \<not> W c) s = Some b"
  from find_index_SomeD [OF b] have lt: "b < length s" and nW: "\<not> W (s ! b)" by simp_all
  then have ne: "\<exists>c \<in> set s. \<not> W c" using nth_mem by blast
  then obtain e where "find_last (\<lambda>c. \<not> W c) s = Some e"
    using find_last_None [of "\<lambda>c. \<not> W c" s] by (metis not_Some_eq)
  from trim_is_strip [OF b this] lt
  have "strip W s = take (e - b + 1) (drop b s)" by simp
  with lt show ?thesis by (simp add: hd_drop_conv_nth)
qed

lemma clean_line_eq: "clean_line raw = slashed (strip is_blank (uncomment raw))"
proof (cases "find_index (\<lambda>c. \<not> is_blank c) raw")
  case None
  then have "\<forall>c \<in> set raw. is_blank c" by (simp add: find_index_None)
  moreover from this have "\<forall>c \<in> set (uncomment raw). is_blank c"
    by (auto simp: uncomment_def dest: set_takeWhileD)
  ultimately show ?thesis using None by (simp add: clean_line_def slashed_def)
next
  case b: (Some b)
  define fin where
    "fin = (case find_index (\<lambda>c. c = CHR ''#'') raw of Some k \<Rightarrow> k | None \<Rightarrow> length raw)"
  have fl: "fin \<le> length raw"
    by (auto simp: fin_def less_imp_le dest: find_index_length split: option.splits)
  have un: "uncomment raw = take fin raw" by (simp add: fin_def uncomment_take)
  show ?thesis
  proof (cases "b < fin")
    case True
    from trimmed_piece [OF b True fl] obtain e where
      e: "find_last_upto (\<lambda>c. \<not> is_blank c) (fin - 1) raw = Some e"
        "substr b (e + 1 - b) raw = strip is_blank (take fin raw)" by blast
    have "hd (strip is_blank (take fin raw)) = raw ! b" "strip is_blank (take fin raw) \<noteq> []"
      using hd_strip [OF find_index_take [OF b True]] True by simp_all
    with b True e show ?thesis
      by (simp add: clean_line_def slashed_def un flip: fin_def del: strip_eq_Nil)
  next
    case False
    with find_index_nth_prefix [OF b] have "\<forall>c \<in> set (take fin raw). is_blank c"
      using set_take_subset_set_take [of fin b raw] by auto
    then have "strip is_blank (uncomment raw) = []" by (simp add: un)
    with b False show ?thesis
      by (simp add: clean_line_def slashed_def flip: fin_def)
  qed
qed

lemma slashed_hd: "slashed t \<noteq> [] \<Longrightarrow> hd (slashed t) = CHR ''/''"
  by (auto simp: slashed_def split: if_splits)

lemma clean_line_slash: "clean_line raw \<noteq> [] \<Longrightarrow> hd (clean_line raw) = CHR ''/''"
  unfolding clean_line_eq by (rule slashed_hd)

text \<open>The lines of a file, as a list: the reference for the two line readers.\<close>

definition file_lines :: "string \<Rightarrow> string list" where
  "file_lines content = split_on (CHR 0x0A) content"

definition patterns_of :: "string \<Rightarrow> string list" where
  "patterns_of content = filter (\<lambda>p. p \<noteq> []) (map clean_line (file_lines content))"

lemma clean_line_Nil [simp]: "clean_line [] = []"
  by (simp add: clean_line_def)

lemma parse_loop_eq:
  "length items \<le> n \<Longrightarrow>
   parse_loop n rest items =
     items @ take (n - length items) (filter (\<lambda>p. p \<noteq> []) (map clean_line (split_on (CHR 0x0A) rest)))"
proof (induction n rest items rule: parse_loop.induct)
  case (1 n rest items)
  show ?case
  proof (cases "rest \<noteq> [] \<and> length items < n")
    case False
    with "1.prems" show ?thesis
      by (subst parse_loop.simps) auto
  next
    case True
    define raw where "raw = (case find_index (\<lambda>c. c = CHR 0x0A) rest of
        None \<Rightarrow> rest | Some eol \<Rightarrow> take eol rest)"
    define rest' where "rest' = (case find_index (\<lambda>c. c = CHR 0x0A) rest of
        None \<Rightarrow> [] | Some eol \<Rightarrow> drop (eol + 1) rest)"
    have split: "(case find_index (\<lambda>c. c = CHR 0x0A) rest of
        None \<Rightarrow> (rest, []) | Some eol \<Rightarrow> (take eol rest, drop (eol + 1) rest)) = (raw, rest')"
      by (simp add: raw_def rest'_def split: option.split)
    have lines: "filter (\<lambda>p. p \<noteq> []) (map clean_line (split_on (CHR 0x0A) rest)) =
        (if clean_line raw \<noteq> [] then [clean_line raw] else []) @
        filter (\<lambda>p. p \<noteq> []) (map clean_line (split_on (CHR 0x0A) rest'))"
      by (subst split_on_find) (simp add: raw_def rest'_def split: option.split)
    have IH: "parse_loop n rest' (if clean_line raw \<noteq> [] then items @ [clean_line raw] else items) =
        (if clean_line raw \<noteq> [] then items @ [clean_line raw] else items) @
        take (n - length (if clean_line raw \<noteq> [] then items @ [clean_line raw] else items))
          (filter (\<lambda>p. p \<noteq> []) (map clean_line (split_on (CHR 0x0A) rest')))"
      by (rule "1.IH" [OF True split [symmetric] refl refl]) (use True in auto)
    have "parse_loop n rest items =
        parse_loop n rest' (if clean_line raw \<noteq> [] then items @ [clean_line raw] else items)"
      using True by (subst parse_loop.simps) (simp only: split Let_def case_prod_conv if_True simp_thms)
    with IH lines True show ?thesis
      by (auto simp: take_Cons' Suc_diff_Suc)
  qed
qed

lemma parse_playlist_eq: "parse_playlist content n = take n (patterns_of content)"
  by (simp add: parse_playlist_def parse_loop_eq patterns_of_def file_lines_def)

section \<open>What the extension test computes\<close>

definition ends_with_ci :: "string \<Rightarrow> string \<Rightarrow> bool" where
  "ends_with_ci name e \<longleftrightarrow> (\<exists>p q. name = p @ q \<and> caseeq q e)"

lemma ends_with_ci_drop:
  "ends_with_ci name e \<longleftrightarrow> length e \<le> length name \<and> caseeq (drop (length name - length e) name) e"
proof
  assume "ends_with_ci name e"
  then obtain p q where "name = p @ q" "caseeq q e" by (auto simp: ends_with_ci_def)
  moreover from this have "length q = length e" by (metis caseeq_def length_map)
  ultimately show "length e \<le> length name \<and> caseeq (drop (length name - length e) name) e" by simp
qed (metis append_take_drop_id ends_with_ci_def)

lemma ext_loop_eq:
  "ext_loop name p \<longleftrightarrow> (\<exists>e \<in> set (split_on (CHR '' '') p). e \<noteq> [] \<and> ends_with_ci name e)"
proof (induction name p rule: ext_loop.induct)
  case (1 name p)
  define p1 where "p1 = dropWhile (\<lambda>c. c = CHR '' '') p"
  define ext where "ext = takeWhile (\<lambda>c. c \<noteq> CHR '' '') p1"
  define e where "e = dropWhile (\<lambda>c. c \<noteq> CHR '' '') p1"
  show ?case
  proof (cases "p = []")
    case True
    then show ?thesis by (simp add: ext_loop.simps)
  next
    case False
    have pad: "{x \<in> set (split_on (CHR '' '') p). x \<noteq> []} = {x \<in> set (split_on (CHR '' '') p1). x \<noteq> []}"
      unfolding p1_def by (induction p) (auto simp: split_on_def)
    have p1: "p1 = ext @ e" by (simp add: ext_def e_def)
    have ne: "CHR '' '' \<notin> set ext" by (auto simp: ext_def dest: set_takeWhileD)
    have e: "e = [] \<or> (\<exists>e'. e = CHR '' '' # e')"
      unfolding e_def by (cases "dropWhile (\<lambda>c. c \<noteq> CHR '' '') p1") (auto simp: dropWhile_eq_Cons_conv)
    have pieces: "{x \<in> set (split_on (CHR '' '') p). x \<noteq> []} =
        {x \<in> insert ext (set (split_on (CHR '' '') e)). x \<noteq> []}"
      unfolding pad unfolding p1 using e ne split_on_append [of "CHR '' ''" "[]"] by auto
    have IH: "\<not> (length ext \<noteq> 0 \<and> length ext \<le> length name \<and> caseeq (drop (length name - length ext) name) ext)
        \<Longrightarrow> ext_loop name e \<longleftrightarrow> (\<exists>x \<in> set (split_on (CHR '' '') e). x \<noteq> [] \<and> ends_with_ci name x)"
      using "1.IH" [OF False p1_def ext_def e_def refl] by blast
    have "ext_loop name p \<longleftrightarrow> (ext \<noteq> [] \<and> ends_with_ci name ext) \<or> ext_loop name e"
      using False by (subst ext_loop.simps)
        (auto simp: Let_def ends_with_ci_drop p1_def ext_def e_def)
    also have "\<dots> \<longleftrightarrow> (\<exists>x \<in> insert ext (set (split_on (CHR '' '') e)). x \<noteq> [] \<and> ends_with_ci name x)"
      using IH by (auto simp: ends_with_ci_drop)
    finally show ?thesis using pieces by blast
  qed
qed

section \<open>What the argument splitter computes\<close>

definition is_sep :: "char \<Rightarrow> bool" where
  "is_sep c \<longleftrightarrow> c = CHR '' '' \<or> c = CHR 0x09"

definition last_token :: "string \<Rightarrow> string" where
  "last_token t = rev (takeWhile (\<lambda>c. \<not> is_sep c) (rev t))"

definition run_args_spec :: "string \<Rightarrow> bool \<times> string \<times> string" where
  "run_args_spec v =
     (let t = strip is_blank v; tok = last_token t
      in if t = [] then (False, [], [])
         else if take 6 tok = ''clear='' then
           (if tok = t then (False, [], drop 6 tok)
            else (True, strip is_blank (take (length t - length tok) t), drop 6 tok))
         else (True, t, []))"

lemma prefix6_blank_tail:
  assumes "\<forall>c \<in> set r. is_blank c"
  shows "take 6 (x @ r) = ''clear='' \<longleftrightarrow> take 6 x = ''clear=''"
proof (cases "6 \<le> length x")
  case True
  then show ?thesis by simp
next
  case False
  then have "length (take 6 x) \<noteq> length ''clear=''" by simp
  then have "take 6 x \<noteq> ''clear=''" by metis
  moreover have "take 6 (x @ r) \<noteq> ''clear=''"
  proof
    assume a: "take 6 (x @ r) = ''clear=''"
    then have l: "length (take 6 (x @ r)) = length ''clear=''" by (simp only:)
    then have "6 \<le> length x + length r" by (simp add: min_def split: if_splits)
    with False have lt: "5 - length x < length r" by linarith
    have "take 6 (x @ r) ! 5 = r ! (5 - length x)"
      using False by (simp add: nth_append)
    also have "take 6 (x @ r) ! 5 = CHR ''=''" by (simp only: a) simp
    finally have "r ! (5 - length x) = CHR ''=''" by (rule sym)
    with lt have "CHR ''='' \<in> set r" by (metis nth_mem)
    with assms have "is_blank (CHR ''='')" by blast
    then show False by (simp add: is_blank_def)
  qed
  ultimately show ?thesis by simp
qed

lemma sep_blank: "is_sep c \<Longrightarrow> is_blank c"
  by (auto simp: is_sep_def is_blank_def)

lemma find_last_sep:
  assumes "\<not> is_sep (last t)" "t \<noteq> []"
  shows "find_last is_sep (u @ t) =
    (if \<exists>c \<in> set t. is_sep c then Some (length u + (length t - length (last_token t)) - 1)
     else find_last is_sep u)"
proof (cases "find_index is_sep (rev t)")
  case None
  then have "\<forall>c \<in> set (rev t). \<not> is_sep c" by (simp add: find_index_None)
  then show ?thesis
    by (cases "find_index is_sep (rev u)") (auto simp: find_last_def)
next
  case (Some i)
  from find_index_length [OF Some] have i: "i < length t" by simp
  from find_index_takeWhile [OF Some] i have "length (last_token t) = i"
    by (simp add: last_token_def min_def)
  moreover from find_index_SomeD [OF Some] have "\<exists>c \<in> set t. is_sep c"
    by (metis length_rev nth_mem set_rev)
  ultimately show ?thesis using Some i
    by (simp add: find_last_def find_index_append)
qed

lemma last_token_suffix: "\<exists>p. t = p @ last_token t \<and> (p = [] \<or> is_sep (last p))"
proof (intro exI conjI)
  have "rev t = takeWhile (\<lambda>c. \<not> is_sep c) (rev t) @ dropWhile (\<lambda>c. \<not> is_sep c) (rev t)" by simp
  then show "t = rev (dropWhile (\<lambda>c. \<not> is_sep c) (rev t)) @ last_token t"
    unfolding last_token_def by (metis rev_append rev_rev_ident)
  show "rev (dropWhile (\<lambda>c. \<not> is_sep c) (rev t)) = [] \<or>
      is_sep (last (rev (dropWhile (\<lambda>c. \<not> is_sep c) (rev t))))"
    by (metis hd_dropWhile hd_rev last_rev rev.simps(1) rev_rev_ident)
qed

lemma run_args_frame:
  assumes u: "\<forall>c \<in> set u. is_blank c" and r: "\<forall>c \<in> set r. is_blank c"
    and t: "t \<noteq> []" "\<not> is_blank (hd t)" "\<not> is_blank (last t)"
  defines "fin \<equiv> length u + length t - 1"
  defines "last_ws \<equiv> find_last_upto (\<lambda>c. c = CHR '' '' \<or> c = CHR 0x09) fin (u @ t @ r)"
  defines "tok \<equiv> (case last_ws of None \<Rightarrow> length u
                      | Some w \<Rightarrow> if w < length u then length u else w + 1)"
  shows "tok = length u + (length t - length (last_token t))"
    and "last_token t \<noteq> t \<Longrightarrow> last_ws = Some (tok - 1) \<and> length u < tok"
proof -
  have sf: "Suc fin = length (u @ t)" using t(1) by (cases t) (simp_all add: fin_def)
  have up: "take (Suc fin) (u @ t @ r) = u @ t" unfolding sf by simp
  have nsep: "\<not> is_sep (last t)" using t(3) sep_blank by blast
  have lw: "last_ws = (if \<exists>c \<in> set t. is_sep c
      then Some (length u + (length t - length (last_token t)) - 1) else find_last is_sep u)"
    using find_last_sep [OF nsep t(1), of u] up
    by (simp add: last_ws_def find_last_upto_def is_sep_def [abs_def])
  obtain p where p: "t = p @ last_token t" "p = [] \<or> is_sep (last p)"
    using last_token_suffix [of t] by (elim exE conjE) (rule that)
  have tokfree: "\<forall>c \<in> set (last_token t). \<not> is_sep c"
    by (auto simp: last_token_def dest: set_takeWhileD)
  have sep_iff: "(\<exists>c \<in> set t. is_sep c) \<longleftrightarrow> p \<noteq> []"
    using p tokfree by (metis Un_iff last_in_set set_append empty_iff list.set(1) append_Nil)
  have lp: "length t - length (last_token t) = length p" using p(1) by (metis diff_add_inverse2 length_append)
  show tok: "tok = length u + (length t - length (last_token t))"
  proof (cases "p = []")
    case True
    then have "last_ws = find_last is_sep u" using lw sep_iff by simp
    then show ?thesis
      using True lp by (auto simp: tok_def find_last_def dest: find_index_length split: option.splits)
  next
    case False
    with lw sep_iff lp have "last_ws = Some (length u + length p - 1)" by simp
    with False lp show ?thesis by (cases p) (auto simp: tok_def)
  qed
  assume "last_token t \<noteq> t"
  with p(1) have "p \<noteq> []" by auto
  with lw sep_iff lp tok show "last_ws = Some (tok - 1) \<and> length u < tok"
    by (cases p) auto
qed

lemma run_args_padded:
  assumes u: "\<forall>c \<in> set u. is_blank c" and r: "\<forall>c \<in> set r. is_blank c"
    and t: "t \<noteq> []" "\<not> is_blank (hd t)" "\<not> is_blank (last t)"
  shows "parse_run_args (u @ t @ r) =
    (if take 6 (last_token t) = ''clear='' then
       (if last_token t = t then (False, [], drop 6 (last_token t))
        else (True, strip is_blank (take (length t - length (last_token t)) t), drop 6 (last_token t)))
     else (True, t, []))"
proof -
  let ?v = "u @ t @ r"
  define fin where "fin = length u + length t - 1"
  define lw where "lw = find_last_upto (\<lambda>c. c = CHR '' '' \<or> c = CHR 0x09) fin ?v"
  define tok where "tok = (case lw of None \<Rightarrow> length u
                      | Some w \<Rightarrow> if w < length u then length u else w + 1)"
  let ?k = "length t - length (last_token t)"
  note fr = run_args_frame [OF u r t, folded fin_def lw_def tok_def, folded fin_def lw_def, folded tok_def]
  have fi: "find_index (\<lambda>c. \<not> is_blank c) ?v = Some (length u)" by (rule find_index_pad [OF u t(1,2)])
  have fl: "find_last (\<lambda>c. \<not> is_blank c) ?v = Some fin"
    unfolding fin_def by (rule find_last_pad [OF r t(1,3)])
  have fs: "fin + 1 = length u + length t" using t(1) by (cases t) (auto simp: fin_def)
  obtain p where p: "t = p @ last_token t"
    using last_token_suffix [of t] by (elim exE conjE) (rule that)
  have kp: "?k = length p" using p by (metis diff_add_inverse2 length_append)
  have dt: "drop tok ?v = last_token t @ r"
    unfolding fr(1) kp using p by (metis append.assoc append_eq_conv_conj drop_drop add.commute)
  have s6: "substr tok 6 ?v = ''clear='' \<longleftrightarrow> take 6 (last_token t) = ''clear=''"
    by (simp only: substr_def dt prefix6_blank_tail [OF r])
  have whole: "substr (length u) (fin + 1 - length u) ?v = t"
    unfolding fs by (simp add: substr_def)
  have teq: "tok = length u \<longleftrightarrow> last_token t = t"
  proof -
    have "p @ last_token t = last_token t \<longleftrightarrow> p = []" by simp
    then have "t = last_token t \<longleftrightarrow> p = []" using p by (simp only:)
    then show ?thesis unfolding fr(1) kp by auto
  qed
  have unf: "parse_run_args ?v =
    (if substr tok 6 ?v = ''clear='' then
       if tok = length u then (False, [], substr (tok + 6) (fin + 1 - (tok + 6)) ?v)
       else (case find_last_upto (\<lambda>c. \<not> is_blank c) (the lw) ?v of
               Some fin' \<Rightarrow> (True, substr (length u) (fin' + 1 - length u) ?v,
                             substr (tok + 6) (fin + 1 - (tok + 6)) ?v)
             | None \<Rightarrow> (True, drop (length u) ?v, substr (tok + 6) (fin + 1 - (tok + 6)) ?v))
     else (True, substr (length u) (fin + 1 - length u) ?v, []))"
    by (simp only: parse_run_args_def fi fl option.case Let_def lw_def tok_def)
  show ?thesis
  proof (cases "take 6 (last_token t) = ''clear=''")
    case False
    with s6 whole show ?thesis unfolding unf by simp
  next
    case True
    have tl: "fin + 1 = tok + length (last_token t)"
      unfolding fr(1) fs using p by (metis add.assoc kp length_append)
    have cm: "substr (tok + 6) (fin + 1 - (tok + 6)) ?v = drop 6 (last_token t)"
    proof -
      have "drop (tok + 6) ?v = drop 6 (last_token t @ r)"
        by (metis dt drop_drop add.commute)
      moreover have "6 \<le> length (last_token t)"
      proof (rule ccontr)
        assume "\<not> 6 \<le> length (last_token t)"
        then have "length (take 6 (last_token t)) \<noteq> length ''clear=''" by simp
        with True show False by (simp only: simp_thms)
      qed
      ultimately show ?thesis unfolding substr_def tl by simp
    qed
    show ?thesis
    proof (cases "last_token t = t")
      case same: True
      with True s6 cm teq show ?thesis unfolding unf by (simp only: if_True simp_thms)
    next
      case diff: False
      from fr(2) [OF diff] have lw: "lw = Some (tok - 1)" and lt: "length u < tok" by simp_all
      have tokle: "tok \<le> length ?v" using tl fs by simp
      from trimmed_piece [OF fi lt tokle] obtain e where
        e: "find_last_upto (\<lambda>c. \<not> is_blank c) (tok - 1) ?v = Some e"
          "substr (length u) (e + 1 - length u) ?v = strip is_blank (take tok ?v)" by blast
      have "take tok ?v = u @ take ?k t"
        unfolding fr(1) by simp
      with strip_pad [OF u, of "[]" "take ?k t"]
      have st: "strip is_blank (take tok ?v) = strip is_blank (take ?k t)" by simp
      from teq diff have "tok \<noteq> length u" by simp
      with True s6 cm lw e st diff show ?thesis
        unfolding unf by (simp only: if_True if_False simp_thms option.case option.sel)
    qed
  qed
qed

lemma parse_run_args_eq: "parse_run_args v = run_args_spec v"
proof (cases "strip is_blank v = []")
  case True
  then have "find_last (\<lambda>c. \<not> is_blank c) v = None" by (simp add: find_last_None)
  with True show ?thesis by (simp add: parse_run_args_def run_args_spec_def)
next
  case False
  obtain u r where v: "v = u @ strip is_blank v @ r" "\<forall>c \<in> set u. is_blank c" "\<forall>c \<in> set r. is_blank c"
    using strip_split [of v is_blank] by (elim exE conjE) (rule that)
  from run_args_padded [OF v(2,3) False strip_ends [OF False]] False show ?thesis
    unfolding v(1) [symmetric] by (simp add: run_args_spec_def Let_def)
qed

end
