(* ===== verification/QuietHours.thy ===== *)
theory QuietHours
  imports Prelude
begin

text \<open>
  FluidNC/src/QuietHours.cpp and .h: the "Still Sands" slot specification, its parser
  and the test whether a time of day is quiet. The parser's error message is a value of
  \<open>qerr\<close> that names the message and carries the offending item.
\<close>

section \<open>Slots\<close>

record slot =
  start_min :: u16
  end_min :: u16
  days :: u8

datatype qerr = ExpectedSlot string | BadTime string | BadDays string

definition dayNames :: "string list" where
  "dayNames = [''sun'', ''mon'', ''tue'', ''wed'', ''thu'', ''fri'', ''sat'']"

section \<open>The parser\<close>

definition is_spacetab :: "char \<Rightarrow> bool" where
  "is_spacetab c \<longleftrightarrow> c = CHR '' '' \<or> c = CHR 0x09"

definition trim :: "string \<Rightarrow> string" where
  "trim s =
     (case find_index (\<lambda>c. \<not> is_spacetab c) s of
        None \<Rightarrow> []
      | Some b \<Rightarrow>
          (case find_last (\<lambda>c. \<not> is_spacetab c) s of
             None \<Rightarrow> drop b s
           | Some e \<Rightarrow> substr b (e + 1 - b) s))"

text \<open>
  \<open>sscanf\<close>'s \<open>%u\<close>: white space is skipped, then an optional sign and at least one
  digit. The value is that of \<open>strtoul\<close>: saturated at 2^32 - 1, negated modulo 2^32
  after a minus sign. The unread rest is returned.
\<close>

definition is_digit :: "char \<Rightarrow> bool" where
  "is_digit c \<longleftrightarrow> 48 \<le> byte c \<and> byte c \<le> 57"

definition is_space :: "char \<Rightarrow> bool" where
  "is_space c \<longleftrightarrow> byte c = 32 \<or> 9 \<le> byte c \<and> byte c \<le> 13"

definition digits_val :: "string \<Rightarrow> nat" where
  "digits_val ds = foldl (\<lambda>n c. 10 * n + (byte c - 48)) 0 ds"

definition scan_u :: "string \<Rightarrow> (nat \<times> string) option" where
  "scan_u s =
     (let s1 = dropWhile is_space s;
          (neg, s2) = (case s1 of [] \<Rightarrow> (False, s1)
                       | c # cs \<Rightarrow> if c = CHR ''-'' then (True, cs)
                                   else if c = CHR ''+'' then (False, cs) else (False, s1));
          ds = takeWhile is_digit s2;
          n = digits_val ds
      in if ds = [] then None
         else Some (if n > 2 ^ 32 - 1 then 2 ^ 32 - 1
                    else if neg then (2 ^ 32 - n) mod 2 ^ 32 else n,
                    dropWhile is_digit s2))"

text \<open>\<open>parseTime\<close>: \<open>sscanf(s, "%u:%u", &h, &m) == 2\<close>, then the range checks.\<close>

definition parseTime :: "string \<Rightarrow> u16 option" where
  "parseTime s =
     (case scan_u s of
        None \<Rightarrow> None
      | Some (h, r) \<Rightarrow>
          (case r of
             [] \<Rightarrow> None
           | c # cs \<Rightarrow>
               if c \<noteq> CHR '':'' then None
               else (case scan_u cs of
                       None \<Rightarrow> None
                     | Some (m, r') \<Rightarrow>
                         if h > 23 \<or> m > 59 then None else Some (of_nat (h * 60 + m)))))"

definition add_day :: "string \<Rightarrow> u8 \<Rightarrow> u8 option" where
  "add_day name d =
     (case find_index (\<lambda>n. n = name) dayNames of
        None \<Rightarrow> None | Some i \<Rightarrow> Some (d OR push_bit i 1))"

function days_loop :: "string \<Rightarrow> u8 \<Rightarrow> u8 option" where
  "days_loop s d =
     (case find_index (\<lambda>c. c = CHR ''+'') s of
        None \<Rightarrow> add_day (trim s) d
      | Some k \<Rightarrow>
          (case add_day (trim (take k s)) d of
             None \<Rightarrow> None
           | Some d' \<Rightarrow> days_loop (drop (k + 1) s) d'))"
  by pat_completeness auto
termination
  by (relation "measure (\<lambda>(s, d). length s)") (auto dest: find_index_length)

declare days_loop.simps [simp del]

definition parseDays :: "string \<Rightarrow> u8 option" where
  "parseDays s =
     (if s = ''daily'' then Some 0x7F
      else if s = ''weekdays'' then Some 0x3E
      else if s = ''weekends'' then Some 0x41
      else (case days_loop s 0 of None \<Rightarrow> None
            | Some d \<Rightarrow> if d \<noteq> 0 then Some d else None))"

definition parse_item :: "string \<Rightarrow> qerr + slot" where
  "parse_item item =
     (case (find_index (\<lambda>c. c = CHR ''-'') item, find_index (\<lambda>c. c = CHR ''@'') item) of
        (Some dash, Some at) \<Rightarrow>
          if at < dash then Inl (ExpectedSlot item)
          else (case (parseTime (trim (substr 0 dash item)),
                      parseTime (trim (substr (dash + 1) (at - dash - 1) item))) of
                  (Some t1, Some t2) \<Rightarrow>
                    (case parseDays (trim (drop (at + 1) item)) of
                       None \<Rightarrow> Inl (BadDays item)
                     | Some d \<Rightarrow> Inr \<lparr>start_min = t1, end_min = t2, days = d\<rparr>)
                | _ \<Rightarrow> Inl (BadTime item))
      | _ \<Rightarrow> Inl (ExpectedSlot item))"

function slots_loop :: "string \<Rightarrow> slot list \<Rightarrow> slot list \<times> qerr option" where
  "slots_loop rest slots =
     (if rest = [] then (slots, None)
      else let (piece, rest') =
                 (case find_index (\<lambda>c. c = CHR '','') rest of
                    None \<Rightarrow> (rest, [])
                  | Some sep \<Rightarrow> (take sep rest, drop (sep + 1) rest));
               item = trim piece
           in if item = [] then slots_loop rest' slots
              else (case parse_item item of
                      Inl e \<Rightarrow> ([], Some e)
                    | Inr sl \<Rightarrow> slots_loop rest' (slots @ [sl])))"
  by pat_completeness auto
termination
  by (relation "measure (\<lambda>(r, sl). length r)") (auto split: option.splits prod.splits)

declare slots_loop.simps [simp del]

text \<open>\<open>QuietHours::parse(spec, &err)\<close>: the slots, and the error when there is one.\<close>

definition parse :: "string \<Rightarrow> slot list \<times> qerr option" where
  "parse spec = slots_loop spec []"

section \<open>The test\<close>

fun match_slots :: "slot list \<Rightarrow> int \<Rightarrow> int \<Rightarrow> bool" where
  "match_slots [] wday minute = False"
| "match_slots (s # ss) wday minute =
     (if days s AND push_bit (nat wday) 1 = 0 then match_slots ss wday minute
      else if start_min s \<le> end_min s then
        (if minute \<ge> uint (start_min s) \<and> minute \<le> uint (end_min s) then True
         else match_slots ss wday minute)
      else
        (if minute \<ge> uint (start_min s) \<or> minute \<le> uint (end_min s) then True
         else match_slots ss wday minute))"

definition quiet_match :: "slot list \<Rightarrow> int \<Rightarrow> int \<Rightarrow> bool" where
  "quiet_match slots wday minute =
     (if wday < 0 \<or> wday > 6 then False else match_slots slots wday minute)"

section \<open>What the test decides\<close>

text \<open>
  The window of a slot as an arc of the 24-hour clock: the minutes reached going
  forward from the start without passing the end.
\<close>

definition in_arc :: "int \<Rightarrow> int \<Rightarrow> int \<Rightarrow> bool" where
  "in_arc st en m \<longleftrightarrow> (m - st) mod 1440 \<le> (en - st) mod 1440"

definition wf_slot :: "slot \<Rightarrow> bool" where
  "wf_slot s \<longleftrightarrow> start_min s < 1440 \<and> end_min s < 1440 \<and> days s \<noteq> 0 \<and> days s < 128"

lemma in_arc_cases:
  assumes "0 \<le> st" "st < 1440" "0 \<le> en" "en < 1440" "0 \<le> m" "m < 1440"
  shows "in_arc st en m \<longleftrightarrow>
    (if st \<le> en then st \<le> m \<and> m \<le> en else st \<le> m \<or> m \<le> en)"
proof -
  have arc: "(x - st) mod 1440 = (if st \<le> x then x - st else x - st + 1440)"
    if "0 \<le> x" "x < 1440" for x
  proof (cases "st \<le> x")
    case False
    have "(x - st) mod 1440 = (x - st + 1440) mod 1440" by simp
    also have "\<dots> = x - st + 1440" using assms that False by (intro mod_pos_pos_trivial) auto
    finally show ?thesis using False by simp
  qed (use assms that in \<open>simp add: mod_pos_pos_trivial\<close>)
  note a = arc [OF assms(5,6)] and b = arc [OF assms(3,4)]
  show ?thesis unfolding in_arc_def a b using assms by auto
qed

lemma day_bit: "(d :: u8) AND push_bit i 1 = 0 \<longleftrightarrow> \<not> bit d i"
  by (simp add: and_exp_eq_0_iff_not_bit)

lemma match_slots_iff:
  "match_slots slots wday minute \<longleftrightarrow>
     (\<exists>s \<in> set slots. bit (days s) (nat wday) \<and>
        (if start_min s \<le> end_min s
         then uint (start_min s) \<le> minute \<and> minute \<le> uint (end_min s)
         else uint (start_min s) \<le> minute \<or> minute \<le> uint (end_min s)))"
  by (induction slots wday minute rule: match_slots.induct) (auto simp: day_bit and_exp_eq_0_iff_not_bit)

lemma wf_slot_arc:
  assumes "wf_slot s" "0 \<le> minute" "minute < 1440"
  shows "in_arc (uint (start_min s)) (uint (end_min s)) minute \<longleftrightarrow>
    (if start_min s \<le> end_min s
     then uint (start_min s) \<le> minute \<and> minute \<le> uint (end_min s)
     else uint (start_min s) \<le> minute \<or> minute \<le> uint (end_min s))"
proof -
  have "uint (start_min s) < 1440" "uint (end_min s) < 1440"
    using assms(1) by (simp_all add: wf_slot_def word_less_def)
  then show ?thesis
    using in_arc_cases [of "uint (start_min s)" "uint (end_min s)" minute] assms(2,3)
    by (simp add: word_le_def)
qed

section \<open>What the parser accepts\<close>

lemma trim_eq: "trim s = strip is_spacetab s"
proof (cases "find_index (\<lambda>c. \<not> is_spacetab c) s")
  case None
  then have "strip is_spacetab s = []" by (simp add: find_index_None)
  with None show ?thesis by (simp add: trim_def)
next
  case (Some b)
  then have "\<exists>c \<in> set s. \<not> is_spacetab c"
    using find_index_SomeD [OF Some] nth_mem by blast
  then obtain e where e: "find_last (\<lambda>c. \<not> is_spacetab c) s = Some e"
    using find_last_None [of "\<lambda>c. \<not> is_spacetab c" s] by (metis not_Some_eq)
  from trim_is_strip [OF Some e] Some e show ?thesis
    by (simp add: trim_def substr_def Suc_diff_le)
qed

lemma parseTime_bound: "parseTime s = Some t \<Longrightarrow> t < 1440"
proof -
  assume "parseTime s = Some t"
  then have "\<exists>h m. h \<le> 23 \<and> m \<le> 59 \<and> t = of_nat (h * 60 + m)"
    by (force simp: parseTime_def not_less simp del: of_nat_add of_nat_mult
        split: option.splits list.splits prod.splits if_splits)
  then obtain h m where hm: "h \<le> 23" "m \<le> 59" "t = of_nat (h * 60 + m)" by blast
  then have "h * 60 + m < 1440" by simp
  then have "unat (of_nat (h * 60 + m) :: u16) = h * 60 + m"
    by (simp add: unsigned_of_nat take_bit_nat_eq_self del: of_nat_add of_nat_mult)
  with \<open>h * 60 + m < 1440\<close> show "t < 1440"
    unfolding hm(3) by (simp add: word_less_nat_alt del: of_nat_add of_nat_mult)
qed

lemma add_day_bound: "add_day name d = Some d' \<Longrightarrow> d < 128 \<Longrightarrow> d' < 128"
proof -
  assume a: "add_day name d = Some d'" and d: "d < 128"
  then obtain i where i: "find_index (\<lambda>n. n = name) dayNames = Some i" "d' = d OR push_bit i 1"
    by (auto simp: add_day_def split: option.splits)
  from find_index_length [OF i(1)] have "i < 7" by (simp add: dayNames_def)
  have "take_bit 7 (push_bit i 1 :: u8) = push_bit i 1"
    using \<open>i < 7\<close> by (intro bit_word_eqI) (auto simp: bit_simps)
  with d show "d' < 128" unfolding i(2) u8_less_128_iff by (simp add: take_bit_or)
qed

lemma days_loop_bound: "days_loop s d = Some d' \<Longrightarrow> d < 128 \<Longrightarrow> d' < 128"
proof (induction s d rule: days_loop.induct)
  case (1 s d)
  show ?case
  proof (cases "find_index (\<lambda>c. c = CHR ''+'') s")
    case None
    with "1.prems" show ?thesis
      by (subst (asm) days_loop.simps) (auto dest: add_day_bound)
  next
    case (Some k)
    with "1.prems"(1) obtain d1 where d1: "add_day (trim (take k s)) d = Some d1"
      "days_loop (drop (k + 1) s) d1 = Some d'"
      by (subst (asm) days_loop.simps) (auto split: option.splits)
    from "1.IH" [OF Some d1] add_day_bound [OF d1(1) "1.prems"(2)] show ?thesis by simp
  qed
qed

lemma parseDays_bound: "parseDays s = Some d \<Longrightarrow> d \<noteq> 0 \<and> d < 128"
  by (auto simp: parseDays_def dest: days_loop_bound split: if_splits option.splits)

lemma parse_item_wf: "parse_item item = Inr sl \<Longrightarrow> wf_slot sl"
  by (auto simp: parse_item_def wf_slot_def dest: parseTime_bound parseDays_bound
      split: option.splits if_splits)

text \<open>
  The loop over the comma-separated items, as a recursion over the pieces: blank items
  are skipped, the first bad one empties the result.
\<close>

fun parse_pieces :: "string list \<Rightarrow> slot list \<Rightarrow> slot list \<times> qerr option" where
  "parse_pieces [] slots = (slots, None)"
| "parse_pieces (p # ps) slots =
     (if trim p = [] then parse_pieces ps slots
      else (case parse_item (trim p) of
              Inl e \<Rightarrow> ([], Some e) | Inr sl \<Rightarrow> parse_pieces ps (slots @ [sl])))"

lemma trim_Nil [simp]: "trim [] = []"
  by (simp add: trim_def)

lemma slots_loop_pieces: "slots_loop rest slots = parse_pieces (split_on (CHR '','') rest) slots"
proof (induction rest slots rule: slots_loop.induct)
  case (1 rest slots)
  show ?case
  proof (cases "rest = []")
    case True
    then show ?thesis by (simp add: slots_loop.simps)
  next
    case ne: False
    define piece where "piece = (case find_index (\<lambda>c. c = CHR '','') rest of
        None \<Rightarrow> rest | Some sep \<Rightarrow> take sep rest)"
    define rest' where "rest' = (case find_index (\<lambda>c. c = CHR '','') rest of
        None \<Rightarrow> [] | Some sep \<Rightarrow> drop (sep + 1) rest)"
    have split: "(case find_index (\<lambda>c. c = CHR '','') rest of
        None \<Rightarrow> (rest, []) | Some sep \<Rightarrow> (take sep rest, drop (sep + 1) rest)) = (piece, rest')"
      by (simp add: piece_def rest'_def split: option.split)
    have pieces: "parse_pieces (split_on (CHR '','') rest) slots =
        parse_pieces (piece # split_on (CHR '','') rest') slots"
      by (subst split_on_find) (simp add: piece_def rest'_def split: option.split sum.split)
    have IH1: "trim piece = [] \<Longrightarrow>
        slots_loop rest' slots = parse_pieces (split_on (CHR '','') rest') slots"
      by (rule "1.IH"(1) [OF ne split [symmetric] refl refl])
    have IH2: "trim piece \<noteq> [] \<Longrightarrow> parse_item (trim piece) = Inr sl \<Longrightarrow>
        slots_loop rest' (slots @ [sl]) = parse_pieces (split_on (CHR '','') rest') (slots @ [sl])" for sl
      by (rule "1.IH"(2) [OF ne split [symmetric] refl refl])
    show ?thesis
      unfolding pieces using ne
      by (subst slots_loop.simps)
        (simp add: split IH1 IH2 Let_def split: sum.split)
  qed
qed

lemma parse_pieces_wf:
  "\<forall>s \<in> set slots. wf_slot s \<Longrightarrow> parse_pieces ps slots = (out, e) \<Longrightarrow> \<forall>s \<in> set out. wf_slot s"
  by (induction ps slots rule: parse_pieces.induct)
    (auto dest: parse_item_wf split: if_splits sum.splits)

lemma parse_pieces_error: "parse_pieces ps slots = (out, Some e) \<Longrightarrow> out = []"
  by (induction ps slots rule: parse_pieces.induct) (auto split: if_splits sum.splits)

section \<open>Printing a specification\<close>

text \<open>The canonical text of a slot list, in the syntax the header file documents.\<close>

definition show2 :: "nat \<Rightarrow> string" where
  "show2 n = [char_of (48 + n div 10), char_of (48 + n mod 10)]"

definition show_time :: "u16 \<Rightarrow> string" where
  "show_time t = show2 (unat t div 60) @ CHR '':'' # show2 (unat t mod 60)"

definition day_set :: "u8 \<Rightarrow> nat list" where
  "day_set d = filter (bit d) [0..<7]"

definition show_days :: "u8 \<Rightarrow> string" where
  "show_days d = join_with (CHR ''+'') (map ((!) dayNames) (day_set d))"

definition show_slot :: "slot \<Rightarrow> string" where
  "show_slot s =
     show_time (start_min s) @ CHR ''-'' # show_time (end_min s) @ CHR ''@'' # show_days (days s)"

definition show_spec :: "slot list \<Rightarrow> string" where
  "show_spec slots = join_with (CHR '','') (map show_slot slots)"

lemma digit_plain:
  fixes n :: nat
  assumes "n < 10"
  shows "is_digit (char_of (48 + n))" "\<not> is_space (char_of (48 + n))"
    "char_of (48 + n) \<noteq> CHR ''-''" "char_of (48 + n) \<noteq> CHR ''+''"
    "char_of (48 + n) \<noteq> CHR '':''" "char_of (48 + n) \<noteq> CHR ''@''"
    "char_of (48 + n) \<noteq> CHR '',''" "\<not> is_spacetab (char_of (48 + n))"
proof -
  have b: "byte (char_of (48 + n)) = 48 + n" using assms by (rule byte_digit)
  then show "is_digit (char_of (48 + n))" "\<not> is_space (char_of (48 + n))"
    using assms by (auto simp: is_digit_def is_space_def)
  have ne: "byte c \<notin> {48..57} \<Longrightarrow> char_of (48 + n) \<noteq> c" for c
    using b assms by auto
  show "char_of (48 + n) \<noteq> CHR ''-''" "char_of (48 + n) \<noteq> CHR ''+''"
    "char_of (48 + n) \<noteq> CHR '':''" "char_of (48 + n) \<noteq> CHR ''@''"
    "char_of (48 + n) \<noteq> CHR '',''"
    by (rule ne, simp)+
  have "char_of (48 + n) \<noteq> CHR '' ''" "char_of (48 + n) \<noteq> CHR 0x09"
    by (rule ne, simp)+
  then show "\<not> is_spacetab (char_of (48 + n))" by (simp add: is_spacetab_def)
qed

lemma scan_u_show2:
  assumes "n < 100" "\<forall>c cs. rest = c # cs \<longrightarrow> \<not> is_digit c"
  shows "scan_u (show2 n @ rest) = Some (n, rest)"
proof -
  have q: "n div 10 < 10" "n mod 10 < 10" using assms(1) by auto
  note d = digit_plain [OF q(1)] digit_plain [OF q(2)]
  have r: "takeWhile is_digit rest = []" "dropWhile is_digit rest = rest"
    using assms(2) by (cases rest, simp_all)+
  have v: "digits_val (show2 n) = n"
    using q by (simp add: digits_val_def show2_def byte_digit)
  have tw: "takeWhile is_digit (show2 n @ rest) = show2 n" "dropWhile is_digit (show2 n @ rest) = rest"
    using d r by (simp_all add: show2_def)
  have "dropWhile is_space (show2 n @ rest) = show2 n @ rest" using d by (simp add: show2_def)
  moreover have "(case show2 n @ rest of [] \<Rightarrow> (False, show2 n @ rest)
       | c # cs \<Rightarrow> if c = CHR ''-'' then (True, cs)
                   else if c = CHR ''+'' then (False, cs) else (False, show2 n @ rest)) = (False, show2 n @ rest)"
    using d by (simp add: show2_def)
  moreover have "show2 n \<noteq> []" by (simp add: show2_def)
  ultimately show ?thesis using assms(1)
    by (simp add: scan_u_def tw v)
qed

lemma parseTime_show:
  assumes "t < 1440"
  shows "parseTime (show_time t) = Some t"
proof -
  have t: "unat t < 1440" using assms by (simp add: word_less_nat_alt)
  then have h: "unat t div 60 < 24" "unat t mod 60 < 60" by auto
  have c: "\<not> is_digit (CHR '':'')" by (simp add: is_digit_def)
  have "scan_u (show_time t) = Some (unat t div 60, CHR '':'' # show2 (unat t mod 60))"
    unfolding show_time_def using h c by (intro scan_u_show2) auto
  moreover have "scan_u (show2 (unat t mod 60)) = Some (unat t mod 60, [])"
    using scan_u_show2 [of "unat t mod 60" "[]"] h by simp
  moreover have "unat t div 60 * 60 + unat t mod 60 = unat t" by simp
  then have "(of_nat (unat t div 60 * 60 + unat t mod 60) :: u16) = t" by (simp del: of_nat_add of_nat_mult)
  ultimately show ?thesis using h by (simp add: parseTime_def)
qed

lemma dayNames_plain:
  assumes "x \<in> set dayNames"
  shows "trim x = x" "x \<noteq> []" "CHR ''+'' \<notin> set x" "CHR '','' \<notin> set x"
    "x \<noteq> ''daily''" "x \<noteq> ''weekdays''" "x \<noteq> ''weekends''"
    "\<not> is_spacetab (hd x)" "\<not> is_spacetab (last x)"
  using assms by (auto simp: dayNames_def trim_eq strip_def is_spacetab_def)

lemma dayNames_distinct: "i < 7 \<Longrightarrow> find_index (\<lambda>n. n = dayNames ! i) dayNames = Some i"
proof -
  assume "i < 7"
  then have "i = 0 \<or> i = 1 \<or> i = 2 \<or> i = 3 \<or> i = 4 \<or> i = 5 \<or> i = 6" by linarith
  then show ?thesis by (auto simp: dayNames_def)
qed

lemma dayNames_nth: "i < 7 \<Longrightarrow> dayNames ! i \<in> set dayNames"
  by (rule nth_mem) (simp add: dayNames_def)

lemma days_loop_join:
  "is \<noteq> [] \<Longrightarrow> \<forall>i \<in> set is. i < 7 \<Longrightarrow>
   days_loop (join_with (CHR ''+'') (map ((!) dayNames) is)) d =
     Some (foldl (\<lambda>d i. d OR 2 ^ i) d is)"
proof (induction "is" arbitrary: d rule: induct_list012)
  case (2 i)
  then have i: "i < 7" "dayNames ! i \<in> set dayNames" by (simp_all add: dayNames_nth)
  have "find_index (\<lambda>c. c = CHR ''+'') (dayNames ! i) = None"
    unfolding find_index_None using dayNames_plain(3) [OF i(2)] by auto
  then show ?case
    using dayNames_plain(1) [OF i(2)] dayNames_distinct [OF i(1)]
    by (subst days_loop.simps) (simp add: add_day_def)
next
  case (3 i j ks)
  let ?rest = "join_with (CHR ''+'') (map ((!) dayNames) (j # ks))"
  have i: "dayNames ! i \<in> set dayNames" using 3 by (simp add: dayNames_nth)
  have "find_index (\<lambda>c. c = CHR ''+'') (dayNames ! i @ CHR ''+'' # ?rest) = Some (length (dayNames ! i))"
    using dayNames_plain(3) [OF i] by (intro find_index_append_hit) auto
  moreover have "days_loop ?rest (d OR 2 ^ i) =
      Some (foldl (\<lambda>d i. d OR 2 ^ i) (d OR 2 ^ i) (j # ks))"
    using 3 by (intro "3.IH"(2)) auto
  ultimately show ?case
    using dayNames_plain(1) [OF i] dayNames_distinct [of i] "3.prems"
    by (subst days_loop.simps) (simp add: add_day_def)
qed simp

lemma bit_foldl_or:
  "bit (foldl (\<lambda>d i. d OR 2 ^ i) (d :: u8) is) k \<longleftrightarrow> bit d k \<or> k \<in> set is \<and> k < 8"
  by (induction "is" arbitrary: d) (auto simp: bit_simps)

lemma bit_u8_small: "d < 128 \<Longrightarrow> bit (d :: u8) k \<Longrightarrow> k < 7"
  by (metis bit_take_bit_iff u8_less_128_iff)

lemma day_set_nonempty: "d \<noteq> 0 \<Longrightarrow> d < 128 \<Longrightarrow> day_set d \<noteq> []"
proof
  assume "d \<noteq> 0" "d < 128" "day_set d = []"
  from \<open>day_set d = []\<close> have "\<forall>k < 7. \<not> bit d k" by (auto simp: day_set_def filter_empty_conv)
  with bit_u8_small [OF \<open>d < 128\<close>] have "\<forall>k. \<not> bit d k" by blast
  then have "d = 0" by (intro bit_word_eqI) simp
  with \<open>d \<noteq> 0\<close> show False by simp
qed

lemma show_days_names:
  assumes "d \<noteq> 0" "d < 128"
  shows "split_on (CHR ''+'') (show_days d) = map ((!) dayNames) (day_set d)"
  unfolding show_days_def using day_set_nonempty [OF assms] dayNames_plain(3)
  by (intro split_join) (auto simp: day_set_def dayNames_nth)

lemma show_days_not_special:
  assumes "d \<noteq> 0" "d < 128" "CHR ''+'' \<notin> set w" "w \<notin> set dayNames"
  shows "show_days d \<noteq> w"
proof
  assume "show_days d = w"
  with show_days_names [OF assms(1,2)] assms(3) have "map ((!) dayNames) (day_set d) = [w]" by simp
  then obtain i where "i \<in> set (day_set d)" "dayNames ! i = w"
    by (cases "day_set d") auto
  with assms(4) show False by (auto simp: day_set_def dayNames_nth)
qed

lemma parseDays_show:
  assumes "d \<noteq> 0" "d < 128"
  shows "parseDays (show_days d) = Some d"
proof -
  have "days_loop (show_days d) 0 = Some (foldl (\<lambda>d i. d OR 2 ^ i) 0 (day_set d))"
    unfolding show_days_def using day_set_nonempty [OF assms]
    by (intro days_loop_join) (auto simp: day_set_def)
  also have "foldl (\<lambda>d i. d OR 2 ^ i) 0 (day_set d) = d"
    using bit_u8_small [OF assms(2)]
    by (intro bit_word_eqI) (auto simp: bit_foldl_or day_set_def)
  finally show ?thesis
    using assms(1) show_days_not_special [OF assms, of "''daily''"]
      show_days_not_special [OF assms, of "''weekdays''"] show_days_not_special [OF assms, of "''weekends''"]
    by (simp add: parseDays_def dayNames_def)
qed

lemma trim_id: "s \<noteq> [] \<Longrightarrow> \<not> is_spacetab (hd s) \<Longrightarrow> \<not> is_spacetab (last s) \<Longrightarrow> trim s = s"
  by (simp add: trim_eq strip_id)

lemma show2_plain:
  assumes "n < 100" "c \<in> set (show2 n)"
  shows "c \<noteq> CHR ''-''" "c \<noteq> CHR ''@''" "c \<noteq> CHR '',''" "\<not> is_spacetab c"
proof -
  have q: "n div 10 < 10" "n mod 10 < 10" using assms(1) by auto
  from assms(2) have "c = char_of (48 + n div 10) \<or> c = char_of (48 + n mod 10)"
    by (simp add: show2_def)
  then show "c \<noteq> CHR ''-''" "c \<noteq> CHR ''@''" "c \<noteq> CHR '',''" "\<not> is_spacetab c"
    using digit_plain [OF q(1)] digit_plain [OF q(2)] by auto
qed

lemma show_time_plain:
  assumes "t < 1440" "c \<in> set (show_time t)"
  shows "c \<noteq> CHR ''-''" "c \<noteq> CHR ''@''" "c \<noteq> CHR '',''" "\<not> is_spacetab c"
proof -
  have "unat t < 1440" using assms(1) by (simp add: word_less_nat_alt)
  then have h: "unat t div 60 < 100" "unat t mod 60 < 100" by auto
  have "\<not> is_spacetab (CHR '':'')" by (simp add: is_spacetab_def)
  moreover from assms(2)
  have "c \<in> set (show2 (unat t div 60)) \<or> c = CHR '':'' \<or> c \<in> set (show2 (unat t mod 60))"
    by (auto simp: show_time_def)
  ultimately
  show "c \<noteq> CHR ''-''" "c \<noteq> CHR ''@''" "c \<noteq> CHR '',''" "\<not> is_spacetab c"
    using show2_plain [OF h(1), of c] show2_plain [OF h(2), of c] by auto
qed

lemma trim_show_time: "t < 1440 \<Longrightarrow> trim (show_time t) = show_time t"
proof -
  assume t: "t < 1440"
  have "show_time t \<noteq> []" by (simp add: show_time_def)
  then show ?thesis
    using show_time_plain(4) [OF t] by (intro trim_id) simp_all
qed

lemma join_with_in: "c \<in> set (join_with d xs) \<Longrightarrow> c = d \<or> (\<exists>x \<in> set xs. c \<in> set x)"
  by (induction d xs rule: join_with.induct) auto

lemma join_with_last:
  "xs \<noteq> [] \<Longrightarrow> \<forall>x \<in> set xs. x \<noteq> [] \<Longrightarrow>
   join_with d xs \<noteq> [] \<and> hd (join_with d xs) = hd (hd xs) \<and> last (join_with d xs) = last (last xs)"
  by (induction d xs rule: join_with.induct) auto

lemma show_days_plain:
  assumes "d \<noteq> 0" "d < 128"
  shows "show_days d \<noteq> []" "\<not> is_spacetab (hd (show_days d))" "\<not> is_spacetab (last (show_days d))"
    "CHR '','' \<notin> set (show_days d)"
proof -
  let ?ns = "map ((!) dayNames) (day_set d)"
  have ne: "?ns \<noteq> []" using day_set_nonempty [OF assms] by simp
  have names: "\<forall>x \<in> set ?ns. x \<in> set dayNames" by (auto simp: day_set_def dayNames_nth)
  then have "\<forall>x \<in> set ?ns. x \<noteq> []" using dayNames_plain(2) by blast
  moreover have "hd ?ns \<in> set dayNames" "last ?ns \<in> set dayNames"
    using names ne hd_in_set [OF ne] last_in_set [OF ne] by blast+
  ultimately
  show "show_days d \<noteq> []" "\<not> is_spacetab (hd (show_days d))" "\<not> is_spacetab (last (show_days d))"
    using join_with_last [OF ne, of "CHR ''+''"] dayNames_plain(8,9) by (simp_all add: show_days_def)
  show "CHR '','' \<notin> set (show_days d)"
    using names dayNames_plain(4) by (auto simp: show_days_def dest!: join_with_in)
qed

lemma show_slot_plain:
  assumes "wf_slot s"
  shows "trim (show_slot s) = show_slot s" "show_slot s \<noteq> []" "CHR '','' \<notin> set (show_slot s)"
proof -
  have t: "start_min s < 1440" "end_min s < 1440" and d: "days s \<noteq> 0" "days s < 128"
    using assms by (simp_all add: wf_slot_def)
  have ne: "show_time t \<noteq> []" for t by (simp add: show_time_def)
  show "show_slot s \<noteq> []" by (simp add: show_slot_def)
  then show "trim (show_slot s) = show_slot s"
    using show_days_plain [OF d] show_time_plain(4) [OF t(1)] ne [of "start_min s"]
    by (intro trim_id) (simp_all add: show_slot_def)
  show "CHR '','' \<notin> set (show_slot s)"
    using show_days_plain(4) [OF d] show_time_plain(3) [OF t(1)] show_time_plain(3) [OF t(2)]
    by (auto simp: show_slot_def)
qed

lemma parse_item_show:
  assumes "wf_slot s"
  shows "parse_item (show_slot s) = Inr s"
proof -
  have t: "start_min s < 1440" "end_min s < 1440" and d: "days s \<noteq> 0" "days s < 128"
    using assms by (simp_all add: wf_slot_def)
  let ?a = "show_time (start_min s)" and ?b = "show_time (end_min s)" and ?d = "show_days (days s)"
  have dash: "find_index (\<lambda>c. c = CHR ''-'') (show_slot s) = Some (length ?a)"
    unfolding show_slot_def using show_time_plain(1) [OF t(1)]
    by (intro find_index_append_hit) auto
  have at: "find_index (\<lambda>c. c = CHR ''@'') (show_slot s) = Some (length ?a + 1 + length ?b)"
  proof -
    have "find_index (\<lambda>c. c = CHR ''@'') ((?a @ CHR ''-'' # ?b) @ CHR ''@'' # ?d) =
        Some (length (?a @ CHR ''-'' # ?b))"
      using show_time_plain(2) [OF t(1)] show_time_plain(2) [OF t(2)]
      by (intro find_index_append_hit) auto
    then show ?thesis by (simp add: show_slot_def)
  qed
  have "substr 0 (length ?a) (show_slot s) = ?a"
    by (simp add: substr_def show_slot_def)
  moreover have "substr (length ?a + 1) (length ?a + 1 + length ?b - length ?a - 1) (show_slot s) = ?b"
    by (simp add: substr_def show_slot_def)
  moreover have "drop (length ?a + 1 + length ?b + 1) (show_slot s) = ?d"
    by (simp add: show_slot_def)
  moreover have "trim ?d = ?d" using show_days_plain [OF d] by (intro trim_id)
  ultimately show ?thesis
    using dash at trim_show_time [OF t(1)] trim_show_time [OF t(2)]
      parseTime_show [OF t(1)] parseTime_show [OF t(2)] parseDays_show [OF d]
    by (simp add: parse_item_def)
qed

lemma parse_pieces_show:
  "\<forall>s \<in> set slots. wf_slot s \<Longrightarrow> parse_pieces (map show_slot slots) acc = (acc @ slots, None)"
  by (induction slots arbitrary: acc) (simp_all add: show_slot_plain parse_item_show)

lemma parse_eq_pieces: "parse spec = parse_pieces (split_on (CHR '','') spec) []"
  by (simp add: parse_def slots_loop_pieces)

section \<open>Properties\<close>

text \<open>
  C35. the quiet test is true exactly when the day is one of tm_wday's 0..6 and some slot
  has that day's bit set and a window that holds the minute, where the window is the arc
  of the 24-hour clock going forward from the start to the end, both included; an end
  before the start makes the arc run over midnight.
\<close>

theorem quiet_match_arc:
  assumes "\<forall>s \<in> set slots. wf_slot s" "0 \<le> minute" "minute < 1440"
  shows "quiet_match slots wday minute \<longleftrightarrow>
    0 \<le> wday \<and> wday \<le> 6 \<and>
    (\<exists>s \<in> set slots. bit (days s) (nat wday) \<and>
       in_arc (uint (start_min s)) (uint (end_min s)) minute)"
proof -
  have "in_arc (uint (start_min s)) (uint (end_min s)) minute \<longleftrightarrow>
    (if start_min s \<le> end_min s
     then uint (start_min s) \<le> minute \<and> minute \<le> uint (end_min s)
     else uint (start_min s) \<le> minute \<or> minute \<le> uint (end_min s))" if "s \<in> set slots" for s
    using wf_slot_arc assms that by blast
  then show ?thesis
    unfolding quiet_match_def match_slots_iff by (auto simp: not_less)
qed

theorem quiet_match_arc_witness:
  "quiet_match [\<lparr>start_min = 1320, end_min = 360, days = 2\<rparr>] 1 120 \<and>
   \<not> quiet_match [\<lparr>start_min = 1320, end_min = 360, days = 2\<rparr>] 2 120"
proof -
  let ?s = "\<lparr>start_min = 1320, end_min = 360, days = 2\<rparr>"
  have wf: "\<forall>s \<in> set [?s]. wf_slot s" by (simp add: wf_slot_def)
  show ?thesis
    using quiet_match_arc [OF wf, of 120 1] quiet_match_arc [OF wf, of 120 2]
    by (simp add: in_arc_def bit_iff_odd)
qed

text \<open>
  printing a list of well-formed slots in the documented syntax and parsing the text
  gives the same slots and no error.
\<close>

theorem parse_show_spec:
  assumes "\<forall>s \<in> set slots. wf_slot s"
  shows "parse (show_spec slots) = (slots, None)"
proof (cases "slots = []")
  case True
  then show ?thesis by (simp add: show_spec_def parse_eq_pieces)
next
  case False
  then have "split_on (CHR '','') (show_spec slots) = map show_slot slots"
    unfolding show_spec_def using assms by (intro split_join) (auto simp: show_slot_plain)
  with assms show ?thesis by (simp add: parse_eq_pieces parse_pieces_show)
qed

theorem parse_show_spec_witness:
  "parse (show_spec [\<lparr>start_min = 540, end_min = 1200, days = 0x7F\<rparr>]) =
     ([\<lparr>start_min = 540, end_min = 1200, days = 0x7F\<rparr>], None)"
  by (rule parse_show_spec) (simp add: wf_slot_def)

text \<open>
  C36. whatever the text, every slot the parser returns is well formed (both times below
  24:00, a non-empty day set within the seven days), and a parse that reports an error
  returns no slot at all: one bad item empties the whole specification.
\<close>

theorem parse_wf:
  "list_all wf_slot (fst (parse spec)) \<and> (snd (parse spec) = None \<or> fst (parse spec) = [])"
proof (cases "parse spec")
  case (Pair out e)
  then have p: "parse_pieces (split_on (CHR '','') spec) [] = (out, e)"
    by (simp add: parse_eq_pieces)
  from parse_pieces_wf [OF _ p] have "\<forall>s \<in> set out. wf_slot s" by simp
  moreover from p have "e = None \<or> out = []"
    by (cases e) (auto dest: parse_pieces_error)
  ultimately show ?thesis using Pair by (simp add: list_all_iff)
qed

end
