(* ===== verification/PlaylistState.thy ===== *)
theory PlaylistState
  imports MachineTypes PlaylistParse QuietHours
begin

text \<open>
  FluidNC/src/Playlist.h and Playlist.cpp: the state of the playlist module, the world a
  poll sees, the command handlers and the helpers of the polling task. Handlers run in
  any task and only write the request fields; the polling task does the rest. A log line
  is not modelled. The calls that leave the module during a poll are recorded, in order,
  in the field \<open>effects\<close>.
\<close>

section \<open>Constants and enumerations\<close>

abbreviation (input) INJECT_TIMEOUT_MS :: u32 where "INJECT_TIMEOUT_MS \<equiv> 8000"
abbreviation (input) MAX_CONSEC_FAIL :: int where "MAX_CONSEC_FAIL \<equiv> 5"
abbreviation (input) HOMING_TIMEOUT_MS :: u32 where "HOMING_TIMEOUT_MS \<equiv> 120000"
abbreviation (input) AUTOSTART_HOME_GRACE_MS :: u32 where "AUTOSTART_HOME_GRACE_MS \<equiv> 5000"
abbreviation (input) MAX_ITEMS :: nat where "MAX_ITEMS \<equiv> 1024"
abbreviation (input) MAX_PLAYLIST_FILE :: nat where "MAX_PLAYLIST_FILE \<equiv> 65536"
abbreviation (input) MAX_LINE :: nat where "MAX_LINE \<equiv> 512"
abbreviation (input) LINE_BUFFER_SIZE :: nat where "LINE_BUFFER_SIZE \<equiv> 256"
abbreviation (input) MODE_SINGLE :: int where "MODE_SINGLE \<equiv> 0"
abbreviation (input) MODE_LOOP :: int where "MODE_LOOP \<equiv> 1"
abbreviation (input) SIZE_MAX :: nat where "SIZE_MAX \<equiv> 4294967295"

datatype phase = Off | NextItem | HomingPhase | RunClear | RunPattern | Pausing

text \<open>Calls into other modules, in the order a poll makes them.\<close>

datatype effect =
    SendFeedHold | SendCycleStart | SendStopJob | StartHome
  | FlushFeedLive | SetClearFeed int | SetQuietOff bool

section \<open>State\<close>

text \<open>The request fields, written by the handlers and consumed by the poll.\<close>

record pl_req =
  req_stop :: bool
  req_skip :: bool
  req_run :: bool
  req_name :: string
  req_single :: bool
  req_clear_override :: int
  req_no_abort :: bool
  req_ov_mode :: int
  req_ov_shuffle :: int
  req_ov_pause :: int
  req_ov_pfs :: int

text \<open>The snapshot the status API reads from another task.\<close>

record pl_pub =
  pub_active :: bool
  pub_clearing :: bool
  pub_quiet :: bool
  pub_pausing :: bool
  pub_index :: int
  pub_total :: int
  pub_pause_until_ms :: u32
  pub_pause_total_ms :: u32
  pub_name :: string
  pub_current :: string
  pub_next :: string
  pub_last :: string

text \<open>Still Sands.\<close>

record pl_quiet =
  last_quiet_check :: u32
  quiet_cached :: bool
  in_quiet :: bool
  quiet_override :: bool
  warned_no_time :: bool
  warned_bad_slots :: bool
  led_off_active :: bool
  quiet_held :: bool

text \<open>Auto-play on boot.\<close>

record pl_auto =
  autostart_pending :: bool
  autostart_home_sent :: bool
  autostart_idle_seen :: bool
  autostart_idle_ms :: u32

record playlist =
  folder :: string
  clear_in :: string
  clear_out :: string
  clear_side :: string
  ov_mode :: int
  ov_shuffle :: int
  ov_pause :: int
  ov_pfs :: int
  req :: pl_req
  phase :: phase
  order :: "u16 list"
  playlist_path :: string
  current_path :: string
  next_path :: string
  last_pattern :: string
  resolved_index :: nat
  playlist_name :: string
  pending_clear :: string
  sd_hold :: bool
  index :: nat
  single :: bool
  clear_override :: int
  clear_done :: bool
  consec_fail :: int
  skip_active :: bool
  job_seen :: bool
  inject_ms :: u32
  pattern_start_ms :: u32
  pause_until_ms :: u32
  pause_total_ms :: u32
  since_home :: int
  last_err :: string
  quiet :: pl_quiet
  auto :: pl_auto
  pub :: pl_pub
  effects :: "effect list"

text \<open>The persisted settings, by the value their \<open>get()\<close> returns.\<close>

record pl_settings =
  set_mode :: int
  set_shuffle :: int
  set_pause_time :: int
  set_pause_from_start :: int
  set_clear_mode :: int
  set_clear_in :: string
  set_clear_out :: string
  set_clear_speed :: int
  set_auto_home :: int
  set_sands_enabled :: bool
  set_sands_slots :: string
  set_sands_led_off :: bool
  set_sands_finish :: bool
  set_autostart :: string
  set_autostart_mode :: int
  set_autostart_shuffle :: int
  set_autostart_pause :: int
  set_autostart_pfs :: int
  set_autostart_clear :: int

text \<open>
  The world during one poll: the clock, whether the poller offered a line buffer, the
  machine state, \<open>Job::active()\<close>, the wall clock (\<open>Clock::isSet()\<close> and the fields of
  \<open>localtime_r\<close>), \<open>homed_since_boot()\<close>, the settings, whether a LED module exists,
  whether the SD card mounts, the readable files of the card (None: the open throws),
  \<open>stdfs::exists\<close>, the values successive calls of \<open>esp_random\<close> return, and the scanner
  of \<open>first_rho\<close>.
\<close>

record pl_env =
  now :: u32
  line_slot :: bool
  machine :: mstate
  job_active :: bool
  clock_set :: bool
  tm_wday :: int
  tm_minute :: int
  homed_since_boot :: bool
  settings :: pl_settings
  has_leds :: bool
  sd_mounts :: bool
  files :: "string \<Rightarrow> string option"
  file_exists :: "string \<Rightarrow> bool"
  rand :: "nat \<Rightarrow> u32"
  scan2 :: "string \<Rightarrow> (rat \<times> rat) option"

definition inAlarmState :: "mstate \<Rightarrow> bool" where
  "inAlarmState m \<longleftrightarrow> m = Alarm \<or> m = ConfigAlarm \<or> m = Critical"

definition emit :: "effect \<Rightarrow> playlist \<Rightarrow> playlist" where
  "emit e s = s\<lparr>effects := effects s @ [e]\<rparr>"

section \<open>Construction\<close>

text \<open>The member initialisers of the class, then what \<open>init()\<close> sets.\<close>

definition init_req :: pl_req where
  "init_req = \<lparr>req_stop = False, req_skip = False, req_run = False, req_name = [],
     req_single = False, req_clear_override = - 1, req_no_abort = False,
     req_ov_mode = - 1, req_ov_shuffle = - 1, req_ov_pause = - 1, req_ov_pfs = - 1\<rparr>"

definition init_pub :: pl_pub where
  "init_pub = \<lparr>pub_active = False, pub_clearing = False, pub_quiet = False,
     pub_pausing = False, pub_index = 0, pub_total = 0, pub_pause_until_ms = 0,
     pub_pause_total_ms = 0, pub_name = [], pub_current = [], pub_next = [], pub_last = []\<rparr>"

definition init_quiet :: pl_quiet where
  "init_quiet = \<lparr>last_quiet_check = 0, quiet_cached = False, in_quiet = False,
     quiet_override = False, warned_no_time = False, warned_bad_slots = False,
     led_off_active = False, quiet_held = False\<rparr>"

definition init_auto :: pl_auto where
  "init_auto = \<lparr>autostart_pending = True, autostart_home_sent = False,
     autostart_idle_seen = False, autostart_idle_ms = 0\<rparr>"

definition init_playlist :: "string \<Rightarrow> string \<Rightarrow> string \<Rightarrow> string \<Rightarrow> playlist" where
  "init_playlist fld cin cout cside = \<lparr>folder = fld, clear_in = cin, clear_out = cout,
     clear_side = cside, ov_mode = - 1, ov_shuffle = - 1, ov_pause = - 1, ov_pfs = - 1,
     req = init_req, phase = Off, order = [], playlist_path = [], current_path = [],
     next_path = [], last_pattern = [], resolved_index = SIZE_MAX, playlist_name = [],
     pending_clear = [], sd_hold = False, index = 0, single = False, clear_override = - 1,
     clear_done = False, consec_fail = 0, skip_active = False, job_seen = False,
     inject_ms = 0, pattern_start_ms = 0, pause_until_ms = 0, pause_total_ms = 0,
     since_home = 0, last_err = [], quiet = init_quiet, auto = init_auto, pub = init_pub,
     effects = []\<rparr>"

section \<open>Command handlers\<close>

text \<open>
  A handler returns its error code and the new state. \<open>const char*\<close> arguments are a
  \<open>string option\<close>. \<open>inst\<close> below is \<open>playlistInstance != nullptr\<close>.
\<close>

definition requestRun :: "mstate \<Rightarrow> string option \<Rightarrow> playlist \<Rightarrow> error_code \<times> playlist" where
  "requestRun m name s =
     (case name of
        None \<Rightarrow> (Error_InvalidValue, s)
      | Some n \<Rightarrow>
          if n = [] then (Error_InvalidValue, s)
          else if inAlarmState m then (Error_IdleError, s)
          else (Error_Ok, s\<lparr>req := (req s)\<lparr>
                  req_name := strlcpy 128 n,
                  req_single := False,
                  req_clear_override := - 1,
                  req_ov_mode := - 1, req_ov_shuffle := - 1, req_ov_pause := - 1, req_ov_pfs := - 1,
                  req_no_abort := False,
                  req_run := True\<rparr>\<rparr>))"

definition requestSingle ::
  "mstate \<Rightarrow> string option \<Rightarrow> string option \<Rightarrow> playlist \<Rightarrow> error_code \<times> playlist" where
  "requestSingle m patternPath clearMode s =
     (case patternPath of
        None \<Rightarrow> (Error_InvalidValue, s)
      | Some p \<Rightarrow>
          if p = [] then (Error_InvalidValue, s)
          else if inAlarmState m then (Error_IdleError, s)
          else
            (case (if clearMode = None \<or> clearMode = Some [] then Some CLEAR_NONE
                   else parse_clear_mode clearMode) of
               None \<Rightarrow> (Error_InvalidValue, s)
             | Some mode \<Rightarrow>
                 (Error_Ok, s\<lparr>req := (req s)\<lparr>
                    req_name := strlcpy 128 p,
                    req_single := True,
                    req_clear_override := mode,
                    req_ov_mode := - 1, req_ov_shuffle := - 1, req_ov_pause := - 1, req_ov_pfs := - 1,
                    req_no_abort := False,
                    req_run := True\<rparr>\<rparr>)))"

definition requestStop :: "playlist \<Rightarrow> error_code \<times> playlist" where
  "requestStop s =
     (if phase s = Off \<and> \<not> req_run (req s) then (Error_Ok, s)
      else (Error_Ok, s\<lparr>req := (req s)\<lparr>req_run := False, req_stop := True\<rparr>\<rparr>))"

definition requestSkip :: "playlist \<Rightarrow> error_code \<times> playlist" where
  "requestSkip s =
     (if phase s = Off then (Error_Ok, s)
      else (Error_Ok, s\<lparr>req := (req s)\<lparr>req_skip := True\<rparr>\<rparr>))"

text \<open>The static entry points for the API.\<close>

definition runSingle ::
  "bool \<Rightarrow> mstate \<Rightarrow> string option \<Rightarrow> string option \<Rightarrow> playlist \<Rightarrow> error_code \<times> playlist" where
  "runSingle inst m patternPath clearMode s =
     (if \<not> inst then (Error_InvalidStatement, s) else requestSingle m patternPath clearMode s)"

definition stopActive :: "bool \<Rightarrow> playlist \<Rightarrow> bool \<times> playlist" where
  "stopActive inst s =
     (if \<not> inst then (False, s)
      else if phase s = Off \<and> \<not> req_run (req s) then (False, s)
      else (True, s\<lparr>req := (req s)\<lparr>req_run := False, req_stop := True\<rparr>\<rparr>))"

definition cmd_run :: "bool \<Rightarrow> mstate \<Rightarrow> string option \<Rightarrow> playlist \<Rightarrow> error_code \<times> playlist" where
  "cmd_run inst m v s = (if \<not> inst then (Error_InvalidStatement, s) else requestRun m v s)"

definition cmd_stop :: "bool \<Rightarrow> playlist \<Rightarrow> error_code \<times> playlist" where
  "cmd_stop inst s = (if \<not> inst then (Error_InvalidStatement, s) else requestStop s)"

definition cmd_skip :: "bool \<Rightarrow> playlist \<Rightarrow> error_code \<times> playlist" where
  "cmd_skip inst s = (if \<not> inst then (Error_InvalidStatement, s) else requestSkip s)"

text \<open>
  The channel's \<open>sendLine\<close> overloads: an error line is kept for the inject-timeout log.
  \<open>is_error\<close> is \<open>level == MsgLevelError\<close>.
\<close>

definition captureError :: "string option \<Rightarrow> playlist \<Rightarrow> playlist" where
  "captureError line s =
     (case line of
        None \<Rightarrow> s
      | Some l \<Rightarrow>
          let l' = (if take 10 l = ''[MSG:ERR: '' then drop 10 l else l);
              e = strlcpy 96 l'
          in s\<lparr>last_err := (if e \<noteq> [] \<and> last e = CHR '']'' then butlast e else e)\<rparr>)"

definition sendLine :: "bool \<Rightarrow> string option \<Rightarrow> playlist \<Rightarrow> playlist" where
  "sendLine is_error line s =
     (case line of
        None \<Rightarrow> s
      | Some l \<Rightarrow> if is_error \<or> take 6 l = ''error:'' then captureError line s else s)"

section \<open>Helpers of the polling task\<close>

definition runMode :: "pl_env \<Rightarrow> playlist \<Rightarrow> int" where
  "runMode env s = (if ov_mode s \<ge> 0 then ov_mode s else set_mode (settings env))"

definition runShuffle :: "pl_env \<Rightarrow> playlist \<Rightarrow> int" where
  "runShuffle env s = (if ov_shuffle s \<ge> 0 then ov_shuffle s else set_shuffle (settings env))"

definition runPause :: "pl_env \<Rightarrow> playlist \<Rightarrow> int" where
  "runPause env s = (if ov_pause s \<ge> 0 then ov_pause s else set_pause_time (settings env))"

definition runPauseFromStart :: "pl_env \<Rightarrow> playlist \<Rightarrow> int" where
  "runPauseFromStart env s = (if ov_pfs s \<ge> 0 then ov_pfs s else set_pause_from_start (settings env))"

text \<open>\<open>quietNow\<close> reads and writes the Still Sands fields only.\<close>

definition quiet_check :: "pl_env \<Rightarrow> pl_quiet \<Rightarrow> bool \<times> pl_quiet" where
  "quiet_check env q =
     (if \<not> set_sands_enabled (settings env) then (False, q)
      else if last_quiet_check q \<noteq> 0 \<and> now env - last_quiet_check q < 2000 then (quiet_cached q, q)
      else
        let q1 = q\<lparr>last_quiet_check := now env\<rparr> in
        if \<not> clock_set env then (False, q1\<lparr>warned_no_time := True, quiet_cached := False\<rparr>)
        else
          let q2 = q1\<lparr>warned_no_time := False\<rparr>;
              (slots, err) = parse (set_sands_slots (settings env))
          in if slots = []
             then (False, q2\<lparr>warned_bad_slots := (if err \<noteq> None then True else warned_bad_slots q2),
                             quiet_cached := False\<rparr>)
             else let b = quiet_match slots (tm_wday env) (tm_minute env)
                  in (b, q2\<lparr>warned_bad_slots := False, quiet_cached := b\<rparr>))"

definition quietNow :: "pl_env \<Rightarrow> playlist \<Rightarrow> bool \<times> playlist" where
  "quietNow env s =
     (fst (quiet_check env (quiet s)), s\<lparr>quiet := snd (quiet_check env (quiet s))\<rparr>)"

definition finish :: "playlist \<Rightarrow> playlist" where
  "finish s =
     (let s1 = (if quiet_held (quiet s)
                then (emit SendCycleStart s)\<lparr>quiet := (quiet s)\<lparr>quiet_held := False\<rparr>\<rparr> else s);
          s2 = emit (SetClearFeed (- 1)) (emit FlushFeedLive s1)
      in s2\<lparr>phase := Off, order := [], playlist_path := [], current_path := [],
            next_path := [], last_pattern := [], resolved_index := SIZE_MAX,
            pending_clear := [], req := (req s2)\<lparr>req_skip := False\<rparr>,
            skip_active := False, sd_hold := False\<rparr>)"

definition publish :: "playlist \<Rightarrow> playlist" where
  "publish s =
     (let active = (phase s \<noteq> Off \<and> \<not> single s);
          p1 = (pub s)\<lparr>
            pub_active := active,
            pub_clearing := (phase s = RunClear),
            pub_quiet := in_quiet (quiet s),
            pub_pausing := (phase s = Pausing),
            pub_pause_until_ms := pause_until_ms s,
            pub_pause_total_ms := pause_total_ms s,
            pub_index := (if active then int (index s) else 0),
            pub_total := (if active then int (length (order s)) else 0)\<rparr>
      in s\<lparr>pub :=
           (if active then
              let up_next = (if phase s = RunClear then current_path s else next_path s)
              in p1\<lparr>pub_name := strlcpy 64 (playlist_name s),
                    pub_current := strlcpy 160 (if index s < length (order s) then current_path s else []),
                    pub_next := strlcpy 160 (if index s < length (order s) then up_next else []),
                    pub_last := strlcpy 160 (last_pattern s)\<rparr>
            else p1\<lparr>pub_name := [], pub_current := [], pub_next := [], pub_last := []\<rparr>)\<rparr>)"

text \<open>
  \<open>runtimeStatus\<close>: the API's copy of the snapshot, with the seconds left of a pause
  computed at the time of the call. None is the result false (no playlist section).
\<close>

record runtime_status =
  rs_active :: bool
  rs_clearing :: bool
  rs_quiet :: bool
  rs_index :: int
  rs_total :: int
  rs_pause_remaining :: int
  rs_pause_total :: int
  rs_name :: string
  rs_current :: string
  rs_next :: string
  rs_last :: string

definition runtimeStatus :: "bool \<Rightarrow> u32 \<Rightarrow> playlist \<Rightarrow> runtime_status option" where
  "runtimeStatus inst t s =
     (if \<not> inst then None
      else let p = pub s; left_ms = sint (pub_pause_until_ms p - t)
           in Some \<lparr>rs_active = pub_active p, rs_clearing = pub_clearing p,
                rs_quiet = pub_quiet p, rs_index = pub_index p, rs_total = pub_total p,
                rs_pause_remaining =
                  (if pub_pausing p then (if left_ms > 0 then (left_ms + 999) div 1000 else 0) else - 1),
                rs_pause_total =
                  (if pub_pausing p then sint ((pub_pause_total_ms p + 999) div 1000) else - 1),
                rs_name = strlcpy 64 (pub_name p),
                rs_current = strlcpy 160 (pub_current p),
                rs_next = strlcpy 160 (pub_next p),
                rs_last = strlcpy 160 (pub_last p)\<rparr>)"

end
