(* ===== verification/PlaylistLoad.thy ===== *)
theory PlaylistLoad
  imports PlaylistState
begin

text \<open>
  FluidNC/src/Playlist.cpp: the shuffle, the line-by-line scan of a playlist file, loading
  a run, resolving the current and the next pattern, advancing, and the choice of the
  clear file. First the definitions, then what they compute: the scan yields the same
  paths as the reference parser, the order stays a permutation.
\<close>

section \<open>Shuffle\<close>

definition swap_at :: "nat \<Rightarrow> nat \<Rightarrow> 'a list \<Rightarrow> 'a list" where
  "swap_at i j xs = xs[i := xs ! j, j := xs ! i]"

fun shuffle_loop :: "(nat \<Rightarrow> u32) \<Rightarrow> nat \<Rightarrow> nat \<Rightarrow> 'a list \<Rightarrow> 'a list" where
  "shuffle_loop rnd k 0 xs = xs"
| "shuffle_loop rnd k (Suc i) xs =
     shuffle_loop rnd (Suc k) i (swap_at (Suc i) (unat (rnd k) mod (Suc i + 1)) xs)"

definition shuffleOrder :: "pl_env \<Rightarrow> playlist \<Rightarrow> playlist" where
  "shuffleOrder env s = s\<lparr>order := shuffle_loop (rand env) 0 (length (order s) - 1) (order s)\<rparr>"

section \<open>Scanning a playlist file\<close>

text \<open>
  \<open>scanValidLines\<close>: \<open>fn acc valid path\<close> is the callback with its captured variables
  \<open>acc\<close>; it returns them and whether to go on. The file's bytes are the list the read
  loop consumes.
\<close>

definition scan_flush ::
  "('a \<Rightarrow> nat \<Rightarrow> string \<Rightarrow> 'a \<times> bool) \<Rightarrow> string \<Rightarrow> nat \<Rightarrow> 'a \<Rightarrow> 'a \<times> nat \<times> bool" where
  "scan_flush fn raw valid acc =
     (let p = clean_line raw in
      if p = [] then (acc, valid, True)
      else let (acc', cont) = fn acc valid p in (acc', valid + 1, cont))"

fun scan_loop ::
  "('a \<Rightarrow> nat \<Rightarrow> string \<Rightarrow> 'a \<times> bool) \<Rightarrow> string \<Rightarrow> string \<Rightarrow> nat \<Rightarrow> nat \<Rightarrow> bool \<Rightarrow> 'a \<Rightarrow> 'a" where
  "scan_loop fn [] line consumed valid overlong acc =
     (if \<not> overlong \<and> valid < MAX_ITEMS then fst (scan_flush fn line valid acc) else acc)"
| "scan_loop fn (c # cs) line consumed valid overlong acc =
     (if consumed < MAX_PLAYLIST_FILE \<and> valid < MAX_ITEMS then
        (if c = CHR 0x0A then
           (if \<not> overlong then
              (let (acc', valid', cont) = scan_flush fn line valid acc
               in if cont then scan_loop fn cs [] (consumed + 1) valid' False acc' else acc')
            else scan_loop fn cs [] (consumed + 1) valid False acc)
         else if length line < MAX_LINE
         then scan_loop fn cs (line @ [c]) (consumed + 1) valid overlong acc
         else scan_loop fn cs line (consumed + 1) valid True acc)
      else (if \<not> overlong \<and> valid < MAX_ITEMS then fst (scan_flush fn line valid acc) else acc))"

text \<open>None: the open throws.\<close>

definition scanValidLines ::
  "pl_env \<Rightarrow> string \<Rightarrow> ('a \<Rightarrow> nat \<Rightarrow> string \<Rightarrow> 'a \<times> bool) \<Rightarrow> 'a \<Rightarrow> 'a option" where
  "scanValidLines env path fn acc =
     (case files env path of
        None \<Rightarrow> None
      | Some content \<Rightarrow> Some (scan_loop fn content [] 0 0 False acc))"

section \<open>Resolving, loading, advancing\<close>

definition resolve_fn ::
  "nat \<Rightarrow> bool \<Rightarrow> nat \<Rightarrow> string \<times> string \<Rightarrow> nat \<Rightarrow> string \<Rightarrow> (string \<times> string) \<times> bool" where
  "resolve_fn target want_next next_target found vi p =
     (let found' = (if vi = target then (p, snd found)
                    else if want_next \<and> vi = next_target then (fst found, p) else found)
      in (found', fst found' = [] \<or> (want_next \<and> snd found' = [])))"

definition resolveCurrent :: "pl_env \<Rightarrow> playlist \<Rightarrow> bool \<times> playlist" where
  "resolveCurrent env s =
     (if playlist_path s = [] then (True, s\<lparr>next_path := []\<rparr>)
      else if index s \<ge> length (order s) then (False, s)
      else
        let target = unat (order s ! index s);
            want_next = (index s + 1 < length (order s));
            next_target = (if want_next then unat (order s ! (index s + 1)) else 0)
        in case scanValidLines env (playlist_path s) (resolve_fn target want_next next_target) ([], []) of
             None \<Rightarrow> (False, s)
           | Some (found, found_next) \<Rightarrow>
               if found = [] then (False, s)
               else (True, s\<lparr>current_path := found, next_path := found_next\<rparr>))"

definition playlist_file :: "string \<Rightarrow> string \<Rightarrow> string" where
  "playlist_file fld name =
     (let p1 = (if CHR ''/'' \<notin> set name then fld @ ''/'' @ name else name);
          p2 = (if CHR ''.'' \<notin> set p1 then p1 @ ''.txt'' else p1)
      in if p2 = [] \<or> hd p2 \<noteq> CHR ''/'' then ''/'' @ p2 else p2)"

definition count_fn :: "nat \<Rightarrow> nat \<Rightarrow> string \<Rightarrow> nat \<times> bool" where
  "count_fn n vi p = (n + 1, True)"

definition loadPlaylist :: "pl_env \<Rightarrow> string \<Rightarrow> playlist \<Rightarrow> bool \<times> playlist" where
  "loadPlaylist env name s =
     (let path = playlist_file (folder s) name in
      case scanValidLines env path count_fn 0 of
        None \<Rightarrow> (False, s)
      | Some n \<Rightarrow>
          if n = 0 then (False, s)
          else
            let s1 = s\<lparr>playlist_path := path, playlist_name := name,
                       order := map of_nat [0..<n]\<rparr>;
                s2 = (if runShuffle env s1 \<noteq> 0 then shuffleOrder env s1 else s1);
                s3 = s2\<lparr>index := 0, resolved_index := SIZE_MAX, since_home := 0,
                        clear_done := False, pending_clear := []\<rparr>;
                (ok, s4) = resolveCurrent env s3
            in if \<not> ok then (False, s4)
               else (True, s4\<lparr>resolved_index := index s4\<rparr>))"

definition advanceIndex :: "pl_env \<Rightarrow> playlist \<Rightarrow> bool \<times> playlist" where
  "advanceIndex env s =
     (let s1 = s\<lparr>index := index s + 1, clear_done := False\<rparr> in
      if index s1 \<ge> length (order s1) then
        if \<not> single s1 \<and> runMode env s1 = MODE_LOOP then
          let s2 = (if runShuffle env s1 \<noteq> 0 then shuffleOrder env s1 else s1)
          in (True, s2\<lparr>index := 0\<rparr>)
        else (False, finish s1)
      else (True, s1))"

definition loadSingle :: "string \<Rightarrow> playlist \<Rightarrow> playlist" where
  "loadSingle path s =
     (let cur = (if path = [] \<or> hd path \<noteq> CHR ''/'' then ''/'' @ path else path)
      in s\<lparr>current_path := cur, next_path := [], playlist_path := [], order := [0],
           playlist_name := cur, index := 0, resolved_index := 0, since_home := 0,
           clear_done := False, pending_clear := []\<rparr>)"

section \<open>The clear file\<close>

definition firstRho :: "pl_env \<Rightarrow> string \<Rightarrow> rat" where
  "firstRho env sdpath =
     (case files env sdpath of
        None \<Rightarrow> - 1
      | Some content \<Rightarrow> first_rho (scan2 env) (take 4096 content))"

definition clearFileFor :: "pl_env \<Rightarrow> string \<Rightarrow> playlist \<Rightarrow> string" where
  "clearFileFor env patternPath s =
     (let mode = (if clear_override s \<ge> 0 then clear_override s else set_clear_mode (settings env));
          rho = (if mode = CLEAR_ADAPTIVE then firstRho env patternPath else - 1);
          pick = (\<lambda>v fallback. if v \<noteq> [] then v else fallback);
          chosen = (case choose_clear mode rho (rand env 0) of
                      FromIn \<Rightarrow> pick (set_clear_in (settings env)) (clear_in s)
                    | FromOut \<Rightarrow> pick (set_clear_out (settings env)) (clear_out s)
                    | Sideway \<Rightarrow> clear_side s
                    | NoClear \<Rightarrow> [])
      in if chosen = [] then []
         else if \<not> file_exists env chosen then []
         else chosen)"

section \<open>The scan against the reference parser\<close>

text \<open>
  Handing the cleaned paths to a callback one by one, stopping when it says so or at the
  item limit.
\<close>

fun feed :: "('a \<Rightarrow> nat \<Rightarrow> string \<Rightarrow> 'a \<times> bool) \<Rightarrow> nat \<Rightarrow> string list \<Rightarrow> 'a \<Rightarrow> 'a" where
  "feed fn vi [] acc = acc"
| "feed fn vi (p # ps) acc =
     (let (acc', cont) = fn acc vi p in if cont then feed fn (vi + 1) ps acc' else acc')"

definition scannable :: "string \<Rightarrow> bool" where
  "scannable content \<longleftrightarrow>
     length content \<le> MAX_PLAYLIST_FILE \<and> list_all (\<lambda>l. length l \<le> MAX_LINE) (file_lines content)"

lemma scan_loop_feed:
  assumes "consumed + length content \<le> MAX_PLAYLIST_FILE" "valid \<le> MAX_ITEMS"
    and "list_all (\<lambda>l. length l \<le> MAX_LINE) (split_acc (CHR 0x0A) line content)"
  shows "scan_loop fn content line consumed valid False acc =
    feed fn valid
      (take (MAX_ITEMS - valid) (filter (\<lambda>p. p \<noteq> []) (map clean_line (split_acc (CHR 0x0A) line content)))) acc"
  using assms
proof (induction content arbitrary: line consumed valid acc)
  case Nil
  then show ?case
    by (auto simp: scan_flush_def take_Cons' Let_def split: prod.split)
next
  case (Cons c cs)
  show ?case
  proof (cases "valid < MAX_ITEMS")
    case False
    with Cons.prems(2) show ?thesis by simp
  next
    case valid: True
    have cons: "consumed < MAX_PLAYLIST_FILE" using Cons.prems(1) by simp
    show ?thesis
    proof (cases "c = CHR 0x0A")
      case nl: True
      have IH: "scan_loop fn cs [] (consumed + 1) v False a =
          feed fn v (take (MAX_ITEMS - v)
            (filter (\<lambda>p. p \<noteq> []) (map clean_line (split_acc (CHR 0x0A) [] cs)))) a"
        if "v \<le> MAX_ITEMS" for v a
        using Cons.prems nl that by (intro Cons.IH) auto
      obtain n where n: "MAX_ITEMS - valid = Suc n" using valid by (metis Suc_diff_Suc)
      then have n': "MAX_ITEMS - Suc valid = n" by linarith
      show ?thesis
        using nl valid cons IH [of valid acc] IH [of "Suc valid"] n n'
        by (simp add: scan_flush_def Let_def split: prod.split)
    next
      case False
      have pl: "length line < MAX_LINE"
      proof -
        have "list_all (\<lambda>l. length l \<le> MAX_LINE) (split_acc (CHR 0x0A) (line @ [c]) cs)"
          using Cons.prems(3) False by simp
        then show ?thesis
          by (subst (asm) split_acc_find) (auto split: option.splits)
      qed
      with False valid cons Cons.IH [of "consumed + 1" valid "line @ [c]" acc] Cons.prems
      show ?thesis by simp
    qed
  qed
qed

lemma scan_loop_patterns:
  assumes "scannable content"
  shows "scan_loop fn content [] 0 0 False acc = feed fn 0 (take MAX_ITEMS (patterns_of content)) acc"
  using scan_loop_feed [of 0 content 0 "[]" fn acc] assms
  by (simp add: scannable_def patterns_of_def file_lines_def split_on_def)

end
