(* ===== verification/PlaylistPoll.thy ===== *)
theory PlaylistPoll
  imports PlaylistLoad
begin

text \<open>
  FluidNC/src/Playlist.cpp, \<open>Playlist::pollLine\<close>: the state machine, in the pieces the
  function has, in its order. A piece that can return from the function yields
  \<open>Some line\<close> when it returns Error::Ok with a command line in the buffer, and None
  where it breaks out of the switch.
\<close>

section \<open>Before the switch\<close>

text \<open>Still Sands LED-off.\<close>

definition poll_led_off :: "pl_env \<Rightarrow> playlist \<Rightarrow> playlist" where
  "poll_led_off env s =
     (let (want_off, s1) =
            (if set_sands_led_off (settings env) then quietNow env s else (False, s))
      in if want_off \<noteq> led_off_active (quiet s1) then
           let s2 = s1\<lparr>quiet := (quiet s1)\<lparr>led_off_active := want_off\<rparr>\<rparr>
           in if has_leds env then emit (SetQuietOff want_off) s2 else s2
         else s1)"

text \<open>Still Sands FinishPattern=OFF: hold a running pattern, resume it.\<close>

definition poll_quiet_hold :: "pl_env \<Rightarrow> playlist \<Rightarrow> playlist" where
  "poll_quiet_hold env s =
     (let fin = set_sands_finish (settings env);
          enabled = set_sands_enabled (settings env);
          (q, s1) = (if enabled \<and> \<not> fin then quietNow env s else (False, s))
      in if q \<and> \<not> quiet_held (quiet s1) \<and> phase s1 = RunPattern \<and> machine env = Cycle then
           (emit SendFeedHold s1)\<lparr>quiet := (quiet s1)\<lparr>quiet_held := True\<rparr>\<rparr>
         else if quiet_held (quiet s1) \<and> \<not> q then
           (emit SendCycleStart s1)\<lparr>quiet := (quiet s1)\<lparr>quiet_held := False\<rparr>\<rparr>
         else s1)"

text \<open>Auto-play on boot.\<close>

definition poll_autostart :: "pl_env \<Rightarrow> playlist \<Rightarrow> playlist" where
  "poll_autostart env s =
     (let a = auto s; st = settings env in
      if autostart_pending a \<and> phase s = Off \<and> \<not> req_run (req s) \<and> \<not> req_stop (req s)
         \<and> machine env = Idle then
        if set_autostart st = [] then s\<lparr>auto := a\<lparr>autostart_pending := False\<rparr>\<rparr>
        else if \<not> homed_since_boot env then
          let a1 = (if \<not> autostart_idle_seen a
                    then a\<lparr>autostart_idle_seen := True, autostart_idle_ms := now env\<rparr> else a)
          in if \<not> autostart_home_sent a1 \<and> now env - autostart_idle_ms a1 \<ge> AUTOSTART_HOME_GRACE_MS
             then emit StartHome (s\<lparr>auto := a1\<lparr>autostart_home_sent := True\<rparr>\<rparr>)
             else s\<lparr>auto := a1\<rparr>
        else if job_active env then s
        else s\<lparr>auto := a\<lparr>autostart_pending := False\<rparr>,
               req := (req s)\<lparr>
                 req_name := strlcpy 128 (set_autostart st),
                 req_single := False,
                 req_clear_override := set_autostart_clear st,
                 req_ov_mode := set_autostart_mode st,
                 req_ov_shuffle := set_autostart_shuffle st,
                 req_ov_pause := set_autostart_pause st,
                 req_ov_pfs := set_autostart_pfs st,
                 req_no_abort := True,
                 req_run := True\<rparr>\<rparr>
      else if autostart_pending a \<and> machine env \<noteq> Idle
      then s\<lparr>auto := a\<lparr>autostart_idle_seen := False\<rparr>\<rparr>
      else s)"

text \<open>A pending stop.\<close>

definition poll_stop :: "pl_env \<Rightarrow> playlist \<Rightarrow> playlist" where
  "poll_stop env s =
     (let s1 = s\<lparr>req := (req s)\<lparr>req_stop := False, req_skip := False\<rparr>\<rparr>;
          s2 = (if phase s1 \<noteq> Off then
                  let s' = finish s1
                  in if job_active env then emit SendStopJob s' else s'
                else s1)
      in publish s2)"

text \<open>A pending run.\<close>

definition poll_run :: "pl_env \<Rightarrow> playlist \<Rightarrow> playlist" where
  "poll_run env s =
     (let r = req s;
          s1 = s\<lparr>req := r\<lparr>req_run := False, req_no_abort := False\<rparr>,
                 single := req_single r, clear_override := req_clear_override r,
                 ov_mode := req_ov_mode r, ov_shuffle := req_ov_shuffle r,
                 ov_pause := req_ov_pause r, ov_pfs := req_ov_pfs r,
                 consec_fail := 0, skip_active := False\<rparr>;
          s2 = (if job_active env \<and> \<not> req_no_abort r then emit SendStopJob s1 else s1);
          s3 = (if sd_mounts env then s2\<lparr>sd_hold := True\<rparr> else s2)
      in if single s3 then (loadSingle (req_name r) s3)\<lparr>phase := NextItem\<rparr>
         else let (ok, s4) = loadPlaylist env (req_name r) s3
              in if ok then s4\<lparr>phase := NextItem\<rparr> else finish s4)"

section \<open>The phases\<close>

definition run_line :: "string \<Rightarrow> string" where
  "run_line path = take (LINE_BUFFER_SIZE - 1) (''$SD/Run='' @ c_str path)"

text \<open>
  Phase::NextItem. The quiet-hours gate first: it yields whether to go on.
\<close>

definition quiet_gate :: "pl_env \<Rightarrow> playlist \<Rightarrow> bool \<times> playlist" where
  "quiet_gate env s =
     (let (qn, s1) = (if \<not> single s then quietNow env s else (False, s)) in
      if qn then
        let s2 = s1\<lparr>quiet := (quiet s1)\<lparr>in_quiet := True\<rparr>\<rparr>;
            s3 = (if req_skip (req s2)
                  then s2\<lparr>req := (req s2)\<lparr>req_skip := False\<rparr>,
                          quiet := (quiet s2)\<lparr>quiet_override := True\<rparr>\<rparr>
                  else s2)
        in (quiet_override (quiet s3), s3)
      else if in_quiet (quiet s1)
      then (True, s1\<lparr>quiet := (quiet s1)\<lparr>in_quiet := False, quiet_override := False\<rparr>\<rparr>)
      else (True, s1))"

text \<open>The clear decision, made once per item: an injected clear, or nothing.\<close>

definition inject_clear :: "pl_env \<Rightarrow> playlist \<Rightarrow> string option \<times> playlist" where
  "inject_clear env s =
     (if \<not> clear_done s then
        let s1 = s\<lparr>pending_clear := clearFileFor env (current_path s) s, clear_done := True\<rparr>
        in if pending_clear s1 \<noteq> [] then
             let sp = set_clear_speed (settings env);
                 s2 = emit (SetClearFeed (if sp > 0 then sp else - 1)) s1
             in (Some (run_line (pending_clear s2)),
                 s2\<lparr>phase := RunClear, job_seen := False, inject_ms := now env, last_err := []\<rparr>)
           else (None, s1)
      else (None, s))"

definition inject_pattern :: "pl_env \<Rightarrow> playlist \<Rightarrow> string option \<times> playlist" where
  "inject_pattern env s =
     (Some (run_line (current_path s)),
      s\<lparr>phase := RunPattern, job_seen := False, inject_ms := now env,
        pattern_start_ms := now env, last_err := []\<rparr>)"

definition inject_item :: "pl_env \<Rightarrow> playlist \<Rightarrow> string option \<times> playlist" where
  "inject_item env s =
     (case inject_clear env s of
        (Some l, s1) \<Rightarrow> (Some l, s1)
      | (None, s1) \<Rightarrow> inject_pattern env s1)"

definition next_item :: "pl_env \<Rightarrow> playlist \<Rightarrow> string option \<times> playlist" where
  "next_item env s =
     (if inAlarmState (machine env) then (None, finish s)
      else
        let (go, s1) = quiet_gate env s in
        if \<not> go then (None, s1)
        else if req_skip (req s1) then
          (None, snd (advanceIndex env
             (s1\<lparr>req := (req s1)\<lparr>req_skip := False\<rparr>, since_home := since_home s1 + 1\<rparr>)))
        else if \<not> line_slot env \<or> machine env \<noteq> Idle \<or> job_active env then (None, s1)
        else if \<not> single s1 \<and> set_auto_home (settings env) > 0
                \<and> since_home s1 \<ge> set_auto_home (settings env) then
          (None, (emit StartHome s1)\<lparr>phase := HomingPhase, job_seen := False, inject_ms := now env\<rparr>)
        else if resolved_index s1 \<noteq> index s1 then
          let (ok, s2) = resolveCurrent env s1 in
          if \<not> ok then
            let s3 = s2\<lparr>consec_fail := consec_fail s2 + 1\<rparr>
            in if consec_fail s3 \<ge> MAX_CONSEC_FAIL then (None, finish s3)
               else (None, snd (advanceIndex env s3))
          else inject_item env (s2\<lparr>resolved_index := index s2\<rparr>)
        else inject_item env s1)"

definition homing_phase :: "pl_env \<Rightarrow> playlist \<Rightarrow> playlist" where
  "homing_phase env s =
     (if machine env = Alarm \<or> machine env = Critical then finish s
      else if \<not> job_seen s then
        (if machine env = Homing \<or> machine env = Jog then s\<lparr>job_seen := True\<rparr>
         else if now env - inject_ms s > INJECT_TIMEOUT_MS then finish s
         else s)
      else if machine env = Idle then s\<lparr>since_home := 0, phase := NextItem\<rparr>
      else if now env - inject_ms s > HOMING_TIMEOUT_MS then finish s
      else s)"

text \<open>
  Phase::RunClear and Phase::RunPattern. First the injected job that never started, then
  the completed clear and the completed pattern.
\<close>

definition skip_to_next :: "pl_env \<Rightarrow> playlist \<Rightarrow> playlist" where
  "skip_to_next env s =
     (let (ok, s1) = advanceIndex env (s\<lparr>since_home := since_home s + 1\<rparr>)
      in if ok then s1\<lparr>phase := NextItem\<rparr> else s1)"

definition inject_timeout :: "pl_env \<Rightarrow> playlist \<Rightarrow> playlist" where
  "inject_timeout env s =
     (let s1 = s\<lparr>skip_active := False\<rparr> in
      if single s1 then finish s1
      else
        let s2 = (if phase s1 = RunClear then emit (SetClearFeed (- 1)) s1 else s1);
            s3 = s2\<lparr>consec_fail := consec_fail s2 + 1\<rparr>
        in if consec_fail s3 \<ge> MAX_CONSEC_FAIL then finish s3 else skip_to_next env s3)"

definition clear_done_phase :: "pl_env \<Rightarrow> playlist \<Rightarrow> playlist" where
  "clear_done_phase env s =
     (let s1 = emit (SetClearFeed (- 1)) s in
      if skip_active s1 then skip_to_next env (s1\<lparr>skip_active := False\<rparr>)
      else s1\<lparr>phase := NextItem\<rparr>)"

definition pattern_done :: "pl_env \<Rightarrow> playlist \<Rightarrow> playlist" where
  "pattern_done env s =
     (let s1 = s\<lparr>last_pattern := current_path s, since_home := since_home s + 1,
                 quiet := (quiet s)\<lparr>quiet_override := False\<rparr>\<rparr>;
          full = (of_int (runPause env s1) :: u32) * 1000;
          elapsed = now env - pattern_start_ms s1;
          p1 = (if runPauseFromStart env s1 \<noteq> 0
                then (if full > elapsed then full - elapsed else 0) else full);
          (pause_ms, s2) = (if skip_active s1 then (0, s1\<lparr>skip_active := False\<rparr>) else (p1, s1));
          (ok, s3) = advanceIndex env s2
      in if \<not> ok then s3
         else if pause_ms > 0
         then s3\<lparr>pause_until_ms := now env + pause_ms, pause_total_ms := pause_ms, phase := Pausing\<rparr>
         else s3\<lparr>phase := NextItem\<rparr>)"

definition run_phase :: "pl_env \<Rightarrow> playlist \<Rightarrow> playlist" where
  "run_phase env s =
     (if inAlarmState (machine env) then finish s
      else if req_skip (req s) then
        let s1 = s\<lparr>req := (req s)\<lparr>req_skip := False\<rparr>, skip_active := True\<rparr>
        in if job_active env then emit SendStopJob s1 else s1
      else if \<not> job_seen s then
        (if job_active env then
           let s1 = s\<lparr>job_seen := True\<rparr>
           in if phase s1 = RunPattern then s1\<lparr>consec_fail := 0\<rparr> else s1
         else if now env - inject_ms s > INJECT_TIMEOUT_MS then inject_timeout env s
         else s)
      else if \<not> job_active env \<and> machine env = Idle then
        (if phase s = RunClear then clear_done_phase env s else pattern_done env s)
      else s)"

definition pausing_phase :: "pl_env \<Rightarrow> playlist \<Rightarrow> playlist" where
  "pausing_phase env s =
     (if req_skip (req s) then s\<lparr>req := (req s)\<lparr>req_skip := False\<rparr>, phase := NextItem\<rparr>
      else if deadline_passed (now env) (pause_until_ms s) then s\<lparr>phase := NextItem\<rparr>
      else s)"

section \<open>The whole poll\<close>

definition poll_switch :: "pl_env \<Rightarrow> playlist \<Rightarrow> string option \<times> playlist" where
  "poll_switch env s =
     (case phase s of
        Off \<Rightarrow> (None, s)
      | NextItem \<Rightarrow> next_item env s
      | HomingPhase \<Rightarrow> (None, homing_phase env s)
      | RunClear \<Rightarrow> (None, run_phase env s)
      | RunPattern \<Rightarrow> (None, run_phase env s)
      | Pausing \<Rightarrow> (None, pausing_phase env s))"

text \<open>
  \<open>pollLine\<close>: None is Error::NoData, \<open>Some line\<close> is Error::Ok with the line. The list of
  effects is that of this poll alone.
\<close>

definition pollLine :: "pl_env \<Rightarrow> playlist \<Rightarrow> string option \<times> playlist" where
  "pollLine env s0 =
     (let s = poll_autostart env (poll_quiet_hold env (poll_led_off env (s0\<lparr>effects := []\<rparr>))) in
      if phase s = Off \<and> \<not> req_run (req s) \<and> \<not> req_stop (req s) then (None, emit FlushFeedLive s)
      else if req_stop (req s) then (None, poll_stop env s)
      else if req_run (req s) then (None, poll_run env s)
      else (case poll_switch env s of
              (Some l, s') \<Rightarrow> (Some l, s')
            | (None, s') \<Rightarrow> (None, publish s')))"

end
