(* ===== verification/PlaylistOrder.thy ===== *)
theory PlaylistOrder
  imports PlaylistPoll
begin

text \<open>
  What the scan, the shuffle, the load and the resolve compute. The lines a scan delivers
  are a list that does not depend on the callback; loading counts it, resolving indexes
  it; the play order is a permutation of its indices, so that one pass over the order
  plays every line of the file exactly once.
\<close>

section \<open>The lines a scan delivers\<close>

fun scanned_from :: "string \<Rightarrow> string \<Rightarrow> nat \<Rightarrow> nat \<Rightarrow> bool \<Rightarrow> string list" where
  "scanned_from [] line consumed valid overlong =
     (if \<not> overlong \<and> valid < MAX_ITEMS \<and> clean_line line \<noteq> [] then [clean_line line] else [])"
| "scanned_from (c # cs) line consumed valid overlong =
     (if consumed < MAX_PLAYLIST_FILE \<and> valid < MAX_ITEMS then
        (if c = CHR 0x0A then
           (if \<not> overlong \<and> clean_line line \<noteq> []
            then clean_line line # scanned_from cs [] (consumed + 1) (valid + 1) False
            else scanned_from cs [] (consumed + 1) valid False)
         else if length line < MAX_LINE
         then scanned_from cs (line @ [c]) (consumed + 1) valid overlong
         else scanned_from cs line (consumed + 1) valid True)
      else (if \<not> overlong \<and> valid < MAX_ITEMS \<and> clean_line line \<noteq> [] then [clean_line line] else []))"

definition scanned :: "string \<Rightarrow> string list" where
  "scanned content = scanned_from content [] 0 0 False"

lemma scan_loop_scanned_from:
  "scan_loop fn content line consumed valid overlong acc =
   feed fn valid (scanned_from content line consumed valid overlong) acc"
proof (induction content arbitrary: line consumed valid overlong acc)
  case Nil
  show ?case by (simp add: scan_flush_def Let_def split: prod.split)
next
  case (Cons c cs)
  show ?case
  proof (cases "consumed < MAX_PLAYLIST_FILE \<and> valid < MAX_ITEMS")
    case True
    then show ?thesis
      by (cases "overlong"; cases "clean_line line = []")
        (simp_all add: scan_flush_def Let_def Cons.IH split: prod.split)
  next
    case False
    then show ?thesis
      by (simp only: scan_loop.simps scanned_from.simps if_False)
        (simp add: scan_flush_def Let_def split: prod.split)
  qed
qed

lemma length_scanned_from: "length (scanned_from content line consumed valid overlong) \<le> MAX_ITEMS - valid"
proof (induction content arbitrary: line consumed valid overlong)
  case Nil
  show ?case by auto
next
  case (Cons c cs)
  show ?case
  proof (cases "consumed < MAX_PLAYLIST_FILE \<and> valid < MAX_ITEMS")
    case True
    have "Suc (length (scanned_from cs [] (consumed + 1) (valid + 1) False)) \<le> MAX_ITEMS - valid"
      using Cons.IH [of "[]" "consumed + 1" "valid + 1" False] True by linarith
    with True Cons.IH show ?thesis by simp
  next
    case False
    then show ?thesis by (simp only: scanned_from.simps if_False) auto
  qed
qed

lemma scanned_from_nonempty:
  "list_all (\<lambda>p. p \<noteq> []) (scanned_from content line consumed valid overlong)"
proof (induction content arbitrary: line consumed valid overlong)
  case (Cons c cs)
  show ?case
  proof (cases "consumed < MAX_PLAYLIST_FILE \<and> valid < MAX_ITEMS")
    case True
    then show ?thesis by (simp add: Cons.IH)
  next
    case False
    then show ?thesis by (simp only: scanned_from.simps if_False) simp
  qed
qed simp

lemma length_scanned: "length (scanned content) \<le> MAX_ITEMS"
  unfolding scanned_def using length_scanned_from [of content "[]" 0 0 False] by simp

lemma scanned_nonempty: "p \<in> set (scanned content) \<Longrightarrow> p \<noteq> []"
  using scanned_from_nonempty [of content "[]" 0 0 False] by (auto simp: list_all_iff scanned_def)

lemma scan_loop_scanned: "scan_loop fn content [] 0 0 False acc = feed fn 0 (scanned content) acc"
  by (simp add: scan_loop_scanned_from scanned_def)

lemma feed_collect: "feed (\<lambda>acc i p. (acc @ [p], True)) vi ps acc = acc @ ps"
  by (induction ps arbitrary: vi acc) auto

lemma scanned_patterns:
  assumes "scannable content"
  shows "scanned content = take MAX_ITEMS (patterns_of content)"
  using scan_loop_patterns [OF assms, of "\<lambda>acc i p. (acc @ [p], True)" "[]"]
  by (simp add: scan_loop_scanned feed_collect)

section \<open>Counting and resolving\<close>

lemma feed_count: "feed count_fn vi ps n = n + length ps"
  by (induction ps arbitrary: vi n) (auto simp: count_fn_def)

lemma feed_resolve:
  assumes "\<forall>p\<in>set ps. p \<noteq> []" and "a = [] \<or> (wn \<and> b = [])"
    and "a \<noteq> [] \<Longrightarrow> t < vi" and "b \<noteq> [] \<Longrightarrow> nt < vi" and "t \<noteq> nt" and "\<not> wn \<Longrightarrow> b = []"
  shows "feed (resolve_fn t wn nt) vi ps (a, b) =
    (if vi \<le> t \<and> t < vi + length ps then ps ! (t - vi) else a,
     if wn \<and> vi \<le> nt \<and> nt < vi + length ps then ps ! (nt - vi) else b)"
  using assms
proof (induction ps arbitrary: vi a b)
  case Nil
  then show ?case by auto
next
  case (Cons p ps)
  let ?r = "resolve_fn t wn nt (a, b) vi p"
  have p: "p \<noteq> []" using Cons.prems(1) by simp
  consider (tgt) "vi = t" | (nxt) "vi \<noteq> t" "wn" "vi = nt" | (other) "vi \<noteq> t" "\<not> (wn \<and> vi = nt)" by blast
  then show ?case
  proof cases
    case tgt
    have r: "?r = ((p, b), wn \<and> b = [])" using tgt p by (simp add: resolve_fn_def)
    show ?thesis
    proof (cases "wn \<and> b = []")
      case True
      have "feed (resolve_fn t wn nt) (vi + 1) ps (p, b) =
        (if vi + 1 \<le> t \<and> t < vi + 1 + length ps then ps ! (t - (vi + 1)) else p,
         if wn \<and> vi + 1 \<le> nt \<and> nt < vi + 1 + length ps then ps ! (nt - (vi + 1)) else b)"
        using Cons.prems True tgt by (intro Cons.IH) auto
      then show ?thesis using r True tgt Cons.prems(5) by (auto simp: nth_Cons')
    next
      case False
      then show ?thesis using r tgt Cons.prems by (auto simp: nth_Cons')
    qed
  next
    case nxt
    have r: "?r = ((a, p), a = [])" using nxt p by (simp add: resolve_fn_def)
    show ?thesis
    proof (cases "a = []")
      case True
      have "feed (resolve_fn t wn nt) (vi + 1) ps (a, p) =
        (if vi + 1 \<le> t \<and> t < vi + 1 + length ps then ps ! (t - (vi + 1)) else a,
         if wn \<and> vi + 1 \<le> nt \<and> nt < vi + 1 + length ps then ps ! (nt - (vi + 1)) else p)"
        using Cons.prems True nxt by (intro Cons.IH) auto
      then show ?thesis using r True nxt by (auto simp: nth_Cons')
    next
      case False
      then show ?thesis using r nxt Cons.prems by (auto simp: nth_Cons')
    qed
  next
    case other
    have r: "?r = ((a, b), True)" using other Cons.prems(2) by (auto simp: resolve_fn_def)
    have "feed (resolve_fn t wn nt) (vi + 1) ps (a, b) =
        (if vi + 1 \<le> t \<and> t < vi + 1 + length ps then ps ! (t - (vi + 1)) else a,
         if wn \<and> vi + 1 \<le> nt \<and> nt < vi + 1 + length ps then ps ! (nt - (vi + 1)) else b)"
      using Cons.prems by (intro Cons.IH) auto
    then show ?thesis using r other by (auto simp: nth_Cons')
  qed
qed

section \<open>Permutations\<close>

text \<open>An operation that only reorders: what the loop over a playlist needs of a shuffle.\<close>

locale reorder =
  fixes f :: "'a list \<Rightarrow> 'a list"
  assumes same_items: "mset (f xs) = mset xs"
begin

lemma same_length: "length (f xs) = length xs"
  using same_items [of xs] by (rule mset_eq_length)

lemma same_set: "set (f xs) = set xs"
  using same_items [of xs] by (rule mset_eq_setD)

lemma same_distinct: "distinct (f xs) = distinct xs"
  using same_items [of xs] by (rule mset_eq_imp_distinct_iff)

lemma same_map: "mset (map g (f xs)) = mset (map g xs)"
  by (simp add: same_items)

end

lemma mset_swap_at: "i < length xs \<Longrightarrow> j < length xs \<Longrightarrow> mset (swap_at i j xs) = mset xs"
  by (simp add: swap_at_def mset_swap)

lemma length_swap_at [simp]: "length (swap_at i j xs) = length xs"
  by (simp add: swap_at_def)

lemma mset_shuffle_loop: "i < length xs \<or> i = 0 \<Longrightarrow> mset (shuffle_loop rnd k i xs) = mset xs"
proof (induction rnd k i xs rule: shuffle_loop.induct)
  case (2 rnd k i xs)
  then have i: "Suc i < length xs" by simp
  have j: "unat (rnd k) mod (Suc i + 1) < length xs"
    by (rule less_le_trans [of _ "Suc i + 1"]) (use i in auto)
  show ?case using 2 mset_swap_at [OF i j] i by auto
qed auto

interpretation shuffled: reorder "\<lambda>xs. shuffle_loop rnd k (length xs - 1) xs" for rnd k
  by unfold_locales (rule mset_shuffle_loop, auto)

definition perm_upto :: "u16 list \<Rightarrow> bool" where
  "perm_upto xs \<longleftrightarrow> length xs \<le> MAX_ITEMS \<and> mset xs = mset (map of_nat [0..<length xs])"

lemma perm_upto_shuffle: "perm_upto (shuffle_loop rnd k (length xs - 1) xs) = perm_upto xs"
  unfolding perm_upto_def shuffled.same_items shuffled.same_length ..

lemma unat_of_nat_u16: "n < 65536 \<Longrightarrow> unat (of_nat n :: u16) = n"
  by (simp add: unsigned_of_nat take_bit_nat_eq_self)

lemma perm_upto_identity: "n \<le> MAX_ITEMS \<Longrightarrow> perm_upto (map of_nat [0..<n])"
  by (simp add: perm_upto_def)

lemma perm_upto_map:
  assumes "perm_upto xs" shows "mset (map unat xs) = mset [0..<length xs]"
proof -
  have "mset (map unat xs) = image_mset unat (mset (map of_nat [0..<length xs] :: u16 list))"
    using assms by (simp add: perm_upto_def)
  also have "\<dots> = mset (map (\<lambda>n. unat (of_nat n :: u16)) [0..<length xs])"
    by (simp add: multiset.map_comp comp_def)
  also have "map (\<lambda>n. unat (of_nat n :: u16)) [0..<length xs] = map id [0..<length xs]"
    using assms by (intro map_cong refl) (auto simp: perm_upto_def unat_of_nat_u16)
  finally show ?thesis by simp
qed

lemma perm_upto_less: "perm_upto xs \<Longrightarrow> i < length xs \<Longrightarrow> unat (xs ! i) < length xs"
proof -
  assume "perm_upto xs" "i < length xs"
  then have "unat (xs ! i) \<in> set (map unat xs)" by simp
  also have "set (map unat xs) = set [0..<length xs]"
    using perm_upto_map [OF \<open>perm_upto xs\<close>] by (rule mset_eq_setD)
  finally show ?thesis by simp
qed

lemma perm_upto_distinct:
  assumes "perm_upto xs" shows "distinct (map unat xs)"
  using mset_eq_imp_distinct_iff [OF perm_upto_map [OF assms]] by simp

lemma perm_upto_nth_neq:
  assumes "perm_upto xs" "i < length xs" "j < length xs" "i \<noteq> j"
  shows "unat (xs ! i) \<noteq> unat (xs ! j)"
  using perm_upto_distinct [OF assms(1)] assms(2-) by (auto simp: distinct_conv_nth)

lemma perm_upto_plays:
  assumes "perm_upto xs" "length xs = length ps"
  shows "mset (map (\<lambda>o'. ps ! unat o') xs) = mset ps"
proof -
  have "mset (map (\<lambda>o'. ps ! unat o') xs) = image_mset ((!) ps) (mset (map unat xs))"
    by (simp add: multiset.map_comp comp_def)
  also have "\<dots> = mset (map ((!) ps) [0..<length ps])"
    using perm_upto_map [OF assms(1)] assms(2) by simp
  finally show ?thesis by (simp add: map_nth)
qed

lemma perm_upto_0: "perm_upto [0]"
  by (simp add: perm_upto_def)

end
