(* ===== verification/PlaylistInv.thy ===== *)
theory PlaylistInv
  imports PlaylistOrder Transition
begin

text \<open>
  The invariant of the playlist module over every interleaving of polls, command handlers
  and captured error lines, and the facts about single polls that the properties use.
\<close>

section \<open>Steps\<close>

inductive pl_step :: "playlist \<Rightarrow> playlist \<Rightarrow> bool" where
  step_poll: "pollLine env s = (l, s') \<Longrightarrow> pl_step s s'"
| step_run: "cmd_run inst m v s = (e, s') \<Longrightarrow> pl_step s s'"
| step_single: "runSingle inst m v c s = (e, s') \<Longrightarrow> pl_step s s'"
| step_stop: "cmd_stop inst s = (e, s') \<Longrightarrow> pl_step s s'"
| step_stopActive: "stopActive inst s = (b, s') \<Longrightarrow> pl_step s s'"
| step_skip: "cmd_skip inst s = (e, s') \<Longrightarrow> pl_step s s'"
| step_line: "pl_step s (sendLine err l s)"

inductive_cases pl_step_cases: "pl_step s s'"

definition pl_init :: "playlist \<Rightarrow> bool" where
  "pl_init s \<longleftrightarrow> s = init_playlist (folder s) (clear_in s) (clear_out s) (clear_side s)"

section \<open>The invariant\<close>

definition pl_inv :: "playlist \<Rightarrow> bool" where
  "pl_inv s \<longleftrightarrow>
     (if phase s = Off
      then order s = [] \<and> playlist_path s = [] \<and> current_path s = [] \<and> next_path s = []
           \<and> pending_clear s = [] \<and> \<not> skip_active s \<and> \<not> sd_hold s
      else index s < length (order s) \<and> perm_upto (order s)
           \<and> 0 \<le> consec_fail s \<and> consec_fail s < MAX_CONSEC_FAIL
           \<and> (single s \<longleftrightarrow> playlist_path s = []) \<and> (single s \<longrightarrow> length (order s) = 1)
           \<and> (phase s = RunClear \<longrightarrow> clear_done s \<and> pending_clear s \<noteq> [])
           \<and> (phase s = RunPattern \<longrightarrow> clear_done s)
           \<and> (phase s = HomingPhase \<or> phase s = Pausing \<longrightarrow> \<not> single s)
           \<and> (skip_active s \<longrightarrow> phase s = RunClear \<or> phase s = RunPattern))"

text \<open>What the invariant needs of a state that is about to get a new phase.\<close>

definition live :: "playlist \<Rightarrow> bool" where
  "live s \<longleftrightarrow> index s < length (order s) \<and> perm_upto (order s)
     \<and> 0 \<le> consec_fail s \<and> consec_fail s < MAX_CONSEC_FAIL
     \<and> (single s \<longleftrightarrow> playlist_path s = []) \<and> (single s \<longrightarrow> length (order s) = 1)"

text \<open>The part of the state the invariant reads.\<close>

definition run_view where
  "run_view s = (phase s, order s, playlist_path s, current_path s, next_path s, pending_clear s,
     skip_active s, sd_hold s, index s, consec_fail s, single s, clear_done s)"

lemma pl_inv_view: "run_view s = run_view t \<Longrightarrow> pl_inv s = pl_inv t"
  by (simp add: run_view_def pl_inv_def)

lemma live_view: "run_view s = run_view t \<Longrightarrow> live s = live t"
  by (simp add: run_view_def live_def)

lemma pl_inv_live: "pl_inv s \<Longrightarrow> phase s \<noteq> Off \<Longrightarrow> live s"
  by (simp add: pl_inv_def live_def)

lemma emit_simps [simp]:
  "run_view (emit e s) = run_view s" "phase (emit e s) = phase s" "order (emit e s) = order s"
  "req (emit e s) = req s" "single (emit e s) = single s" "index (emit e s) = index s"
  "consec_fail (emit e s) = consec_fail s" "skip_active (emit e s) = skip_active s"
  "quiet (emit e s) = quiet s" "pub (emit e s) = pub s" "auto (emit e s) = auto s"
  "clear_done (emit e s) = clear_done s" "pending_clear (emit e s) = pending_clear s"
  "current_path (emit e s) = current_path s" "playlist_path (emit e s) = playlist_path s"
  "live (emit e s) = live s" "resolved_index (emit e s) = resolved_index s"
  "effects (emit e s) = effects s @ [e]" "since_home (emit e s) = since_home s"
  "next_path (emit e s) = next_path s" "sd_hold (emit e s) = sd_hold s" "folder (emit e s) = folder s"
  by (simp_all add: emit_def run_view_def live_def)

lemma publish_view [simp]: "run_view (publish s) = run_view s" "phase (publish s) = phase s"
  "req (publish s) = req s" "effects (publish s) = effects s" "quiet (publish s) = quiet s"
  by (simp_all add: publish_def run_view_def Let_def)

lemma pl_inv_publish [simp]: "pl_inv (publish s) = pl_inv s"
  by (rule pl_inv_view) simp

section \<open>Frames\<close>

lemma emit_quiet_frame:
  "emit e (s\<lparr>quiet := q\<rparr>) = s\<lparr>quiet := q, effects := effects s @ [e]\<rparr>"
  "(emit e s)\<lparr>quiet := q\<rparr> = s\<lparr>quiet := q, effects := effects s @ [e]\<rparr>"
  "s\<lparr>quiet := q\<rparr> = s\<lparr>quiet := q, effects := effects s\<rparr>"
  by (simp_all add: emit_def)

text \<open>What a piece of the poll before the switch can change.\<close>

definition quiet_only :: "playlist \<Rightarrow> playlist \<Rightarrow> bool" where
  "quiet_only s t \<longleftrightarrow> (\<exists>q es. t = s\<lparr>quiet := q, effects := es\<rparr>)"

lemma quiet_onlyI: "t = s\<lparr>quiet := q, effects := es\<rparr> \<Longrightarrow> quiet_only s t"
  by (auto simp: quiet_only_def)

lemma quiet_only_refl: "quiet_only s s"
  by (rule quiet_onlyI [where q = "quiet s" and es = "effects s"]) simp

lemma quiet_only_quiet: "quiet_only s t \<Longrightarrow> quiet_only s (t\<lparr>quiet := q\<rparr>)"
  by (rule quiet_onlyI [where q = q and es = "effects t"]) (auto simp: quiet_only_def)

lemma quiet_only_emit: "quiet_only s t \<Longrightarrow> quiet_only s (emit e t)"
  by (rule quiet_onlyI [where q = "quiet t" and es = "effects t @ [e]"])
    (auto simp: quiet_only_def emit_def)

lemma quiet_only_quietNow: "quiet_only s t \<Longrightarrow> quiet_only s (snd (quietNow env t))"
  unfolding quietNow_def snd_conv by (rule quiet_only_quiet)

lemmas quiet_only_intros = quiet_only_refl quiet_only_quiet quiet_only_emit quiet_only_quietNow

lemma quiet_only_view:
  assumes "quiet_only s t"
  shows "run_view t = run_view s" "phase t = phase s" "req t = req s" "single t = single s"
    "auto t = auto s" "pub t = pub s" "playlist_path t = playlist_path s" "index t = index s"
    "order t = order s" "resolved_index t = resolved_index s"
  using assms by (auto simp: quiet_only_def run_view_def)

lemma quiet_only_led_off: "quiet_only s (poll_led_off env s)"
  unfolding poll_led_off_def Let_def case_prod_beta
  by (simp only: split: if_split) (auto intro!: quiet_only_intros)

lemma quiet_only_hold: "quiet_only s (poll_quiet_hold env s)"
  unfolding poll_quiet_hold_def Let_def case_prod_beta
  by (simp only: split: if_split) (auto intro!: quiet_only_intros)

lemmas quietNow_view [simp] = quiet_only_view [OF quiet_only_quietNow [OF quiet_only_refl]]
lemmas poll_led_off_view [simp] = quiet_only_view [OF quiet_only_led_off]
lemmas poll_quiet_hold_view [simp] = quiet_only_view [OF quiet_only_hold]

lemma poll_autostart_view [simp]:
  "run_view (poll_autostart env s) = run_view s" "phase (poll_autostart env s) = phase s"
  "req_stop (req (poll_autostart env s)) = req_stop (req s)"
  "quiet (poll_autostart env s) = quiet s"
  by (auto simp: poll_autostart_def Let_def run_view_def)

text \<open>The state the switch of a poll sees.\<close>

definition poll_head :: "pl_env \<Rightarrow> playlist \<Rightarrow> playlist" where
  "poll_head env s = poll_autostart env (poll_quiet_hold env (poll_led_off env (s\<lparr>effects := []\<rparr>)))"

lemma poll_head_view [simp]:
  "run_view (poll_head env s) = run_view s" "phase (poll_head env s) = phase s"
  "req_stop (req (poll_head env s)) = req_stop (req s)"
  by (simp_all add: poll_head_def run_view_def [of "s\<lparr>effects := e\<rparr>" for e] run_view_def [of s])

lemma poll_head_req: "phase s \<noteq> Off \<Longrightarrow> req (poll_head env s) = req s"
  by (auto simp: poll_head_def poll_autostart_def Let_def)

lemma pollLine_head:
  "pollLine env s0 =
     (let s = poll_head env s0 in
      if phase s = Off \<and> \<not> req_run (req s) \<and> \<not> req_stop (req s) then (None, emit FlushFeedLive s)
      else if req_stop (req s) then (None, poll_stop env s)
      else if req_run (req s) then (None, poll_run env s)
      else (case poll_switch env s of
              (Some l, s') \<Rightarrow> (Some l, s')
            | (None, s') \<Rightarrow> (None, publish s')))"
  by (simp add: pollLine_def poll_head_def)

lemma finish_simps [simp]:
  "phase (finish s) = Off" "order (finish s) = []" "playlist_path (finish s) = []"
  "current_path (finish s) = []" "next_path (finish s) = []" "pending_clear (finish s) = []"
  "skip_active (finish s) = False" "sd_hold (finish s) = False" "index (finish s) = index s"
  "req_skip (req (finish s)) = False" "req_stop (req (finish s)) = req_stop (req s)"
  "req_run (req (finish s)) = req_run (req s)" "pub (finish s) = pub s"
  "quiet_held (quiet (finish s)) = False" "consec_fail (finish s) = consec_fail s"
  by (simp_all add: finish_def Let_def)

lemma pl_inv_finish [simp, intro]: "pl_inv (finish s)"
  by (simp add: pl_inv_def)

section \<open>The helpers\<close>

lemma resolveCurrent_frame:
  "snd (resolveCurrent env s) =
   s\<lparr>current_path := current_path (snd (resolveCurrent env s)),
     next_path := next_path (snd (resolveCurrent env s))\<rparr>"
proof (cases "playlist_path s = [] \<or> index s \<ge> length (order s)")
  case True
  then show ?thesis by (auto simp: resolveCurrent_def)
next
  case False
  then show ?thesis
    by (simp add: resolveCurrent_def Let_def case_prod_beta split: option.split)
qed

lemma resolveCurrent_simps [simp]:
  "live (snd (resolveCurrent env s)) = live s" "phase (snd (resolveCurrent env s)) = phase s"
  "index (snd (resolveCurrent env s)) = index s" "order (snd (resolveCurrent env s)) = order s"
  "single (snd (resolveCurrent env s)) = single s" "req (snd (resolveCurrent env s)) = req s"
  "consec_fail (snd (resolveCurrent env s)) = consec_fail s"
  "skip_active (snd (resolveCurrent env s)) = skip_active s"
  "playlist_path (snd (resolveCurrent env s)) = playlist_path s"
  "clear_done (snd (resolveCurrent env s)) = clear_done s"
  "pub (snd (resolveCurrent env s)) = pub s" "quiet (snd (resolveCurrent env s)) = quiet s"
  by (subst resolveCurrent_frame, simp add: live_def)+

lemma shuffleOrder_perm: "perm_upto (order s) \<Longrightarrow> perm_upto (order (shuffleOrder env s))"
  by (simp add: shuffleOrder_def perm_upto_shuffle del: One_nat_def)

lemma shuffleOrder_length [simp]: "length (order (shuffleOrder env s)) = length (order s)"
  by (simp add: shuffleOrder_def shuffled.same_length del: One_nat_def)

lemma shuffleOrder_live: "live s \<Longrightarrow> live (shuffleOrder env s)"
  using shuffleOrder_perm [of s env] by (simp add: live_def) (simp add: shuffleOrder_def)

lemma shuffleOrder_simps [simp]:
  "phase (shuffleOrder env s) = phase s" "index (shuffleOrder env s) = index s"
  "single (shuffleOrder env s) = single s" "skip_active (shuffleOrder env s) = skip_active s"
  "playlist_path (shuffleOrder env s) = playlist_path s" "clear_done (shuffleOrder env s) = clear_done s"
  "consec_fail (shuffleOrder env s) = consec_fail s" "req (shuffleOrder env s) = req s"
  by (simp_all add: shuffleOrder_def)

text \<open>Advancing keeps a live run live or ends it.\<close>

lemma advanceIndex_live:
  assumes "live s" "advanceIndex env s = (ok, s')"
  shows "if ok then live s' \<and> \<not> clear_done s' \<and> phase s' = phase s \<and> skip_active s' = skip_active s
                    \<and> single s' = single s \<and> \<not> single s
         else s' = finish (s\<lparr>index := index s + 1, clear_done := False\<rparr>)"
proof -
  let ?t = "s\<lparr>index := index s + 1, clear_done := False\<rparr>"
  show ?thesis
  proof (cases "index ?t \<ge> length (order ?t)")
    case False
    then have "ok" "s' = ?t" using assms(2) by (auto simp: advanceIndex_def Let_def)
    moreover have "\<not> single s" using False assms(1) by (auto simp: live_def)
    ultimately show ?thesis using False assms(1) by (auto simp: live_def)
  next
    case end_of_pass: True
    show ?thesis
    proof (cases "\<not> single ?t \<and> runMode env ?t = MODE_LOOP")
      case False
      then have "advanceIndex env s = (False, finish ?t)"
        using end_of_pass by (simp only: advanceIndex_def Let_def if_True if_False)
      then show ?thesis using assms(2) by simp
    next
      case True
      let ?u = "if runShuffle env ?t \<noteq> 0 then shuffleOrder env ?t else ?t"
      have "advanceIndex env s = (True, ?u\<lparr>index := 0\<rparr>)"
        using end_of_pass True by (simp only: advanceIndex_def Let_def if_True simp_thms)
      then have ok: "ok" and s': "s' = ?u\<lparr>index := 0\<rparr>"
        using assms(2) by auto
      have "perm_upto (order ?u)" "length (order ?u) = length (order s)"
        using assms(1) shuffleOrder_perm [of ?t env] by (simp_all add: live_def)
      with True assms(1) show ?thesis
        unfolding s' using ok by (auto simp: live_def)
    qed
  qed
qed

lemma live_phase:
  assumes "live s" "phase s \<noteq> Off" "\<not> skip_active s"
    and "phase s = RunClear \<Longrightarrow> clear_done s \<and> pending_clear s \<noteq> []"
    and "phase s = RunPattern \<Longrightarrow> clear_done s"
    and "phase s = HomingPhase \<or> phase s = Pausing \<Longrightarrow> \<not> single s"
  shows "pl_inv s"
  using assms by (auto simp: pl_inv_def live_def)

lemma live_update [simp]:
  "live (s\<lparr>phase := p\<rparr>) = live s" "live (s\<lparr>req := r\<rparr>) = live s"
  "live (s\<lparr>since_home := n\<rparr>) = live s" "live (s\<lparr>skip_active := b\<rparr>) = live s"
  "live (s\<lparr>clear_done := b\<rparr>) = live s" "live (s\<lparr>quiet := q\<rparr>) = live s"
  "live (s\<lparr>resolved_index := i\<rparr>) = live s" "live (s\<lparr>job_seen := b\<rparr>) = live s"
  "live (s\<lparr>inject_ms := t\<rparr>) = live s" "live (s\<lparr>pattern_start_ms := t\<rparr>) = live s"
  "live (s\<lparr>last_err := e\<rparr>) = live s" "live (s\<lparr>pending_clear := c\<rparr>) = live s"
  "live (s\<lparr>last_pattern := c\<rparr>) = live s" "live (s\<lparr>pause_until_ms := t\<rparr>) = live s"
  "live (s\<lparr>pause_total_ms := t\<rparr>) = live s"
  by (simp_all add: live_def)

lemma live_fail: "live s \<Longrightarrow> consec_fail s + 1 < MAX_CONSEC_FAIL \<Longrightarrow> live (s\<lparr>consec_fail := consec_fail s + 1\<rparr>)"
  by (simp add: live_def)

lemma live_fail_0: "live s \<Longrightarrow> live (s\<lparr>consec_fail := 0\<rparr>)"
  by (simp add: live_def)

section \<open>Each phase keeps the invariant\<close>

lemma advance_next:
  assumes "live s" "\<not> skip_active s" "phase s = NextItem"
  shows "pl_inv (snd (advanceIndex env s))"
proof (cases "advanceIndex env s")
  case (Pair ok s')
  from advanceIndex_live [OF assms(1) Pair] show ?thesis
    using assms Pair by (cases ok) (auto intro: live_phase)
qed

lemma skip_to_next_inv:
  assumes "live s" "\<not> skip_active s"
  shows "pl_inv (skip_to_next env s)"
proof (cases "advanceIndex env (s\<lparr>since_home := since_home s + 1\<rparr>)")
  case (Pair ok s')
  have l: "live (s\<lparr>since_home := since_home s + 1\<rparr>)" using assms(1) by simp
  from advanceIndex_live [OF l Pair] show ?thesis
    using assms Pair by (cases ok) (auto simp: skip_to_next_def intro: live_phase)
qed

lemma inject_item_inv:
  assumes "live s" "\<not> skip_active s" "phase s = NextItem"
  shows "pl_inv (snd (inject_item env s))"
  using assms
  by (auto simp: inject_item_def inject_clear_def inject_pattern_def Let_def intro!: live_phase
      split: option.split)

lemma quiet_gate_frame:
  assumes "quiet_gate env s = (go, s')"
  shows "live s' = live s" "phase s' = phase s" "skip_active s' = skip_active s" "single s' = single s"
    "order s' = order s" "index s' = index s" "clear_done s' = clear_done s"
    "resolved_index s' = resolved_index s" "current_path s' = current_path s" "run_view s' = run_view s"
proof -
  have v: "run_view s' = run_view s \<and> resolved_index s' = resolved_index s"
  proof -
    obtain qn s1 where p: "(if \<not> single s then quietNow env s else (False, s)) = (qn, s1)"
      by (meson surj_pair)
    then have s1: "run_view s1 = run_view s" "resolved_index s1 = resolved_index s"
      by (auto simp: quietNow_def run_view_def split: if_splits)
    from assms p have "s' = snd (if qn then
        let s2 = s1\<lparr>quiet := (quiet s1)\<lparr>in_quiet := True\<rparr>\<rparr>;
            s3 = (if req_skip (req s2)
                  then s2\<lparr>req := (req s2)\<lparr>req_skip := False\<rparr>,
                          quiet := (quiet s2)\<lparr>quiet_override := True\<rparr>\<rparr>
                  else s2)
        in (quiet_override (quiet s3), s3)
      else if in_quiet (quiet s1)
      then (True, s1\<lparr>quiet := (quiet s1)\<lparr>in_quiet := False, quiet_override := False\<rparr>\<rparr>)
      else (True, s1))"
      unfolding quiet_gate_def by simp
    with s1 show ?thesis by (auto simp: Let_def run_view_def)
  qed
  then show "run_view s' = run_view s" "resolved_index s' = resolved_index s" by auto
  from v live_view show "live s' = live s" by blast
  from v show "phase s' = phase s" "skip_active s' = skip_active s" "single s' = single s"
    "order s' = order s" "index s' = index s" "clear_done s' = clear_done s" "current_path s' = current_path s"
    by (auto simp: run_view_def)
qed

lemma pl_invD:
  assumes "pl_inv s" "phase s \<noteq> Off"
  shows "live s"
    "phase s = RunClear \<Longrightarrow> clear_done s \<and> pending_clear s \<noteq> []"
    "phase s = RunPattern \<Longrightarrow> clear_done s"
    "phase s = HomingPhase \<or> phase s = Pausing \<Longrightarrow> \<not> single s"
    "skip_active s \<Longrightarrow> phase s = RunClear \<or> phase s = RunPattern"
  using assms by (auto simp: pl_inv_def live_def)

lemma resolve_step_inv:
  assumes "live s" "\<not> skip_active s" "phase s = NextItem" "resolveCurrent env s = (ok, s2)"
  shows "pl_inv (snd (if \<not> ok then
            let s3 = s2\<lparr>consec_fail := consec_fail s2 + 1\<rparr>
            in if consec_fail s3 \<ge> MAX_CONSEC_FAIL then (None, finish s3)
               else (None, snd (advanceIndex env s3))
          else inject_item env (s2\<lparr>resolved_index := index s2\<rparr>)))"
proof -
  note r = resolveCurrent_simps [of env s, unfolded assms(4) snd_conv]
  have s2: "live s2" "\<not> skip_active s2" "phase s2 = NextItem"
    using assms(1-3) r by simp_all
  show ?thesis
  proof (cases ok)
    case True
    with s2 show ?thesis by (simp add: inject_item_inv)
  next
    case False
    show ?thesis
    proof (cases "consec_fail s2 + 1 \<ge> MAX_CONSEC_FAIL")
      case True
      with False show ?thesis by simp
    next
      case nf: False
      then have "live (s2\<lparr>consec_fail := consec_fail s2 + 1\<rparr>)" using s2(1) by (intro live_fail) auto
      then have "pl_inv (snd (advanceIndex env (s2\<lparr>consec_fail := consec_fail s2 + 1\<rparr>)))"
        using s2 by (intro advance_next) auto
      with False nf show ?thesis by simp
    qed
  qed
qed

lemma next_item_inv:
  assumes "pl_inv s" "phase s = NextItem"
  shows "pl_inv (snd (next_item env s))"
proof -
  obtain go s1 where g: "quiet_gate env s = (go, s1)" by fastforce
  note f = quiet_gate_frame [OF g]
  have l: "live s1" and na: "\<not> skip_active s1" and ph: "phase s1 = NextItem"
    using assms pl_invD [OF assms(1)] f by auto
  have inv1: "pl_inv s1" using pl_inv_view [OF f(10)] assms(1) by simp
  obtain ok s2 where r: "resolveCurrent env s1 = (ok, s2)" by fastforce
  let ?skip = "s1\<lparr>req := (req s1)\<lparr>req_skip := False\<rparr>, since_home := since_home s1 + 1\<rparr>"
  have sk: "pl_inv (snd (advanceIndex env ?skip))" using l na ph by (intro advance_next) simp_all
  have hm: "pl_inv ((emit StartHome s1)\<lparr>phase := HomingPhase, job_seen := False, inject_ms := now env\<rparr>)"
    if "\<not> single s1" using l na that by (intro live_phase) simp_all
  have ij: "pl_inv (snd (inject_item env s1))" using l na ph by (rule inject_item_inv)
  define rest where "rest = (if \<not> ok then
            let s3 = s2\<lparr>consec_fail := consec_fail s2 + 1\<rparr>
            in if consec_fail s3 \<ge> MAX_CONSEC_FAIL then (None, finish s3)
               else (None, snd (advanceIndex env s3))
          else inject_item env (s2\<lparr>resolved_index := index s2\<rparr>))"
  have rs: "pl_inv (snd rest)" unfolding rest_def by (rule resolve_step_inv [OF l na ph r])
  have "next_item env s =
    (if inAlarmState (machine env) then (None, finish s)
     else if \<not> go then (None, s1)
     else if req_skip (req s1) then (None, snd (advanceIndex env ?skip))
     else if \<not> line_slot env \<or> machine env \<noteq> Idle \<or> job_active env then (None, s1)
     else if \<not> single s1 \<and> set_auto_home (settings env) > 0
             \<and> since_home s1 \<ge> set_auto_home (settings env)
     then (None, (emit StartHome s1)\<lparr>phase := HomingPhase, job_seen := False, inject_ms := now env\<rparr>)
     else if resolved_index s1 \<noteq> index s1 then rest
     else inject_item env s1)"
    unfolding next_item_def g r rest_def Let_def prod.case ..
  then show ?thesis using inv1 sk hm ij rs by simp
qed

lemma homing_phase_inv:
  assumes "pl_inv s" "phase s = HomingPhase"
  shows "pl_inv (homing_phase env s)"
proof -
  have l: "live s" "\<not> skip_active s" "\<not> single s" using pl_invD [OF assms(1)] assms(2) by auto
  have a: "pl_inv (s\<lparr>job_seen := True\<rparr>)" using l assms(2) by (intro live_phase) simp_all
  have b: "pl_inv (s\<lparr>since_home := 0, phase := NextItem\<rparr>)" using l by (intro live_phase) simp_all
  show ?thesis
    unfolding homing_phase_def using a b assms(1) by simp
qed

lemma inject_timeout_inv:
  assumes "live s"
  shows "pl_inv (inject_timeout env s)"
proof -
  let ?s2 = "if phase s = RunClear then emit (SetClearFeed (- 1)) (s\<lparr>skip_active := False\<rparr>)
             else s\<lparr>skip_active := False\<rparr>"
  have l2: "live ?s2" "\<not> skip_active ?s2" using assms by auto
  show ?thesis
  proof (cases "\<not> single s \<and> consec_fail s + 1 < MAX_CONSEC_FAIL")
    case True
    then have "live (?s2\<lparr>consec_fail := consec_fail ?s2 + 1\<rparr>)"
      using l2(1) by (intro live_fail) auto
    then have "pl_inv (skip_to_next env (?s2\<lparr>consec_fail := consec_fail ?s2 + 1\<rparr>))"
      using l2(2) by (intro skip_to_next_inv) auto
    with True show ?thesis by (auto simp: inject_timeout_def Let_def)
  next
    case False
    then show ?thesis by (auto simp: inject_timeout_def Let_def)
  qed
qed

lemma clear_done_phase_inv:
  assumes "live s"
  shows "pl_inv (clear_done_phase env s)"
proof (cases "skip_active s")
  case True
  have "pl_inv (skip_to_next env ((emit (SetClearFeed (- 1)) s)\<lparr>skip_active := False\<rparr>))"
    using assms by (intro skip_to_next_inv) simp_all
  with True show ?thesis by (simp add: clear_done_phase_def)
next
  case False
  with assms show ?thesis by (auto simp: clear_done_phase_def intro: live_phase)
qed

lemma pattern_done_inv:
  assumes "live s" shows "pl_inv (pattern_done env s)"
proof -
  let ?s1 = "s\<lparr>last_pattern := current_path s, since_home := since_home s + 1,
                 quiet := (quiet s)\<lparr>quiet_override := False\<rparr>\<rparr>"
  have eq: "(if skip_active ?s1 then (0, ?s1\<lparr>skip_active := False\<rparr>) else (p1, ?s1)) =
      (if skip_active s then 0 else p1, ?s1\<lparr>skip_active := False\<rparr>)" for p1 :: u32
    by simp
  have l: "live (?s1\<lparr>skip_active := False\<rparr>)" using assms by simp
  obtain ok s3 where a: "advanceIndex env (?s1\<lparr>skip_active := False\<rparr>) = (ok, s3)" by fastforce
  note b = advanceIndex_live [OF l a]
  show ?thesis
  proof (cases ok)
    case False
    with b have "pl_inv s3" by auto
    with False show ?thesis unfolding pattern_done_def Let_def eq prod.case a by simp
  next
    case True
    with b have "live s3" "\<not> single s3" "\<not> skip_active s3" by auto
    then have "pl_inv (s3\<lparr>phase := NextItem\<rparr>)"
      "pl_inv (s3\<lparr>pause_until_ms := u, pause_total_ms := t, phase := Pausing\<rparr>)" for u t
      by (intro live_phase; simp)+
    with True show ?thesis unfolding pattern_done_def Let_def eq prod.case a by auto
  qed
qed

lemma run_phase_inv:
  assumes "pl_inv s" "phase s = RunClear \<or> phase s = RunPattern"
  shows "pl_inv (run_phase env s)"
proof -
  have l: "live s" using pl_invD [OF assms(1)] assms(2) by auto
  have up: "pl_inv t" if "live t" "phase t = phase s" "clear_done t = clear_done s"
    "pending_clear t = pending_clear s" for t
    using that assms pl_invD [OF assms(1)] by (auto simp: pl_inv_def live_def)
  have a: "pl_inv (s\<lparr>req := r, skip_active := True\<rparr>)" "pl_inv (emit e (s\<lparr>req := r, skip_active := True\<rparr>))" for r e
    using l by (auto intro!: up)
  have b: "pl_inv (s\<lparr>job_seen := True\<rparr>)" using l by (auto intro!: up)
  have c: "pl_inv (s\<lparr>job_seen := True, consec_fail := 0\<rparr>)"
    using l by (intro up) (auto simp: live_def)
  show ?thesis
    unfolding run_phase_def Let_def
    using a b c inject_timeout_inv [OF l] clear_done_phase_inv [OF l] pattern_done_inv [OF l] assms(1)
    by simp
qed

lemma pausing_phase_inv:
  assumes "pl_inv s" "phase s = Pausing"
  shows "pl_inv (pausing_phase env s)"
proof -
  have l: "live s" "\<not> skip_active s" using pl_invD [OF assms(1)] assms(2) by auto
  have "pl_inv (s\<lparr>req := r, phase := NextItem\<rparr>)" "pl_inv (s\<lparr>phase := NextItem\<rparr>)" for r
    using l by (intro live_phase; simp)+
  then show ?thesis unfolding pausing_phase_def using assms(1) by simp
qed

lemma poll_switch_inv: "pl_inv s \<Longrightarrow> pl_inv (snd (poll_switch env s))"
  by (cases "phase s")
    (simp_all add: poll_switch_def next_item_inv homing_phase_inv run_phase_inv pausing_phase_inv)

section \<open>Loading\<close>

lemma scanValidLines_scanned:
  "scanValidLines env path fn acc = map_option (\<lambda>c. feed fn 0 (scanned c) acc) (files env path)"
  by (auto simp: scanValidLines_def scan_loop_scanned split: option.split)

text \<open>The state a successful load builds before it reads the first path.\<close>

definition loaded :: "pl_env \<Rightarrow> string \<Rightarrow> nat \<Rightarrow> playlist \<Rightarrow> playlist" where
  "loaded env name n s =
     (let s1 = s\<lparr>playlist_path := playlist_file (folder s) name, playlist_name := name,
                 order := map of_nat [0..<n]\<rparr>
      in (if runShuffle env s1 \<noteq> 0 then shuffleOrder env s1 else s1)
           \<lparr>index := 0, resolved_index := SIZE_MAX, since_home := 0, clear_done := False,
            pending_clear := []\<rparr>)"

lemma loadPlaylist_loaded:
  "loadPlaylist env name s =
     (case files env (playlist_file (folder s) name) of
        None \<Rightarrow> (False, s)
      | Some content \<Rightarrow>
          if scanned content = [] then (False, s)
          else let (ok, t) = resolveCurrent env (loaded env name (length (scanned content)) s)
               in if ok then (True, t\<lparr>resolved_index := index t\<rparr>) else (False, t))"
  by (auto simp: loadPlaylist_def scanValidLines_scanned feed_count loaded_def Let_def
      split: option.split prod.split)

lemma playlist_file_nonempty [simp]: "playlist_file fld name \<noteq> []"
  by (auto simp: playlist_file_def Let_def)

lemma loaded_order:
  assumes "n \<le> MAX_ITEMS"
  shows "perm_upto (order (loaded env name n s))" "length (order (loaded env name n s)) = n"
    "index (loaded env name n s) = 0" "playlist_path (loaded env name n s) = playlist_file (folder s) name"
    "single (loaded env name n s) = single s" "skip_active (loaded env name n s) = skip_active s"
    "consec_fail (loaded env name n s) = consec_fail s" "phase (loaded env name n s) = phase s"
proof -
  let ?s1 = "s\<lparr>playlist_path := playlist_file (folder s) name, playlist_name := name,
                 order := map of_nat [0..<n]\<rparr>"
  have "perm_upto (order ?s1)" using perm_upto_identity [OF assms] by simp
  then have "perm_upto (order (shuffleOrder env ?s1))" by (rule shuffleOrder_perm)
  moreover have "length (order (shuffleOrder env ?s1)) = n" by simp
  ultimately show "perm_upto (order (loaded env name n s))" "length (order (loaded env name n s)) = n"
    using \<open>perm_upto (order ?s1)\<close> by (simp_all add: loaded_def Let_def)
qed (simp_all add: loaded_def Let_def)

lemma loaded_live:
  assumes "n \<le> MAX_ITEMS" "n > 0" "\<not> single s" "consec_fail s = 0"
  shows "live (loaded env name n s)"
  using loaded_order [OF assms(1), of env name s] assms by (simp add: live_def)

lemma poll_run_inv: "pl_inv (poll_run env s)"
proof -
  let ?s1 = "s\<lparr>req := (req s)\<lparr>req_run := False, req_no_abort := False\<rparr>,
                 single := req_single (req s), clear_override := req_clear_override (req s),
                 ov_mode := req_ov_mode (req s), ov_shuffle := req_ov_shuffle (req s),
                 ov_pause := req_ov_pause (req s), ov_pfs := req_ov_pfs (req s),
                 consec_fail := 0, skip_active := False\<rparr>"
  define s2 where "s2 = (if job_active env \<and> \<not> req_no_abort (req s) then emit SendStopJob ?s1 else ?s1)"
  define s3 where "s3 = (if sd_mounts env then s2\<lparr>sd_hold := True\<rparr> else s2)"
  have s3: "\<not> skip_active s3" "consec_fail s3 = 0"
    by (simp_all add: s3_def s2_def)
  have run: "poll_run env s = (if single s3 then (loadSingle (req_name (req s)) s3)\<lparr>phase := NextItem\<rparr>
         else let (ok, s4) = loadPlaylist env (req_name (req s)) s3
              in if ok then s4\<lparr>phase := NextItem\<rparr> else finish s4)"
    unfolding poll_run_def s3_def s2_def Let_def ..
  show ?thesis
  proof (cases "single s3")
    case True
    have "pl_inv ((loadSingle (req_name (req s)) s3)\<lparr>phase := NextItem\<rparr>)"
      using True s3 perm_upto_0 by (simp add: loadSingle_def Let_def pl_inv_def)
    with True show ?thesis by (simp add: run)
  next
    case False
    obtain ok s4 where ld: "loadPlaylist env (req_name (req s)) s3 = (ok, s4)" by fastforce
    show ?thesis
    proof (cases ok)
      case ok: True
      then obtain content where content: "scanned content \<noteq> []"
        and s4: "s4 = snd (resolveCurrent env (loaded env (req_name (req s)) (length (scanned content)) s3))
          \<lparr>resolved_index := index s4\<rparr>"
        using ld by (auto simp: loadPlaylist_loaded Let_def case_prod_beta split: option.splits if_splits)
      let ?l = "loaded env (req_name (req s)) (length (scanned content)) s3"
      have "live ?l" using content False s3 by (intro loaded_live length_scanned) auto
      moreover have "\<not> skip_active ?l" "single ?l = single s3"
        using loaded_order [OF length_scanned, of env "req_name (req s)" content s3] s3 by simp_all
      ultimately have "pl_inv (s4\<lparr>phase := NextItem\<rparr>)"
        by (subst s4) (intro live_phase; simp)
      with False ok ld show ?thesis by (simp add: run)
    qed (use False ld in \<open>simp add: run\<close>)
  qed
qed

section \<open>The whole step\<close>

lemma poll_stop_inv:
  assumes "pl_inv s" shows "pl_inv (poll_stop env s)"
proof -
  have "pl_inv (emit e (finish t))" for e t
    by (rule iffD1 [OF pl_inv_view, of "finish t"]) simp_all
  moreover have "pl_inv (s\<lparr>req := r\<rparr>)" for r
    by (rule iffD1 [OF pl_inv_view assms]) (simp add: run_view_def)
  ultimately show ?thesis by (simp add: poll_stop_def Let_def)
qed

lemma pl_inv_pollLine:
  assumes "pl_inv s" shows "pl_inv (snd (pollLine env s))"
proof -
  have h: "pl_inv (poll_head env s)" using pl_inv_view [of "poll_head env s" s] assms by simp
  then have e: "pl_inv (emit x (poll_head env s))" for x
    using pl_inv_view [of "emit x (poll_head env s)" "poll_head env s"] by simp
  obtain l s' where sw: "poll_switch env (poll_head env s) = (l, s')" by fastforce
  then have "pl_inv s'" using poll_switch_inv [OF h, of env] by simp
  then show ?thesis
    using e poll_stop_inv [OF h] poll_run_inv
    by (auto simp: pollLine_head Let_def sw split: option.split)
qed

lemma pl_inv_req [simp]: "pl_inv (s\<lparr>req := r\<rparr>) = pl_inv s"
  by (rule pl_inv_view) (simp add: run_view_def)

lemma pl_inv_last_err [simp]: "pl_inv (s\<lparr>last_err := e\<rparr>) = pl_inv s"
  by (rule pl_inv_view) (simp add: run_view_def)

lemmas handler_defs = cmd_run_def runSingle_def cmd_stop_def stopActive_def cmd_skip_def
  requestRun_def requestSingle_def requestStop_def requestSkip_def

lemma pl_inv_step:
  assumes "pl_inv s" "pl_step s s'" shows "pl_inv s'"
  using assms(2)
proof cases
  case (step_poll env l)
  then show ?thesis using pl_inv_pollLine [OF assms(1), of env] by simp
qed (use assms(1) in \<open>auto simp: handler_defs sendLine_def captureError_def Let_def
      split: option.splits if_splits\<close>)

lemma pl_inv_init: "pl_init s \<Longrightarrow> pl_inv s"
  unfolding pl_init_def by (erule ssubst) (simp add: init_playlist_def pl_inv_def)

interpretation playlist_run: invariant_system pl_init pl_step pl_inv
  by unfold_locales (auto intro: pl_inv_init pl_inv_step)

end
