(* ===== verification/PlaylistProps.thy ===== *)
theory PlaylistProps
  imports PlaylistInv
begin

text \<open>
  The properties of the playlist module: the invariant, the play order, what a poll may
  inject and when, stopping, quiet hours, pauses, and two defects.
\<close>

section \<open>A world for the concrete instances\<close>

definition ex_settings :: pl_settings where
  "ex_settings = \<lparr>set_mode = 1, set_shuffle = 0, set_pause_time = 5, set_pause_from_start = 0,
     set_clear_mode = CLEAR_IN, set_clear_in = [], set_clear_out = [], set_clear_speed = 0,
     set_auto_home = 0, set_sands_enabled = False, set_sands_slots = ''21:00-08:00@daily'',
     set_sands_led_off = False, set_sands_finish = True, set_autostart = [],
     set_autostart_mode = 1, set_autostart_shuffle = 0, set_autostart_pause = 0,
     set_autostart_pfs = 0, set_autostart_clear = 0\<rparr>"

definition ex_files :: "string \<Rightarrow> string option" where
  "ex_files p = (if p = ''/playlists/p.txt'' then Some (''a'' @ [CHR 0x0A] @ ''b'') else None)"

definition ex_env :: pl_env where
  "ex_env = \<lparr>now = 1000, line_slot = True, machine = Idle, job_active = False, clock_set = True,
     tm_wday = 1, tm_minute = 600, homed_since_boot = True, settings = ex_settings,
     has_leds = True, sd_mounts = True, files = ex_files, file_exists = (\<lambda>p. True),
     rand = (\<lambda>i. 0), scan2 = (\<lambda>l. None)\<rparr>"

definition ex_start :: playlist where
  "ex_start = init_playlist ''/playlists'' ''/i.thr'' ''/o.thr'' ''/s.thr''"

text \<open>The example run: queued, loaded, then the first poll of the first item.\<close>

definition ex_queued :: playlist where
  "ex_queued = snd (cmd_run True Idle (Some ''p'') ex_start)"

definition ex_loaded :: playlist where
  "ex_loaded = snd (pollLine ex_env ex_queued)"

section \<open>The invariant\<close>

text \<open>
  C1. In every state reached by any interleaving of polls (in any world), command handlers
  and captured error lines, the module is either off with its run state released, or it
  runs with an index inside the order, an order that is a permutation of the item numbers,
  fewer than five failures in a row, a clear decided before a clear or a pattern plays,
  no homing and no pause in a single run, and no pending skip outside a running item.
\<close>

theorem playlist_invariant:
  assumes "reach pl_init pl_step s"
  shows "pl_inv s"
  using assms by (rule playlist_run.reach_inv)

lemma ex_start_init: "pl_init ex_start"
  by (simp add: ex_start_def pl_init_def init_playlist_def)

lemma ex_queued_reach: "reach pl_init pl_step ex_queued"
  by (rule reach_step [OF reach_init [where init = pl_init, OF ex_start_init]])
    (rule step_run [of True Idle "Some ''p''" _ "fst (cmd_run True Idle (Some ''p'') ex_start)"],
     simp add: ex_queued_def)

lemma ex_loaded_reach: "reach pl_init pl_step ex_loaded"
  by (rule reach_step [OF ex_queued_reach])
    (rule step_poll [of ex_env _ "fst (pollLine ex_env ex_queued)"], simp add: ex_loaded_def)

theorem playlist_invariant_witness: "pl_inv ex_loaded"
  by (rule playlist_invariant [OF ex_loaded_reach])

section \<open>The play order\<close>

text \<open>
  C32. The streaming scan that loads a playlist delivers the same paths, in the same order
  and up to the same limit, as the in-memory parser, for a file within the byte limit
  whose lines fit the line limit.
\<close>

theorem scan_is_parse_playlist:
  assumes "scannable content"
  shows "scan_loop (\<lambda>acc i p. (acc @ [p], True)) content [] 0 0 False [] = parse_playlist content MAX_ITEMS"
  using scanned_patterns [OF assms] by (simp add: scan_loop_scanned feed_collect parse_playlist_eq)

theorem scan_is_parse_playlist_witness:
  "scan_loop (\<lambda>acc i p. (acc @ [p], True)) (''a#x'' @ [CHR 0x0A] @ '' b '') [] 0 0 False [] =
   parse_playlist (''a#x'' @ [CHR 0x0A] @ '' b '') MAX_ITEMS"
proof (rule scan_is_parse_playlist)
  show "scannable (''a#x'' @ [CHR 0x0A] @ '' b '')"
    by (simp add: scannable_def file_lines_def split_on_def)
qed

lemma resolveCurrent_scanned:
  assumes "files env (playlist_path s) = Some content" "playlist_path s \<noteq> []"
    and "perm_upto (order s)" "index s < length (order s)" "length (order s) \<le> length (scanned content)"
  shows "resolveCurrent env s =
    (True, s\<lparr>current_path := scanned content ! unat (order s ! index s),
             next_path := (if index s + 1 < length (order s)
                           then scanned content ! unat (order s ! (index s + 1)) else [])\<rparr>)"
proof -
  let ?ps = "scanned content" and ?t = "unat (order s ! index s)"
  let ?wn = "index s + 1 < length (order s)"
  let ?nt = "if ?wn then unat (order s ! (index s + 1)) else 0"
  have t: "?t < length ?ps" using perm_upto_less [OF assms(3,4)] assms(5) by simp
  have nt: "?wn \<Longrightarrow> ?nt < length ?ps \<and> ?t \<noteq> ?nt"
    using perm_upto_less [OF assms(3), of "index s + 1"] assms(5)
      perm_upto_nth_neq [OF assms(3,4), of "index s + 1"] by auto
  have ne: "\<forall>p\<in>set ?ps. p \<noteq> []" using scanned_nonempty by blast
  have f: "feed (resolve_fn ?t ?wn ?nt) 0 ?ps ([], []) =
    (?ps ! ?t, if ?wn then ?ps ! unat (order s ! (index s + 1)) else [])"
  proof (cases ?wn)
    case True
    then show ?thesis using feed_resolve [OF ne, of "[]" ?wn "[]" ?t 0 ?nt] t nt by auto
  next
    case False
    have w: "resolve_fn ?t False 0 = resolve_fn ?t False (Suc ?t)"
      by (intro ext) (simp add: resolve_fn_def)
    show ?thesis
      using feed_resolve [OF ne, of "[]" False "[]" ?t 0 "Suc ?t"] t False by (simp add: w)
  qed
  have "?ps ! ?t \<noteq> []" using ne t by simp
  then show ?thesis
    using assms(1,2,4) f
    by (simp add: resolveCurrent_def scanValidLines_scanned Let_def split: prod.split)
qed

text \<open>The state a load leaves when the file has a pattern.\<close>

definition load_result :: "pl_env \<Rightarrow> string \<Rightarrow> string \<Rightarrow> playlist \<Rightarrow> playlist" where
  "load_result env name content s =
     (let l = loaded env name (length (scanned content)) s
      in l\<lparr>current_path := scanned content ! unat (order l ! 0),
           next_path := (if 1 < length (order l) then scanned content ! unat (order l ! 1) else []),
           resolved_index := 0\<rparr>)"

lemma loadPlaylist_result:
  assumes "files env (playlist_file (folder s) name) = Some content" "scanned content \<noteq> []"
  shows "loadPlaylist env name s = (True, load_result env name content s)"
proof -
  let ?l = "loaded env name (length (scanned content)) s"
  note l = loaded_order [OF length_scanned, of env name content s]
  have lf: "files env (playlist_path ?l) = Some content" using assms l by simp
  have "resolveCurrent env ?l = (True, ?l\<lparr>current_path := scanned content ! unat (order ?l ! index ?l),
         next_path := (if index ?l + 1 < length (order ?l)
                       then scanned content ! unat (order ?l ! (index ?l + 1)) else [])\<rparr>)"
    using assms l by (intro resolveCurrent_scanned [OF lf]) simp_all
  then show ?thesis
    using assms l(3) by (simp add: loadPlaylist_loaded load_result_def Let_def)
qed

lemma loadPlaylist_ok_iff:
  "fst (loadPlaylist env name s) \<longleftrightarrow>
   (\<exists>content. files env (playlist_file (folder s) name) = Some content \<and> scanned content \<noteq> [])"
  using loadPlaylist_result [of env s name]
  by (auto simp: loadPlaylist_loaded split: option.splits if_splits)

text \<open>
  C8. A playlist that loads has read its file and plays each pattern that the load scan delivers
  exactly once per pass, in any shuffle: it starts at the first item of its order, whose path
  and the next item's are the lines the order names. The scan delivers the cleaned lines of
  the file (comments and blanks removed, lines without a path left out) in their order, at most
  1024 of them. For a file of at most 64 KiB whose lines fit the line buffer they are
  the first 1024 lines with a path; of a longer file the scan reads the first 64 KiB, and an overlong
  line is left out.
\<close>

theorem load_plays_each_line_once:
  assumes "loadPlaylist env name s = (True, s')"
  shows "\<exists>content. files env (playlist_file (folder s) name) = Some content
    \<and> scanned content \<noteq> [] \<and> length (scanned content) \<le> 1024
    \<and> (length content \<le> MAX_PLAYLIST_FILE \<and> list_all (\<lambda>l. length l \<le> MAX_LINE) (file_lines content) \<longrightarrow>
        scanned content = take 1024 (filter (\<lambda>p. p \<noteq> []) (map clean_line (file_lines content))))
    \<and> mset (map (\<lambda>i. scanned content ! unat i) (order s')) = mset (scanned content)
    \<and> index s' = 0 \<and> resolved_index s' = 0
    \<and> current_path s' = scanned content ! unat (order s' ! 0)
    \<and> next_path s' = (if 1 < length (order s') then scanned content ! unat (order s' ! 1) else [])"
proof -
  have "fst (loadPlaylist env name s)" using assms by simp
  then obtain content where c: "files env (playlist_file (folder s) name) = Some content" "scanned content \<noteq> []"
    by (auto simp: loadPlaylist_ok_iff)
  let ?l = "loaded env name (length (scanned content)) s"
  note l = loaded_order [OF length_scanned, of env name content s]
  have s': "s' = load_result env name content s" using assms loadPlaylist_result [OF c] by simp
  then have o: "order s' = order ?l" by (simp add: load_result_def Let_def)
  have "current_path s' = scanned content ! unat (order s' ! 0)" "index s' = 0" "resolved_index s' = 0"
    "next_path s' = (if 1 < length (order s') then scanned content ! unat (order s' ! 1) else [])"
    unfolding s' using l(3) by (simp_all add: load_result_def Let_def)
  moreover have "scannable content \<Longrightarrow>
      scanned content = take 1024 (filter (\<lambda>p. p \<noteq> []) (map clean_line (file_lines content)))"
    using scanned_patterns [of content] by (simp add: patterns_of_def)
  moreover have "length (scanned content) \<le> 1024" using length_scanned [of content] by simp
  moreover have "mset (map (\<lambda>i. scanned content ! unat i) (order s')) = mset (scanned content)"
    using perm_upto_plays [OF l(1), of "scanned content"] l(2) o by simp
  ultimately show ?thesis using c by (intro exI [of _ content]) (simp add: scannable_def)
qed

lemma ex_scanned: "scanned (''a'' @ [CHR 0x0A] @ ''b'') = [''/a'', ''/b'']"
  by (simp add: scanned_def clean_line_eq slashed_def strip_def uncomment_def is_blank_def)

lemma ex_load: "fst (loadPlaylist ex_env ''p'' ex_start)"
proof -
  have "files ex_env (playlist_file (folder ex_start) ''p'') = Some (''a'' @ [CHR 0x0A] @ ''b'')"
    by (simp add: ex_env_def ex_files_def ex_start_def init_playlist_def playlist_file_def)
  then show ?thesis
    unfolding loadPlaylist_ok_iff using ex_scanned by (intro exI conjI) auto
qed

theorem load_plays_each_line_once_witness:
  "\<exists>content. files ex_env (playlist_file (folder ex_start) ''p'') = Some content
    \<and> mset (map (\<lambda>i. scanned content ! unat i) (order (snd (loadPlaylist ex_env ''p'' ex_start))))
      = mset (scanned content)"
proof -
  have "loadPlaylist ex_env ''p'' ex_start = (True, snd (loadPlaylist ex_env ''p'' ex_start))"
    using ex_load by (cases "loadPlaylist ex_env ''p'' ex_start") simp
  from load_plays_each_line_once [OF this] show ?thesis by (elim exE) auto
qed

end
