(* ===== verification/PlaylistRun.thy ===== *)
theory PlaylistRun
  imports PlaylistProps
begin

text \<open>
  What a poll injects and when, how a stop ends a run, how quiet hours hold a playlist,
  how a clear leads to its pattern and how long a pause lasts.
\<close>

section \<open>Injection\<close>

lemma inject_item_some:
  assumes "inject_item env s = (Some l, s')"
  shows "clear_done s' \<and> \<not> job_seen s' \<and> inject_ms s' = now env \<and> last_err s' = []
    \<and> current_path s' = current_path s \<and> req s' = req s \<and> index s' = index s
    \<and> order s' = order s \<and> since_home s' = since_home s \<and> resolved_index s' = resolved_index s
    \<and> single s' = single s \<and> quiet s' = quiet s \<and> skip_active s' = skip_active s
    \<and> (phase s' = RunClear \<and> \<not> clear_done s \<and> pending_clear s' \<noteq> [] \<and> l = run_line (pending_clear s')
       \<or> phase s' = RunPattern \<and> l = run_line (current_path s')
         \<and> (clear_done s \<or> clearFileFor env (current_path s) s = []))"
  using assms
  by (auto simp: inject_item_def inject_clear_def inject_pattern_def Let_def emit_def
      split: option.splits if_splits)

text \<open>The guards of Phase::NextItem in front of an injection.\<close>

lemma next_item_some:
  assumes "next_item env s = (Some l, s')"
  shows "\<exists>s1 s2. quiet_gate env s = (True, s1)
    \<and> \<not> inAlarmState (machine env) \<and> \<not> req_skip (req s1) \<and> line_slot env \<and> machine env = Idle
    \<and> \<not> job_active env
    \<and> (single s1 \<or> set_auto_home (settings env) \<le> 0 \<or> since_home s1 < set_auto_home (settings env))
    \<and> (resolved_index s1 = index s1 \<and> s2 = s1
       \<or> resolved_index s1 \<noteq> index s1 \<and> fst (resolveCurrent env s1)
         \<and> s2 = (snd (resolveCurrent env s1))\<lparr>resolved_index := index s1\<rparr>)
    \<and> inject_item env s2 = (Some l, s')"
proof -
  obtain go s1 where g: "quiet_gate env s = (go, s1)" by fastforce
  obtain ok t where r: "resolveCurrent env s1 = (ok, t)" by fastforce
  have idx: "index t = index s1" using resolveCurrent_simps(3) [of env s1] r by simp
  show ?thesis
    using assms idx
    unfolding next_item_def g r Let_def prod.case
    by (intro exI [of _ s1] exI [of _ "if resolved_index s1 = index s1 then s1
          else t\<lparr>resolved_index := index s1\<rparr>"])
      (auto simp: g r split: if_splits)
qed

lemma quiet_gate_req:
  assumes "quiet_gate env s = (go, s')"
  shows "req_stop (req s') = req_stop (req s)" "req_run (req s') = req_run (req s)"
proof -
  have "req_stop (req (snd (quiet_gate env s))) = req_stop (req s)"
    "req_run (req (snd (quiet_gate env s))) = req_run (req s)"
    by (simp_all add: quiet_gate_def quietNow_def Let_def)
  then show "req_stop (req s') = req_stop (req s)" "req_run (req s') = req_run (req s)"
    using assms by simp_all
qed

lemma pollLine_some:
  assumes "pollLine env s = (Some l, s')"
  shows "phase s = NextItem" "\<not> req_stop (req s)" "\<not> req_run (req s)"
    "next_item env (poll_head env s) = (Some l, s')"
proof -
  have a: "\<not> req_stop (req (poll_head env s))" "\<not> req_run (req (poll_head env s))"
    and sw: "poll_switch env (poll_head env s) = (Some l, s')"
    using assms by (auto simp: pollLine_head Let_def split: if_splits option.splits prod.splits)
  show ph: "phase s = NextItem" and "next_item env (poll_head env s) = (Some l, s')"
    using sw by (auto simp: poll_switch_def split: phase.splits)
  show "\<not> req_stop (req s)" "\<not> req_run (req s)"
    using a poll_head_req [of s env] ph by auto
qed

lemma injection_facts:
  assumes "pollLine env s = (Some l, s')"
  shows "line_slot env" "machine env = Idle" "\<not> job_active env" "phase s = NextItem"
    "\<not> req_stop (req s)" "\<not> req_run (req s)" "\<not> req_skip (req s')"
    "\<not> req_stop (req s')" "\<not> req_run (req s')"
    "clear_done s'" "\<not> job_seen s'" "inject_ms s' = now env" "skip_active s' = skip_active s"
    "phase s' = RunClear \<and> \<not> clear_done s \<and> l = run_line (pending_clear s')
       \<or> phase s' = RunPattern \<and> l = run_line (current_path s')"
    "single s' \<or> set_auto_home (settings env) \<le> 0 \<or> since_home s' < set_auto_home (settings env)"
    "resolved_index s' = index s'"
proof -
  note p = pollLine_some [OF assms]
  from next_item_some [OF p(4)] obtain s1 s2
    where g: "quiet_gate env (poll_head env s) = (True, s1)"
      and n: "\<not> req_skip (req s1)" "line_slot env" "machine env = Idle" "\<not> job_active env"
        "single s1 \<or> set_auto_home (settings env) \<le> 0 \<or> since_home s1 < set_auto_home (settings env)"
      and s2: "resolved_index s1 = index s1 \<and> s2 = s1
       \<or> resolved_index s1 \<noteq> index s1 \<and> fst (resolveCurrent env s1)
         \<and> s2 = (snd (resolveCurrent env s1))\<lparr>resolved_index := index s1\<rparr>"
      and i: "inject_item env s2 = (Some l, s')"
    by blast
  have rv: "run_view s1 = run_view s"
    using quiet_gate_frame(10) [OF g] poll_head_view(1) [of env s] by simp
  have rq: "req_stop (req s1) = req_stop (req s) \<and> req_run (req s1) = req_run (req s)"
    using quiet_gate_req [OF g] poll_head_req [of s env] p(1) by auto
  have sh: "since_home (snd (resolveCurrent env s1)) = since_home s1"
    by (subst resolveCurrent_frame) simp
  have "clear_done s2 = clear_done s" "skip_active s2 = skip_active s"
    using s2 rv by (auto simp: run_view_def)
  moreover have "req s2 = req s1" "since_home s2 = since_home s1" "single s2 = single s1"
    "resolved_index s2 = index s2"
    using s2 sh by auto
  moreover note inject_item_some [OF i] n p(1-3) rq
  ultimately show "line_slot env" "machine env = Idle" "\<not> job_active env" "phase s = NextItem"
    "\<not> req_stop (req s)" "\<not> req_run (req s)" "\<not> req_skip (req s')"
    "\<not> req_stop (req s')" "\<not> req_run (req s')"
    "clear_done s'" "\<not> job_seen s'" "inject_ms s' = now env" "skip_active s' = skip_active s"
    "phase s' = RunClear \<and> \<not> clear_done s \<and> l = run_line (pending_clear s')
       \<or> phase s' = RunPattern \<and> l = run_line (current_path s')"
    "single s' \<or> set_auto_home (settings env) \<le> 0 \<or> since_home s' < set_auto_home (settings env)"
    "resolved_index s' = index s'"
    by auto
qed

text \<open>
  Which path is the current one at an injection: the one that was resolved for this index
  before, or the one that this poll reads from the file.
\<close>

lemma injection_path:
  assumes "pollLine env s = (Some l, s')"
  shows "index s' = index s" "order s' = order s" "resolved_index s' = index s"
    "resolved_index s = index s \<Longrightarrow> current_path s' = current_path s"
    "resolved_index s \<noteq> index s \<Longrightarrow> pl_inv s \<Longrightarrow> playlist_path s \<noteq> [] \<Longrightarrow> files env (playlist_path s) = Some content
      \<Longrightarrow> length (order s) \<le> length (scanned content) \<Longrightarrow> current_path s' = scanned content ! unat (order s ! index s)"
proof -
  note p = pollLine_some [OF assms]
  from next_item_some [OF p(4)] obtain s1 s2
    where g: "quiet_gate env (poll_head env s) = (True, s1)"
      and s2: "resolved_index s1 = index s1 \<and> s2 = s1
       \<or> resolved_index s1 \<noteq> index s1 \<and> fst (resolveCurrent env s1)
         \<and> s2 = (snd (resolveCurrent env s1))\<lparr>resolved_index := index s1\<rparr>"
      and i: "inject_item env s2 = (Some l, s')"
    by blast
  have rv: "run_view s1 = run_view s"
    using quiet_gate_frame(10) [OF g] poll_head_view(1) [of env s] by simp
  then have v: "index s1 = index s" "order s1 = order s" "current_path s1 = current_path s"
      "playlist_path s1 = playlist_path s" by (simp_all add: run_view_def)
  have ri: "resolved_index s1 = resolved_index s"
  proof -
    have "resolved_index (snd (quiet_gate env t)) = resolved_index t" for t
      by (simp add: quiet_gate_def quietNow_def Let_def)
    moreover have "resolved_index (poll_led_off env t) = resolved_index t" for t
      using quiet_only_led_off [of t env] by (auto simp: quiet_only_def)
    moreover have "resolved_index (poll_quiet_hold env t) = resolved_index t" for t
      using quiet_only_hold [of t env] by (auto simp: quiet_only_def)
    moreover have "resolved_index (poll_autostart env t) = resolved_index t" for t
      by (simp add: poll_autostart_def Let_def)
    ultimately have "resolved_index (snd (quiet_gate env (poll_head env s))) = resolved_index s"
      by (simp add: poll_head_def)
    then show ?thesis by (simp add: g)
  qed
  note f = inject_item_some [OF i]
  show "index s' = index s" "order s' = order s" "resolved_index s' = index s"
    using s2 f v resolveCurrent_simps [of env s1] by auto
  show "resolved_index s = index s \<Longrightarrow> current_path s' = current_path s" using s2 f v ri by auto
  assume n: "resolved_index s \<noteq> index s" "pl_inv s" "playlist_path s \<noteq> []" "files env (playlist_path s) = Some content"
    "length (order s) \<le> length (scanned content)"
  have "perm_upto (order s1)" "index s1 < length (order s1)" using n(2) p(1) v by (simp_all add: pl_inv_def)
  then have "resolveCurrent env s1 = (True, s1\<lparr>current_path := scanned content ! unat (order s1 ! index s1),
      next_path := (if index s1 + 1 < length (order s1) then scanned content ! unat (order s1 ! (index s1 + 1)) else [])\<rparr>)"
    using n v by (intro resolveCurrent_scanned) simp_all
  then show "current_path s' = scanned content ! unat (order s ! index s)" using s2 f v ri n(1) by auto
qed

text \<open>
  C7. A poll hands the protocol task a command line only when it was offered a line
  buffer, the machine is Idle, no job is active and no stop or run is pending; the line is
  then a clear or the pattern of the current path, and the clear decision of the item
  has been made. A clear is injected only for an item that had none decided. The current path
  is kept if a path was resolved for the current index before; otherwise this poll has read it
  from the playlist's file, and (in a state that satisfies the invariant, when the file
  still has the patterns of the order) it is the one at the place that the order names for the index.
  A path that was resolved before need not be that of the order: when a skip at the end of a pass
  shuffles the order and the new index is the one that was resolved last, the old path is kept.
\<close>

theorem injection_is_safe:
  assumes "pollLine env s = (Some l, s')"
  shows "line_slot env \<and> machine env = Idle \<and> \<not> job_active env
    \<and> phase s = NextItem \<and> \<not> req_stop (req s) \<and> \<not> req_run (req s) \<and> \<not> req_skip (req s')
    \<and> clear_done s' \<and> \<not> job_seen s' \<and> inject_ms s' = now env
    \<and> (phase s' = RunClear \<and> \<not> clear_done s \<and> l = run_line (pending_clear s')
       \<or> phase s' = RunPattern \<and> l = run_line (current_path s'))
    \<and> index s' = index s \<and> order s' = order s \<and> resolved_index s' = index s
    \<and> (if resolved_index s = index s then current_path s' = current_path s
       else \<forall>content. pl_inv s \<and> playlist_path s \<noteq> [] \<and> files env (playlist_path s) = Some content
         \<and> length (order s) \<le> length (scanned content)
         \<longrightarrow> current_path s' = scanned content ! unat (order s ! index s))"
  using injection_facts [OF assms] injection_path [OF assms] by auto

section \<open>Stop\<close>

lemma emit_effects: "set (effects (emit e s)) = insert e (set (effects s))"
  by simp

lemma led_off_effects:
  "set (effects (poll_led_off env s)) \<subseteq> set (effects s) \<union> range SetQuietOff"
  by (auto simp: poll_led_off_def Let_def case_prod_beta quietNow_def)

lemma hold_effects:
  "set (effects (poll_quiet_hold env s)) \<subseteq> set (effects s) \<union> {SendFeedHold, SendCycleStart}"
  by (auto simp: poll_quiet_hold_def Let_def case_prod_beta quietNow_def)

lemma autostart_effects:
  "set (effects (poll_autostart env s)) \<subseteq> set (effects s) \<union> {StartHome}"
  by (auto simp: poll_autostart_def Let_def)

lemma head_effects:
  "set (effects (poll_head env s)) \<subseteq> range SetQuietOff \<union> {SendFeedHold, SendCycleStart, StartHome}"
  using led_off_effects [of env "s\<lparr>effects := []\<rparr>"]
    hold_effects [of env "poll_led_off env (s\<lparr>effects := []\<rparr>)"]
    autostart_effects [of env "poll_quiet_hold env (poll_led_off env (s\<lparr>effects := []\<rparr>))"]
  unfolding poll_head_def by auto

lemma finish_effects:
  "set (effects (finish s)) \<subseteq> set (effects s) \<union> {SendCycleStart, FlushFeedLive, SetClearFeed (- 1)}"
  by (auto simp: finish_def Let_def)

lemma SendStopJob_head: "SendStopJob \<notin> set (effects (poll_head env s))"
  using head_effects [of env s] by auto

lemma SendStopJob_finish: "SendStopJob \<notin> set (effects s) \<Longrightarrow> SendStopJob \<notin> set (effects (finish s))"
  using finish_effects [of s] by auto

lemma poll_head_stop: "req_stop (req s) \<Longrightarrow> req (poll_head env s) = req s"
  by (auto simp: poll_head_def poll_autostart_def Let_def)

lemma publish_pub_off: "phase s = Off \<Longrightarrow> pub_active (pub (publish s)) = False
    \<and> pub_index (pub (publish s)) = 0 \<and> pub_total (pub (publish s)) = 0 \<and> pub_current (pub (publish s)) = []"
  by (simp add: publish_def Let_def)

text \<open>
  C10. A stop request made while a run is active or queued ends it at the next poll: no
  line is injected, the run is off, no request is left, the status snapshot says so, and
  the running job is aborted through the deferred event exactly when a run was active and
  a job is running.
\<close>

theorem stop_ends_the_run:
  assumes "phase s \<noteq> Off \<or> req_run (req s)"
    and "requestStop s = (e, s1)" and "pollLine env s1 = (l, s2)"
  shows "e = Error_Ok \<and> l = None \<and> phase s2 = Off
    \<and> \<not> req_run (req s2) \<and> \<not> req_stop (req s2) \<and> \<not> req_skip (req s2)
    \<and> \<not> pub_active (pub s2) \<and> pub_current (pub s2) = []
    \<and> (SendStopJob \<in> set (effects s2) \<longleftrightarrow> phase s \<noteq> Off \<and> job_active env)"
proof -
  have s1: "s1 = s\<lparr>req := (req s)\<lparr>req_run := False, req_stop := True\<rparr>\<rparr>" "e = Error_Ok"
    using assms(1,2) by (auto simp: requestStop_def)
  let ?h = "poll_head env s1"
  have r: "req ?h = (req s)\<lparr>req_run := False, req_stop := True\<rparr>"
    using poll_head_stop [of s1 env] s1 by simp
  have ph: "phase ?h = phase s" by (simp add: s1)
  have "pollLine env s1 = (None, poll_stop env ?h)"
    using r by (simp add: pollLine_head Let_def)
  then have l: "l = None" "s2 = poll_stop env ?h" using assms(3) by auto
  let ?q = "?h\<lparr>req := (req ?h)\<lparr>req_stop := False, req_skip := False\<rparr>\<rparr>"
  let ?f = "if phase ?q \<noteq> Off
     then if job_active env then emit SendStopJob (finish ?q) else finish ?q else ?q"
  have s2: "s2 = publish ?f" unfolding l(2) poll_stop_def Let_def ..
  have "phase ?f = Off" by simp
  moreover have "req ?f = (req s)\<lparr>req_run := False, req_stop := False, req_skip := False\<rparr>"
    using r by (auto simp: finish_def Let_def)
  moreover have "SendStopJob \<in> set (effects ?f) \<longleftrightarrow> phase s \<noteq> Off \<and> job_active env"
    using SendStopJob_head [of env s1] SendStopJob_finish [of ?q] ph by auto
  ultimately show ?thesis
    using s1(2) l(1) publish_pub_off [of ?f] unfolding s2 by simp
qed

theorem stop_ends_the_run_witness:
  "phase (snd (pollLine ex_env (snd (requestStop ex_queued)))) = Off"
proof -
  have "req_run (req ex_queued)"
    by (simp add: ex_queued_def cmd_run_def requestRun_def inAlarmState_def)
  then show ?thesis
    using stop_ends_the_run [of ex_queued "fst (requestStop ex_queued)" "snd (requestStop ex_queued)" ex_env
        "fst (pollLine ex_env (snd (requestStop ex_queued)))"
        "snd (pollLine ex_env (snd (requestStop ex_queued)))"]
    by simp
qed

end
