(* ===== verification/PlaylistTiming.thy ===== *)
theory PlaylistTiming
  imports PlaylistRun
begin

text \<open>
  Quiet hours, the clear before its pattern, the pause between patterns, the cap on
  failures, and the status snapshot.
\<close>

section \<open>Concrete polls\<close>

lemmas poll_defs = pollLine_def poll_led_off_def poll_quiet_hold_def poll_autostart_def poll_switch_def
  poll_stop_def next_item_def quiet_gate_def quietNow_def quiet_check_def inject_item_def
  inject_clear_def inject_pattern_def homing_phase_def run_phase_def clear_done_phase_def
  pattern_done_def pausing_phase_def skip_to_next_def publish_def

definition ex_item :: playlist where
  "ex_item = ex_start\<lparr>phase := NextItem, order := [0], single := True, current_path := ''/a'',
     resolved_index := 0, clear_override := CLEAR_NONE, quiet := init_quiet\<rparr>"

lemmas ex_defs = ex_item_def ex_env_def ex_settings_def ex_start_def init_playlist_def init_req_def
  init_quiet_def init_auto_def init_pub_def

lemma ex_item_poll: "fst (pollLine ex_env ex_item) = Some ''$SD/Run=/a''"
  by (simp add: poll_defs ex_defs inAlarmState_def clearFileFor_def choose_clear_def run_line_def
      c_str_def NUL_def Let_def)

theorem injection_is_safe_witness:
  "req_skip (req (snd (pollLine ex_env ex_item))) = False"
proof -
  have "pollLine ex_env ex_item = (Some ''$SD/Run=/a'', snd (pollLine ex_env ex_item))"
    using ex_item_poll by (simp add: prod_eq_iff)
  from injection_is_safe [OF this] show ?thesis by simp
qed

section \<open>Quiet hours\<close>

lemma quiet_check_indep [simp]:
  "fst (quiet_check env (q\<lparr>led_off_active := b\<rparr>)) = fst (quiet_check env q)"
  "fst (quiet_check env (q\<lparr>quiet_held := b\<rparr>)) = fst (quiet_check env q)"
  by (auto simp: quiet_check_def Let_def split: prod.split)

text \<open>A second check in the same poll gives the same answer.\<close>

lemma quiet_check_again: "fst (quiet_check env (snd (quiet_check env q))) = fst (quiet_check env q)"
  by (auto simp: quiet_check_def Let_def split: prod.split)

lemma quiet_check_override [simp]:
  "quiet_override (snd (quiet_check env q)) = quiet_override q"
  by (auto simp: quiet_check_def Let_def split: prod.split)

definition quiet_of :: "pl_env \<Rightarrow> pl_quiet \<Rightarrow> bool \<times> bool" where
  "quiet_of env q = (fst (quiet_check env q), quiet_override q)"

lemma quiet_of_step [simp]:
  "quiet_of env (snd (quiet_check env q)) = quiet_of env q"
  "quiet_of env (q\<lparr>led_off_active := b\<rparr>) = quiet_of env q"
  "quiet_of env (q\<lparr>quiet_held := b\<rparr>) = quiet_of env q"
  by (simp_all add: quiet_of_def quiet_check_again)

lemma quiet_of_led_off: "quiet_of env (quiet (poll_led_off env s)) = quiet_of env (quiet s)"
  by (simp add: poll_led_off_def Let_def case_prod_beta quietNow_def)

lemma quiet_of_hold: "quiet_of env (quiet (poll_quiet_hold env s)) = quiet_of env (quiet s)"
  by (simp add: poll_quiet_hold_def Let_def case_prod_beta quietNow_def)

lemma quiet_of_head: "quiet_of env (quiet (poll_head env s)) = quiet_of env (quiet s)"
  by (simp add: poll_head_def quiet_of_hold quiet_of_led_off)

text \<open>With a set clock, the check follows the configured slots.\<close>

lemma quiet_check_schedule:
  assumes "set_sands_enabled (settings env)" "clock_set env"
    and "last_quiet_check q = 0 \<or> 2000 \<le> now env - last_quiet_check q"
  shows "fst (quiet_check env q) \<longleftrightarrow>
    quiet_match (fst (parse (set_sands_slots (settings env)))) (tm_wday env) (tm_minute env)"
  using assms by (auto simp: quiet_check_def Let_def quiet_match_def not_less split: prod.split)

text \<open>
  C34. While quiet hours apply (Still Sands on, clock set, the current minute in a
  configured slot, the last check not fresher than two seconds) a poll of a playlist that
  is between patterns injects nothing and leaves it where it is, unless a skip overrides;
  the status says that it is quiet.
\<close>

theorem quiet_hours_hold_playlist:
  assumes "phase s = NextItem" "\<not> single s" "\<not> inAlarmState (machine env)"
    and "\<not> req_stop (req s)" "\<not> req_run (req s)" "\<not> req_skip (req s)" "\<not> quiet_override (quiet s)"
    and "set_sands_enabled (settings env)" "clock_set env"
    and "last_quiet_check (quiet s) = 0 \<or> 2000 \<le> now env - last_quiet_check (quiet s)"
    and "quiet_match (fst (parse (set_sands_slots (settings env)))) (tm_wday env) (tm_minute env)"
    and "pollLine env s = (l, s')"
  shows "l = None \<and> phase s' = NextItem \<and> index s' = index s \<and> order s' = order s
    \<and> in_quiet (quiet s') \<and> pub_quiet (pub s')"
proof -
  let ?h = "poll_head env s"
  have req: "req ?h = req s" and ph: "phase ?h = NextItem" using assms(1) poll_head_req [of s env] by simp_all
  have v: "run_view ?h = run_view s" by simp
  then have fld: "single ?h = single s" "index ?h = index s" "order ?h = order s"
    by (simp_all add: run_view_def)
  have q: "quiet_of env (quiet ?h) = (True, False)"
    using quiet_of_head [of env s] assms(7,11) quiet_check_schedule [OF assms(8-10)]
    by (simp add: quiet_of_def)
  let ?q = "(snd (quiet_check env (quiet ?h)))\<lparr>in_quiet := True\<rparr>"
  have "quietNow env ?h = (True, ?h\<lparr>quiet := snd (quiet_check env (quiet ?h))\<rparr>)"
    using q by (simp add: quietNow_def quiet_of_def)
  then have "quiet_gate env ?h = (False, ?h\<lparr>quiet := ?q\<rparr>)"
    using q assms(2,6) fld req by (simp add: quiet_gate_def Let_def quiet_of_def)
  then have "next_item env ?h = (None, ?h\<lparr>quiet := ?q\<rparr>)"
    using assms(3) by (simp add: next_item_def)
  then have "pollLine env s = (None, publish (?h\<lparr>quiet := ?q\<rparr>))"
    using ph req assms(4,5) by (simp add: pollLine_head Let_def poll_switch_def)
  then show ?thesis using assms(12) ph fld by (auto simp: publish_def Let_def)
qed

definition ex_slot :: slot where
  "ex_slot = \<lparr>start_min = 0, end_min = 720, days = 127\<rparr>"

definition ex_quiet_env :: pl_env where
  "ex_quiet_env = ex_env\<lparr>settings := ex_settings\<lparr>set_sands_enabled := True,
     set_sands_slots := show_slot ex_slot\<rparr>\<rparr>"

lemma ex_slot_parse: "fst (parse (show_slot ex_slot)) = [ex_slot]"
proof -
  have wf: "wf_slot ex_slot" by (simp add: ex_slot_def wf_slot_def)
  then have "split_on (CHR '','') (show_slot ex_slot) = [show_slot ex_slot]"
    using show_slot_plain [OF wf] by (intro split_on_single) auto
  then show ?thesis
    using parse_pieces_show [of "[ex_slot]" "[]"] wf by (simp add: parse_eq_pieces)
qed

theorem quiet_hours_hold_playlist_witness:
  "fst (pollLine ex_quiet_env (ex_item\<lparr>single := False\<rparr>)) = None"
proof -
  have "quiet_match [ex_slot] 1 600"
    by (simp add: quiet_match_def ex_slot_def)
  then have "fst (pollLine ex_quiet_env (ex_item\<lparr>single := False\<rparr>)) = None \<and> phase (snd (pollLine ex_quiet_env (ex_item\<lparr>single := False\<rparr>))) = NextItem
    \<and> index (snd (pollLine ex_quiet_env (ex_item\<lparr>single := False\<rparr>))) = index (ex_item\<lparr>single := False\<rparr>)
    \<and> order (snd (pollLine ex_quiet_env (ex_item\<lparr>single := False\<rparr>))) = order (ex_item\<lparr>single := False\<rparr>)
    \<and> in_quiet (quiet (snd (pollLine ex_quiet_env (ex_item\<lparr>single := False\<rparr>))))
    \<and> pub_quiet (pub (snd (pollLine ex_quiet_env (ex_item\<lparr>single := False\<rparr>))))"
    by (intro quiet_hours_hold_playlist [where env = ex_quiet_env])
      (simp_all add: ex_quiet_env_def ex_defs ex_slot_parse inAlarmState_def)
  then show ?thesis by simp
qed

section \<open>Polls of a running item\<close>

lemma pollLine_running:
  assumes "phase s \<noteq> Off" "\<not> req_stop (req s)" "\<not> req_run (req s)"
  shows "pollLine env s = (case poll_switch env (poll_head env s) of
              (Some l, s') \<Rightarrow> (Some l, s') | (None, s') \<Rightarrow> (None, publish s'))"
  using assms poll_head_req [of s env] by (simp add: pollLine_head Let_def)

text \<open>What the part before the switch leaves alone while a run is on.\<close>

definition item_view where
  "item_view s = (run_view s, req s, since_home s, resolved_index s, job_seen s, inject_ms s,
     pause_until_ms s, pause_total_ms s, last_err s, ov_mode s, ov_shuffle s, ov_pause s, ov_pfs s,
     clear_override s, pattern_start_ms s, last_pattern s, folder s)"

lemma item_view_quiet_only: "quiet_only s t \<Longrightarrow> item_view t = item_view s"
  by (auto simp: quiet_only_def item_view_def run_view_def)

lemma item_view_head:
  assumes "phase s \<noteq> Off" shows "item_view (poll_head env s) = item_view s"
proof -
  let ?t = "poll_quiet_hold env (poll_led_off env (s\<lparr>effects := []\<rparr>))"
  have "item_view (poll_autostart env ?t) = item_view ?t"
    using assms by (auto simp: poll_autostart_def Let_def item_view_def run_view_def)
  also have "\<dots> = item_view (s\<lparr>effects := []\<rparr>)"
    using item_view_quiet_only [OF quiet_only_hold] item_view_quiet_only [OF quiet_only_led_off] by metis
  also have "\<dots> = item_view s" by (simp add: item_view_def run_view_def)
  finally show ?thesis unfolding poll_head_def .
qed

lemma item_viewD:
  assumes "item_view t = item_view s"
  shows "phase t = phase s" "req t = req s" "order t = order s" "index t = index s"
    "since_home t = since_home s" "resolved_index t = resolved_index s" "job_seen t = job_seen s"
    "inject_ms t = inject_ms s" "pause_until_ms t = pause_until_ms s" "pause_total_ms t = pause_total_ms s"
    "clear_done t = clear_done s" "skip_active t = skip_active s" "single t = single s"
    "current_path t = current_path s" "consec_fail t = consec_fail s" "playlist_path t = playlist_path s"
    "next_path t = next_path s" "pattern_start_ms t = pattern_start_ms s"
    "pending_clear t = pending_clear s"
  using assms by (auto simp: item_view_def run_view_def)

section \<open>Pauses\<close>

lemma advanceIndex_frame:
  assumes "advanceIndex env s = (ok, s')"
  shows "\<not> ok \<Longrightarrow> phase s' = Off" "ok \<Longrightarrow> phase s' = phase s"
    "req_run (req s') = req_run (req s)" "req_stop (req s') = req_stop (req s)"
    "ok \<Longrightarrow> req s' = req s" "ok \<Longrightarrow> current_path s' = current_path s"
    "ok \<Longrightarrow> consec_fail s' = consec_fail s" "ok \<Longrightarrow> resolved_index s' = resolved_index s"
  using assms
  by (auto simp: advanceIndex_def Let_def shuffleOrder_def split: if_splits)

lemma skip_to_next_phase: "phase (skip_to_next env s) \<in> {NextItem, Off}"
  using advanceIndex_frame(1) [of env "s\<lparr>since_home := since_home s + 1\<rparr>"]
  by (auto simp: skip_to_next_def split: prod.split)

lemma inject_timeout_phase: "phase (inject_timeout env s) \<in> {NextItem, Off}"
  using skip_to_next_phase [of env]
  by (auto simp: inject_timeout_def Let_def)

lemma pattern_done_pausing:
  assumes "phase (pattern_done env s) = Pausing"
  shows "pause_until_ms (pattern_done env s) = now env + pause_total_ms (pattern_done env s)"
    "req (pattern_done env s) = req s"
proof -
  let ?s1 = "s\<lparr>last_pattern := current_path s, since_home := since_home s + 1,
                 quiet := (quiet s)\<lparr>quiet_override := False\<rparr>, skip_active := False\<rparr>"
  have eq: "(if skip_active t then (0, t\<lparr>skip_active := False\<rparr>) else (p1, t)) =
      (if skip_active s then 0 else p1, ?s1)"
    if "t = s\<lparr>last_pattern := current_path s, since_home := since_home s + 1,
                 quiet := (quiet s)\<lparr>quiet_override := False\<rparr>\<rparr>" for t and p1 :: u32
    using that by simp
  obtain ok s3 where a: "advanceIndex env ?s1 = (ok, s3)" by fastforce
  note f = advanceIndex_frame [OF a]
  show "pause_until_ms (pattern_done env s) = now env + pause_total_ms (pattern_done env s)"
    "req (pattern_done env s) = req s"
    using assms f unfolding pattern_done_def Let_def eq [OF refl] prod.case a
    by (auto split: if_splits)
qed

lemma run_phase_pausing:
  assumes "phase s = RunPattern" "phase (run_phase env s) = Pausing"
  shows "pause_until_ms (run_phase env s) = now env + pause_total_ms (run_phase env s)"
    "req (run_phase env s) = req s"
proof -
  have "run_phase env s = pattern_done env s"
    using assms inject_timeout_phase [of env s]
    by (auto simp: run_phase_def Let_def split: if_splits)
  then show "pause_until_ms (run_phase env s) = now env + pause_total_ms (run_phase env s)"
    "req (run_phase env s) = req s"
    using pattern_done_pausing [of env s] assms(2) by simp_all
qed

text \<open>
  A pause lasts as long as was decided when its pattern ended, also when the
  millisecond clock wraps around meanwhile: a poll \<open>d\<close> milliseconds after the one that
  started the pause goes on to the next item exactly when \<open>d\<close> has reached the pause.
\<close>

theorem pause_lasts:
  assumes "pollLine e1 s = (l1, s1)" "phase s = RunPattern" "phase s1 = Pausing"
    and "\<not> req_stop (req s)" "\<not> req_run (req s)" "\<not> req_skip (req s1)"
    and "now e2 = now e1 + d" "uint d < 2 ^ 31" "uint (pause_total_ms s1) < 2 ^ 31"
  shows "phase (snd (pollLine e2 s1)) = (if pause_total_ms s1 \<le> d then NextItem else Pausing)"
proof -
  let ?h = "poll_head e1 s"
  have "pollLine e1 s = (None, publish (run_phase e1 ?h))"
    using pollLine_running [of s e1] assms(2,4,5) by (simp add: poll_switch_def)
  then have s1: "s1 = publish (run_phase e1 ?h)" using assms(1) by simp
  have rq: "req s1 = req (run_phase e1 ?h)" by (simp add: s1)
  have "pause_until_ms (run_phase e1 ?h) = now e1 + pause_total_ms (run_phase e1 ?h)
      \<and> \<not> req_run (req (run_phase e1 ?h)) \<and> \<not> req_stop (req (run_phase e1 ?h))"
    using run_phase_pausing [of ?h e1] assms(2-5) poll_head_req [of s e1] by (simp add: s1)
  then have until: "pause_until_ms s1 = now e1 + pause_total_ms s1" "\<not> req_run (req s1)" "\<not> req_stop (req s1)"
    by (simp_all add: s1 publish_def Let_def)
  have hv: "item_view (poll_head e2 s1) = item_view s1" using assms(3) by (intro item_view_head) simp
  note v = item_viewD [OF hv]
  have "pollLine e2 s1 = (None, publish (pausing_phase e2 (poll_head e2 s1)))"
    using pollLine_running [of s1 e2] assms(3) until v(1) by (simp add: poll_switch_def)
  then show ?thesis
    using assms(3,6-9) v until deadline_passed_iff [of d "pause_total_ms s1" "now e1"]
    by (simp add: pausing_phase_def)
qed

definition ex_running :: playlist where
  "ex_running = ex_item\<lparr>single := False, phase := RunPattern, order := [0, 1], job_seen := True,
     playlist_path := ''/p.txt'', clear_done := True\<rparr>"

lemma ex_running_poll:
  "phase (snd (pollLine ex_env ex_running)) = Pausing"
  "pause_total_ms (snd (pollLine ex_env ex_running)) = 5000"
  "req (snd (pollLine ex_env ex_running)) = init_req"
  by (simp_all add: poll_defs ex_running_def ex_defs inAlarmState_def advanceIndex_def runPause_def
      runPauseFromStart_def Let_def)

theorem pause_lasts_witness:
  "phase (snd (pollLine (ex_env\<lparr>now := 5999\<rparr>) (snd (pollLine ex_env ex_running)))) = Pausing
   \<and> phase (snd (pollLine (ex_env\<lparr>now := 6000\<rparr>) (snd (pollLine ex_env ex_running)))) = NextItem"
proof -
  note w = pause_lasts [of ex_env ex_running "fst (pollLine ex_env ex_running)"
      "snd (pollLine ex_env ex_running)"]
  have a: "pollLine ex_env ex_running = (fst (pollLine ex_env ex_running), snd (pollLine ex_env ex_running))"
    by simp
  have b: "phase ex_running = RunPattern" "\<not> req_stop (req ex_running)" "\<not> req_run (req ex_running)"
    "\<not> req_skip (req (snd (pollLine ex_env ex_running)))"
    unfolding ex_running_poll by (simp_all add: ex_running_def ex_defs)
  have c: "now (ex_env\<lparr>now := 5999\<rparr>) = now ex_env + 4999" "now (ex_env\<lparr>now := 6000\<rparr>) = now ex_env + 5000"
    by (simp_all add: ex_env_def)
  show ?thesis
    using w [OF a b(1) ex_running_poll(1) b(2-4) c(1)] w [OF a b(1) ex_running_poll(1) b(2-4) c(2)]
    unfolding ex_running_poll(2) by simp
qed

section \<open>A clear and its pattern\<close>

lemma quiet_gate_only:
  assumes "quiet_gate env s = (go, t)" "\<not> req_skip (req s)"
  shows "t = s\<lparr>quiet := quiet t\<rparr>"
proof -
  have "snd (quiet_gate env s) = s\<lparr>quiet := quiet (snd (quiet_gate env s))\<rparr>"
    using assms(2) by (cases s) (simp add: quiet_gate_def quietNow_def Let_def)
  then show ?thesis using assms(1) by simp
qed

lemma quiet_gate_sands_off:
  assumes "\<not> set_sands_enabled (settings env)"
  shows "\<exists>q. quiet_gate env s = (True, s\<lparr>quiet := q\<rparr>)"
proof -
  have "(if \<not> single s then quietNow env s else (False, s)) = (False, s)"
    using assms by (simp add: quietNow_def quiet_check_def)
  then have "quiet_gate env s = (True, if in_quiet (quiet s)
      then s\<lparr>quiet := (quiet s)\<lparr>in_quiet := False, quiet_override := False\<rparr>\<rparr> else s)"
    by (simp add: quiet_gate_def)
  then have "quiet_gate env s = (True, s\<lparr>quiet := if in_quiet (quiet s)
      then (quiet s)\<lparr>in_quiet := False, quiet_override := False\<rparr> else quiet s\<rparr>)"
    by simp
  then show ?thesis by blast
qed

text \<open>The polls of a list of worlds: the lines that they inject, and the state after them.\<close>

fun polls :: "pl_env list \<Rightarrow> playlist \<Rightarrow> string list \<times> playlist" where
  "polls [] s = ([], s)"
| "polls (e # es) s =
     (let (l, s1) = pollLine e s; (ls, s2) = polls es s1
      in ((case l of None \<Rightarrow> ls | Some x \<Rightarrow> x # ls), s2))"

text \<open>
  An item whose clear has been decided and whose pattern has not: its clear plays (the second
  argument says whether it has been seen), or the pattern waits to be injected.
\<close>

definition clearing :: "pl_env \<Rightarrow> bool \<Rightarrow> playlist \<Rightarrow> playlist \<Rightarrow> bool" where
  "clearing e1 b s1 s \<longleftrightarrow> index s = index s1 \<and> current_path s = current_path s1 \<and> resolved_index s = index s
     \<and> clear_done s \<and> \<not> skip_active s \<and> \<not> req_stop (req s) \<and> \<not> req_run (req s) \<and> \<not> req_skip (req s)
     \<and> (single s \<or> set_auto_home (settings e1) \<le> 0 \<or> since_home s < set_auto_home (settings e1))
     \<and> inject_ms s = now e1
     \<and> (phase s = RunClear \<and> (job_seen s \<longleftrightarrow> b) \<or> b \<and> phase s = NextItem)"

text \<open>Worlds in which the run goes on: no alarm, and the interval of the automatic homing unchanged.\<close>

definition calm :: "pl_env \<Rightarrow> pl_env \<Rightarrow> bool" where
  "calm e1 e \<longleftrightarrow> \<not> inAlarmState (machine e) \<and> set_auto_home (settings e) = set_auto_home (settings e1)"

lemma clearing_view:
  assumes "item_view t = item_view s" "clearing e1 b s1 s" shows "clearing e1 b s1 t"
  using item_viewD [OF assms(1)] assms(2) by (auto simp: clearing_def)

lemma item_view_publish: "item_view (publish s) = item_view s"
  by (simp add: item_view_def run_view_def publish_def Let_def)

lemma run_phase_clearing:
  assumes "clearing e1 b s1 h" "phase h = RunClear" "calm e1 e"
    and "b \<or> job_active e \<or> now e - now e1 \<le> INJECT_TIMEOUT_MS"
  shows "clearing e1 (b \<or> job_active e) s1 (run_phase e h)
    \<and> (b \<and> \<not> job_active e \<and> machine e = Idle \<longrightarrow> phase (run_phase e h) = NextItem)"
proof -
  have h: "\<not> inAlarmState (machine e)" "\<not> req_skip (req h)" "\<not> skip_active h" "job_seen h \<longleftrightarrow> b" "inject_ms h = now e1"
    using assms(1-3) by (auto simp: clearing_def calm_def)
  consider "job_active e" "b" | "job_active e" "\<not> b" | "\<not> job_active e" "\<not> b"
    | "\<not> job_active e" "b" "machine e = Idle" | "\<not> job_active e" "b" "machine e \<noteq> Idle" by blast
  then show ?thesis
  proof cases
    case 1
    then have "run_phase e h = h" using h by (simp add: run_phase_def)
    then show ?thesis using 1 assms(1) by simp
  next
    case 2
    then have "run_phase e h = h\<lparr>job_seen := True\<rparr>" using h assms(2) by (simp add: run_phase_def)
    then show ?thesis using 2 assms(1,2) by (simp add: clearing_def)
  next
    case 3
    then have "run_phase e h = h" using h assms(4) by (simp add: run_phase_def not_less)
    then show ?thesis using 3 assms(1) by simp
  next
    case 4
    then have "run_phase e h = (emit (SetClearFeed (- 1)) h)\<lparr>phase := NextItem\<rparr>"
      using h assms(2) by (simp add: run_phase_def clear_done_phase_def)
    then show ?thesis using 4 assms(1,2) by (simp add: clearing_def emit_def)
  next
    case 5
    then have "run_phase e h = h" using h by (simp add: run_phase_def)
    then show ?thesis using 5 assms(1) by simp
  qed
qed

lemma poll_clearing_run:
  assumes "clearing e1 b s1 s" "phase s = RunClear" "calm e1 e"
    and "b \<or> job_active e \<or> now e - now e1 \<le> INJECT_TIMEOUT_MS"
  shows "\<exists>s'. pollLine e s = (None, s') \<and> clearing e1 (b \<or> job_active e) s1 s'
    \<and> (b \<and> \<not> job_active e \<and> machine e = Idle \<longrightarrow> phase s' = NextItem)"
proof -
  let ?h = "poll_head e s"
  have ph: "phase s \<noteq> Off" "\<not> req_stop (req s)" "\<not> req_run (req s)" "\<not> req_skip (req s)"
    using assms(1,2) by (simp_all add: clearing_def)
  note v = item_viewD [OF item_view_head [OF ph(1), of e]]
  have ch: "clearing e1 b s1 ?h" by (rule clearing_view [OF item_view_head [OF ph(1)] assms(1)])
  have p: "pollLine e s = (None, publish (run_phase e ?h))"
    using pollLine_running [OF ph(1-3), of e] v(1) assms(2) by (simp add: poll_switch_def)
  have "phase ?h = RunClear" using v(1) assms(2) by simp
  from run_phase_clearing [OF ch this assms(3,4)] show ?thesis
    using p clearing_view [OF item_view_publish] item_viewD(1) [OF item_view_publish] by metis
qed

lemma poll_clearing_next:
  assumes "clearing e1 True s1 s" "phase s = NextItem" "calm e1 e"
  shows "(\<exists>s'. pollLine e s = (None, s') \<and> clearing e1 True s1 s' \<and> phase s' = NextItem
      \<and> \<not> (fst (quiet_gate e (poll_head e s)) \<and> line_slot e \<and> machine e = Idle \<and> \<not> job_active e))
    \<or> (\<exists>s'. pollLine e s = (Some (run_line (current_path s1)), s') \<and> phase s' = RunPattern \<and> index s' = index s1)"
proof -
  let ?h = "poll_head e s"
  have ph: "phase s \<noteq> Off" "\<not> req_stop (req s)" "\<not> req_run (req s)" "\<not> req_skip (req s)"
    using assms(1,2) by (simp_all add: clearing_def)
  note v = item_viewD [OF item_view_head [OF ph(1), of e]]
  obtain go t where g: "quiet_gate e ?h = (go, t)" by fastforce
  have t: "t = ?h\<lparr>quiet := quiet t\<rparr>" using quiet_gate_only [OF g] v(2) ph(4) by simp
  have vt: "item_view t = item_view s"
    using item_view_head [OF ph(1), of e] by (subst t) (simp add: item_view_def run_view_def)
  note w = item_viewD [OF vt]
  have ct: "clearing e1 True s1 t" by (rule clearing_view [OF vt assms(1)])
  have p: "pollLine e s = (case next_item e ?h of (Some l, s') \<Rightarrow> (Some l, s') | (None, s') \<Rightarrow> (None, publish s'))"
    using pollLine_running [OF ph(1-3), of e] v(1) assms(2) by (simp add: poll_switch_def)
  have n: "next_item e ?h = (if go \<and> line_slot e \<and> machine e = Idle \<and> \<not> job_active e then inject_pattern e t else (None, t))"
    unfolding next_item_def g Let_def prod.case
    using assms(3) ct by (auto simp: clearing_def calm_def inject_item_def inject_clear_def)
  show ?thesis
  proof (cases "go \<and> line_slot e \<and> machine e = Idle \<and> \<not> job_active e")
    case True
    then show ?thesis using p n ct by (simp add: inject_pattern_def clearing_def)
  next
    case False
    then have "pollLine e s = (None, publish t)" using p n by auto
    then show ?thesis
      using False g clearing_view [OF item_view_publish ct] item_viewD(1) [OF item_view_publish [of t]] w(1) assms(2)
      by auto
  qed
qed

lemma polls_before:
  assumes "clearing e1 False s1 s" "list_all (\<lambda>e. calm e1 e \<and> now e - now e1 \<le> INJECT_TIMEOUT_MS \<and> \<not> job_active e) es"
  shows "\<exists>t. polls es s = ([], t) \<and> clearing e1 False s1 t"
  using assms
proof (induction es arbitrary: s)
  case (Cons e es)
  have "phase s = RunClear" using Cons.prems(1) by (simp add: clearing_def)
  then obtain s' where "pollLine e s = (None, s')" "clearing e1 False s1 s'"
    using poll_clearing_run [OF Cons.prems(1), of e] Cons.prems(2) by auto
  then show ?case using Cons.IH [of s'] Cons.prems(2) by auto
qed simp

lemma polls_clearing:
  assumes "clearing e1 True s1 s" "list_all (calm e1) es" "polls es s = ([], t)"
  shows "clearing e1 True s1 t
    \<and> (phase s = NextItem \<or> (\<exists>e \<in> set es. \<not> job_active e \<and> machine e = Idle) \<longrightarrow> phase t = NextItem)"
  using assms
proof (induction es arbitrary: s)
  case (Cons e es)
  have "phase s = RunClear \<or> phase s = NextItem" using Cons.prems(1) by (auto simp: clearing_def)
  then show ?case
  proof
    assume "phase s = RunClear"
    then obtain s' where s': "pollLine e s = (None, s')" "clearing e1 True s1 s'"
        "\<not> job_active e \<and> machine e = Idle \<longrightarrow> phase s' = NextItem"
      using poll_clearing_run [OF Cons.prems(1), of e] Cons.prems(2) by auto
    have "polls es s' = ([], t)" using Cons.prems(3) s'(1) by (simp split: prod.splits)
    then show ?thesis using Cons.IH [OF s'(2)] Cons.prems(2) s'(3) \<open>phase s = RunClear\<close> by auto
  next
    assume n: "phase s = NextItem"
    have "fst (pollLine e s) = None" using Cons.prems(3) by (auto split: prod.splits option.splits)
    then obtain s' where s': "pollLine e s = (None, s')" "clearing e1 True s1 s'" "phase s' = NextItem"
      using poll_clearing_next [OF Cons.prems(1) n, of e] Cons.prems(2) by auto
    have "polls es s' = ([], t)" using Cons.prems(3) s'(1) by (simp split: prod.splits)
    then show ?thesis using Cons.IH [OF s'(2)] Cons.prems(2) s'(3) by auto
  qed
qed simp

text \<open>
  C9. A clear is followed by the pattern it was injected for. After a poll that injects a clear
  come polls that do not see its job yet (es0, within the timeout of the injection), one that
  does, and any polls that inject nothing (es); whatever the next poll then injects is the
  pattern of the same item, and no second clear. It does inject it when one of those polls found the
  clear completed (no job, machine Idle) and it is itself offered a line buffer on an idle machine
  with Still Sands off. In all these polls there is no alarm and the homing interval
  is that of the first; no request arrives (commands are not polls), while quiet hours and
  busy machines in between are allowed.
\<close>

theorem clear_then_its_pattern:
  assumes "pl_inv s" "pollLine e1 s = (Some l1, s1)" "phase s1 = RunClear"
    and "list_all (calm e1) (es0 @ e2 # es @ [e])" "job_active e2"
    and "list_all (\<lambda>e. now e - now e1 \<le> INJECT_TIMEOUT_MS \<and> \<not> job_active e) es0"
    and "polls (es0 @ e2 # es) s1 = ([], t)" "pollLine e t = (l, s')"
  shows "(l = None \<or> l = Some (run_line (current_path s1)) \<and> phase s' = RunPattern \<and> index s' = index s1)
    \<and> ((\<exists>e3 \<in> set es. \<not> job_active e3 \<and> machine e3 = Idle) \<and> \<not> job_active e \<and> machine e = Idle \<and> line_slot e
        \<and> \<not> set_sands_enabled (settings e) \<longrightarrow> l \<noteq> None)"
proof -
  note f = injection_facts [OF assms(2)]
  have "\<not> skip_active s1" using f(4,13) pl_invD(5) [OF assms(1)] by auto
  then have c1: "clearing e1 False s1 s1" using f assms(3) by (simp add: clearing_def)
  obtain t0 where t0: "polls es0 s1 = ([], t0)" "clearing e1 False s1 t0"
    using polls_before [OF c1, of es0] assms(4,6) by (auto simp: list_all_iff)
  have "polls (xs @ ys) u = (let (ls, u1) = polls xs u; (ls', u2) = polls ys u1 in (ls @ ls', u2))" for xs ys u
    by (induction xs arbitrary: u) (auto simp: Let_def split: prod.splits option.splits)
  then have rest: "polls (e2 # es) t0 = ([], t)" using assms(7) t0(1) by (simp add: Let_def split: prod.splits)
  have "phase t0 = RunClear" using t0(2) by (simp add: clearing_def)
  then obtain t2 where t2: "pollLine e2 t0 = (None, t2)" "clearing e1 True s1 t2"
    using poll_clearing_run [OF t0(2), of e2] assms(4,5) by auto
  then have es: "polls es t2 = ([], t)" using rest by (simp split: prod.splits)
  have ct: "clearing e1 True s1 t"
      "(\<exists>e3 \<in> set es. \<not> job_active e3 \<and> machine e3 = Idle) \<Longrightarrow> phase t = NextItem"
    using polls_clearing [OF t2(2) _ es] assms(4) by auto
  have ce: "calm e1 e" using assms(4) by simp
  show ?thesis
  proof (cases "phase t = NextItem")
    case True
    then show ?thesis
      using poll_clearing_next [OF ct(1) True ce] assms(8) quiet_gate_sands_off [of e "poll_head e t"] by auto
  next
    case False
    then have "phase t = RunClear" using ct(1) by (auto simp: clearing_def)
    then show ?thesis using poll_clearing_run [OF ct(1) _ ce] assms(8) False ct(2) by auto
  qed
qed

end
