(* ===== verification/PlaylistLimits.thy ===== *)
theory PlaylistLimits
  imports PlaylistTiming
begin

text \<open>
  A concrete clear before its pattern, the cap on unreadable and unplayable items, a skip
  that takes the whole item, and two behaviours the code's comments do not intend.
\<close>

section \<open>A clear before its pattern, concretely\<close>

definition ex_clear :: playlist where
  "ex_clear = ex_item\<lparr>clear_override := CLEAR_IN\<rparr>"

definition ex_busy :: pl_env where
  "ex_busy = ex_env\<lparr>machine := Cycle, job_active := True\<rparr>"

lemma ex_clear_poll: "phase (snd (pollLine ex_env ex_clear)) = RunClear"
  "fst (pollLine ex_env ex_clear) = Some ''$SD/Run=/i.thr''"
  by (simp_all add: ex_clear_def poll_defs ex_defs inAlarmState_def clearFileFor_def choose_clear_def
      run_line_def c_str_def NUL_def Let_def)

theorem clear_then_its_pattern_witness:
  "let s1 = snd (pollLine ex_env ex_clear) in
   polls [ex_busy, ex_env] s1 = ([], snd (polls [ex_busy, ex_env] s1))
   \<and> fst (pollLine ex_env (snd (polls [ex_busy, ex_env] s1))) = Some (run_line (current_path s1))"
proof -
  let ?s1 = "snd (pollLine ex_env ex_clear)"
  have inv: "pl_inv ex_clear"
    by (simp add: ex_clear_def ex_defs pl_inv_def perm_upto_0)
  have a: "pollLine ex_env ex_clear = (Some ''$SD/Run=/i.thr'', ?s1)"
    using ex_clear_poll(2) by (simp add: prod_eq_iff)
  have e: "job_active ex_busy" "list_all (calm ex_env) ([] @ ex_busy # [ex_env] @ [ex_env])" "\<not> job_active ex_env"
    "machine ex_env = Idle" "line_slot ex_env" "\<not> set_sands_enabled (settings ex_env)"
    by (simp_all add: calm_def ex_busy_def ex_env_def ex_settings_def inAlarmState_def)
  have "fst (polls [ex_busy, ex_env] ?s1) = []"
    by (simp add: ex_clear_def poll_defs ex_defs ex_busy_def inAlarmState_def clearFileFor_def choose_clear_def Let_def)
  then have p: "polls ([] @ ex_busy # [ex_env]) ?s1 = ([], snd (polls [ex_busy, ex_env] ?s1))"
    by (simp only: append_Nil prod_eq_iff fst_conv snd_conv simp_thms)
  have "list_all (\<lambda>e. now e - now ex_env \<le> INJECT_TIMEOUT_MS \<and> \<not> job_active e) []" by simp
  from clear_then_its_pattern [OF inv a ex_clear_poll(1) e(2,1) this p surjective_pairing] e(3-6) p
  show ?thesis by (simp add: Let_def del: polls.simps) (metis option.distinct(1))
qed

section \<open>Failures\<close>

text \<open>The next-item phase of a machine that is ready, outside quiet hours.\<close>

definition ready :: "pl_env \<Rightarrow> playlist \<Rightarrow> bool" where
  "ready env s \<longleftrightarrow> phase s = NextItem \<and> line_slot env \<and> machine env = Idle \<and> \<not> job_active env
     \<and> \<not> set_sands_enabled (settings env) \<and> \<not> req_stop (req s) \<and> \<not> req_run (req s)
     \<and> \<not> req_skip (req s)
     \<and> (single s \<or> set_auto_home (settings env) \<le> 0 \<or> since_home s < set_auto_home (settings env))"

lemma ready_poll:
  assumes "ready env s"
  shows "\<exists>h. item_view h = item_view s
    \<and> pollLine env s = (case
          (if resolved_index h \<noteq> index h then
             let (ok, s2) = resolveCurrent env h in
             if \<not> ok then
               let s3 = s2\<lparr>consec_fail := consec_fail s2 + 1\<rparr>
               in if consec_fail s3 \<ge> MAX_CONSEC_FAIL then (None, finish s3)
                  else (None, snd (advanceIndex env s3))
             else inject_item env (s2\<lparr>resolved_index := index s2\<rparr>)
           else inject_item env h) of
        (Some l, s') \<Rightarrow> (Some l, s') | (None, s') \<Rightarrow> (None, publish s'))"
proof -
  let ?h = "poll_head env s"
  have nx: "phase s = NextItem" using assms by (simp add: ready_def)
  have iv: "item_view ?h = item_view s" using nx by (intro item_view_head) simp
  note v = item_viewD [OF iv]
  obtain q where g: "quiet_gate env ?h = (True, ?h\<lparr>quiet := q\<rparr>)"
    using quiet_gate_sands_off [of env ?h] assms by (auto simp: ready_def)
  have iv2: "item_view (?h\<lparr>quiet := q\<rparr>) = item_view s"
    using iv by (simp add: item_view_def run_view_def)
  have p: "pollLine env s = (case next_item env ?h of
        (Some l, s') \<Rightarrow> (Some l, s') | (None, s') \<Rightarrow> (None, publish s'))"
    using pollLine_running [of s env] assms v(1) by (simp add: ready_def poll_switch_def)
  have n: "next_item env ?h = (let s1 = ?h\<lparr>quiet := q\<rparr> in
      if resolved_index s1 \<noteq> index s1 then
             let (ok, s2) = resolveCurrent env s1 in
             if \<not> ok then
               let s3 = s2\<lparr>consec_fail := consec_fail s2 + 1\<rparr>
               in if consec_fail s3 \<ge> MAX_CONSEC_FAIL then (None, finish s3)
                  else (None, snd (advanceIndex env s3))
             else inject_item env (s2\<lparr>resolved_index := index s2\<rparr>)
           else inject_item env s1)"
    unfolding next_item_def g Let_def prod.case
    using assms v by (auto simp: ready_def inAlarmState_def)
  show ?thesis
    by (rule exI [of _ "?h\<lparr>quiet := q\<rparr>"]) (use iv2 p n in \<open>simp add: Let_def\<close>)
qed

lemma resolveCurrent_fails:
  assumes "files env (playlist_path s) = None" "playlist_path s \<noteq> []"
  shows "resolveCurrent env s = (False, s)"
  using assms by (auto simp: resolveCurrent_def scanValidLines_def Let_def)

text \<open>
  A slot whose line cannot be read back costs one of the five tries: the poll injects
  nothing and the run is either off or one failure further, on the next slot. With the
  invariant this bounds the consecutive unreadable slots of a dead card.
\<close>

theorem unreadable_slot_counts:
  assumes "pl_inv s" "ready env s" "resolved_index s \<noteq> index s" "\<not> single s"
    and "files env (playlist_path s) = None" "pollLine env s = (l, s')"
  shows "l = None \<and> (phase s' = Off \<or>
    phase s' = NextItem \<and> consec_fail s' = consec_fail s + 1 \<and> consec_fail s' < MAX_CONSEC_FAIL
    \<and> index s' = (if index s + 1 < length (order s) then index s + 1 else 0)
    \<and> \<not> clear_done s')"
proof -
  have nx: "phase s = NextItem" using assms(2) by (simp add: ready_def)
  obtain h where iv: "item_view h = item_view s" and p: "pollLine env s = (case
          (if resolved_index h \<noteq> index h then
             let (ok, s2) = resolveCurrent env h in
             if \<not> ok then
               let s3 = s2\<lparr>consec_fail := consec_fail s2 + 1\<rparr>
               in if consec_fail s3 \<ge> MAX_CONSEC_FAIL then (None, finish s3)
                  else (None, snd (advanceIndex env s3))
             else inject_item env (s2\<lparr>resolved_index := index s2\<rparr>)
           else inject_item env h) of
        (Some l, s') \<Rightarrow> (Some l, s') | (None, s') \<Rightarrow> (None, publish s'))"
    using ready_poll [OF assms(2)] by blast
  note v = item_viewD [OF iv]
  have l: "live s" using pl_invD(1) [OF assms(1)] nx by simp
  then have pp: "playlist_path h \<noteq> []" using assms(4) v by (simp add: live_def)
  have r: "resolveCurrent env h = (False, h)"
    using resolveCurrent_fails [OF _ pp] assms(5) v by simp
  let ?s3 = "h\<lparr>consec_fail := consec_fail h + 1\<rparr>"
  have p': "pollLine env s = (None, publish
     (if consec_fail h + 1 \<ge> MAX_CONSEC_FAIL then finish ?s3 else snd (advanceIndex env ?s3)))"
    using p r assms(3) v by (simp add: Let_def)
  show ?thesis
  proof (cases "consec_fail h + 1 \<ge> MAX_CONSEC_FAIL")
    case True
    then show ?thesis using p' assms(6) by auto
  next
    case False
    obtain ok t where a: "advanceIndex env ?s3 = (ok, t)" by fastforce
    have s': "s' = publish t" "l = None" using p' a assms(6) False by auto
    have "ok \<Longrightarrow> index t = (if index s + 1 < length (order s) then index s + 1 else 0) \<and> \<not> clear_done t"
      using a v l by (auto simp: advanceIndex_def Let_def live_def shuffleOrder_def split: if_splits)
    then show ?thesis
      using advanceIndex_frame [OF a] s' False v nx
      by (cases ok) (auto simp: publish_def Let_def)
  qed
qed

definition ex_dead :: playlist where
  "ex_dead = ex_item\<lparr>single := False, order := [0, 1], index := 1, resolved_index := 0,
     playlist_path := ''/gone.txt'', consec_fail := 2\<rparr>"

lemma perm_upto_01: "perm_upto [0, 1]"
  using perm_upto_identity [of "Suc (Suc 0)"] by simp

theorem unreadable_slot_counts_witness:
  "consec_fail (snd (pollLine ex_env ex_dead)) = 3 \<or> phase (snd (pollLine ex_env ex_dead)) = Off"
proof -
  have "pl_inv ex_dead"
    by (simp add: ex_dead_def ex_defs pl_inv_def perm_upto_01)
  moreover have "ready ex_env ex_dead" "resolved_index ex_dead \<noteq> index ex_dead" "\<not> single ex_dead"
    "files ex_env (playlist_path ex_dead) = None"
    by (simp_all add: ready_def ex_dead_def ex_defs ex_files_def)
  moreover have "consec_fail ex_dead = 2" by (simp add: ex_dead_def)
  ultimately show ?thesis
    using unreadable_slot_counts [OF _ _ _ _ _ surjective_pairing, of ex_dead ex_env] by auto
qed

section \<open>Skip\<close>

text \<open>The index of the next item of the order, or of the next pass.\<close>

definition next_index :: "playlist \<Rightarrow> nat" where
  "next_index s = (if index s + 1 < length (order s) then index s + 1 else 0)"

lemma advanceIndex_index:
  "advanceIndex env s = (True, t) \<Longrightarrow> index t = next_index s \<and> \<not> clear_done t \<and> skip_active t = skip_active s"
  by (auto simp: advanceIndex_def next_index_def Let_def shuffleOrder_def split: if_splits)

lemma skip_to_next_item:
  "phase (skip_to_next env s) = Off
   \<or> phase (skip_to_next env s) = NextItem \<and> skip_active (skip_to_next env s) = skip_active s
     \<and> \<not> clear_done (skip_to_next env s) \<and> index (skip_to_next env s) = next_index s"
proof -
  obtain ok t where a: "advanceIndex env (s\<lparr>since_home := since_home s + 1\<rparr>) = (ok, t)" by fastforce
  show ?thesis
    using advanceIndex_frame(1) [OF a] advanceIndex_index [of env "s\<lparr>since_home := since_home s + 1\<rparr>" t] a
    by (cases ok) (auto simp: skip_to_next_def next_index_def)
qed

lemma pattern_done_skipped:
  assumes "skip_active s"
  shows "phase (pattern_done env s) = Off
   \<or> phase (pattern_done env s) = NextItem \<and> \<not> skip_active (pattern_done env s)
     \<and> \<not> clear_done (pattern_done env s) \<and> index (pattern_done env s) = next_index s"
proof -
  let ?s1 = "s\<lparr>last_pattern := current_path s, since_home := since_home s + 1,
                 quiet := (quiet s)\<lparr>quiet_override := False\<rparr>, skip_active := False\<rparr>"
  have eq: "(if skip_active t then (0, t\<lparr>skip_active := False\<rparr>) else (p1, t)) = (0, ?s1)"
    if "t = s\<lparr>last_pattern := current_path s, since_home := since_home s + 1,
                 quiet := (quiet s)\<lparr>quiet_override := False\<rparr>\<rparr>" for t and p1 :: u32
    using that assms by simp
  obtain ok s3 where a: "advanceIndex env ?s1 = (ok, s3)" by fastforce
  have i: "ok \<Longrightarrow> index s3 = next_index s \<and> \<not> clear_done s3 \<and> \<not> skip_active s3"
    using advanceIndex_index [of env ?s1 s3] a by (simp add: next_index_def)
  show ?thesis
    using i advanceIndex_frame(1) [OF a]
    unfolding pattern_done_def Let_def eq [OF refl] prod.case a by (cases ok) auto
qed

text \<open>
  A skip taken while a clear or a pattern runs takes the whole item and its pause: the
  running job is aborted through the deferred event, and the poll that sees it gone goes
  straight to the next item of the order, or wraps, or ends the run, without a pause and
  without running the pattern a clear was for.
\<close>

theorem skip_takes_the_item:
  assumes "pl_inv s" "phase s = RunClear \<or> phase s = RunPattern" "req_skip (req s)"
    and "\<not> req_stop (req s)" "\<not> req_run (req s)" "\<not> inAlarmState (machine e1)" "job_seen s"
    and "pollLine e1 s = (l1, s1)" "\<not> job_active e2" "machine e2 = Idle" "pollLine e2 s1 = (l2, s2)"
  shows "l1 = None \<and> l2 = None \<and> (job_active e1 \<longrightarrow> SendStopJob \<in> set (effects s1))
    \<and> (phase s2 = Off \<or> phase s2 = NextItem \<and> \<not> skip_active s2 \<and> \<not> clear_done s2
         \<and> index s2 = (if index s + 1 < length (order s) then index s + 1 else 0))"
proof -
  let ?h = "poll_head e1 s"
  note v = item_viewD [OF item_view_head [of s e1]]
  have on: "phase s \<noteq> Off" using assms(2) by auto
  let ?t = "?h\<lparr>req := (req ?h)\<lparr>req_skip := False\<rparr>, skip_active := True\<rparr>"
  let ?u = "if job_active e1 then emit SendStopJob ?t else ?t"
  have "run_phase e1 ?h = ?u"
    using assms(3,6) v(2) [OF on] by (simp add: run_phase_def Let_def)
  then have "pollLine e1 s = (None, publish ?u)"
    using pollLine_running [OF on assms(4,5), of e1] assms(2) by (auto simp: poll_switch_def)
  then have l1: "l1 = None" and s1: "s1 = publish ?u" using assms(8) by auto
  have ef: "job_active e1 \<longrightarrow> SendStopJob \<in> set (effects s1)" by (simp add: s1)
  have iv1: "item_view s1 = item_view (s\<lparr>req := (req s)\<lparr>req_skip := False\<rparr>, skip_active := True\<rparr>)"
    using item_view_head [OF on, of e1]
    by (simp add: s1 item_view_def run_view_def publish_def Let_def emit_def)
  note w = item_viewD [OF iv1, simplified]
  have on1: "phase s1 \<noteq> Off" using on w(1) by simp
  let ?h2 = "poll_head e2 s1"
  note v2 = item_viewD [OF item_view_head [OF on1, of e2]]
  have live2: "live ?h2"
    using pl_invD(1) [OF assms(1) on] w v2 by (simp add: live_def)
  obtain x where x: "run_phase e2 ?h2 = x" "phase x = Off \<or> phase x = NextItem \<and> \<not> skip_active x
      \<and> \<not> clear_done x \<and> index x = (if index s + 1 < length (order s) then index s + 1 else 0)"
  proof -
    have sk: "skip_active ?h2" "job_seen ?h2" "\<not> req_skip (req ?h2)" "phase ?h2 = phase s"
      using v2 w assms(7) by simp_all
    have ni: "next_index ?h2 = (if index s + 1 < length (order s) then index s + 1 else 0)"
      using v2 w by (simp add: next_index_def)
    have ni': "next_index ((emit e ?h2)\<lparr>skip_active := False\<rparr>) = next_index ?h2" for e
      by (simp add: next_index_def)
    have "run_phase e2 ?h2 = (if phase s = RunClear
        then skip_to_next e2 ((emit (SetClearFeed (- 1)) ?h2)\<lparr>skip_active := False\<rparr>)
        else pattern_done e2 ?h2)"
      using sk assms(9,10) by (simp add: run_phase_def clear_done_phase_def inAlarmState_def)
    then show ?thesis
      using that [OF refl] pattern_done_skipped [OF sk(1), of e2] ni ni' [of "SetClearFeed (- 1)"]
        skip_to_next_item [of e2 "(emit (SetClearFeed (- 1)) ?h2)\<lparr>skip_active := False\<rparr>"]
      by (auto split: if_splits)
  qed
  have "pollLine e2 s1 = (None, publish x)"
    using pollLine_running [of s1 e2] on1 w v2(1) x(1) assms(2,4,5) by (auto simp: poll_switch_def)
  then have "l2 = None" "s2 = publish x" using assms(11) by auto
  then show ?thesis using l1 ef x(2) by (auto simp: publish_def Let_def)
qed

definition ex_skipped :: playlist where
  "ex_skipped = ex_running\<lparr>req := init_req\<lparr>req_skip := True\<rparr>\<rparr>"

theorem skip_takes_the_item_witness:
  "SendStopJob \<in> set (effects (snd (pollLine ex_busy ex_skipped)))"
proof -
  have "pl_inv ex_skipped"
    by (simp add: ex_skipped_def ex_running_def ex_defs pl_inv_def perm_upto_01)
  moreover have "phase ex_skipped = RunClear \<or> phase ex_skipped = RunPattern" "req_skip (req ex_skipped)"
    "\<not> req_stop (req ex_skipped)" "\<not> req_run (req ex_skipped)" "\<not> inAlarmState (machine ex_busy)"
    "job_seen ex_skipped" "\<not> job_active ex_env" "machine ex_env = Idle" "job_active ex_busy"
    by (simp_all add: ex_skipped_def ex_running_def ex_defs ex_busy_def inAlarmState_def)
  ultimately show ?thesis
    using skip_takes_the_item [of ex_skipped ex_busy _ _ ex_env, OF _ _ _ _ _ _ _ surjective_pairing _ _ surjective_pairing]
    by blast
qed

section \<open>Two defects\<close>

text \<open>
  A playlist that fails to load leaves the old status snapshot in place: the run is
  off, but the snapshot is the one from before, and so it stays as long as no request
  comes, since a poll with nothing to do returns before it publishes.
\<close>

theorem failed_load_keeps_stale_status:
  assumes "\<not> req_stop (req s)" "req_run (req s)" "\<not> req_single (req s)" "phase s \<noteq> Off"
    and "files e1 (playlist_file (folder s) (req_name (req s))) = None"
    and "pollLine e1 s = (l1, s1)" "\<not> autostart_pending (auto s1)" "pollLine e2 s1 = (l2, s2)"
  shows "phase s1 = Off \<and> phase s2 = Off \<and> pub s1 = pub s \<and> pub s2 = pub s"
proof -
  let ?h = "poll_head e1 s"
  have iv: "item_view ?h = item_view s" using assms(4) by (intro item_view_head)
  have rq: "req ?h = req s" and fo: "folder ?h = folder s"
    using iv by (auto simp: item_view_def)
  have pb: "pub (poll_head e s) = pub s" for e s
    unfolding poll_head_def
    using quiet_only_view(6) [OF quiet_only_led_off, of e "s\<lparr>effects := []\<rparr>"]
      quiet_only_view(6) [OF quiet_only_hold, of e "poll_led_off e (s\<lparr>effects := []\<rparr>)"]
    by (simp add: poll_autostart_def Let_def)
  let ?s1 = "?h\<lparr>req := (req ?h)\<lparr>req_run := False, req_no_abort := False\<rparr>,
                 single := req_single (req ?h), clear_override := req_clear_override (req ?h),
                 ov_mode := req_ov_mode (req ?h), ov_shuffle := req_ov_shuffle (req ?h),
                 ov_pause := req_ov_pause (req ?h), ov_pfs := req_ov_pfs (req ?h),
                 consec_fail := 0, skip_active := False\<rparr>"
  define t0 where "t0 = (if job_active e1 \<and> \<not> req_no_abort (req ?h) then emit SendStopJob ?s1 else ?s1)"
  define t where "t = (if sd_mounts e1 then t0\<lparr>sd_hold := True\<rparr> else t0)"
  have t: "pub t = pub s" "req_run (req t) = False" "req_stop (req t) = False"
    "single t = False" "folder t = folder s"
    using rq fo pb assms(1,3) by (simp_all add: t_def t0_def)
  have "loadPlaylist e1 (req_name (req s)) t = (False, t)"
    using assms(5) t(5) by (simp add: loadPlaylist_loaded)
  then have "poll_run e1 ?h = finish t"
    using t(4) rq unfolding poll_run_def t_def t0_def Let_def by simp
  then have s1: "s1 = finish t" using assms(1,2,6) rq by (auto simp: pollLine_head Let_def)
  have "req (poll_head e2 s1) = req s1"
    using assms(7) unfolding poll_head_def
    using quiet_only_view(3,5) [OF quiet_only_led_off, of e2 "s1\<lparr>effects := []\<rparr>"]
      quiet_only_view(3,5) [OF quiet_only_hold, of e2 "poll_led_off e2 (s1\<lparr>effects := []\<rparr>)"]
    by (simp add: poll_autostart_def Let_def)
  then have "s2 = emit FlushFeedLive (poll_head e2 s1)"
    using assms(8) t(2,3) s1 by (simp add: pollLine_head Let_def)
  then show ?thesis using s1 t(1) pb by simp
qed

definition ex_restart :: playlist where
  "ex_restart = ex_running\<lparr>req := init_req\<lparr>req_run := True, req_name := ''gone''\<rparr>,
     auto := init_auto\<lparr>autostart_pending := False\<rparr>,
     pub := init_pub\<lparr>pub_active := True, pub_current := ''/a''\<rparr>\<rparr>"

lemma ex_restart_auto: "\<not> autostart_pending (auto (snd (pollLine ex_env ex_restart)))"
  by (simp add: poll_defs poll_run_def finish_def ex_restart_def ex_running_def ex_defs ex_files_def
      loadPlaylist_loaded playlist_file_def Let_def emit_def)

theorem failed_load_keeps_stale_status_witness:
  "phase (snd (pollLine ex_env (snd (pollLine ex_env ex_restart)))) = Off
   \<and> pub_active (pub (snd (pollLine ex_env (snd (pollLine ex_env ex_restart)))))"
proof -
  have "\<not> req_stop (req ex_restart)" "req_run (req ex_restart)" "\<not> req_single (req ex_restart)"
    "phase ex_restart \<noteq> Off" "pub_active (pub ex_restart)"
    "files ex_env (playlist_file (folder ex_restart) (req_name (req ex_restart))) = None"
    by (simp_all add: ex_restart_def ex_running_def ex_defs ex_files_def playlist_file_def)
  then show ?thesis
    using failed_load_keeps_stale_status [OF _ _ _ _ _ surjective_pairing ex_restart_auto surjective_pairing,
        of ex_env]
    by simp
qed

definition ex_shuffle_env :: pl_env where
  "ex_shuffle_env = ex_env\<lparr>settings := ex_settings\<lparr>set_shuffle := 1, set_clear_mode := CLEAR_NONE\<rparr>\<rparr>"

definition ex_two :: playlist where
  "ex_two = ex_item\<lparr>single := False, order := [0, 1], index := 1, resolved_index := 0,
     playlist_path := ''/playlists/p.txt'', current_path := ''/a'', req := init_req\<lparr>req_skip := True\<rparr>,
     clear_override := - 1\<rparr>"

lemma ex_two_skip: "pollLine ex_shuffle_env ex_two =
    (None, publish (ex_two\<lparr>order := [1, 0], index := 0, clear_done := False, since_home := 1,
       req := init_req, effects := []\<rparr>))"
  by (simp add: poll_defs ex_two_def ex_shuffle_env_def ex_defs advanceIndex_def runMode_def runShuffle_def
      shuffleOrder_def swap_at_def inAlarmState_def Let_def)

lemma ex_file_lines: "scanned (the (ex_files ''/playlists/p.txt'')) = [''/a'', ''/b'']"
  using ex_scanned by (simp add: ex_files_def)

text \<open>
  In loop mode with shuffle, skipping the last of two items between patterns wraps
  and reshuffles the order, but the resolved index still equals the index: the next poll
  injects the path it resolved for the old order, not the line the new order names first.
\<close>

theorem reshuffle_keeps_resolved_path:
  "\<exists>s1. pollLine ex_shuffle_env ex_two = (None, s1)
    \<and> fst (pollLine ex_shuffle_env s1) = Some (run_line ''/a'')
    \<and> scanned (the (ex_files (playlist_path s1))) ! unat (order s1 ! index s1) = ''/b''"
proof (intro exI conjI)
  show "pollLine ex_shuffle_env ex_two = (None, snd (pollLine ex_shuffle_env ex_two))"
    by (simp add: ex_two_skip)
  show "fst (pollLine ex_shuffle_env (snd (pollLine ex_shuffle_env ex_two))) = Some (run_line ''/a'')"
    unfolding ex_two_skip
    by (simp add: poll_defs ex_two_def ex_shuffle_env_def ex_defs inAlarmState_def clearFileFor_def
        choose_clear_def Let_def)
  show "scanned (the (ex_files (playlist_path (snd (pollLine ex_shuffle_env ex_two)))))
      ! unat (order (snd (pollLine ex_shuffle_env ex_two)) ! index (snd (pollLine ex_shuffle_env ex_two))) = ''/b''"
    unfolding ex_two_skip using ex_file_lines by (simp add: ex_two_def publish_def Let_def)
qed

end
