(* ===== verification/RingLog.thy ===== *)
theory RingLog
  imports Prelude
begin

text \<open>
  FluidNC/src/RingLog.cpp: the in-memory ring of the most recent log bytes. The detailed
  state is the array with its write index and its saturating count; its meaning is the
  list of the bytes kept, oldest first.
\<close>

section \<open>The ring\<close>

definition kCapacity :: nat where
  "kCapacity = 8192"

record ring =
  ring_buf :: "char list"
  ring_head :: nat
  ring_count :: nat

definition ring_init :: ring where
  "ring_init = \<lparr>ring_buf = replicate kCapacity NUL, ring_head = 0, ring_count = 0\<rparr>"

definition ringPush :: "char \<Rightarrow> ring \<Rightarrow> ring" where
  "ringPush c s =
     (let s1 = s\<lparr>ring_buf := (ring_buf s)[ring_head s := c],
                 ring_head := (ring_head s + 1) mod kCapacity\<rparr>
      in if ring_count s1 < kCapacity then s1\<lparr>ring_count := ring_count s1 + 1\<rparr> else s1)"

text \<open>
  \<open>print_msg\<close>: \<open>message_level\<close> is the channel's level and \<open>millis\<close> the uptime; the message
  is a C string. The prefix fits its 16 bytes: the uptime in seconds has at most 7 digits.
\<close>

definition log_prefix :: "u32 \<Rightarrow> string" where
  "log_prefix millis = ''[+'' @ decimal (unat (millis div 1000)) @ ''] ''"

definition print_msg :: "int \<Rightarrow> u32 \<Rightarrow> int \<Rightarrow> string \<Rightarrow> ring \<Rightarrow> ring" where
  "print_msg message_level millis level msg s =
     (if message_level < level then s
      else ringPush (CHR 0x0A)
             (foldl (\<lambda>r c. ringPush c r)
               (foldl (\<lambda>r c. ringPush c r) s (log_prefix millis)) (c_str msg)))"

text \<open>The two loops of \<open>snapshot\<close>.\<close>

function skip_partial :: "ring \<Rightarrow> nat \<Rightarrow> nat \<Rightarrow> nat" where
  "skip_partial s start i =
     (if i < ring_count s \<and> ring_buf s ! ((start + i) mod kCapacity) \<noteq> CHR 0x0A
      then skip_partial s start (i + 1) else i)"
  by auto
termination by (relation "measure (\<lambda>(s, start, i). ring_count s - i)") auto

function copy_out :: "ring \<Rightarrow> nat \<Rightarrow> nat \<Rightarrow> nat \<Rightarrow> string \<Rightarrow> string" where
  "copy_out s start outlen i out =
     (if i < ring_count s \<and> length out < outlen
      then copy_out s start outlen (i + 1) (out @ [ring_buf s ! ((start + i) mod kCapacity)])
      else out)"
  by auto
termination by (relation "measure (\<lambda>(s, start, outlen, i, out). ring_count s - i)") auto

declare skip_partial.simps [simp del] copy_out.simps [simp del]

definition snapshot :: "nat \<Rightarrow> ring \<Rightarrow> string" where
  "snapshot outlen s =
     (let start = (ring_head s + kCapacity - ring_count s) mod kCapacity;
          i = (if ring_count s = kCapacity then skip_partial s start 0 + 1 else 0)
      in copy_out s start outlen i [])"

section \<open>The meaning of a ring\<close>

definition ring_wf :: "ring \<Rightarrow> bool" where
  "ring_wf s \<longleftrightarrow> length (ring_buf s) = kCapacity \<and> ring_head s < kCapacity \<and> ring_count s \<le> kCapacity"

definition ring_start :: "ring \<Rightarrow> nat" where
  "ring_start s = (ring_head s + kCapacity - ring_count s) mod kCapacity"

definition contents :: "ring \<Rightarrow> string" where
  "contents s = map (\<lambda>i. ring_buf s ! ((ring_start s + i) mod kCapacity)) [0..<ring_count s]"

definition last_n :: "nat \<Rightarrow> 'a list \<Rightarrow> 'a list" where
  "last_n n xs = drop (length xs - n) xs"

lemma kCapacity_pos [simp]: "0 < kCapacity"
  by (simp add: kCapacity_def)

lemma last_n_append_last_n: "last_n n (last_n n xs @ ys) = last_n n (xs @ ys)"
  by (simp add: last_n_def) (metis add.commute add_diff_cancel_right' diff_diff_left diff_is_0_eq'
      diff_le_self drop_drop le_add_diff_inverse2 nat_le_linear ordered_cancel_comm_monoid_diff_class.diff_add_assoc2)

text \<open>
  A bounded log: appending keeps the last entries. The rest of the development relies on
  this interface only.
\<close>

locale bounded_log =
  fixes push :: "'a \<Rightarrow> 's \<Rightarrow> 's"
    and view :: "'s \<Rightarrow> 'a list"
    and wf :: "'s \<Rightarrow> bool"
    and cap :: nat
  assumes push_wf: "wf s \<Longrightarrow> wf (push x s)"
    and push_view: "wf s \<Longrightarrow> view (push x s) = last_n cap (view s @ [x])"
    and view_cap: "wf s \<Longrightarrow> length (view s) \<le> cap"
begin

definition push_all :: "'a list \<Rightarrow> 's \<Rightarrow> 's" where
  "push_all xs s = foldl (\<lambda>r c. push c r) s xs"

lemma push_all_wf: "wf s \<Longrightarrow> wf (push_all xs s)"
  by (induction xs arbitrary: s) (simp_all add: push_all_def push_wf)

lemma push_all_view: "wf s \<Longrightarrow> view (push_all xs s) = last_n cap (view s @ xs)"
proof (induction xs arbitrary: s)
  case Nil
  then show ?case using view_cap by (simp add: push_all_def last_n_def)
next
  case (Cons x xs)
  have "view (push_all (x # xs) s) = view (push_all xs (push x s))" by (simp add: push_all_def)
  also have "\<dots> = last_n cap (last_n cap (view s @ [x]) @ xs)"
    using Cons by (simp add: push_wf push_view)
  also have "\<dots> = last_n cap (view s @ x # xs)" by (simp add: last_n_append_last_n)
  finally show ?case .
qed

end

lemma ring_init_wf: "ring_wf ring_init"
  by (simp add: ring_wf_def ring_init_def)

lemma contents_init [simp]: "contents ring_init = []"
  by (simp add: contents_def ring_init_def)

lemma ringPush_wf: "ring_wf s \<Longrightarrow> ring_wf (ringPush c s)"
  by (auto simp: ring_wf_def ringPush_def Let_def)

lemma mod_once: "a < 2 * n \<Longrightarrow> a mod n = (if a < n then a else a - n)" for a n :: nat
  by (simp add: mod_if)

lemma ring_start_eq:
  assumes "ring_wf s"
  shows "ring_start s = (if ring_count s \<le> ring_head s then ring_head s - ring_count s
                         else ring_head s + kCapacity - ring_count s)"
  using assms mod_once [of "ring_head s + kCapacity - ring_count s" kCapacity]
  by (auto simp: ring_start_def ring_wf_def)

lemma ring_start_less: "ring_start s < kCapacity"
  by (simp add: ring_start_def)

lemma ring_slot:
  assumes "ring_wf s" "i < kCapacity"
  shows "(ring_start s + i) mod kCapacity =
    (if ring_start s + i < kCapacity then ring_start s + i else ring_start s + i - kCapacity)"
  using assms ring_start_less [of s] by (intro mod_once) simp

lemma ring_slot_head:
  assumes "ring_wf s" "i < ring_count s" "ring_count s < kCapacity"
  shows "(ring_start s + i) mod kCapacity \<noteq> ring_head s"
  using assms ring_slot [OF assms(1), of i] ring_start_eq [OF assms(1)]
  by (auto simp: ring_wf_def)

lemma ring_slot_next:
  assumes "ring_wf s" "ring_count s < kCapacity"
  shows "(ring_start s + ring_count s) mod kCapacity = ring_head s"
  using assms ring_slot [OF assms] ring_start_eq [OF assms(1)]
  by (auto simp: ring_wf_def)

lemma contents_push_room:
  assumes "ring_wf s" "ring_count s < kCapacity"
  shows "contents (ringPush c s) = contents s @ [c]"
proof -
  let ?s' = "ringPush c s"
  have s': "ring_buf ?s' = (ring_buf s)[ring_head s := c]" "ring_count ?s' = ring_count s + 1"
    "ring_head ?s' = (ring_head s + 1) mod kCapacity"
    using assms(2) by (simp_all add: ringPush_def Let_def)
  have st: "ring_start ?s' = ring_start s"
    using ring_start_eq [OF ringPush_wf [OF assms(1)], of c] ring_start_eq [OF assms(1)] assms
    by (auto simp: s' ring_wf_def mod_once mod_if)
  have "ring_buf ?s' ! ((ring_start s + i) mod kCapacity) = ring_buf s ! ((ring_start s + i) mod kCapacity)"
    if "i < ring_count s" for i
    using ring_slot_head [OF assms(1) that assms(2)] s' by simp
  moreover have "ring_buf ?s' ! ((ring_start s + ring_count s) mod kCapacity) = c"
    using ring_slot_next [OF assms] assms(1) s' by (simp add: ring_wf_def)
  ultimately show ?thesis by (simp add: contents_def st s')
qed

lemma contents_push_full:
  assumes "ring_wf s" "ring_count s = kCapacity"
  shows "contents (ringPush c s) = tl (contents s) @ [c]"
proof -
  let ?s' = "ringPush c s" and ?h = "ring_head s"
  have s': "ring_buf ?s' = (ring_buf s)[?h := c]" "ring_count ?s' = kCapacity"
    "ring_head ?s' = (?h + 1) mod kCapacity"
    using assms(2) by (simp_all add: ringPush_def Let_def)
  have h: "?h < kCapacity" "length (ring_buf s) = kCapacity" using assms(1) by (simp_all add: ring_wf_def)
  have st: "ring_start s = ?h" "ring_start ?s' = (?h + 1) mod kCapacity"
    using assms(2) h s' by (simp_all add: ring_start_def)
  obtain n where n: "kCapacity = Suc n" using kCapacity_pos gr0_conv_Suc by blast
  have slot: "((?h + 1) mod kCapacity + i) mod kCapacity = (?h + Suc i) mod kCapacity" for i
    by (simp add: mod_simps)
  have ne: "(?h + Suc i) mod kCapacity \<noteq> ?h" if "i < n" for i
    using that h n mod_once [of "?h + Suc i" kCapacity] by auto
  have "contents ?s' = map (\<lambda>i. (ring_buf s)[?h := c] ! ((?h + Suc i) mod kCapacity)) [0..<Suc n]"
    unfolding contents_def s' st slot by (simp only: n)
  also have "\<dots> = map (\<lambda>i. ring_buf s ! ((?h + Suc i) mod kCapacity)) [0..<n] @ [c]"
  proof -
    have "(?h + Suc n) mod kCapacity = ?h" using h n by (simp flip: n)
    then have "(ring_buf s)[?h := c] ! ((?h + Suc n) mod kCapacity) = c" using h by simp
    moreover have "map (\<lambda>i. (ring_buf s)[?h := c] ! ((?h + Suc i) mod kCapacity)) [0..<n] =
        map (\<lambda>i. ring_buf s ! ((?h + Suc i) mod kCapacity)) [0..<n]"
      using ne by (intro map_cong refl) (metis atLeastLessThan_iff atLeastLessThan_upt nth_list_update_neq)
    ultimately show ?thesis by (simp only: upt_Suc_append [OF le0] map_append list.map)
  qed
  also have "map (\<lambda>i. ring_buf s ! ((?h + Suc i) mod kCapacity)) [0..<n] = tl (contents s)"
    unfolding contents_def st assms(2) n by (simp add: map_tl [symmetric] tl_upt map_Suc_upt [symmetric] del: upt_Suc)
  finally show ?thesis .
qed

lemma length_contents [simp]: "length (contents s) = ring_count s"
  by (simp add: contents_def)

lemma contents_push:
  assumes "ring_wf s"
  shows "contents (ringPush c s) = last_n kCapacity (contents s @ [c])"
proof (cases "ring_count s < kCapacity")
  case True
  then show ?thesis using contents_push_room [OF assms] by (simp add: last_n_def)
next
  case False
  then have "ring_count s = kCapacity" using assms by (simp add: ring_wf_def)
  then show ?thesis
    using contents_push_full [OF assms, of c] kCapacity_pos
    by (cases "contents s") (auto simp: last_n_def simp flip: length_contents)
qed

interpretation ringlog: bounded_log ringPush contents ring_wf kCapacity
  by unfold_locales (auto simp: ringPush_wf contents_push, simp add: ring_wf_def)

section \<open>The snapshot\<close>

lemma skip_partial_eq:
  assumes "i \<le> ring_count s" "start = ring_start s"
  shows "skip_partial s start i = i + length (takeWhile (\<lambda>c. c \<noteq> CHR 0x0A) (drop i (contents s)))"
  using assms
proof (induction s start i rule: skip_partial.induct)
  case (1 s start i)
  show ?case
  proof (cases "i < ring_count s")
    case True
    then have d: "drop i (contents s) = ring_buf s ! ((start + i) mod kCapacity) # drop (Suc i) (contents s)"
      using 1 by (simp add: Cons_nth_drop_Suc [symmetric]) (simp add: contents_def)
    show ?thesis using 1 True by (subst skip_partial.simps) (simp add: d)
  next
    case False
    then show ?thesis using 1 by (subst skip_partial.simps) simp
  qed
qed

lemma copy_out_eq:
  assumes "start = ring_start s" "length out \<le> outlen"
  shows "copy_out s start outlen i out = out @ take (outlen - length out) (drop i (contents s))"
  using assms
proof (induction s start outlen i out rule: copy_out.induct)
  case (1 s start outlen i out)
  show ?case
  proof (cases "i < ring_count s \<and> length out < outlen")
    case True
    then have d: "drop i (contents s) = ring_buf s ! ((start + i) mod kCapacity) # drop (Suc i) (contents s)"
      using 1 by (simp add: Cons_nth_drop_Suc [symmetric]) (simp add: contents_def)
    obtain m where m: "outlen - length out = Suc m" using True by (metis Suc_diff_Suc)
    then have m': "outlen - Suc (length out) = m" by simp
    show ?thesis using 1 True by (subst copy_out.simps) (simp add: d m m')
  next
    case False
    then show ?thesis using 1 by (subst copy_out.simps) auto
  qed
qed

text \<open>Dropping the partial line at the front of a full ring.\<close>

definition from_boundary :: "string \<Rightarrow> string" where
  "from_boundary t = drop 1 (dropWhile (\<lambda>c. c \<noteq> CHR 0x0A) t)"

lemma snapshot_eq:
  "snapshot outlen s = take outlen
     (if ring_count s = kCapacity then from_boundary (contents s) else contents s)"
proof -
  have "drop (length (takeWhile P t) + 1) t = drop 1 (dropWhile P t)" for P and t :: string
    by (simp add: dropWhile_eq_drop)
  then show ?thesis
    unfolding snapshot_def Let_def ring_start_def [symmetric]
    by (simp add: copy_out_eq skip_partial_eq from_boundary_def)
qed

section \<open>Properties\<close>

text \<open>The text one logged message adds.\<close>

definition log_line :: "u32 \<Rightarrow> string \<Rightarrow> string" where
  "log_line millis msg = log_prefix millis @ c_str msg @ [CHR 0x0A]"

definition log_all :: "(u32 \<times> string) list \<Rightarrow> ring" where
  "log_all ms = foldl (\<lambda>r (t, msg). print_msg 1 t 1 msg r) ring_init ms"

lemma print_msg_push: "print_msg lv t lv msg s = ringlog.push_all (log_line t msg) s"
  by (simp add: print_msg_def log_line_def ringlog.push_all_def)

text \<open>
  C37. Logging any number of messages into the fresh ring leaves exactly the last 8192 bytes
  of all the lines logged, whatever the wrap-arounds of the write index; a snapshot into a
  buffer of at least that size returns them, without the partial line at the front once
  the ring is full.
\<close>

theorem ring_keeps_last_bytes:
  "contents (log_all ms) = last_n kCapacity (concat (map (\<lambda>(t, msg). log_line t msg) ms))
   \<and> (let kept = contents (log_all ms)
      in snapshot kCapacity (log_all ms) =
         (if length kept = kCapacity then from_boundary kept else kept))"
proof -
  have "foldl (\<lambda>r (t, msg). print_msg 1 t 1 msg r) s ms =
      ringlog.push_all (concat (map (\<lambda>(t, msg). log_line t msg) ms)) s" for s
    by (induction ms arbitrary: s) (auto simp: print_msg_push ringlog.push_all_def)
  then have a: "log_all ms = ringlog.push_all (concat (map (\<lambda>(t, msg). log_line t msg) ms)) ring_init"
    by (simp add: log_all_def)
  have wf: "ring_wf (log_all ms)" using ringlog.push_all_wf [OF ring_init_wf] a by simp
  then have "length (contents (log_all ms)) \<le> kCapacity" by (simp add: ring_wf_def)
  moreover have "length (from_boundary t) \<le> length t" for t
    by (simp add: from_boundary_def dropWhile_eq_drop)
  ultimately have "take kCapacity (from_boundary (contents (log_all ms))) = from_boundary (contents (log_all ms))"
    using le_trans take_all by blast
  moreover have "take kCapacity (contents (log_all ms)) = contents (log_all ms)"
    using \<open>length (contents (log_all ms)) \<le> kCapacity\<close> by simp
  ultimately have "snapshot kCapacity (log_all ms) = (let kept = contents (log_all ms)
      in if length kept = kCapacity then from_boundary kept else kept)"
    unfolding snapshot_eq Let_def length_contents by simp
  moreover have "contents (log_all ms) =
      last_n kCapacity (concat (map (\<lambda>(t, msg). log_line t msg) ms))"
    using ringlog.push_all_view [OF ring_init_wf] a by simp
  ultimately show ?thesis by (simp add: Let_def)
qed

end
