(* ===== verification/HttpRange.thy ===== *)
theory HttpRange
  imports Prelude
begin

text \<open>
  FluidNC/src/HttpRange.cpp: parsing a Range header against a file size. A C string is a
  list without NUL, so reading the terminator is reading past the list. \<open>size_t\<close> is 32 bits.
\<close>

section \<open>Definitions\<close>

datatype range_result = RNone | RUnsatisfiable | RPartial u32 u32

definition dec_digit :: "char \<Rightarrow> u32" where
  "dec_digit c = of_nat (byte c - 48)"

definition SIZE_MAX32 :: u32 where
  "SIZE_MAX32 = - 1"

fun parse_digits :: "u32 \<Rightarrow> string \<Rightarrow> u32 \<times> string" where
  "parse_digits v [] = (v, [])"
| "parse_digits v (c # p) =
     (if is_dec c then
        parse_digits
          (if v > (SIZE_MAX32 - dec_digit c) div 10 then SIZE_MAX32 else v * 10 + dec_digit c) p
      else (v, c # p))"

definition parseNum :: "string \<Rightarrow> (u32 \<times> string) option" where
  "parseNum p = (if p = [] \<or> \<not> is_dec (hd p) then None else Some (parse_digits 0 p))"

definition parse_range :: "string option \<Rightarrow> u32 \<Rightarrow> range_result" where
  "parse_range hdr fileSize =
     (case hdr of
        None \<Rightarrow> RNone
      | Some v \<Rightarrow>
          if take 6 v \<noteq> ''bytes='' then RNone
          else let p = drop 6 v in
          if CHR '','' \<in> set p then RNone
          else if p \<noteq> [] \<and> hd p = CHR ''-'' then
            (case parseNum (tl p) of
               None \<Rightarrow> RNone
             | Some (n, q) \<Rightarrow>
                 if q \<noteq> [] then RNone
                 else if n = 0 \<or> fileSize = 0 then RUnsatisfiable
                 else let len = (if n < fileSize then n else fileSize)
                      in RPartial (fileSize - len) len)
          else
            (case parseNum p of
               None \<Rightarrow> RNone
             | Some (first, q) \<Rightarrow>
                 if q = [] \<or> hd q \<noteq> CHR ''-'' then RNone
                 else if tl q = [] then
                   (if first \<ge> fileSize then RUnsatisfiable else RPartial first (fileSize - first))
                 else
                   (case parseNum (tl q) of
                      None \<Rightarrow> RNone
                    | Some (final, r) \<Rightarrow>
                        if r \<noteq> [] \<or> final < first then RNone
                        else if first \<ge> fileSize then RUnsatisfiable
                        else let final' = (if final \<ge> fileSize then fileSize - 1 else final)
                             in RPartial first (final' - first + 1))))"

section \<open>Saturation\<close>

lemma unat_of_nat_u32: "n < 4294967296 \<Longrightarrow> unat (of_nat n :: u32) = n"
  by (simp add: unsigned_of_nat take_bit_nat_eq_self)

lemma unat_bound_u32: "unat (w :: u32) < 4294967296"
  using unsigned_less [of w, where ?'a = nat] by simp

lemma unat_dec_digit: "is_dec c \<Longrightarrow> unat (dec_digit c) = byte c - 48 \<and> unat (dec_digit c) \<le> 9"
  unfolding is_dec_def dec_digit_def using unat_of_nat_u32 [of "byte c - 48"] by linarith

lemma unat_SIZE_MAX32: "unat SIZE_MAX32 = 4294967295"
  by (simp add: SIZE_MAX32_def unsigned_minus_1_eq_mask mask_eq_exp_minus_1)

lemma saturating_step:
  assumes "is_dec c" "unat v = min a 4294967295"
  shows "unat (if v > (SIZE_MAX32 - dec_digit c) div 10 then SIZE_MAX32 else v * 10 + dec_digit c)
    = min (a * 10 + (byte c - 48)) 4294967295"
proof -
  let ?d = "unat (dec_digit c)"
  have d: "?d = byte c - 48" "?d \<le> 9" using unat_dec_digit [OF assms(1)] by auto
  have "dec_digit c \<le> SIZE_MAX32" by (simp add: SIZE_MAX32_def)
  then have m: "unat ((SIZE_MAX32 - dec_digit c) div 10) = (4294967295 - ?d) div 10"
    by (simp add: unat_div unat_sub unat_SIZE_MAX32)
  show ?thesis
  proof (cases "v > (SIZE_MAX32 - dec_digit c) div 10")
    case True
    then have "unat v > (4294967295 - ?d) div 10" using m by (simp add: word_less_nat_alt)
    then have "a > (4294967295 - ?d) div 10" using assms(2) by linarith
    then have "a * 10 + ?d \<ge> 4294967295" using d(2) by linarith
    then show ?thesis using True d by (simp add: unat_SIZE_MAX32)
  next
    case False
    then have v: "unat v \<le> (4294967295 - ?d) div 10" using m by (simp add: not_less word_le_nat_alt)
    then have "unat v = a" using assms(2) by linarith
    moreover have "unat v * 10 + ?d \<le> 4294967295" using v d(2) by linarith
    moreover from this have "unat (v * 10 + dec_digit c) = unat v * 10 + ?d"
      by (subst unat_add_lem [THEN iffD1]; simp add: unat_mult_lem [THEN iffD1])
    ultimately show ?thesis using False d by simp
  qed
qed

lemma parse_digits_value:
  "unat v = min a 4294967295 \<Longrightarrow>
   unat (fst (parse_digits v p)) = min (dec_value a p) 4294967295
   \<and> snd (parse_digits v p) = dropWhile is_dec p"
proof (induction p arbitrary: v a)
  case (Cons c p)
  show ?case
  proof (cases "is_dec c")
    case True
    then show ?thesis using Cons.IH [OF saturating_step [OF True Cons.prems]] by simp
  qed (use Cons.prems in simp)
qed simp

lemma parseNum_value:
  assumes "parseNum p = Some (v, q)"
  shows "unat v = min (dec_value 0 p) 4294967295" "q = dropWhile is_dec p"
  using assms parse_digits_value [of 0 0 p] by (auto simp: parseNum_def split: if_splits)

text \<open>
  A number of any length parses to its value, or to the largest 32-bit value when it
  does not fit: it never wraps into a small offset.
\<close>

theorem parse_number_saturates:
  "p \<noteq> [] \<and> list_all is_dec p \<Longrightarrow>
   map_option (\<lambda>(v, q). (unat v, q)) (parseNum p) = Some (min (dec_value 0 p) 4294967295, [])"
  using parse_digits_value [of 0 0 p]
  by (cases p) (auto simp: parseNum_def case_prod_beta list_all_iff dropWhile_eq_Nil_conv)

theorem parse_number_saturates_witness:
  "map_option (\<lambda>(v, q). (unat v, q)) (parseNum ''99999999999'') = Some (4294967295, [])"
  using parse_number_saturates [of "''99999999999''"] by (simp add: is_dec_def)

text \<open>
  Whatever the header, a partial result is a non-empty range inside the file: its start
  and its length add up to at most the file size, without wrapping.
\<close>

theorem range_inside_file:
  assumes "parse_range hdr fileSize = RPartial start len"
  shows "0 < unat len \<and> unat start + unat len \<le> unat fileSize"
proof -
  have a: "0 < unat len \<and> unat start + unat len \<le> unat fileSize"
    if "start = fileSize - len" "len \<noteq> 0" "len \<le> fileSize"
    using that by (simp add: unat_sub word_le_nat_alt unat_gt_0)
  have o: "0 < unat (fileSize - start) \<and> unat start + unat (fileSize - start) \<le> unat fileSize"
    if "start < fileSize"
    using that by (simp add: unat_sub word_less_nat_alt less_imp_le)
  have b: "0 < unat (l - f + 1) \<and> unat f + unat (l - f + 1) \<le> unat fileSize"
    if "f \<le> l" "l < fileSize" for f l
  proof -
    have lf: "unat (l - f) = unat l - unat f" using that by (simp add: unat_sub)
    have le: "unat f \<le> unat l" "unat l < unat fileSize"
      using that by (simp_all add: word_le_nat_alt word_less_nat_alt)
    have "unat (l - f + 1) = unat (l - f) + 1"
      using lf le unat_bound_u32 [of fileSize] by (subst unat_add_lem [THEN iffD1]) simp_all
    then show ?thesis using lf le by simp
  qed
  show ?thesis
    using assms a b o
    by (auto simp: parse_range_def Let_def not_less not_le word_gt_0
        split: option.splits if_split_asm prod.splits)
qed

theorem range_inside_file_witness:
  "parse_range (Some ''bytes=5-99'') 20 = RPartial 5 15 \<and> unat (5 :: u32) + unat (15 :: u32) \<le> unat (20 :: u32)"
proof -
  have p: "parse_range (Some ''bytes=5-99'') 20 = RPartial 5 15"
    by (simp add: parse_range_def parseNum_def is_dec_def dec_digit_def SIZE_MAX32_def Let_def)
  from range_inside_file [OF p] p show ?thesis by simp
qed

lemma parseNum_decimal:
  assumes "q = [] \<or> \<not> is_dec (hd q)"
  shows "\<exists>v. parseNum (decimal n @ q) = Some (v, q) \<and> unat v = min n 4294967295"
proof -
  have h: "is_dec (hd (decimal n @ q))"
    using decimal_digits [of n] by (cases "decimal n") auto
  then obtain v r where p: "parseNum (decimal n @ q) = Some (v, r)"
    by (cases "parse_digits 0 (decimal n @ q)") (simp add: parseNum_def)
  then have "r = q" "unat v = min n 4294967295"
    using parseNum_value [OF p] dropWhile_dec [OF decimal_digits assms] assms
      dec_value_stop [OF decimal_digits assms, of 0 n] dec_value_decimal [of n] by simp_all
  with p show ?thesis by blast
qed

text \<open>What RFC 7233 asks for one closed range: an invalid one is ignored, one beyond the end
  cannot be satisfied, and the rest is cut at the end of the file.\<close>

definition closed_range :: "nat \<Rightarrow> nat \<Rightarrow> nat \<Rightarrow> range_result" where
  "closed_range a b fs =
     (if b < a then RNone
      else if fs \<le> a then RUnsatisfiable
      else RPartial (of_nat a) (of_nat (min b (fs - 1) - a + 1)))"

lemma of_nat_unat: "of_nat (unat w) = (w :: u32)"
  by simp

text \<open>
  A header that asks for the bytes a to b, written in decimal with any number of
  digits for b, gets what the standard asks for.
\<close>

theorem closed_range_served:
  assumes "a < 4294967296"
  shows "parse_range (Some (''bytes='' @ decimal a @ ''-'' @ decimal b)) fileSize =
    closed_range a b (unat fileSize)"
proof -
  have nd: "\<not> is_dec (CHR ''-'')" by (simp add: is_dec_def)
  obtain f where f: "parseNum (decimal a @ CHR ''-'' # decimal b) = Some (f, CHR ''-'' # decimal b)"
    "unat f = a"
    using parseNum_decimal [of "CHR ''-'' # decimal b" a] nd assms by auto
  obtain l where l: "parseNum (decimal b) = Some (l, [])" "unat l = min b 4294967295"
    using parseNum_decimal [of "[]" b] by auto
  have dash: "hd (decimal a @ CHR ''-'' # decimal b) \<noteq> CHR ''-''"
    using decimal_digits [of a] nd by (cases "decimal a") auto
  have comma: "CHR '','' \<notin> set (decimal n)" for n
    using decimal_digits [of n] by (auto simp: list_all_iff is_dec_def)
  have lt: "l < f \<longleftrightarrow> b < a" using f(2) l(2) assms by (auto simp: word_less_nat_alt min_def)
  have le: "f \<ge> fileSize \<longleftrightarrow> unat fileSize \<le> a" using f(2) by (simp add: word_le_nat_alt)
  have res: "(if l \<ge> fileSize then fileSize - 1 else l) - f + 1 = of_nat (min b (unat fileSize - 1) - a + 1)"
    if "a \<le> b" "a < unat fileSize"
  proof -
    let ?l = "if l \<ge> fileSize then fileSize - 1 else l"
    have fs: "1 \<le> fileSize" using that(2) by (simp add: word_le_nat_alt)
    have ul: "unat ?l = min b (unat fileSize - 1)"
    proof (cases "l \<ge> fileSize")
      case True
      then have "b \<ge> unat fileSize - 1" using l(2) by (simp add: word_le_nat_alt) linarith
      then show ?thesis using True fs by (simp add: unat_sub)
    next
      case False
      then show ?thesis using l(2) unat_bound_u32 [of fileSize] by (simp add: word_le_nat_alt min_def split: if_splits)
    qed
    then have "f \<le> ?l" using that f(2) by (simp add: word_le_nat_alt)
    then have "unat (?l - f) = min b (unat fileSize - 1) - a" using ul f(2) by (simp add: unat_sub)
    then have "?l - f = of_nat (min b (unat fileSize - 1) - a)" by (metis of_nat_unat)
    then show ?thesis by simp
  qed
  have "f = of_nat a" using f(2) by (metis of_nat_unat)
  then show ?thesis
    using f(1) l(1) dash comma lt le res
    by (simp add: parse_range_def closed_range_def Let_def not_less not_le)
qed

theorem closed_range_served_witness:
  "parse_range (Some (''bytes='' @ decimal 5 @ ''-'' @ decimal 99)) 20 = closed_range 5 99 20"
  using closed_range_served [of 5 99 20] by simp

end
