(* ===== verification/Regex.thy ===== *)
theory Regex
  imports Prelude
begin

text \<open>
  FluidNC/src/Regex.cpp: the matcher for setting names. A C string is a list without NUL;
  the do loops step through every suffix of the text, the empty one included.
\<close>

section \<open>Definitions\<close>

definition char_match :: "bool \<Rightarrow> char \<Rightarrow> char \<Rightarrow> bool" where
  "char_match case_sensitive a b =
     (if case_sensitive then a = b else ascii_lower a = ascii_lower b)"

function matchHere :: "string \<Rightarrow> string \<Rightarrow> bool \<Rightarrow> bool"
  and matchStar :: "string \<Rightarrow> string \<Rightarrow> bool \<Rightarrow> bool" where
  "matchHere re str cs =
     (case re of
        [] \<Rightarrow> True
      | r # re' \<Rightarrow>
          if r = CHR ''*'' then matchStar re' str cs
          else if r = CHR ''$'' \<and> re' = [] then str = []
          else (case str of
                  [] \<Rightarrow> False
                | t # str' \<Rightarrow> if char_match cs r t then matchHere re' str' cs else False))"
| "matchStar re str cs =
     (if matchHere re str cs then True
      else (case str of [] \<Rightarrow> False | t # str' \<Rightarrow> matchStar re str' cs))"
  by pat_completeness auto
termination
  by (relation "measures [\<lambda>x. case x of Inl (re, str, cs) \<Rightarrow> length re | Inr (re, str, cs) \<Rightarrow> length re,
      \<lambda>x. case x of Inl (re, str, cs) \<Rightarrow> 0 | Inr (re, str, cs) \<Rightarrow> 1,
      \<lambda>x. case x of Inl (re, str, cs) \<Rightarrow> length str | Inr (re, str, cs) \<Rightarrow> length str]") auto

declare matchHere.simps [simp del] matchStar.simps [simp del]

fun match_anywhere :: "string \<Rightarrow> string \<Rightarrow> bool \<Rightarrow> bool" where
  "match_anywhere re [] cs = matchHere re [] cs"
| "match_anywhere re (t # str) cs = (if matchHere re (t # str) cs then True else match_anywhere re str cs)"

definition regexMatch :: "string \<Rightarrow> string \<Rightarrow> bool \<Rightarrow> bool" where
  "regexMatch re str cs =
     (if re \<noteq> [] \<and> hd re = CHR ''^'' then matchHere (tl re) str cs else match_anywhere re str cs)"

section \<open>The language of a pattern\<close>

text \<open>
  The texts that begin with a match: a star stands for any characters, a dollar at the end
  of the pattern for the end of the text, any other character for itself.
\<close>

inductive begins :: "bool \<Rightarrow> string \<Rightarrow> string \<Rightarrow> bool" for cs :: bool where
  begins_end: "begins cs [] str"
| begins_star: "begins cs re str \<Longrightarrow> begins cs (CHR ''*'' # re) (skipped @ str)"
| begins_dollar: "begins cs ''$'' []"
| begins_char: "begins cs re str \<Longrightarrow> char_match cs r t \<Longrightarrow> r \<noteq> CHR ''*'' \<Longrightarrow> \<not> (r = CHR ''$'' \<and> re = [])
    \<Longrightarrow> begins cs (r # re) (t # str)"

inductive_cases begins_starE: "begins cs (CHR ''*'' # re) str"
inductive_cases begins_ConsE: "begins cs (r # re) str"

lemma matchStar_iff: "matchStar re str cs \<longleftrightarrow> (\<exists>u v. str = u @ v \<and> matchHere re v cs)"
proof (induction str)
  case Nil
  then show ?case by (subst matchStar.simps) simp
next
  case (Cons t str)
  have "(\<exists>u v. t # str = u @ v \<and> matchHere re v cs) \<longleftrightarrow>
      matchHere re (t # str) cs \<or> (\<exists>u v. str = u @ v \<and> matchHere re v cs)"
    by (metis append_Cons append_Nil append_eq_Cons_conv)
  with Cons show ?case by (subst matchStar.simps) simp
qed

lemma match_anywhere_iff: "match_anywhere re str cs \<longleftrightarrow> (\<exists>u v. str = u @ v \<and> matchHere re v cs)"
proof (induction str)
  case (Cons t str)
  have "(\<exists>u v. t # str = u @ v \<and> matchHere re v cs) \<longleftrightarrow>
      matchHere re (t # str) cs \<or> (\<exists>u v. str = u @ v \<and> matchHere re v cs)"
    by (metis append_Cons append_Nil append_eq_Cons_conv)
  with Cons show ?case by simp
qed simp

lemma matchHere_begins: "matchHere re str cs \<longleftrightarrow> begins cs re str"
proof (induction re arbitrary: str)
  case Nil
  show ?case by (subst matchHere.simps) (simp add: begins_end)
next
  case (Cons r re)
  show ?case
  proof (cases "r = CHR ''*''")
    case True
    have "begins cs (r # re) str \<longleftrightarrow> (\<exists>u v. str = u @ v \<and> begins cs re v)"
      unfolding True by (blast elim: begins_starE intro: begins_star)
    then show ?thesis using True Cons by (subst matchHere.simps) (simp add: matchStar_iff)
  next
    case ns: False
    show ?thesis
    proof (cases "r = CHR ''$'' \<and> re = []")
      case True
      then have "begins cs (r # re) str \<longleftrightarrow> str = []"
        by (auto elim: begins_ConsE intro: begins_dollar)
      then show ?thesis using True by (subst matchHere.simps) simp
    next
      case False
      have "begins cs (r # re) str \<longleftrightarrow> (\<exists>t v. str = t # v \<and> char_match cs r t \<and> begins cs re v)"
        using ns False by (auto elim: begins_ConsE intro: begins_char)
      then show ?thesis
        using ns False Cons by (subst matchHere.simps) (auto split: list.split)
    qed
  qed
qed

text \<open>
  The matcher decides the pattern language: an anchored pattern must match at the
  beginning of the text, any other somewhere in it.
\<close>

theorem regexMatch_language:
  "regexMatch re str cs \<longleftrightarrow>
    (if re \<noteq> [] \<and> hd re = CHR ''^'' then begins cs (tl re) str
     else \<exists>u v. str = u @ v \<and> begins cs re v)"
  by (simp add: regexMatch_def match_anywhere_iff matchHere_begins)

end
