(* ===== verification/UTF8.thy ===== *)
theory UTF8
  imports Prelude
begin

unbundle bit_operations_syntax

text \<open>
  FluidNC/src/UTF8.cpp: the byte-at-a-time decoder, the decoder of a whole vector and the
  encoder. The decoder's result is the code's return value with the code point: RError is
  -1, RMore is 0 and RValue is 1.
\<close>

section \<open>Definitions\<close>

datatype utf8_result = RError | RMore | RValue u32

record utf8 =
  utf8_num :: u32
  utf8_state :: nat

definition utf8_init :: utf8 where
  "utf8_init = \<lparr>utf8_num = 0, utf8_state = 0\<rparr>"

definition decode :: "u8 \<Rightarrow> utf8 \<Rightarrow> utf8_result \<times> utf8" where
  "decode ch s =
     (if utf8_state s \<noteq> 0 then
        if ch AND 0xC0 \<noteq> 0x80 then (RError, s\<lparr>utf8_state := 0\<rparr>)
        else
          let s1 = s\<lparr>utf8_state := utf8_state s - 1,
                     utf8_num := push_bit 6 (utf8_num s) OR ucast (ch AND 0x3F)\<rparr>
          in if utf8_state s1 \<noteq> 0 then (RMore, s1) else (RValue (utf8_num s1), s1)
      else if ch < 0x80 then (RValue (ucast ch), s)
      else if ch < 0xBF then (RValue (ucast ch), s)
      else if ch \<ge> 0xF8 then (RError, s)
      else if ch \<ge> 0xF0 then (RMore, s\<lparr>utf8_state := 3, utf8_num := ucast (ch AND 0x07)\<rparr>)
      else if ch \<ge> 0xE0 then (RMore, s\<lparr>utf8_state := 2, utf8_num := ucast (ch AND 0x0F)\<rparr>)
      else if ch \<ge> 0xC0 then (RMore, s\<lparr>utf8_state := 1, utf8_num := ucast (ch AND 0x1F)\<rparr>)
      else (RError, s))"

text \<open>None is the result false.\<close>

fun decode_vector :: "u8 list \<Rightarrow> utf8 \<Rightarrow> u32 option \<times> utf8" where
  "decode_vector [] s = (None, s)"
| "decode_vector (ch # rest) s =
     (case decode ch s of
        (RError, s') \<Rightarrow> (None, s')
      | (RValue v, s') \<Rightarrow> (if rest = [] then Some v else None, s')
      | (RMore, s') \<Rightarrow> decode_vector rest s')"

definition encode :: "u32 \<Rightarrow> u8 list" where
  "encode v =
     (if v \<ge> 0x110000 then []
      else if v \<ge> 0x10000 then
        [ucast (0xF0 OR (drop_bit 18 v AND 0x07)), ucast (0x80 OR (drop_bit 12 v AND 0x3F)),
         ucast (0x80 OR (drop_bit 6 v AND 0x3F)), ucast (0x80 OR (v AND 0x3F))]
      else if v \<ge> 0x800 then
        [ucast (0xE0 OR (drop_bit 12 v AND 0x0F)), ucast (0x80 OR (drop_bit 6 v AND 0x3F)),
         ucast (0x80 OR (v AND 0x3F))]
      else if v \<ge> 0x80 then
        [ucast (0xC0 OR (drop_bit 6 v AND 0x1F)), ucast (0x80 OR (v AND 0x3F))]
      else [ucast v])"

section \<open>Bytes of a sequence\<close>

text \<open>The six, three, four and five bit fields range over few values: each is checked.\<close>

definition cont_ok :: "u32 \<Rightarrow> bool" where
  "cont_ok y \<longleftrightarrow> (let ch = ucast (0x80 OR y) :: u8
     in ch AND 0xC0 = 0x80 \<and> ucast (ch AND 0x3F) = y)"

definition lead4_ok :: "u32 \<Rightarrow> bool" where
  "lead4_ok y \<longleftrightarrow> (let ch = ucast (0xF0 OR y) :: u8
     in \<not> ch < 0x80 \<and> \<not> ch < 0xBF \<and> ch \<ge> 0xF0 \<and> \<not> ch \<ge> 0xF8 \<and> ucast (ch AND 0x07) = y)"

definition lead3_ok :: "u32 \<Rightarrow> bool" where
  "lead3_ok y \<longleftrightarrow> (let ch = ucast (0xE0 OR y) :: u8
     in \<not> ch < 0x80 \<and> \<not> ch < 0xBF \<and> ch \<ge> 0xE0 \<and> \<not> ch \<ge> 0xF0 \<and> \<not> ch \<ge> 0xF8 \<and> ucast (ch AND 0x0F) = y)"

definition lead2_ok :: "u32 \<Rightarrow> bool" where
  "lead2_ok y \<longleftrightarrow> (let ch = ucast (0xC0 OR y) :: u8
     in \<not> ch < 0x80 \<and> \<not> ch < 0xBF \<and> ch \<ge> 0xC0 \<and> \<not> ch \<ge> 0xE0 \<and> \<not> ch \<ge> 0xF0 \<and> \<not> ch \<ge> 0xF8 \<and> ucast (ch AND 0x1F) = y)"

lemma cont_all: "list_all (\<lambda>k. cont_ok (of_nat k)) [0..<64]"
  by code_simp

lemma lead4_all: "list_all (\<lambda>k. lead4_ok (of_nat k)) [0..<8]"
  by code_simp

lemma lead3_all: "list_all (\<lambda>k. lead3_ok (of_nat k)) [0..<16]"
  by code_simp

lemma lead2_all: "list_all (\<lambda>k. lead2_ok (of_nat k)) [0..<32]"
  by code_simp

lemma field_bound: "unat (w AND mask k :: u32) < 2 ^ k"
proof -
  have "w AND mask k = take_bit k w" by (simp add: take_bit_eq_mask)
  then show ?thesis by (simp add: unsigned_take_bit_eq)
qed

lemma mask_values: "(0x3F :: u32) = mask 6" "(0x07 :: u32) = mask 3"
  "(0x0F :: u32) = mask 4" "(0x1F :: u32) = mask 5"
  by (simp_all add: mask_eq_exp_minus_1)

lemma cont_field: "cont_ok (w AND 0x3F)"
  using small_word [OF cont_all, of "w AND 0x3F"] field_bound [of w 6] by (simp add: mask_values)

lemma lead4_field: "lead4_ok (w AND 0x07)"
  using small_word [OF lead4_all, of "w AND 0x07"] field_bound [of w 3] by (simp add: mask_values)

lemma lead3_field: "lead3_ok (w AND 0x0F)"
  using small_word [OF lead3_all, of "w AND 0x0F"] field_bound [of w 4] by (simp add: mask_values)

lemma lead2_field: "lead2_ok (w AND 0x1F)"
  using small_word [OF lead2_all, of "w AND 0x1F"] field_bound [of w 5] by (simp add: mask_values)

section \<open>Decoding one step\<close>

lemma decode_cont:
  "decode (ucast (0x80 OR (w AND 0x3F) :: u32)) \<lparr>utf8_num = a, utf8_state = Suc (Suc n)\<rparr> =
    (RMore, \<lparr>utf8_num = push_bit 6 a OR (w AND 0x3F), utf8_state = Suc n\<rparr>)"
  "decode (ucast (0x80 OR (w AND 0x3F) :: u32)) \<lparr>utf8_num = a, utf8_state = Suc 0\<rparr> =
    (RValue (push_bit 6 a OR (w AND 0x3F)), \<lparr>utf8_num = push_bit 6 a OR (w AND 0x3F), utf8_state = 0\<rparr>)"
  using cont_field [of w] by (auto simp: decode_def cont_ok_def Let_def)

lemma decode_lead4:
  "decode (ucast (0xF0 OR (w AND 0x07) :: u32)) utf8_init =
    (RMore, \<lparr>utf8_num = w AND 0x07, utf8_state = Suc (Suc (Suc 0))\<rparr>)"
  using lead4_field [of w] by (auto simp: decode_def lead4_ok_def Let_def utf8_init_def)

lemma decode_lead3:
  "decode (ucast (0xE0 OR (w AND 0x0F) :: u32)) utf8_init =
    (RMore, \<lparr>utf8_num = w AND 0x0F, utf8_state = Suc (Suc 0)\<rparr>)"
  using lead3_field [of w] by (auto simp: decode_def lead3_ok_def Let_def utf8_init_def)

lemma decode_lead2:
  "decode (ucast (0xC0 OR (w AND 0x1F) :: u32)) utf8_init =
    (RMore, \<lparr>utf8_num = w AND 0x1F, utf8_state = Suc 0\<rparr>)"
  using lead2_field [of w] by (auto simp: decode_def lead2_ok_def Let_def utf8_init_def)

lemmas decode_steps = decode_cont decode_lead4 decode_lead3 decode_lead2

lemma decode4: "fst (decode_vector
        [ucast (0xF0 OR (drop_bit 18 v AND 0x07) :: u32), ucast (0x80 OR (drop_bit 12 v AND 0x3F) :: u32),
         ucast (0x80 OR (drop_bit 6 v AND 0x3F) :: u32), ucast (0x80 OR (v AND 0x3F) :: u32)] utf8_init) =
    Some (push_bit 6 (push_bit 6 (push_bit 6 (drop_bit 18 v AND 0x07) OR (drop_bit 12 v AND 0x3F))
      OR (drop_bit 6 v AND 0x3F)) OR (v AND 0x3F))"
  by (simp only: decode_vector.simps decode_steps prod.case utf8_result.case simp_thms if_True fst_conv)

lemma decode3: "fst (decode_vector
        [ucast (0xE0 OR (drop_bit 12 v AND 0x0F) :: u32), ucast (0x80 OR (drop_bit 6 v AND 0x3F) :: u32),
         ucast (0x80 OR (v AND 0x3F) :: u32)] utf8_init) =
    Some (push_bit 6 (push_bit 6 (drop_bit 12 v AND 0x0F) OR (drop_bit 6 v AND 0x3F)) OR (v AND 0x3F))"
  by (simp only: decode_vector.simps decode_steps prod.case utf8_result.case simp_thms if_True fst_conv)

lemma decode2: "fst (decode_vector
        [ucast (0xC0 OR (drop_bit 6 v AND 0x1F) :: u32), ucast (0x80 OR (v AND 0x3F) :: u32)] utf8_init) =
    Some (push_bit 6 (drop_bit 6 v AND 0x1F) OR (v AND 0x3F))"
  by (simp only: decode_vector.simps decode_steps prod.case utf8_result.case simp_thms if_True fst_conv)

section \<open>Reassembly\<close>

lemma bit_above: "v < 2 ^ k \<Longrightarrow> k < 32 \<Longrightarrow> bit (v :: u32) n \<Longrightarrow> n < k"
  by (metis bit_take_bit_iff less_mask_eq take_bit_eq_mask)

lemma join4:
  assumes "v < 2 ^ 21"
  shows "push_bit 6 (push_bit 6 (push_bit 6 (drop_bit 18 v AND 0x07) OR (drop_bit 12 v AND 0x3F))
      OR (drop_bit 6 v AND 0x3F)) OR (v AND 0x3F) = (v :: u32)"
  unfolding mask_values
proof (rule bit_word_eqI)
  fix n assume n: "n < LENGTH(32)"
  have above: "bit v n \<Longrightarrow> n < 21" using bit_above [OF assms] by simp
  consider "n < 6" | "6 \<le> n" "n < 12" | "12 \<le> n" "n < 18" | "18 \<le> n" by linarith
  then show "bit (push_bit 6 (push_bit 6 (push_bit 6 (drop_bit 18 v AND mask 3) OR (drop_bit 12 v AND mask 6))
      OR (drop_bit 6 v AND mask 6)) OR (v AND mask 6)) n = bit v n"
    by cases (use above n in \<open>auto simp: bit_simps\<close>)
qed

lemma join3:
  assumes "v < 2 ^ 16"
  shows "push_bit 6 (push_bit 6 (drop_bit 12 v AND 0x0F) OR (drop_bit 6 v AND 0x3F)) OR (v AND 0x3F) = (v :: u32)"
  unfolding mask_values
proof (rule bit_word_eqI)
  fix n assume n: "n < LENGTH(32)"
  have above: "bit v n \<Longrightarrow> n < 16" using bit_above [OF assms] by simp
  consider "n < 6" | "6 \<le> n" "n < 12" | "12 \<le> n" by linarith
  then show "bit (push_bit 6 (push_bit 6 (drop_bit 12 v AND mask 4) OR (drop_bit 6 v AND mask 6)) OR (v AND mask 6)) n = bit v n"
    by cases (use above n in \<open>auto simp: bit_simps\<close>)
qed

lemma join2:
  assumes "v < 2 ^ 11"
  shows "push_bit 6 (drop_bit 6 v AND 0x1F) OR (v AND 0x3F) = (v :: u32)"
  unfolding mask_values
proof (rule bit_word_eqI)
  fix n assume n: "n < LENGTH(32)"
  have above: "bit v n \<Longrightarrow> n < 11" using bit_above [OF assms] by simp
  consider "n < 6" | "6 \<le> n" by linarith
  then show "bit (push_bit 6 (drop_bit 6 v AND mask 5) OR (v AND mask 6)) n = bit v n"
    by cases (use above n in \<open>auto simp: bit_simps\<close>)
qed

section \<open>Properties\<close>

text \<open>What the code calls a codec: encoding and decoding with the values it covers.\<close>

locale codec =
  fixes enc :: "'v \<Rightarrow> 'b list"
    and dec :: "'b list \<Rightarrow> 'v option"
    and covered :: "'v \<Rightarrow> bool"
  assumes dec_enc: "covered v \<Longrightarrow> dec (enc v) = Some v"
begin

lemma enc_inj: "covered v \<Longrightarrow> covered w \<Longrightarrow> enc v = enc w \<Longrightarrow> v = w"
  by (metis dec_enc option.inject)

lemma dec_onto: "covered v \<Longrightarrow> \<exists>bs. dec bs = Some v"
  using dec_enc by blast

end

lemma utf8_roundtrip:
  assumes "v < 0x110000"
  shows "fst (decode_vector (encode v) utf8_init) = Some v"
proof -
  consider "v \<ge> 0x10000" | "v < 0x10000" "v \<ge> 0x800" | "v < 0x800" "v \<ge> 0x80" | "v < 0x80"
    by (meson not_le)
  then show ?thesis
  proof cases
    case 1
    have "v < 2 ^ 21" using assms by (rule less_trans) simp
    then have "Some v = fst (decode_vector
        [ucast (0xF0 OR (drop_bit 18 v AND 0x07)), ucast (0x80 OR (drop_bit 12 v AND 0x3F)),
         ucast (0x80 OR (drop_bit 6 v AND 0x3F)), ucast (0x80 OR (v AND 0x3F))] utf8_init)"
      unfolding decode4 by (simp only: join4)
    moreover have "encode v = [ucast (0xF0 OR (drop_bit 18 v AND 0x07)), ucast (0x80 OR (drop_bit 12 v AND 0x3F)),
         ucast (0x80 OR (drop_bit 6 v AND 0x3F)), ucast (0x80 OR (v AND 0x3F))]"
      unfolding encode_def using 1 assms by (simp only: not_le if_True if_False not_less [symmetric] simp_thms)
    ultimately show ?thesis by simp
  next
    case 2
    have "v < 2 ^ 16" using 2 by simp
    then have "Some v = fst (decode_vector
        [ucast (0xE0 OR (drop_bit 12 v AND 0x0F)), ucast (0x80 OR (drop_bit 6 v AND 0x3F)),
         ucast (0x80 OR (v AND 0x3F))] utf8_init)"
      unfolding decode3 by (simp only: join3)
    moreover have "encode v = [ucast (0xE0 OR (drop_bit 12 v AND 0x0F)), ucast (0x80 OR (drop_bit 6 v AND 0x3F)),
         ucast (0x80 OR (v AND 0x3F))]"
      unfolding encode_def using 2 assms by (simp only: not_le if_True if_False not_less [symmetric] simp_thms)
    ultimately show ?thesis by simp
  next
    case 3
    have "v < 2 ^ 11" using 3 by simp
    then have "Some v = fst (decode_vector
        [ucast (0xC0 OR (drop_bit 6 v AND 0x1F)), ucast (0x80 OR (v AND 0x3F))] utf8_init)"
      unfolding decode2 by (simp only: join2)
    moreover have "v < 0x10000" using 3(1) by (rule less_trans) simp
    moreover have "encode v = [ucast (0xC0 OR (drop_bit 6 v AND 0x1F)), ucast (0x80 OR (v AND 0x3F))]"
      unfolding encode_def using 3 assms calculation(2)
      by (simp only: not_le if_True if_False not_less [symmetric] simp_thms)
    ultimately show ?thesis by simp
  next
    case 4
    have "unat v < 128" using 4 by (simp add: word_less_nat_alt)
    then have u: "unat (ucast v :: u8) = unat v"
      by (simp add: unsigned_ucast_eq take_bit_nat_eq_self)
    have "(ucast v :: u8) < 0x80" using u \<open>unat v < 128\<close> by (simp add: word_less_nat_alt)
    moreover have "ucast (ucast v :: u8) = v"
    proof (rule unsigned_word_eqI [where ?'a = nat])
      show "unat (ucast (ucast v :: u8) :: u32) = unat v"
        using u \<open>unat v < 128\<close> by (simp add: unsigned_ucast_eq take_bit_nat_eq_self unsigned_take_bit_eq)
    qed
    ultimately have "(ucast v :: u8) < 0x80" "ucast (ucast v :: u8) = v" by auto
    moreover have "encode v = [ucast v]"
      unfolding encode_def using 4 assms less_trans [OF 4, of "0x10000"] less_trans [OF 4, of "0x800"]
      by (simp add: not_le [symmetric] leD)
    ultimately show ?thesis by (simp add: decode_def utf8_init_def)
  qed
qed

interpretation utf8: codec encode "\<lambda>bs. fst (decode_vector bs utf8_init)" "\<lambda>v. v < 0x110000"
  by unfold_locales (rule utf8_roundtrip)

text \<open>
  Every code point below 0x110000 decodes back from its encoding, so that no two of
  them share an encoding.
\<close>

theorem utf8_decode_encode:
  assumes "v < 0x110000" "w < 0x110000"
  shows "fst (decode_vector (encode v) utf8_init) = Some v \<and> (encode v = encode w \<longrightarrow> v = w)"
  using utf8_roundtrip [OF assms(1)] utf8.enc_inj [OF assms] by blast

theorem utf8_decode_encode_witness:
  "fst (decode_vector (encode 0x10FFFF) utf8_init) = Some 0x10FFFF"
  using utf8_decode_encode [of "0x10FFFF" 0] by simp

text \<open>
  A byte from 0x80 to 0xBE outside a sequence passes through as a realtime character,
  as the comment says for 0x80 to 0xBF; the last of them, 0xBF, is an error.
\<close>

theorem utf8_realtime_bytes:
  "list_all (\<lambda>k. fst (decode (of_nat k) utf8_init) = RValue (of_nat k)) [0x80..<0xBF]
   \<and> fst (decode 0xBF utf8_init) = RError"
  by code_simp

end
