(* ===== verification/DnsQuery.thy ===== *)
theory DnsQuery
  imports Prelude
begin

unbundle bit_operations_syntax

text \<open>
  FluidNC/src/DnsQuery.cpp: the captive DNS responder's parser of the first question, its
  policy and its response. A packet is the list of its bytes, None the null pointer; every
  access the code makes is guarded by the length, so that an index stands for \<open>buf[i]\<close>.
\<close>

section \<open>Definitions\<close>

record question =
  q_valid :: bool
  q_id :: u16
  q_qtype :: u16
  q_name :: string
  q_qend :: nat
  q_rd :: u8

definition no_question :: question where
  "no_question = \<lparr>q_valid = False, q_id = 0, q_qtype = 0, q_name = [], q_qend = 0, q_rd = 0\<rparr>"

datatype dns_action = AnswerA | NoData | NxDomain

definition kProbeHosts :: "string list" where
  "kProbeHosts = [''captive.apple.com'', ''www.apple.com'', ''connectivitycheck.gstatic.com'',
     ''connectivitycheck.android.com'', ''clients3.google.com'', ''www.msftconnecttest.com'',
     ''dns.msftncsi.com'', ''www.msftncsi.com'', ''detectportal.firefox.com'']"

definition isProbeHost :: "string \<Rightarrow> bool" where
  "isProbeHost name \<longleftrightarrow> list_ex (\<lambda>h. name = h) kProbeHosts"

definition rd16 :: "u8 list \<Rightarrow> nat \<Rightarrow> u16" where
  "rd16 buf i = push_bit 8 (ucast (buf ! i)) OR ucast (buf ! (i + 1))"

definition tolower_byte :: "u8 \<Rightarrow> char" where
  "tolower_byte b = ascii_lower (char_of (unat b))"

text \<open>The label loop: the name and the offset behind the root label, or None where it returns.\<close>

function qname_loop :: "u8 list \<Rightarrow> nat \<Rightarrow> string \<Rightarrow> (string \<times> nat) option" where
  "qname_loop buf off name =
     (if off \<ge> length buf then None
      else let label = buf ! off in
      if label AND 0xC0 \<noteq> 0 then None
      else if label = 0 then Some (name, off + 1)
      else if off + 1 + unat label > length buf then None
      else
        let name1 = (if name \<noteq> [] then name @ ''.'' else name);
            name2 = name1 @ map tolower_byte (take (unat label) (drop (off + 1) buf))
        in if length name2 > 255 then None
           else qname_loop buf (off + 1 + unat label) name2)"
  by auto
termination by (relation "measure (\<lambda>(buf, off, name). length buf - off)") auto

declare qname_loop.simps [simp del]

definition parse_dns :: "u8 list option \<Rightarrow> question" where
  "parse_dns packet =
     (case packet of
        None \<Rightarrow> no_question
      | Some buf \<Rightarrow>
          if length buf < 12 then no_question
          else let flagsHi = buf ! 2 in
          if flagsHi AND 0x80 \<noteq> 0 \<or> flagsHi AND 0x78 \<noteq> 0 then no_question
          else if rd16 buf 4 < 1 then no_question
          else (case qname_loop buf 12 [] of
                  None \<Rightarrow> no_question
                | Some (name, off) \<Rightarrow>
                    if off + 4 > length buf then no_question
                    else \<lparr>q_valid = True, q_id = rd16 buf 0, q_qtype = rd16 buf off, q_name = name,
                           q_qend = off + 4, q_rd = buf ! 2 AND 0x01\<rparr>))"

definition decide :: "question \<Rightarrow> bool \<Rightarrow> dns_action" where
  "decide q fallback =
     (let wantsIPv4 = (q_qtype q = 1) in
      if fallback then (if wantsIPv4 then AnswerA else NoData)
      else if isProbeHost (q_name q) then (if wantsIPv4 then AnswerA else NoData)
      else NxDomain)"

definition buildResponse :: "u8 list \<Rightarrow> question \<Rightarrow> dns_action \<Rightarrow> u8 \<Rightarrow> u8 \<Rightarrow> u8 \<Rightarrow> u8 \<Rightarrow> u8 list" where
  "buildResponse query q action ip0 ip1 ip2 ip3 =
     (if \<not> q_valid q \<or> q_qend q > length query then []
      else
        let answer = (action = AnswerA) in
        [ucast (drop_bit 8 (q_id q)), ucast (q_id q AND 0xFF), 0x84 OR (q_rd q AND 0x01),
         (if action = NxDomain then 0x03 else 0x00),
         0x00, 0x01, 0x00, (if answer then 0x01 else 0x00), 0x00, 0x00, 0x00, 0x00]
        @ take (q_qend q - 12) (drop 12 query)
        @ (if answer
           then [0xC0, 0x0C, 0x00, 0x01, 0x00, 0x01, 0x00, 0x00, 0x00, 0x1E, 0x00, 0x04, ip0, ip1, ip2, ip3]
           else []))"

section \<open>Bounds\<close>

lemma qname_loop_bound:
  "qname_loop buf off name = Some (n, off') \<Longrightarrow> off < off' \<and> off' \<le> length buf"
proof (induction buf off name rule: qname_loop.induct)
  case (1 buf off name)
  let ?l = "buf ! off"
  let ?n = "(if name \<noteq> [] then name @ ''.'' else name) @ map tolower_byte (take (unat ?l) (drop (off + 1) buf))"
  from "1.prems" have g: "off < length buf" "?l AND 0xC0 = 0"
    by (subst (asm) qname_loop.simps; auto simp: Let_def split: if_splits)+
  show ?case
  proof (cases "?l = 0")
    case True
    with "1.prems" g show ?thesis by (subst (asm) qname_loop.simps) auto
  next
    case False
    with "1.prems" g have "off + 1 + unat ?l \<le> length buf" "length ?n \<le> 255"
      and r: "qname_loop buf (off + 1 + unat ?l) ?n = Some (n, off')"
      by (subst (asm) qname_loop.simps; auto simp: Let_def split: if_splits)+
    then show ?thesis
      using "1.IH" [OF _ refl _ False _ refl refl] g by force
  qed
qed

lemma parse_dns_valid:
  assumes "q_valid (parse_dns (Some buf))"
  shows "16 < q_qend (parse_dns (Some buf))" "q_qend (parse_dns (Some buf)) \<le> length buf"
  using assms qname_loop_bound [of buf 12 "[]"]
  by (auto simp: parse_dns_def no_question_def Let_def split: option.splits if_splits)

section \<open>A query and its parse\<close>

text \<open>The wire form of a query for a name given by its labels.\<close>

definition wire_label :: "string \<Rightarrow> u8 list" where
  "wire_label l = of_nat (length l) # map (\<lambda>c. of_nat (byte c)) l"

definition wire_query :: "u16 \<Rightarrow> bool \<Rightarrow> string list \<Rightarrow> u16 \<Rightarrow> u8 list" where
  "wire_query ident rd labels qtype =
     [ucast (drop_bit 8 ident), ucast ident, (if rd then 1 else 0), 0, 0, 1, 0, 0, 0, 0, 0, 0]
     @ concat (map wire_label labels) @ [0, ucast (drop_bit 8 qtype), ucast qtype, 0, 1]"

definition label_ok :: "string \<Rightarrow> bool" where
  "label_ok l \<longleftrightarrow> 0 < length l \<and> length l < 64"

lemma tolower_wire: "tolower_byte (of_nat (byte c)) = ascii_lower c"
proof -
  have "byte c < 256" by simp
  then have "unat (of_nat (byte c) :: u8) = byte c"
    by (simp add: unsigned_of_nat take_bit_nat_eq_self)
  then show ?thesis by (simp add: tolower_byte_def)
qed

fun add_labels :: "string \<Rightarrow> string list \<Rightarrow> string" where
  "add_labels name [] = name"
| "add_labels name (l # ls) =
     add_labels ((if name \<noteq> [] then name @ ''.'' else name) @ map ascii_lower l) ls"

lemma add_labels_longer: "length name \<le> length (add_labels name ls)"
proof (induction ls arbitrary: name)
  case (Cons l ls)
  have "length name \<le> length ((if name \<noteq> [] then name @ ''.'' else name) @ map ascii_lower l)" by simp
  also have "\<dots> \<le> length (add_labels name (l # ls))" unfolding add_labels.simps by (rule Cons)
  finally show ?case .
qed simp

lemma add_labels_join:
  "add_labels name ls =
   (if ls = [] then name
    else (if name \<noteq> [] then name @ ''.'' else name) @ join_with (CHR ''.'') (map (map ascii_lower) ls))"
  if "list_all label_ok ls"
  using that
proof (induction ls arbitrary: name)
  case (Cons l ls)
  have "map ascii_lower l \<noteq> []" using Cons.prems by (auto simp: label_ok_def)
  have "list_all label_ok ls" using Cons.prems by simp
  note ih = Cons.IH [OF this, of "(if name \<noteq> [] then name @ ''.'' else name) @ map ascii_lower l"]
  show ?case
    unfolding add_labels.simps ih using \<open>map ascii_lower l \<noteq> []\<close> by (cases ls) simp_all
qed simp

lemma small_label: "list_all (\<lambda>k. (of_nat k :: u8) AND 0xC0 = 0) [0..<64]"
  by code_simp

lemma label_byte:
  assumes "label_ok l"
  shows "unat (of_nat (length l) :: u8) = length l" "(of_nat (length l) :: u8) AND 0xC0 = 0"
    "(of_nat (length l) :: u8) \<noteq> 0"
proof -
  show u: "unat (of_nat (length l) :: u8) = length l"
    using assms by (simp add: label_ok_def unsigned_of_nat take_bit_nat_eq_self)
  show "(of_nat (length l) :: u8) AND 0xC0 = 0"
    using small_word [OF small_label, of "of_nat (length l)"] u assms by (simp add: label_ok_def)
  show "(of_nat (length l) :: u8) \<noteq> 0"
    using u assms by (auto simp: label_ok_def simp flip: unsigned_eq_0_iff)
qed

lemma qname_wire:
  assumes "list_all label_ok ls" "length (add_labels name ls) \<le> 255"
  shows "qname_loop (pre @ concat (map wire_label ls) @ 0 # post) (length pre) name =
    Some (add_labels name ls, length pre + length (concat (map wire_label ls)) + 1)"
  using assms
proof (induction ls arbitrary: pre name)
  case Nil
  then show ?case by (subst qname_loop.simps) (simp add: Let_def)
next
  case (Cons l ls)
  let ?buf = "pre @ concat (map wire_label (l # ls)) @ 0 # post"
  let ?n = "(if name \<noteq> [] then name @ ''.'' else name) @ map ascii_lower l"
  have ok: "label_ok l" "list_all label_ok ls" using Cons.prems by auto
  note b = label_byte [OF ok(1)]
  have at: "?buf ! length pre = of_nat (length l)" by (simp add: wire_label_def)
  have body: "map tolower_byte (take (length l) (drop (length pre + 1) ?buf)) = map ascii_lower l"
    by (simp add: wire_label_def tolower_wire comp_def)
  have room: "length pre + 1 + length l \<le> length ?buf" by (simp add: wire_label_def)
  have c: "(length pre \<ge> length ?buf) = False" "(length pre + 1 + length l > length ?buf) = False"
    "((of_nat (length l) :: u8) = 0) = False" "((0 :: u8) \<noteq> 0) = False"
    "(length ?n > 255) = False"
    using room b Cons.prems(2) add_labels_longer [of ?n ls] by (auto simp: not_less)
  have step: "qname_loop ?buf (length pre) name = qname_loop ?buf (length pre + 1 + length l) ?n"
    by (subst qname_loop.simps, unfold Let_def at b(1,2) body c if_False, rule refl)
  have wl: "length (wire_label l) = Suc (length l)" by (simp add: wire_label_def)
  have ih: "qname_loop ?buf (length pre + 1 + length l) ?n =
      Some (add_labels name (l # ls), length pre + length (concat (map wire_label (l # ls))) + 1)"
    using Cons.IH [OF ok(2), of ?n "pre @ wire_label l"] Cons.prems(2) by (simp add: wl)
  show ?case unfolding step ih ..
qed

lemma join_bytes: "push_bit 8 (ucast (ucast (drop_bit 8 w) :: u8)) OR ucast (ucast w :: u8) = (w :: u16)"
proof (rule bit_word_eqI)
  fix n assume "n < LENGTH(16)"
  then show "bit (push_bit 8 (ucast (ucast (drop_bit 8 w) :: u8)) OR ucast (ucast w :: u8) :: u16) n = bit w n"
    by (cases "n < 8") (auto simp: bit_simps)
qed

lemma parse_wire_query:
  assumes "list_all label_ok labels"
    and "length (join_with (CHR ''.'') (map (map ascii_lower) labels)) \<le> 255"
  shows "parse_dns (Some (wire_query ident rd labels qtype)) =
    \<lparr>q_valid = True, q_id = ident, q_qtype = qtype,
     q_name = join_with (CHR ''.'') (map (map ascii_lower) labels),
     q_qend = length (wire_query ident rd labels qtype), q_rd = (if rd then 1 else 0)\<rparr>"
proof -
  let ?pre = "[ucast (drop_bit 8 ident), ucast ident, (if rd then 1 else 0), 0, 0, 1, 0, 0, 0, 0, 0, 0] :: u8 list"
  let ?ws = "concat (map wire_label labels)"
  let ?buf = "wire_query ident rd labels qtype"
  have nm: "add_labels [] labels = join_with (CHR ''.'') (map (map ascii_lower) labels)"
    using add_labels_join [OF assms(1), of "[]"] by auto
  have buf: "?buf = ?pre @ ?ws @ 0 # [ucast (drop_bit 8 qtype), ucast qtype, 0, 1]"
    by (simp add: wire_query_def)
  have pre: "length ?pre = 12" by simp
  have q: "qname_loop ?buf 12 [] = Some (add_labels [] labels, 12 + length ?ws + 1)"
    using qname_wire [OF assms(1), of "[]" ?pre "[ucast (drop_bit 8 qtype), ucast qtype, 0, 1]"] assms(2)
    unfolding nm buf pre by simp
  have len: "length ?buf = 12 + length ?ws + 1 + 4" by (simp add: wire_query_def)
  have t: "rd16 ?buf (12 + length ?ws + 1) = qtype"
    unfolding rd16_def buf using join_bytes [of qtype] by (simp add: nth_append)
  have h: "rd16 ?buf 0 = ident" "rd16 ?buf 4 = 1" "?buf ! 2 = (if rd then 1 else 0)"
    using join_bytes [of ident] by (simp_all add: rd16_def wire_query_def)
  have flags: "(if rd then 1 else 0 :: u8) AND 0x80 = 0" "(if rd then 1 else 0 :: u8) AND 0x78 = 0"
    "(if rd then 1 else 0 :: u8) AND 1 = (if rd then 1 else 0)"
    by simp_all
  show ?thesis
    unfolding parse_dns_def option.case Let_def h(3) flags h q prod.case t nm len
    by simp
qed

section \<open>Properties\<close>

text \<open>
  A query for a name given by its labels parses to that name, lower-cased and dotted,
  with the type, the identifier and the recursion bit of the query and the question ending
  where the packet ends.
\<close>

theorem dns_parse_query:
  assumes "list_all label_ok labels"
    and "length (join_with (CHR ''.'') (map (map ascii_lower) labels)) \<le> 255"
  shows "parse_dns (Some (wire_query ident rd labels qtype)) =
    \<lparr>q_valid = True, q_id = ident, q_qtype = qtype,
     q_name = join_with (CHR ''.'') (map (map ascii_lower) labels),
     q_qend = length (wire_query ident rd labels qtype), q_rd = (if rd then 1 else 0)\<rparr>"
  using parse_wire_query [OF assms] .

theorem dns_parse_query_witness:
  "q_name (parse_dns (Some (wire_query 7 True [''www'', ''apple'', ''com''] 1))) = ''www.apple.com''"
  using dns_parse_query [of "[''www'', ''apple'', ''com'']" 7 True 1]
  by (simp add: label_ok_def ascii_lower_def)

text \<open>
  Whatever bytes arrive, a valid question lies inside the packet, its response echoes
  its identifier and has the length of the question part plus one record if it answers,
  and the response itself is never taken for a query: the responder cannot answer itself.
\<close>

theorem dns_response_shape:
  assumes "q_valid (parse_dns (Some buf))"
    and "resp = buildResponse buf (parse_dns (Some buf)) action ip0 ip1 ip2 ip3"
  shows "16 < q_qend (parse_dns (Some buf)) \<and> q_qend (parse_dns (Some buf)) \<le> length buf
    \<and> length resp = q_qend (parse_dns (Some buf)) + (if action = AnswerA then 16 else 0)
    \<and> rd16 resp 0 = q_id (parse_dns (Some buf))
    \<and> \<not> q_valid (parse_dns (Some resp))"
proof -
  let ?q = "parse_dns (Some buf)"
  note b = parse_dns_valid [OF assms(1)]
  have len: "length resp = q_qend ?q + (if action = AnswerA then 16 else 0)"
    using assms b by (simp add: buildResponse_def Let_def) arith
  have "\<exists>t. resp = ucast (drop_bit 8 (q_id ?q)) # ucast (q_id ?q AND 0xFF) # (0x84 OR (q_rd ?q AND 0x01)) # t"
    using assms b by (simp add: buildResponse_def Let_def)
  then obtain t where t: "resp = ucast (drop_bit 8 (q_id ?q)) # ucast (q_id ?q AND 0xFF) # (0x84 OR (q_rd ?q AND 0x01)) # t" ..
  have m: "ucast (q_id ?q AND 0xFF) = (ucast (q_id ?q) :: u8)"
  proof -
    have ff: "(0xFF :: u16) = mask 8" by (simp add: mask_eq_exp_minus_1)
    show ?thesis unfolding ff by (rule bit_word_eqI) (simp add: bit_simps)
  qed
  have "rd16 resp 0 = q_id ?q"
    using join_bytes [of "q_id ?q"] unfolding t m rd16_def by simp
  moreover have "(0x84 OR (x AND 0x01)) AND 0x80 \<noteq> (0 :: u8)" for x :: u8
  proof -
    have "x AND 1 = 0 \<or> x AND 1 = 1" by (simp add: and_one_eq mod_2_eq_odd)
    then show ?thesis by auto
  qed
  then have "resp ! 2 AND 0x80 \<noteq> 0" unfolding t by simp
  then have "\<not> q_valid (parse_dns (Some resp))"
    by (simp add: parse_dns_def no_question_def Let_def)
  ultimately show ?thesis using b len by simp
qed

theorem dns_response_shape_witness:
  "length (buildResponse (wire_query 7 True [''a''] 1) (parse_dns (Some (wire_query 7 True [''a''] 1)))
     AnswerA 10 0 0 1) = 35"
proof -
  have p: "parse_dns (Some (wire_query 7 True [''a''] 1)) =
    \<lparr>q_valid = True, q_id = 7, q_qtype = 1, q_name = ''a'', q_qend = 19, q_rd = 1\<rparr>"
    using parse_wire_query [of "[''a'']" 7 True 1]
    by (simp add: label_ok_def ascii_lower_def wire_query_def wire_label_def)
  show ?thesis
    using dns_response_shape [of "wire_query 7 True [''a''] 1" _ AnswerA 10 0 0 1, OF _ refl] p by simp
qed

end
