(* ===== verification/Lineedit.thy ===== *)
theory Lineedit
  imports Prelude
begin

text \<open>
  FluidNC/src/lineedit.cpp: the command line editor. The pointers into the line are offsets
  from its start; \<open>le_buf\<close> is the array between \<open>startaddr\<close> and \<open>maxaddr\<close>. What the editor
  writes to the terminal is collected in \<open>le_out\<close>. The kill buffer and the word under
  completion are C strings; \<open>le_fault\<close> records a write behind the end of the kill buffer.
  The completer (\<open>num_initial_matches\<close>) is the argument \<open>nim\<close>: the number of matches of a
  key and the name of the match with the given number.
\<close>

section \<open>State\<close>

abbreviation (input) MAXHISTORY :: nat where "MAXHISTORY \<equiv> 400"
abbreviation (input) KILLBUF :: nat where "KILLBUF \<equiv> 100"
abbreviation (input) SPECIAL_UP :: int where "SPECIAL_UP \<equiv> - 20"
abbreviation (input) SPECIAL_DOWN :: int where "SPECIAL_DOWN \<equiv> - 21"
abbreviation (input) SPECIAL_LEFT :: int where "SPECIAL_LEFT \<equiv> - 22"
abbreviation (input) SPECIAL_RIGHT :: int where "SPECIAL_RIGHT \<equiv> - 23"
abbreviation (input) SPECIAL_DELETE :: int where "SPECIAL_DELETE \<equiv> - 24"
abbreviation (input) SPECIAL_HOME :: int where "SPECIAL_HOME \<equiv> - 25"
abbreviation (input) SPECIAL_END :: int where "SPECIAL_END \<equiv> - 26"

definition BS :: char where "BS = CHR 0x08"

record lineedit =
  le_editing :: bool
  le_reecho :: bool
  le_buf :: "char list"
  le_this :: nat
  le_end :: nat
  le_saved :: nat
  le_last :: "char list"
  le_kill :: string
  le_word :: string
  le_nmatches :: nat
  le_matchlen :: nat
  le_thismatch :: nat
  le_escaping :: int
  le_histnum :: int
  le_out :: string
  le_fault :: bool

type_synonym completer = "string \<Rightarrow> nat \<Rightarrow> nat \<times> string"

definition le_emits :: "string \<Rightarrow> lineedit \<Rightarrow> lineedit" where
  "le_emits cs s = s\<lparr>le_out := le_out s @ cs\<rparr>"

definition le_restart :: "lineedit \<Rightarrow> lineedit" where
  "le_restart s = s\<lparr>le_reecho := False, le_end := 0, le_this := 0, le_escaping := 0, le_histnum := - 1\<rparr>"

text \<open>The constructor, for the contents the caller's line array has.\<close>

definition le_new :: "char list \<Rightarrow> lineedit" where
  "le_new line = le_restart \<lparr>le_editing = False, le_reecho = False, le_buf = line, le_this = 0,
     le_end = 0, le_saved = 0, le_last = replicate MAXHISTORY NUL, le_kill = [], le_word = [],
     le_nmatches = 0, le_matchlen = 0, le_thismatch = 0, le_escaping = 0, le_histnum = - 1,
     le_out = [], le_fault = False\<rparr>"

section \<open>Editing the line\<close>

definition echo_line :: "lineedit \<Rightarrow> lineedit" where
  "echo_line s = le_emits (replicate (le_end s - le_this s) BS) (le_emits (take (le_end s) (le_buf s)) s)"

text \<open>The shifting loop of \<open>addchar\<close>: \<open>for (p = endaddr; --p >= thisaddr + 1;) *p = *(p - 1)\<close>.\<close>

fun shift_right :: "nat \<Rightarrow> nat \<Rightarrow> char list \<Rightarrow> char list" where
  "shift_right lo 0 buf = buf"
| "shift_right lo (Suc p) buf =
     (if p \<ge> lo + 1 then shift_right lo p (buf[p := buf ! (p - 1)]) else buf)"

definition addchar :: "bool \<Rightarrow> char \<Rightarrow> lineedit \<Rightarrow> lineedit" where
  "addchar echo c s =
     (if le_this s < length (le_buf s) then
        let e = (if le_end s < length (le_buf s) then le_end s + 1 else le_end s);
            buf = (shift_right (le_this s) e (le_buf s))[le_this s := c];
            t = le_this s + 1;
            s1 = s\<lparr>le_end := e, le_buf := buf, le_this := t\<rparr>;
            s2 = (if echo then le_emits [c] s1 else s1);
            s3 = le_emits (drop t (take e buf)) s2
        in le_emits (replicate (e - t) BS) s3
      else s)"

function erase_loop :: "nat \<Rightarrow> lineedit \<Rightarrow> lineedit" where
  "erase_loop p s =
     (if p < le_end s
      then let c = le_buf s ! (p + 1)
           in erase_loop (p + 1) (le_emits [c] (s\<lparr>le_buf := (le_buf s)[p := c]\<rparr>))
      else s)"
  by auto
termination by (relation "measure (\<lambda>(p, s). le_end s - p)") (auto simp: le_emits_def Let_def)

declare erase_loop.simps [simp del]

definition erase_char :: "lineedit \<Rightarrow> lineedit" where
  "erase_char s =
     (if le_this s > 0 then
        let t = le_this s - 1; e = le_end s - 1;
            s1 = le_emits [BS] (s\<lparr>le_this := t, le_end := e\<rparr>);
            s2 = le_emits '' '' (erase_loop t s1)
        in le_emits (replicate (e + 1 - t) BS) s2
      else s)"

definition backward_char :: "lineedit \<Rightarrow> lineedit" where
  "backward_char s = (if le_this s > 0 then (le_emits [BS] s)\<lparr>le_this := le_this s - 1\<rparr> else s)"

definition forward_char :: "lineedit \<Rightarrow> lineedit" where
  "forward_char s =
     (if le_this s < le_end s
      then (le_emits [le_buf s ! le_this s] s)\<lparr>le_this := le_this s + 1\<rparr> else s)"

definition is_word_delim :: "char \<Rightarrow> bool" where
  "is_word_delim c \<longleftrightarrow> c = CHR '' '' \<or> c = CHR ''/'' \<or> c = CHR ''='' \<or> c = CHR '',''"

text \<open>
  The loops that repeat an operation while the cursor is not at an end of the line, and
  the character next to it passes a test. The number of repetitions is bounded by the
  length of the line, which is the fuel.
\<close>

fun forward_while :: "nat \<Rightarrow> (char \<Rightarrow> bool) \<Rightarrow> lineedit \<Rightarrow> lineedit" where
  "forward_while 0 P s = s"
| "forward_while (Suc n) P s =
     (if le_this s < le_end s \<and> P (le_buf s ! le_this s) then forward_while n P (forward_char s) else s)"

fun backward_while :: "nat \<Rightarrow> (char \<Rightarrow> bool) \<Rightarrow> lineedit \<Rightarrow> lineedit" where
  "backward_while 0 P s = s"
| "backward_while (Suc n) P s =
     (if le_this s > 0 \<and> P (le_buf s ! (le_this s - 1)) then backward_while n P (backward_char s) else s)"

fun erase_while :: "nat \<Rightarrow> (char \<Rightarrow> bool) \<Rightarrow> lineedit \<Rightarrow> lineedit" where
  "erase_while 0 P s = s"
| "erase_while (Suc n) P s =
     (if le_this s > 0 \<and> P (le_buf s ! (le_this s - 1)) then erase_while n P (erase_char s) else s)"

definition to_end :: "lineedit \<Rightarrow> lineedit" where
  "to_end s = forward_while (le_end s) (\<lambda>c. True) s"

definition to_start :: "lineedit \<Rightarrow> lineedit" where
  "to_start s = backward_while (le_this s) (\<lambda>c. True) s"

definition erase_line :: "lineedit \<Rightarrow> lineedit" where
  "erase_line s =
     (let s1 = to_end s; s2 = erase_while (le_this s1) (\<lambda>c. True) s1 in s2\<lparr>le_end := 0\<rparr>)"

definition forward_word :: "lineedit \<Rightarrow> lineedit" where
  "forward_word s =
     (let n = le_end s in
      forward_while n is_word_delim
        (forward_while n (\<lambda>c. \<not> is_word_delim c) (forward_while n is_word_delim s)))"

definition backward_word :: "lineedit \<Rightarrow> lineedit" where
  "backward_word s =
     (if le_end s = 0 then s
      else let n = le_this s in
        backward_while n (\<lambda>c. \<not> is_word_delim c) (backward_while n is_word_delim s))"

definition erase_word :: "lineedit \<Rightarrow> lineedit" where
  "erase_word s =
     (let n = le_this s in
      erase_while n (\<lambda>c. \<not> is_word_delim c) (erase_while n is_word_delim s))"

text \<open>\<open>kill_forward\<close>: \<open>k\<close> is what the loop has written through \<open>p\<close>.\<close>

fun kill_loop :: "nat \<Rightarrow> string \<Rightarrow> lineedit \<Rightarrow> string \<times> lineedit" where
  "kill_loop 0 k s = (k, s)"
| "kill_loop (Suc n) k s =
     (if le_this s < le_end s
      then kill_loop n (k @ [le_buf s ! le_this s]) (erase_char (forward_char s)) else (k, s))"

definition kill_forward :: "lineedit \<Rightarrow> lineedit" where
  "kill_forward s =
     (let (k, s1) = kill_loop (le_end s) [] s
      in s1\<lparr>le_kill := k, le_fault := (le_fault s1 \<or> length k \<ge> KILLBUF)\<rparr>)"

definition yank :: "lineedit \<Rightarrow> lineedit" where
  "yank s = foldl (\<lambda>r c. addchar True c r) s (c_str (le_kill s))"

section \<open>History\<close>

definition validate_history :: "lineedit \<Rightarrow> lineedit" where
  "validate_history s =
     (if le_saved s = 0 \<or> le_saved s > MAXHISTORY \<or> list_ex (\<lambda>c. byte c \<ge> 128) (le_last s)
      then s\<lparr>le_last := replicate MAXHISTORY NUL, le_saved := 0\<rparr> else s)"

text \<open>The shift of the entries in front of the match, and the match moved to the front.\<close>

function reorder_loop :: "nat \<Rightarrow> nat \<Rightarrow> char list \<Rightarrow> char list" where
  "reorder_loop len p hist =
     (if p = 0 then hist
      else if p - 1 > len then reorder_loop len (p - 1) (hist[p - 1 := hist ! (p - 1 - len - 1)])
      else hist[p - 1 := NUL])"
  by auto
termination by (relation "measure (\<lambda>(len, p, hist). p)") auto

declare reorder_loop.simps [simp del]

definition to_front :: "char list \<Rightarrow> nat \<Rightarrow> nat \<Rightarrow> char list \<Rightarrow> char list" where
  "to_front adr len p hist = take len adr @ drop len (reorder_loop len p hist)"

function skip_entry :: "char list \<Rightarrow> nat \<Rightarrow> nat" where
  "skip_entry hist p =
     (if p + 1 < MAXHISTORY \<and> hist ! (p + 1) \<noteq> NUL then skip_entry hist (p + 1) else p + 1)"
  by auto
termination by (relation "measure (\<lambda>(hist, p). MAXHISTORY - p)") auto

declare skip_entry.simps [simp del]

lemma skip_entry_greater: "p < skip_entry hist p"
proof (induction hist p rule: skip_entry.induct)
  case (1 hist p)
  then show ?case by (subst skip_entry.simps) force
qed

text \<open>\<open>already_in_history\<close>: the new history if the line was found.\<close>

function find_entry :: "char list \<Rightarrow> nat \<Rightarrow> char list \<Rightarrow> nat \<Rightarrow> nat \<Rightarrow> nat \<Rightarrow> char list option" where
  "find_entry adr len hist p first t =
     (if p \<ge> MAXHISTORY then None
      else if hist ! p = NUL then
        (if p - first = len then Some (to_front adr len p hist)
         else if p + 1 = MAXHISTORY then None
         else find_entry adr len hist (p + 1) (p + 1) 0)
      else if t < length adr \<and> hist ! p = adr ! t then find_entry adr len hist (p + 1) first (t + 1)
      else let p' = skip_entry hist p + 1 in find_entry adr len hist p' p' 0)"
  by auto
termination
proof (relation "measure (\<lambda>(adr, len, hist, p, first, t). MAXHISTORY - p)", goal_cases)
  case (4 adr len hist p first t x)
  then show ?case using skip_entry_greater [of p hist] by auto
qed auto

declare find_entry.simps [simp del]

definition already_in_history :: "char list \<Rightarrow> nat \<Rightarrow> lineedit \<Rightarrow> bool \<times> lineedit" where
  "already_in_history adr len s =
     (if le_saved s = 0 then (False, s)
      else case find_entry adr len (le_last s) 0 0 0 of
             None \<Rightarrow> (False, s)
           | Some hist \<Rightarrow> (True, s\<lparr>le_last := hist\<rparr>))"

text \<open>The new entry with its terminator in front of the old ones, cut to the size of the array.\<close>

definition push_entry :: "char list \<Rightarrow> nat \<Rightarrow> char list \<Rightarrow> char list" where
  "push_entry adr new_length hist =
     (let shifted = take new_length hist @ take (MAXHISTORY - new_length) hist;
          cut = shifted[MAXHISTORY - 1 := NUL, new_length - 1 := NUL]
      in take (new_length - 1) adr @ drop (new_length - 1) cut)"

definition add_to_history :: "char list \<Rightarrow> nat \<Rightarrow> lineedit \<Rightarrow> lineedit" where
  "add_to_history adr len s0 =
     (let s = validate_history s0 in
      if len = 0 then s
      else let (found, s1) = already_in_history adr len s in
        if found then s1
        else let new_length = (if len + 1 > MAXHISTORY then MAXHISTORY else len + 1);
                 saved = le_saved s1 + new_length
             in s1\<lparr>le_last := push_entry adr new_length (le_last s1),
                   le_saved := (if saved > MAXHISTORY then MAXHISTORY else saved)\<rparr>)"

text \<open>The start of the history line with the given number, None where the function returns false.\<close>

function after_nul :: "char list \<Rightarrow> nat \<Rightarrow> nat" where
  "after_nul hist p = (if p < MAXHISTORY \<and> hist ! p \<noteq> NUL then after_nul hist (p + 1) else p + 1)"
  by auto
termination by (relation "measure (\<lambda>(hist, p). MAXHISTORY - p)") auto

declare after_nul.simps [simp del]

fun history_start :: "char list \<Rightarrow> nat \<Rightarrow> nat \<Rightarrow> nat \<Rightarrow> nat option" where
  "history_start hist saved 0 p = Some p"
| "history_start hist saved (Suc n) p =
     (let p' = after_nul hist p in if p' \<ge> saved then None else history_start hist saved n p')"

definition get_history :: "int \<Rightarrow> lineedit \<Rightarrow> bool \<times> lineedit" where
  "get_history num s0 =
     (let s = validate_history s0 in
      if le_saved s = 0 then (False, s)
      else if num < 0 then (False, s)
      else case history_start (le_last s) (le_saved s) (nat num) 0 of
             None \<Rightarrow> (False, s)
           | Some p \<Rightarrow>
               let entry = take (length (le_buf s) - 1) (takeWhile (\<lambda>c. c \<noteq> NUL) (drop p (le_last s)))
               in (True, foldl (\<lambda>r c. addchar True c r) (erase_line s) entry))"

section \<open>Completion\<close>

text \<open>\<open>find_word_under_cursor\<close>: the cursor moves to the end of the item name.\<close>

definition find_word_under_cursor :: "lineedit \<Rightarrow> bool \<times> lineedit" where
  "find_word_under_cursor s =
     (if le_end s = 0 \<or> le_buf s ! 0 \<noteq> CHR ''$'' then (False, s)
      else
        let w = take 99 (drop 1 (take (le_this s) (le_buf s)));
            s1 = forward_while (99 - length w) (\<lambda>c. c \<noteq> CHR ''='') s
        in (True, s1\<lparr>le_word := c_str (w @ drop (le_this s) (take (le_this s1) (le_buf s1)))\<rparr>))"

definition color :: "string \<Rightarrow> lineedit \<Rightarrow> lineedit" where
  "color c s = le_emits ([CHR 0x1B] @ ''['' @ c @ ''m'') s"

definition highlight :: "lineedit \<Rightarrow> lineedit" where
  "highlight s = color ''1;36;40'' s"

definition lowlight :: "lineedit \<Rightarrow> lineedit" where
  "lowlight s = color ''0;37;40'' s"

definition add_all :: "string \<Rightarrow> lineedit \<Rightarrow> lineedit" where
  "add_all cs s = foldl (\<lambda>r c. addchar True c r) s cs"

text \<open>The loop that adds what the matches share; \<open>todo\<close> is the rest of the first match's name.\<close>

fun common_loop :: "completer \<Rightarrow> string \<Rightarrow> string \<Rightarrow> lineedit \<Rightarrow> string \<times> string \<times> lineedit" where
  "common_loop nim word [] s = (word, [], s)"
| "common_loop nim word (c # todo) s =
     (if le_nmatches s \<noteq> fst (nim (word @ [c]) 0) then (word, c # todo, s)
      else common_loop nim (word @ [c]) todo (addchar True c s))"

definition complete_word :: "completer \<Rightarrow> lineedit \<Rightarrow> lineedit" where
  "complete_word nim s =
     (let (ok, s1) = find_word_under_cursor s in
      if \<not> ok then s1
      else
        let word = le_word s1; (n, name) = nim word 0; s2 = s1\<lparr>le_nmatches := n\<rparr> in
        if n = 0 then s2
        else
          let s3 = s2\<lparr>le_matchlen := length name\<rparr>; rest = drop (length word) name in
          if n = 1 then (add_all rest s3)\<lparr>le_nmatches := 0\<rparr>
          else
            let (word', rest', s4) = common_loop nim word rest s3
            in lowlight (add_all rest' (highlight (s4\<lparr>le_word := word', le_thismatch := 0\<rparr>))))"

fun erase_n :: "nat \<Rightarrow> lineedit \<Rightarrow> lineedit" where
  "erase_n 0 s = s"
| "erase_n (Suc n) s = erase_n n (erase_char s)"

definition propose_word :: "completer \<Rightarrow> lineedit \<Rightarrow> lineedit" where
  "propose_word nim s =
     (let m = (if le_thismatch s + 1 = le_nmatches s then 0 else le_thismatch s + 1);
          len = length (le_word s);
          (n, name) = nim (le_word s) m;
          s1 = erase_n (le_matchlen s - len) (s\<lparr>le_thismatch := m, le_nmatches := n\<rparr>);
          from_len = min (le_matchlen s) len
      in lowlight ((add_all (drop from_len name) (highlight s1))\<lparr>le_matchlen := max from_len (length name)\<rparr>))"

definition accept_word :: "lineedit \<Rightarrow> lineedit" where
  "accept_word s =
     (let n = le_matchlen s - length (le_word s);
          back = le_this s - n;
          s1 = lowlight (le_emits (replicate n BS) s)
      in le_emits (take n (drop back (le_buf s))) s1)"

section \<open>The keys\<close>

definition show_realtime_command :: "string \<Rightarrow> lineedit \<Rightarrow> lineedit" where
  "show_realtime_command cmd s =
     (let s1 = (if 0 < le_end s then le_emits [CHR 0x0A] s else s) in
      if cmd \<noteq> [] then echo_line (le_emits [CHR 0x0A] (le_emits cmd s1))
      else s1\<lparr>le_reecho := True\<rparr>)"

definition finish_line :: "lineedit \<Rightarrow> nat \<times> lineedit" where
  "finish_line s = (le_end s, le_restart (add_to_history (le_buf s) (le_end s) s))"

definition realtime :: "int \<Rightarrow> lineedit \<Rightarrow> bool \<times> lineedit" where
  "realtime c s =
     (if \<not> le_editing s then (True, s)
      else if le_escaping s < 0 \<and> c = 126 then (False, s)
      else (True,
        if c = 33 then show_realtime_command ''[Feedhold]'' s
        else if c = 126 then show_realtime_command ''[CycleStart]'' s
        else if c = 63 then show_realtime_command [] s
        else if c = 24 then show_realtime_command ''[Reset]'' s
        else s))"

text \<open>The last switch of \<open>step\<close>: the codes are those of the control keys and the special keys.\<close>

definition key_action :: "int \<Rightarrow> lineedit \<Rightarrow> bool \<times> lineedit" where
  "key_action c s =
     (if c = 27 then (False, s\<lparr>le_escaping := 1\<rparr>)
      else if c = 10 \<or> c = 13 then (True, le_emits [CHR 0x0A] s)
      else if c = - 1 then (True, s)
      else if c = 127 \<or> c = 8 then (False, if le_this s > 0 then erase_char s else s)
      else if c = 1 \<or> c = SPECIAL_HOME then (False, to_start s)
      else if c = 2 \<or> c = SPECIAL_LEFT then (False, backward_char s)
      else if c = 4 \<or> c = SPECIAL_DELETE
      then (False, if le_this s < le_end s then erase_char (forward_char s) else s)
      else if c = 5 \<or> c = SPECIAL_END then (False, to_end s)
      else if c = 6 \<or> c = SPECIAL_RIGHT then (False, forward_char s)
      else if c = 11 then (False, kill_forward s)
      else if c = 21 then (False, erase_line s)
      else if c = 25 then (False, yank s)
      else if c = 16 \<or> c = SPECIAL_UP then
        (let (ok, s1) = get_history (le_histnum s + 1) s
         in (False, if ok then s1\<lparr>le_histnum := le_histnum s1 + 1\<rparr> else s1))
      else if c = 14 \<or> c = SPECIAL_DOWN then
        (let (ok, s1) = get_history (le_histnum s - 1) s
         in (False, if ok then s1\<lparr>le_histnum := le_histnum s1 - 1\<rparr> else s1))
      else if c = 23 then (False, erase_word s)
      else if c \<ge> 32 then (False, addchar True (char_of (nat c)) s)
      else (False, s))"

text \<open>From the completion keys on.\<close>

definition key_completion :: "completer \<Rightarrow> int \<Rightarrow> lineedit \<Rightarrow> bool \<times> lineedit" where
  "key_completion nim c s =
     (if c = 9 then (False, if le_nmatches s \<noteq> 0 then propose_word nim s else complete_word nim s)
      else key_action c (if le_nmatches s \<noteq> 0 then (accept_word s)\<lparr>le_nmatches := 0\<rparr> else s))"

text \<open>The third character of an escape sequence: the new \<open>escaping\<close>, or the translated key.\<close>

definition escape_third :: "int \<Rightarrow> int + int" where
  "escape_third c =
     (if c = 50 then Inl SPECIAL_HOME
      else if c = 53 then Inl SPECIAL_END
      else if c = 51 then Inl SPECIAL_DELETE
      else if c = 49 \<or> c = 72 then Inr SPECIAL_HOME
      else if c = 70 \<or> c = 52 then Inr SPECIAL_END
      else if c = 65 then Inr SPECIAL_UP
      else if c = 66 then Inr SPECIAL_DOWN
      else if c = 67 then Inr SPECIAL_RIGHT
      else if c = 68 then Inr SPECIAL_LEFT
      else Inr c)"

definition key_escape :: "completer \<Rightarrow> int \<Rightarrow> lineedit \<Rightarrow> bool \<times> lineedit" where
  "key_escape nim c0 s =
     (if le_escaping s = 1 then
        let c = (if 65 \<le> c0 \<and> c0 \<le> 90 then c0 + 32 else c0) in
        if c = 91 then (False, s\<lparr>le_escaping := 2\<rparr>)
        else (False, (if c = 102 then forward_word s else if c = 98 then backward_word s else s)
                       \<lparr>le_escaping := 0\<rparr>)
      else if le_escaping s = 2 then
        (case escape_third c0 of
           Inl e \<Rightarrow> (False, s\<lparr>le_escaping := e\<rparr>)
         | Inr c \<Rightarrow> key_completion nim c (s\<lparr>le_escaping := 0\<rparr>))
      else if le_escaping s \<noteq> 0 then
        (if c0 = 126 then key_completion nim (le_escaping s) (s\<lparr>le_escaping := 0\<rparr>)
         else (False, s\<lparr>le_escaping := 0\<rparr>))
      else key_completion nim c0 s)"

definition le_step :: "completer \<Rightarrow> int \<Rightarrow> lineedit \<Rightarrow> bool \<times> lineedit" where
  "le_step nim c s =
     (if c = 12 then (False, s\<lparr>le_editing := False\<rparr>)
      else if \<not> le_editing s \<and> c \<ge> 32 then (False, addchar False (char_of (nat c)) s)
      else if \<not> le_editing s \<and> (c = 13 \<or> c = 10) then (True, s)
      else
        let s1 = (if \<not> le_editing s then s\<lparr>le_reecho := True, le_editing := True\<rparr> else s);
            s2 = (if le_reecho s1 then echo_line (s1\<lparr>le_reecho := False\<rparr>) else s1)
        in key_escape nim c s2)"

end
