(* ===== verification/LineeditView.thy ===== *)
theory LineeditView
  imports Lineedit
begin

text \<open>
  The editor against its abstract specification: a line split at the cursor, and a
  terminal that shows it. Each operation refines the operation on the split line, and what
  it writes keeps the terminal in step with the line.
\<close>

section \<open>The abstract line and the terminal\<close>

definition before :: "lineedit \<Rightarrow> string" where
  "before s = take (le_this s) (le_buf s)"

definition after :: "lineedit \<Rightarrow> string" where
  "after s = drop (le_this s) (take (le_end s) (le_buf s))"

text \<open>A terminal row: the characters left of the cursor and those from the cursor on.\<close>

type_synonym terminal = "string \<times> string"

fun tput :: "terminal \<Rightarrow> char \<Rightarrow> terminal" where
  "tput (l, r) c =
     (if c = BS then (if l = [] then (l, r) else (butlast l, last l # r)) else (l @ [c], drop 1 r))"

definition tputs :: "terminal \<Rightarrow> string \<Rightarrow> terminal" where
  "tputs t cs = foldl tput t cs"

definition plain :: "string \<Rightarrow> bool" where
  "plain cs \<longleftrightarrow> BS \<notin> set cs"

definition le_wf :: "lineedit \<Rightarrow> bool" where
  "le_wf s \<longleftrightarrow> le_this s \<le> le_end s \<and> le_end s \<le> length (le_buf s) \<and> plain (take (le_end s) (le_buf s))"

definition shows_line :: "terminal \<Rightarrow> lineedit \<Rightarrow> bool" where
  "shows_line t s \<longleftrightarrow> (\<exists>k. t = (before s, after s @ replicate k (CHR '' '')))"

definition screen :: "lineedit \<Rightarrow> terminal" where
  "screen s = tputs ([], []) (le_out s)"

definition in_step :: "lineedit \<Rightarrow> bool" where
  "in_step s \<longleftrightarrow> le_wf s \<and> shows_line (screen s) s"

lemma tputs_append: "tputs t (a @ b) = tputs (tputs t a) b"
  by (simp add: tputs_def)

lemma tputs_Nil [simp]: "tputs t [] = t"
  by (simp add: tputs_def)

lemma tputs_plain: "plain cs \<Longrightarrow> tputs (l, r) cs = (l @ cs, drop (length cs) r)"
proof (induction cs arbitrary: l r)
  case (Cons c cs)
  then have "tputs (l, r) (c # cs) = tputs (l @ [c], drop 1 r) cs" by (auto simp: tputs_def plain_def)
  with Cons show ?case by (simp add: plain_def)
qed simp

lemma tputs_back: "tputs (l @ m, r) (replicate (length m) BS) = (l, m @ r)"
proof (induction m arbitrary: r rule: rev_induct)
  case (snoc x m)
  have "tputs (l @ m @ [x], r) (replicate (length (m @ [x])) BS) = tputs (l @ m, x # r) (replicate (length m) BS)"
    by (simp add: tputs_def butlast_append)
  with snoc show ?case by simp
qed simp

lemma tputs_BS: "l \<noteq> [] \<Longrightarrow> tputs (l, r) [BS] = (butlast l, last l # r)"
  by (simp add: tputs_def)

lemma screen_emits [simp]: "screen (le_emits cs s) = tputs (screen s) cs"
  by (simp add: screen_def le_emits_def tputs_append)

lemma emits_view [simp]:
  "before (le_emits cs s) = before s" "after (le_emits cs s) = after s" "le_wf (le_emits cs s) = le_wf s"
  "le_buf (le_emits cs s) = le_buf s" "le_this (le_emits cs s) = le_this s" "le_end (le_emits cs s) = le_end s"
  "le_kill (le_emits cs s) = le_kill s" "le_fault (le_emits cs s) = le_fault s"
  by (simp_all add: le_emits_def before_def after_def le_wf_def)

lemma plain_simps [simp]:
  "plain []" "plain (a @ b) \<longleftrightarrow> plain a \<and> plain b" "plain (c # a) \<longleftrightarrow> c \<noteq> BS \<and> plain a"
  by (auto simp: plain_def)

lemma plain_take: "plain cs \<Longrightarrow> plain (take n cs)"
  by (auto simp: plain_def dest: in_set_takeD)

lemma plain_drop: "plain cs \<Longrightarrow> plain (drop n cs)"
  by (auto simp: plain_def dest: in_set_dropD)

lemma wf_split: "le_wf s \<Longrightarrow> take (le_end s) (le_buf s) = before s @ after s"
  by (simp add: before_def after_def le_wf_def) (metis append_take_drop_id min.absorb1 take_take)

lemma wf_lengths:
  assumes "le_wf s"
  shows "length (before s) = le_this s" "length (after s) = le_end s - le_this s"
  using assms by (auto simp: before_def after_def le_wf_def)

lemma wf_plain: "le_wf s \<Longrightarrow> plain (before s) \<and> plain (after s)"
  using wf_split [of s] by (simp add: le_wf_def)

text \<open>Building a state from a split line that is already in the buffer.\<close>

lemma view_of_buffer:
  assumes "take e buf = b @ a" "length b = t" "e \<le> length buf" "length b + length a = e"
    and "le_buf s = buf" "le_this s = t" "le_end s = e"
  shows "before s = b" "after s = a" "le_wf s \<longleftrightarrow> plain b \<and> plain a"
proof -
  have "take t buf = b" using assms by (metis append_eq_conv_conj le_add1 min.absorb1 take_take)
  then show "before s = b" by (simp add: before_def assms)
  show "after s = a" by (simp add: after_def assms)
  show "le_wf s \<longleftrightarrow> plain b \<and> plain a" using assms by (simp add: le_wf_def)
qed

section \<open>Insertion\<close>

definition ins :: "nat \<Rightarrow> char \<Rightarrow> string \<times> string \<Rightarrow> string \<times> string" where
  "ins cap c ba =
     (if length (fst ba) < cap then (fst ba @ [c], take (cap - length (fst ba) - 1) (snd ba)) else ba)"

lemma length_shift_right [simp]: "length (shift_right lo p buf) = length buf"
  by (induction lo p buf rule: shift_right.induct) auto

lemma shift_right_nth:
  "p \<le> length buf \<Longrightarrow> i < length buf \<Longrightarrow>
   shift_right lo p buf ! i = (if lo < i \<and> i < p then buf ! (i - 1) else buf ! i)"
proof (induction lo p buf rule: shift_right.induct)
  case (2 lo p buf)
  then show ?case by (auto simp: nth_list_update less_Suc_eq)
qed auto

lemma addchar_buffer:
  assumes "le_wf s" "le_this s < length (le_buf s)"
    and "e = (if le_end s < length (le_buf s) then le_end s + 1 else le_end s)"
    and "buf = (shift_right (le_this s) e (le_buf s))[le_this s := c]"
  shows "take e buf = before s @ c # take (length (le_buf s) - le_this s - 1) (after s)"
    "length buf = length (le_buf s)" "e \<le> length buf" "le_this s < e"
    "e = le_this s + 1 + length (take (length (le_buf s) - le_this s - 1) (after s))"
proof -
  let ?t = "le_this s" and ?n = "length (le_buf s)"
  have w: "?t \<le> le_end s" "le_end s \<le> ?n" using assms(1) by (auto simp: le_wf_def)
  show len: "length buf = ?n" by (simp add: assms(4))
  show e: "e \<le> length buf" "?t < e" using w assms(2,3) len by auto
  show e2: "e = ?t + 1 + length (take (?n - ?t - 1) (after s))"
    using w assms(2,3) wf_lengths(2) [OF assms(1)] by auto
  show "take e buf = before s @ c # take (?n - ?t - 1) (after s)"
  proof (rule nth_equalityI)
    show "length (take e buf) = length (before s @ c # take (?n - ?t - 1) (after s))"
      using e e2 wf_lengths(1) [OF assms(1)] by simp
    fix i assume i: "i < length (take e buf)"
    then have ie: "i < e" "i < ?n" using len by auto
    have "buf ! i = (if i = ?t then c else if ?t < i then le_buf s ! (i - 1) else le_buf s ! i)"
      using ie e assms(2) len by (auto simp: assms(4) nth_list_update shift_right_nth)
    moreover have "after s ! (i - ?t - 1) = le_buf s ! (i - 1)" if "?t < i"
      using that ie w e2 by (auto simp: after_def)
    ultimately show "take e buf ! i = (before s @ c # take (?n - ?t - 1) (after s)) ! i"
      using ie e2 wf_lengths(1) [OF assms(1)]
      by (auto simp: nth_append before_def nth_Cons' not_less)
  qed
qed

section \<open>A line shown at its cursor\<close>

definition displays :: "lineedit \<Rightarrow> string \<Rightarrow> string \<Rightarrow> bool" where
  "displays s b a \<longleftrightarrow> le_wf s \<and> before s = b \<and> after s = a \<and> (\<exists>k. screen s = (b, a @ replicate k (CHR '' '')))"

lemma in_step_displays: "in_step s \<longleftrightarrow> displays s (before s) (after s)"
  by (simp add: in_step_def displays_def shows_line_def)

lemma displaysD:
  assumes "displays s b a"
  shows "le_wf s" "before s = b" "after s = a" "plain b" "plain a" "le_this s = length b"
    "le_end s = length b + length a" "length b + length a \<le> length (le_buf s)"
    "take (length b + length a) (le_buf s) = b @ a"
proof -
  show w: "le_wf s" and b: "before s = b" and a: "after s = a" using assms by (auto simp: displays_def)
  show "plain b" "plain a" using wf_plain [OF w] a b by auto
  show t: "le_this s = length b" using wf_lengths [OF w] b by simp
  moreover have "le_this s \<le> le_end s" "le_end s \<le> length (le_buf s)" using w by (auto simp: le_wf_def)
  ultimately show e: "le_end s = length b + length a" and "length b + length a \<le> length (le_buf s)"
    using wf_lengths [OF w] a by auto
  show "take (length b + length a) (le_buf s) = b @ a" using wf_split [OF w] a b e by simp
qed

text \<open>To show a line: the buffer, the offsets and the terminal.\<close>

lemma displaysI:
  assumes "take (length b + length a) (le_buf s) = b @ a" "length b + length a \<le> length (le_buf s)"
    and "le_this s = length b" "le_end s = length b + length a" "plain b" "plain a"
    and "screen s = (b, a @ replicate k (CHR '' ''))"
  shows "displays s b a"
  using view_of_buffer [OF assms(1) refl assms(2) refl refl assms(3,4)] assms(5-)
  by (auto simp: displays_def)

lemma screen_field [simp]:
  "screen (s\<lparr>le_this := t\<rparr>) = screen s" "screen (s\<lparr>le_end := e\<rparr>) = screen s"
  "screen (s\<lparr>le_buf := bf\<rparr>) = screen s"
  by (simp_all add: screen_def)

lemma displays_screen: "displays s b a \<Longrightarrow> \<exists>k. screen s = (b, a @ replicate k (CHR '' ''))"
  by (simp add: displays_def)

section \<open>Moving\<close>

lemma displays_backward:
  assumes "displays s (b @ [x]) a"
  shows "displays (backward_char s) b (x # a)" "le_buf (backward_char s) = le_buf s"
proof -
  obtain k where k: "screen s = (b @ [x], a @ replicate k (CHR '' ''))" using displays_screen [OF assms] by blast
  note d = displaysD [OF assms]
  show "displays (backward_char s) b (x # a)"
    by (rule displaysI [where k = k]) (use d k in \<open>simp_all add: backward_char_def tputs_BS\<close>)
  show "le_buf (backward_char s) = le_buf s" by (simp add: backward_char_def)
qed

lemma displays_forward:
  assumes "displays s b (x # a)"
  shows "displays (forward_char s) (b @ [x]) a" "le_buf (forward_char s) = le_buf s"
proof -
  obtain k where k: "screen s = (b, (x # a) @ replicate k (CHR '' ''))" using displays_screen [OF assms] by blast
  note d = displaysD [OF assms]
  have x: "le_buf s ! length b = x" using arg_cong [OF d(9), of "\<lambda>xs. xs ! length b"] by simp
  show "displays (forward_char s) (b @ [x]) a"
    by (rule displaysI [where k = k]) (use d k x in \<open>simp_all add: forward_char_def tputs_plain\<close>)
  show "le_buf (forward_char s) = le_buf s" by (simp add: forward_char_def)
qed

lemma displays_nth:
  assumes "displays s b (x # a)"
  shows "le_buf s ! length b = x"
  using arg_cong [OF displaysD(9) [OF assms], of "\<lambda>xs. xs ! length b"] by simp

lemma displays_nth_back:
  assumes "displays s (b @ [x]) a"
  shows "le_buf s ! length b = x"
  using arg_cong [OF displaysD(9) [OF assms], of "\<lambda>xs. xs ! length b"] by simp

section \<open>Erasing\<close>

lemma erase_loop_eq:
  assumes "p \<le> le_end s" "le_end s < length (le_buf s)"
  shows "erase_loop p s =
    s\<lparr>le_buf := take p (le_buf s) @ drop (p + 1) (take (le_end s + 1) (le_buf s)) @ drop (le_end s) (le_buf s),
      le_out := le_out s @ drop (p + 1) (take (le_end s + 1) (le_buf s))\<rparr>"
  using assms
proof (induction p s rule: erase_loop.induct)
  case (1 p s)
  show ?case
  proof (cases "p < le_end s")
    case False
    then show ?thesis using 1(2,3) by (subst erase_loop.simps) simp
  next
    case True
    let ?c = "le_buf s ! (p + 1)" and ?bf = "le_buf s" and ?e = "le_end s"
    let ?s = "le_emits [?c] (s\<lparr>le_buf := ?bf[p := ?c]\<rparr>)"
    have ih: "erase_loop (p + 1) ?s = ?s\<lparr>le_buf := take (p + 1) (le_buf ?s) @
        drop (p + 1 + 1) (take (le_end ?s + 1) (le_buf ?s)) @ drop (le_end ?s) (le_buf ?s),
        le_out := le_out ?s @ drop (p + 1 + 1) (take (le_end ?s + 1) (le_buf ?s))\<rparr>"
      by (rule 1(1) [OF True refl]) (use True 1(3) in simp_all)
    have d: "drop (p + 1) (take (?e + 1) ?bf) = ?c # drop (p + 1 + 1) (take (?e + 1) ?bf)"
      using True 1(3) by (subst Cons_nth_drop_Suc [symmetric]) simp_all
    have d2: "drop (p + 1 + 1) (take (?e + 1) (?bf[p := ?c])) = drop (p + 1 + 1) (take (?e + 1) ?bf)"
      by (simp add: take_update_swap drop_update_swap)
    have d3: "drop ?e (?bf[p := ?c]) = drop ?e ?bf" using True by simp
    have t: "take (p + 1) (?bf[p := ?c]) = take p ?bf @ [?c]"
      using True 1(3) by (simp add: take_Suc_conv_app_nth)
    show ?thesis
      using True ih unfolding erase_loop.simps [of p s] Let_def
      by (simp only: if_True) (simp add: le_emits_def d [simplified] d2 [simplified] d3 t [simplified])
  qed
qed

lemma displays_erase:
  assumes "displays s (b @ [x]) a"
  shows "displays (erase_char s) b a" "length (le_buf (erase_char s)) = length (le_buf s)"
proof -
  obtain k where k: "screen s = (b @ [x], a @ replicate k (CHR '' ''))" using displays_screen [OF assms] by blast
  note d = displaysD [OF assms]
  let ?s1 = "le_emits [BS] (s\<lparr>le_this := length b, le_end := length b + length a\<rparr>)"
  let ?n = "length b + length a"
  have len: "?n < length (le_buf s)" using d(8) by simp
  have tk: "take (?n + 1) (le_buf s) = (b @ [x]) @ a" using d(9) by simp
  have rest: "drop (length b + 1) (take (?n + 1) (le_buf s)) = a" unfolding tk by simp
  have pre: "take (length b) (le_buf s) = b"
    using tk by (metis append_assoc append_eq_conv_conj le_add1 min.absorb1 take_take add.assoc)
  have loop: "erase_loop (length b) ?s1 =
      ?s1\<lparr>le_buf := b @ a @ drop ?n (le_buf s), le_out := le_out ?s1 @ a\<rparr>"
    using erase_loop_eq [of "length b" ?s1] len rest pre by simp
  have er: "erase_char s = le_emits (replicate (length a + 1) BS) (le_emits '' '' (erase_loop (length b) ?s1))"
    using d(6,7) by (simp add: erase_char_def Let_def)
  have scr: "screen (?s1\<lparr>le_buf := b @ a @ drop ?n (le_buf s), le_out := le_out ?s1 @ a\<rparr>) =
      tputs (screen ?s1) a"
    by (simp add: screen_def tputs_append)
  have s1: "screen ?s1 = (b, x # a @ replicate k (CHR '' ''))" using k by (simp add: tputs_BS)
  have "screen (erase_char s) = tputs (tputs (tputs (b, x # a @ replicate k (CHR '' '')) a) '' '')
      (replicate (length a + 1) BS)"
    unfolding er loop unfolding screen_emits unfolding scr unfolding s1 by (rule refl)
  also have "tputs (tputs (b, x # a @ replicate k (CHR '' '')) a) '' '' =
      (b @ a @ '' '', drop (length a) (a @ replicate k (CHR '' '')))"
  proof -
    have "tputs (b, x # a @ replicate k (CHR '' '')) (a @ '' '') =
        (b @ (a @ '' ''), drop (length (a @ '' '')) (x # a @ replicate k (CHR '' '')))"
      by (rule tputs_plain) (use d(5) in \<open>simp add: BS_def\<close>)
    then show ?thesis by (simp add: tputs_append)
  qed
  also have "tputs (b @ a @ '' '', drop (length a) (a @ replicate k (CHR '' ''))) (replicate (length a + 1) BS) =
      (b, (a @ '' '') @ replicate k (CHR '' ''))"
    using tputs_back [of b "a @ '' ''" "replicate k (CHR '' '')"] by simp
  finally have screen: "screen (erase_char s) = (b, a @ replicate (Suc k) (CHR '' ''))" by simp
  have bf: "le_buf (erase_char s) = b @ a @ drop ?n (le_buf s)" "le_this (erase_char s) = length b"
      "le_end (erase_char s) = ?n"
    unfolding er loop by simp_all
  show "displays (erase_char s) b a"
    by (rule displaysI [OF _ _ _ _ _ _ screen]) (use d bf in simp_all)
  show "length (le_buf (erase_char s)) = length (le_buf s)" using bf(1) len by simp
qed

section \<open>Inserting\<close>

lemma displays_addchar:
  assumes "displays s b a" "c \<noteq> BS" "length b < length (le_buf s)"
  shows "displays (addchar True c s) (b @ [c]) (take (length (le_buf s) - length b - 1) a)"
    "length (le_buf (addchar True c s)) = length (le_buf s)"
proof -
  obtain k where k: "screen s = (b, a @ replicate k (CHR '' ''))" using displays_screen [OF assms(1)] by blast
  note d = displaysD [OF assms(1)]
  define e where "e = (if le_end s < length (le_buf s) then le_end s + 1 else le_end s)"
  define bf where "bf = (shift_right (le_this s) e (le_buf s))[le_this s := c]"
  define a' where "a' = take (length (le_buf s) - length b - 1) a"
  have t: "le_this s < length (le_buf s)" using assms(3) d(6) by simp
  note ab = addchar_buffer [OF d(1) t e_def bf_def, unfolded d(2,3,6), folded a'_def]
  have rest: "drop (length b + 1) (take e bf) = a'" unfolding ab(1) by simp
  have diff: "e - (length b + 1) = length a'" using ab(5) by simp
  have ac: "addchar True c s = le_emits (replicate (length a') BS) (le_emits a' (le_emits [c]
      (s\<lparr>le_end := e, le_buf := bf, le_this := length b + 1\<rparr>)))"
    unfolding addchar_def Let_def if_P [OF t] if_P [OF TrueI] e_def [symmetric] bf_def [symmetric]
    unfolding d(6) rest diff by (rule refl)
  have pl: "plain a'" using d(5) by (simp add: a'_def plain_take)
  have short: "length a' \<le> length a" by (simp add: a'_def)
  have "screen (addchar True c s) = tputs (tputs (b, a @ replicate k (CHR '' '')) (c # a')) (replicate (length a') BS)"
    unfolding ac by (simp add: k flip: tputs_append)
  also have "tputs (b, a @ replicate k (CHR '' '')) (c # a') =
      ((b @ [c]) @ a', drop (length a' + 1) (a @ replicate k (CHR '' '')))"
    using pl assms(2) by (subst tputs_plain) simp_all
  also have "tputs \<dots> (replicate (length a') BS) =
      (b @ [c], a' @ drop (length a' + 1) (a @ replicate k (CHR '' '')))"
    by (rule tputs_back)
  finally have scr: "screen (addchar True c s) = (b @ [c], a' @ drop (length a' + 1) (a @ replicate k (CHR '' '')))" .
  have long: "length a \<le> length a' + 1" using d(8) assms(3) by (simp add: a'_def)
  then have dr: "drop (length a' + 1) (a @ replicate k (CHR '' '')) = replicate (k - (length a' + 1 - length a)) (CHR '' '')"
    by simp
  have bf': "le_buf (addchar True c s) = bf" "le_this (addchar True c s) = length b + 1" "le_end (addchar True c s) = e"
    unfolding ac by simp_all
  show "displays (addchar True c s) (b @ [c]) a'"
    by (rule displaysI [OF _ _ _ _ _ _ scr [unfolded dr]]) (use bf' ab d(4) pl assms(2) in simp_all)
  show "length (le_buf (addchar True c s)) = length (le_buf s)" using bf'(1) ab(2) by simp
qed

end
