(* ===== verification/LineeditKeys.thy ===== *)
theory LineeditKeys
  imports LineeditView
begin

text \<open>
  The keys of the line editor: the loops over the line, an abstract editor on a line split
  at the cursor, and the refinement of any sequence of editing keys.
\<close>

section \<open>Loops\<close>

text \<open>What the keys leave alone: the mode of the editor and the size of the line.\<close>

definition mode :: "lineedit \<Rightarrow> bool \<times> bool \<times> int \<times> nat \<times> nat" where
  "mode s = (le_editing s, le_reecho s, le_escaping s, le_nmatches s, length (le_buf s))"

lemma mode_field [simp]:
  "mode (le_emits cs s) = mode s" "mode (s\<lparr>le_this := t\<rparr>) = mode s" "mode (s\<lparr>le_end := e\<rparr>) = mode s"
  "mode (s\<lparr>le_kill := k\<rparr>) = mode s" "mode (s\<lparr>le_fault := ft\<rparr>) = mode s"
  by (simp_all add: mode_def le_emits_def)

lemma mode_backward [simp]: "mode (backward_char s) = mode s"
  by (simp add: backward_char_def)

lemma mode_forward [simp]: "mode (forward_char s) = mode s"
  by (simp add: forward_char_def)

lemma mode_erase_loop [simp]: "mode (erase_loop p s) = mode s"
proof (induction p s rule: erase_loop.induct)
  case (1 p s)
  then show ?case by (subst erase_loop.simps) (auto simp: mode_def le_emits_def Let_def)
qed

lemma mode_erase [simp]: "mode (erase_char s) = mode s"
  by (simp add: erase_char_def Let_def)

lemma mode_addchar [simp]: "mode (addchar echo c s) = mode s"
  by (simp add: addchar_def Let_def) (simp add: mode_def le_emits_def)

lemma mode_while [simp]:
  "mode (forward_while n P s) = mode s" "mode (backward_while n P s) = mode s"
  "mode (erase_while n P s) = mode s" "mode (snd (kill_loop n k s)) = mode s"
  by (induction n arbitrary: s k) auto

lemma kill_field [simp]:
  "le_kill (backward_char s) = le_kill s" "le_kill (forward_char s) = le_kill s"
  by (simp_all add: backward_char_def forward_char_def)

lemma kill_erase_loop [simp]: "le_kill (erase_loop p s) = le_kill s"
proof (induction p s rule: erase_loop.induct)
  case (1 p s)
  then show ?case by (subst erase_loop.simps) (auto simp: le_emits_def Let_def)
qed

lemma kill_erase [simp]: "le_kill (erase_char s) = le_kill s"
  by (simp add: erase_char_def Let_def)

lemma kill_addchar [simp]: "le_kill (addchar echo c s) = le_kill s"
  by (simp add: addchar_def Let_def)

lemma kill_while [simp]:
  "le_kill (forward_while n P s) = le_kill s" "le_kill (backward_while n P s) = le_kill s"
  "le_kill (erase_while n P s) = le_kill s"
  by (induction n arbitrary: s) auto

lemma displays_forward_while:
  "displays s b a \<Longrightarrow> length a \<le> n \<Longrightarrow>
   displays (forward_while n P s) (b @ takeWhile P a) (dropWhile P a)"
proof (induction n arbitrary: s b a)
  case (Suc n)
  note d = displaysD [OF Suc.prems(1)]
  show ?case
  proof (cases a)
    case (Cons x a')
    show ?thesis
    proof (cases "P x")
      case True
      have "displays (forward_while n P (forward_char s)) ((b @ [x]) @ takeWhile P a') (dropWhile P a')"
        by (rule Suc.IH [OF displays_forward(1)]) (use Suc.prems Cons in auto)
      then show ?thesis using True Cons d(6,7) displays_nth [OF Suc.prems(1) [unfolded Cons]] by simp
    next
      case False
      then show ?thesis using Suc.prems Cons d(6,7) displays_nth [OF Suc.prems(1) [unfolded Cons]] by simp
    qed
  qed (use Suc.prems d(6,7) in simp)
qed simp

lemma displays_backward_while:
  "displays s b a \<Longrightarrow> length b \<le> n \<Longrightarrow>
   displays (backward_while n P s) (rev (dropWhile P (rev b))) (rev (takeWhile P (rev b)) @ a)"
proof (induction n arbitrary: s b a)
  case (Suc n)
  note d = displaysD [OF Suc.prems(1)]
  show ?case
  proof (cases b rule: rev_cases)
    case (snoc b' x)
    note nth = displays_nth_back [OF Suc.prems(1) [unfolded snoc]]
    show ?thesis
    proof (cases "P x")
      case True
      have "displays (backward_while n P (backward_char s)) (rev (dropWhile P (rev b')))
          (rev (takeWhile P (rev b')) @ x # a)"
        by (rule Suc.IH [OF displays_backward(1)]) (use Suc.prems snoc in auto)
      then show ?thesis using True snoc d(6) nth by simp
    next
      case False
      then show ?thesis using Suc.prems snoc d(6) nth by simp
    qed
  qed (use Suc.prems d(6) in simp)
qed simp

lemma displays_erase_while:
  "displays s b a \<Longrightarrow> length b \<le> n \<Longrightarrow> displays (erase_while n P s) (rev (dropWhile P (rev b))) a"
proof (induction n arbitrary: s b)
  case (Suc n)
  note d = displaysD [OF Suc.prems(1)]
  show ?case
  proof (cases b rule: rev_cases)
    case (snoc b' x)
    note nth = displays_nth_back [OF Suc.prems(1) [unfolded snoc]]
    show ?thesis
    proof (cases "P x")
      case True
      have "displays (erase_while n P (erase_char s)) (rev (dropWhile P (rev b'))) a"
        by (rule Suc.IH [OF displays_erase(1)]) (use Suc.prems snoc in auto)
      then show ?thesis using True snoc d(6) nth by simp
    next
      case False
      then show ?thesis using Suc.prems snoc d(6) nth by simp
    qed
  qed (use Suc.prems d(6) in simp)
qed simp

lemma displays_kill_loop:
  "displays s b a \<Longrightarrow> length a \<le> n \<Longrightarrow>
   fst (kill_loop n k s) = k @ a \<and> displays (snd (kill_loop n k s)) b []"
proof (induction n arbitrary: s a k)
  case (Suc n)
  note d = displaysD [OF Suc.prems(1)]
  show ?case
  proof (cases a)
    case (Cons x a')
    have "displays (erase_char (forward_char s)) b a'"
      using displays_erase(1) [OF displays_forward(1)] Suc.prems(1) Cons by blast
    from Suc.IH [OF this] show ?thesis
      using Cons Suc.prems(2) d(6,7) displays_nth [OF Suc.prems(1) [unfolded Cons]] by simp
  qed (use Suc.prems d(6,7) in simp)
qed simp

lemma displays_kill_field [simp]:
  "displays (s\<lparr>le_kill := k, le_fault := ft\<rparr>) b a = displays s b a"
  by (simp add: displays_def le_wf_def before_def after_def screen_def)

section \<open>The keys on an abstract line\<close>

text \<open>
  The abstract line: what is before the cursor, what is after it, and what was killed last.
\<close>

type_synonym line = "string \<times> string \<times> string"

definition ins_key :: "nat \<Rightarrow> line \<Rightarrow> char \<Rightarrow> line" where
  "ins_key cap = (\<lambda>(b, a, k) c. (fst (ins cap c (b, a)), snd (ins cap c (b, a)), k))"

definition skip_word :: "string \<Rightarrow> string" where
  "skip_word str = dropWhile (\<lambda>c. \<not> is_word_delim c) (dropWhile is_word_delim str)"

definition line_key :: "nat \<Rightarrow> line \<Rightarrow> int \<Rightarrow> line" where
  "line_key cap l c =
     (case l of (b, a, k) \<Rightarrow>
        if c = 127 \<or> c = 8 then (butlast b, a, k)
        else if c = 1 \<or> c = SPECIAL_HOME then ([], b @ a, k)
        else if c = 2 \<or> c = SPECIAL_LEFT
        then (butlast b, drop (length b - 1) b @ a, k)
        else if c = 4 \<or> c = SPECIAL_DELETE then (b, drop 1 a, k)
        else if c = 5 \<or> c = SPECIAL_END then (b @ a, [], k)
        else if c = 6 \<or> c = SPECIAL_RIGHT then (b @ take 1 a, drop 1 a, k)
        else if c = 11 then (b, [], a)
        else if c = 21 then ([], [], k)
        else if c = 23 then (rev (skip_word (rev b)), a, k)
        else if c = 25 then foldl (ins_key cap) (b, a, k) (c_str k)
        else ins_key cap (b, a, k) (char_of (nat c)))"

definition edit_key :: "int \<Rightarrow> bool" where
  "edit_key c \<longleftrightarrow> c \<in> {127, 8, 1, 2, 4, 5, 6, 11, 21, 23, 25, SPECIAL_HOME, SPECIAL_LEFT,
     SPECIAL_DELETE, SPECIAL_END, SPECIAL_RIGHT} \<or> 32 \<le> c \<and> c < 256"

definition abstracts :: "lineedit \<Rightarrow> line \<Rightarrow> bool" where
  "abstracts s l \<longleftrightarrow> displays s (fst l) (fst (snd l)) \<and> le_kill s = snd (snd l) \<and> plain (snd (snd l))"

lemma abstracts_ins:
  assumes "abstracts s l" "c \<noteq> BS"
  shows "abstracts (addchar True c s) (ins_key (length (le_buf s)) l c)"
proof -
  obtain b a k where l: "l = (b, a, k)" by (cases l)
  have d: "displays s b a" "le_kill s = k" "plain k" using assms(1) by (auto simp: abstracts_def l)
  show ?thesis
  proof (cases "length b < length (le_buf s)")
    case True
    then show ?thesis
      using displays_addchar(1) [OF d(1) assms(2) True] d by (simp add: abstracts_def l ins_key_def ins_def)
  next
    case False
    then have "addchar True c s = s" using displaysD(6) [OF d(1)] by (simp add: addchar_def)
    then show ?thesis using False assms(1) by (simp add: l ins_key_def ins_def)
  qed
qed

lemma abstracts_yank:
  "plain cs \<Longrightarrow> abstracts s l \<Longrightarrow>
   abstracts (foldl (\<lambda>r c. addchar True c r) s cs) (foldl (ins_key (length (le_buf s))) l cs)"
proof (induction cs arbitrary: s l)
  case (Cons c cs)
  have "length (le_buf (addchar True c s)) = length (le_buf s)"
    using mode_addchar [of True c s] by (simp add: mode_def del: mode_addchar)
  with Cons.IH [OF _ abstracts_ins [OF Cons.prems(2)], of c] Cons.prems(1) show ?case by simp
qed simp

lemma plain_c_str: "plain cs \<Longrightarrow> plain (c_str cs)"
  by (auto simp: plain_def c_str_def dest: set_takeWhileD)

lemma key_char: "32 \<le> c \<Longrightarrow> c < 256 \<Longrightarrow> (char_of (nat c) :: char) \<noteq> BS"
proof
  assume c: "32 \<le> c" "c < 256" and eq: "(char_of (nat c) :: char) = BS"
  have "nat c mod 256 = of_char (BS :: char)" unfolding eq [symmetric] by simp
  with c show False by (simp add: BS_def nat_mod_distrib)
qed

lemma le_this_pos: "displays s b a \<Longrightarrow> le_this s > 0 \<longleftrightarrow> b \<noteq> []"
  by (simp add: displaysD(6))

lemma erase_key:
  "displays s b a \<Longrightarrow> displays (if le_this s > 0 then erase_char s else s) (butlast b) a"
  by (cases b rule: rev_cases) (auto simp: displaysD(6) intro: displays_erase(1))

lemma left_key:
  assumes "displays s b a"
  shows "displays (backward_char s) (butlast b) (drop (length b - 1) b @ a)"
proof (cases b rule: rev_cases)
  case Nil
  then show ?thesis using assms displaysD(6) [OF assms] by (simp add: backward_char_def)
qed (use assms displays_backward(1) in auto)

lemma right_key:
  assumes "displays s b a"
  shows "displays (forward_char s) (b @ take 1 a) (drop 1 a)"
proof (cases a)
  case Nil
  then show ?thesis using assms displaysD(6,7) [OF assms] by (simp add: forward_char_def)
qed (use assms displays_forward(1) in auto)

lemma delete_key:
  assumes "displays s b a"
  shows "displays (if le_this s < le_end s then erase_char (forward_char s) else s) b (drop 1 a)"
proof (cases a)
  case Nil
  then show ?thesis using assms displaysD(6,7) [OF assms] by simp
next
  case (Cons x a')
  then show ?thesis using displays_erase(1) [OF displays_forward(1)] assms displaysD(6,7) [OF assms] by auto
qed

lemma end_key: "displays s b a \<Longrightarrow> displays (to_end s) (b @ a) []"
  using displays_forward_while [of s b a "le_end s" "\<lambda>c. True"] displaysD(7) [of s b a]
  by (simp add: to_end_def takeWhile_eq_all_conv [THEN iffD2] dropWhile_eq_Nil_conv [THEN iffD2])

lemma dropWhile_True [simp]: "dropWhile (\<lambda>c. True) xs = []" "takeWhile (\<lambda>c. True) xs = xs"
  by (induction xs) auto

lemma home_key: "displays s b a \<Longrightarrow> displays (to_start s) [] (b @ a)"
  using displays_backward_while [of s b a "le_this s" "\<lambda>c. True"] displaysD(6) [of s b a]
  by (simp add: to_start_def)

lemma kill_key:
  assumes "displays s b a"
  shows "displays (kill_forward s) b []" "le_kill (kill_forward s) = a"
    "le_fault (kill_forward s) = (le_fault (snd (kill_loop (le_end s) [] s)) \<or> length a \<ge> KILLBUF)"
  using displays_kill_loop [OF assms, of "le_end s" "[]"] displaysD(7) [OF assms]
  by (simp_all add: kill_forward_def split_beta)

lemma clear_key:
  assumes "displays s b a"
  shows "displays (erase_line s) [] []"
proof -
  have e: "displays (to_end s) (b @ a) []" by (rule end_key [OF assms])
  have d: "displays (erase_while (le_this (to_end s)) (\<lambda>c. True) (to_end s)) [] []"
    using displays_erase_while [OF e, of "le_this (to_end s)" "\<lambda>c. True"] displaysD(6) [OF e] by simp
  then have "(erase_while (le_this (to_end s)) (\<lambda>c. True) (to_end s))\<lparr>le_end := 0\<rparr> =
      erase_while (le_this (to_end s)) (\<lambda>c. True) (to_end s)"
    using displaysD(7) [OF d] by simp
  with d show ?thesis by (simp add: erase_line_def Let_def)
qed

lemma erase_word_key: "displays s b a \<Longrightarrow> displays (erase_word s) (rev (skip_word (rev b))) a"
proof -
  assume d: "displays s b a"
  have "displays (erase_while (le_this s) is_word_delim s) (rev (dropWhile is_word_delim (rev b))) a"
    by (rule displays_erase_while [OF d]) (simp add: displaysD(6) [OF d])
  moreover have "length (dropWhile is_word_delim (rev b)) \<le> le_this s"
    using length_dropWhile_le [of is_word_delim "rev b"] displaysD(6) [OF d] by simp
  ultimately show ?thesis
    using displays_erase_while [of _ "rev (dropWhile is_word_delim (rev b))" a "le_this s"]
    by (simp add: erase_word_def Let_def skip_word_def)
qed

lemma edit_key_cases:
  assumes "edit_key c"
  obtains "c = 127 \<or> c = 8" | "c = 1 \<or> c = SPECIAL_HOME" | "c = 2 \<or> c = SPECIAL_LEFT"
    | "c = 4 \<or> c = SPECIAL_DELETE" | "c = 5 \<or> c = SPECIAL_END" | "c = 6 \<or> c = SPECIAL_RIGHT"
    | "c = 11" | "c = 21" | "c = 23" | "c = 25" | "32 \<le> c" "c < 256" "c \<noteq> 127"
  using assms unfolding edit_key_def by auto

text \<open>Each key that edits, on a line that is shown: the same key on the abstract line.\<close>

lemma key_action_refines:
  assumes "abstracts s l" "edit_key c"
  shows "abstracts (snd (key_action c s)) (line_key (length (le_buf s)) l c)"
proof -
  obtain b a k where l: "l = (b, a, k)" by (cases l)
  have d: "displays s b a" "le_kill s = k" "plain k" using assms(1) by (auto simp: abstracts_def l)
  have y: "abstracts (yank s) (foldl (ins_key (length (le_buf s))) (b, a, k) (c_str k))"
    unfolding yank_def d(2) by (rule abstracts_yank [OF plain_c_str [OF d(3)]]) (use assms(1) l in simp)
  have i: "abstracts (addchar True (char_of (nat c)) s) (ins_key (length (le_buf s)) (b, a, k) (char_of (nat c)))"
    if "32 \<le> c \<and> c < 256"
    using abstracts_ins [OF assms(1) key_char, of c] that l by simp
  have kept: "le_kill (erase_line s) = k" "le_kill (erase_word s) = k" "le_kill (to_end s) = k"
      "le_kill (to_start s) = k"
    using d(2) by (simp_all add: erase_line_def erase_word_def to_end_def to_start_def Let_def)
  have pl: "plain a" using displaysD(5) [OF d(1)] .
  note kd = key_action_def line_key_def l abstracts_def
  from assms(2) show ?thesis
  proof (cases rule: edit_key_cases)
    case 1
    then show ?thesis using erase_key [OF d(1)] d(2,3) kept pl
      by (elim disjE) (simp_all add: kd)
  next
    case 2
    then show ?thesis using home_key [OF d(1)] d(2,3) kept pl
      by (elim disjE) (simp_all add: kd)
  next
    case 3
    then show ?thesis using left_key [OF d(1)] d(2,3) kept pl
      by (elim disjE) (simp_all add: kd)
  next
    case 4
    then show ?thesis using delete_key [OF d(1)] d(2,3) kept pl
      by (elim disjE) (simp_all add: kd)
  next
    case 5
    then show ?thesis using end_key [OF d(1)] d(2,3) kept pl
      by (elim disjE) (simp_all add: kd)
  next
    case 6
    then show ?thesis using right_key [OF d(1)] d(2,3) kept pl
      by (elim disjE) (simp_all add: kd)
  next
    case 7
    then show ?thesis using kill_key(1,2) [OF d(1)] d(2,3) kept pl
      by (simp add: kd)
  next
    case 8
    then show ?thesis using clear_key [OF d(1)] d(2,3) kept pl
      by (simp add: kd)
  next
    case 9
    then show ?thesis using erase_word_key [OF d(1)] d(2,3) kept pl
      by (simp add: kd)
  next
    case 10
    then show ?thesis using y by (simp add: key_action_def line_key_def l)
  next
    case 11
    have "key_action c s = (False, addchar True (char_of (nat c)) s)" using 11 by (simp add: key_action_def)
    moreover have "line_key (length (le_buf s)) l c = ins_key (length (le_buf s)) (b, a, k) (char_of (nat c))"
      using 11 by (simp add: line_key_def l)
    ultimately show ?thesis using i 11 by simp
  qed
qed

lemma mode_yank: "mode (foldl (\<lambda>r c. addchar True c r) s cs) = mode s"
  by (induction cs arbitrary: s) auto

lemma mode_ops [simp]:
  "mode (to_start s) = mode s" "mode (to_end s) = mode s" "mode (kill_forward s) = mode s"
  "mode (erase_line s) = mode s" "mode (erase_word s) = mode s" "mode (yank s) = mode s"
  by (simp_all add: to_start_def to_end_def kill_forward_def erase_line_def erase_word_def yank_def mode_yank
      Let_def split_beta)

lemma mode_key_action:
  assumes "edit_key c"
  shows "mode (snd (key_action c s)) = mode s \<and> \<not> fst (key_action c s)"
  using assms by (cases rule: edit_key_cases) (auto simp: key_action_def)

definition ready :: "lineedit \<Rightarrow> bool" where
  "ready s \<longleftrightarrow> le_editing s \<and> \<not> le_reecho s \<and> le_escaping s = 0 \<and> le_nmatches s = 0"

lemma ready_mode: "mode s = mode s' \<Longrightarrow> ready s = ready s'"
  by (simp add: ready_def mode_def)

lemma step_key_action:
  assumes "ready s" "edit_key c"
  shows "le_step nim c s = key_action c s"
  using assms by (auto simp: ready_def edit_key_def le_step_def key_escape_def key_completion_def Let_def)

definition type_keys :: "completer \<Rightarrow> int list \<Rightarrow> lineedit \<Rightarrow> lineedit" where
  "type_keys nim cs s = foldl (\<lambda>r c. snd (le_step nim c r)) s cs"

lemma type_keys_refines:
  "list_all edit_key cs \<Longrightarrow> ready s \<Longrightarrow> abstracts s l \<Longrightarrow>
   abstracts (type_keys nim cs s) (foldl (line_key (length (le_buf s))) l cs)"
proof (induction cs arbitrary: s l)
  case (Cons c cs)
  let ?s = "snd (key_action c s)"
  have c: "edit_key c" and cs: "list_all edit_key cs" using Cons.prems(1) by auto
  have m: "mode ?s = mode s" by (rule mode_key_action [OF c, THEN conjunct1])
  then have "length (le_buf ?s) = length (le_buf s)" "ready ?s"
    using Cons.prems(2) ready_mode [OF m] by (simp_all add: mode_def)
  then show ?case
    using Cons.IH [OF cs _ key_action_refines [OF Cons.prems(3) c]] step_key_action [OF Cons.prems(2) c]
    by (simp add: type_keys_def)
qed (simp add: type_keys_def)

lemma fault_erase_loop [simp]: "le_fault (erase_loop p s) = le_fault s"
proof (induction p s rule: erase_loop.induct)
  case (1 p s)
  then show ?case by (subst erase_loop.simps) (auto simp: le_emits_def Let_def)
qed

lemma fault_kill_loop: "le_fault (snd (kill_loop n k s)) = le_fault s"
  by (induction n arbitrary: k s) (auto simp: erase_char_def forward_char_def Let_def)

lemma fault_addchar [simp]: "le_fault (addchar echo c s) = le_fault s"
  by (simp add: addchar_def Let_def)

lemma fault_chars [simp]:
  "le_fault (backward_char s) = le_fault s" "le_fault (forward_char s) = le_fault s" "le_fault (erase_char s) = le_fault s"
  by (simp_all add: backward_char_def forward_char_def erase_char_def Let_def)

lemma fault_while [simp]:
  "le_fault (forward_while n P s) = le_fault s" "le_fault (backward_while n P s) = le_fault s"
  "le_fault (erase_while n P s) = le_fault s"
  by (induction n arbitrary: s) auto

lemma fault_ops [simp]:
  "le_fault (to_start s) = le_fault s" "le_fault (to_end s) = le_fault s" "le_fault (erase_line s) = le_fault s"
  "le_fault (erase_word s) = le_fault s" "le_fault (yank s) = le_fault s"
proof -
  have "le_fault (foldl (\<lambda>r c. addchar True c r) s cs) = le_fault s" for cs by (induction cs arbitrary: s) auto
  then show "le_fault (yank s) = le_fault s" by (simp add: yank_def)
qed (simp_all add: to_start_def to_end_def erase_line_def erase_word_def Let_def)

lemma fault_key:
  assumes "abstracts s (b, a, k)" "edit_key c"
  shows "le_fault (snd (key_action c s)) \<longleftrightarrow> le_fault s \<or> c = 11 \<and> 100 \<le> length a"
  using assms(2)
proof (cases rule: edit_key_cases)
  case 7
  then show ?thesis
    using kill_key(3) [of s b a] assms(1) fault_kill_loop [of "le_end s" "[]" s]
    by (simp add: key_action_def abstracts_def)
qed (auto simp: key_action_def)

text \<open>The keys of which no kill takes 100 characters or more, the size of the kill buffer.\<close>

fun kills_fit :: "nat \<Rightarrow> line \<Rightarrow> int list \<Rightarrow> bool" where
  "kills_fit cap l [] = True"
| "kills_fit cap l (c # cs) = ((c = 11 \<longrightarrow> length (fst (snd l)) < 100) \<and> kills_fit cap (line_key cap l c) cs)"

lemma type_keys_fault:
  "list_all edit_key cs \<Longrightarrow> ready s \<Longrightarrow> abstracts s l \<Longrightarrow>
   le_fault (type_keys nim cs s) \<longleftrightarrow> le_fault s \<or> \<not> kills_fit (length (le_buf s)) l cs"
proof (induction cs arbitrary: s l)
  case (Cons c cs)
  let ?s = "snd (key_action c s)"
  have c: "edit_key c" and cs: "list_all edit_key cs" using Cons.prems(1) by auto
  have m: "mode ?s = mode s" by (rule mode_key_action [OF c, THEN conjunct1])
  then have s: "length (le_buf ?s) = length (le_buf s)" "ready ?s"
    using Cons.prems(2) ready_mode [OF m] by (simp_all add: mode_def)
  obtain b a k where l: "l = (b, a, k)" by (cases l)
  have f: "le_fault ?s \<longleftrightarrow> le_fault s \<or> c = 11 \<and> 100 \<le> length a" using fault_key c Cons.prems(3) l by blast
  have "le_fault (type_keys nim cs ?s) \<longleftrightarrow> le_fault ?s \<or> \<not> kills_fit (length (le_buf s)) (line_key (length (le_buf s)) l c) cs"
    using Cons.IH [OF cs s(2) key_action_refines [OF Cons.prems(3) c]] s(1) by simp
  then show ?case
    using f step_key_action [OF Cons.prems(2) c] by (auto simp: type_keys_def l)
qed (simp add: type_keys_def)

text \<open>
  C38. Whatever editing keys are typed (characters, erasing, moving, killing, yanking) while the
  editor is in its normal mode, as long as no kill takes 100 characters or more: the
  line, the cursor and the killed text are those of an editor on a line split at the cursor,
  the terminal shows that line with the cursor at that place, and nothing is written
  behind the kill buffer. The first kill of 100 characters or more, which a line of more than 100
  characters allows, does write behind it; of what follows nothing is claimed.
\<close>

theorem editor_refines_split_line:
  assumes "ready s" "abstracts s (b, a, k)" "list_all edit_key cs" "\<not> le_fault s"
    and "kills_fit (length (le_buf s)) (b, a, k) cs"
    and "foldl (line_key (length (le_buf s))) (b, a, k) cs = (b', a', k')"
  shows "before (type_keys nim cs s) = b' \<and> after (type_keys nim cs s) = a' \<and> le_kill (type_keys nim cs s) = k'
    \<and> in_step (type_keys nim cs s) \<and> \<not> le_fault (type_keys nim cs s)"
  using type_keys_refines [OF assms(3,1,2), of nim] assms(6) type_keys_fault [OF assms(3,1,2), of nim] assms(4,5)
  by (auto simp: abstracts_def in_step_displays displays_def)

definition ex_line :: lineedit where
  "ex_line = (le_new (replicate 8 NUL))\<lparr>le_editing := True\<rparr>"

lemma ex_line_ready: "ready ex_line" "abstracts ex_line ([], [], [])" "length (le_buf ex_line) = 8"
  "\<not> le_fault ex_line"
proof -
  show "ready ex_line" "length (le_buf ex_line) = 8" "\<not> le_fault ex_line"
    by (simp_all add: ex_line_def ready_def le_new_def le_restart_def)
  show "abstracts ex_line ([], [], [])"
    by (simp add: ex_line_def abstracts_def displays_def le_wf_def before_def after_def screen_def le_new_def
        le_restart_def)
qed

lemma ex_line_fits: "kills_fit 8 ([], [], []) [71, 50, 2, 49, 1, 11, 25, 8]"
  by code_simp

theorem editor_refines_split_line_witness:
  "before (type_keys (\<lambda>_ _. (0, [])) [71, 50, 2, 49, 1, 11, 25, 8] ex_line) = ''G1''"
proof -
  have "foldl (line_key 8) ([], [], []) [71, 50, 2, 49, 1, 11, 25, 8] = (''G1'', [], ''G12'')" by code_simp
  then show ?thesis
    using editor_refines_split_line [OF ex_line_ready(1,2), of "[71, 50, 2, 49, 1, 11, 25, 8]" "''G1''" "[]" "''G12''"]
      ex_line_fits
    by (simp add: ex_line_ready(3,4) edit_key_def)
qed

text \<open>
  Killing the rest of the line writes behind the kill buffer exactly when the rest has
  100 characters or more: the loop that copies them has no bound. Otherwise yanking right
  after it brings the line back, if it has no NUL in it.
\<close>

theorem kill_then_yank:
  assumes "abstracts s (b, a, k)" "\<not> le_fault s"
  shows "(le_fault (snd (key_action 11 s)) \<longleftrightarrow> length a \<ge> 100)
    \<and> (NUL \<notin> set a \<longrightarrow> abstracts (snd (key_action 25 (snd (key_action 11 s)))) (b @ a, [], a))"
proof -
  have d: "displays s b a" using assms(1) by (simp add: abstracts_def)
  have e: "edit_key 11" "edit_key 25" by (simp_all add: edit_key_def)
  have f: "le_fault (snd (key_action 11 s)) \<longleftrightarrow> length a \<ge> 100"
    using kill_key(3) [OF d] assms(2) fault_kill_loop by (simp add: key_action_def)
  have cap: "length (le_buf (snd (key_action 11 s))) = length (le_buf s)"
    using mode_key_action [OF e(1), of s] by (simp add: mode_def)
  have "abstracts (snd (key_action 11 s)) (b, [], a)"
    using key_action_refines [OF assms(1) e(1)] by (simp add: line_key_def)
  from key_action_refines [OF this e(2)]
  have y: "abstracts (snd (key_action 25 (snd (key_action 11 s))))
      (foldl (ins_key (length (le_buf s))) (b, [], a) (c_str a))"
    by (simp add: cap line_key_def)
  have fold: "foldl (ins_key n) (x, [], k') y = (x @ y, [], k')" if "length x + length y \<le> n" for n x y k'
    using that by (induction y arbitrary: x) (auto simp: ins_key_def ins_def)
  have "c_str a = a" if "NUL \<notin> set a" using that by (auto simp: c_str_def takeWhile_eq_all_conv)
  then have "abstracts (snd (key_action 25 (snd (key_action 11 s)))) (b @ a, [], a)" if "NUL \<notin> set a"
    using y fold [OF displaysD(8) [OF d], of a] that by simp
  with f show ?thesis by blast
qed

theorem kill_then_yank_witness:
  "abstracts (snd (key_action 25 (snd (key_action 11 ex_line)))) ([], [], [])"
  using kill_then_yank [OF ex_line_ready(2)] by (simp add: ex_line_def le_new_def le_restart_def)

end
