(* ===== verification/Job.thy ===== *)
theory Job
  imports Complex_Main Prelude
begin

text \<open>
  FluidNC/src/Job.h and Job.cpp: the stack of running job files. A \<open>JobSource*\<close> is the
  number the source was given when it was made, a \<open>Channel*\<close> the number of the channel. What
  a job does to channels and to the log queue is recorded in order in \<open>job_log\<close>; the lock
  serialises the operations, so each is one step. The values of parameters are rationals.
\<close>

section \<open>State\<close>

datatype job_effect =
    SaveChannel nat | RestoreChannel nat | DrainMessages | DeleteChannel nat

record job_source =
  src_id :: nat
  src_channel :: nat
  src_params :: "string \<rightharpoonup> rat"

record jobs =
  job :: "job_source list"
  leader :: "nat option"
  next_source :: nat
  chan_pos :: "nat \<Rightarrow> nat"
  job_log :: "job_effect list"

definition no_jobs :: "(nat \<Rightarrow> nat) \<Rightarrow> jobs" where
  "no_jobs cp = \<lparr>job = [], leader = None, next_source = 0, chan_pos = cp, job_log = []\<rparr>"

definition job_do :: "job_effect list \<Rightarrow> jobs \<Rightarrow> jobs" where
  "job_do es j = j\<lparr>job_log := job_log j @ es\<rparr>"

section \<open>Sources\<close>

definition src_get_param :: "string \<Rightarrow> job_source \<Rightarrow> rat option" where
  "src_get_param name js = src_params js name"

definition src_set_param :: "string \<Rightarrow> rat \<Rightarrow> job_source \<Rightarrow> job_source" where
  "src_set_param name v js = js\<lparr>src_params := (src_params js)(name \<mapsto> v)\<rparr>"

definition src_param_exists :: "string \<Rightarrow> job_source \<Rightarrow> bool" where
  "src_param_exists name js \<longleftrightarrow> src_params js name \<noteq> None"

text \<open>A source reached through a pointer: None when it has been deleted.\<close>

definition source_at :: "nat \<Rightarrow> jobs \<Rightarrow> job_source option" where
  "source_at p j = find (\<lambda>js. src_id js = p) (job j)"

definition src_position :: "nat \<Rightarrow> jobs \<Rightarrow> nat option" where
  "src_position p j = map_option (\<lambda>js. chan_pos j (src_channel js)) (source_at p j)"

definition src_set_position :: "nat \<Rightarrow> nat \<Rightarrow> jobs \<Rightarrow> jobs option" where
  "src_set_position p pos j =
     map_option (\<lambda>js. j\<lparr>chan_pos := (chan_pos j)(src_channel js := pos)\<rparr>) (source_at p j)"

section \<open>The job stack\<close>

definition job_active :: "jobs \<Rightarrow> bool" where
  "job_active j \<longleftrightarrow> job j \<noteq> []"

definition job_source_top :: "jobs \<Rightarrow> nat option" where
  "job_source_top j = (case job j of [] \<Rightarrow> None | js # _ \<Rightarrow> Some (src_id js))"

definition job_save :: "jobs \<Rightarrow> jobs" where
  "job_save j = (case job j of [] \<Rightarrow> j | js # _ \<Rightarrow> job_do [SaveChannel (src_channel js)] j)"

definition job_restore :: "jobs \<Rightarrow> jobs" where
  "job_restore j = (case job j of [] \<Rightarrow> j | js # _ \<Rightarrow> job_do [RestoreChannel (src_channel js)] j)"

definition job_nest :: "nat \<Rightarrow> nat option \<Rightarrow> jobs \<Rightarrow> jobs" where
  "job_nest in_channel out_channel j =
     (let src = \<lparr>src_id = next_source j, src_channel = in_channel, src_params = Map.empty\<rparr>;
          j1 = (if out_channel \<noteq> None \<and> job j = [] then j\<lparr>leader := out_channel\<rparr> else j)
      in j1\<lparr>job := src # job j1, next_source := next_source j1 + 1\<rparr>)"

text \<open>\<open>pop\<close> takes the top of the stack: its callers have tested that there is one.\<close>

definition job_pop :: "jobs \<Rightarrow> jobs" where
  "job_pop j =
     (case job j of
        [] \<Rightarrow> j
      | js # rest \<Rightarrow>
          let j1 = job_do [DrainMessages, DeleteChannel (src_channel js)] (j\<lparr>job := rest\<rparr>)
          in if \<not> job_active j1 then j1\<lparr>leader := None\<rparr> else j1)"

definition job_unnest :: "jobs \<Rightarrow> jobs" where
  "job_unnest j = (if job_active j then job_restore (job_pop j) else j)"

lemma length_job_pop: "job_active j \<Longrightarrow> length (job (job_pop j)) < length (job j)"
  by (auto simp: job_active_def job_pop_def job_do_def Let_def split: list.splits)

function job_abort :: "jobs \<Rightarrow> jobs" where
  "job_abort j = (if job_active j then job_abort (job_pop j) else j)"
  by auto
termination by (relation "measure (\<lambda>j. length (job j))") (auto simp: length_job_pop)

declare job_abort.simps [simp del]

definition job_get_param :: "string \<Rightarrow> jobs \<Rightarrow> rat option" where
  "job_get_param name j = (case job j of [] \<Rightarrow> None | js # _ \<Rightarrow> src_get_param name js)"

definition job_set_param :: "string \<Rightarrow> rat \<Rightarrow> jobs \<Rightarrow> bool \<times> jobs" where
  "job_set_param name v j =
     (case job j of
        [] \<Rightarrow> (False, j)
      | js # rest \<Rightarrow> (True, j\<lparr>job := src_set_param name v js # rest\<rparr>))"

definition job_param_exists :: "string \<Rightarrow> jobs \<Rightarrow> bool" where
  "job_param_exists name j = (case job j of [] \<Rightarrow> False | js # _ \<Rightarrow> src_param_exists name js)"

definition job_channel :: "jobs \<Rightarrow> nat option" where
  "job_channel j = (case job j of [] \<Rightarrow> None | js # _ \<Rightarrow> Some (src_channel js))"

section \<open>Invariant\<close>

text \<open>
  The sources on the stack are distinct and older than the next one; there is no leader
  without a job.
\<close>

definition jobs_wf :: "jobs \<Rightarrow> bool" where
  "jobs_wf j \<longleftrightarrow> distinct (map src_id (job j)) \<and> list_all (\<lambda>js. src_id js < next_source j) (job j)
     \<and> (job j = [] \<longrightarrow> leader j = None)"

lemma jobs_wf_init: "jobs_wf (no_jobs cp)"
  by (simp add: jobs_wf_def no_jobs_def)

lemma jobs_wf_nest: "jobs_wf j \<Longrightarrow> jobs_wf (job_nest ic oc j)"
  by (auto simp: jobs_wf_def job_nest_def Let_def list_all_iff)

lemma jobs_wf_pop: "jobs_wf j \<Longrightarrow> jobs_wf (job_pop j)"
  by (auto simp: jobs_wf_def job_pop_def job_do_def job_active_def Let_def split: list.splits)

lemma jobs_wf_restore: "jobs_wf (job_restore j) = jobs_wf j"
  by (auto simp: jobs_wf_def job_restore_def job_do_def split: list.splits)

lemma jobs_wf_unnest: "jobs_wf j \<Longrightarrow> jobs_wf (job_unnest j)"
  by (simp add: job_unnest_def jobs_wf_restore jobs_wf_pop)

lemma jobs_wf_abort: "jobs_wf j \<Longrightarrow> jobs_wf (job_abort j)"
proof (induction j rule: job_abort.induct)
  case (1 j)
  then show ?case by (subst job_abort.simps) (auto intro: jobs_wf_pop)
qed

lemma jobs_wf_set_param: "jobs_wf j \<Longrightarrow> jobs_wf (snd (job_set_param n v j))"
  by (auto simp: jobs_wf_def job_set_param_def src_set_param_def split: list.splits)

lemma jobs_wf_save: "jobs_wf j \<Longrightarrow> jobs_wf (job_save j)"
  by (auto simp: jobs_wf_def job_save_def job_do_def split: list.splits)

section \<open>Aborting and nesting\<close>

lemma job_abort_log:
  "job_log (job_abort j) =
     job_log j @ concat (map (\<lambda>js. [DrainMessages, DeleteChannel (src_channel js)]) (job j))
   \<and> job (job_abort j) = []"
proof (induction j rule: job_abort.induct)
  case (1 j)
  show ?case
  proof (cases "job j")
    case Nil
    then show ?thesis by (subst (1 2) job_abort.simps) (simp add: job_active_def)
  next
    case (Cons js rest)
    have "job_log (job_pop j) = job_log j @ [DrainMessages, DeleteChannel (src_channel js)]"
      "job (job_pop j) = rest"
      using Cons by (simp_all add: job_pop_def job_do_def Let_def)
    then show ?thesis
      using 1 Cons by (subst (1 2) job_abort.simps) (simp add: job_active_def)
  qed
qed

text \<open>The parameters a running job sees and the ones it sets, in the order of execution.\<close>

fun set_params :: "(string \<times> rat) list \<Rightarrow> jobs \<Rightarrow> jobs" where
  "set_params [] j = j"
| "set_params ((n, v) # ps) j = set_params ps (snd (job_set_param n v j))"

lemma set_params_top:
  "job j = js # rest \<Longrightarrow>
   \<exists>js'. job (set_params ps j) = js' # rest \<and> src_channel js' = src_channel js
     \<and> src_params js' = src_params js ++ map_of (rev ps)
     \<and> job_log (set_params ps j) = job_log j \<and> leader (set_params ps j) = leader j"
proof (induction ps arbitrary: j js)
  case (Cons p ps)
  obtain n v where p: "p = (n, v)" by (cases p)
  have "job (snd (job_set_param n v j)) = src_set_param n v js # rest"
    using Cons.prems by (simp add: job_set_param_def)
  note ih = Cons.IH [OF this]
  have "src_params (src_set_param n v js) ++ map_of (rev ps) = src_params js ++ map_of (rev (p # ps))"
    by (rule ext) (simp add: p src_set_param_def map_add_def split: option.splits)
  moreover have "src_channel (src_set_param n v js) = src_channel js" by (simp add: src_set_param_def)
  moreover have "job_log (snd (job_set_param n v j)) = job_log j"
    "leader (snd (job_set_param n v j)) = leader j"
    using Cons.prems by (simp_all add: job_set_param_def)
  ultimately show ?case using ih by (simp add: p)
qed simp

text \<open>
  A nested job has parameters of its own: it starts with none, sees what it set last,
  and when it ends the outer job is the top again with the parameters it had. Its channel is
  deleted once, after the log queue has been drained, and the outer file is then reopened.
\<close>

theorem nested_job_is_scoped:
  assumes "job j = outer # rest"
    and "j' = set_params ps (job_nest ic oc (job_save j))"
  shows "job_get_param n j' = map_of (rev ps) n
    \<and> job (job_unnest j') = job j \<and> leader (job_unnest j') = leader j
    \<and> job_log (job_unnest j') = job_log j @ [SaveChannel (src_channel outer), DrainMessages,
        DeleteChannel ic, RestoreChannel (src_channel outer)]"
proof -
  let ?n = "job_nest ic oc (job_save j)"
  have n: "job ?n = \<lparr>src_id = next_source j, src_channel = ic, src_params = Map.empty\<rparr> # outer # rest"
    "job_log ?n = job_log j @ [SaveChannel (src_channel outer)]" "leader ?n = leader j"
    using assms(1) by (simp_all add: job_nest_def job_save_def job_do_def Let_def)
  obtain js where "job j' = js # outer # rest" "src_channel js = ic" "src_params js = map_of (rev ps)"
    "job_log j' = job_log ?n" "leader j' = leader j"
    using set_params_top [OF n(1), of ps] n(3) unfolding assms(2)
    by auto
  then show ?thesis
    using assms(1) n(2)
    by (simp add: job_get_param_def src_get_param_def job_unnest_def job_active_def job_pop_def job_do_def
        job_restore_def Let_def)
qed

theorem nested_job_is_scoped_witness:
  "job_get_param ''x'' (set_params [(''x'', 1), (''x'', 2)] (job_nest 4 None (job_save (job_nest 3 None (no_jobs (\<lambda>_. 0))))))
     = Some 2"
  using nested_job_is_scoped [of "job_nest 3 None (no_jobs (\<lambda>_. 0))" _ _ _ "[(''x'', 1), (''x'', 2)]" 4 None "''x''"]
  by (simp add: job_nest_def no_jobs_def Let_def)

text \<open>
  Aborting ends every job of the stack from the top down: the log queue is drained
  before each channel is deleted, each is deleted once, and neither a job nor a leader is left.
\<close>

theorem abort_ends_every_job:
  "jobs_wf j \<Longrightarrow>
   job (job_abort j) = [] \<and> leader (job_abort j) = None \<and> \<not> job_active (job_abort j)
   \<and> job_log (job_abort j) =
       job_log j @ concat (map (\<lambda>js. [DrainMessages, DeleteChannel (src_channel js)]) (job j))"
  using job_abort_log [of j] jobs_wf_abort [of j] by (simp add: jobs_wf_def job_active_def)

theorem abort_ends_every_job_witness:
  "job_log (job_abort (job_nest 4 None (job_nest 3 (Some 0) (no_jobs (\<lambda>_. 0))))) =
     [DrainMessages, DeleteChannel 4, DrainMessages, DeleteChannel 3]"
  using abort_ends_every_job [OF jobs_wf_nest [OF jobs_wf_nest [OF jobs_wf_init]], of 4 None 3 "Some 0" "\<lambda>_. 0"]
  by (simp add: job_nest_def no_jobs_def Let_def)

end
