(* ===== verification/Flowcontrol.thy ===== *)
theory Flowcontrol
  imports Job MachineTypes
begin

text \<open>
  FluidNC/src/Flowcontrol.cpp: the O-word interpreter. The context stack is a list, top
  first. None as the result of an operation is undefined behaviour of the code: reading the
  top of an empty stack, or a job source after its deletion. The expression evaluator of
  Expression.cpp is the argument \<open>ev\<close>: for a line and a position it gives the error code and
  the value. The caller returns at once, so the position behind the expression is dropped.
\<close>

section \<open>Data\<close>

datatype ngc_cmd =
    Op_NoOp | Op_If | Op_ElseIf | Op_Else | Op_EndIf | Op_Do | Op_Continue | Op_Break | Op_While
  | Op_EndWhile | Op_Repeat | Op_EndRepeat | Op_Return | Op_RaiseAlarm | Op_RaiseError

record ngc_entry =
  o_label :: u32
  operation :: ngc_cmd
  efile :: "nat option"
  file_pos :: nat
  expr :: string
  repeats :: u32
  skip :: bool
  handled :: bool
  brk :: bool

text \<open>The state: the context, the jobs, and the alarms raised.\<close>

record flow =
  fcontext :: "ngc_entry list"
  fjobs :: jobs
  alarms :: "int list"

type_synonym evaluator = "string \<Rightarrow> nat \<Rightarrow> error_code \<times> rat"

definition commands :: "(string \<times> ngc_cmd) list" where
  "commands =
     [(''IF'', Op_If), (''ELSEIF'', Op_ElseIf), (''ELSE'', Op_Else), (''ENDIF'', Op_EndIf),
      (''DO'', Op_Do), (''CONTINUE'', Op_Continue), (''BREAK'', Op_Break), (''WHILE'', Op_While),
      (''ENDWHILE'', Op_EndWhile), (''REPEAT'', Op_Repeat), (''ENDREPEAT'', Op_EndRepeat),
      (''RETURN'', Op_Return), (''ALARM'', Op_RaiseAlarm), (''ERROR'', Op_RaiseError)]"

definition is_alpha :: "char \<Rightarrow> bool" where
  "is_alpha c \<longleftrightarrow> 65 \<le> byte c \<and> byte c \<le> 90 \<or> 97 \<le> byte c \<and> byte c \<le> 122"

definition read_command :: "string \<Rightarrow> nat \<Rightarrow> error_code \<times> nat \<times> ngc_cmd" where
  "read_command line pos =
     (let key = takeWhile is_alpha (drop pos line); pos' = pos + length key in
      case map_of commands key of
        None \<Rightarrow> (Error_FlowControlSyntaxError, pos', Op_NoOp)
      | Some cmd \<Rightarrow> (Error_Ok, pos', cmd))"

text \<open>Conversions of a float to an integer cut off the fraction.\<close>

definition trunc_rat :: "rat \<Rightarrow> int" where
  "trunc_rat v = (if v \<ge> 0 then \<lfloor>v\<rfloor> else \<lceil>v\<rceil>)"

section \<open>The stack\<close>

definition stack_push :: "u32 \<Rightarrow> ngc_cmd \<Rightarrow> bool \<Rightarrow> flow \<Rightarrow> flow" where
  "stack_push label cmd sk f =
     f\<lparr>fcontext := \<lparr>o_label = label, operation = cmd, efile = job_source_top (fjobs f), file_pos = 0,
        expr = [], repeats = 0, skip = sk, handled = False, brk = False\<rparr> # fcontext f\<rparr>"

definition stack_pull :: "flow \<Rightarrow> bool \<times> flow" where
  "stack_pull f = (if fcontext f = [] then (False, f) else (True, f\<lparr>fcontext := tl (fcontext f)\<rparr>))"

definition flowcontrol_init :: "flow \<Rightarrow> flow" where
  "flowcontrol_init f = f\<lparr>fcontext := []\<rparr>"

definition unwind_stack :: "flow \<Rightarrow> flow" where
  "unwind_stack f =
     (case fcontext f of
        [] \<Rightarrow> f
      | e # es \<Rightarrow> f\<lparr>fcontext := dropWhile (\<lambda>x. efile x = efile e) (e # es)\<rparr>)"

definition top_upd :: "(ngc_entry \<Rightarrow> ngc_entry) \<Rightarrow> flow \<Rightarrow> flow" where
  "top_upd g f = f\<lparr>fcontext := g (hd (fcontext f)) # tl (fcontext f)\<rparr>"

text \<open>\<open>while (o_label != context.top().o_label && stack_pull())\<close>: None if it runs off the end.\<close>

fun pop_to :: "u32 \<Rightarrow> ngc_entry list \<Rightarrow> ngc_entry list option" where
  "pop_to label [] = None"
| "pop_to label (e # es) = (if o_label e \<noteq> label then pop_to label es else Some (e # es))"

text \<open>The pointer \<open>file\<close> of the top entry: null or deleted is undefined.\<close>

definition top_position :: "flow \<Rightarrow> nat option" where
  "top_position f =
     (case efile (hd (fcontext f)) of None \<Rightarrow> None | Some p \<Rightarrow> src_position p (fjobs f))"

definition top_rewind :: "flow \<Rightarrow> flow option" where
  "top_rewind f =
     (case efile (hd (fcontext f)) of
        None \<Rightarrow> None
      | Some p \<Rightarrow> map_option (\<lambda>j. f\<lparr>fjobs := j\<rparr>) (src_set_position p (file_pos (hd (fcontext f))) (fjobs f)))"

section \<open>The operations\<close>

definition fc_skipping :: "flow \<Rightarrow> bool" where
  "fc_skipping f \<longleftrightarrow> fcontext f \<noteq> [] \<and> skip (hd (fcontext f))"

definition fc_last :: "flow \<Rightarrow> ngc_cmd" where
  "fc_last f = (if fcontext f = [] then Op_NoOp else operation (hd (fcontext f)))"

definition fc_at :: "u32 \<Rightarrow> flow \<Rightarrow> bool" where
  "fc_at label f \<longleftrightarrow> label = o_label (hd (fcontext f))"

type_synonym fc_result = "(error_code \<times> flow) option"

definition fc_if :: "evaluator \<Rightarrow> u32 \<Rightarrow> string \<Rightarrow> nat \<Rightarrow> flow \<Rightarrow> fc_result" where
  "fc_if ev label line pos f =
     (if \<not> fc_skipping f then
        let (st, v) = ev line pos in
        if st = Error_Ok
        then Some (st, top_upd (\<lambda>e. e\<lparr>handled := (v \<noteq> 0)\<rparr>) (stack_push label Op_If (v = 0) f))
        else Some (st, f)
      else Some (Error_Ok, f))"

definition fc_elseif :: "evaluator \<Rightarrow> u32 \<Rightarrow> string \<Rightarrow> nat \<Rightarrow> flow \<Rightarrow> fc_result" where
  "fc_elseif ev label line pos f =
     (if fc_last f = Op_If \<or> fc_last f = Op_ElseIf then
        (if fc_at label f then
           let h = handled (hd (fcontext f)); f1 = top_upd (\<lambda>e. e\<lparr>skip := h\<rparr>) f in
           if \<not> h then
             let (st, v) = ev line pos in
             if st = Error_Ok then
               let f2 = top_upd (\<lambda>e. e\<lparr>skip := (v = 0)\<rparr>) f1 in
               Some (st, if v \<noteq> 0 then top_upd (\<lambda>e. e\<lparr>operation := Op_ElseIf, handled := True\<rparr>) f2 else f2)
             else Some (st, f1)
           else Some (Error_Ok, f1)
         else Some (Error_Ok, f))
      else if \<not> fc_skipping f then Some (Error_FlowControlSyntaxError, f)
      else Some (Error_Ok, f))"

definition fc_else :: "u32 \<Rightarrow> flow \<Rightarrow> fc_result" where
  "fc_else label f =
     (if fc_last f = Op_If \<or> fc_last f = Op_ElseIf then
        (if fc_at label f then
           let h = handled (hd (fcontext f)); f1 = top_upd (\<lambda>e. e\<lparr>skip := h\<rparr>) f in
           Some (Error_Ok, if \<not> h then top_upd (\<lambda>e. e\<lparr>operation := Op_Else\<rparr>) f1 else f1)
         else Some (Error_Ok, f))
      else if \<not> fc_skipping f then Some (Error_FlowControlSyntaxError, f)
      else Some (Error_Ok, f))"

definition fc_endif :: "u32 \<Rightarrow> flow \<Rightarrow> fc_result" where
  "fc_endif label f =
     (if fc_last f = Op_If \<or> fc_last f = Op_ElseIf \<or> fc_last f = Op_Else then
        Some (Error_Ok, if fc_at label f then snd (stack_pull f) else f)
      else if \<not> fc_skipping f then Some (Error_FlowControlSyntaxError, f)
      else Some (Error_Ok, f))"

text \<open>The guard \<open>Job::active()\<close> of the loop operations.\<close>

definition in_job :: "flow \<Rightarrow> fc_result \<Rightarrow> fc_result" where
  "in_job f r = (if job_active (fjobs f) then r else Some (Error_FlowControlNotExecutingMacro, f))"

definition mark_position :: "flow \<Rightarrow> flow option" where
  "mark_position f = map_option (\<lambda>p. top_upd (\<lambda>e. e\<lparr>file_pos := p\<rparr>) f) (top_position f)"

definition fc_do :: "u32 \<Rightarrow> flow \<Rightarrow> fc_result" where
  "fc_do label f =
     in_job f
       (if \<not> fc_skipping f
        then map_option (\<lambda>f'. (Error_Ok, f')) (mark_position (stack_push label Op_Do False f))
        else Some (Error_Ok, f))"

definition fc_while :: "evaluator \<Rightarrow> u32 \<Rightarrow> string \<Rightarrow> nat \<Rightarrow> flow \<Rightarrow> fc_result" where
  "fc_while ev label line pos f =
     in_job f
       (if fcontext f \<noteq> [] \<and> brk (hd (fcontext f)) then
          Some (Error_Ok, if fc_last f = Op_Do \<and> fc_at label f then snd (stack_pull f) else f)
        else if \<not> fc_skipping f then
          let (st, v) = ev line pos in
          if st \<noteq> Error_Ok then Some (st, f)
          else if fc_last f = Op_Do then
            (if fc_at label f then
               (if v \<noteq> 0 then map_option (\<lambda>f'. (st, f')) (top_rewind f) else Some (st, snd (stack_pull f)))
             else Some (st, f))
          else
            let f1 = stack_push label Op_While (v = 0) f in
            if v \<noteq> 0
            then map_option (\<lambda>f'. (st, f')) (mark_position (top_upd (\<lambda>e. e\<lparr>expr := c_str (drop pos line)\<rparr>) f1))
            else Some (st, f1)
        else Some (Error_Ok, f))"

text \<open>The test at the end of a while loop, also taken by \<open>continue\<close>.\<close>

definition while_again :: "evaluator \<Rightarrow> flow \<Rightarrow> fc_result" where
  "while_again ev f =
     (let r = (if \<not> skip (hd (fcontext f)) then
                 let (st, v) = ev (expr (hd (fcontext f))) 0 in
                 if st = Error_Ok then
                   let f1 = top_upd (\<lambda>e. e\<lparr>skip := (v = 0)\<rparr>) f in
                   if v \<noteq> 0 then map_option (\<lambda>f'. (st, f')) (top_rewind f1) else Some (st, f1)
                 else Some (st, f)
               else Some (Error_Ok, f))
      in map_option (\<lambda>(st, f'). (st, if skip (hd (fcontext f')) then snd (stack_pull f') else f')) r)"

definition fc_endwhile :: "evaluator \<Rightarrow> u32 \<Rightarrow> flow \<Rightarrow> fc_result" where
  "fc_endwhile ev label f =
     in_job f
       (if fc_last f = Op_While then
          (if \<not> fc_skipping f \<and> fc_at label f then while_again ev f else Some (Error_Ok, f))
        else if \<not> fc_skipping f then Some (Error_FlowControlSyntaxError, f)
        else Some (Error_Ok, f))"

definition fc_repeat :: "evaluator \<Rightarrow> u32 \<Rightarrow> string \<Rightarrow> nat \<Rightarrow> flow \<Rightarrow> fc_result" where
  "fc_repeat ev label line pos f =
     in_job f
       (if \<not> fc_skipping f then
          let (st, v) = ev line pos in
          if st = Error_Ok then
            let f1 = stack_push label Op_Repeat (v = 0) f in
            if v \<noteq> 0
            then map_option (\<lambda>f'. (st, top_upd (\<lambda>e. e\<lparr>repeats := of_int (trunc_rat v)\<rparr>) f')) (mark_position f1)
            else Some (st, f1)
          else Some (st, f)
        else Some (Error_Ok, f))"

text \<open>The end of one pass, also taken by \<open>continue\<close>: \<open>repeats && --repeats\<close>.\<close>

definition repeat_again :: "flow \<Rightarrow> fc_result" where
  "repeat_again f =
     (if repeats (hd (fcontext f)) \<noteq> 0 then
        let f1 = top_upd (\<lambda>e. e\<lparr>repeats := repeats e - 1\<rparr>) f in
        if repeats (hd (fcontext f1)) \<noteq> 0 then map_option (\<lambda>f'. (Error_Ok, f')) (top_rewind f1)
        else Some (Error_Ok, snd (stack_pull f1))
      else Some (Error_Ok, snd (stack_pull f)))"

definition fc_endrepeat :: "u32 \<Rightarrow> flow \<Rightarrow> fc_result" where
  "fc_endrepeat label f =
     in_job f
       (if fc_last f = Op_Repeat then
          (if fc_at label f then repeat_again f else Some (Error_Ok, f))
        else if \<not> fc_skipping f then Some (Error_FlowControlSyntaxError, f)
        else Some (Error_Ok, f))"

definition fc_break :: "u32 \<Rightarrow> flow \<Rightarrow> fc_result" where
  "fc_break label f =
     in_job f
       (if \<not> fc_skipping f then
          (case pop_to label (fcontext f) of
             None \<Rightarrow> None
           | Some es \<Rightarrow>
               let f1 = f\<lparr>fcontext := es\<rparr>;
                   last_op = (if es \<noteq> [] then Op_NoOp else operation (hd es))
               in if last_op = Op_Do \<or> last_op = Op_While \<or> last_op = Op_Repeat then
                    Some (Error_Ok,
                      if fc_at label f1
                      then top_upd (\<lambda>e. e\<lparr>repeats := 0, brk := True, skip := True, handled := True\<rparr>) f1
                      else f1)
                  else Some (Error_FlowControlSyntaxError, f1))
        else Some (Error_Ok, f))"

definition fc_continue :: "evaluator \<Rightarrow> u32 \<Rightarrow> flow \<Rightarrow> fc_result" where
  "fc_continue ev label f =
     in_job f
       (if \<not> fc_skipping f then
          (case pop_to label (fcontext f) of
             None \<Rightarrow> None
           | Some es \<Rightarrow>
               let f1 = f\<lparr>fcontext := es\<rparr> in
               if es \<noteq> [] \<and> fc_at label f1 then
                 (case operation (hd es) of
                    Op_Repeat \<Rightarrow> repeat_again f1
                  | Op_Do \<Rightarrow> map_option (\<lambda>f'. (Error_Ok, f')) (top_rewind f1)
                  | Op_While \<Rightarrow> while_again ev f1
                  | _ \<Rightarrow> Some (Error_FlowControlSyntaxError, f1))
               else Some (Error_FlowControlSyntaxError, f1))
        else Some (Error_Ok, f))"

definition fc_alarm :: "evaluator \<Rightarrow> string \<Rightarrow> nat \<Rightarrow> flow \<Rightarrow> fc_result" where
  "fc_alarm ev line pos f =
     (if \<not> fc_skipping f \<and> fst (ev line pos) = Error_Ok
      then Some (Error_Ok, f\<lparr>alarms := alarms f @ [trunc_rat (snd (ev line pos))]\<rparr>)
      else Some (Error_Ok, f))"

text \<open>The code is an 8-bit enumeration.\<close>

definition fc_error :: "evaluator \<Rightarrow> string \<Rightarrow> nat \<Rightarrow> flow \<Rightarrow> fc_result" where
  "fc_error ev line pos f =
     (if \<not> fc_skipping f \<and> fst (ev line pos) = Error_Ok
      then Some (nat (trunc_rat (snd (ev line pos)) mod 256), f) else Some (Error_Ok, f))"

section \<open>The whole handler\<close>

definition fc_switch :: "evaluator \<Rightarrow> ngc_cmd \<Rightarrow> u32 \<Rightarrow> string \<Rightarrow> nat \<Rightarrow> flow \<Rightarrow> fc_result" where
  "fc_switch ev cmd label line pos f =
     (case cmd of
        Op_If \<Rightarrow> fc_if ev label line pos f
      | Op_ElseIf \<Rightarrow> fc_elseif ev label line pos f
      | Op_Else \<Rightarrow> fc_else label f
      | Op_EndIf \<Rightarrow> fc_endif label f
      | Op_Do \<Rightarrow> fc_do label f
      | Op_While \<Rightarrow> fc_while ev label line pos f
      | Op_EndWhile \<Rightarrow> fc_endwhile ev label f
      | Op_Repeat \<Rightarrow> fc_repeat ev label line pos f
      | Op_EndRepeat \<Rightarrow> fc_endrepeat label f
      | Op_Break \<Rightarrow> fc_break label f
      | Op_Continue \<Rightarrow> fc_continue ev label f
      | Op_RaiseAlarm \<Rightarrow> fc_alarm ev line pos f
      | Op_RaiseError \<Rightarrow> fc_error ev line pos f
      | Op_Return \<Rightarrow> in_job f (Some (Error_Ok, f))
      | Op_NoOp \<Rightarrow> Some (Error_FlowControlSyntaxError, f))"

text \<open>\<open>sk\<close> is the caller's \<open>skip\<close>, which an unknown command leaves as it is.\<close>

definition flowcontrol ::
  "evaluator \<Rightarrow> u32 \<Rightarrow> string \<Rightarrow> nat \<Rightarrow> bool \<Rightarrow> flow \<Rightarrow> (error_code \<times> bool \<times> flow) option" where
  "flowcontrol ev label line pos sk f =
     (let (st, pos', cmd) = read_command line pos in
      if st \<noteq> Error_Ok then Some (st, sk, f)
      else
        map_option (\<lambda>(st', f'). if st' \<noteq> Error_Ok then (st', False, flowcontrol_init f')
                               else (st', fc_skipping f', f'))
          (fc_switch ev cmd label line pos' f))"

end
