(* ===== verification/FlowSemantics.thy ===== *)
theory FlowSemantics
  imports Flowcontrol
begin

text \<open>
  Structured programs of O-words, what they should do, and that the interpreter does it:
  every line of the job is read in order, the interpreter is called for the lines with an
  O-word, the other lines are executed unless it says to skip.
\<close>

section \<open>Running a job\<close>

datatype src_line = Block string | OWord u32 string

type_synonym 's job_state = "'s \<times> bool \<times> flow"

text \<open>
  One line: \<open>val\<close> evaluates an expression in the state the lines work on, \<open>act\<close> executes a
  line without an O-word. None: the job has ended, or stops with an error.
\<close>

definition job_step ::
  "('s \<Rightarrow> string \<Rightarrow> error_code \<times> rat) \<Rightarrow> (string \<Rightarrow> 's \<Rightarrow> 's) \<Rightarrow> src_line list \<Rightarrow> 's job_state \<Rightarrow> 's job_state option" where
  "job_step val act prog c =
     (case c of (x, sk, f) \<Rightarrow>
        case job (fjobs f) of
          [] \<Rightarrow> None
        | js # _ \<Rightarrow>
            let p = chan_pos (fjobs f) (src_channel js);
                f1 = f\<lparr>fjobs := (fjobs f)\<lparr>chan_pos := (chan_pos (fjobs f))(src_channel js := p + 1)\<rparr>\<rparr>
            in if p < length prog then
                 (case prog ! p of
                    Block a \<Rightarrow> Some (if sk then x else act a x, sk, f1)
                  | OWord l str \<Rightarrow>
                      (case flowcontrol (\<lambda>line pos. val x (drop pos line)) l str 0 sk f1 of
                         None \<Rightarrow> None
                       | Some (st, sk', f2) \<Rightarrow> if st = Error_Ok then Some (x, sk', f2) else None))
               else None)"

definition job_runs ::
  "('s \<Rightarrow> string \<Rightarrow> error_code \<times> rat) \<Rightarrow> (string \<Rightarrow> 's \<Rightarrow> 's) \<Rightarrow> src_line list \<Rightarrow> 's job_state \<Rightarrow> 's job_state \<Rightarrow> bool" where
  "job_runs val act prog = (\<lambda>c c'. job_step val act prog c = Some c')\<^sup>*\<^sup>*"

section \<open>Structured programs\<close>

datatype blk =
    Stop
  | Act string blk
  | IfB u32 string blk alt blk
  | RepB u32 string blk blk
  | DoB u32 blk string blk
  | WhileB u32 string blk blk
and alt = EndAlt | ElseAlt blk | ElseIfAlt string blk alt

fun code :: "blk \<Rightarrow> src_line list" and alt_code :: "u32 \<Rightarrow> alt \<Rightarrow> src_line list" where
  "code Stop = []"
| "code (Act a b) = Block a # code b"
| "code (IfB l e b al r) = OWord l (''IF'' @ e) # code b @ alt_code l al @ code r"
| "code (RepB l e b r) = OWord l (''REPEAT'' @ e) # code b @ OWord l ''ENDREPEAT'' # code r"
| "code (DoB l b e r) = OWord l ''DO'' # code b @ OWord l (''WHILE'' @ e) # code r"
| "code (WhileB l e b r) = OWord l (''WHILE'' @ e) # code b @ OWord l ''ENDWHILE'' # code r"
| "alt_code l EndAlt = [OWord l ''ENDIF'']"
| "alt_code l (ElseAlt b) = OWord l ''ELSE'' # code b @ [OWord l ''ENDIF'']"
| "alt_code l (ElseIfAlt e b al) = OWord l (''ELSEIF'' @ e) # code b @ alt_code l al"

definition expr_text :: "string \<Rightarrow> bool" where
  "expr_text e \<longleftrightarrow> (e = [] \<or> \<not> is_alpha (hd e)) \<and> NUL \<notin> set e"

text \<open>
  Well-formed: expressions do not begin with a letter, no construct has the label of one it
  stands in (\<open>ls\<close>), and no while loop stands directly in the body of a do loop (\<open>d\<close>).
\<close>

fun wf_blk :: "bool \<Rightarrow> u32 list \<Rightarrow> blk \<Rightarrow> bool" and wf_alt :: "u32 list \<Rightarrow> u32 \<Rightarrow> alt \<Rightarrow> bool" where
  "wf_blk d ls Stop = True"
| "wf_blk d ls (Act a b) = wf_blk d ls b"
| "wf_blk d ls (IfB l e b al r) =
     (expr_text e \<and> l \<notin> set ls \<and> wf_blk False (l # ls) b \<and> wf_alt ls l al \<and> wf_blk d ls r)"
| "wf_blk d ls (RepB l e b r) = (expr_text e \<and> l \<notin> set ls \<and> wf_blk False (l # ls) b \<and> wf_blk d ls r)"
| "wf_blk d ls (DoB l b e r) = (expr_text e \<and> l \<notin> set ls \<and> wf_blk True (l # ls) b \<and> wf_blk d ls r)"
| "wf_blk d ls (WhileB l e b r) =
     (expr_text e \<and> \<not> d \<and> l \<notin> set ls \<and> wf_blk False (l # ls) b \<and> wf_blk d ls r)"
| "wf_alt ls l EndAlt = True"
| "wf_alt ls l (ElseAlt b) = wf_blk False (l # ls) b"
| "wf_alt ls l (ElseIfAlt e b al) = (expr_text e \<and> wf_blk False (l # ls) b \<and> wf_alt ls l al)"

text \<open>
  What a program should do. A while loop has a meaning here only if its first test is
  true: the interpreter does not leave the other.
\<close>

inductive exec and exec_alt and exec_rep and exec_do and exec_while
  for val :: "'s \<Rightarrow> string \<Rightarrow> error_code \<times> rat" and act :: "string \<Rightarrow> 's \<Rightarrow> 's" where
  ex_stop: "exec val act Stop x x"
| ex_act: "exec val act b (act a x) y \<Longrightarrow> exec val act (Act a b) x y"
| ex_if: "val x e = (Error_Ok, v) \<Longrightarrow> v \<noteq> 0 \<Longrightarrow> exec val act b x y \<Longrightarrow> exec val act r y z \<Longrightarrow>
    exec val act (IfB l e b al r) x z"
| ex_ifn: "val x e = (Error_Ok, 0) \<Longrightarrow> exec_alt val act al x y \<Longrightarrow> exec val act r y z \<Longrightarrow>
    exec val act (IfB l e b al r) x z"
| ex_rep0: "val x e = (Error_Ok, 0) \<Longrightarrow> exec val act r x z \<Longrightarrow> exec val act (RepB l e b r) x z"
| ex_rep: "val x e = (Error_Ok, v) \<Longrightarrow> v \<noteq> 0 \<Longrightarrow> exec_rep val act b (max 1 (unat (of_int (trunc_rat v) :: u32))) x y \<Longrightarrow>
    exec val act r y z \<Longrightarrow> exec val act (RepB l e b r) x z"
| ex_do: "exec_do val act b e x y \<Longrightarrow> exec val act r y z \<Longrightarrow> exec val act (DoB l b e r) x z"
| ex_while: "val x e = (Error_Ok, v) \<Longrightarrow> v \<noteq> 0 \<Longrightarrow> exec_while val act b e x y \<Longrightarrow> exec val act r y z \<Longrightarrow>
    exec val act (WhileB l e b r) x z"
| al_end: "exec_alt val act EndAlt x x"
| al_else: "exec val act b x y \<Longrightarrow> exec_alt val act (ElseAlt b) x y"
| al_if: "val x e = (Error_Ok, v) \<Longrightarrow> v \<noteq> 0 \<Longrightarrow> exec val act b x y \<Longrightarrow> exec_alt val act (ElseIfAlt e b al) x y"
| al_ifn: "val x e = (Error_Ok, 0) \<Longrightarrow> exec_alt val act al x y \<Longrightarrow> exec_alt val act (ElseIfAlt e b al) x y"
| rp_last: "exec val act b x y \<Longrightarrow> exec_rep val act b 1 x y"
| rp_more: "exec val act b x y \<Longrightarrow> exec_rep val act b (Suc n) y z \<Longrightarrow> exec_rep val act b (Suc (Suc n)) x z"
| do_last: "exec val act b x y \<Longrightarrow> val y e = (Error_Ok, 0) \<Longrightarrow> exec_do val act b e x y"
| do_more: "exec val act b x y \<Longrightarrow> val y e = (Error_Ok, v) \<Longrightarrow> v \<noteq> 0 \<Longrightarrow> exec_do val act b e y z \<Longrightarrow>
    exec_do val act b e x z"
| wh_last: "exec val act b x y \<Longrightarrow> val y e = (Error_Ok, 0) \<Longrightarrow> exec_while val act b e x y"
| wh_more: "exec val act b x y \<Longrightarrow> val y e = (Error_Ok, v) \<Longrightarrow> v \<noteq> 0 \<Longrightarrow> exec_while val act b e y z \<Longrightarrow>
    exec_while val act b e x z"

section \<open>Single lines\<close>

text \<open>The flow state with the given context and the top job at line \<open>p\<close>.\<close>

definition fl :: "flow \<Rightarrow> ngc_entry list \<Rightarrow> nat \<Rightarrow> flow" where
  "fl f es p = f\<lparr>fcontext := es, fjobs := (fjobs f)\<lparr>chan_pos :=
     (chan_pos (fjobs f))(src_channel (hd (job (fjobs f))) := p)\<rparr>\<rparr>"

definition in_file :: "flow \<Rightarrow> ngc_entry \<Rightarrow> bool" where
  "in_file f e \<longleftrightarrow> job_active (fjobs f) \<and> efile e = Some (src_id (hd (job (fjobs f))))"

definition fresh :: "flow \<Rightarrow> u32 \<Rightarrow> ngc_cmd \<Rightarrow> bool \<Rightarrow> ngc_entry" where
  "fresh f l cmd sk = \<lparr>o_label = l, operation = cmd, efile = job_source_top (fjobs f), file_pos = 0,
     expr = [], repeats = 0, skip = sk, handled = False, brk = False\<rparr>"

lemma fl_simps [simp]:
  "fcontext (fl f es p) = es" "job_active (fjobs (fl f es p)) = job_active (fjobs f)"
  "job_source_top (fjobs (fl f es p)) = job_source_top (fjobs f)"
  "(fl f es p)\<lparr>fcontext := es'\<rparr> = fl f es' p"
  "fl (fl f es p) es' p' = fl f es' p'"
  by (simp_all add: fl_def job_active_def job_source_top_def)

lemma fl_ops [simp]:
  "stack_push l cmd sk (fl f es p) = fl f (fresh f l cmd sk # es) p"
  "stack_pull (fl f (e # es) p) = (True, fl f es p)"
  "top_upd g (fl f (e # es) p) = fl f (g e # es) p"
  "fc_skipping (fl f es p) \<longleftrightarrow> es \<noteq> [] \<and> skip (hd es)"
  "fc_last (fl f es p) = (if es = [] then Op_NoOp else operation (hd es))"
  "fc_at l (fl f (e # es) p) \<longleftrightarrow> l = o_label e"
  by (simp_all add: stack_push_def stack_pull_def top_upd_def fc_skipping_def fc_last_def fc_at_def fresh_def)

lemma in_job_active: "job_active (fjobs f) \<Longrightarrow> in_job (fl f es p) r = r"
  by (simp add: in_job_def)

lemma top_position_fl:
  assumes "in_file f e"
  shows "top_position (fl f (e # es) p) = Some p"
  using assms by (cases "job (fjobs f)")
    (auto simp: in_file_def job_active_def top_position_def src_position_def source_at_def fl_def)

lemma top_rewind_fl:
  assumes "in_file f e"
  shows "top_rewind (fl f (e # es) p) = Some (fl f (e # es) (file_pos e))"
  using assms by (cases "job (fjobs f)")
    (auto simp: in_file_def job_active_def top_rewind_def src_set_position_def source_at_def fl_def)

lemma mark_position_fl:
  "in_file f e \<Longrightarrow> mark_position (fl f (e # es) p) = Some (fl f (e\<lparr>file_pos := p\<rparr> # es) p)"
  by (simp add: mark_position_def top_position_fl)

lemma in_file_fresh: "job_active (fjobs f) \<Longrightarrow> in_file f (fresh f l cmd sk)"
  by (cases "job (fjobs f)") (auto simp: in_file_def fresh_def job_active_def job_source_top_def)

lemma in_file_field [simp]:
  "in_file f (e\<lparr>file_pos := q\<rparr>) = in_file f e" "in_file f (e\<lparr>skip := sk\<rparr>) = in_file f e"
  "in_file f (e\<lparr>repeats := n\<rparr>) = in_file f e" "in_file f (e\<lparr>expr := ex\<rparr>) = in_file f e"
  "in_file f (e\<lparr>handled := sk\<rparr>) = in_file f e" "in_file f (e\<lparr>operation := cmd\<rparr>) = in_file f e"
  by (simp_all add: in_file_def)

lemma fresh_simps [simp]:
  "o_label (fresh f l cmd sk) = l" "operation (fresh f l cmd sk) = cmd" "skip (fresh f l cmd sk) = sk"
  "handled (fresh f l cmd sk) = False" "brk (fresh f l cmd sk) = False" "repeats (fresh f l cmd sk) = 0"
  by (simp_all add: fresh_def)

lemma read_command_name:
  assumes "list_all is_alpha name" "expr_text e" "map_of commands name = Some cmd"
  shows "read_command (name @ e) 0 = (Error_Ok, length name, cmd)"
proof -
  have "takeWhile is_alpha (name @ e) = name"
    using assms(1,2) by (cases e) (auto simp: expr_text_def list_all_iff takeWhile_append)
  then show ?thesis using assms(3) by (simp add: read_command_def Let_def)
qed

lemma command_names:
  "list_all is_alpha ''IF''" "list_all is_alpha ''ELSEIF''" "list_all is_alpha ''ELSE''"
  "list_all is_alpha ''ENDIF''" "list_all is_alpha ''DO''" "list_all is_alpha ''WHILE''"
  "list_all is_alpha ''ENDWHILE''" "list_all is_alpha ''REPEAT''" "list_all is_alpha ''ENDREPEAT''"
  by code_simp+

lemma read_commands:
  "expr_text e \<Longrightarrow> read_command (''IF'' @ e) 0 = (Error_Ok, 2, Op_If)"
  "expr_text e \<Longrightarrow> read_command (''ELSEIF'' @ e) 0 = (Error_Ok, 6, Op_ElseIf)"
  "expr_text e \<Longrightarrow> read_command (''WHILE'' @ e) 0 = (Error_Ok, 5, Op_While)"
  "expr_text e \<Longrightarrow> read_command (''REPEAT'' @ e) 0 = (Error_Ok, 6, Op_Repeat)"
  "read_command ''ELSE'' 0 = (Error_Ok, 4, Op_Else)"
  "read_command ''ENDIF'' 0 = (Error_Ok, 5, Op_EndIf)"
  "read_command ''DO'' 0 = (Error_Ok, 2, Op_Do)"
  "read_command ''ENDWHILE'' 0 = (Error_Ok, 8, Op_EndWhile)"
  "read_command ''ENDREPEAT'' 0 = (Error_Ok, 9, Op_EndRepeat)"
  using read_command_name [OF command_names(1), of e Op_If] read_command_name [OF command_names(2), of e Op_ElseIf]
    read_command_name [OF command_names(3), of "[]" Op_Else] read_command_name [OF command_names(4), of "[]" Op_EndIf]
    read_command_name [OF command_names(5), of "[]" Op_Do] read_command_name [OF command_names(6), of e Op_While]
    read_command_name [OF command_names(7), of "[]" Op_EndWhile] read_command_name [OF command_names(8), of e Op_Repeat]
    read_command_name [OF command_names(9), of "[]" Op_EndRepeat]
  by (simp_all add: commands_def expr_text_def)

text \<open>The lines of a piece of code, found in the program at a position.\<close>

definition code_at :: "src_line list \<Rightarrow> nat \<Rightarrow> src_line list \<Rightarrow> bool" where
  "code_at prog p cs \<longleftrightarrow> (\<exists>post. drop p prog = cs @ post)"

lemma code_at_Cons:
  assumes "code_at prog p (c # cs)"
  shows "p < length prog" "prog ! p = c" "code_at prog (p + 1) cs"
proof -
  obtain post where d: "drop p prog = c # cs @ post" using assms by (auto simp: code_at_def)
  then show p: "p < length prog" by (metis drop_eq_Nil list.distinct(1) not_less)
  show "prog ! p = c" using d p by (metis Cons_nth_drop_Suc list.inject)
  have "drop (p + 1) prog = cs @ post" using d p by (metis Cons_nth_drop_Suc Suc_eq_plus1 list.inject)
  then show "code_at prog (p + 1) cs" by (auto simp: code_at_def)
qed

lemma code_at_append:
  assumes "code_at prog p (xs @ ys)"
  shows "code_at prog p xs" "code_at prog (p + length xs) ys"
proof -
  obtain post where d: "drop p prog = xs @ ys @ post" using assms by (auto simp: code_at_def)
  then show "code_at prog p xs" by (auto simp: code_at_def)
  have "drop (p + length xs) prog = drop (length xs) (drop p prog)" by (simp add: add.commute)
  then show "code_at prog (p + length xs) ys" using d by (auto simp: code_at_def)
qed

lemma job_step_fl:
  assumes "job_active (fjobs f)" "p < length prog"
  shows "job_step val act prog (x, sk, fl f es p) =
    (case prog ! p of
       Block a \<Rightarrow> Some (if sk then x else act a x, sk, fl f es (p + 1))
     | OWord l str \<Rightarrow>
         (case flowcontrol (\<lambda>line pos. val x (drop pos line)) l str 0 sk (fl f es (p + 1)) of
            None \<Rightarrow> None
          | Some (st, sk', f2) \<Rightarrow> if st = Error_Ok then Some (x, sk', f2) else None))"
  using assms by (cases "job (fjobs f)"; cases "prog ! p")
    (simp_all add: job_step_def fl_def job_active_def Let_def)

lemma job_step_block:
  assumes "job_active (fjobs f)" "code_at prog p (Block a # cs)"
  shows "job_step val act prog (x, sk, fl f es p) = Some (if sk then x else act a x, sk, fl f es (p + 1))"
  by (simp add: job_step_fl [OF assms(1) code_at_Cons(1) [OF assms(2)]] code_at_Cons(2) [OF assms(2)])

lemma job_step_oword:
  assumes "job_active (fjobs f)" "code_at prog p (OWord l str # cs)"
    and "read_command str 0 = (Error_Ok, n, cmd)"
    and "fc_switch (\<lambda>line pos. val x (drop pos line)) cmd l str n (fl f es (p + 1)) = Some (Error_Ok, fl f es' q)"
  shows "job_step val act prog (x, sk, fl f es p) = Some (x, es' \<noteq> [] \<and> skip (hd es'), fl f es' q)"
  using assms(3,4)
  by (simp add: job_step_fl [OF assms(1) code_at_Cons(1) [OF assms(2)]] code_at_Cons(2) [OF assms(2)] flowcontrol_def)


section \<open>Skipped code\<close>

lemma runs_refl: "job_runs val act prog c c"
  by (simp add: job_runs_def)

lemma runs_step: "job_step val act prog c = Some c' \<Longrightarrow> job_runs val act prog c' c'' \<Longrightarrow> job_runs val act prog c c''"
  unfolding job_runs_def by (rule converse_rtranclp_into_rtranclp)

lemma runs_trans: "job_runs val act prog c c' \<Longrightarrow> job_runs val act prog c' c'' \<Longrightarrow> job_runs val act prog c c''"
  unfolding job_runs_def by (rule rtranclp_trans)

lemma skipped_oword:
  assumes "job_active (fjobs f)" "skip e" "\<not> brk e" "cmd \<noteq> Op_NoOp" "l \<noteq> o_label e"
  shows "fc_switch ev cmd l str n (fl f (e # es) q) = Some (Error_Ok, fl f (e # es) q)"
  using assms by (cases cmd) (simp_all add: fc_switch_def fc_if_def fc_elseif_def fc_else_def fc_endif_def fc_do_def
      fc_while_def fc_endwhile_def fc_repeat_def fc_endrepeat_def fc_break_def fc_continue_def fc_alarm_def
      fc_error_def in_job_active)

lemma skip_line:
  assumes "job_active (fjobs f)" "skip e" "\<not> brk e" "l \<noteq> o_label e"
    and "code_at prog p (OWord l str # cs)" "read_command str 0 = (Error_Ok, n, cmd)" "cmd \<noteq> Op_NoOp"
    and "job_runs val act prog (x, True, fl f (e # es) (p + 1)) c"
  shows "job_runs val act prog (x, True, fl f (e # es) p) c"
  using runs_step [OF job_step_oword [OF assms(1,5,6) skipped_oword [OF assms(1,2,3,7,4)]]] assms(2,8) by simp

lemma skip_code:
  assumes "job_active (fjobs f)" "skip e" "\<not> brk e"
  shows "code_at prog p (code b) \<Longrightarrow> wf_blk d ls b \<Longrightarrow> o_label e \<in> set ls \<Longrightarrow>
      job_runs val act prog (x, True, fl f (e # es) p) (x, True, fl f (e # es) (p + length (code b)))"
    and "code_at prog p (alt_code l al) \<Longrightarrow> wf_alt ls l al \<Longrightarrow> o_label e \<in> set ls \<Longrightarrow> l \<noteq> o_label e \<Longrightarrow>
      job_runs val act prog (x, True, fl f (e # es) p) (x, True, fl f (e # es) (p + length (alt_code l al)))"
proof (induction b and al arbitrary: p d ls and p ls l)
  case Stop
  then show ?case by (simp add: runs_refl)
next
  case (Act a b)
  note at = Act.prems(1) [unfolded code.simps]
  have "job_runs val act prog (x, True, fl f (e # es) (p + 1)) (x, True, fl f (e # es) (p + 1 + length (code b)))"
    by (rule Act.IH [OF code_at_Cons(3) [OF at]]) (use Act.prems in simp_all)
  with runs_step [OF job_step_block [OF assms(1) at, where sk = True]] show ?case by simp
next
  case (IfB l1 c b al r)
  note at = IfB.prems(1) [unfolded code.simps]
  note at1 = code_at_append [OF code_at_Cons(3) [OF at]]
  note at2 = code_at_append [OF at1(2)]
  have wf: "expr_text c" "l1 \<noteq> o_label e" "wf_blk False (l1 # ls) b" "wf_alt ls l1 al" "wf_blk d ls r"
    using IfB.prems(2,3) by auto
  have b: "job_runs val act prog (x, True, fl f (e # es) (p + 1)) (x, True, fl f (e # es) (p + 1 + length (code b)))"
    by (rule IfB.IH(1) [OF at1(1) wf(3)]) (use IfB.prems(3) in simp)
  note r = runs_trans [OF IfB.IH(2) [OF at2(1) wf(4) IfB.prems(3) wf(2)] IfB.IH(3) [OF at2(2) wf(5) IfB.prems(3)]]
  show ?case
    using skip_line [OF assms wf(2) at read_commands(1) [OF wf(1)] _ runs_trans [OF b r]]
    by (simp add: add.assoc)
next
  case (RepB l1 c b r)
  note at = RepB.prems(1) [unfolded code.simps]
  note at1 = code_at_append [OF code_at_Cons(3) [OF at]]
  have wf: "expr_text c" "l1 \<noteq> o_label e" "wf_blk False (l1 # ls) b" "wf_blk d ls r"
    using RepB.prems(2,3) by auto
  have b: "job_runs val act prog (x, True, fl f (e # es) (p + 1)) (x, True, fl f (e # es) (p + 1 + length (code b)))"
    by (rule RepB.IH(1) [OF at1(1) wf(3)]) (use RepB.prems(3) in simp)
  note r = skip_line [OF assms wf(2) at1(2) read_commands(9) _ RepB.IH(2) [OF code_at_Cons(3) [OF at1(2)] wf(4) RepB.prems(3)]]
  show ?case
    using skip_line [OF assms wf(2) at read_commands(4) [OF wf(1)] _ runs_trans [OF b r]]
    by (simp add: add.assoc)
next
  case (DoB l1 b c r)
  note at = DoB.prems(1) [unfolded code.simps]
  note at1 = code_at_append [OF code_at_Cons(3) [OF at]]
  have wf: "expr_text c" "l1 \<noteq> o_label e" "wf_blk True (l1 # ls) b" "wf_blk d ls r"
    using DoB.prems(2,3) by auto
  have b: "job_runs val act prog (x, True, fl f (e # es) (p + 1)) (x, True, fl f (e # es) (p + 1 + length (code b)))"
    by (rule DoB.IH(1) [OF at1(1) wf(3)]) (use DoB.prems(3) in simp)
  note r = skip_line [OF assms wf(2) at1(2) read_commands(3) [OF wf(1)] _ DoB.IH(2) [OF code_at_Cons(3) [OF at1(2)] wf(4) DoB.prems(3)]]
  show ?case
    using skip_line [OF assms wf(2) at read_commands(7) _ runs_trans [OF b r]] by (simp add: add.assoc)
next
  case (WhileB l1 c b r)
  note at = WhileB.prems(1) [unfolded code.simps]
  note at1 = code_at_append [OF code_at_Cons(3) [OF at]]
  have wf: "expr_text c" "l1 \<noteq> o_label e" "wf_blk False (l1 # ls) b" "wf_blk d ls r"
    using WhileB.prems(2,3) by auto
  have b: "job_runs val act prog (x, True, fl f (e # es) (p + 1)) (x, True, fl f (e # es) (p + 1 + length (code b)))"
    by (rule WhileB.IH(1) [OF at1(1) wf(3)]) (use WhileB.prems(3) in simp)
  note r = skip_line [OF assms wf(2) at1(2) read_commands(8) _ WhileB.IH(2) [OF code_at_Cons(3) [OF at1(2)] wf(4) WhileB.prems(3)]]
  show ?case
    using skip_line [OF assms wf(2) at read_commands(3) [OF wf(1)] _ runs_trans [OF b r]]
    by (simp add: add.assoc)
next
  case EndAlt
  then show ?case using skip_line [OF assms EndAlt.prems(4) EndAlt.prems(1) [unfolded alt_code.simps] read_commands(6) _ runs_refl]
    by simp
next
  case (ElseAlt b)
  note at = ElseAlt.prems(1) [unfolded alt_code.simps]
  note at1 = code_at_append [OF code_at_Cons(3) [OF at]]
  have b: "job_runs val act prog (x, True, fl f (e # es) (p + 1)) (x, True, fl f (e # es) (p + 1 + length (code b)))"
    by (rule ElseAlt.IH [OF at1(1), where d = False and ls = "l # ls"]) (use ElseAlt.prems in simp_all)
  note r = skip_line [OF assms ElseAlt.prems(4) at1(2) read_commands(6) _ runs_refl]
  show ?case
    using skip_line [OF assms ElseAlt.prems(4) at read_commands(5) _ runs_trans [OF b r]] by (simp add: add.assoc)
next
  case (ElseIfAlt c b al)
  note at = ElseIfAlt.prems(1) [unfolded alt_code.simps]
  note at1 = code_at_append [OF code_at_Cons(3) [OF at]]
  have wf: "expr_text c" "wf_blk False (l # ls) b" "wf_alt ls l al" using ElseIfAlt.prems(2) by auto
  have b: "job_runs val act prog (x, True, fl f (e # es) (p + 1)) (x, True, fl f (e # es) (p + 1 + length (code b)))"
    by (rule ElseIfAlt.IH(1) [OF at1(1) wf(2)]) (use ElseIfAlt.prems(3) in simp)
  note r = ElseIfAlt.IH(2) [OF at1(2) wf(3) ElseIfAlt.prems(3,4)]
  show ?case
    using skip_line [OF assms ElseIfAlt.prems(4) at read_commands(2) [OF wf(1)] _ runs_trans [OF b r]]
    by (simp add: add.assoc)
qed


section \<open>Executed code\<close>

definition nonskip :: "ngc_entry list \<Rightarrow> bool" where
  "nonskip es \<longleftrightarrow> es = [] \<or> \<not> skip (hd es) \<and> \<not> brk (hd es)"

definition not_do :: "ngc_entry list \<Rightarrow> bool" where
  "not_do es \<longleftrightarrow> es = [] \<or> operation (hd es) \<noteq> Op_Do"

text \<open>One O-word line that goes on with the given context at the given line.\<close>

lemma run_oword:
  assumes "job_active (fjobs f)" "code_at prog p (OWord l str # cs)" "read_command str 0 = (Error_Ok, n, cmd)"
    and "fc_switch (\<lambda>line pos. val x (drop pos line)) cmd l str n (fl f es (p + 1)) = Some (Error_Ok, fl f es' q)"
    and "sk' = (es' \<noteq> [] \<and> skip (hd es'))"
    and "job_runs val act prog (x, sk', fl f es' q) c"
  shows "job_runs val act prog (x, sk, fl f es p) c"
  by (rule runs_step [OF job_step_oword [OF assms(1-3), where val = val and x = x, OF assms(4)]])
    (use assms(5,6) in simp)

lemmas fc_if_ops = fc_switch_def fc_if_def fc_elseif_def fc_else_def fc_endif_def

lemma endif_pops:
  assumes "job_active (fjobs f)" "code_at prog p (OWord (o_label e) ''ENDIF'' # cs)"
    and "operation e = Op_If \<or> operation e = Op_ElseIf \<or> operation e = Op_Else" "nonskip es"
  shows "job_runs val act prog (x, sk, fl f (e # es) p) (x, False, fl f es (p + 1))"
  by (rule run_oword [OF assms(1,2) read_commands(6) _ _ runs_refl])
    (use assms(3,4) in \<open>auto simp: fc_if_ops nonskip_def\<close>)

lemma finish_alt:
  "job_active (fjobs f) \<Longrightarrow> code_at prog p (alt_code (o_label e) al) \<Longrightarrow> wf_alt ls (o_label e) al \<Longrightarrow>
   operation e = Op_If \<or> operation e = Op_ElseIf \<Longrightarrow> handled e \<Longrightarrow> \<not> brk e \<Longrightarrow> nonskip es \<Longrightarrow>
   job_runs val act prog (x, sk, fl f (e # es) p) (x, False, fl f es (p + length (alt_code (o_label e) al)))"
proof (induction al arbitrary: p e sk rule: alt.induct [where ?P1.0 = "\<lambda>_. True"])
  case EndAlt
  have "job_runs val act prog (x, sk, fl f (e # es) p) (x, False, fl f es (p + 1))"
    by (rule endif_pops [OF EndAlt.prems(1) EndAlt.prems(2) [unfolded alt_code.simps]])
      (use EndAlt.prems in auto)
  then show ?case by simp
next
  case (ElseAlt b)
  note at = ElseAlt.prems(2) [unfolded alt_code.simps]
  note at1 = code_at_append [OF code_at_Cons(3) [OF at]]
  let ?e = "e\<lparr>skip := True\<rparr>"
  have b: "job_runs val act prog (x, True, fl f (?e # es) (p + 1)) (x, True, fl f (?e # es) (p + 1 + length (code b)))"
    by (rule skip_code(1) [OF ElseAlt.prems(1) _ _ at1(1)]) (use ElseAlt.prems in auto)
  have "job_runs val act prog (x, True, fl f (?e # es) (p + 1 + length (code b)))
      (x, False, fl f es (p + 1 + length (code b) + 1))"
    by (rule endif_pops [OF ElseAlt.prems(1)]) (use at1(2) ElseAlt.prems in auto)
  note r = runs_trans [OF b this]
  have "job_runs val act prog (x, sk, fl f (e # es) p) (x, False, fl f es (p + 1 + length (code b) + 1))"
    by (rule run_oword [OF ElseAlt.prems(1) at read_commands(5) _ _ r])
      (use ElseAlt.prems in \<open>auto simp: fc_if_ops Let_def\<close>)
  then show ?case by (simp add: add.assoc)
next
  case (ElseIfAlt c b al)
  note at = ElseIfAlt.prems(2) [unfolded alt_code.simps]
  note at1 = code_at_append [OF code_at_Cons(3) [OF at]]
  let ?e = "e\<lparr>skip := True\<rparr>"
  have b: "job_runs val act prog (x, True, fl f (?e # es) (p + 1)) (x, True, fl f (?e # es) (p + 1 + length (code b)))"
    by (rule skip_code(1) [OF ElseIfAlt.prems(1) _ _ at1(1)]) (use ElseIfAlt.prems in auto)
  have "job_runs val act prog (x, True, fl f (?e # es) (p + 1 + length (code b)))
      (x, False, fl f es (p + 1 + length (code b) + length (alt_code (o_label ?e) al)))"
    by (rule ElseIfAlt.IH) (use at1(2) ElseIfAlt.prems in auto)
  note r = runs_trans [OF b this]
  have "job_runs val act prog (x, sk, fl f (e # es) p)
      (x, False, fl f es (p + 1 + length (code b) + length (alt_code (o_label ?e) al)))"
    by (rule run_oword [OF ElseIfAlt.prems(1) at read_commands(2) _ _ r])
      (use ElseIfAlt.prems in \<open>auto simp: fc_if_ops Let_def\<close>)
  then show ?case by (simp add: add.assoc)
qed simp_all

lemmas fc_loop_ops = fc_switch_def fc_do_def fc_while_def fc_endwhile_def fc_repeat_def fc_endrepeat_def
  repeat_again_def while_again_def

lemma expr_text_c_str: "expr_text e \<Longrightarrow> c_str e = e"
  by (auto simp: expr_text_def c_str_def takeWhile_eq_all_conv)

lemma nonskip_Cons [simp]: "nonskip (e # es) \<longleftrightarrow> \<not> skip e \<and> \<not> brk e"
  by (simp add: nonskip_def)

lemma not_do_Cons [simp]: "not_do (e # es) \<longleftrightarrow> operation e \<noteq> Op_Do"
  by (simp add: not_do_def)

lemma repeat_pops:
  assumes "job_active (fjobs f)" "code_at prog p (OWord (o_label e) ''ENDREPEAT'' # cs)"
    and "operation e = Op_Repeat" "unat (repeats e) \<le> 1" "nonskip es"
  shows "job_runs val act prog (x, sk, fl f (e # es) p) (x, False, fl f es (p + 1))"
proof -
  have "repeats e = 0 \<or> repeats e = 1"
    using assms(4) by (metis le_Suc_eq le_zero_eq One_nat_def unsigned_eq_0_iff unsigned_1 unsigned_word_eqI [where ?'a = nat])
  then show ?thesis
    by (intro run_oword [OF assms(1,2) read_commands(9) _ _ runs_refl])
      (use assms in \<open>auto simp: fc_loop_ops in_job_active nonskip_def\<close>)
qed

lemma repeat_rewinds:
  assumes "job_active (fjobs f)" "code_at prog p (OWord (o_label e) ''ENDREPEAT'' # cs)" "in_file f e"
    and "operation e = Op_Repeat" "unat (repeats e) > 1" "\<not> skip e"
    and "job_runs val act prog (x, False, fl f (e\<lparr>repeats := repeats e - 1\<rparr> # es) (file_pos e)) c"
  shows "job_runs val act prog (x, sk, fl f (e # es) p) c"
proof -
  have "repeats e \<noteq> 0" "repeats e - 1 \<noteq> 0"
    using assms(5) by auto
  then show ?thesis
    by (intro run_oword [OF assms(1,2) read_commands(9) _ _ assms(7)])
      (use assms in \<open>auto simp: fc_loop_ops in_job_active top_rewind_fl\<close>)
qed

lemma simulation:
  assumes "job_active (fjobs f)"
  shows "exec val act b x y \<Longrightarrow> code_at prog p (code b) \<Longrightarrow> wf_blk d ls b \<Longrightarrow> nonskip es \<Longrightarrow>
      d \<or> not_do es \<Longrightarrow>
      job_runs val act prog (x, False, fl f es p) (y, False, fl f es (p + length (code b)))"
    and "exec_alt val act al x y \<Longrightarrow> code_at prog p (alt_code (o_label e) al) \<Longrightarrow> wf_alt ls (o_label e) al \<Longrightarrow>
      operation e = Op_If \<or> operation e = Op_ElseIf \<Longrightarrow> skip e \<Longrightarrow> \<not> handled e \<Longrightarrow> \<not> brk e \<Longrightarrow> nonskip es \<Longrightarrow>
      job_runs val act prog (x, True, fl f (e # es) p) (y, False, fl f es (p + length (alt_code (o_label e) al)))"
    and "exec_rep val act b n x y \<Longrightarrow> code_at prog p (code b @ OWord (o_label e) ''ENDREPEAT'' # cs) \<Longrightarrow>
      wf_blk False (o_label e # ls) b \<Longrightarrow> in_file f e \<Longrightarrow> operation e = Op_Repeat \<Longrightarrow> nonskip (e # es) \<Longrightarrow> nonskip es \<Longrightarrow>
      file_pos e = p \<Longrightarrow> max 1 (unat (repeats e)) = n \<Longrightarrow>
      job_runs val act prog (x, False, fl f (e # es) p) (y, False, fl f es (p + length (code b) + 1))"
    and "exec_do val act b c x y \<Longrightarrow> code_at prog p (code b @ OWord (o_label e) (''WHILE'' @ c) # cs) \<Longrightarrow>
      wf_blk True (o_label e # ls) b \<Longrightarrow> expr_text c \<Longrightarrow> in_file f e \<Longrightarrow> operation e = Op_Do \<Longrightarrow>
      nonskip (e # es) \<Longrightarrow> nonskip es \<Longrightarrow> file_pos e = p \<Longrightarrow>
      job_runs val act prog (x, False, fl f (e # es) p) (y, False, fl f es (p + length (code b) + 1))"
    and "exec_while val act b c x y \<Longrightarrow> code_at prog p (code b @ OWord (o_label e) ''ENDWHILE'' # cs) \<Longrightarrow>
      wf_blk False (o_label e # ls) b \<Longrightarrow> in_file f e \<Longrightarrow> operation e = Op_While \<Longrightarrow> expr e = c \<Longrightarrow>
      nonskip (e # es) \<Longrightarrow> nonskip es \<Longrightarrow> file_pos e = p \<Longrightarrow>
      job_runs val act prog (x, False, fl f (e # es) p) (y, False, fl f es (p + length (code b) + 1))"
proof (induction arbitrary: p d ls es and p e ls es and p e ls es cs and p e ls es cs and p e ls es cs
    rule: exec_exec_alt_exec_rep_exec_do_exec_while.inducts)
  case (ex_stop x)
  then show ?case by (simp add: runs_refl)
next
  case (ex_act b a x y)
  note at = ex_act.prems(1) [unfolded code.simps]
  have "job_runs val act prog (act a x, False, fl f es (p + 1)) (y, False, fl f es (p + 1 + length (code b)))"
    by (rule ex_act(2) [OF code_at_Cons(3) [OF at]]) (use ex_act.prems in auto)
  with runs_step [OF job_step_block [OF assms at, where sk = False]] show ?case by simp
next
  case (ex_if x c v b y r z l al)
  note at = ex_if.prems(1) [unfolded code.simps]
  note at1 = code_at_append [OF code_at_Cons(3) [OF at]]
  note at2 = code_at_append [OF at1(2)]
  let ?e = "(fresh f l Op_If False)\<lparr>handled := True\<rparr>"
  have wf: "expr_text c" "wf_blk False (l # ls) b" "wf_alt ls l al" "wf_blk d ls r"
    using ex_if.prems(2) by auto
  have b: "job_runs val act prog (x, False, fl f (?e # es) (p + 1)) (y, False, fl f (?e # es) (p + 1 + length (code b)))"
    by (rule ex_if(3) [OF at1(1) wf(2)]) auto
  have a: "job_runs val act prog (y, False, fl f (?e # es) (p + 1 + length (code b)))
      (y, False, fl f es (p + 1 + length (code b) + length (alt_code l al)))"
    using finish_alt [where val = val and act = act and x = y and sk = False, of f prog "p + 1 + length (code b)" ?e al ls es]
      assms at2(1) wf(3) ex_if.prems(3) by simp
  note run = runs_trans [OF b runs_trans [OF a ex_if(5) [OF at2(2) wf(4) ex_if.prems(3,4)]]]
  have "job_runs val act prog (x, False, fl f es p)
      (z, False, fl f es (p + 1 + length (code b) + length (alt_code l al) + length (code r)))"
    by (rule run_oword [OF assms at read_commands(1) [OF wf(1)] _ _ run])
      (use ex_if(1,6) ex_if.prems in \<open>auto simp: fc_if_ops nonskip_def\<close>)
  then show ?case by (simp add: add.assoc)
next
  case (ex_ifn x c al y r z l b)
  note at = ex_ifn.prems(1) [unfolded code.simps]
  note at1 = code_at_append [OF code_at_Cons(3) [OF at]]
  note at2 = code_at_append [OF at1(2)]
  let ?e = "(fresh f l Op_If True)\<lparr>handled := False\<rparr>"
  have wf: "expr_text c" "wf_blk False (l # ls) b" "wf_alt ls l al" "wf_blk d ls r"
    using ex_ifn.prems(2) by auto
  have b: "job_runs val act prog (x, True, fl f (?e # es) (p + 1)) (x, True, fl f (?e # es) (p + 1 + length (code b)))"
    by (rule skip_code(1) [OF assms _ _ at1(1) wf(2)]) auto
  have a: "job_runs val act prog (x, True, fl f (?e # es) (p + 1 + length (code b)))
      (y, False, fl f es (p + 1 + length (code b) + length (alt_code l al)))"
    using ex_ifn(3) [of "p + 1 + length (code b)" ?e ls es] at2(1) wf(3) ex_ifn.prems(3) by simp
  note run = runs_trans [OF b runs_trans [OF a ex_ifn(5) [OF at2(2) wf(4) ex_ifn.prems(3,4)]]]
  have "job_runs val act prog (x, False, fl f es p)
      (z, False, fl f es (p + 1 + length (code b) + length (alt_code l al) + length (code r)))"
    by (rule run_oword [OF assms at read_commands(1) [OF wf(1)] _ _ run])
      (use ex_ifn(1) ex_ifn.prems in \<open>auto simp: fc_if_ops nonskip_def\<close>)
  then show ?case by (simp add: add.assoc)
next
  case (ex_rep0 x c r z l b)
  note at = ex_rep0.prems(1) [unfolded code.simps]
  note at1 = code_at_append [OF code_at_Cons(3) [OF at]]
  let ?e = "fresh f l Op_Repeat True"
  have wf: "expr_text c" "wf_blk False (l # ls) b" "wf_blk d ls r" using ex_rep0.prems(2) by auto
  have b: "job_runs val act prog (x, True, fl f (?e # es) (p + 1)) (x, True, fl f (?e # es) (p + 1 + length (code b)))"
    by (rule skip_code(1) [OF assms _ _ at1(1) wf(2)]) auto
  have a: "job_runs val act prog (x, True, fl f (?e # es) (p + 1 + length (code b)))
      (x, False, fl f es (p + 1 + length (code b) + 1))"
    by (rule repeat_pops [OF assms]) (use at1(2) ex_rep0.prems(3) in auto)
  note run = runs_trans [OF b runs_trans [OF a ex_rep0(3) [OF code_at_Cons(3) [OF at1(2)] wf(3) ex_rep0.prems(3,4)]]]
  have "job_runs val act prog (x, False, fl f es p)
      (z, False, fl f es (p + 1 + length (code b) + 1 + length (code r)))"
    by (rule run_oword [OF assms at read_commands(4) [OF wf(1)] _ _ run])
      (use ex_rep0(1) ex_rep0.prems assms in \<open>auto simp: fc_loop_ops in_job_active nonskip_def\<close>)
  then show ?case by (simp add: add.assoc)
next
  case (ex_rep x c v b y r z l)
  note at = ex_rep.prems(1) [unfolded code.simps]
  note at1 = code_at_append [OF code_at_Cons(3) [OF at]]
  let ?e = "(fresh f l Op_Repeat False)\<lparr>file_pos := p + 1, repeats := of_int (trunc_rat v)\<rparr>"
  have wf: "expr_text c" "wf_blk False (l # ls) b" "wf_blk d ls r" using ex_rep.prems(2) by auto
  have b: "job_runs val act prog (x, False, fl f (?e # es) (p + 1)) (y, False, fl f es (p + 1 + length (code b) + 1))"
    by (rule ex_rep(3)) (use code_at_Cons(3) [OF at] wf(2) in_file_fresh [OF assms] ex_rep.prems(3) in auto)
  note run = runs_trans [OF b ex_rep(5) [OF code_at_Cons(3) [OF at1(2)] wf(3) ex_rep.prems(3,4)]]
  have "job_runs val act prog (x, False, fl f es p)
      (z, False, fl f es (p + 1 + length (code b) + 1 + length (code r)))"
    by (rule run_oword [OF assms at read_commands(4) [OF wf(1)] _ _ run])
      (use ex_rep(1,6) ex_rep.prems assms in_file_fresh [OF assms] in
        \<open>auto simp: fc_loop_ops in_job_active nonskip_def mark_position_fl\<close>)
  then show ?case by (simp add: add.assoc)
next
  case (ex_do b c x y r z l)
  note at = ex_do.prems(1) [unfolded code.simps]
  note at1 = code_at_append [OF code_at_Cons(3) [OF at]]
  let ?e = "(fresh f l Op_Do False)\<lparr>file_pos := p + 1\<rparr>"
  have wf: "expr_text c" "wf_blk True (l # ls) b" "wf_blk d ls r" using ex_do.prems(2) by auto
  have b: "job_runs val act prog (x, False, fl f (?e # es) (p + 1)) (y, False, fl f es (p + 1 + length (code b) + 1))"
    by (rule ex_do(2)) (use code_at_Cons(3) [OF at] wf(1,2) in_file_fresh [OF assms] ex_do.prems(3) in auto)
  note run = runs_trans [OF b ex_do(4) [OF code_at_Cons(3) [OF at1(2)] wf(3) ex_do.prems(3,4)]]
  have "job_runs val act prog (x, False, fl f es p)
      (z, False, fl f es (p + 1 + length (code b) + 1 + length (code r)))"
    by (rule run_oword [OF assms at read_commands(7) _ _ run])
      (use ex_do.prems assms in_file_fresh [OF assms] in
        \<open>auto simp: fc_loop_ops in_job_active nonskip_def mark_position_fl\<close>)
  then show ?case by (simp add: add.assoc)
next
  case (ex_while x c v b y r z l)
  note at = ex_while.prems(1) [unfolded code.simps]
  note at1 = code_at_append [OF code_at_Cons(3) [OF at]]
  let ?e = "(fresh f l Op_While False)\<lparr>expr := c, file_pos := p + 1\<rparr>"
  have wf: "expr_text c" "wf_blk False (l # ls) b" "wf_blk d ls r" "\<not> d" using ex_while.prems(2) by auto
  have b: "job_runs val act prog (x, False, fl f (?e # es) (p + 1)) (y, False, fl f es (p + 1 + length (code b) + 1))"
    by (rule ex_while(3)) (use code_at_Cons(3) [OF at] wf(1,2) in_file_fresh [OF assms] ex_while.prems(3) in auto)
  note run = runs_trans [OF b ex_while(5) [OF code_at_Cons(3) [OF at1(2)] wf(3) ex_while.prems(3,4)]]
  have "job_runs val act prog (x, False, fl f es p)
      (z, False, fl f es (p + 1 + length (code b) + 1 + length (code r)))"
    by (rule run_oword [OF assms at read_commands(3) [OF wf(1)] _ _ run])
      (use ex_while(1,6) ex_while.prems wf assms in_file_fresh [OF assms] expr_text_c_str [OF wf(1)] in
        \<open>auto simp: fc_loop_ops in_job_active nonskip_def not_do_def mark_position_fl\<close>)
  then show ?case by (simp add: add.assoc)
next
  case (al_end x)
  have "job_runs val act prog (x, True, fl f (e # es) p) (x, False, fl f es (p + 1))"
    by (rule endif_pops [OF assms al_end.prems(1) [unfolded alt_code.simps]]) (use al_end.prems in auto)
  then show ?case by simp
next
  case (al_else b x y)
  note at = al_else.prems(1) [unfolded alt_code.simps]
  note at1 = code_at_append [OF code_at_Cons(3) [OF at]]
  let ?e = "e\<lparr>skip := False, operation := Op_Else\<rparr>"
  have b: "job_runs val act prog (x, False, fl f (?e # es) (p + 1)) (y, False, fl f (?e # es) (p + 1 + length (code b)))"
    by (rule al_else(2) [OF at1(1)]) (use al_else.prems in auto)
  have "job_runs val act prog (y, False, fl f (?e # es) (p + 1 + length (code b)))
      (y, False, fl f es (p + 1 + length (code b) + 1))"
    by (rule endif_pops [OF assms]) (use at1(2) al_else.prems in auto)
  note run = runs_trans [OF b this]
  have "job_runs val act prog (x, True, fl f (e # es) p) (y, False, fl f es (p + 1 + length (code b) + 1))"
    by (rule run_oword [OF assms at read_commands(5) _ _ run]) (use al_else.prems in \<open>auto simp: fc_if_ops Let_def\<close>)
  then show ?case by (simp add: add.assoc)
next
  case (al_if x c v b y al)
  note at = al_if.prems(1) [unfolded alt_code.simps]
  note at1 = code_at_append [OF code_at_Cons(3) [OF at]]
  let ?e = "e\<lparr>skip := False, operation := Op_ElseIf, handled := True\<rparr>"
  have wf: "expr_text c" "wf_blk False (o_label e # ls) b" "wf_alt ls (o_label e) al" using al_if.prems(2) by auto
  have b: "job_runs val act prog (x, False, fl f (?e # es) (p + 1)) (y, False, fl f (?e # es) (p + 1 + length (code b)))"
    by (rule al_if(3) [OF at1(1) wf(2)]) (use al_if.prems in auto)
  have "job_runs val act prog (y, False, fl f (?e # es) (p + 1 + length (code b)))
      (y, False, fl f es (p + 1 + length (code b) + length (alt_code (o_label ?e) al)))"
    by (rule finish_alt [OF assms]) (use at1(2) wf(3) al_if.prems in auto)
  note run = runs_trans [OF b this]
  have "job_runs val act prog (x, True, fl f (e # es) p)
      (y, False, fl f es (p + 1 + length (code b) + length (alt_code (o_label ?e) al)))"
    by (rule run_oword [OF assms at read_commands(2) [OF wf(1)] _ _ run])
      (use al_if(1,4) al_if.prems in \<open>auto simp: fc_if_ops Let_def\<close>)
  then show ?case by (simp add: add.assoc)
next
  case (al_ifn x c al y b)
  note at = al_ifn.prems(1) [unfolded alt_code.simps]
  note at1 = code_at_append [OF code_at_Cons(3) [OF at]]
  let ?e = "e\<lparr>skip := True\<rparr>"
  have wf: "expr_text c" "wf_blk False (o_label e # ls) b" "wf_alt ls (o_label e) al" using al_ifn.prems(2) by auto
  have b: "job_runs val act prog (x, True, fl f (?e # es) (p + 1)) (x, True, fl f (?e # es) (p + 1 + length (code b)))"
    by (rule skip_code(1) [OF assms _ _ at1(1) wf(2)]) (use al_ifn.prems in auto)
  have "job_runs val act prog (x, True, fl f (?e # es) (p + 1 + length (code b)))
      (y, False, fl f es (p + 1 + length (code b) + length (alt_code (o_label ?e) al)))"
    by (rule al_ifn(3)) (use at1(2) wf(3) al_ifn.prems in auto)
  note run = runs_trans [OF b this]
  have "job_runs val act prog (x, True, fl f (e # es) p)
      (y, False, fl f es (p + 1 + length (code b) + length (alt_code (o_label ?e) al)))"
    by (rule run_oword [OF assms at read_commands(2) [OF wf(1)] _ _ run])
      (use al_ifn(1) al_ifn.prems in \<open>auto simp: fc_if_ops Let_def\<close>)
  then show ?case by (simp add: add.assoc)
next
  case (rp_last b x y)
  note at = code_at_append [OF rp_last.prems(1)]
  have b: "job_runs val act prog (x, False, fl f (e # es) p) (y, False, fl f (e # es) (p + length (code b)))"
    by (rule rp_last(2) [OF at(1) rp_last.prems(2)]) (use rp_last.prems in auto)
  have "job_runs val act prog (y, False, fl f (e # es) (p + length (code b)))
      (y, False, fl f es (p + length (code b) + 1))"
    by (rule repeat_pops [OF assms at(2)]) (use rp_last.prems in auto)
  with b show ?case by (rule runs_trans)
next
  case (rp_more b x y n z)
  note at = code_at_append [OF rp_more.prems(1)]
  let ?e = "e\<lparr>repeats := repeats e - 1\<rparr>"
  have n: "unat (repeats e) = Suc (Suc n)" using rp_more.prems(8) by (simp add: max_def split: if_splits)
  then have n1: "unat (repeats e - 1) = Suc n" by (simp add: unat_sub word_le_nat_alt)
  have b: "job_runs val act prog (x, False, fl f (e # es) p) (y, False, fl f (e # es) (p + length (code b)))"
    by (rule rp_more(2) [OF at(1) rp_more.prems(2)]) (use rp_more.prems in auto)
  have more: "job_runs val act prog (y, False, fl f (?e # es) (file_pos e)) (z, False, fl f es (p + length (code b) + 1))"
    unfolding rp_more.prems(7)
    by (rule rp_more(4)) (use rp_more.prems n1 in auto)
  have "job_runs val act prog (y, False, fl f (e # es) (p + length (code b))) (z, False, fl f es (p + length (code b) + 1))"
    by (rule repeat_rewinds [OF assms at(2) _ _ _ _ more]) (use rp_more.prems n in auto)
  with b show ?case by (rule runs_trans)
next
  case (do_last b x y c)
  note at = code_at_append [OF do_last.prems(1)]
  have b: "job_runs val act prog (x, False, fl f (e # es) p) (y, False, fl f (e # es) (p + length (code b)))"
    by (rule do_last(2) [OF at(1) do_last.prems(2)]) (use do_last.prems in auto)
  have "job_runs val act prog (y, False, fl f (e # es) (p + length (code b)))
      (y, False, fl f es (p + length (code b) + 1))"
    by (rule run_oword [OF assms at(2) read_commands(3) [OF do_last.prems(3)] _ _ runs_refl])
      (use do_last(3) do_last.prems assms in \<open>auto simp: fc_loop_ops in_job_active nonskip_def\<close>)
  with b show ?case by (rule runs_trans)
next
  case (do_more b x y c v z)
  note at = code_at_append [OF do_more.prems(1)]
  have b: "job_runs val act prog (x, False, fl f (e # es) p) (y, False, fl f (e # es) (p + length (code b)))"
    by (rule do_more(2) [OF at(1) do_more.prems(2)]) (use do_more.prems in auto)
  have more: "job_runs val act prog (y, False, fl f (e # es) p) (z, False, fl f es (p + length (code b) + 1))"
    by (rule do_more(5)) (use do_more.prems in auto)
  have "job_runs val act prog (y, False, fl f (e # es) (p + length (code b))) (z, False, fl f es (p + length (code b) + 1))"
    by (rule run_oword [OF assms at(2) read_commands(3) [OF do_more.prems(3)] _ _ more])
      (use do_more(3,6) do_more.prems assms in \<open>auto simp: fc_loop_ops in_job_active top_rewind_fl\<close>)
  with b show ?case by (rule runs_trans)
next
  case (wh_last b x y c)
  note at = code_at_append [OF wh_last.prems(1)]
  have b: "job_runs val act prog (x, False, fl f (e # es) p) (y, False, fl f (e # es) (p + length (code b)))"
    by (rule wh_last(2) [OF at(1) wh_last.prems(2)]) (use wh_last.prems in auto)
  have "job_runs val act prog (y, False, fl f (e # es) (p + length (code b)))
      (y, False, fl f es (p + length (code b) + 1))"
    by (rule run_oword [OF assms at(2) read_commands(8) _ _ runs_refl])
      (use wh_last(3) wh_last.prems assms in \<open>auto simp: fc_loop_ops in_job_active nonskip_def\<close>)
  with b show ?case by (rule runs_trans)
next
  case (wh_more b x y c v z)
  note at = code_at_append [OF wh_more.prems(1)]
  have b: "job_runs val act prog (x, False, fl f (e # es) p) (y, False, fl f (e # es) (p + length (code b)))"
    by (rule wh_more(2) [OF at(1) wh_more.prems(2)]) (use wh_more.prems in auto)
  have more: "job_runs val act prog (y, False, fl f (e # es) p) (z, False, fl f es (p + length (code b) + 1))"
    by (rule wh_more(5)) (use wh_more.prems in auto)
  have e: "e\<lparr>skip := False\<rparr> = e" using wh_more.prems(6) by simp
  have "job_runs val act prog (y, False, fl f (e # es) (p + length (code b))) (z, False, fl f es (p + length (code b) + 1))"
    by (rule run_oword [OF assms at(2) read_commands(8) _ _ more])
      (use wh_more(3,6) wh_more.prems assms in \<open>auto simp: e fc_loop_ops in_job_active top_rewind_fl\<close>)
  with b show ?case by (rule runs_trans)
qed

end
