(* ===== verification/FlowProps.thy ===== *)
theory FlowProps
  imports FlowSemantics
begin

text \<open>
  The properties of the O-word interpreter: structured programs do what they say; two commands
  do not do what they mean to.
\<close>

section \<open>Structured programs\<close>

text \<open>
  C11. A structured program of conditionals (with any number of ELSEIF), repeat loops, do
  loops and while loops, nested to any depth, does what its structure says, when that has a
  meaning here (every expression evaluates, every loop ends, and the first test of a while
  loop is true: the interpreter does not leave the other): the job runs to its end with the
  right lines executed in the right order, no error and an empty context. The program is well-formed:
  no construct has the label of one it stands in, expressions do not begin with a letter and
  have no NUL, and no while loop stands directly in the body of a do loop, where the
  interpreter takes its line for the end of the do loop (inside a conditional or another
  loop in that body it may stand). Lines that are not O-words are executed by a parameter.
\<close>

theorem structured_programs_run:
  assumes "exec val act b x y" "wf_blk False [] b" "job_active (fjobs f)"
  shows "job_runs val act (code b) (x, False, fl f [] 0) (y, False, fl f [] (length (code b)))
    \<and> job_step val act (code b) (y, False, fl f [] (length (code b))) = None"
proof
  have "code_at (code b) 0 (code b)" by (auto simp: code_at_def)
  from simulation(1) [OF assms(3,1) this assms(2)]
  show "job_runs val act (code b) (x, False, fl f [] 0) (y, False, fl f [] (length (code b)))"
    by (simp add: nonskip_def not_do_def)
  show "job_step val act (code b) (y, False, fl f [] (length (code b))) = None"
    using assms(3) by (cases "job (fjobs f)") (simp_all add: job_step_def fl_def job_active_def)
qed

definition ex_flow :: flow where
  "ex_flow = \<lparr>fcontext = [], fjobs = job_nest 3 None (no_jobs (\<lambda>_. 0)), alarms = []\<rparr>"

definition ex_val :: "nat \<Rightarrow> string \<Rightarrow> error_code \<times> rat" where
  "ex_val x e = (Error_Ok, if e = ''[3]'' then 3 else if x = 1 then 0 else 1)"

definition ex_act :: "string \<Rightarrow> nat \<Rightarrow> nat" where
  "ex_act a x = (if a = ''A'' then x + 1 else x + 10)"

definition ex_prog :: blk where
  "ex_prog = RepB 1 ''[3]'' (IfB 2 ''[#1]'' (Act ''A'' Stop) (ElseAlt (Act ''B'' Stop)) Stop) Stop"

lemma ex_flow_active: "job_active (fjobs ex_flow)"
  by (simp add: ex_flow_def job_nest_def no_jobs_def job_active_def Let_def)

lemma ex_prog_exec: "exec ex_val ex_act ex_prog 0 12"
proof -
  let ?b = "IfB 2 ''[#1]'' (Act ''A'' Stop) (ElseAlt (Act ''B'' Stop)) Stop"
  have v: "ex_val 0 ''[3]'' = (Error_Ok, 3)" "ex_val 0 ''[#1]'' = (Error_Ok, 1)"
    "ex_val 1 ''[#1]'' = (Error_Ok, 0)" "ex_val 11 ''[#1]'' = (Error_Ok, 1)"
    by (simp_all add: ex_val_def)
  have a: "exec ex_val ex_act (Act ''A'' Stop) x (x + 1)" for x
    using ex_act [OF ex_stop, of ex_val ex_act "''A''" x] by (simp add: ex_act_def)
  have b: "exec ex_val ex_act (Act ''B'' Stop) x (x + 10)" for x
    using ex_act [OF ex_stop, of ex_val ex_act "''B''" x] by (simp add: ex_act_def)
  have 1: "exec ex_val ex_act ?b 0 1" using ex_if [OF v(2) _ a ex_stop] by simp
  have 2: "exec ex_val ex_act ?b 1 11" using ex_ifn [OF v(3) al_else [OF b] ex_stop] by simp
  have 3: "exec ex_val ex_act ?b 11 12" using ex_if [OF v(4) _ a ex_stop] by simp
  have n: "max 1 (unat (of_int (trunc_rat 3) :: u32)) = Suc (Suc 1)"
    by (simp add: trunc_rat_def)
  have "exec_rep ex_val ex_act ?b (Suc (Suc 1)) 0 12"
    using rp_more [OF 1 rp_more [OF 2 rp_last [OF 3, unfolded One_nat_def]]] by simp
  then show ?thesis
    unfolding ex_prog_def
    using ex_rep [where val = ex_val and act = ex_act, OF v(1) _ _ ex_stop, of ?b 12 1, unfolded n] by simp
qed

theorem structured_programs_run_witness:
  "job_runs ex_val ex_act (code ex_prog) (0, False, fl ex_flow [] 0) (12, False, fl ex_flow [] 7)"
proof -
  have "wf_blk False [] ex_prog" by (simp add: ex_prog_def expr_text_def is_alpha_def NUL_def)
  moreover have "length (code ex_prog) = 7" by (simp add: ex_prog_def)
  ultimately show ?thesis using structured_programs_run [OF ex_prog_exec _ ex_flow_active] by simp
qed

section \<open>Commands that do not do what they mean to\<close>

text \<open>
  BREAK never leaves a loop: inside a job and not skipping, it drops the whole context
  and reports a syntax error when its label is that of an open construct, and reads the top
  of an empty stack when it is not.
\<close>

theorem break_never_works:
  assumes "job_active (fjobs f)" "\<not> fc_skipping f" "read_command line pos = (Error_Ok, n, Op_Break)"
  shows "flowcontrol ev label line pos sk f =
    (if label \<in> o_label ` set (fcontext f)
     then Some (Error_FlowControlSyntaxError, False, f\<lparr>fcontext := []\<rparr>) else None)"
proof -
  have "pop_to label es = (if label \<in> o_label ` set es then Some (dropWhile (\<lambda>e. o_label e \<noteq> label) es) else None)"
    for es by (induction es) auto
  moreover have "label \<in> o_label ` set es \<Longrightarrow> dropWhile (\<lambda>e. o_label e \<noteq> label) es \<noteq> []" for es
    by (auto simp: dropWhile_eq_Nil_conv)
  ultimately show ?thesis
    using assms by (auto simp: flowcontrol_def fc_switch_def fc_break_def in_job_def flowcontrol_init_def Let_def)
qed

definition ex_loop :: flow where
  "ex_loop = stack_push 1 Op_Repeat False ex_flow"

theorem break_never_works_witness:
  "flowcontrol (\<lambda>_ _. (Error_Ok, 1)) 1 ''BREAK'' 0 False ex_loop =
     Some (Error_FlowControlSyntaxError, False, ex_flow)"
proof -
  have "read_command ''BREAK'' 0 = (Error_Ok, 5, Op_Break)" by code_simp
  from break_never_works [OF _ _ this, of ex_loop "\<lambda>_ _. (Error_Ok, 1)" 1 False] show ?thesis
    using ex_flow_active by (simp add: ex_loop_def stack_push_def fc_skipping_def) (simp add: ex_flow_def)
qed

text \<open>The O-words of a list of lines in a row: the label, the line and the evaluator of each.\<close>

fun owords :: "(u32 \<times> string \<times> evaluator) list \<Rightarrow> bool \<times> flow \<Rightarrow> (bool \<times> flow) option" where
  "owords [] (sk, f) = Some (sk, f)"
| "owords ((l, str, ev) # rest) (sk, f) =
     (case flowcontrol ev l str 0 sk f of
        Some (st, sk', f') \<Rightarrow> if st = Error_Ok then owords rest (sk', f') else None
      | None \<Rightarrow> None)"

lemma skipped_while:
  assumes "job_active (fjobs f)" "fcontext f = e # es" "operation e = Op_While" "skip e" "\<not> brk e"
    and "read_command str 0 = (Error_Ok, n, cmd)" "cmd \<noteq> Op_NoOp"
  shows "flowcontrol ev l str 0 sk f = Some (Error_Ok, True, f)"
  using assms by (cases cmd) (simp_all add: flowcontrol_def fc_switch_def fc_if_def fc_elseif_def fc_else_def
      fc_endif_def fc_do_def fc_while_def fc_endwhile_def fc_repeat_def fc_endrepeat_def fc_break_def fc_continue_def
      fc_alarm_def fc_error_def in_job_def fc_skipping_def fc_last_def)

text \<open>
  A while loop whose condition is false at its first test is never left: whatever
  O-words follow in the job, its own ENDWHILE among them, the interpreter goes on skipping
  with the same context, so that the rest of the job is not executed.
\<close>

theorem while_false_skips_the_rest:
  assumes "job_active (fjobs f)" "\<not> fc_skipping f" "fc_last f \<noteq> Op_Do" "fcontext f = [] \<or> \<not> brk (hd (fcontext f))"
    and "read_command line 0 = (Error_Ok, n, Op_While)" "ev line n = (Error_Ok, 0)"
    and "flowcontrol ev label line 0 sk f = Some (st, sk', f')"
    and "list_all (\<lambda>(l, str, ev'). \<exists>k cmd. read_command str 0 = (Error_Ok, k, cmd) \<and> cmd \<noteq> Op_NoOp) rest"
  shows "st = Error_Ok \<and> owords rest (sk', f') = Some (True, f')"
proof -
  have f': "f' = stack_push label Op_While True f" "st = Error_Ok" "sk'"
    using assms(1-7) by (auto simp: flowcontrol_def fc_switch_def fc_while_def in_job_def Let_def)
      (auto simp: stack_push_def fc_skipping_def)
  have a: "job_active (fjobs f')" using assms(1) by (simp add: f' stack_push_def)
  obtain e es where "fcontext f' = e # es" "operation e = Op_While" "skip e" "\<not> brk e"
    by (simp add: f' stack_push_def)
  note step = skipped_while [OF a this]
  have "owords rest (True, f') = Some (True, f')"
    using assms(8)
  proof (induction rest)
    case (Cons r rest)
    obtain l str ev' where r: "r = (l, str, ev')" by (cases r)
    with Cons show ?case using step [of str] by auto
  qed simp
  with f' show ?thesis by simp
qed

theorem while_false_skips_the_rest_witness:
  "owords [(1, ''ENDWHILE'', \<lambda>_ _. (Error_Ok, 1)), (2, ''IF[1]'', \<lambda>_ _. (Error_Ok, 1))]
     (True, stack_push 1 Op_While True ex_flow) = Some (True, stack_push 1 Op_While True ex_flow)"
proof -
  let ?ev = "\<lambda>_ _. (Error_Ok, 0) :: error_code \<times> rat"
  have r: "read_command ''WHILE[0]'' 0 = (Error_Ok, 5, Op_While)"
    "read_command ''ENDWHILE'' 0 = (Error_Ok, 8, Op_EndWhile)" "read_command ''IF[1]'' 0 = (Error_Ok, 2, Op_If)"
    by code_simp+
  have "flowcontrol ?ev 1 ''WHILE[0]'' 0 False ex_flow = Some (Error_Ok, True, stack_push 1 Op_While True ex_flow)"
    using ex_flow_active r(1) by (simp add: flowcontrol_def fc_switch_def fc_while_def in_job_def ex_flow_def
        fc_skipping_def fc_last_def stack_push_def)
  from while_false_skips_the_rest [OF ex_flow_active _ _ _ r(1) _ this,
      of "[(1, ''ENDWHILE'', \<lambda>_ _. (Error_Ok, 1)), (2, ''IF[1]'', \<lambda>_ _. (Error_Ok, 1))]"]
  show ?thesis using r(2,3) by (simp add: ex_flow_def fc_skipping_def fc_last_def)
qed

end
