(* ===== verification/CNumbers.thy ===== *)
theory CNumbers
  imports Complex_Main Prelude
begin

text \<open>
  How the C library prints and reads numbers, on exact rationals: \<open>%.*f\<close> rounds the exact
  value half to even, \<open>strtof\<close> reads the longest decimal number. Infinities, hexadecimal
  floats and the rounding of a value to single precision are left out.
\<close>

section \<open>Printing\<close>

definition round_even :: "rat \<Rightarrow> nat" where
  "round_even q =
     (let f = nat \<lfloor>q\<rfloor>; r = q - of_nat f
      in if r < 1 / 2 \<or> r = 1 / 2 \<and> even f then f else f + 1)"

definition show_fixed :: "nat \<Rightarrow> rat \<Rightarrow> string" where
  "show_fixed prec v =
     (let m = round_even (\<bar>v\<bar> * 10 ^ prec); fp = decimal (m mod 10 ^ prec)
      in (if v < 0 then ''-'' else []) @ decimal (m div 10 ^ prec)
         @ (if prec = 0 then [] else ''.'' @ replicate (prec - length fp) (CHR ''0'') @ fp))"

definition show_int :: "int \<Rightarrow> string" where
  "show_int v = (if v < 0 then ''-'' @ decimal (nat (- v)) else decimal (nat v))"

section \<open>Reading\<close>

definition c_space :: "char \<Rightarrow> bool" where
  "c_space c \<longleftrightarrow> byte c = 32 \<or> 9 \<le> byte c \<and> byte c \<le> 13"

text \<open>A sign in front of a number: whether it is negative, and the rest.\<close>

definition read_sign :: "string \<Rightarrow> bool \<times> string" where
  "read_sign p =
     (case p of [] \<Rightarrow> (False, p)
      | c # q \<Rightarrow> if c = CHR ''-'' then (True, q) else if c = CHR ''+'' then (False, q) else (False, p))"

text \<open>The power of ten of an exponent, if there is one.\<close>

definition read_exponent :: "string \<Rightarrow> rat \<times> string" where
  "read_exponent p =
     (case p of
        c # q \<Rightarrow>
          if c = CHR ''e'' \<or> c = CHR ''E'' then
            let (neg, r) = read_sign q; ds = takeWhile is_dec r; n = dec_value 0 ds
            in if ds = [] then (1, p) else (if neg then 1 / 10 ^ n else 10 ^ n, drop (length ds) r)
          else (1, p)
      | [] \<Rightarrow> (1, p))"

definition strtof :: "string \<Rightarrow> (rat \<times> string) option" where
  "strtof p =
     (let (neg, p1) = read_sign (dropWhile c_space p);
          ds = takeWhile is_dec p1; p2 = drop (length ds) p1;
          fs = (if p2 \<noteq> [] \<and> hd p2 = CHR ''.'' then takeWhile is_dec (tl p2) else []);
          p3 = (if p2 \<noteq> [] \<and> hd p2 = CHR ''.'' then drop (length fs) (tl p2) else p2)
      in if ds = [] \<and> fs = [] then None
         else let (e, p4) = read_exponent p3; m = of_nat (dec_value 0 (ds @ fs)) / 10 ^ length fs * e
              in Some (if neg then - m else m, p4))"

end
