(* ===== verification/SandStatus.thy ===== *)
theory SandStatus
  imports CNumbers
begin

text \<open>
  FluidNC/src/SandStatus.cpp: the JSON document of the table's status. A \<open>const char*\<close> that
  may be null is an optional string, floats are rationals. The lemmas read the document
  back with a JSON parser.
\<close>

section \<open>Definitions\<close>

record sand_data =
  sd_state :: string
  kinematics :: "string option"
  cartesian :: bool
  theta :: rat
  rho :: rat
  feed :: rat
  feed_override :: int
  running :: bool
  sd_file :: string
  progress :: rat
  elapsed :: int
  playlist_active :: bool
  playlist_index :: int
  playlist_total :: int
  playlist_pause_remaining :: int
  playlist_pause_total :: int
  sd_playlist_name :: string
  playlist_next :: string
  playlist_last :: string
  playlist_clearing :: bool
  sd_quiet :: bool
  has_led :: bool
  led_effect :: string
  led_active :: "string option"
  led_override :: "string option"
  led_brightness :: int
  led_rgbw :: bool
  has_sd :: bool
  sd_ok :: bool
  last_reset :: "string option"
  uptime :: int
  heap :: int
  heap_min :: int
  heap_largest :: int
  fw :: "string option"
  mcu :: "string option"
  mac :: "string option"
  hostname :: "string option"

definition append_float :: "string \<Rightarrow> rat \<Rightarrow> nat \<Rightarrow> string" where
  "append_float out v prec = out @ take 23 (show_fixed prec v)"

definition append_int :: "string \<Rightarrow> int \<Rightarrow> string" where
  "append_int out v = out @ take 15 (show_int v)"

definition hex_digit :: "nat \<Rightarrow> char" where
  "hex_digit n = (if n < 10 then char_of (48 + n) else char_of (87 + n))"

definition esc_char :: "char \<Rightarrow> string" where
  "esc_char c =
     (if c = CHR 0x22 then [CHR 0x5C, CHR 0x22]
      else if c = CHR 0x5C then [CHR 0x5C, CHR 0x5C]
      else if c = CHR 0x0A then [CHR 0x5C, CHR ''n'']
      else if c = CHR 0x0D then [CHR 0x5C, CHR ''r'']
      else if c = CHR 0x09 then [CHR 0x5C, CHR ''t'']
      else if byte c < 32
      then [CHR 0x5C, CHR ''u'', CHR ''0'', CHR ''0'', hex_digit (byte c div 16), hex_digit (byte c mod 16)]
      else [c])"

definition append_escaped :: "string \<Rightarrow> string \<Rightarrow> string" where
  "append_escaped out s = out @ [CHR 0x22] @ concat (map esc_char (c_str s)) @ [CHR 0x22]"

definition member_str :: "string \<Rightarrow> string \<Rightarrow> string \<Rightarrow> string" where
  "member_str out key v = append_escaped (out @ [CHR 0x22] @ key @ [CHR 0x22] @ '':'') v"

text \<open>The key of a member that is not a string: \<open>,"key":\<close>.\<close>

definition key_text :: "string \<Rightarrow> string" where
  "key_text key = [CHR '','', CHR 0x22] @ key @ [CHR 0x22] @ '':''"

definition bool_text :: "bool \<Rightarrow> string" where
  "bool_text b = (if b then ''true'' else ''false'')"

text \<open>\<open>if (d.fw && *d.fw) { o += ','; member_str(o, "fw", d.fw); }\<close> and its like.\<close>

definition opt_member :: "string \<Rightarrow> string \<Rightarrow> string option \<Rightarrow> string" where
  "opt_member out key v =
     (case v of None \<Rightarrow> out | Some s \<Rightarrow> if c_str s \<noteq> [] then member_str (out @ '','') key s else out)"

text \<open>\<open>if (d.uptime >= 0) { o += ",\"uptime\":"; append_int(o, d.uptime); }\<close> and its like.\<close>

definition opt_int :: "string \<Rightarrow> string \<Rightarrow> int \<Rightarrow> string" where
  "opt_int out key v = (if v \<ge> 0 then append_int (out @ key_text key) v else out)"

definition encode_head :: "sand_data \<Rightarrow> string" where
  "encode_head d =
     (let o1 = member_str ''{'' ''state'' (sd_state d);
          o2 = (case kinematics d of None \<Rightarrow> o1 | Some k \<Rightarrow> member_str (o1 @ '','') ''kinematics'' k);
          o3 = (if cartesian d
                then append_float (append_float (o2 @ key_text ''x'') (theta d) 3 @ key_text ''y'') (rho d) 3
                else append_float (append_float (o2 @ key_text ''theta'') (theta d) 4 @ key_text ''rho'') (rho d) 4);
          o4 = append_float (o3 @ key_text ''feed'') (feed d) 0;
          o5 = append_int (o4 @ key_text ''feed_override'') (feed_override d);
          o6 = o5 @ key_text ''running'' @ bool_text (running d);
          o7 = append_escaped (o6 @ key_text ''file'') (sd_file d);
          o8 = o7 @ key_text ''progress'';
          o9 = (if progress d < 0 then o8 @ ''-1'' else append_float o8 (progress d) 3)
      in append_int (o9 @ key_text ''elapsed'') (if elapsed d < 0 then - 1 else elapsed d))"

definition encode_playlist :: "string \<Rightarrow> sand_data \<Rightarrow> string" where
  "encode_playlist out d =
     (let o1 = out @ key_text ''playlist'' @ ''{'' @ tl (key_text ''active'') @ bool_text (playlist_active d);
          o2 = append_int (o1 @ key_text ''index'') (playlist_index d);
          o3 = append_int (o2 @ key_text ''total'') (playlist_total d);
          o4 = member_str (o3 @ '','') ''name'' (sd_playlist_name d);
          o5 = member_str (o4 @ '','') ''next'' (playlist_next d);
          o6 = member_str (o5 @ '','') ''last'' (playlist_last d);
          o7 = o6 @ key_text ''clearing'' @ bool_text (playlist_clearing d);
          o8 = o7 @ key_text ''quiet'' @ bool_text (sd_quiet d);
          o9 = append_int (o8 @ key_text ''pause_remaining'') (playlist_pause_remaining d)
      in append_int (o9 @ key_text ''pause_total'') (playlist_pause_total d) @ ''}'')"

definition shown_effect :: "sand_data \<Rightarrow> string" where
  "shown_effect d =
     (case led_active d of None \<Rightarrow> led_effect d | Some a \<Rightarrow> if c_str a \<noteq> [] then a else led_effect d)"

definition encode_led :: "string \<Rightarrow> sand_data \<Rightarrow> string" where
  "encode_led out d =
     (if has_led d then
        let o1 = member_str (out @ key_text ''led'' @ ''{'') ''effect'' (led_effect d);
            o2 = member_str (o1 @ '','') ''active'' (shown_effect d);
            o3 = opt_member o2 ''override'' (led_override d);
            o4 = append_int (o3 @ key_text ''brightness'') (led_brightness d)
        in o4 @ key_text ''rgbw'' @ bool_text (led_rgbw d) @ ''}''
      else out)"

definition encode_tail :: "string \<Rightarrow> sand_data \<Rightarrow> string" where
  "encode_tail out d =
     (let o1 = (if has_sd d then out @ key_text ''sd_ok'' @ bool_text (sd_ok d) else out);
          o2 = opt_member o1 ''last_reset'' (last_reset d);
          o3 = opt_int o2 ''uptime'' (uptime d);
          o4 = opt_int o3 ''heap'' (heap d);
          o5 = opt_int o4 ''heap_min'' (heap_min d);
          o6 = opt_int o5 ''heap_largest'' (heap_largest d);
          o7 = opt_member o6 ''fw'' (fw d);
          o8 = opt_member o7 ''mcu'' (mcu d);
          o9 = opt_member o8 ''mac'' (mac d)
      in opt_member o9 ''hostname'' (hostname d) @ ''}'')"

definition encode_status :: "sand_data \<Rightarrow> string" where
  "encode_status d = encode_tail (encode_led (encode_playlist (encode_head d) d) d) d"

fun encode_items :: "bool \<Rightarrow> string \<Rightarrow> (string \<times> string) list \<Rightarrow> string" where
  "encode_items first out [] = out"
| "encode_items first out ((k, v) # items) =
     encode_items False (append_escaped (append_escaped (if first then out else out @ '','') k @ '':'') v) items"

definition encode_object :: "(string \<times> string) list \<Rightarrow> string" where
  "encode_object items = encode_items True ''{'' items @ ''}''"

text \<open>The progress of the motion, in percent: the bytes read less the moves still queued.\<close>

definition executed_percent :: "nat \<Rightarrow> nat \<Rightarrow> nat \<Rightarrow> nat \<Rightarrow> rat" where
  "executed_percent position fsize lines_read queued_blocks =
     (if fsize = 0 then 0
      else
        let pos = of_nat position;
            avg_line = (if lines_read \<noteq> 0 then pos / of_nat lines_read else 0);
            inflight = of_nat queued_blocks * avg_line;
            executed = (if pos > inflight then pos - inflight else 0);
            pct = executed * 100 / of_nat fsize
        in if pct < 0 then 0 else if pct > 100 then 100 else pct)"

section \<open>JSON documents\<close>

datatype json = JStr string | JNum string | JBool bool | JObj "(string \<times> json) list"

definition lit :: "string \<Rightarrow> string" where
  "lit s = [CHR 0x22] @ concat (map esc_char s) @ [CHR 0x22]"

fun render :: "json \<Rightarrow> string" and render_members :: "(string \<times> json) list \<Rightarrow> string" where
  "render (JStr s) = lit s"
| "render (JNum n) = n"
| "render (JBool b) = bool_text b"
| "render (JObj ms) = ''{'' @ render_members ms @ ''}''"
| "render_members [] = []"
| "render_members ((k, v) # ms) =
     lit k @ '':'' @ render v @ (if ms = [] then [] else '','' @ render_members ms)"

definition num_char :: "char \<Rightarrow> bool" where
  "num_char c \<longleftrightarrow> is_dec c \<or> c = CHR ''-'' \<or> c = CHR ''.''"

definition unhex :: "char \<Rightarrow> nat" where
  "unhex c = (if is_dec c then byte c - 48 else byte c - 87)"

text \<open>The characters of a string literal up to the closing quote.\<close>

fun parse_str :: "string \<Rightarrow> (string \<times> string) option" where
  "parse_str [] = None"
| "parse_str (c # cs) =
     (if c = CHR 0x22 then Some ([], cs)
      else if c = CHR 0x5C then
        (case cs of
           [] \<Rightarrow> None
         | e # r \<Rightarrow>
             if e = CHR ''u'' then
               (case r of
                  a # b # x # y # r' \<Rightarrow>
                    map_option (\<lambda>(s, t). (char_of (16 * unhex x + unhex y) # s, t)) (parse_str r')
                | _ \<Rightarrow> None)
             else map_option (\<lambda>(s, t). ((if e = CHR ''n'' then CHR 0x0A else if e = CHR ''r'' then CHR 0x0D
                    else if e = CHR ''t'' then CHR 0x09 else e) # s, t)) (parse_str r))
      else map_option (\<lambda>(s, t). (c # s, t)) (parse_str cs))"

fun parse_val :: "nat \<Rightarrow> string \<Rightarrow> (json \<times> string) option"
  and parse_members :: "nat \<Rightarrow> string \<Rightarrow> ((string \<times> json) list \<times> string) option" where
  "parse_val 0 s = None"
| "parse_val (Suc n) s =
     (case s of
        [] \<Rightarrow> None
      | c # r \<Rightarrow>
          if c = CHR 0x22 then map_option (\<lambda>(x, t). (JStr x, t)) (parse_str r)
          else if c = CHR 0x7B then
            (if r \<noteq> [] \<and> hd r = CHR 0x7D then Some (JObj [], tl r)
             else map_option (\<lambda>(ms, t). (JObj ms, t)) (parse_members n r))
          else if take 4 s = ''true'' then Some (JBool True, drop 4 s)
          else if take 5 s = ''false'' then Some (JBool False, drop 5 s)
          else if num_char c then Some (JNum (takeWhile num_char s), dropWhile num_char s)
          else None)"
| "parse_members 0 s = None"
| "parse_members (Suc n) s =
     (case s of
        [] \<Rightarrow> None
      | c # r \<Rightarrow>
          if c \<noteq> CHR 0x22 then None
          else case parse_str r of
            Some (k, d # r2) \<Rightarrow>
              if d \<noteq> CHR '':'' then None
              else (case parse_val n r2 of
                Some (v, e # r3) \<Rightarrow>
                  if e = CHR '','' then map_option (\<lambda>(ms, t). ((k, v) # ms, t)) (parse_members n r3)
                  else if e = CHR 0x7D then Some ([(k, v)], r3)
                  else None
              | _ \<Rightarrow> None)
          | _ \<Rightarrow> None)"

definition parse_json :: "string \<Rightarrow> json option" where
  "parse_json s = (case parse_val (length s) s of Some (j, []) \<Rightarrow> Some j | _ \<Rightarrow> None)"

section \<open>Reading a rendered document back\<close>

lemma unhex_hex: "n < 16 \<Longrightarrow> unhex (hex_digit n) = n"
  by (cases "n < 10") (simp_all add: hex_digit_def unhex_def is_dec_def of_char_of)

lemma parse_str_esc: "parse_str (esc_char c @ r) = map_option (\<lambda>(s, t). (c # s, t)) (parse_str r)"
proof -
  have u: "char_of (16 * unhex (hex_digit (byte c div 16)) + unhex (hex_digit (byte c mod 16))) = c"
    if "byte c < 32" using that by (simp add: unhex_hex)
  show ?thesis
  proof (cases "c = CHR 0x22 \<or> c = CHR 0x5C \<or> c = CHR 0x0A \<or> c = CHR 0x0D \<or> c = CHR 0x09")
    case True
    then show ?thesis by (elim disjE) (simp_all add: esc_char_def)
  next
    case False
    then show ?thesis by (cases "byte c < 32") (simp_all add: esc_char_def u)
  qed
qed

lemma parse_str_lit: "parse_str (concat (map esc_char s) @ CHR 0x22 # rest) = Some (s, rest)"
  by (induction s) (simp_all add: parse_str_esc)

definition stops :: "string \<Rightarrow> bool" where
  "stops rest \<longleftrightarrow> rest = [] \<or> \<not> num_char (hd rest)"

lemma stops_sep [simp]: "stops (CHR '','' # r)" "stops (CHR 0x7D # r)" "stops []"
  by (simp_all add: stops_def num_char_def is_dec_def)

fun wf_json :: "json \<Rightarrow> bool" and wf_members :: "(string \<times> json) list \<Rightarrow> bool" where
  "wf_json (JStr s) = True"
| "wf_json (JNum n) = (n \<noteq> [] \<and> list_all num_char n)"
| "wf_json (JBool b) = True"
| "wf_json (JObj ms) = wf_members ms"
| "wf_members [] = True"
| "wf_members ((k, v) # ms) = (wf_json v \<and> wf_members ms)"

lemma parse_num:
  assumes "n \<noteq> []" "list_all num_char n" "stops rest"
  shows "parse_val (Suc m) (n @ rest) = Some (JNum n, rest)"
proof -
  obtain c r where n: "n = c # r" using assms(1) by (cases n) auto
  have c: "num_char c" using assms(2) n by simp
  then have d: "c \<noteq> CHR 0x22" "c \<noteq> CHR 0x7B" "c \<noteq> CHR ''t''" "c \<noteq> CHR ''f''"
    by (auto simp: num_char_def is_dec_def)
  have "takeWhile num_char (n @ rest) = n" "dropWhile num_char (n @ rest) = rest"
    using assms(2,3) by (cases rest; simp add: stops_def list_all_iff takeWhile_append)+
  then show ?thesis using c d unfolding n by simp
qed

lemma parse_bool: "parse_val (Suc m) (bool_text b @ rest) = Some (JBool b, rest)"
  by (cases b) (simp_all add: bool_text_def)

lemma render_members_hd: "ms \<noteq> [] \<Longrightarrow> \<exists>r. render_members ms = CHR 0x22 # r"
  by (cases ms rule: render_members.cases) (auto simp: lit_def)

lemma parse_render:
  "wf_json j \<Longrightarrow> length (render j) \<le> n \<Longrightarrow> stops rest \<Longrightarrow> parse_val n (render j @ rest) = Some (j, rest)"
  "wf_members ms \<Longrightarrow> ms \<noteq> [] \<Longrightarrow> length (render_members ms) \<le> n \<Longrightarrow>
   parse_members n (render_members ms @ CHR 0x7D # rest) = Some (ms, rest)"
proof (induction j and ms arbitrary: n rest and n rest rule: render_render_members.induct)
  case (1 s)
  then show ?case by (cases n) (simp_all add: lit_def parse_str_lit)
next
  case (2 x)
  then show ?case by (cases n) (simp_all add: parse_num del: parse_val.simps)
next
  case (3 b)
  then have "n \<noteq> 0" by (cases b) (auto simp: bool_text_def)
  then obtain m where "n = Suc m" by (cases n) auto
  then show ?case using parse_bool [of m b rest] by (simp del: parse_val.simps)
next
  case (4 ms)
  then obtain m where n: "n = Suc m" by (cases n) auto
  show ?case
  proof (cases "ms = []")
    case False
    obtain r where r: "render_members ms = CHR 0x22 # r" using render_members_hd [OF False] by blast
    have "parse_members m (render_members ms @ CHR 0x7D # rest) = Some (ms, rest)"
      by (rule 4(1)) (use 4(2,3) False n in simp_all)
    then show ?thesis using n r by simp
  qed (simp add: n)
next
  case 5
  then show ?case by simp
next
  case (6 k v ms)
  then obtain m where n: "n = Suc m" by (cases n) (auto simp: lit_def)
  let ?t = "(if ms = [] then [] else '','' @ render_members ms) @ CHR 0x7D # rest"
  have "length (render v) \<le> m" using 6(5) n by (simp add: lit_def)
  moreover have "stops ?t" by simp
  ultimately have v: "parse_val m (render v @ ?t) = Some (v, ?t)" using 6(1) 6(3) by simp
  have k: "parse_str (concat (map esc_char k) @ CHR 0x22 # CHR '':'' # render v @ ?t) = Some (k, CHR '':'' # render v @ ?t)"
    by (rule parse_str_lit)
  show ?case
  proof (cases "ms = []")
    case True
    then show ?thesis using v k by (simp add: n lit_def)
  next
    case False
    have "parse_members m (render_members ms @ CHR 0x7D # rest) = Some (ms, rest)"
      by (rule 6(2)) (use 6(3,5) False n in \<open>simp_all add: lit_def\<close>)
    then show ?thesis using v k False by (simp add: n lit_def)
  qed
qed

lemma parse_json_render: "wf_json j \<Longrightarrow> parse_json (render j) = Some j"
  using parse_render(1) [of j "length (render j)" "[]"] by (simp add: parse_json_def)

section \<open>Numbers\<close>

lemma num_chars_decimal: "list_all num_char (decimal n)"
  using decimal_digits [of n] by (auto simp: list_all_iff num_char_def)

lemma take_num: "0 < n \<Longrightarrow> xs \<noteq> [] \<Longrightarrow> list_all num_char xs \<Longrightarrow> take n xs \<noteq> [] \<and> list_all num_char (take n xs)"
  by (auto simp: list_all_iff dest: in_set_takeD)

lemma num_chars: "num_char (CHR ''-'')" "num_char (CHR ''.'')" "num_char (CHR ''0'')"
  by (simp_all add: num_char_def is_dec_def)

lemma show_fixed_num: "take 23 (show_fixed p v) \<noteq> [] \<and> list_all num_char (take 23 (show_fixed p v))"
  by (rule take_num) (use num_chars_decimal num_chars in \<open>auto simp: show_fixed_def Let_def list_all_iff\<close>)

lemma show_int_num: "take 15 (show_int v) \<noteq> [] \<and> list_all num_char (take 15 (show_int v))"
  by (rule take_num) (auto simp: show_int_def num_chars_decimal num_chars)

section \<open>The document of a status\<close>

definition json_fixed :: "nat \<Rightarrow> rat \<Rightarrow> json" where
  "json_fixed p v = JNum (take 23 (show_fixed p v))"

definition json_int :: "int \<Rightarrow> json" where
  "json_int v = JNum (take 15 (show_int v))"

definition json_str :: "string \<Rightarrow> json" where
  "json_str s = JStr (c_str s)"

definition opt_str :: "string \<Rightarrow> string option \<Rightarrow> (string \<times> json) list" where
  "opt_str k v = (case v of None \<Rightarrow> [] | Some s \<Rightarrow> if c_str s \<noteq> [] then [(k, json_str s)] else [])"

definition opt_num :: "string \<Rightarrow> int \<Rightarrow> (string \<times> json) list" where
  "opt_num k v = (if v \<ge> 0 then [(k, json_int v)] else [])"

definition head_members :: "sand_data \<Rightarrow> (string \<times> json) list" where
  "head_members d =
     (case kinematics d of None \<Rightarrow> [] | Some k \<Rightarrow> [(''kinematics'', json_str k)]) @
     (if cartesian d then [(''x'', json_fixed 3 (theta d)), (''y'', json_fixed 3 (rho d))]
      else [(''theta'', json_fixed 4 (theta d)), (''rho'', json_fixed 4 (rho d))]) @
     [(''feed'', json_fixed 0 (feed d)), (''feed_override'', json_int (feed_override d)),
      (''running'', JBool (running d)), (''file'', json_str (sd_file d)),
      (''progress'', if progress d < 0 then JNum ''-1'' else json_fixed 3 (progress d)),
      (''elapsed'', json_int (if elapsed d < 0 then - 1 else elapsed d))]"

definition playlist_members :: "sand_data \<Rightarrow> (string \<times> json) list" where
  "playlist_members d =
     [(''active'', JBool (playlist_active d)), (''index'', json_int (playlist_index d)),
      (''total'', json_int (playlist_total d)), (''name'', json_str (sd_playlist_name d)),
      (''next'', json_str (playlist_next d)), (''last'', json_str (playlist_last d)),
      (''clearing'', JBool (playlist_clearing d)), (''quiet'', JBool (sd_quiet d)),
      (''pause_remaining'', json_int (playlist_pause_remaining d)),
      (''pause_total'', json_int (playlist_pause_total d))]"

definition led_members :: "sand_data \<Rightarrow> (string \<times> json) list" where
  "led_members d =
     [(''effect'', json_str (led_effect d)), (''active'', json_str (shown_effect d))] @
     opt_str ''override'' (led_override d) @
     [(''brightness'', json_int (led_brightness d)), (''rgbw'', JBool (led_rgbw d))]"

definition tail_members :: "sand_data \<Rightarrow> (string \<times> json) list" where
  "tail_members d =
     (if has_sd d then [(''sd_ok'', JBool (sd_ok d))] else []) @
     opt_str ''last_reset'' (last_reset d) @ opt_num ''uptime'' (uptime d) @ opt_num ''heap'' (heap d) @
     opt_num ''heap_min'' (heap_min d) @ opt_num ''heap_largest'' (heap_largest d) @ opt_str ''fw'' (fw d) @
     opt_str ''mcu'' (mcu d) @ opt_str ''mac'' (mac d) @ opt_str ''hostname'' (hostname d)"

definition status_json :: "sand_data \<Rightarrow> json" where
  "status_json d =
     JObj ((''state'', json_str (sd_state d)) # head_members d @ [(''playlist'', JObj (playlist_members d))] @
       (if has_led d then [(''led'', JObj (led_members d))] else []) @ tail_members d)"

definition json_member :: "string \<times> json \<Rightarrow> string" where
  "json_member m = lit (fst m) @ '':'' @ render (snd m)"

definition more_members :: "(string \<times> json) list \<Rightarrow> string" where
  "more_members ms = concat (map (\<lambda>m. '','' @ json_member m) ms)"

lemma more_simps [simp]:
  "more_members [] = []" "more_members (m # ms) = '','' @ json_member m @ more_members ms"
  "more_members (as @ bs) = more_members as @ more_members bs"
  by (simp_all add: more_members_def)

lemma render_more: "render_members (m # ms) = json_member m @ more_members ms"
  by (induction ms arbitrary: m) (auto simp: json_member_def)

definition plain_key :: "string \<Rightarrow> bool" where
  "plain_key k \<longleftrightarrow> list_all (\<lambda>c. esc_char c = [c]) k"

lemma lit_plain: "plain_key k \<Longrightarrow> lit k = [CHR 0x22] @ k @ [CHR 0x22]"
proof -
  assume "plain_key k"
  then have "concat (map esc_char k) = k" by (induction k) (auto simp: plain_key_def)
  then show ?thesis by (simp add: lit_def)
qed

lemma append_escaped_lit: "append_escaped out s = out @ lit (c_str s)"
  by (simp add: append_escaped_def lit_def)

lemma member_str_eq: "plain_key k \<Longrightarrow> member_str out k v = out @ json_member (k, json_str v)"
  by (simp add: member_str_def append_escaped_lit json_member_def json_str_def lit_plain)

lemma key_text_eq: "plain_key k \<Longrightarrow> key_text k = '','' @ lit k @ '':''"
  by (simp add: key_text_def lit_plain)

lemma opt_member_eq: "plain_key k \<Longrightarrow> opt_member out k v = out @ more_members (opt_str k v)"
  by (auto simp: opt_member_def opt_str_def member_str_eq split: option.split)

lemma opt_int_eq: "plain_key k \<Longrightarrow> opt_int out k v = out @ more_members (opt_num k v)"
  by (simp add: opt_int_def opt_num_def append_int_def key_text_eq json_member_def json_int_def)

lemma plain_keys:
  "plain_key ''state''" "plain_key ''kinematics''" "plain_key ''x''" "plain_key ''y''" "plain_key ''theta''"
  "plain_key ''rho''" "plain_key ''feed''" "plain_key ''feed_override''" "plain_key ''running''" "plain_key ''file''"
  "plain_key ''progress''" "plain_key ''elapsed''" "plain_key ''playlist''" "plain_key ''active''" "plain_key ''index''"
  "plain_key ''total''" "plain_key ''name''" "plain_key ''next''" "plain_key ''last''" "plain_key ''clearing''"
  "plain_key ''quiet''" "plain_key ''pause_remaining''" "plain_key ''pause_total''" "plain_key ''led''"
  "plain_key ''effect''" "plain_key ''override''" "plain_key ''brightness''" "plain_key ''rgbw''" "plain_key ''sd_ok''"
  "plain_key ''last_reset''" "plain_key ''uptime''" "plain_key ''heap''" "plain_key ''heap_min''"
  "plain_key ''heap_largest''" "plain_key ''fw''" "plain_key ''mcu''" "plain_key ''mac''" "plain_key ''hostname''"
  by code_simp+

lemmas encode_eqs = member_str_eq key_text_eq opt_member_eq opt_int_eq plain_keys append_escaped_lit

lemma encode_head_eq: "encode_head d = ''{'' @ json_member (''state'', json_str (sd_state d)) @ more_members (head_members d)"
  unfolding encode_head_def head_members_def Let_def
  by (cases "kinematics d"; cases "cartesian d"; cases "progress d < 0")
    (simp_all add: encode_eqs append_float_def append_int_def json_fixed_def json_int_def json_member_def json_str_def)

lemma encode_playlist_eq:
  "encode_playlist out d = out @ more_members [(''playlist'', JObj (playlist_members d))]"
  unfolding encode_playlist_def playlist_members_def Let_def
  by (simp add: encode_eqs append_int_def json_int_def json_member_def json_str_def)

lemma encode_led_eq:
  "encode_led out d = out @ more_members (if has_led d then [(''led'', JObj (led_members d))] else [])"
proof (cases "has_led d")
  case True
  have "render_members (led_members d) = json_member (''effect'', json_str (led_effect d)) @
      more_members ((''active'', json_str (shown_effect d)) # opt_str ''override'' (led_override d) @
        [(''brightness'', json_int (led_brightness d)), (''rgbw'', JBool (led_rgbw d))])"
    unfolding led_members_def by (simp add: render_more del: render_members.simps)
  then show ?thesis
    using True unfolding encode_led_def Let_def
    by (simp add: encode_eqs append_int_def json_int_def json_member_def json_str_def)
qed (simp add: encode_led_def)

lemma encode_tail_eq: "encode_tail out d = out @ more_members (tail_members d) @ ''}''"
  unfolding encode_tail_def tail_members_def Let_def
  by (simp add: encode_eqs json_member_def)

lemma encode_status_eq: "encode_status d = render (status_json d)"
  unfolding encode_status_def status_json_def encode_tail_eq encode_led_eq encode_playlist_eq encode_head_eq
  by (simp add: render_more del: render_members.simps)

lemma wf_members_append [simp]: "wf_members (as @ bs) \<longleftrightarrow> wf_members as \<and> wf_members bs"
  by (induction as) auto

lemma wf_numbers [simp]: "wf_json (json_fixed p v)" "wf_json (json_int i)" "wf_json (json_str s)"
  using show_fixed_num show_int_num by (simp_all add: json_fixed_def json_int_def json_str_def)

lemma wf_optional [simp]: "wf_members (opt_str k v)" "wf_members (opt_num k i)"
  by (simp_all add: opt_str_def opt_num_def split: option.split)

lemma wf_status: "wf_json (status_json d)"
  by (simp add: status_json_def head_members_def playlist_members_def led_members_def tail_members_def num_chars
      num_char_def is_dec_def split: option.split)

text \<open>
  C39. The status is a JSON document whatever the strings in it hold (quotes, backslashes,
  control characters): a JSON parser reads back exactly the object of its members, with the
  optional ones present exactly when they have a value. (The parser takes any run of digits,
  signs and points for a number.)
\<close>

theorem status_is_json: "parse_json (encode_status d) = Some (status_json d)"
  unfolding encode_status_eq by (rule parse_json_render [OF wf_status])

lemma encode_items_eq:
  "encode_items False out items = out @ more_members (map (\<lambda>(k, v). (c_str k, json_str v)) items)"
  by (induction items arbitrary: out) (auto simp: append_escaped_lit json_member_def json_str_def)

text \<open>
  The object of a list of string pairs reads back as these pairs in their order, each
  string up to its first NUL.
\<close>

theorem object_is_json:
  "parse_json (encode_object items) = Some (JObj (map (\<lambda>(k, v). (c_str k, json_str v)) items))"
proof -
  let ?ms = "map (\<lambda>(k, v). (c_str k, json_str v)) items"
  have "encode_object items = render (JObj ?ms)"
  proof (cases items)
    case (Cons p rest)
    obtain k v where p: "p = (k, v)" by (cases p)
    show ?thesis
      unfolding Cons p encode_object_def
      by (simp add: encode_items_eq render_more append_escaped_lit json_member_def json_str_def del: render_members.simps)
  qed (simp add: encode_object_def)
  moreover have "wf_members ?ms" by (induction items) auto
  ultimately show ?thesis using parse_json_render [of "JObj ?ms"] by simp
qed

end
