(* ===== verification/Xmodem.thy ===== *)
theory Xmodem
  imports Prelude
begin

unbundle bit_operations_syntax

text \<open>
  FluidNC/src/xmodem.cpp: the XModem receiver and transmitter. The serial line is what will
  arrive, one item per call of \<open>_inbyte\<close>: a byte or, as None, a timeout; when the list is
  exhausted every call times out. What is sent is collected in \<open>tx\<close>. The result codes are
  those of the code, a length or a negative number.
\<close>

section \<open>The line and the checks\<close>

record xm =
  rx :: "u8 option list"
  tx :: "u8 list"
  xfile :: "u8 list"
  held :: "u8 list"

abbreviation (input) SOH :: u8 where "SOH \<equiv> 0x01"
abbreviation (input) STX :: u8 where "STX \<equiv> 0x02"
abbreviation (input) EOT :: u8 where "EOT \<equiv> 0x04"
abbreviation (input) ACK :: u8 where "ACK \<equiv> 0x06"
abbreviation (input) NAK :: u8 where "NAK \<equiv> 0x15"
abbreviation (input) CAN :: u8 where "CAN \<equiv> 0x18"
abbreviation (input) CTRLZ :: u8 where "CTRLZ \<equiv> 0x1A"
abbreviation (input) CRCCHAR :: u8 where "CRCCHAR \<equiv> 0x43"
abbreviation (input) MAXRETRANS :: nat where "MAXRETRANS \<equiv> 25"

definition inbyte :: "xm \<Rightarrow> u8 option \<times> xm" where
  "inbyte s = (case rx s of [] \<Rightarrow> (None, s) | c # cs \<Rightarrow> (c, s\<lparr>rx := cs\<rparr>))"

definition outbytes :: "u8 list \<Rightarrow> xm \<Rightarrow> xm" where
  "outbytes bs s = s\<lparr>tx := tx s @ bs\<rparr>"

definition flushinput :: "xm \<Rightarrow> xm" where
  "flushinput s = s\<lparr>rx := drop 1 (dropWhile (\<lambda>c. c \<noteq> None) (rx s))\<rparr>"

definition crc16tab :: "u16 list" where
  "crc16tab = [
     0x0000, 0x1021, 0x2042, 0x3063, 0x4084, 0x50a5, 0x60c6, 0x70e7, 0x8108, 0x9129, 0xa14a, 0xb16b,
     0xc18c, 0xd1ad, 0xe1ce, 0xf1ef, 0x1231, 0x0210, 0x3273, 0x2252, 0x52b5, 0x4294, 0x72f7, 0x62d6,
     0x9339, 0x8318, 0xb37b, 0xa35a, 0xd3bd, 0xc39c, 0xf3ff, 0xe3de, 0x2462, 0x3443, 0x0420, 0x1401,
     0x64e6, 0x74c7, 0x44a4, 0x5485, 0xa56a, 0xb54b, 0x8528, 0x9509, 0xe5ee, 0xf5cf, 0xc5ac, 0xd58d,
     0x3653, 0x2672, 0x1611, 0x0630, 0x76d7, 0x66f6, 0x5695, 0x46b4, 0xb75b, 0xa77a, 0x9719, 0x8738,
     0xf7df, 0xe7fe, 0xd79d, 0xc7bc, 0x48c4, 0x58e5, 0x6886, 0x78a7, 0x0840, 0x1861, 0x2802, 0x3823,
     0xc9cc, 0xd9ed, 0xe98e, 0xf9af, 0x8948, 0x9969, 0xa90a, 0xb92b, 0x5af5, 0x4ad4, 0x7ab7, 0x6a96,
     0x1a71, 0x0a50, 0x3a33, 0x2a12, 0xdbfd, 0xcbdc, 0xfbbf, 0xeb9e, 0x9b79, 0x8b58, 0xbb3b, 0xab1a,
     0x6ca6, 0x7c87, 0x4ce4, 0x5cc5, 0x2c22, 0x3c03, 0x0c60, 0x1c41, 0xedae, 0xfd8f, 0xcdec, 0xddcd,
     0xad2a, 0xbd0b, 0x8d68, 0x9d49, 0x7e97, 0x6eb6, 0x5ed5, 0x4ef4, 0x3e13, 0x2e32, 0x1e51, 0x0e70,
     0xff9f, 0xefbe, 0xdfdd, 0xcffc, 0xbf1b, 0xaf3a, 0x9f59, 0x8f78, 0x9188, 0x81a9, 0xb1ca, 0xa1eb,
     0xd10c, 0xc12d, 0xf14e, 0xe16f, 0x1080, 0x00a1, 0x30c2, 0x20e3, 0x5004, 0x4025, 0x7046, 0x6067,
     0x83b9, 0x9398, 0xa3fb, 0xb3da, 0xc33d, 0xd31c, 0xe37f, 0xf35e, 0x02b1, 0x1290, 0x22f3, 0x32d2,
     0x4235, 0x5214, 0x6277, 0x7256, 0xb5ea, 0xa5cb, 0x95a8, 0x8589, 0xf56e, 0xe54f, 0xd52c, 0xc50d,
     0x34e2, 0x24c3, 0x14a0, 0x0481, 0x7466, 0x6447, 0x5424, 0x4405, 0xa7db, 0xb7fa, 0x8799, 0x97b8,
     0xe75f, 0xf77e, 0xc71d, 0xd73c, 0x26d3, 0x36f2, 0x0691, 0x16b0, 0x6657, 0x7676, 0x4615, 0x5634,
     0xd94c, 0xc96d, 0xf90e, 0xe92f, 0x99c8, 0x89e9, 0xb98a, 0xa9ab, 0x5844, 0x4865, 0x7806, 0x6827,
     0x18c0, 0x08e1, 0x3882, 0x28a3, 0xcb7d, 0xdb5c, 0xeb3f, 0xfb1e, 0x8bf9, 0x9bd8, 0xabbb, 0xbb9a,
     0x4a75, 0x5a54, 0x6a37, 0x7a16, 0x0af1, 0x1ad0, 0x2ab3, 0x3a92, 0xfd2e, 0xed0f, 0xdd6c, 0xcd4d,
     0xbdaa, 0xad8b, 0x9de8, 0x8dc9, 0x7c26, 0x6c07, 0x5c64, 0x4c45, 0x3ca2, 0x2c83, 0x1ce0, 0x0cc1,
     0xef1f, 0xff3e, 0xcf5d, 0xdf7c, 0xaf9b, 0xbfba, 0x8fd9, 0x9ff8, 0x6e17, 0x7e36, 0x4e55, 0x5e74,
     0x2e93, 0x3eb2, 0x0ed1, 0x1ef0]"

definition crc_step :: "u16 \<Rightarrow> u8 \<Rightarrow> u16" where
  "crc_step crc b = push_bit 8 crc XOR crc16tab ! unat ((drop_bit 8 crc XOR ucast b) AND 0x00FF)"

definition crc16_ccitt :: "u8 list \<Rightarrow> u16" where
  "crc16_ccitt buf = foldl crc_step 0 buf"

definition checksum :: "u8 list \<Rightarrow> u8" where
  "checksum buf = foldl (+) 0 buf"

text \<open>\<open>buf\<close> holds the data and the bytes of the check behind them.\<close>

definition check :: "bool \<Rightarrow> u8 list \<Rightarrow> nat \<Rightarrow> bool" where
  "check crc buf sz =
     (if crc then crc16_ccitt (take sz buf) = push_bit 8 (ucast (buf ! sz)) + ucast (buf ! (sz + 1))
      else checksum (take sz buf) = buf ! sz)"

section \<open>Receiving\<close>

text \<open>The final packet without its trailing control-Z's, and a packet held back.\<close>

definition strip_ctrlz :: "u8 list \<Rightarrow> u8 list" where
  "strip_ctrlz p = rev (dropWhile (\<lambda>b. b = CTRLZ) (rev p))"

definition flush_packet :: "nat \<Rightarrow> xm \<Rightarrow> nat \<times> xm" where
  "flush_packet tot s =
     (if held s \<noteq> []
      then let p = strip_ctrlz (held s) in (tot + length p, s\<lparr>xfile := xfile s @ p, held := []\<rparr>)
      else (tot, s))"

definition write_packet :: "u8 list \<Rightarrow> nat \<Rightarrow> xm \<Rightarrow> nat \<times> xm" where
  "write_packet buf tot s =
     (if held s \<noteq> []
      then (tot + length (held s), s\<lparr>xfile := xfile s @ held s, held := buf\<rparr>)
      else (tot, s\<lparr>held := buf\<rparr>))"

datatype hunted = Packet u8 nat | GotEot | Cancelled | NoSync

fun hunt :: "nat \<Rightarrow> u8 \<Rightarrow> xm \<Rightarrow> hunted \<times> xm" where
  "hunt 0 trychar s = (NoSync, s)"
| "hunt (Suc n) trychar s =
     (let s1 = (if trychar \<noteq> 0 then outbytes [trychar] s else s) in
      case inbyte s1 of
        (None, s2) \<Rightarrow> hunt n trychar s2
      | (Some c, s2) \<Rightarrow>
          if c = SOH then (Packet c 128, s2)
          else if c = STX then (Packet c 1024, s2)
          else if c = EOT then (GotEot, s2)
          else if c = CAN then
            (case inbyte s2 of (c2, s3) \<Rightarrow>
               if c2 = Some CAN then (Cancelled, s3) else hunt n trychar s3)
          else hunt n trychar s2)"

fun read_bytes :: "nat \<Rightarrow> xm \<Rightarrow> u8 list option \<times> xm" where
  "read_bytes 0 s = (Some [], s)"
| "read_bytes (Suc n) s =
     (case inbyte s of
        (None, s1) \<Rightarrow> (None, s1)
      | (Some c, s1) \<Rightarrow> (case read_bytes n s1 of (r, s2) \<Rightarrow> (map_option ((#) c) r, s2)))"

text \<open>The local variables that live across packets.\<close>

record rcv =
  trychar :: u8
  use_crc :: bool
  packetno :: u8
  retrans :: int
  total_len :: nat

definition give_up :: "xm \<Rightarrow> xm" where
  "give_up s = outbytes [CAN, CAN, CAN] (flushinput s)"

text \<open>
  From \<open>start_recv\<close> on: either the loop goes on with the given variables, or it returns.
\<close>

definition recv_packet :: "nat \<Rightarrow> rcv \<Rightarrow> xm \<Rightarrow> (int + rcv) \<times> xm" where
  "recv_packet bufsz v s =
     (let v1 = v\<lparr>use_crc := (if trychar v = CRCCHAR then True else use_crc v), trychar := 0\<rparr>;
          reject = (\<lambda>v s. (Inr v, outbytes [NAK] (flushinput s)))
      in case read_bytes (bufsz + (if use_crc v1 then 1 else 0) + 3) s of
           (None, s1) \<Rightarrow> reject v1 s1
         | (Some xs, s1) \<Rightarrow>
             if xs ! 0 = NOT (xs ! 1) \<and> (xs ! 0 = packetno v1 \<or> uint (xs ! 0) = uint (packetno v1) - 1)
                \<and> check (use_crc v1) (drop 2 xs) bufsz then
               (let (v2, s2) =
                      (if xs ! 0 = packetno v1 then
                         let (t, s') = write_packet (take bufsz (drop 2 xs)) (total_len v1) s1
                         in (v1\<lparr>total_len := t, packetno := packetno v1 + 1, retrans := int MAXRETRANS + 1\<rparr>, s')
                       else (v1, s1));
                    v3 = v2\<lparr>retrans := retrans v2 - 1\<rparr>
                in if retrans v3 \<le> 0 then (Inl (- 3), give_up s2)
                   else (Inr v3, outbytes [ACK] s2))
             else reject v1 s1)"

lemma inbyte_length: "inbyte s = (c, s') \<Longrightarrow> length (rx s') \<le> length (rx s) \<and> (c \<noteq> None \<longrightarrow> length (rx s') < length (rx s))"
  by (auto simp: inbyte_def split: list.splits)

lemma rx_out [simp]: "rx (outbytes bs s) = rx s"
  by (simp add: outbytes_def)

lemma flush_length: "length (rx (flushinput s)) \<le> length (rx s)"
  using length_dropWhile_le [of "\<lambda>c. c \<noteq> None" "rx s"] by (simp add: flushinput_def)

lemma hunt_length:
  "hunt n t s = (r, s') \<Longrightarrow> length (rx s') \<le> length (rx s) \<and> (r \<noteq> NoSync \<longrightarrow> length (rx s') < length (rx s))"
proof (induction n t s arbitrary: r s' rule: hunt.induct)
  case (2 n t s)
  obtain c s2 where i: "inbyte (if t \<noteq> 0 then outbytes [t] s else s) = (c, s2)" by fastforce
  note l = inbyte_length [OF i]
  show ?case
  proof (cases c)
    case None
    then show ?thesis using 2 i l by (fastforce simp: Let_def split: if_splits)
  next
    case (Some b)
    obtain c2 s3 where j: "inbyte s2 = (c2, s3)" by fastforce
    note l2 = inbyte_length [OF j]
    show ?thesis using 2 i l Some j l2 by (fastforce simp: Let_def split: if_splits)
  qed
qed simp

lemma read_length: "read_bytes n s = (r, s') \<Longrightarrow> length (rx s') \<le> length (rx s)"
proof (induction n s arbitrary: r s' rule: read_bytes.induct)
  case (2 n s)
  obtain c s1 where i: "inbyte s = (c, s1)" by fastforce
  obtain r1 s2 where j: "read_bytes n s1 = (r1, s2)" by fastforce
  show ?case
  proof (cases c)
    case None
    then show ?thesis using 2(2) i inbyte_length [OF i] by simp
  next
    case (Some b)
    have "length (rx s2) \<le> length (rx s1)" by (rule 2(1) [OF i [symmetric] Some j])
    then show ?thesis using 2(2) i Some j inbyte_length [OF i] by simp
  qed
qed simp

lemma write_packet_rx: "rx (snd (write_packet b t s)) = rx s"
  by (simp add: write_packet_def)

lemma recv_length:
  assumes "recv_packet bufsz v s = (r, s')"
  shows "length (rx s') \<le> length (rx s)"
proof -
  obtain c s1 where r: "read_bytes (bufsz + (if trychar v = CRCCHAR \<or> use_crc v then 1 else 0) + 3) s = (c, s1)"
    by fastforce
  have l: "length (rx s1) \<le> length (rx s)" using read_length [OF r] .
  have w: "rx (snd (write_packet b t s1)) = rx s1" for b t by (rule write_packet_rx)
  have "rx s' = rx s1 \<or> rx s' = rx (flushinput s1) \<or> (\<exists>b t. s' = give_up (snd (write_packet b t s1))) \<or> s' = give_up s1"
    using assms r w
    by (auto simp: recv_packet_def Let_def split_beta split: option.splits if_splits)
  then show ?thesis
  proof (elim disjE exE)
    fix b t assume "s' = give_up (snd (write_packet b t s1))"
    then show ?thesis using l flush_length [of "snd (write_packet b t s1)"] w [of b t] by (simp add: give_up_def)
  qed (use l flush_length [of s1] in \<open>auto simp: give_up_def\<close>)
qed

function receive_loop :: "rcv \<Rightarrow> xm \<Rightarrow> int \<times> xm" where
  "receive_loop v s =
     (case hunt 16 (trychar v) s of
        (Packet c bufsz, s1) \<Rightarrow>
          (case recv_packet bufsz v s1 of
             (Inl code, s2) \<Rightarrow> (code, s2)
           | (Inr v', s2) \<Rightarrow> receive_loop v' s2)
      | (GotEot, s1) \<Rightarrow>
          (case flush_packet (total_len v) s1 of
             (t, s2) \<Rightarrow> (int t, flushinput (outbytes [ACK] s2)))
      | (Cancelled, s1) \<Rightarrow> (- 1, outbytes [ACK] (flushinput s1))
      | (NoSync, s1) \<Rightarrow>
          if trychar v = CRCCHAR then receive_loop (v\<lparr>trychar := NAK\<rparr>) s1
          else (- 2, give_up s1))"
  by pat_completeness auto
termination
proof (relation "inv_image (less_than <*lex*> less_than)
      (\<lambda>(v, s). (length (rx s), if trychar v = CRCCHAR then 1 else 0))", goal_cases)
  case 1
  show ?case by auto
next
  case (2 v s r s1 c bufsz w s2 v')
  then show ?case using hunt_length [of 16 "trychar v" s "Packet c bufsz" s1] recv_length [of bufsz v s1 "Inr v'" s2]
    by auto
next
  case (3 v s r s1)
  then show ?case using hunt_length [of 16 "trychar v" s NoSync s1] by auto
qed

definition xmodemReceive :: "u8 option list \<Rightarrow> int \<times> xm" where
  "xmodemReceive line =
     receive_loop \<lparr>trychar = CRCCHAR, use_crc = False, packetno = 1, retrans = int MAXRETRANS, total_len = 0\<rparr>
       \<lparr>rx = line, tx = [], xfile = [], held = []\<rparr>"

section \<open>Transmitting\<close>

datatype sync = SyncCrc bool | SyncCancel | SyncNone

fun wait_sync :: "nat \<Rightarrow> xm \<Rightarrow> sync \<times> xm" where
  "wait_sync 0 s = (SyncNone, s)"
| "wait_sync (Suc n) s =
     (case inbyte s of
        (None, s1) \<Rightarrow> wait_sync n s1
      | (Some c, s1) \<Rightarrow>
          if c = CRCCHAR then (SyncCrc True, s1)
          else if c = NAK then (SyncCrc False, s1)
          else if c = CAN then
            (case inbyte s1 of (c2, s2) \<Rightarrow> if c2 = Some CAN then (SyncCancel, s2) else wait_sync n s2)
          else wait_sync n s1)"

definition packet :: "bool \<Rightarrow> u8 \<Rightarrow> u8 list \<Rightarrow> u8 list" where
  "packet crc no block =
     (let xs = block @ replicate (1024 - length block) CTRLZ;
          ccrc = crc16_ccitt xs
      in [STX, no, NOT no] @ xs @
         (if crc then [ucast (drop_bit 8 ccrc AND 0xFF), ucast (ccrc AND 0xFF)] else [checksum xs]))"

datatype sent = Acked | SentCancel | SendFailed

fun send_packet :: "nat \<Rightarrow> u8 list \<Rightarrow> xm \<Rightarrow> sent \<times> xm" where
  "send_packet 0 pkt s = (SendFailed, s)"
| "send_packet (Suc n) pkt s =
     (case inbyte (outbytes pkt s) of
        (None, s1) \<Rightarrow> send_packet n pkt s1
      | (Some c, s1) \<Rightarrow>
          if c = ACK then (Acked, s1)
          else if c = CAN then
            (case inbyte s1 of (c2, s2) \<Rightarrow> if c2 = Some CAN then (SentCancel, s2) else send_packet n pkt s2)
          else send_packet n pkt s1)"

text \<open>The end of the transmission: whether the last EOT was acknowledged.\<close>

fun send_eot :: "nat \<Rightarrow> xm \<Rightarrow> bool \<times> xm" where
  "send_eot 0 s = (False, s)"
| "send_eot (Suc n) s =
     (case inbyte (outbytes [EOT] s) of (c, s1) \<Rightarrow> if c = Some ACK then (True, s1) else send_eot n s1)"

text \<open>\<open>data\<close> is what is left of the file.\<close>

function transmit_loop :: "bool \<Rightarrow> u8 \<Rightarrow> nat \<Rightarrow> u8 list \<Rightarrow> xm \<Rightarrow> int \<times> xm" where
  "transmit_loop crc no len data s =
     (if data \<noteq> [] then
        (case send_packet MAXRETRANS (packet crc no (take 1024 data)) s of
           (Acked, s1) \<Rightarrow> transmit_loop crc (no + 1) (len + 1024) (drop 1024 data) s1
         | (SentCancel, s1) \<Rightarrow> (- 1, flushinput (outbytes [ACK] s1))
         | (SendFailed, s1) \<Rightarrow> (- 4, flushinput (outbytes [CAN, CAN, CAN] s1)))
      else
        (case send_eot 10 s of (ok, s1) \<Rightarrow> (if ok then int len else - 5, flushinput s1)))"
  by pat_completeness auto
termination by (relation "measure (\<lambda>(crc, no, len, data, s). length data)") auto

declare receive_loop.simps [simp del] transmit_loop.simps [simp del]

definition xmodemTransmit :: "u8 list \<Rightarrow> u8 option list \<Rightarrow> int \<times> xm" where
  "xmodemTransmit data line =
     (case wait_sync 16 \<lparr>rx = line, tx = [], xfile = data, held = []\<rparr> of
        (SyncCrc crc, s) \<Rightarrow> transmit_loop crc 1 0 data s
      | (SyncCancel, s) \<Rightarrow> (- 1, flushinput (outbytes [ACK] s))
      | (SyncNone, s) \<Rightarrow> (- 2, flushinput (outbytes [CAN, CAN, CAN] s)))"

section \<open>The table-driven CRC\<close>

text \<open>One bit of the division by the CCITT polynomial, most significant bit first.\<close>

definition crc_bit :: "u16 \<Rightarrow> u16" where
  "crc_bit x = (if bit x 15 then push_bit 1 x XOR 0x1021 else push_bit 1 x)"

definition crc_byte :: "u16 \<Rightarrow> u8 \<Rightarrow> u16" where
  "crc_byte crc b = (crc_bit ^^ 8) (crc XOR push_bit 8 (ucast b))"

lemma crc_bit_xor: "crc_bit (x XOR y) = crc_bit x XOR crc_bit y"
  by (simp add: crc_bit_def bit_xor_iff push_bit_xor ac_simps)

lemma crc_bits_xor: "(crc_bit ^^ n) (x XOR y) = (crc_bit ^^ n) x XOR (crc_bit ^^ n) y"
  by (induction n) (simp_all add: crc_bit_xor)

lemma crc_bits_low: "n \<le> 8 \<Longrightarrow> (crc_bit ^^ n) (take_bit 8 x) = push_bit n (take_bit 8 x)"
proof (induction n)
  case (Suc n)
  then have "\<not> bit (push_bit n (take_bit 8 x)) 15" by (auto simp: bit_push_bit_iff bit_take_bit_iff)
  then show ?case using Suc by (simp add: crc_bit_def push_bit_push_bit)
qed simp

text \<open>
  The CRC is linear, so that the entries at the powers of two determine the table: it is
  the exclusive or of them.
\<close>

definition crc_entry :: "nat \<Rightarrow> u16" where
  "crc_entry k = (crc_bit ^^ 8) (push_bit 8 (of_nat k))"

definition xor_table :: "u16 list \<Rightarrow> u16 list" where
  "xor_table es = foldl (\<lambda>t e. t @ map (\<lambda>x. x XOR e) t) [0] es"

lemma crc_entry_add:
  assumes "m < 2 ^ n"
  shows "crc_entry (2 ^ n + m) = crc_entry m XOR crc_entry (2 ^ n)"
proof -
  have "\<not> bit m n" using assms by (metis bit_take_bit_iff less_irrefl take_bit_nat_eq_self)
  then have "m + 2 ^ n = m XOR 2 ^ n" by (intro disjunctive_add_eq_xor) (simp add: and_exp_eq_0_iff_not_bit)
  then show ?thesis by (simp only: crc_entry_def add.commute of_nat_xor_eq push_bit_xor crc_bits_xor)
qed

lemma xor_table_entries:
  "list_all2 (\<lambda>n e. e = crc_entry (2 ^ n)) [0..<length es] es \<Longrightarrow> xor_table es = map crc_entry [0..<2 ^ length es]"
proof (induction es rule: rev_induct)
  case Nil
  have "crc_entry 0 = 0"
  proof -
    have "(crc_bit ^^ n) 0 = 0" for n by (induction n) (simp_all add: crc_bit_def)
    then show ?thesis by (simp add: crc_entry_def)
  qed
  then show ?case by (simp add: xor_table_def)
next
  case (snoc e es)
  let ?n = "length es"
  have e: "e = crc_entry (2 ^ ?n)" and ih: "xor_table es = map crc_entry [0..<2 ^ ?n]"
    using snoc by (simp_all add: list_all2_append)
  have "xor_table (es @ [e]) = xor_table es @ map (\<lambda>x. x XOR e) (xor_table es)" by (simp add: xor_table_def)
  also have "map (\<lambda>x. x XOR e) (xor_table es) = map (\<lambda>m. crc_entry (2 ^ ?n + m)) [0..<2 ^ ?n]"
    unfolding ih e by (simp add: crc_entry_add)
  also have "\<dots> = map crc_entry [2 ^ ?n..<2 ^ ?n + 2 ^ ?n]"
    by (rule nth_equalityI) simp_all
  finally show ?case unfolding ih
    by (simp add: mult_2 upt_add_eq_append [of 0 "2 ^ ?n" "2 ^ ?n"])
qed

abbreviation crc_roots :: "u16 list" where
  "crc_roots \<equiv> [0x1021, 0x2042, 0x4084, 0x8108, 0x1231, 0x2462, 0x48c4, 0x9188]"

lemma crc_entry_unfold:
  "crc_entry k = crc_bit (crc_bit (crc_bit (crc_bit (crc_bit (crc_bit (crc_bit (crc_bit (push_bit 8 (of_nat k)))))))))"
  by (simp add: crc_entry_def numeral_eq_Suc)

lemma crc_powers: "list_all2 (\<lambda>n e. e = crc_entry (2 ^ n)) [0..<8] crc_roots"
  by (simp add: upt_conv_Cons crc_entry_unfold crc_bit_def)

lemma numeral_pow_8: "(2 :: nat) ^ 8 = 256"
  by simp

lemma crc_table_xor: "crc16tab = xor_table crc_roots"
  by (simp add: crc16tab_def xor_table_def)

lemma crc_table: "k < 256 \<Longrightarrow> crc16tab ! k = crc_entry k"
proof -
  assume k: "k < 256"
  have l: "length crc_roots = 8" by simp
  have "crc16tab = map crc_entry [0..<2 ^ 8]"
    unfolding crc_table_xor by (rule xor_table_entries [of crc_roots, unfolded l, OF crc_powers])
  moreover have "map crc_entry [0..<n] ! k = crc_entry k" if "k < n" for n using that by simp
  ultimately show ?thesis using k by (metis numeral_pow_8)
qed

lemma crc_step_byte: "crc_step crc b = crc_byte crc b"
proof -
  let ?i = "(drop_bit 8 crc XOR ucast b) AND 0x00FF :: u16"
  have mask: "(0x00FF :: u16) = mask 8" by (simp add: mask_eq_exp_minus_1)
  have hi: "push_bit 8 (drop_bit 8 crc XOR ucast b) = push_bit 8 ?i"
    unfolding mask by (rule bit_word_eqI) (auto simp: bit_simps)
  have "unat (take_bit 8 w) < 2 ^ 8" for w :: u16
    by (simp only: unsigned_take_bit_eq take_bit_nat_less_exp)
  from this [of "drop_bit 8 crc XOR ucast b"] have lt: "unat ?i < 256"
    unfolding mask take_bit_eq_mask [symmetric] by (simp only: numeral_pow_8)
  have "crc = push_bit 8 (drop_bit 8 crc) XOR take_bit 8 crc"
    by (rule bit_word_eqI) (auto simp: bit_simps)
  then have "crc XOR push_bit 8 (ucast b) = push_bit 8 ?i XOR take_bit 8 crc"
    unfolding hi [symmetric] push_bit_xor by (metis xor.assoc xor.commute)
  then have "crc_byte crc b = (crc_bit ^^ 8) (push_bit 8 ?i) XOR push_bit 8 (take_bit 8 crc)"
    by (simp only: crc_byte_def crc_bits_xor crc_bits_low [OF order_refl])
  also have "(crc_bit ^^ 8) (push_bit 8 ?i) = crc16tab ! unat ?i"
    using crc_table [OF lt] by (simp add: crc_entry_def)
  also have "push_bit 8 (take_bit 8 crc) = push_bit 8 crc"
    by (rule bit_word_eqI) (auto simp: bit_simps)
  finally show ?thesis by (simp add: crc_step_def xor.commute)
qed

text \<open>
  The table-driven check is the CRC-CCITT of the data: the remainder of the division,
  bit by bit, by the polynomial 0x1021 from the start value 0, for data of any length.
\<close>

theorem crc16_is_ccitt: "crc16_ccitt buf = foldl crc_byte 0 buf"
proof -
  have "crc_step = crc_byte" by (rule ext)+ (rule crc_step_byte)
  then show ?thesis by (simp add: crc16_ccitt_def)
qed

section \<open>A transfer over a perfect line\<close>

lemma inbyte_Cons: "rx s = c # cs \<Longrightarrow> inbyte s = (c, s\<lparr>rx := cs\<rparr>)"
  by (simp add: inbyte_def)

lemma hunt_packet:
  assumes "rx s = Some STX # cs"
  shows "hunt 16 t s = (Packet STX 1024, s\<lparr>rx := cs, tx := tx s @ (if t \<noteq> 0 then [t] else [])\<rparr>)"
proof -
  have "(16 :: nat) = Suc 15" by simp
  then show ?thesis using assms by (simp only: hunt.simps) (simp add: inbyte_def outbytes_def Let_def)
qed

lemma hunt_eot:
  assumes "rx s = Some EOT # cs"
  shows "hunt 16 t s = (GotEot, s\<lparr>rx := cs, tx := tx s @ (if t \<noteq> 0 then [t] else [])\<rparr>)"
proof -
  have "(16 :: nat) = Suc 15" by simp
  then show ?thesis using assms by (simp only: hunt.simps) (simp add: inbyte_def outbytes_def Let_def)
qed

lemma read_bytes_line:
  "rx s = map Some bs @ r \<Longrightarrow> read_bytes (length bs) s = (Some bs, s\<lparr>rx := r\<rparr>)"
proof (induction bs arbitrary: s)
  case Nil
  then have "s\<lparr>rx := r\<rparr> = s" by simp
  then show ?case by simp
next
  case (Cons b bs)
  have "inbyte s = (Some b, s\<lparr>rx := map Some bs @ r\<rparr>)" using Cons.prems by (simp add: inbyte_def)
  then show ?case using Cons.IH [of "s\<lparr>rx := map Some bs @ r\<rparr>"] by simp
qed

definition padded :: "u8 list \<Rightarrow> u8 list" where
  "padded block = block @ replicate (1024 - length block) CTRLZ"

lemma length_padded: "length block \<le> 1024 \<Longrightarrow> length (padded block) = 1024"
  by (simp add: padded_def)

lemma crc_bytes:
  "push_bit 8 (ucast (ucast (drop_bit 8 w AND 0xFF) :: u8)) + ucast (ucast (w AND 0xFF) :: u8) = (w :: u16)"
proof -
  have mask: "(0xFF :: u16) = mask 8" by (simp add: mask_eq_exp_minus_1)
  let ?a = "push_bit 8 (ucast (ucast (drop_bit 8 w AND 0xFF) :: u8)) :: u16"
  let ?b = "ucast (ucast (w AND 0xFF) :: u8) :: u16"
  have "?a AND ?b = 0" unfolding mask by (rule bit_word_eqI) (auto simp: bit_simps)
  then have "?a + ?b = ?a OR ?b" by (rule disjunctive_add_eq_or)
  also have "\<dots> = w" unfolding mask by (rule bit_word_eqI) (auto simp: bit_simps)
  finally show ?thesis .
qed

definition after_start :: "rcv \<Rightarrow> bool" where
  "after_start v \<longleftrightarrow> trychar v = CRCCHAR \<or> trychar v = 0 \<and> use_crc v"

lemma recv_good_packet:
  assumes "length block \<le> 1024" "after_start v" "rx s = map Some (tl (packet True (packetno v) block)) @ r"
  shows "recv_packet 1024 v s =
    (Inr (v\<lparr>use_crc := True, trychar := 0, packetno := packetno v + 1, retrans := 25,
        total_len := total_len v + length (held s)\<rparr>),
     s\<lparr>rx := r, tx := tx s @ [ACK], xfile := xfile s @ held s, held := padded block\<rparr>)"
proof -
  let ?p = "padded block" and ?c = "crc16_ccitt (padded block)"
  let ?xs = "tl (packet True (packetno v) block)"
  let ?hi = "ucast (drop_bit 8 ?c AND 0xFF) :: u8" and ?lo = "ucast (?c AND 0xFF) :: u8"
  have len: "length ?p = 1024" by (rule length_padded [OF assms(1)])
  have xs: "?xs = packetno v # NOT (packetno v) # ?p @ [?hi, ?lo]"
    by (simp add: packet_def padded_def Let_def)
  have crc: "(if trychar v = CRCCHAR then True else use_crc v) = True"
    using assms(2) by (auto simp: after_start_def)
  have n: "1024 + 1 + 3 = length ?xs" unfolding xs by (simp add: len)
  have rd: "read_bytes (1024 + 1 + 3) s = (Some ?xs, s\<lparr>rx := r\<rparr>)"
    unfolding n by (rule read_bytes_line [OF assms(3)])
  have nth: "(?p @ [?hi, ?lo]) ! 1024 = ?hi" "(?p @ [?hi, ?lo]) ! (1024 + 1) = ?lo"
    using len by (simp_all add: nth_append)
  have chk: "check True (?p @ [?hi, ?lo]) 1024"
    unfolding check_def nth crc_bytes by (simp add: len)
  show ?thesis
    unfolding recv_packet_def Let_def crc
    using rd chk len
    by (simp add: xs write_packet_def outbytes_def)
qed

function packets :: "u8 \<Rightarrow> u8 list \<Rightarrow> u8 list" where
  "packets no data =
     (if data = [] then [] else packet True no (take 1024 data) @ packets (no + 1) (drop 1024 data))"
  by pat_completeness auto
termination by (relation "measure (\<lambda>(no, data). length data)") auto

function blocks :: "u8 list \<Rightarrow> nat" where
  "blocks data = (if data = [] then 0 else Suc (blocks (drop 1024 data)))"
  by pat_completeness auto
termination by (relation "measure length") auto

function written :: "u8 list \<Rightarrow> u8 list \<Rightarrow> u8 list" where
  "written h data = (if data = [] then strip_ctrlz h else h @ written (padded (take 1024 data)) (drop 1024 data))"
  by pat_completeness auto
termination by (relation "measure (\<lambda>(h, data). length data)") auto

declare packets.simps [simp del] blocks.simps [simp del] written.simps [simp del]

lemma strip_padded:
  assumes "block \<noteq> []" "last block \<noteq> CTRLZ"
  shows "strip_ctrlz (padded block) = block"
proof -
  obtain b x where b: "block = b @ [x]" "x \<noteq> CTRLZ" using assms by (metis append_butlast_last_id)
  have "dropWhile (\<lambda>y. y = CTRLZ) (replicate n CTRLZ @ x # rev b) = x # rev b" for n
    using b(2) by (induction n) simp_all
  then show ?thesis by (simp add: strip_ctrlz_def padded_def b(1))
qed

lemma written_data:
  "data \<noteq> [] \<Longrightarrow> last data \<noteq> CTRLZ \<Longrightarrow> written h data = h @ data"
proof (induction h data rule: written.induct)
  case (1 h data)
  let ?b = "take 1024 data" and ?r = "drop 1024 data"
  have w: "written h data = h @ written (padded ?b) ?r"
    using 1(2) by (subst written.simps) simp
  show ?case
  proof (cases "?r = []")
    case True
    then have "?b = data" by simp
    moreover have "written (padded ?b) [] = strip_ctrlz (padded ?b)" by (subst written.simps) simp
    ultimately show ?thesis using w True strip_padded 1(2,3) by simp
  next
    case False
    then have "length ?b = 1024" by simp
    then have p: "padded ?b = ?b" by (simp add: padded_def)
    have "last ?r \<noteq> CTRLZ" using 1(3) False by (simp add: last_drop)
    then have "written (padded ?b) ?r = padded ?b @ ?r" using 1(1) 1(2) False by simp
    then show ?thesis using w p by (metis append_take_drop_id)
  qed
qed

lemma receive_packets:
  "after_start v \<Longrightarrow> rx s = map Some (packets (packetno v) data @ [EOT]) \<Longrightarrow>
   \<exists>s'. receive_loop v s = (int (total_len v + length (written (held s) data)), s')
     \<and> xfile s' = xfile s @ written (held s) data
     \<and> tx s' = tx s @ (if trychar v \<noteq> 0 then [trychar v] else []) @ replicate (blocks data + 1) ACK"
proof (induction data arbitrary: v s rule: blocks.induct)
  case (1 data)
  show ?case
  proof (cases "data = []")
    case True
    let ?s = "s\<lparr>rx := [], tx := tx s @ (if trychar v \<noteq> 0 then [trychar v] else [])\<rparr>"
    have "rx s = Some EOT # []" using 1(3) True by (simp add: packets.simps)
    note h = hunt_eot [OF this, of "trychar v"]
    have "flush_packet (total_len v) ?s =
        (total_len v + length (written (held s) []), ?s\<lparr>xfile := xfile s @ written (held s) [], held := []\<rparr>)"
      by (cases "held s = []") (simp_all add: flush_packet_def written.simps strip_ctrlz_def Let_def)
    then have "receive_loop v s = (int (total_len v + length (written (held s) [])),
        flushinput (outbytes [ACK] (?s\<lparr>xfile := xfile s @ written (held s) [], held := []\<rparr>)))"
      by (subst receive_loop.simps) (simp add: h)
    then show ?thesis using True by (simp add: blocks.simps flushinput_def outbytes_def)
  next
    case False
    let ?b = "take 1024 data" and ?r = "drop 1024 data"
    let ?t = "if trychar v \<noteq> 0 then [trychar v] else []"
    let ?rest = "map Some (packets (packetno v + 1) ?r @ [EOT])"
    have pk: "packet True (packetno v) ?b = STX # tl (packet True (packetno v) ?b)"
      by (simp add: packet_def Let_def)
    have rx: "rx s = Some STX # map Some (tl (packet True (packetno v) ?b)) @ ?rest"
    proof -
      have "packets (packetno v) data = (STX # tl (packet True (packetno v) ?b)) @ packets (packetno v + 1) ?r"
        using False pk by (subst packets.simps) simp
      then show ?thesis using 1(3) by simp
    qed
    let ?s = "s\<lparr>rx := map Some (tl (packet True (packetno v) ?b)) @ ?rest, tx := tx s @ ?t\<rparr>"
    let ?v = "v\<lparr>use_crc := True, trychar := 0, packetno := packetno v + 1, retrans := 25,
        total_len := total_len v + length (held s)\<rparr>"
    let ?s' = "?s\<lparr>rx := ?rest, tx := tx ?s @ [ACK], xfile := xfile ?s @ held ?s, held := padded ?b\<rparr>"
    have rp: "recv_packet 1024 v ?s = (Inr (v\<lparr>use_crc := True, trychar := 0, packetno := packetno v + 1, retrans := 25,
        total_len := total_len v + length (held ?s)\<rparr>), ?s')"
      by (rule recv_good_packet [OF _ 1(2)]) simp_all
    have step: "receive_loop v s = receive_loop ?v ?s'"
      using rp by (subst receive_loop.simps) (simp add: hunt_packet [OF rx])
    have "after_start ?v" "rx ?s' = map Some (packets (packetno ?v) ?r @ [EOT])"
      by (simp_all add: after_start_def)
    from 1(1) [OF False this] step
    show ?thesis
      using False by (subst (1 2) written.simps) (simp add: blocks.simps [of data] add.assoc)
  qed
qed

lemma send_packet_acked:
  assumes "rx s = Some ACK # cs"
  shows "send_packet MAXRETRANS pkt s = (Acked, s\<lparr>rx := cs, tx := tx s @ pkt\<rparr>)"
proof -
  have "MAXRETRANS = Suc 24" by simp
  then show ?thesis using assms by (simp only: send_packet.simps) (simp add: inbyte_def outbytes_def)
qed

lemma transmit_packets:
  "rx s = replicate (blocks data + 1) (Some ACK) \<Longrightarrow>
   \<exists>s'. transmit_loop True no len data s = (int (len + 1024 * blocks data), s')
     \<and> tx s' = tx s @ packets no data @ [EOT]"
proof (induction data arbitrary: no len s rule: blocks.induct)
  case (1 data)
  show ?case
  proof (cases "data = []")
    case True
    have "(10 :: nat) = Suc 9" by simp
    then have "send_eot 10 s = (True, s\<lparr>rx := [], tx := tx s @ [EOT]\<rparr>)"
      using 1(2) True by (simp only: send_eot.simps) (simp add: inbyte_def outbytes_def blocks.simps)
    then show ?thesis
      using True by (subst transmit_loop.simps) (simp add: blocks.simps packets.simps flushinput_def)
  next
    case False
    let ?pkt = "packet True no (take 1024 data)"
    let ?s = "s\<lparr>rx := replicate (blocks (drop 1024 data) + 1) (Some ACK), tx := tx s @ ?pkt\<rparr>"
    have "rx s = Some ACK # replicate (blocks (drop 1024 data) + 1) (Some ACK)"
      using 1(2) False by (simp add: blocks.simps [of data])
    note sp = send_packet_acked [OF this, of ?pkt]
    have "transmit_loop True no len data s = transmit_loop True (no + 1) (len + 1024) (drop 1024 data) ?s"
      using False by (subst transmit_loop.simps) (simp only: sp, simp)
    moreover note 1(1) [OF False, of ?s "no + 1" "len + 1024"]
    ultimately show ?thesis
      using False by (simp add: blocks.simps [of data] packets.simps [of no data] add.assoc)
  qed
qed

text \<open>
  C40. Transmitter and receiver on a line that loses nothing understand each other: given
  what the receiver sends, the transmitter sends packets which make the receiver send just
  that, and the file arrives unchanged, if its last byte is not a control-Z (the padding of
  the last packet). This holds for files of any size, past the wrap of the packet number.
\<close>

theorem transfer_over_a_perfect_line:
  assumes "data = [] \<or> last data \<noteq> CTRLZ"
    and "xmodemTransmit data (map Some (CRCCHAR # replicate (blocks data + 1) ACK)) = (sent_len, t)"
    and "xmodemReceive (map Some (tx t)) = (got_len, r)"
  shows "xfile r = data \<and> got_len = int (length data) \<and> sent_len = int (1024 * blocks data)
    \<and> tx r = CRCCHAR # replicate (blocks data + 1) ACK"
proof -
  let ?s = "\<lparr>rx = replicate (blocks data + 1) (Some ACK), tx = [], xfile = data, held = []\<rparr>"
  have "(16 :: nat) = Suc 15" by simp
  then have "wait_sync 16 \<lparr>rx = map Some (CRCCHAR # replicate (blocks data + 1) ACK), tx = [], xfile = data, held = []\<rparr>
      = (SyncCrc True, ?s)"
    by (simp only: wait_sync.simps) (simp add: inbyte_def)
  moreover obtain t' where t': "transmit_loop True 1 0 data ?s = (int (0 + 1024 * blocks data), t')"
      "tx t' = tx ?s @ packets 1 data @ [EOT]"
    using transmit_packets [of ?s data 1 0] by auto
  ultimately have t: "sent_len = int (1024 * blocks data)" "tx t = packets 1 data @ [EOT]"
    using assms(2) by (auto simp: xmodemTransmit_def)
  let ?v = "\<lparr>trychar = CRCCHAR, use_crc = False, packetno = 1, retrans = int MAXRETRANS, total_len = 0\<rparr>"
  let ?r = "\<lparr>rx = map Some (packets 1 data @ [EOT]), tx = [], xfile = [], held = []\<rparr>"
  obtain r' where r': "receive_loop ?v ?r = (int (length (written [] data)), r')" "xfile r' = written [] data"
      "tx r' = CRCCHAR # replicate (blocks data + 1) ACK"
    using receive_packets [of ?v ?r data] by (auto simp: after_start_def)
  have "written [] data = data"
  proof (cases "data = []")
    case False
    then show ?thesis using written_data [of data "[]"] assms(1) by simp
  qed (simp add: written.simps strip_ctrlz_def)
  then show ?thesis using assms(3) t r' by (simp add: xmodemReceive_def)
qed

theorem transfer_over_a_perfect_line_witness:
  "xfile (snd (xmodemReceive (map Some (tx (snd (xmodemTransmit [1, 2, 3]
     (map Some [CRCCHAR, ACK, ACK]))))))) = [1, 2, 3]"
proof -
  have "blocks [1, 2, 3] = 1" by (simp add: blocks.simps)
  then show ?thesis
    using transfer_over_a_perfect_line [OF _ surjective_pairing surjective_pairing, of "[1, 2, 3]"] by simp
qed

end
