(* ===== verification/ThrTranslator.thy ===== *)
theory ThrTranslator
  imports CNumbers
begin

text \<open>
  FluidNC/src/Kinematics/ThrTranslator.h and ThrTranslator.cpp: the translation of
  ".thr" lines to G-code moves. Floats are rationals: \<open>fmodf\<close> is exact in the code too, the
  rounding of the other operations to single precision is not modelled.
\<close>

section \<open>Definitions\<close>

text \<open>\<open>2.0f * float(M_PI)\<close>, exactly.\<close>

definition TWO_PI :: rat where
  "TWO_PI = 13176795 / 2097152"

definition fmodf :: "rat \<Rightarrow> rat \<Rightarrow> rat" where
  "fmodf x y = (let q = x / y in x - of_int (if q \<ge> 0 then \<lfloor>q\<rfloor> else \<lceil>q\<rceil>) * y)"

definition positive_mod_2pi :: "rat \<Rightarrow> rat" where
  "positive_mod_2pi angle = (let m = fmodf angle TWO_PI in if m < 0 then m + TWO_PI else m)"

datatype thr_line = Skip | Invalid | Oversize | Move string

record thr =
  tfeed :: rat
  emitted_feed :: rat
  in_preamble :: bool
  offset_locked :: bool
  theta_offset :: rat

definition thr_start :: "rat \<Rightarrow> thr \<Rightarrow> thr" where
  "thr_start feed t =
     t\<lparr>tfeed := feed, emitted_feed := 0, in_preamble := True, offset_locked := False, theta_offset := 0\<rparr>"

definition set_feed :: "rat \<Rightarrow> thr \<Rightarrow> thr" where
  "set_feed feed t = t\<lparr>tfeed := feed\<rparr>"

definition thr_blank :: "char \<Rightarrow> bool" where
  "thr_blank c \<longleftrightarrow> c = CHR '' '' \<or> c = CHR 0x09"

text \<open>The pair of a line: None for no pair.\<close>

definition thr_pair :: "string \<Rightarrow> (rat \<times> rat) option" where
  "thr_pair p =
     (case strtof p of
        None \<Rightarrow> None
      | Some (theta, p') \<Rightarrow> (case strtof p' of None \<Rightarrow> None | Some (rho, _) \<Rightarrow> Some (theta, rho)))"

definition move_text :: "bool \<Rightarrow> rat \<Rightarrow> rat \<Rightarrow> string" where
  "move_text rho_only a r =
     (if rho_only then ''G90G1Y'' @ show_fixed 5 r
      else ''G90G1X'' @ show_fixed 5 a @ ''Y'' @ show_fixed 5 r)"

text \<open>
  From the pair on. \<open>snprintf\<close> returns the length of the whole text, which is the text in
  the buffer when it is used.
\<close>

definition thr_move :: "rat \<Rightarrow> rat \<Rightarrow> nat \<Rightarrow> thr \<Rightarrow> thr_line \<times> thr" where
  "thr_move theta rho outlen t =
     (let rho_only = (in_preamble t \<and> theta = 0 \<and> rho = 0);
          t1 = (if in_preamble t \<and> \<not> rho_only then t\<lparr>in_preamble := False\<rparr> else t);
          t2 = (if \<not> rho_only \<and> \<not> offset_locked t1
                then t1\<lparr>theta_offset := theta - positive_mod_2pi theta, offset_locked := True\<rparr> else t1);
          r = (if rho < 0 then 0 else if rho > 1 then 1 else rho);
          text1 = move_text rho_only (theta - theta_offset t2) r;
          emit_feed = (tfeed t2 > 0 \<and> tfeed t2 \<noteq> emitted_feed t2);
          text2 = (if length text1 > 0 \<and> length text1 < 64 \<and> emit_feed
                   then text1 @ ''F'' @ show_fixed 1 (tfeed t2) else text1)
      in if length text2 \<le> 0 \<or> length text2 \<ge> 64 \<or> length text2 \<ge> outlen then (Oversize, t2)
         else (Move text2, if emit_feed then t2\<lparr>emitted_feed := tfeed t2\<rparr> else t2))"

definition translate :: "string \<Rightarrow> nat \<Rightarrow> thr \<Rightarrow> thr_line \<times> thr" where
  "translate line outlen t =
     (let p = dropWhile thr_blank (c_str line) in
      if p = [] \<or> hd p = CHR ''#'' then (Skip, t)
      else case thr_pair p of
        None \<Rightarrow> (Invalid, t)
      | Some (theta, rho) \<Rightarrow> thr_move theta rho outlen t)"

section \<open>The angle of a job\<close>

lemma TWO_PI_pos: "0 < TWO_PI"
  by (simp add: TWO_PI_def)

lemma positive_mod_range: "0 \<le> positive_mod_2pi a \<and> positive_mod_2pi a < TWO_PI"
proof -
  let ?q = "a / TWO_PI"
  have a: "a = ?q * TWO_PI" using TWO_PI_pos by simp
  have f: "of_int \<lfloor>?q\<rfloor> \<le> ?q" "?q < of_int \<lfloor>?q\<rfloor> + 1" by linarith+
  have c: "?q \<le> of_int \<lceil>?q\<rceil>" "of_int \<lceil>?q\<rceil> < ?q + 1" by linarith+
  show ?thesis
  proof (cases "?q \<ge> 0")
    case True
    have m: "fmodf a TWO_PI = (?q - of_int \<lfloor>?q\<rfloor>) * TWO_PI"
      using True by (subst a) (simp add: fmodf_def Let_def left_diff_distrib)
    have "0 \<le> fmodf a TWO_PI" "fmodf a TWO_PI < 1 * TWO_PI"
      unfolding m using f TWO_PI_pos by (intro mult_nonneg_nonneg mult_strict_right_mono; simp)+
    then show ?thesis by (simp add: positive_mod_2pi_def Let_def)
  next
    case False
    have m: "fmodf a TWO_PI = (?q - of_int \<lceil>?q\<rceil>) * TWO_PI"
      using False by (subst a) (simp add: fmodf_def Let_def left_diff_distrib)
    have "fmodf a TWO_PI \<le> 0" "- 1 * TWO_PI < fmodf a TWO_PI"
      unfolding m using c TWO_PI_pos by (intro mult_nonpos_nonneg mult_strict_right_mono; simp)+
    then show ?thesis using TWO_PI_pos by (auto simp: positive_mod_2pi_def Let_def)
  qed
qed

definition whole_turns :: "rat \<Rightarrow> bool" where
  "whole_turns a \<longleftrightarrow> (\<exists>k. a = of_int k * TWO_PI)"

lemma offset_whole_turns: "whole_turns (a - positive_mod_2pi a)"
proof -
  let ?n = "if a / TWO_PI \<ge> 0 then \<lfloor>a / TWO_PI\<rfloor> else \<lceil>a / TWO_PI\<rceil>"
  have "a - positive_mod_2pi a = of_int ?n * TWO_PI \<or> a - positive_mod_2pi a = of_int (?n - 1) * TWO_PI"
    by (simp add: positive_mod_2pi_def fmodf_def Let_def left_diff_distrib)
  then show ?thesis unfolding whole_turns_def by blast
qed

section \<open>Whole patterns\<close>

text \<open>The pairs of a pattern, translated in order.\<close>

fun thr_moves :: "(rat \<times> rat) list \<Rightarrow> nat \<Rightarrow> thr \<Rightarrow> thr_line list \<times> thr" where
  "thr_moves [] n t = ([], t)"
| "thr_moves ((theta, rho) # ps) n t =
     (let (out, t1) = thr_move theta rho n t; (outs, t2) = thr_moves ps n t1 in (out # outs, t2))"

definition clamp01 :: "rat \<Rightarrow> rat" where
  "clamp01 r = (if r < 0 then 0 else if r > 1 then 1 else r)"

text \<open>The move to an angle and a radius, possibly with an F word; a line that is too long is dropped.\<close>

definition moves_to :: "rat \<Rightarrow> rat \<Rightarrow> thr_line \<Rightarrow> bool" where
  "moves_to theta rho out \<longleftrightarrow> out = Oversize \<or>
     (\<exists>f. out = Move (''G90G1X'' @ show_fixed 5 theta @ ''Y'' @ show_fixed 5 rho @ f)
        \<and> (f = [] \<or> (\<exists>v. f = ''F'' @ show_fixed 1 v)))"

definition locked :: "thr \<Rightarrow> bool" where
  "locked t \<longleftrightarrow> \<not> in_preamble t \<and> offset_locked t"

lemma thr_move_locked:
  assumes "locked t"
  shows "moves_to (theta - theta_offset t) (clamp01 rho) (fst (thr_move theta rho n t))"
    "locked (snd (thr_move theta rho n t))" "theta_offset (snd (thr_move theta rho n t)) = theta_offset t"
  using assms by (auto simp: thr_move_def locked_def moves_to_def clamp01_def move_text_def Let_def)

lemma thr_moves_locked:
  "locked t \<Longrightarrow>
   list_all2 (\<lambda>(theta, rho) out. moves_to (theta - theta_offset t) (clamp01 rho) out) ps (fst (thr_moves ps n t))
   \<and> theta_offset (snd (thr_moves ps n t)) = theta_offset t"
proof (induction ps arbitrary: t)
  case (Cons p ps)
  obtain theta rho where p: "p = (theta, rho)" by (cases p)
  note l = thr_move_locked [OF Cons.prems, of theta rho n]
  show ?case using Cons.IH [OF l(2)] l by (simp add: p split_beta Let_def)
qed simp

lemma thr_moves_append:
  "thr_moves (ps @ qs) n t =
     (fst (thr_moves ps n t) @ fst (thr_moves qs n (snd (thr_moves ps n t))), snd (thr_moves qs n (snd (thr_moves ps n t))))"
  by (induction ps arbitrary: t) (auto simp: split_beta Let_def)

definition preamble :: "thr \<Rightarrow> bool" where
  "preamble t \<longleftrightarrow> in_preamble t \<and> \<not> offset_locked t \<and> theta_offset t = 0"

lemma preamble_moves: "list_all (\<lambda>p. p = (0, 0)) pre \<Longrightarrow> preamble t \<Longrightarrow> preamble (snd (thr_moves pre n t))"
proof (induction pre arbitrary: t)
  case (Cons p pre)
  have "preamble (snd (thr_move 0 0 n t))"
    using Cons.prems(2) by (auto simp: preamble_def thr_move_def Let_def)
  then show ?case using Cons by (simp add: split_beta Let_def)
qed simp

lemma first_move:
  assumes "preamble t" "(theta, rho) \<noteq> (0, 0)"
  shows "moves_to (positive_mod_2pi theta) (clamp01 rho) (fst (thr_move theta rho n t))"
    "locked (snd (thr_move theta rho n t))"
    "theta_offset (snd (thr_move theta rho n t)) = theta - positive_mod_2pi theta"
  using assms by (auto simp: preamble_def thr_move_def locked_def moves_to_def clamp01_def move_text_def Let_def)

text \<open>
  A pattern starts within the first turn: after any number of leading "0 0" pairs the
  first other pair moves to its angle less whole revolutions, in [0, 2 pi); every later pair
  moves by the same number of revolutions less, so that the shape of the pattern and its
  turning are kept, and every radius is cut to [0, 1].
\<close>

theorem pattern_starts_in_first_turn:
  assumes "list_all (\<lambda>p. p = (0, 0)) pre" "(theta, rho) \<noteq> (0, 0)"
    and "thr_moves (pre @ (theta, rho) # rest) n (thr_start feed t) = (outs, t')"
  shows "\<exists>start out later. outs = start @ out # later
    \<and> 0 \<le> theta - theta_offset t' \<and> theta - theta_offset t' < TWO_PI \<and> whole_turns (theta_offset t')
    \<and> moves_to (theta - theta_offset t') (clamp01 rho) out
    \<and> list_all2 (\<lambda>(a, r) m. moves_to (a - theta_offset t') (clamp01 r) m) rest later"
proof -
  let ?t1 = "snd (thr_moves pre n (thr_start feed t))"
  let ?t2 = "snd (thr_move theta rho n ?t1)"
  have "preamble (thr_start feed t)" by (simp add: preamble_def thr_start_def)
  from preamble_moves [OF assms(1) this] have p: "preamble ?t1" .
  note f = first_move [OF p assms(2), of n]
  note l = thr_moves_locked [OF f(2), of rest n]
  have outs: "outs = fst (thr_moves pre n (thr_start feed t)) @ fst (thr_move theta rho n ?t1) # fst (thr_moves rest n ?t2)"
    and t': "t' = snd (thr_moves rest n ?t2)"
    using assms(3) by (auto simp: thr_moves_append split_beta Let_def)
  have off: "theta_offset t' = theta - positive_mod_2pi theta" using l f(3) t' by simp
  show ?thesis
    using outs f(1) l positive_mod_range [of theta] offset_whole_turns [of theta] f(3) off
    by (intro exI [of _ "fst (thr_moves pre n (thr_start feed t))"] exI [of _ "fst (thr_move theta rho n ?t1)"]
        exI [of _ "fst (thr_moves rest n ?t2)"]) simp
qed

definition no_job :: thr where
  "no_job = \<lparr>tfeed = 0, emitted_feed = 0, in_preamble = False, offset_locked = False, theta_offset = 0\<rparr>"

theorem pattern_starts_in_first_turn_witness:
  "\<exists>outs t'. thr_moves [(0, 0), (100, 1)] 255 (thr_start 100 no_job) = (outs, t')
     \<and> 0 \<le> 100 - theta_offset t' \<and> 100 - theta_offset t' < TWO_PI"
  using pattern_starts_in_first_turn [of "[(0, 0)]" 100 1 "[]" 255 100 no_job] by simp (metis surj_pair)

text \<open>
  A feed that has been set takes effect with the next move: the move carries the F word
  exactly when the feed is positive and differs from the one emitted last, and after it the
  two agree; a line that is dropped leaves the feed to be emitted.
\<close>

theorem feed_takes_effect:
  assumes "v > 0" "thr_move theta rho n (set_feed v t) = (out, t')"
  shows "(case out of
      Move str \<Rightarrow> emitted_feed t' = v \<and>
        (\<exists>b a r. str = move_text b a r @ (if v \<noteq> emitted_feed t then ''F'' @ show_fixed 1 v else []))
    | _ \<Rightarrow> emitted_feed t' = emitted_feed t) \<and> tfeed t' = v"
proof -
  let ?t = "set_feed v t"
  let ?ro = "in_preamble ?t \<and> theta = 0 \<and> rho = 0"
  define t1 where "t1 = (if in_preamble ?t \<and> \<not> ?ro then ?t\<lparr>in_preamble := False\<rparr> else ?t)"
  define t2 where "t2 = (if \<not> ?ro \<and> \<not> offset_locked t1
    then t1\<lparr>theta_offset := theta - positive_mod_2pi theta, offset_locked := True\<rparr> else t1)"
  define base where "base = move_text ?ro (theta - theta_offset t2) (if rho < 0 then 0 else if rho > 1 then 1 else rho)"
  have f: "tfeed t2 = v" "emitted_feed t2 = emitted_feed t"
    by (simp_all add: t2_def t1_def set_feed_def)
  have "thr_move theta rho n ?t =
      (let emit = v \<noteq> emitted_feed t;
           str = (if length base > 0 \<and> length base < 64 \<and> emit then base @ ''F'' @ show_fixed 1 v else base)
       in if length str \<le> 0 \<or> length str \<ge> 64 \<or> length str \<ge> n then (Oversize, t2)
          else (Move str, if emit then t2\<lparr>emitted_feed := v\<rparr> else t2))"
    unfolding thr_move_def Let_def t1_def [symmetric] t2_def [symmetric] base_def [symmetric] f using assms(1) by simp
  then show ?thesis
    using assms(2) f by (auto simp: Let_def base_def split: if_splits)
qed

theorem feed_takes_effect_witness: "tfeed (snd (thr_move 1 (1 / 2) 255 (set_feed 100 no_job))) = 100"
  using feed_takes_effect [OF _ surjective_pairing, of 100 1 "1 / 2" 255 no_job] by simp

end
