(* ===== verification/ThetaRho.thy ===== *)
theory ThetaRho
  imports ThrTranslator MachineTypes
begin

text \<open>
  FluidNC/src/Kinematics/ThetaRho.h and ThetaRho.cpp: the kinematics of the round table. A
  vector of axes is a list with theta (X) and rho (Y) first. The counters of the motors are
  \<open>tr_steps\<close>, with \<open>steps_per_mm\<close> of each axis; what the module does to the planner is
  recorded in \<open>tr_effects\<close>. Floats are rationals. Writing the setting $THR/Feed stores its value, which the callers have tested.
\<close>

section \<open>State\<close>

datatype tr_effect = BufferSync | PlanSync | GcSync | MoveMotors "rat list"

record theta_rho =
  theta_mm_per_rev :: rat
  rho_mm :: rat
  gear_ratio :: rat
  invert_coupling :: bool
  default_feed :: rat
  theta_scale :: rat
  coupling :: rat
  tr_instance :: bool
  feed_setting :: "int option"
  live_feed :: int
  clear_feed :: int
  job_name :: string
  job_channel :: "nat option"
  translator :: thr
  steps_per_mm :: "rat list"
  tr_steps :: "int list"
  tr_effects :: "tr_effect list"

definition tr_do :: "tr_effect list \<Rightarrow> theta_rho \<Rightarrow> theta_rho" where
  "tr_do es s = s\<lparr>tr_effects := tr_effects s @ es\<rparr>"

definition tr_init :: "theta_rho \<Rightarrow> theta_rho" where
  "tr_init s =
     (let xsteps = steps_per_mm s ! 0; ysteps = steps_per_mm s ! 1 in
     s\<lparr>tr_instance := True,
       theta_scale := theta_mm_per_rev s / TWO_PI,
       coupling :=
         (if gear_ratio s \<noteq> 0 \<and> ysteps \<noteq> 0
          then (let c = xsteps / (gear_ratio s * ysteps) in if invert_coupling s then - c else c)
          else 0),
       feed_setting :=
         (case feed_setting s of
            None \<Rightarrow> Some (if default_feed s \<ge> 0 then \<lfloor>default_feed s\<rfloor> else \<lceil>default_feed s\<rceil>)
          | Some v \<Rightarrow> Some v)\<rparr>)"

section \<open>Kinematics\<close>

definition transform_cartesian_to_motors :: "theta_rho \<Rightarrow> rat list \<Rightarrow> rat list" where
  "transform_cartesian_to_motors s c =
     (let mx = c ! 0 * theta_scale s in [mx, c ! 1 * rho_mm s + mx * coupling s] @ drop 2 c)"

definition motors_to_cartesian :: "theta_rho \<Rightarrow> rat list \<Rightarrow> rat list" where
  "motors_to_cartesian s m =
     [m ! 0 / theta_scale s, (m ! 1 - m ! 0 * coupling s) / rho_mm s] @ drop 2 m"

definition cartesian_to_motors :: "rat list \<Rightarrow> theta_rho \<Rightarrow> theta_rho" where
  "cartesian_to_motors target s = tr_do [MoveMotors (transform_cartesian_to_motors s target)] s"

text \<open>Steps and positions (System.cpp); \<open>lroundf\<close> rounds halves away from zero.\<close>

definition lroundf :: "rat \<Rightarrow> int" where
  "lroundf x = (if x \<ge> 0 then \<lfloor>x + 1 / 2\<rfloor> else \<lceil>x - 1 / 2\<rceil>)"

definition steps_to_mpos :: "int \<Rightarrow> rat \<Rightarrow> rat" where
  "steps_to_mpos steps k = of_int steps / k"

definition mpos_to_steps :: "rat \<Rightarrow> rat \<Rightarrow> int" where
  "mpos_to_steps mpos k = lroundf (mpos * k)"

definition motor_steps_to_mpos :: "int list \<Rightarrow> theta_rho \<Rightarrow> rat list" where
  "motor_steps_to_mpos steps s = motors_to_cartesian s (map2 steps_to_mpos steps (steps_per_mm s))"

definition get_mpos :: "theta_rho \<Rightarrow> rat list" where
  "get_mpos s = motor_steps_to_mpos (tr_steps s) s"

definition set_motor_steps_from_mpos :: "rat list \<Rightarrow> theta_rho \<Rightarrow> theta_rho" where
  "set_motor_steps_from_mpos c s = s\<lparr>tr_steps := map2 mpos_to_steps (transform_cartesian_to_motors s c) (steps_per_mm s)\<rparr>"

section \<open>Feed\<close>

definition effectiveFeed :: "theta_rho \<Rightarrow> int" where
  "effectiveFeed s =
     (case feed_setting s of
        None \<Rightarrow> - 1
      | Some v \<Rightarrow>
          if \<not> tr_instance s then - 1
          else if clear_feed s \<ge> 0 then clear_feed s
          else if live_feed s \<ge> 0 then live_feed s else v)"

definition setClearFeed :: "int \<Rightarrow> theta_rho \<Rightarrow> theta_rho" where
  "setClearFeed mm s = s\<lparr>clear_feed := (if mm \<ge> 0 then mm else - 1)\<rparr>"

definition flushFeedLive :: "mstate \<Rightarrow> theta_rho \<Rightarrow> theta_rho" where
  "flushFeedLive st s =
     (if live_feed s < 0 \<or> \<not> tr_instance s \<or> feed_setting s = None then s
      else if st = Idle \<or> st = Alarm then s\<lparr>feed_setting := Some (live_feed s), live_feed := - 1\<rparr>
      else s)"

definition setFeedLive :: "mstate \<Rightarrow> int \<Rightarrow> theta_rho \<Rightarrow> error_code \<times> theta_rho" where
  "setFeedLive st mm s =
     (if \<not> tr_instance s \<or> feed_setting s = None then (Error_InvalidStatement, s)
      else if mm < 0 \<or> mm > 100000 then (Error_NumberRange, s)
      else if st = Idle \<or> st = Alarm then (Error_Ok, s\<lparr>live_feed := - 1, feed_setting := Some mm\<rparr>)
      else (Error_Ok, s\<lparr>live_feed := mm\<rparr>))"

section \<open>Jobs\<close>

definition normalize_theta :: "theta_rho \<Rightarrow> theta_rho" where
  "normalize_theta s0 =
     (let s = tr_do [BufferSync] s0;
          mpos = get_mpos s; theta = mpos ! 0; norm = positive_mod_2pi theta
      in if \<bar>theta - norm\<bar> < 1 / 1000 then s
         else tr_do [PlanSync, GcSync] (set_motor_steps_from_mpos (mpos[0 := norm]) s))"

definition start_job :: "string \<Rightarrow> nat \<Rightarrow> theta_rho \<Rightarrow> theta_rho" where
  "start_job name chan s =
     normalize_theta (s\<lparr>job_name := name, job_channel := Some chan,
       translator := thr_start (if feed_setting s \<noteq> None then of_int (effectiveFeed s) else default_feed s) (translator s)\<rparr>)"

definition end_job :: "theta_rho \<Rightarrow> theta_rho" where
  "end_job s = normalize_theta (s\<lparr>job_name := [], job_channel := None\<rparr>)"

definition tr_stop :: "theta_rho \<Rightarrow> theta_rho" where
  "tr_stop s = end_job s"

definition ballAngle :: "theta_rho \<Rightarrow> rat" where
  "ballAngle s = (if \<not> tr_instance s then - 1 else positive_mod_2pi (get_mpos s ! 0) / TWO_PI)"

definition is_thr :: "string \<Rightarrow> bool" where
  "is_thr source \<longleftrightarrow> length source > 4 \<and> caseeq (c_str (drop (length source - 4) source)) ''.thr''"

text \<open>
  \<open>translate_line\<close>: None is true (the line is consumed), \<open>Some l\<close> is false with the line
  \<open>l\<close> for the G-code parser. \<open>jchan\<close> is the channel of the running job, if there is one.
\<close>

definition translate_line :: "nat option \<Rightarrow> string \<Rightarrow> nat \<Rightarrow> nat \<Rightarrow> string \<Rightarrow> theta_rho \<Rightarrow> string option \<times> theta_rho" where
  "translate_line jchan line maxlen chan source s =
     (if \<not> is_thr source then
        (Some line, if job_name s \<noteq> [] \<and> \<not> (jchan \<noteq> None \<and> jchan = job_channel s) then end_job s else s)
      else
        let s1 = (if source \<noteq> job_name s then start_job source chan s else s);
            t1 = (if feed_setting s1 \<noteq> None then set_feed (of_int (effectiveFeed s1)) (translator s1) else translator s1);
            (r, t2) = translate line maxlen t1;
            s2 = s1\<lparr>translator := t2\<rparr>
        in (case r of Move l \<Rightarrow> Some l | _ \<Rightarrow> None, s2))"

section \<open>The table turns no further than it has to\<close>

definition tr_wf :: "theta_rho \<Rightarrow> bool" where
  "tr_wf s \<longleftrightarrow> theta_scale s > 0 \<and> rho_mm s > 0 \<and> length (tr_steps s) \<ge> 2
     \<and> length (steps_per_mm s) = length (tr_steps s) \<and> list_all (\<lambda>k. k > 0) (steps_per_mm s)"

text \<open>What rounding to a step of each motor does to the angle and to the radius.\<close>

definition step_theta :: "theta_rho \<Rightarrow> rat" where
  "step_theta s = 1 / (2 * steps_per_mm s ! 0 * theta_scale s)"

definition step_rho :: "theta_rho \<Rightarrow> rat" where
  "step_rho s = (1 / (2 * steps_per_mm s ! 1) + \<bar>coupling s\<bar> / (2 * steps_per_mm s ! 0)) / rho_mm s"

lemma transform_inverse:
  assumes "theta_scale s \<noteq> 0" "rho_mm s \<noteq> 0" "length c \<ge> 2"
  shows "motors_to_cartesian s (transform_cartesian_to_motors s c) = c"
proof -
  obtain x y r where "c = x # y # r" using assms(3) by (metis One_nat_def Suc_le_length_iff numeral_2_eq_2)
  then show ?thesis using assms by (simp add: motors_to_cartesian_def transform_cartesian_to_motors_def Let_def)
qed

lemma motors_inverse:
  assumes "theta_scale s \<noteq> 0" "rho_mm s \<noteq> 0" "length m \<ge> 2"
  shows "transform_cartesian_to_motors s (motors_to_cartesian s m) = m"
proof -
  obtain x y r where "m = x # y # r" using assms(3) by (metis One_nat_def Suc_le_length_iff numeral_2_eq_2)
  then show ?thesis using assms by (simp add: motors_to_cartesian_def transform_cartesian_to_motors_def Let_def)
qed

text \<open>
  The two transforms between the table's coordinates and the motors are inverse to each
  other, with any coupling of the two motors, and the motors of a straight line lie on a
  straight line: the move needs no segmentation.
\<close>

theorem kinematics_round_trip:
  assumes "theta_scale s \<noteq> 0" "rho_mm s \<noteq> 0" "length c = n" "length d = n" "n \<ge> 2"
  shows "motors_to_cartesian s (transform_cartesian_to_motors s c) = c
    \<and> transform_cartesian_to_motors s (motors_to_cartesian s c) = c
    \<and> transform_cartesian_to_motors s (map2 (\<lambda>x y. (1 - l) * x + l * y) c d) =
        map2 (\<lambda>x y. (1 - l) * x + l * y) (transform_cartesian_to_motors s c) (transform_cartesian_to_motors s d)"
proof -
  obtain x y r where c: "c = x # y # r" using assms(3,5) by (metis One_nat_def Suc_le_length_iff numeral_2_eq_2)
  obtain x' y' r' where d: "d = x' # y' # r'" using assms(4,5) by (metis One_nat_def Suc_le_length_iff numeral_2_eq_2)
  have "transform_cartesian_to_motors s (map2 (\<lambda>x y. (1 - l) * x + l * y) c d) =
        map2 (\<lambda>x y. (1 - l) * x + l * y) (transform_cartesian_to_motors s c) (transform_cartesian_to_motors s d)"
    by (simp add: c d transform_cartesian_to_motors_def Let_def algebra_simps)
  then show ?thesis using transform_inverse [of s c] motors_inverse [of s c] assms by simp
qed

definition ex_table :: theta_rho where
  "ex_table = tr_init \<lparr>theta_mm_per_rev = 50, rho_mm = 20, gear_ratio = 10, invert_coupling = False,
     default_feed = 100, theta_scale = 0, coupling = 0, tr_instance = False, feed_setting = None, live_feed = - 1,
     clear_feed = - 1, job_name = [], job_channel = None, translator = no_job, steps_per_mm = [320, 320], tr_steps = [32000, 9600], tr_effects = []\<rparr>"

theorem kinematics_round_trip_witness:
  "motors_to_cartesian ex_table (transform_cartesian_to_motors ex_table [3, 1 / 2]) = [3, 1 / 2]"
  using kinematics_round_trip [of ex_table "[3, 1 / 2]" 2 "[0, 0]" 0]
  by (simp add: ex_table_def tr_init_def TWO_PI_def)

lemma lroundf_close: "\<bar>of_int (lroundf x) - x\<bar> \<le> 1 / 2"
proof (cases "x \<ge> 0")
  case True
  have "of_int \<lfloor>x + 1 / 2\<rfloor> \<le> x + 1 / 2" "x + 1 / 2 < of_int \<lfloor>x + 1 / 2\<rfloor> + 1" by linarith+
  moreover have "lroundf x = \<lfloor>x + 1 / 2\<rfloor>" using True by (simp add: lroundf_def)
  ultimately show ?thesis by linarith
next
  case False
  have "x - 1 / 2 \<le> of_int \<lceil>x - 1 / 2\<rceil>" "of_int \<lceil>x - 1 / 2\<rceil> - 1 < x - 1 / 2" by linarith+
  moreover have "lroundf x = \<lceil>x - 1 / 2\<rceil>" using False by (simp add: lroundf_def)
  ultimately show ?thesis by linarith
qed

lemma steps_close:
  assumes "k > 0" shows "\<bar>steps_to_mpos (mpos_to_steps m k) k - m\<bar> \<le> 1 / (2 * k)"
proof -
  have "steps_to_mpos (mpos_to_steps m k) k - m = (of_int (lroundf (m * k)) - m * k) / k"
    using assms by (simp add: steps_to_mpos_def mpos_to_steps_def diff_divide_distrib)
  then have "\<bar>steps_to_mpos (mpos_to_steps m k) k - m\<bar> = \<bar>of_int (lroundf (m * k)) - m * k\<bar> / k"
    using assms by (simp add: abs_divide)
  also have "\<dots> \<le> (1 / 2) / k" using lroundf_close assms by (intro divide_right_mono) auto
  finally show ?thesis by simp
qed

lemma two_or_more: "length xs \<ge> 2 \<Longrightarrow> \<exists>x y r. xs = x # y # r"
  by (metis One_nat_def Suc_le_length_iff numeral_2_eq_2)

lemma mpos_set:
  assumes "tr_wf s" "length c = length (tr_steps s)"
  shows "\<bar>get_mpos (set_motor_steps_from_mpos c s) ! 0 - c ! 0\<bar> \<le> step_theta s"
    "\<bar>get_mpos (set_motor_steps_from_mpos c s) ! 1 - c ! 1\<bar> \<le> step_rho s"
proof -
  obtain x y r where c: "c = x # y # r" using two_or_more assms by (metis tr_wf_def)
  obtain kx ky kr where k: "steps_per_mm s = kx # ky # kr" using two_or_more assms by (metis tr_wf_def)
  have pos: "kx > 0" "ky > 0" "theta_scale s > 0" "rho_mm s > 0" using assms(1) k by (simp_all add: tr_wf_def)
  define mx my where "mx = x * theta_scale s" and "my = y * rho_mm s + mx * coupling s"
  define ax ay where "ax = steps_to_mpos (mpos_to_steps mx kx) kx" and "ay = steps_to_mpos (mpos_to_steps my ky) ky"
  have e: "\<bar>ax - mx\<bar> \<le> 1 / (2 * kx)" "\<bar>ay - my\<bar> \<le> 1 / (2 * ky)"
    using steps_close pos by (simp_all add: ax_def ay_def)
  have m: "get_mpos (set_motor_steps_from_mpos c s) ! 0 = ax / theta_scale s"
    "get_mpos (set_motor_steps_from_mpos c s) ! 1 = (ay - ax * coupling s) / rho_mm s"
    by (simp_all add: get_mpos_def set_motor_steps_from_mpos_def motor_steps_to_mpos_def motors_to_cartesian_def
        transform_cartesian_to_motors_def c k Let_def ax_def ay_def mx_def my_def)
  have "ax / theta_scale s - x = (ax - mx) / theta_scale s" using pos by (simp add: mx_def diff_divide_distrib)
  then have "\<bar>ax / theta_scale s - x\<bar> = \<bar>ax - mx\<bar> / theta_scale s" using pos by (simp add: abs_divide)
  also have "\<dots> \<le> 1 / (2 * kx) / theta_scale s" using e(1) pos by (intro divide_right_mono) auto
  finally show "\<bar>get_mpos (set_motor_steps_from_mpos c s) ! 0 - c ! 0\<bar> \<le> step_theta s"
    using m(1) by (simp add: c k step_theta_def)
  have "\<bar>(ay - ax * coupling s) / rho_mm s - y\<bar> = \<bar>(ay - my) - (ax - mx) * coupling s\<bar> / rho_mm s"
  proof -
    have "(ay - ax * coupling s) / rho_mm s - y = ((ay - my) - (ax - mx) * coupling s) / rho_mm s"
      using pos by (simp add: my_def field_simps)
    then show ?thesis using pos by (simp add: abs_divide)
  qed
  also have "\<dots> \<le> (\<bar>ay - my\<bar> + \<bar>ax - mx\<bar> * \<bar>coupling s\<bar>) / rho_mm s"
    using pos abs_triangle_ineq4 [of "ay - my" "(ax - mx) * coupling s"]
    by (intro divide_right_mono) (auto simp: abs_mult)
  also have "\<dots> \<le> (1 / (2 * ky) + 1 / (2 * kx) * \<bar>coupling s\<bar>) / rho_mm s"
    using e pos by (intro divide_right_mono add_mono mult_right_mono) auto
  finally show "\<bar>get_mpos (set_motor_steps_from_mpos c s) ! 1 - c ! 1\<bar> \<le> step_rho s"
    using m(2) by (simp add: c k step_rho_def)
qed

lemma length_mpos: "tr_wf s \<Longrightarrow> length (get_mpos s) = length (tr_steps s)"
  by (auto simp: get_mpos_def motor_steps_to_mpos_def motors_to_cartesian_def tr_wf_def)

lemma tr_do_view [simp]:
  "get_mpos (tr_do es s) = get_mpos s" "tr_wf (tr_do es s) = tr_wf s" "translator (tr_do es s) = translator s"
  "job_name (tr_do es s) = job_name s" "feed_setting (tr_do es s) = feed_setting s" "tr_steps (tr_do es s) = tr_steps s"
  "step_theta (tr_do es s) = step_theta s" "step_rho (tr_do es s) = step_rho s"
  by (simp_all add: tr_do_def get_mpos_def motor_steps_to_mpos_def motors_to_cartesian_def tr_wf_def step_theta_def
      step_rho_def)

lemma normalize_angle:
  assumes "tr_wf s"
  shows "- 1 / 1000 - step_theta s < get_mpos (normalize_theta s) ! 0
      \<and> get_mpos (normalize_theta s) ! 0 < TWO_PI + 1 / 1000 + step_theta s"
    "\<bar>get_mpos (normalize_theta s) ! 1 - get_mpos s ! 1\<bar> \<le> step_rho s"
proof -
  let ?n = "positive_mod_2pi (get_mpos s ! 0)" and ?s = "tr_do [BufferSync] s"
  let ?c = "(get_mpos s)[0 := ?n]"
  have n: "0 \<le> ?n" "?n < TWO_PI" using positive_mod_range by auto
  have l: "length ?c = length (tr_steps ?s)" "2 \<le> length (get_mpos s)"
    using assms length_mpos [OF assms] by (simp_all add: tr_wf_def)
  then have "0 < length (get_mpos s)" by linarith
  then have nth: "?c ! 0 = ?n" "?c ! 1 = get_mpos s ! 1" by simp_all
  obtain kx ky kr where k: "steps_per_mm s = kx # ky # kr" using two_or_more assms by (metis tr_wf_def)
  have st: "0 < step_theta s" "0 \<le> step_rho s"
    using assms k by (simp_all add: tr_wf_def step_theta_def step_rho_def add_nonneg_nonneg)
  have set: "\<bar>get_mpos (set_motor_steps_from_mpos ?c ?s) ! 0 - ?n\<bar> \<le> step_theta s"
    "\<bar>get_mpos (set_motor_steps_from_mpos ?c ?s) ! 1 - get_mpos s ! 1\<bar> \<le> step_rho s"
    using mpos_set [of ?s ?c] assms l nth by simp_all
  show "- 1 / 1000 - step_theta s < get_mpos (normalize_theta s) ! 0
      \<and> get_mpos (normalize_theta s) ! 0 < TWO_PI + 1 / 1000 + step_theta s"
  proof (cases "\<bar>get_mpos s ! 0 - ?n\<bar> < 1 / 1000")
    case True
    then have "get_mpos s ! 0 - ?n < 1 / 1000 \<and> ?n - get_mpos s ! 0 < 1 / 1000" by linarith
    moreover have "get_mpos (normalize_theta s) = get_mpos s"
      using True by (simp only: normalize_theta_def Let_def tr_do_view if_True)
    ultimately show ?thesis using n st by simp
  next
    case False
    have "get_mpos (normalize_theta s) = get_mpos (set_motor_steps_from_mpos ?c ?s)"
      using False by (simp only: normalize_theta_def Let_def tr_do_view if_False)
    then show ?thesis using n set(1) by (auto simp: abs_le_iff)
  qed
  show "\<bar>get_mpos (normalize_theta s) ! 1 - get_mpos s ! 1\<bar> \<le> step_rho s"
    using set(2) st by (simp add: normalize_theta_def Let_def)
qed

text \<open>The new angle is the old one without whole turns, but for the tolerance or the rounding to steps.\<close>

lemma normalize_relabels:
  assumes "tr_wf s"
  shows "\<bar>get_mpos (normalize_theta s) ! 0 - positive_mod_2pi (get_mpos s ! 0)\<bar> \<le> max (1 / 1000) (step_theta s)"
proof -
  let ?n = "positive_mod_2pi (get_mpos s ! 0)" and ?s = "tr_do [BufferSync] s"
  let ?c = "(get_mpos s)[0 := ?n]"
  have l: "length ?c = length (tr_steps ?s)" "2 \<le> length (get_mpos s)"
    using assms length_mpos [OF assms] by (simp_all add: tr_wf_def)
  then have "0 < length (get_mpos s)" by linarith
  then have nth: "?c ! 0 = ?n" by simp
  show ?thesis
  proof (cases "\<bar>get_mpos s ! 0 - ?n\<bar> < 1 / 1000")
    case True
    moreover have "get_mpos (normalize_theta s) = get_mpos s"
      using True by (simp only: normalize_theta_def Let_def tr_do_view if_True)
    ultimately show ?thesis unfolding le_max_iff_disj by simp
  next
    case False
    have "get_mpos (normalize_theta s) = get_mpos (set_motor_steps_from_mpos ?c ?s)"
      using False by (simp only: normalize_theta_def Let_def tr_do_view if_False)
    then show ?thesis unfolding le_max_iff_disj using mpos_set(1) [of ?s ?c] assms l nth by simp
  qed
qed

text \<open>Taking off whole turns.\<close>

lemma positive_mod_turns: "\<exists>k :: int. positive_mod_2pi x = x - of_int k * TWO_PI"
proof -
  obtain k :: int where k: "fmodf x TWO_PI = x - of_int k * TWO_PI" by (simp add: fmodf_def Let_def) blast
  show ?thesis
  proof (cases "fmodf x TWO_PI < 0")
    case True
    then have "positive_mod_2pi x = x - of_int (k - 1) * TWO_PI"
      using k by (simp add: positive_mod_2pi_def Let_def algebra_simps)
    then show ?thesis by blast
  next
    case False
    then show ?thesis using k by (auto simp: positive_mod_2pi_def Let_def)
  qed
qed

lemma normalize_frame:
  "translator (normalize_theta s) = translator s" "job_name (normalize_theta s) = job_name s"
  "feed_setting (normalize_theta s) = feed_setting s"
  by (simp_all add: normalize_theta_def set_motor_steps_from_mpos_def Let_def)

text \<open>
  C33. Starting a pattern never unwinds the turns that earlier patterns have accumulated. The
  first line of a job with a name of its own, when it is a pair of numbers, takes whole turns
  off the angle of the machine, to within the tolerance of 0.001 rad or a step: the new
  angle is in the first turn, and the radius is the old one but for the rounding to steps. The
  move that the line is translated to goes to the angle of the line without whole turns, so
  that the arm turns by less than one revolution (and the tolerance). A first line that is
  blank, a comment or the pair 0 0, which moves only the radius, is not covered.
\<close>

theorem pattern_start_does_not_unwind:
  assumes "tr_wf s" "is_thr source" "source \<noteq> job_name s"
    and "thr_pair (dropWhile thr_blank (c_str line)) = Some (theta, rho)" "(theta, rho) \<noteq> (0, 0)"
    and "dropWhile thr_blank (c_str line) \<noteq> []" "hd (dropWhile thr_blank (c_str line)) \<noteq> CHR ''#''"
    and "translate_line jchan line maxlen chan source s = (Some l, s')"
  shows "\<exists>(k :: int) (j :: int) x y. x = theta - of_int k * TWO_PI \<and> 0 \<le> x \<and> x < TWO_PI
    \<and> (\<exists>f. l = move_text False x (clamp01 rho) @ f \<and> (f = [] \<or> (\<exists>v. f = ''F'' @ show_fixed 1 v)))
    \<and> y = get_mpos s ! 0 - of_int j * TWO_PI \<and> 0 \<le> y \<and> y < TWO_PI
    \<and> \<bar>get_mpos s' ! 0 - y\<bar> \<le> max (1 / 1000) (step_theta s)
    \<and> \<bar>get_mpos s' ! 1 - get_mpos s ! 1\<bar> \<le> step_rho s
    \<and> \<bar>x - get_mpos s' ! 0\<bar> < TWO_PI + max (1 / 1000) (step_theta s)"
proof -
  define s0 where "s0 = s\<lparr>job_name := source, job_channel := Some chan,
    translator := thr_start (if feed_setting s \<noteq> None then of_int (effectiveFeed s) else default_feed s) (translator s)\<rparr>"
  let ?s1 = "start_job source chan s"
  let ?t = "if feed_setting ?s1 \<noteq> None then set_feed (of_int (effectiveFeed ?s1)) (translator ?s1) else translator ?s1"
  have s1: "?s1 = normalize_theta s0" by (simp add: start_job_def s0_def)
  have wf: "tr_wf s0" "get_mpos s0 = get_mpos s" "step_theta s0 = step_theta s" "step_rho s0 = step_rho s"
    using assms(1) by (simp_all add: s0_def tr_wf_def get_mpos_def motor_steps_to_mpos_def motors_to_cartesian_def
        step_theta_def step_rho_def)
  have pre: "preamble ?t"
    by (simp add: s1 normalize_frame) (simp add: s0_def preamble_def thr_start_def set_feed_def)
  have tr: "translate line maxlen ?t = thr_move theta rho maxlen ?t"
    unfolding translate_def Let_def using assms(4,6,7) by (simp del: dropWhile_eq_Nil_conv)
  have out: "fst (thr_move theta rho maxlen ?t) = Move l" "s' = ?s1\<lparr>translator := snd (thr_move theta rho maxlen ?t)\<rparr>"
    using assms(2,3,8) tr by (auto simp: translate_line_def Let_def split_beta split: thr_line.splits)
  have m: "get_mpos s' = get_mpos (normalize_theta s0)"
    using out(2) s1 by (simp add: get_mpos_def motor_steps_to_mpos_def motors_to_cartesian_def)
  have "moves_to (positive_mod_2pi theta) (clamp01 rho) (Move l)"
    using first_move(1) [OF pre assms(5), of maxlen] out(1) by simp
  then obtain f where f: "l = move_text False (positive_mod_2pi theta) (clamp01 rho) @ f"
      "f = [] \<or> (\<exists>v. f = ''F'' @ show_fixed 1 v)"
    by (auto simp: moves_to_def move_text_def)
  let ?y = "positive_mod_2pi (get_mpos s ! 0)"
  have y: "\<bar>get_mpos s' ! 0 - ?y\<bar> \<le> max (1 / 1000) (step_theta s)"
    using normalize_relabels [OF wf(1)] m wf(2,3) by simp
  note r = positive_mod_range [of theta] positive_mod_range [of "get_mpos s ! 0"]
  have "\<bar>positive_mod_2pi theta - get_mpos s' ! 0\<bar> < TWO_PI + max (1 / 1000) (step_theta s)"
    using r y by linarith
  moreover obtain k j :: int where "positive_mod_2pi theta = theta - of_int k * TWO_PI" "?y = get_mpos s ! 0 - of_int j * TWO_PI"
    using positive_mod_turns by metis
  ultimately show ?thesis
    using f r y normalize_angle(2) [OF wf(1)] m wf(2,4)
    by (intro exI [of _ k] exI [of _ j] exI [of _ "positive_mod_2pi theta"] exI [of _ ?y]) auto
qed

text \<open>A first line, evaluated.\<close>

lemma ex_rounded: "round_even 100000 = 100000" "round_even 1000 = 1000"
  by (simp_all add: round_even_def Let_def)

lemma ex_decimal: "decimal 0 = ''0''" "decimal 1 = ''1''" "decimal 100 = ''100''"
  by code_simp+

lemma ex_numbers: "show_fixed 5 1 = ''1.00000''" "show_fixed 1 100 = ''100.0''"
proof -
  have "replicate 4 x = [x, x, x, x]" for x :: char by (simp add: eval_nat_numeral)
  then show "show_fixed 5 1 = ''1.00000''" by (simp add: show_fixed_def ex_rounded ex_decimal [simplified] Let_def)
  show "show_fixed 1 100 = ''100.0''" by (simp add: show_fixed_def ex_rounded ex_decimal Let_def)
qed

lemma ex_angle: "positive_mod_2pi 1 = 1"
proof -
  have "\<lfloor>2097152 / 13176795 :: rat\<rfloor> = 0" by (simp add: floor_eq_iff)
  then show ?thesis by (simp add: positive_mod_2pi_def fmodf_def TWO_PI_def Let_def)
qed

lemma ex_pair: "thr_pair ''1 1'' = Some (1, 1)" "dropWhile thr_blank (c_str ''1 1'') = ''1 1''"
  by (simp_all add: thr_pair_def strtof_def read_sign_def read_exponent_def c_space_def is_dec_def thr_blank_def
      c_str_def NUL_def Let_def)

lemma ex_move:
  "fst (thr_move 1 1 255 (set_feed 100 (thr_start 100 no_job))) = Move ''G90G1X1.00000Y1.00000F100.0''"
  by (simp add: thr_move_def set_feed_def thr_start_def ex_numbers ex_angle move_text_def Let_def
      del: One_nat_def)

lemma ex_started:
  "feed_setting (start_job nm ch ex_table) = Some 100"
  "translator (start_job nm ch ex_table) = thr_start 100 no_job"
  "effectiveFeed (start_job nm ch ex_table) = 100"
  by (simp_all add: start_job_def normalize_frame effectiveFeed_def normalize_theta_def set_motor_steps_from_mpos_def
      tr_do_def ex_table_def tr_init_def Let_def)

lemma ex_first_line:
  "fst (translate_line None ''1 1'' 255 3 ''/p.thr'' ex_table) = Some ''G90G1X1.00000Y1.00000F100.0''"
proof -
  have "is_thr ''/p.thr''" "job_name ex_table = []"
    by (simp_all add: is_thr_def c_str_def NUL_def ex_table_def tr_init_def)
  then show ?thesis
    using ex_pair by (simp add: translate_line_def translate_def ex_started ex_move Let_def split_beta)
qed

text \<open>A table that has made two turns: they are taken off at the start of the pattern.\<close>

theorem pattern_start_does_not_unwind_witness:
  "\<exists>(j :: int) y. y = get_mpos ex_table ! 0 - of_int j * TWO_PI \<and> 0 \<le> y \<and> y < TWO_PI
    \<and> \<bar>get_mpos (snd (translate_line None ''1 1'' 255 3 ''/p.thr'' ex_table)) ! 0 - y\<bar> \<le> max (1 / 1000) (step_theta ex_table)"
proof -
  have "is_thr ''/p.thr''" "''/p.thr'' \<noteq> job_name ex_table" "tr_wf ex_table"
    by (simp_all add: is_thr_def c_str_def NUL_def ex_table_def tr_init_def tr_wf_def TWO_PI_def)
  moreover have "translate_line None ''1 1'' 255 3 ''/p.thr'' ex_table =
      (Some ''G90G1X1.00000Y1.00000F100.0'', snd (translate_line None ''1 1'' 255 3 ''/p.thr'' ex_table))"
    using ex_first_line by (metis prod.collapse)
  ultimately show ?thesis
    using pattern_start_does_not_unwind [of ex_table "''/p.thr''" "''1 1''" 1 1 None 255 3] ex_pair by simp blast
qed

end
