(* ===== verification/LedColor.thy ===== *)
theory LedColor
  imports Prelude
begin

unbundle bit_operations_syntax

text \<open>
  FluidNC/src/LedWhite.h and LedHook.h: the wire order and the white byte of an RGBW strip,
  and the precedence of the user's effect choice over the hooks of the machine state.
\<close>

section \<open>LedWhite\<close>

datatype led_mode = WNone | Brighter | Accurate | WMax

text \<open>Offsets on the wire, - 1 for none.\<close>

record led_order =
  bpp :: int
  ri :: int
  gi :: int
  bi :: int
  wi :: int

definition default_order :: led_order where
  "default_order = \<lparr>bpp = 3, ri = 1, gi = 0, bi = 2, wi = - 1\<rparr>"

definition rgbw :: "led_order \<Rightarrow> bool" where
  "rgbw ord \<longleftrightarrow> wi ord \<ge> 0"

text \<open>One letter at offset \<open>n\<close>: None for a letter that is no color or is repeated.\<close>

definition put_slot :: "char \<Rightarrow> int \<Rightarrow> led_order \<Rightarrow> led_order option" where
  "put_slot c n ord =
     (if c = CHR ''R'' \<or> c = CHR ''r'' then (if ri ord \<ge> 0 then None else Some (ord\<lparr>ri := n\<rparr>))
      else if c = CHR ''G'' \<or> c = CHR ''g'' then (if gi ord \<ge> 0 then None else Some (ord\<lparr>gi := n\<rparr>))
      else if c = CHR ''B'' \<or> c = CHR ''b'' then (if bi ord \<ge> 0 then None else Some (ord\<lparr>bi := n\<rparr>))
      else if c = CHR ''W'' \<or> c = CHR ''w'' then (if wi ord \<ge> 0 then None else Some (ord\<lparr>wi := n\<rparr>))
      else None)"

fun order_loop :: "string \<Rightarrow> int \<Rightarrow> led_order \<Rightarrow> (int \<times> led_order) option" where
  "order_loop [] n ord = Some (n, ord)"
| "order_loop (c # cs) n ord =
     (if n \<ge> 4 then None
      else case put_slot c n ord of None \<Rightarrow> None | Some ord' \<Rightarrow> order_loop cs (n + 1) ord')"

definition parseOrder :: "string option \<Rightarrow> led_order option" where
  "parseOrder s =
     (case order_loop (case s of None \<Rightarrow> [] | Some str \<Rightarrow> str) 0
             (default_order\<lparr>ri := - 1, gi := - 1, bi := - 1, wi := - 1\<rparr>) of
        None \<Rightarrow> None
      | Some (n, ord) \<Rightarrow>
          if ri ord < 0 \<or> gi ord < 0 \<or> bi ord < 0 then None
          else let ord' = ord\<lparr>bpp := (if wi ord \<ge> 0 then 4 else 3)\<rparr>
               in if n \<noteq> bpp ord' then None else Some ord')"

definition kOrders :: "string list" where
  "kOrders =
     [''RGB'', ''RBG'', ''GRB'', ''GBR'', ''BRG'', ''BGR'',
      ''RGBW'', ''RBGW'', ''GRBW'', ''GBRW'', ''BRGW'', ''BGRW'',
      ''WRGB'', ''WRBG'', ''WGRB'', ''WGBR'', ''WBRG'', ''WBGR'',
      ''RWGB'', ''RWBG'', ''GWRB'', ''GWBR'', ''BWRG'', ''BWGR'',
      ''RGWB'', ''RBWG'', ''GRWB'', ''GBWR'', ''BRWG'', ''BGWR'']"

definition autoWhite :: "led_mode \<Rightarrow> u8 \<Rightarrow> u8 \<Rightarrow> u8 \<Rightarrow> u8 \<times> u8 \<times> u8 \<times> u8" where
  "autoWhite mode r g b =
     (case mode of
        WMax \<Rightarrow> (r, g, b, if r > g then (if r > b then r else b) else if g > b then g else b)
      | WNone \<Rightarrow> (r, g, b, 0)
      | _ \<Rightarrow>
          let w = (if r < g then (if r < b then r else b) else if g < b then g else b)
          in if mode = Accurate then (r - w, g - w, b - w, w) else (r, g, b, w))"

definition scaled :: "u16 \<Rightarrow> u8 \<Rightarrow> u8" where
  "scaled scale v = of_nat (unat v * unat scale div 2 ^ 8)"

text \<open>One pixel in the wire buffer \<open>p\<close>.\<close>

definition pack :: "led_order \<Rightarrow> led_mode \<Rightarrow> u8 list \<Rightarrow> u8 \<Rightarrow> u8 \<Rightarrow> u8 \<Rightarrow> u8 \<Rightarrow> u8 list" where
  "pack ord mode p r g b brightness =
     (let scale = ucast brightness + 1;
          (r1, g1, b1, w) = (if rgbw ord then autoWhite mode r g b else (r, g, b, 0));
          p1 = (if rgbw ord then p[nat (wi ord) := scaled scale w] else p)
      in p1[nat (ri ord) := scaled scale r1, nat (gi ord) := scaled scale g1, nat (bi ord) := scaled scale b1])"

section \<open>LedHook\<close>

datatype cat = CatNone | CatRun | CatIdle

text \<open>\<open>_manual\<close> is a category, or \<open>kNever\<close> (None).\<close>

record led_hook =
  hcat :: cat
  manual :: "cat option"

definition hook_init :: led_hook where
  "hook_init = \<lparr>hcat = CatNone, manual = None\<rparr>"

definition reportCat :: "cat \<Rightarrow> led_hook \<Rightarrow> led_hook" where
  "reportCat c h = (if c \<noteq> hcat h then h\<lparr>hcat := c, manual := None\<rparr> else h)"

definition manualChoice :: "led_hook \<Rightarrow> led_hook" where
  "manualChoice h = h\<lparr>manual := Some (hcat h)\<rparr>"

definition hook_effect :: "int \<Rightarrow> int \<Rightarrow> led_hook \<Rightarrow> int" where
  "hook_effect run_effect idle_effect h =
     (if hcat h = CatNone \<or> manual h = Some (hcat h) then - 1
      else let hook = (if hcat h = CatRun then run_effect else idle_effect)
           in if hook < 0 then - 1 else hook)"

section \<open>The wire orders\<close>

definition upper :: "char \<Rightarrow> char" where
  "upper c =
     (if c = CHR ''r'' then CHR ''R'' else if c = CHR ''g'' then CHR ''G''
      else if c = CHR ''b'' then CHR ''B'' else if c = CHR ''w'' then CHR ''W'' else c)"

lemma put_slot_upper: "put_slot (upper c) n ord = put_slot c n ord"
  by (simp add: put_slot_def upper_def)

lemma put_slot_letter: "put_slot c n ord \<noteq> None \<Longrightarrow> upper c \<in> set ''RGBW''"
  by (auto simp: put_slot_def upper_def split: if_splits)

lemma order_loop_upper: "order_loop (map upper cs) n ord = order_loop cs n ord"
  by (induction cs arbitrary: n ord) (auto simp: put_slot_upper split: option.splits)

lemma parseOrder_upper: "parseOrder (Some (map upper s)) = parseOrder (Some s)"
  by (simp add: parseOrder_def order_loop_upper)

lemma order_loop_letters:
  "order_loop cs n ord = Some (m, ord') \<Longrightarrow>
    m = n + int (length cs) \<and> set (map upper cs) \<subseteq> set ''RGBW''"
proof (induction cs arbitrary: n ord)
  case (Cons c cs)
  then obtain o1 where o1: "put_slot c n ord = Some o1" "order_loop cs (n + 1) o1 = Some (m, ord')"
    by (auto split: if_splits option.splits)
  then show ?case using Cons.IH [OF o1(2)] put_slot_letter [of c n ord] by simp
qed simp

lemma parseOrder_letters:
  assumes "parseOrder (Some s) = Some ord"
  shows "length s = 3 \<or> length s = 4" "set (map upper s) \<subseteq> set ''RGBW''" "int (length s) = bpp ord"
    "rgbw ord \<longleftrightarrow> length s = 4"
proof -
  obtain n o1 where l: "order_loop s 0 (default_order\<lparr>ri := - 1, gi := - 1, bi := - 1, wi := - 1\<rparr>) = Some (n, o1)"
      "ord = o1\<lparr>bpp := (if wi o1 \<ge> 0 then 4 else 3)\<rparr>" "n = bpp ord"
    using assms by (auto simp: parseOrder_def Let_def split: option.splits if_splits)
  then have "n = int (length s)" "set (map upper s) \<subseteq> set ''RGBW''" using order_loop_letters by fastforce+
  then show "length s = 3 \<or> length s = 4" "set (map upper s) \<subseteq> set ''RGBW''" "int (length s) = bpp ord"
      "rgbw ord \<longleftrightarrow> length s = 4"
    using l(2,3) by (auto simp: rgbw_def split: if_splits)
qed

lemma orders_3: "list_all (\<lambda>s. parseOrder (Some s) = None \<or> s \<in> set kOrders) (List.n_lists 3 ''RGBW'')"
  by code_simp

lemma orders_4: "list_all (\<lambda>s. parseOrder (Some s) = None \<or> s \<in> set kOrders) (List.n_lists 4 ''RGBW'')"
  by code_simp

lemma orders_parse: "list_all (\<lambda>s. parseOrder (Some s) \<noteq> None) kOrders"
  by code_simp

lemma parseOrder_listed:
  assumes "parseOrder (Some s) = Some ord" shows "map upper s \<in> set kOrders"
proof -
  have p: "parseOrder (Some (map upper s)) \<noteq> None" using assms parseOrder_upper by simp
  from parseOrder_letters(1) [OF assms] show ?thesis
  proof
    assume "length s = 3"
    then have "map upper s \<in> set (List.n_lists 3 ''RGBW'')"
      using parseOrder_letters(2) [OF assms] by (simp only: set_n_lists length_map mem_Collect_eq conj_absorb)
    then show ?thesis using bspec [OF orders_3 [unfolded list_all_iff]] p by metis
  next
    assume "length s = 4"
    then have "map upper s \<in> set (List.n_lists 4 ''RGBW'')"
      using parseOrder_letters(2) [OF assms] by (simp only: set_n_lists length_map mem_Collect_eq conj_absorb)
    then show ?thesis using bspec [OF orders_4 [unfolded list_all_iff]] p by metis
  qed
qed

text \<open>
  A color order is accepted exactly when it is, in letters of either case, one of the
  thirty listed orders.
\<close>

theorem color_orders_listed: "parseOrder (Some s) \<noteq> None \<longleftrightarrow> map upper s \<in> set kOrders"
proof
  assume "parseOrder (Some s) \<noteq> None"
  then show "map upper s \<in> set kOrders" using parseOrder_listed by blast
next
  assume "map upper s \<in> set kOrders"
  then show "parseOrder (Some s) \<noteq> None"
    using bspec [OF orders_parse [unfolded list_all_iff]] parseOrder_upper by metis
qed

section \<open>A pixel on the wire\<close>

text \<open>The channel that a letter names.\<close>

definition channel_of :: "bool \<Rightarrow> led_mode \<Rightarrow> u8 \<Rightarrow> u8 \<Rightarrow> u8 \<Rightarrow> char \<Rightarrow> u8" where
  "channel_of white mode r g b c =
     (let (r1, g1, b1, w) = (if white then autoWhite mode r g b else (r, g, b, 0))
      in if c = CHR ''R'' then r1 else if c = CHR ''G'' then g1 else if c = CHR ''B'' then b1 else w)"

lemma scaled_full: "scaled 256 v = v"
  by (simp add: scaled_def)

lemma pack_listed:
  assumes "s \<in> set kOrders" "parseOrder (Some s) = Some ord" "length p = length s"
  shows "pack ord mode p r g b br = map (\<lambda>c. scaled (ucast br + 1) (channel_of (rgbw ord) mode r g b c)) s"
proof -
  obtain r1 g1 b1 w where w: "autoWhite mode r g b = (r1, g1, b1, w)" by (metis prod_cases4)
  have p: "length p = 3 \<Longrightarrow> \<exists>x y z. p = [x, y, z]" "length p = 4 \<Longrightarrow> \<exists>x y z u. p = [x, y, z, u]"
    by (auto simp: length_Suc_conv eval_nat_numeral)
  show ?thesis
    using assms p unfolding kOrders_def
    by (auto simp: parseOrder_def default_order_def put_slot_def pack_def rgbw_def channel_of_def w Let_def
        eval_nat_numeral)
qed

text \<open>
  A pixel is written in the order that the letters name: byte i of the pixel is the
  channel of letter i, scaled by the brightness, and at full brightness it is the channel itself.
\<close>

theorem pixel_on_the_wire:
  assumes "parseOrder (Some s) = Some ord" "length p = length s"
  shows "pack ord mode p r g b br =
      map (\<lambda>c. scaled (ucast br + 1) (channel_of (rgbw ord) mode r g b (upper c))) s
    \<and> pack ord mode p r g b 255 = map (\<lambda>c. channel_of (rgbw ord) mode r g b (upper c)) s"
proof -
  have "pack ord mode p r g b br' =
      map (\<lambda>c. scaled (ucast br' + 1) (channel_of (rgbw ord) mode r g b c)) (map upper s)" for br'
    using pack_listed [of "map upper s" ord p] parseOrder_listed parseOrder_upper assms by simp
  then show ?thesis by (simp add: scaled_full)
qed

theorem pixel_on_the_wire_witness:
  "pack \<lparr>bpp = 4, ri = 1, gi = 0, bi = 2, wi = 3\<rparr> Accurate [0, 0, 0, 0] 200 100 50 255 = [50, 150, 0, 50]"
proof -
  have "parseOrder (Some ''GRBw'') = Some \<lparr>bpp = 4, ri = 1, gi = 0, bi = 2, wi = 3\<rparr>"
    by (simp add: parseOrder_def default_order_def put_slot_def Let_def)
  from pixel_on_the_wire [OF this, of "[0, 0, 0, 0]" Accurate 200 100 50 255]
  show ?thesis by (simp add: channel_of_def rgbw_def autoWhite_def upper_def scaled_full Let_def)
qed

lemma byte_minus: "w \<le> v \<Longrightarrow> unat (v - w) + unat w = unat (v :: u8)"
  by (simp add: unat_sub word_le_nat_alt)

text \<open>
  The accurate white is true to the color: each color of the strip and the white add up to
  the color that was asked for, no subtraction wraps, and as much as possible is white: one
  of the three colors is off.
\<close>

theorem accurate_white:
  "let (r', g', b', w) = autoWhite Accurate r g b in
     unat r' + unat w = unat r \<and> unat g' + unat w = unat g \<and> unat b' + unat w = unat b
     \<and> (r' = 0 \<or> g' = 0 \<or> b' = 0)"
proof -
  define w where "w = (if r < g then (if r < b then r else b) else if g < b then g else b)"
  have "w \<le> r" "w \<le> g" "w \<le> b" "w = r \<or> w = g \<or> w = b" by (auto simp: w_def)
  then have "unat (r - w) + unat w = unat r" "unat (g - w) + unat w = unat g" "unat (b - w) + unat w = unat b"
      "r - w = 0 \<or> g - w = 0 \<or> b - w = 0"
    using byte_minus by auto
  moreover have "autoWhite Accurate r g b = (r - w, g - w, b - w, w)" by (simp add: autoWhite_def w_def Let_def)
  ultimately show ?thesis by simp
qed

section \<open>The user's choice against the hooks\<close>

datatype hook_event = Report cat | Choose

definition hook_step :: "led_hook \<Rightarrow> hook_event \<Rightarrow> led_hook" where
  "hook_step h e = (case e of Report c \<Rightarrow> reportCat c h | Choose \<Rightarrow> manualChoice h)"

text \<open>The category after some events, and that a choice has been made since it was entered.\<close>

definition cat_after :: "hook_event list \<Rightarrow> cat" where
  "cat_after es = foldl (\<lambda>k e. case e of Report c \<Rightarrow> c | Choose \<Rightarrow> k) CatNone es"

definition chosen_here :: "hook_event list \<Rightarrow> bool" where
  "chosen_here es \<longleftrightarrow>
     (\<exists>pre post. es = pre @ Choose # post \<and> set post \<subseteq> {Choose, Report (cat_after pre)})"

lemma cat_after_snoc [simp]:
  "cat_after [] = CatNone" "cat_after (es @ [Report c]) = c" "cat_after (es @ [Choose]) = cat_after es"
  by (simp_all add: cat_after_def)

lemma cat_after_stays:
  "set post \<subseteq> {Choose, Report (cat_after pre)} \<Longrightarrow> cat_after (pre @ Choose # post) = cat_after pre"
proof (induction post rule: rev_induct)
  case Nil then show ?case by simp
next
  case (snoc e post)
  then show ?case using cat_after_snoc(2,3) [of "pre @ Choose # post"] by auto
qed

lemma chosen_snoc_choose: "chosen_here (es @ [Choose])"
  unfolding chosen_here_def by (metis empty_set empty_subsetI)

lemma chosen_snoc_report: "chosen_here (es @ [Report c]) \<longleftrightarrow> chosen_here es \<and> c = cat_after es"
proof
  assume "chosen_here (es @ [Report c])"
  then obtain pre post where p: "es @ [Report c] = pre @ Choose # post" "set post \<subseteq> {Choose, Report (cat_after pre)}"
    unfolding chosen_here_def by blast
  then obtain post' where post: "post = post' @ [Report c]" "es = pre @ Choose # post'"
    by (cases post rule: rev_cases) auto
  then have "c = cat_after pre" "set post' \<subseteq> {Choose, Report (cat_after pre)}" using p(2) by auto
  then show "chosen_here es \<and> c = cat_after es"
    using post(2) cat_after_stays unfolding chosen_here_def by metis
next
  assume a: "chosen_here es \<and> c = cat_after es"
  then obtain pre post where p: "es = pre @ Choose # post" "set post \<subseteq> {Choose, Report (cat_after pre)}"
    unfolding chosen_here_def by blast
  then have "es @ [Report c] = pre @ Choose # (post @ [Report c])"
      "set (post @ [Report c]) \<subseteq> {Choose, Report (cat_after pre)}"
    using a cat_after_stays by auto
  then show "chosen_here (es @ [Report c])" unfolding chosen_here_def by blast
qed

lemma hook_run:
  "hcat (foldl hook_step hook_init es) = cat_after es
    \<and> manual (foldl hook_step hook_init es) = (if chosen_here es then Some (cat_after es) else None)"
proof (induction es rule: rev_induct)
  case Nil show ?case by (simp add: hook_init_def chosen_here_def)
next
  case (snoc e es)
  define h where "h = foldl hook_step hook_init es"
  have h: "hcat h = cat_after es" "manual h = (if chosen_here es then Some (cat_after es) else None)"
    using snoc by (auto simp: h_def)
  have run: "foldl hook_step hook_init (es @ [e]) = hook_step h e" by (simp add: h_def)
  show ?case
    unfolding run using h by (cases e)
      (simp_all add: hook_step_def reportCat_def manualChoice_def chosen_snoc_choose chosen_snoc_report)
qed

text \<open>
  After any reports and choices, the effect that is forced is the hook of the category of
  the last report, unless the user has chosen an effect since that category was entered, or
  no state has been reported; a negative setting forces none.
\<close>

theorem choice_outranks_hook:
  "hook_effect run_effect idle_effect (foldl hook_step hook_init es) =
     (if cat_after es = CatNone \<or> chosen_here es then - 1
      else max (- 1) (if cat_after es = CatRun then run_effect else idle_effect))"
  by (simp add: hook_effect_def hook_run Let_def)

end
