(* ===== verification/MachineCtl.thy ===== *)
theory MachineCtl
  imports Complex_Main MachineTypes
begin

unbundle bit_operations_syntax

text \<open>
  The state of the motion controller that the protocol task and the homing cycle share:
  \<open>system_t\<close> of System.h, the variables of Protocol.cpp and the members of
  Machine/Homing.h, with the event queue of Protocol.cpp and the run state of Stepper.cpp.
  What the handlers do to other modules (stepping, planner, spindle, reports) is recorded in
  \<open>m_effects\<close>; of the planner there is the queue of its blocks, of the segment generator
  that it is awake.
\<close>

section \<open>State\<close>

text \<open>The events, with their arguments; a limit event carries whether the pin is a hard limit.\<close>

datatype event =
    feedOverrideEvent int | feedOverrideSetEvent int | rapidOverrideEvent int | spindleOverrideEvent int
  | accessoryOverrideEvent int | limitEvent bool | faultPinEvent | reportStatusEvent
  | safetyDoorEvent | feedHoldEvent | cycleStartEvent | stopJobEvent | startHomeEvent | cycleStopEvent
  | motionCancelEvent | sleepEvent | debugEvent | startEvent | restartEvent | fullResetEvent
  | runStartupLinesEvent | rtResetEvent | alarmEvent nat | macroEvent nat

text \<open>The alarm codes (\<open>ExecAlarm\<close>).\<close>

abbreviation (input) HardLimit :: nat where "HardLimit \<equiv> 1"
abbreviation (input) SoftLimit :: nat where "SoftLimit \<equiv> 2"
abbreviation (input) AbortCycle :: nat where "AbortCycle \<equiv> 3"
abbreviation (input) HomingFailReset :: nat where "HomingFailReset \<equiv> 6"
abbreviation (input) HomingFailDoor :: nat where "HomingFailDoor \<equiv> 7"
abbreviation (input) HomingFailPulloff :: nat where "HomingFailPulloff \<equiv> 8"
abbreviation (input) HomingFailApproach :: nat where "HomingFailApproach \<equiv> 9"
abbreviation (input) ControlPin :: nat where "ControlPin \<equiv> 11"
abbreviation (input) HardStop :: nat where "HardStop \<equiv> 13"
abbreviation (input) Unhomed :: nat where "Unhomed \<equiv> 14"
abbreviation (input) Init :: nat where "Init \<equiv> 15"

datatype effect =
    SpindleStop | SpindleSpinDown | SpindleSet | SpindleRestore | CoolantStop | CoolantOff | CoolantSet bool bool
  | UserOutputsOff | SetDisable bool | StopStepping | SteppingReset | StartTimer | UpdatePlanBlock | PrepBuffer
  | PlanReinit | UpdateVelocities | OvrChanged | GcSync | PlanSync | GcInit | McInit | McCancelJog | FlushRx
  | AlarmMsg nat | Feedback string | InitMessage | StatusReport | DebugReport | RunMacro string | StartupLines
  | MacroKey nat | Reboot | HomingMove nat u16 u32 | HomingMode u16 bool | ReleaseMotors u16 u32 | SetMpos u16 | LowLatency bool
  | JobAbort | ExecuteLine string | KinematicsStop | ParkingSetup | ParkingTarget | CrashHome

record step_control =
  endMotion :: bool
  executeHold :: bool
  executeSysMotion :: bool
  updateSpindleSpeed :: bool

record suspend =
  holdComplete :: bool
  restartRetract :: bool
  retractComplete :: bool
  initiateRestore :: bool
  restoreComplete :: bool
  safetyDoorAjar :: bool
  motionCancel :: bool
  jogCancel :: bool

record spindle_stop =
  ss_enabled :: bool
  ss_initiate :: bool
  ss_restore :: bool
  ss_restoreCycle :: bool

definition no_step_control :: step_control where
  "no_step_control = \<lparr>endMotion = False, executeHold = False, executeSysMotion = False, updateSpindleSpeed = False\<rparr>"

definition no_suspend :: suspend where
  "no_suspend =
     \<lparr>holdComplete = False, restartRetract = False, retractComplete = False, initiateRestore = False,
      restoreComplete = False, safetyDoorAjar = False, motionCancel = False, jogCancel = False\<rparr>"

definition no_spindle_stop :: spindle_stop where
  "no_spindle_stop = \<lparr>ss_enabled = False, ss_initiate = False, ss_restore = False, ss_restoreCycle = False\<rparr>"

text \<open>\<open>blocks\<close>: the planner's queue, current block first, each with its \<open>is_jog\<close>.\<close>

record mach =
  mode :: mstate
  abort :: bool
  susp :: suspend
  stepc :: step_control
  f_override :: u8
  r_override :: u8
  spindle_speed_ovr :: u8
  lastAlarm :: nat
  unwind_cause :: "string option"
  rtSafetyDoor :: bool
  rtStopJob :: bool
  rtStartHome :: bool
  rtGoto :: "(rat option \<times> rat option \<times> rat) option"
  runLimitLoop :: bool
  spindle_stop_ovr :: spindle_stop
  idleEndTime :: u32
  soft_limit :: bool
  probing :: bool
  awake :: bool
  blocks :: "bool list"
  ev_queue :: "event list"
  spindle_on :: bool
  flood :: bool
  mist :: bool
  hphase :: nat
  hruns :: u32
  cycleAxes :: u16
  phaseAxes :: u16
  cycleMotors :: u32
  phaseMotors :: u32
  remainingCycles :: "u16 list"
  unhomed_axes :: u16
  homed_since_boot :: bool
  m_effects :: "effect list"

text \<open>
  An axis: does it have a homing section, its cycle, has it different pull-offs for its motors,
  and what the driver of each of the two motors, if there is one, answers to homing mode.
\<close>

record axis_cfg =
  ax_homing :: bool
  ax_cycle :: int
  ax_extra_pulloff :: bool
  ax_motor0 :: bool
  ax_motor1 :: bool

text \<open>What the handlers read of the configuration and of other modules.\<close>

record menv =
  axes :: "axis_cfg list"
  homingMask :: u16
  homing_runs :: u32
  must_home :: bool
  off_on_alarm :: bool
  rate_adjusted :: bool
  has_spindle :: bool
  has_flood :: bool
  has_mist :: bool
  idle_msecs :: u32
  end_ticks :: "u32 \<Rightarrow> u32"
  cpu_ticks :: u32
  limit_pins :: u32
  ambiguous_limit :: bool
  door_ajar :: bool
  limits_startup :: bool
  control_startup :: bool
  job_active :: bool
  crash_homing :: bool

section \<open>Primitives\<close>

definition m_do :: "effect list \<Rightarrow> mach \<Rightarrow> mach" where
  "m_do es s = s\<lparr>m_effects := m_effects s @ es\<rparr>"

definition set_state :: "mstate \<Rightarrow> mach \<Rightarrow> mach" where
  "set_state x s = s\<lparr>mode := x\<rparr>"

definition inMotionState :: "mach \<Rightarrow> bool" where
  "inMotionState s \<longleftrightarrow> mode s = Cycle \<or> mode s = Homing \<or> mode s = Jog"

text \<open>The queue holds ten events; sending to a full queue does nothing.\<close>

definition protocol_send_event :: "event \<Rightarrow> mach \<Rightarrow> mach" where
  "protocol_send_event e s = (if length (ev_queue s) < 10 then s\<lparr>ev_queue := ev_queue s @ [e]\<rparr> else s)"

definition send_alarm :: "nat \<Rightarrow> mach \<Rightarrow> mach" where
  "send_alarm a s = protocol_send_event (alarmEvent a) s"

definition upd_susp :: "(suspend \<Rightarrow> suspend) \<Rightarrow> mach \<Rightarrow> mach" where
  "upd_susp f s = s\<lparr>susp := f (susp s)\<rparr>"

definition upd_step :: "(step_control \<Rightarrow> step_control) \<Rightarrow> mach \<Rightarrow> mach" where
  "upd_step f s = s\<lparr>stepc := f (stepc s)\<rparr>"

definition system_reset :: "mach \<Rightarrow> mach" where
  "system_reset s =
     s\<lparr>susp := no_suspend, stepc := no_step_control,
       f_override := 100, r_override := 100, spindle_speed_ovr := 100\<rparr>"

text \<open>\<open>idleEndTime\<close> 0: no disable is scheduled.\<close>

definition protocol_disable_steppers :: "menv \<Rightarrow> mach \<Rightarrow> mach" where
  "protocol_disable_steppers env s =
     (if mode s = Homing then m_do [SetDisable False] s
      else if mode s = Sleep then m_do [SetDisable True] s
      else if idle_msecs env = 255 then m_do [SetDisable False] s
      else if idleEndTime s = 0 then
        (let t = end_ticks env (idle_msecs env * 1000) in s\<lparr>idleEndTime := (if t = 0 then 1 else t)\<rparr>)
      else s)"

definition protocol_cancel_disable_steppers :: "mach \<Rightarrow> mach" where
  "protocol_cancel_disable_steppers s = s\<lparr>idleEndTime := 0\<rparr>"

text \<open>The check of the main loop; the difference of ticks is signed.\<close>

definition idle_check :: "menv \<Rightarrow> mach \<Rightarrow> mach" where
  "idle_check env s =
     (if idleEndTime s \<noteq> 0 \<and> sint (cpu_ticks env - idleEndTime s) > 0
      then m_do [SetDisable True] (s\<lparr>idleEndTime := 0\<rparr>) else s)"

definition wake_up :: "mach \<Rightarrow> mach" where
  "wake_up s =
     (if awake s then s
      else m_do [SetDisable False, StartTimer] (protocol_cancel_disable_steppers (s\<lparr>awake := True\<rparr>)))"

definition go_idle :: "menv \<Rightarrow> mach \<Rightarrow> mach" where
  "go_idle env s = protocol_disable_steppers env (m_do [StopStepping] (s\<lparr>awake := False\<rparr>))"

definition stepper_reset :: "menv \<Rightarrow> mach \<Rightarrow> mach" where
  "stepper_reset env s = go_idle env (m_do [SteppingReset] s)"

definition plan_reset :: "mach \<Rightarrow> mach" where
  "plan_reset s = s\<lparr>blocks := []\<rparr>"

definition mc_critical :: "menv \<Rightarrow> nat \<Rightarrow> mach \<Rightarrow> mach" where
  "mc_critical env a s =
     send_alarm a (if inMotionState s \<or> executeHold (stepc s) \<or> executeSysMotion (stepc s)
                   then stepper_reset env s else s)"

section \<open>What the primitives leave alone\<close>

lemmas prim_defs =
  m_do_def set_state_def protocol_send_event_def send_alarm_def upd_susp_def upd_step_def
  protocol_disable_steppers_def protocol_cancel_disable_steppers_def wake_up_def go_idle_def
  stepper_reset_def plan_reset_def mc_critical_def

lemma m_do_frame [simp]:
  "mode (m_do es s) = mode s" "abort (m_do es s) = abort s" "susp (m_do es s) = susp s"
  "stepc (m_do es s) = stepc s" "f_override (m_do es s) = f_override s"
  "r_override (m_do es s) = r_override s" "spindle_speed_ovr (m_do es s) = spindle_speed_ovr s"
  "lastAlarm (m_do es s) = lastAlarm s" "unwind_cause (m_do es s) = unwind_cause s"
  "rtSafetyDoor (m_do es s) = rtSafetyDoor s" "rtStopJob (m_do es s) = rtStopJob s"
  "rtStartHome (m_do es s) = rtStartHome s" "rtGoto (m_do es s) = rtGoto s"
  "runLimitLoop (m_do es s) = runLimitLoop s" "spindle_stop_ovr (m_do es s) = spindle_stop_ovr s"
  "idleEndTime (m_do es s) = idleEndTime s" "soft_limit (m_do es s) = soft_limit s"
  "probing (m_do es s) = probing s" "awake (m_do es s) = awake s" "blocks (m_do es s) = blocks s"
  "ev_queue (m_do es s) = ev_queue s" "spindle_on (m_do es s) = spindle_on s" "flood (m_do es s) = flood s"
  "mist (m_do es s) = mist s" "hphase (m_do es s) = hphase s" "hruns (m_do es s) = hruns s"
  "cycleAxes (m_do es s) = cycleAxes s" "phaseAxes (m_do es s) = phaseAxes s"
  "cycleMotors (m_do es s) = cycleMotors s" "phaseMotors (m_do es s) = phaseMotors s"
  "remainingCycles (m_do es s) = remainingCycles s" "unhomed_axes (m_do es s) = unhomed_axes s"
  "homed_since_boot (m_do es s) = homed_since_boot s"
  by (simp_all add: m_do_def)

lemma disable_steppers_frame [simp]:
  "mode (protocol_disable_steppers env s) = mode s" "abort (protocol_disable_steppers env s) = abort s"
  "susp (protocol_disable_steppers env s) = susp s" "stepc (protocol_disable_steppers env s) = stepc s"
  "f_override (protocol_disable_steppers env s) = f_override s"
  "r_override (protocol_disable_steppers env s) = r_override s"
  "spindle_speed_ovr (protocol_disable_steppers env s) = spindle_speed_ovr s"
  "lastAlarm (protocol_disable_steppers env s) = lastAlarm s"
  "unwind_cause (protocol_disable_steppers env s) = unwind_cause s"
  "rtSafetyDoor (protocol_disable_steppers env s) = rtSafetyDoor s"
  "rtStopJob (protocol_disable_steppers env s) = rtStopJob s"
  "rtStartHome (protocol_disable_steppers env s) = rtStartHome s"
  "rtGoto (protocol_disable_steppers env s) = rtGoto s"
  "runLimitLoop (protocol_disable_steppers env s) = runLimitLoop s"
  "spindle_stop_ovr (protocol_disable_steppers env s) = spindle_stop_ovr s"
  "soft_limit (protocol_disable_steppers env s) = soft_limit s"
  "probing (protocol_disable_steppers env s) = probing s"
  "awake (protocol_disable_steppers env s) = awake s" "blocks (protocol_disable_steppers env s) = blocks s"
  "ev_queue (protocol_disable_steppers env s) = ev_queue s"
  "spindle_on (protocol_disable_steppers env s) = spindle_on s"
  "flood (protocol_disable_steppers env s) = flood s" "mist (protocol_disable_steppers env s) = mist s"
  "hphase (protocol_disable_steppers env s) = hphase s" "hruns (protocol_disable_steppers env s) = hruns s"
  "cycleAxes (protocol_disable_steppers env s) = cycleAxes s"
  "phaseAxes (protocol_disable_steppers env s) = phaseAxes s"
  "cycleMotors (protocol_disable_steppers env s) = cycleMotors s"
  "phaseMotors (protocol_disable_steppers env s) = phaseMotors s"
  "remainingCycles (protocol_disable_steppers env s) = remainingCycles s"
  "unhomed_axes (protocol_disable_steppers env s) = unhomed_axes s"
  "homed_since_boot (protocol_disable_steppers env s) = homed_since_boot s"
  by (simp_all add: protocol_disable_steppers_def m_do_def Let_def)

lemma stepper_reset_frame [simp]:
  "mode (stepper_reset env s) = mode s" "abort (stepper_reset env s) = abort s"
  "susp (stepper_reset env s) = susp s" "stepc (stepper_reset env s) = stepc s"
  "f_override (stepper_reset env s) = f_override s" "r_override (stepper_reset env s) = r_override s"
  "spindle_speed_ovr (stepper_reset env s) = spindle_speed_ovr s"
  "lastAlarm (stepper_reset env s) = lastAlarm s" "unwind_cause (stepper_reset env s) = unwind_cause s"
  "rtSafetyDoor (stepper_reset env s) = rtSafetyDoor s" "rtStopJob (stepper_reset env s) = rtStopJob s"
  "rtStartHome (stepper_reset env s) = rtStartHome s" "rtGoto (stepper_reset env s) = rtGoto s"
  "runLimitLoop (stepper_reset env s) = runLimitLoop s"
  "spindle_stop_ovr (stepper_reset env s) = spindle_stop_ovr s"
  "soft_limit (stepper_reset env s) = soft_limit s" "probing (stepper_reset env s) = probing s"
  "blocks (stepper_reset env s) = blocks s" "ev_queue (stepper_reset env s) = ev_queue s"
  "spindle_on (stepper_reset env s) = spindle_on s" "flood (stepper_reset env s) = flood s"
  "mist (stepper_reset env s) = mist s" "hphase (stepper_reset env s) = hphase s"
  "hruns (stepper_reset env s) = hruns s" "cycleAxes (stepper_reset env s) = cycleAxes s"
  "phaseAxes (stepper_reset env s) = phaseAxes s" "cycleMotors (stepper_reset env s) = cycleMotors s"
  "phaseMotors (stepper_reset env s) = phaseMotors s"
  "remainingCycles (stepper_reset env s) = remainingCycles s"
  "unhomed_axes (stepper_reset env s) = unhomed_axes s"
  "homed_since_boot (stepper_reset env s) = homed_since_boot s"
  by (simp_all add: stepper_reset_def go_idle_def)

end
