(* ===== verification/Homing.thy ===== *)
theory Homing
  imports MachineCtl
begin

unbundle bit_operations_syntax

text \<open>
  FluidNC/src/Machine/Homing.h and Homing.cpp: the homing cycle, a state machine driven by
  the events of the limit switches and of the stepper, on the cartesian kinematics (the base
  class of ThetaRho). The floating-point target and rate of a move are not modelled: a move
  is the effect \<open>HomingMove\<close> with its phase, axes and motors. The phase is a number here as
  the code computes with it.
\<close>

section \<open>Definitions\<close>

abbreviation (input) PrePulloff :: nat where "PrePulloff \<equiv> 1"
abbreviation (input) FastApproach :: nat where "FastApproach \<equiv> 2"
abbreviation (input) Pulloff0 :: nat where "Pulloff0 \<equiv> 3"
abbreviation (input) SlowApproach :: nat where "SlowApproach \<equiv> 4"
abbreviation (input) Pulloff1 :: nat where "Pulloff1 \<equiv> 5"
abbreviation (input) Pulloff2 :: nat where "Pulloff2 \<equiv> 6"
abbreviation (input) CycleDone :: nat where "CycleDone \<equiv> 7"

definition approach :: "mach \<Rightarrow> bool" where
  "approach s \<longleftrightarrow> hphase s = FastApproach \<or> hphase s = SlowApproach"

definition set_all_axes_unhomed :: "menv \<Rightarrow> mach \<Rightarrow> mach" where
  "set_all_axes_unhomed env s = (if must_home env then s\<lparr>unhomed_axes := homingMask env\<rparr> else s)"

definition set_all_axes_homed :: "mach \<Rightarrow> mach" where
  "set_all_axes_homed s = s\<lparr>unhomed_axes := 0\<rparr>"

definition set_axis_homed :: "nat \<Rightarrow> mach \<Rightarrow> mach" where
  "set_axis_homed axis s = s\<lparr>unhomed_axes := unhomed_axes s AND NOT (push_bit axis 1)\<rparr>"

text \<open>\<open>Axes::set_homing_mode\<close> and its result, the motors whose drivers take part.\<close>

definition can_home :: "menv \<Rightarrow> u16 \<Rightarrow> u32" where
  "can_home env m =
     foldl (\<lambda>r axis. r OR (if bit m axis \<and> ax_motor0 (axes env ! axis) then push_bit axis 1 else 0)
                       OR (if bit m axis \<and> ax_motor1 (axes env ! axis) then push_bit (axis + 16) 1 else 0))
       0 [0 ..< length (axes env)]"

definition set_homing_mode :: "u16 \<Rightarrow> bool \<Rightarrow> mach \<Rightarrow> mach" where
  "set_homing_mode m b s = m_do [HomingMode m b] s"

definition startMove :: "mach \<Rightarrow> mach" where
  "startMove s =
     protocol_send_event cycleStartEvent (m_do [HomingMove (hphase s) (phaseAxes s) (phaseMotors s)] s)"

definition homing_fail :: "menv \<Rightarrow> nat \<Rightarrow> mach \<Rightarrow> mach" where
  "homing_fail env a s =
     m_do [SetDisable (idle_msecs env \<noteq> 255)]
       (set_homing_mode (cycleAxes s) False (send_alarm a (stepper_reset env s)))"

definition needsPulloff2 :: "menv \<Rightarrow> u32 \<Rightarrow> bool" where
  "needsPulloff2 env motors \<longleftrightarrow>
     (let squared = (ucast (motors AND drop_bit 16 motors) :: u16) in
      squared \<noteq> 0 \<and>
      list_ex (\<lambda>axis. bit squared axis \<and> ax_extra_pulloff (axes env ! axis)) [0 ..< length (axes env)])"

definition set_mpos :: "menv \<Rightarrow> mach \<Rightarrow> mach" where
  "set_mpos env s =
     (let homed = filter (\<lambda>axis. bit (cycleAxes s) axis \<and> ax_homing (axes env ! axis)) [0 ..< length (axes env)];
          s1 = foldl (\<lambda>t axis. set_axis_homed axis t) s homed
      in set_homing_mode (cycleAxes s) False
           ((m_do [SetMpos (foldl (\<lambda>m axis. m OR push_bit axis 1) 0 homed)] s1)\<lparr>stepc := no_step_control\<rparr>))"

definition homing_done :: "menv \<Rightarrow> mach \<Rightarrow> mach" where
  "homing_done env s =
     (if abort s then s
      else
        let s1 = m_do [GcSync, PlanSync, LowLatency False] s;
            s2 = (if unhomed_axes s1 = 0 then s1\<lparr>homed_since_boot := True\<rparr> else s1)
        in go_idle env (set_state (if unhomed_axes s2 \<noteq> 0 then Alarm else Idle) s2))"

text \<open>The first lines of \<open>nextPhase\<close>: the phase that follows, and the runs that are left.\<close>

definition advance_phase :: "mach \<Rightarrow> mach" where
  "advance_phase s =
     (let p = hphase s + 1 in
      if p = SlowApproach \<and> hruns s = 1 then s\<lparr>hphase := Pulloff2\<rparr>
      else if p = Pulloff2 then
        (let r = hruns s - 1 in if r > 1 then s\<lparr>hruns := r, hphase := SlowApproach\<rparr>
                                else s\<lparr>hruns := r, hphase := p\<rparr>)
      else s\<lparr>hphase := p\<rparr>)"

text \<open>The first lines of \<open>runPhase\<close>.\<close>

definition enter_phase :: "mach \<Rightarrow> mach" where
  "enter_phase s = s\<lparr>phaseAxes := cycleAxes s, phaseMotors := cycleMotors s\<rparr>"

text \<open>The first lines of \<open>nextCycle\<close>, for a cycle that is left.\<close>

definition begin_cycle :: "menv \<Rightarrow> u16 \<Rightarrow> u16 list \<Rightarrow> mach \<Rightarrow> mach" where
  "begin_cycle env c cs s =
     (let ca = c AND homingMask env
      in (set_homing_mode ca True
            (s\<lparr>remainingCycles := cs, cycleAxes := ca\<rparr>))\<lparr>cycleMotors := can_home env ca,
          hphase := PrePulloff, hruns := homing_runs env\<rparr>)"

definition is_done :: "menv \<Rightarrow> mach \<Rightarrow> bool" where
  "is_done env s \<longleftrightarrow> hphase s = CycleDone \<or> (hphase s = Pulloff2 \<and> \<not> needsPulloff2 env (cycleMotors s))"

lemma set_mpos_frame [simp]:
  "remainingCycles (set_mpos env s) = remainingCycles s" "mode (set_mpos env s) = mode s"
  "abort (set_mpos env s) = abort s" "cycleMotors (set_mpos env s) = cycleMotors s"
  "ev_queue (set_mpos env s) = ev_queue s" "hphase (set_mpos env s) = hphase s"
proof -
  have "remainingCycles (foldl (\<lambda>t axis. set_axis_homed axis t) t xs) = remainingCycles t
      \<and> mode (foldl (\<lambda>t axis. set_axis_homed axis t) t xs) = mode t
      \<and> abort (foldl (\<lambda>t axis. set_axis_homed axis t) t xs) = abort t
      \<and> cycleMotors (foldl (\<lambda>t axis. set_axis_homed axis t) t xs) = cycleMotors t
      \<and> hphase (foldl (\<lambda>t axis. set_axis_homed axis t) t xs) = hphase t
      \<and> ev_queue (foldl (\<lambda>t axis. set_axis_homed axis t) t xs) = ev_queue t" for t xs
    by (induction xs arbitrary: t) (simp_all add: set_axis_homed_def)
  then show "remainingCycles (set_mpos env s) = remainingCycles s" "mode (set_mpos env s) = mode s"
    "abort (set_mpos env s) = abort s" "cycleMotors (set_mpos env s) = cycleMotors s"
    "ev_queue (set_mpos env s) = ev_queue s" "hphase (set_mpos env s) = hphase s"
    by (simp_all add: set_mpos_def set_homing_mode_def m_do_def Let_def)
qed

lemma advance_phase_frame [simp]:
  "remainingCycles (advance_phase s) = remainingCycles s" "cycleMotors (advance_phase s) = cycleMotors s"
  "mode (advance_phase s) = mode s" "abort (advance_phase s) = abort s" "ev_queue (advance_phase s) = ev_queue s"
  by (simp_all add: advance_phase_def Let_def)

lemma advance_phase_phase:
  "hphase (advance_phase s) \<in> {hphase s + 1, SlowApproach, Pulloff2}"
  "hphase s = Pulloff2 \<Longrightarrow> hphase (advance_phase s) = CycleDone"
  "hphase s \<noteq> 0 \<Longrightarrow> hphase (advance_phase s) \<noteq> PrePulloff"
  by (auto simp: advance_phase_def Let_def)

text \<open>How far the machine can go without waiting for a move: ranks of the three functions.\<close>

definition next_rank :: "mach \<Rightarrow> nat" where
  "next_rank s = (if hphase s = Pulloff2 then 1 else if hphase s = 0 then 5 else 3)"

definition run_rank :: "mach \<Rightarrow> nat" where
  "run_rank s = (if cycleMotors s \<noteq> 0 \<and> hphase s = PrePulloff then 4 else 2)"

function nextPhase :: "menv \<Rightarrow> mach \<Rightarrow> mach"
  and runPhase :: "menv \<Rightarrow> mach \<Rightarrow> mach"
  and nextCycle :: "menv \<Rightarrow> mach \<Rightarrow> mach" where
  "nextPhase env s =
     (let s1 = advance_phase s in
      if is_done env s1 then nextCycle env (set_mpos env s1) else runPhase env s1)"
| "runPhase env s =
     (let s1 = enter_phase s in
      if phaseMotors s1 = 0 then nextPhase env (s1\<lparr>hphase := CycleDone - 1\<rparr>)
      else if hphase s1 = PrePulloff \<and> limit_pins env AND phaseMotors s1 = 0 then nextPhase env s1
      else startMove (m_do [ReleaseMotors (phaseAxes s1) (phaseMotors s1)] s1))"
| "nextCycle env s =
     (if mode s = Alarm then s\<lparr>remainingCycles := []\<rparr>
      else case remainingCycles s of
        [] \<Rightarrow> homing_done env s
      | c # cs \<Rightarrow> runPhase env (begin_cycle env c cs s))"
  by pat_completeness auto
termination
proof (relation "measures [\<lambda>x. case x of Inl (_, s) \<Rightarrow> length (remainingCycles s)
      | Inr (Inl (_, s)) \<Rightarrow> length (remainingCycles s) | Inr (Inr (_, s)) \<Rightarrow> length (remainingCycles s),
    \<lambda>x. case x of Inl (_, s) \<Rightarrow> next_rank s | Inr (Inl (_, s)) \<Rightarrow> run_rank s | Inr (Inr (_, s)) \<Rightarrow> 0]", goal_cases)
  case 1 show ?case by simp
next
  case (2 env s x) then show ?case by (simp add: next_rank_def)
next
  case (3 env s x)
  have "hphase (advance_phase s) \<noteq> CycleDone" using 3 by (simp add: is_done_def)
  then have "hphase s \<noteq> Pulloff2" using advance_phase_phase(2) by blast
  then show ?case
    using 3 advance_phase_phase(3) [of s] by (auto simp: next_rank_def run_rank_def)
next
  case (4 env s x) then show ?case by (simp add: enter_phase_def next_rank_def run_rank_def)
next
  case (5 env s x) then show ?case by (auto simp: enter_phase_def next_rank_def run_rank_def)
next
  case (6 env s c cs) then show ?case by (simp add: begin_cycle_def set_homing_mode_def m_do_def Let_def)
qed

declare nextPhase.simps [simp del] runPhase.simps [simp del] nextCycle.simps [simp del]

definition cycleStop :: "menv \<Rightarrow> mach \<Rightarrow> mach" where
  "cycleStop env s =
     (if approach s then m_do [StatusReport] (homing_fail env HomingFailApproach s)
      else if limit_pins env AND phaseMotors s \<noteq> 0 then homing_fail env HomingFailPulloff s
      else nextPhase env (stepper_reset env (s\<lparr>phaseMotors := 0\<rparr>)))"

definition motors_to_axes :: "u32 \<Rightarrow> u16" where
  "motors_to_axes m = ucast ((m AND 0xFFFF) OR drop_bit 16 m)"

text \<open>\<open>Cartesian::limitReached\<close>: the axes and motors still running, and to stop and replan.\<close>

definition cart_limitReached :: "u16 \<Rightarrow> u32 \<Rightarrow> u32 \<Rightarrow> bool \<times> u16 \<times> u32" where
  "cart_limitReached ax motors limited =
     (let m = motors AND NOT limited; a = motors_to_axes m in (a \<noteq> ax, a, m))"

definition limitReached :: "menv \<Rightarrow> mach \<Rightarrow> mach" where
  "limitReached env s =
     (if \<not> approach s then s
      else
        let (stop, a, m) = cart_limitReached (phaseAxes s) (phaseMotors s) (limit_pins env);
            s1 = s\<lparr>phaseAxes := a, phaseMotors := m\<rparr>
        in if \<not> stop then s1
           else
             let s2 = stepper_reset env s1 in
             if phaseAxes s2 \<noteq> 0 then startMove (m_do [ReleaseMotors (phaseAxes s2) (phaseMotors s2)] s2)
             else nextPhase env s2)"

definition axis_mask_from_cycle :: "menv \<Rightarrow> int \<Rightarrow> u16" where
  "axis_mask_from_cycle env c =
     foldl (\<lambda>m axis. if ax_homing (axes env ! axis) \<and> ax_cycle (axes env ! axis) = c then m OR push_bit axis 1 else m)
       0 [0 ..< length (axes env)]"

text \<open>The axes that are homed without motion: None when the request was one such axis.\<close>

fun set_mpos_only :: "menv \<Rightarrow> nat list \<Rightarrow> u16 \<Rightarrow> mach \<Rightarrow> u16 option \<times> mach" where
  "set_mpos_only env [] m s = (Some m, s)"
| "set_mpos_only env (axis # xs) m s =
     (if ax_homing (axes env ! axis) \<and> ax_cycle (axes env ! axis) = - 1 \<and> (m = 0 \<or> bit m axis) then
        let s1 = m_do [SetMpos (push_bit axis 1)] s in
        if m = push_bit axis 1 then (None, s1) else set_mpos_only env xs (m AND NOT (push_bit axis 1)) s1
      else set_mpos_only env xs m s)"

text \<open>\<open>MAX_N_AXIS\<close> is 6.\<close>

definition cycles_to_run :: "menv \<Rightarrow> u16 \<Rightarrow> u16 list" where
  "cycles_to_run env m =
     (if m \<noteq> 0 then [m] else filter (\<lambda>c. c \<noteq> 0) (map (\<lambda>c. axis_mask_from_cycle env (int c)) [1 ..< 7]))"

definition run_cycles :: "menv \<Rightarrow> u16 \<Rightarrow> mach \<Rightarrow> mach" where
  "run_cycles env am s =
     (if ambiguous_limit env then set_state Alarm s
      else
        case set_mpos_only env [0 ..< length (axes env)] am s of
          (None, s1) \<Rightarrow> s1
        | (Some m, s1) \<Rightarrow>
            let s2 = s1\<lparr>remainingCycles := cycles_to_run env m\<rparr>
            in if cycles_to_run env m = [] then set_state Alarm s2
               else nextCycle env (set_state Homing (m_do [LowLatency True] s2)))"

section \<open>Homing ends\<close>

text \<open>
  The events of a homing cycle, one by one: while a phase approaches the switches a limit event,
  in any other phase the end of the move, each with the limit pins as they are then. A run
  handles the events while the machine is homing.
\<close>

definition homing_event :: "menv \<Rightarrow> u32 \<Rightarrow> mach \<Rightarrow> mach" where
  "homing_event env pins s =
     (if approach s then limitReached (env\<lparr>limit_pins := pins\<rparr>) s
      else cycleStop (env\<lparr>limit_pins := pins\<rparr>) s)"

fun homing_run :: "menv \<Rightarrow> (nat \<Rightarrow> u32) \<Rightarrow> nat \<Rightarrow> mach \<Rightarrow> mach" where
  "homing_run env pins 0 s = s"
| "homing_run env pins (Suc n) s =
     (let t = homing_run env pins n s in if mode t = Homing then homing_event env (pins n) t else t)"

text \<open>
  Switches that work: a limit event of an approach has the pin of some motor that is still
  running (of one motor, of several or of all; pins of other motors may be on or off), and a
  pull-off leaves the switches of its motors.
\<close>

definition pins_work :: "u32 \<Rightarrow> mach \<Rightarrow> bool" where
  "pins_work pins s \<longleftrightarrow> (approach s \<longleftrightarrow> pins AND phaseMotors s \<noteq> 0)"

text \<open>The axes whose position is unknown, and the axes that a cycle homes.\<close>

definition unhomed :: "mach \<Rightarrow> nat set" where
  "unhomed s = {axis. bit (unhomed_axes s) axis}"

definition homes :: "menv \<Rightarrow> u16 \<Rightarrow> nat set" where
  "homes env c = {axis. axis < length (axes env) \<and> bit (c AND homingMask env) axis \<and> ax_homing (axes env ! axis)}"

text \<open>The machine waits for an event of a move of its current cycle.\<close>

definition in_cycle :: "menv \<Rightarrow> mach \<Rightarrow> bool" where
  "in_cycle env s \<longleftrightarrow> mode s = Homing \<and> \<not> abort s \<and> 1 \<le> hruns s \<and> 1 \<le> hphase s \<and> hphase s \<le> Pulloff2
     \<and> (hphase s = SlowApproach \<or> hphase s = Pulloff1 \<longrightarrow> 2 \<le> hruns s)
     \<and> cycleMotors s \<noteq> 0 \<and> cycleAxes s \<noteq> 0 \<and> cycleAxes s AND homingMask env = cycleAxes s"

definition waiting :: "menv \<Rightarrow> mach \<Rightarrow> bool" where
  "waiting env s \<longleftrightarrow> in_cycle env s \<and> phaseMotors s \<noteq> 0 \<and> phaseAxes s \<noteq> 0"

text \<open>A phase that has just begun: all motors of the cycle take part.\<close>

definition fresh :: "mach \<Rightarrow> bool" where
  "fresh s \<longleftrightarrow> phaseMotors s = cycleMotors s"

text \<open>The axes that will still be unknown, and the end of homing.\<close>

definition rest_unhomed :: "menv \<Rightarrow> mach \<Rightarrow> nat set" where
  "rest_unhomed env s = unhomed s - homes env (cycleAxes s) - (\<Union>c \<in> set (remainingCycles s). homes env c)"

definition ended :: "nat set \<Rightarrow> mach \<Rightarrow> bool" where
  "ended U s \<longleftrightarrow> mode s = (if unhomed_axes s = 0 then Idle else Alarm) \<and> unhomed s = U"

definition phase_progress :: "(mach \<times> mach) set" where
  "phase_progress = measures [\<lambda>s. length (remainingCycles s), \<lambda>s. unat (hruns s), \<lambda>s. 8 - hphase s]"

definition progress :: "(mach \<times> mach) set" where
  "progress = measures [\<lambda>s. length (remainingCycles s), \<lambda>s. unat (hruns s), \<lambda>s. 8 - hphase s,
     \<lambda>s. unat (phaseMotors s)]"

lemma progressI: "(t, s) \<in> phase_progress \<Longrightarrow> (t, s) \<in> progress"
  by (auto simp: phase_progress_def progress_def)

lemma can_home_none: "can_home env 0 = 0"
proof -
  have "foldl (\<lambda>r axis. r OR (if bit (0 :: u16) axis \<and> ax_motor0 (axes env ! axis) then push_bit axis 1 else 0)
                       OR (if bit (0 :: u16) axis \<and> ax_motor1 (axes env ! axis) then push_bit (axis + 16) 1 else 0))
       r xs = r" for xs and r :: u32
    by (induction xs arbitrary: r) simp_all
  then show ?thesis by (simp add: can_home_def)
qed

lemma unhomed_set_mpos:
  "cycleAxes s = c AND homingMask env \<Longrightarrow> unhomed (set_mpos env s) = unhomed s - homes env c"
proof -
  assume c: "cycleAxes s = c AND homingMask env"
  have "unhomed_axes (foldl (\<lambda>t axis. set_axis_homed axis t) t xs) = foldl (\<lambda>u axis. u AND NOT (push_bit axis 1)) (unhomed_axes t) xs" for t xs
    by (induction xs arbitrary: t) (simp_all add: set_axis_homed_def)
  moreover have "bit (foldl (\<lambda>u axis. u AND NOT (push_bit axis 1)) u xs) n \<longleftrightarrow> bit u n \<and> n \<notin> set xs" for u :: u16 and xs n
  proof (induction xs arbitrary: u)
    case (Cons x xs)
    have "bit (u AND NOT (push_bit x 1)) n \<longleftrightarrow> bit u n \<and> n \<noteq> x"
      using bit_imp_le_length [of u n]
      by (auto simp: bit_and_iff bit_not_iff bit_exp_iff)
    then show ?case using Cons by auto
  qed simp
  ultimately show ?thesis
    by (auto simp: unhomed_def homes_def set_mpos_def set_homing_mode_def m_do_def Let_def c)
qed

lemma start_waiting:
  assumes "in_cycle env s" "phaseMotors s \<noteq> 0" "phaseAxes s \<noteq> 0"
  shows "waiting env (startMove (m_do es s))"
    "rest_unhomed env (startMove (m_do es s)) = rest_unhomed env s"
    "remainingCycles (startMove (m_do es s)) = remainingCycles s"
    "hruns (startMove (m_do es s)) = hruns s" "hphase (startMove (m_do es s)) = hphase s"
    "phaseMotors (startMove (m_do es s)) = phaseMotors s" "cycleMotors (startMove (m_do es s)) = cycleMotors s"
  using assms
  by (simp_all add: startMove_def protocol_send_event_def m_do_def waiting_def in_cycle_def rest_unhomed_def unhomed_def)

text \<open>Entering a phase of a cycle that has motors, with no move before it to wait for.\<close>

lemma runPhase_waiting:
  assumes "in_cycle env s" "hphase s \<noteq> PrePulloff \<or> limit_pins env AND cycleMotors s \<noteq> 0"
  shows "waiting env (runPhase env s) \<and> fresh (runPhase env s) \<and> rest_unhomed env (runPhase env s) = rest_unhomed env s
    \<and> remainingCycles (runPhase env s) = remainingCycles s
    \<and> hruns (runPhase env s) = hruns s \<and> hphase (runPhase env s) = hphase s"
proof -
  have c: "in_cycle env (enter_phase s)" "rest_unhomed env (enter_phase s) = rest_unhomed env s"
    "phaseMotors (enter_phase s) = cycleMotors (enter_phase s)" "phaseAxes (enter_phase s) = cycleAxes (enter_phase s)"
    "remainingCycles (enter_phase s) = remainingCycles s" "hruns (enter_phase s) = hruns s"
    "hphase (enter_phase s) = hphase s" "cycleMotors (enter_phase s) = cycleMotors s"
    using assms(1) by (simp_all add: enter_phase_def in_cycle_def rest_unhomed_def unhomed_def)
  then have "runPhase env s =
      startMove (m_do [ReleaseMotors (phaseAxes (enter_phase s)) (phaseMotors (enter_phase s))] (enter_phase s))"
    using assms by (subst runPhase.simps) (auto simp: Let_def in_cycle_def)
  moreover have "phaseMotors (enter_phase s) \<noteq> 0" "phaseAxes (enter_phase s) \<noteq> 0"
    using c(1,3,4) by (simp_all add: in_cycle_def)
  ultimately show ?thesis using start_waiting [OF c(1)] c by (simp add: fresh_def)
qed

lemma begin_cycle_sets [simp]:
  "mode (begin_cycle env c cs s) = mode s" "abort (begin_cycle env c cs s) = abort s"
  "hruns (begin_cycle env c cs s) = homing_runs env" "hphase (begin_cycle env c cs s) = PrePulloff"
  "cycleAxes (begin_cycle env c cs s) = c AND homingMask env"
  "cycleMotors (begin_cycle env c cs s) = can_home env (c AND homingMask env)"
  "remainingCycles (begin_cycle env c cs s) = cs" "unhomed_axes (begin_cycle env c cs s) = unhomed_axes s"
  by (simp_all add: begin_cycle_def set_homing_mode_def Let_def)

lemma nextCycle_result:
  assumes "mode s = Homing" "\<not> abort s" "1 \<le> homing_runs env"
    and "U = unhomed s - (\<Union>c \<in> set (remainingCycles s). homes env c)"
  shows "ended U (nextCycle env s) \<or>
    (waiting env (nextCycle env s) \<and> fresh (nextCycle env s) \<and> rest_unhomed env (nextCycle env s) = U
      \<and> length (remainingCycles (nextCycle env s)) < length (remainingCycles s))"
  using assms
proof (induction "remainingCycles s" arbitrary: s)
  case Nil
  then have "nextCycle env s = homing_done env s" by (subst nextCycle.simps) simp
  moreover have "mode (homing_done env s) = (if unhomed_axes s = 0 then Idle else Alarm)"
      "unhomed_axes (homing_done env s) = unhomed_axes s"
    using Nil.prems
    by (simp_all add: homing_done_def Let_def go_idle_def protocol_disable_steppers_def set_state_def m_do_def)
  ultimately show ?case using Nil by (simp add: ended_def unhomed_def)
next
  case (Cons c cs)
  let ?b = "begin_cycle env c cs s"
  have nc: "nextCycle env s = runPhase env ?b"
    using Cons.prems(1) by (subst nextCycle.simps) (simp flip: Cons.hyps(2))
  have b: "mode ?b = Homing" "\<not> abort ?b" "hruns ?b = homing_runs env" "hphase ?b = PrePulloff"
      "cycleAxes ?b = c AND homingMask env" "cycleMotors ?b = can_home env (c AND homingMask env)"
      "remainingCycles ?b = cs" "unhomed ?b = unhomed s"
    using Cons.prems(1,2) by (simp_all add: unhomed_def)
  have U: "U = unhomed s - homes env c - (\<Union>c \<in> set cs. homes env c)"
    using Cons.prems(4) unfolding Cons.hyps(2) [symmetric] by auto
  have same: "homes env (c AND homingMask env) = homes env c" by (auto simp: homes_def bit_and_iff)
  show ?case
  proof (cases "cycleMotors ?b = 0")
    case True
    define a where "a = (enter_phase ?b)\<lparr>hphase := CycleDone\<rparr>"
    define t where "t = set_mpos env a"
    have adv: "advance_phase ((enter_phase ?b)\<lparr>hphase := Pulloff2\<rparr>) = a"
      by (simp add: advance_phase_def a_def Let_def)
    have a: "mode a = Homing" "\<not> abort a" "remainingCycles a = cs" "cycleAxes a = c AND homingMask env"
        "unhomed a = unhomed s"
      using b by (simp_all add: a_def enter_phase_def unhomed_def)
    have run: "runPhase env ?b = nextPhase env ((enter_phase ?b)\<lparr>hphase := Pulloff2\<rparr>)"
      using True by (subst runPhase.simps) (simp add: Let_def enter_phase_def)
    have nx: "nextPhase env ((enter_phase ?b)\<lparr>hphase := Pulloff2\<rparr>) = nextCycle env t"
      by (subst nextPhase.simps) (simp add: Let_def is_done_def adv t_def, simp add: a_def)
    have "mode t = Homing" "\<not> abort t" "remainingCycles t = cs"
      using a by (simp_all add: t_def)
    moreover have "unhomed t = unhomed s - homes env c"
      using unhomed_set_mpos [OF a(4)] a(5) by (simp add: t_def)
    ultimately show ?thesis
      using Cons.hyps(1) [of t] Cons.prems(3) U run nx nc by (simp flip: Cons.hyps(2)) (metis less_Suc_eq)
  next
    case False
    then have "c AND homingMask env \<noteq> 0" using b(6) can_home_none by metis
    then have ic: "in_cycle env ?b" using b False Cons.prems(3) by (simp add: in_cycle_def and.assoc)
    have rest: "rest_unhomed env ?b = U" using b U same by (simp add: rest_unhomed_def)
    show ?thesis
    proof (cases "limit_pins env AND cycleMotors ?b = 0")
      case True
      let ?e = "(enter_phase ?b)\<lparr>hphase := FastApproach\<rparr>"
      have "runPhase env ?b = nextPhase env (enter_phase ?b)"
        using True False b(4) by (subst runPhase.simps) (simp add: Let_def enter_phase_def)
      also have "\<dots> = runPhase env ?e"
        using b(4) by (subst nextPhase.simps) (simp add: Let_def advance_phase_def is_done_def enter_phase_def numeral_2_eq_2)
      finally have "nextCycle env s = runPhase env ?e" using nc by simp
      moreover have "in_cycle env ?e" "rest_unhomed env ?e = U" "remainingCycles ?e = cs"
        using ic rest b(7) by (simp_all add: enter_phase_def in_cycle_def rest_unhomed_def unhomed_def)
      ultimately show ?thesis using runPhase_waiting [of env ?e] Cons.hyps(2) by (simp flip: Cons.hyps(2))
    next
      case False
      then show ?thesis
        using runPhase_waiting [OF ic] nc rest b(7) by (simp flip: Cons.hyps(2))
    qed
  qed
qed

lemma word_pred: "1 < (r :: u32) \<Longrightarrow> unat (r - 1) = unat r - 1"
  by (simp add: unat_sub word_less_nat_alt word_le_nat_alt)

lemma word_two_le: "1 \<le> (r :: u32) \<Longrightarrow> r \<noteq> 1 \<Longrightarrow> 2 \<le> r"
proof -
  assume "1 \<le> r" "r \<noteq> 1"
  then have "1 \<le> unat r" "unat r \<noteq> 1" using word_unat_eq_iff [of r 1] by (simp_all add: word_le_nat_alt)
  then show "2 \<le> r" by (simp add: word_le_nat_alt)
qed

lemma advance_in_cycle:
  assumes "in_cycle env s" "\<not> is_done env (advance_phase s)"
  shows "in_cycle env (advance_phase s) \<and> rest_unhomed env (advance_phase s) = rest_unhomed env s
    \<and> hphase (advance_phase s) \<noteq> PrePulloff \<and> (advance_phase s, s) \<in> phase_progress"
proof -
  have keep: "cycleAxes (advance_phase s) = cycleAxes s" "unhomed_axes (advance_phase s) = unhomed_axes s"
    by (simp_all add: advance_phase_def Let_def)
  have "hphase s \<noteq> 6" using assms(2) advance_phase_phase(2) [of s] by (auto simp: is_done_def)
  then consider "hphase s = 1 \<or> hphase s = 2 \<or> hphase s = 4" | "hphase s = 3" | "hphase s = 5"
    using assms(1) by (simp add: in_cycle_def) linarith
  then have "hphase (advance_phase s) \<le> Pulloff2 \<and> 1 \<le> hphase (advance_phase s) \<and> 1 \<le> hruns (advance_phase s)
      \<and> hphase (advance_phase s) \<noteq> PrePulloff
      \<and> (hphase (advance_phase s) = SlowApproach \<or> hphase (advance_phase s) = Pulloff1 \<longrightarrow> 2 \<le> hruns (advance_phase s))
      \<and> (unat (hruns (advance_phase s)) < unat (hruns s)
        \<or> hruns (advance_phase s) = hruns s \<and> 8 - hphase (advance_phase s) < 8 - hphase s)"
  proof cases
    case 1
    then have "advance_phase s = s\<lparr>hphase := hphase s + 1\<rparr>" by (auto simp: advance_phase_def)
    then show ?thesis using 1 assms(1) by (auto simp: in_cycle_def)
  next
    case 2
    then have "advance_phase s = s\<lparr>hphase := (if hruns s = 1 then Pulloff2 else SlowApproach)\<rparr>"
      by (simp add: advance_phase_def)
    moreover have "hruns s \<noteq> 1 \<Longrightarrow> 2 \<le> hruns s" using assms(1) word_two_le [of "hruns s"] by (simp add: in_cycle_def)
    ultimately show ?thesis using 2 assms(1) by (simp add: in_cycle_def)
  next
    case 3
    then have r: "2 \<le> hruns s" using assms(1) by (simp add: in_cycle_def)
    then have u: "unat (hruns s - 1) = unat (hruns s) - 1" "1 < unat (hruns s)"
      using word_pred [of "hruns s"] by (auto simp: word_le_nat_alt word_less_nat_alt)
    have "advance_phase s = s\<lparr>hruns := hruns s - 1, hphase := (if 1 < hruns s - 1 then SlowApproach else Pulloff2)\<rparr>"
      using 3 by (simp add: advance_phase_def Let_def)
    moreover have "1 \<le> hruns s - 1" "1 < hruns s - 1 \<Longrightarrow> 2 \<le> hruns s - 1"
      using u by (auto simp: word_le_nat_alt word_less_nat_alt)
    ultimately show ?thesis using u by simp
  qed
  then show ?thesis
    using assms(1) keep by (auto simp: in_cycle_def rest_unhomed_def unhomed_def phase_progress_def)
qed

lemma nextPhase_result:
  assumes "in_cycle env s" "1 \<le> homing_runs env"
  shows "ended (rest_unhomed env s) (nextPhase env s) \<or>
    (waiting env (nextPhase env s) \<and> fresh (nextPhase env s) \<and> rest_unhomed env (nextPhase env s) = rest_unhomed env s
      \<and> (nextPhase env s, s) \<in> phase_progress)"
proof (cases "is_done env (advance_phase s)")
  case True
  define a where "a = advance_phase s"
  define t where "t = set_mpos env a"
  have a: "mode a = Homing" "\<not> abort a" "remainingCycles a = remainingCycles s" "unhomed a = unhomed s"
      "cycleAxes a = cycleAxes s AND homingMask env"
    using assms(1) by (simp_all add: a_def in_cycle_def) (simp_all add: advance_phase_def unhomed_def Let_def)
  have same: "homes env (cycleAxes s AND homingMask env) = homes env (cycleAxes s)"
    by (auto simp: homes_def bit_and_iff)
  have "unhomed t = unhomed s - homes env (cycleAxes s)"
    using unhomed_set_mpos [OF a(5)] a(4) by (simp add: t_def)
  moreover have "nextPhase env s = nextCycle env t"
    using True by (subst nextPhase.simps) (simp add: Let_def a_def t_def)
  ultimately show ?thesis
    using nextCycle_result [of t env "rest_unhomed env s"] a assms(2)
    by (auto simp: t_def rest_unhomed_def phase_progress_def)
next
  case False
  have ic: "in_cycle env (advance_phase s)" "rest_unhomed env (advance_phase s) = rest_unhomed env s"
      "hphase (advance_phase s) \<noteq> PrePulloff" "(advance_phase s, s) \<in> phase_progress"
    using advance_in_cycle [OF assms(1)] False by auto
  moreover have "nextPhase env s = runPhase env (advance_phase s)"
    using False by (subst nextPhase.simps) (simp add: Let_def)
  ultimately show ?thesis using runPhase_waiting [OF ic(1)] by (auto simp: phase_progress_def)
qed

lemma env_pins [simp]:
  "homes (env\<lparr>limit_pins := p\<rparr>) = homes env" "rest_unhomed (env\<lparr>limit_pins := p\<rparr>) = rest_unhomed env"
  "in_cycle (env\<lparr>limit_pins := p\<rparr>) = in_cycle env" "waiting (env\<lparr>limit_pins := p\<rparr>) = waiting env"
  by (simp_all add: homes_def rest_unhomed_def in_cycle_def waiting_def fun_eq_iff)

text \<open>An axis is still running as long as one of its motors is.\<close>

lemma motors_to_axes_zero: "motors_to_axes m = 0 \<longleftrightarrow> m = 0"
proof
  assume a: "motors_to_axes m = 0"
  have low: "motors_to_axes m = ucast ((m AND Bit_Operations.mask 16) OR drop_bit 16 m)"
    by (simp add: motors_to_axes_def mask_eq_exp_minus_1)
  have "\<not> bit m n" for n
  proof (cases "n < 16")
    case True
    then have "bit (motors_to_axes m) n \<longleftrightarrow> bit m n \<or> bit m (n + 16)"
      by (auto simp: low bit_simps bit_word_ucast_iff bit_mask_iff add.commute)
    then show ?thesis by (simp add: a)
  next
    case False
    show ?thesis
    proof (cases "n < 32")
      case True
      then have "bit (motors_to_axes m) (n - 16) \<longleftrightarrow> bit m (n - 16) \<or> bit m n"
        using False by (auto simp: low bit_simps bit_word_ucast_iff bit_mask_iff)
      then show ?thesis by (simp add: a)
    next
      case False
      then show ?thesis using bit_imp_le_length [of m n] by auto
    qed
  qed
  then show "m = 0" by (simp add: bit_eq_iff)
qed (simp add: motors_to_axes_def)

lemma fewer_motors: "p AND m \<noteq> 0 \<Longrightarrow> unat (m AND NOT p) < unat (m :: u32)"
proof -
  assume p: "p AND m \<noteq> 0"
  have "m AND NOT p \<noteq> m"
  proof
    assume "m AND NOT p = m"
    then have "p AND m = p AND (m AND NOT p)" by simp
    also have "\<dots> = 0" by (simp add: bit_eq_iff bit_simps)
    finally show False using p by simp
  qed
  moreover have "m AND NOT p \<le> m" by (rule word_and_le2)
  ultimately show ?thesis unfolding word_less_nat_alt [symmetric] by (rule order.not_eq_order_implies_strict)
qed

text \<open>
  One event: the end of homing, or a state that waits for the next one. In an approach the
  motors at their switches stop; while others are left the move goes on, replanned when an axis
  has dropped out, and when none is left the next phase starts with all motors.
\<close>

lemma homing_event_result:
  assumes "waiting env s" "1 \<le> homing_runs env" "pins_work pins s"
  shows "ended (rest_unhomed env s) (homing_event env pins s) \<or>
    (waiting env (homing_event env pins s) \<and> rest_unhomed env (homing_event env pins s) = rest_unhomed env s
      \<and> (homing_event env pins s, s) \<in> progress
      \<and> (if approach s \<and> phaseMotors s AND NOT pins \<noteq> 0
         then hphase (homing_event env pins s) = hphase s \<and> cycleMotors (homing_event env pins s) = cycleMotors s
           \<and> phaseMotors (homing_event env pins s) = phaseMotors s AND NOT pins
         else fresh (homing_event env pins s)))"
proof -
  define e where "e = env\<lparr>limit_pins := pins\<rparr>"
  define m where "m = phaseMotors s AND NOT pins"
  define s1 where "s1 = (if approach s then s\<lparr>phaseAxes := motors_to_axes m, phaseMotors := m\<rparr> else s\<lparr>phaseMotors := 0\<rparr>)"
  define t where "t = stepper_reset e s1"
  have e: "rest_unhomed e = rest_unhomed env" "in_cycle e = in_cycle env" "waiting e = waiting env"
    by (simp_all add: e_def)
  have t: "in_cycle env t" "rest_unhomed env t = rest_unhomed env s" "1 \<le> homing_runs e"
      "remainingCycles t = remainingCycles s" "hruns t = hruns s" "hphase t = hphase s"
      "phaseMotors t = phaseMotors s1" "phaseAxes t = phaseAxes s1"
    using assms by (auto simp: t_def s1_def e_def waiting_def in_cycle_def rest_unhomed_def unhomed_def)
  consider "\<not> approach s \<or> m = 0" | "approach s" "m \<noteq> 0" "motors_to_axes m = phaseAxes s"
    | "approach s" "m \<noteq> 0" "motors_to_axes m \<noteq> phaseAxes s" by blast
  then show ?thesis
  proof cases
    case 1
    have "homing_event env pins s = nextPhase e t"
      using 1 assms(1,3) motors_to_axes_zero [of m]
      by (auto simp: homing_event_def limitReached_def cycleStop_def cart_limitReached_def Let_def
          e_def s1_def t_def waiting_def pins_work_def m_def)
    moreover have "(u, t) \<in> phase_progress \<Longrightarrow> (u, s) \<in> phase_progress" for u
      using t(4,5,6) by (simp add: phase_progress_def)
    ultimately show ?thesis using nextPhase_result [of e t] t(1,2,3) progressI 1 by (auto simp: e m_def)
  next
    case 2
    have "homing_event env pins s = s1"
      using 2 by (simp add: homing_event_def limitReached_def cart_limitReached_def Let_def e_def s1_def m_def)
    moreover have "unat m < unat (phaseMotors s)"
      using fewer_motors [of pins "phaseMotors s"] 2(1) assms(3) by (simp add: m_def pins_work_def)
    ultimately show ?thesis
      using 2 assms(1) by (auto simp: s1_def waiting_def in_cycle_def rest_unhomed_def unhomed_def progress_def m_def)
  next
    case 3
    have run: "homing_event env pins s = startMove (m_do [ReleaseMotors (phaseAxes t) (phaseMotors t)] t)"
      using 3 motors_to_axes_zero [of m] t(7,8)
      by (simp add: homing_event_def limitReached_def cart_limitReached_def Let_def e_def s1_def m_def t_def)
    have "unat m < unat (phaseMotors s)"
      using fewer_motors [of pins "phaseMotors s"] 3(1) assms(3) by (simp add: m_def pins_work_def)
    moreover have "phaseMotors t = m" "phaseAxes t \<noteq> 0" "phaseMotors t \<noteq> 0"
      using 3 motors_to_axes_zero [of m] t(7,8) by (simp_all add: s1_def)
    moreover have "cycleMotors t = cycleMotors s" by (simp add: t_def s1_def)
    ultimately show ?thesis
      using start_waiting [OF t(1)] t(2,4,5,6) 3(1,2) by (simp add: run progress_def m_def)
  qed
qed

lemma homing_run_ends:
  assumes "1 \<le> homing_runs env"
    and "\<And>n. mode (homing_run env pins n s) = Homing \<Longrightarrow> pins_work (pins n) (homing_run env pins n s)"
    and "waiting env (homing_run env pins k s)" "homing_run env pins k s = t"
  shows "\<exists>n. ended (rest_unhomed env t) (homing_run env pins n s)"
  using assms(3,4)
proof (induction t arbitrary: k rule: wf_induct [of progress])
  case 1 show ?case by (simp add: progress_def)
next
  case (2 t)
  have hom: "mode t = Homing" using 2(2,3) by (simp add: waiting_def in_cycle_def)
  then have nx: "homing_run env pins (Suc k) s = homing_event env (pins k) t" using 2(3) by simp
  have "pins_work (pins k) t" using assms(2) [of k] hom 2(3) by simp
  then consider "ended (rest_unhomed env t) (homing_event env (pins k) t)"
    | "waiting env (homing_event env (pins k) t)" "rest_unhomed env (homing_event env (pins k) t) = rest_unhomed env t"
      "(homing_event env (pins k) t, t) \<in> progress"
    using homing_event_result [of env t "pins k"] 2(2,3) assms(1) by blast
  then show ?case
  proof cases
    case 1 then show ?thesis using nx by metis
  next
    case 2
    then show ?thesis using \<open>\<forall>y. (y, t) \<in> progress \<longrightarrow> _\<close> nx by metis
  qed
qed

lemma homing_run_waits:
  assumes "1 \<le> homing_runs env" "waiting env s"
    and "\<And>n. mode (homing_run env pins n s) = Homing \<Longrightarrow> pins_work (pins n) (homing_run env pins n s)"
    and "mode (homing_run env pins n s) = Homing"
  shows "waiting env (homing_run env pins n s)"
  using assms(4)
proof (induction n)
  case 0 show ?case using assms(2) by simp
next
  case (Suc n)
  let ?t = "homing_run env pins n s"
  have m: "mode ?t = Homing" using Suc.prems by (cases "mode ?t = Homing") (simp_all add: Let_def)
  then have "homing_run env pins (Suc n) s = homing_event env (pins n) ?t" by (simp add: Let_def)
  moreover have "\<not> ended U (homing_event env (pins n) ?t)" for U
    using Suc.prems calculation by (auto simp: ended_def split: if_splits)
  ultimately show ?case using homing_event_result [OF Suc.IH [OF m] assms(1) assms(3) [OF m]] by auto
qed

lemma set_mpos_only_frame:
  "set_mpos_only env xs m s = (r, s1) \<Longrightarrow> mode s1 = mode s \<and> abort s1 = abort s \<and> unhomed_axes s1 = unhomed_axes s"
  by (induction xs arbitrary: m s) (auto simp: Let_def split: if_splits)

text \<open>
  C6. On a table whose switches work, homing that has been started (the request left the machine
  in state Homing, which it was not in before, with no abort pending and at least one run
  configured) ends after finitely many events, in any configuration of axes, motors and
  cycles and in whatever order the motors reach their switches, one by one or
  together: every axis of the cycles that were asked for has become homed, no other axis has
  changed, and the machine is idle if no axis is left unhomed and in alarm otherwise. No phase
  is left early: an approach goes on, replanned, with the motors that have not reached their
  switches, and every other event starts a phase with all motors of its cycle. The
  switches work: each limit event of an approach finds the pin of a motor that still runs, and
  each pull-off ends with the pins of its motors off. The set m is the request less the axes homed
  without motion. Limit events during a pull-off, which the code ignores, are not in the run.
\<close>

theorem homing_finishes:
  assumes "mode (run_cycles env am s) = Homing" "mode s \<noteq> Homing" "\<not> abort s" "1 \<le> homing_runs env"
    and "fst (set_mpos_only env [0 ..< length (axes env)] am s) = Some m"
    and "\<forall>n. let t = homing_run env pins n (run_cycles env am s) in mode t = Homing \<longrightarrow> pins_work (pins n) t"
  shows "(\<exists>n. let t = homing_run env pins n (run_cycles env am s)
      in mode t = (if unhomed_axes t = 0 then Idle else Alarm)
        \<and> unhomed t = unhomed s - (\<Union>c \<in> set (cycles_to_run env m). homes env c))
    \<and> (\<forall>n. let t = homing_run env pins n (run_cycles env am s); t' = homing_run env pins (Suc n) (run_cycles env am s)
      in mode t = Homing \<and> mode t' = Homing \<longrightarrow>
        (if approach t \<and> phaseMotors t AND NOT (pins n) \<noteq> 0
         then hphase t' = hphase t \<and> cycleMotors t' = cycleMotors t \<and> phaseMotors t' = phaseMotors t AND NOT (pins n)
         else phaseMotors t' = cycleMotors t'))"
proof -
  obtain s1 where s1: "set_mpos_only env [0 ..< length (axes env)] am s = (Some m, s1)"
    using assms(5) by (metis prod.collapse)
  define s2 where "s2 = set_state Homing (m_do [LowLatency True] (s1\<lparr>remainingCycles := cycles_to_run env m\<rparr>))"
  have run: "run_cycles env am s = nextCycle env s2"
    using assms(1) s1 by (auto simp: run_cycles_def s2_def set_state_def Let_def split: if_splits)
  have s2: "mode s2 = Homing" "\<not> abort s2" "unhomed s2 = unhomed s" "remainingCycles s2 = cycles_to_run env m"
    using set_mpos_only_frame [OF s1] assms(3) by (simp_all add: s2_def set_state_def unhomed_def)
  let ?U = "unhomed s - (\<Union>c \<in> set (cycles_to_run env m). homes env c)"
  let ?r = "\<lambda>n. homing_run env pins n (nextCycle env s2)"
  have "ended ?U (nextCycle env s2) \<or> (waiting env (nextCycle env s2) \<and> rest_unhomed env (nextCycle env s2) = ?U)"
    using nextCycle_result [OF s2(1,2) assms(4), of ?U] s2(3,4) by auto
  moreover have "\<not> ended ?U (nextCycle env s2)" using assms(1) run by (auto simp: ended_def split: if_splits)
  ultimately have w: "waiting env (homing_run env pins 0 (nextCycle env s2))"
      "rest_unhomed env (nextCycle env s2) = ?U" by auto
  have works: "pins_work (pins n) (homing_run env pins n (nextCycle env s2))"
    if "mode (homing_run env pins n (nextCycle env s2)) = Homing" for n
    using assms(6) that by (simp add: run Let_def)
  obtain n where "ended ?U (homing_run env pins n (nextCycle env s2))"
    using homing_run_ends [OF assms(4) works w(1)] w(2) by auto
  moreover have "if approach (?r n) \<and> phaseMotors (?r n) AND NOT (pins n) \<noteq> 0
      then hphase (?r (Suc n)) = hphase (?r n) \<and> cycleMotors (?r (Suc n)) = cycleMotors (?r n)
        \<and> phaseMotors (?r (Suc n)) = phaseMotors (?r n) AND NOT (pins n)
      else phaseMotors (?r (Suc n)) = cycleMotors (?r (Suc n))"
    if h: "mode (?r n) = Homing" "mode (?r (Suc n)) = Homing" for n
  proof -
    have e: "?r (Suc n) = homing_event env (pins n) (?r n)" using h(1) by (simp add: Let_def)
    have "\<not> ended U (?r (Suc n))" for U using h(2) by (auto simp: ended_def split: if_splits)
    moreover have wt: "waiting env (?r n)"
      using homing_run_waits [OF assms(4) _ works h(1)] w(1) by simp
    ultimately show ?thesis
      using homing_event_result [OF wt assms(4) works [OF h(1)]] unfolding e fresh_def by blast
  qed
  ultimately show ?thesis unfolding run ended_def Let_def by blast
qed

text \<open>
  A table with a first axis on two motors and a second axis on one, in alarm until it is homed:
  the first motor reaches its switch, then the other axis, then the second motor.
\<close>

definition ex_menv :: menv where
  "ex_menv =
     \<lparr>axes = [\<lparr>ax_homing = True, ax_cycle = 1, ax_extra_pulloff = False, ax_motor0 = True, ax_motor1 = True\<rparr>,
              \<lparr>ax_homing = True, ax_cycle = 1, ax_extra_pulloff = False, ax_motor0 = True, ax_motor1 = False\<rparr>],
      homingMask = 3, homing_runs = 1, must_home = True, off_on_alarm = False,
      rate_adjusted = False, has_spindle = True, has_flood = False, has_mist = False, idle_msecs = 250,
      end_ticks = (\<lambda>us. us), cpu_ticks = 0, limit_pins = 0, ambiguous_limit = False, door_ajar = False,
      limits_startup = False, control_startup = False, job_active = False, crash_homing = False\<rparr>"

definition ex_mach :: mach where
  "ex_mach =
     \<lparr>mode = Alarm, abort = False, susp = no_suspend, stepc = no_step_control, f_override = 100,
      r_override = 100, spindle_speed_ovr = 100, lastAlarm = Unhomed, unwind_cause = None,
      rtSafetyDoor = False, rtStopJob = False, rtStartHome = False, rtGoto = None, runLimitLoop = False,
      spindle_stop_ovr = no_spindle_stop, idleEndTime = 0, soft_limit = False, probing = False, awake = False,
      blocks = [], ev_queue = [], spindle_on = False, flood = False, mist = False, hphase = 0, hruns = 0,
      cycleAxes = 0, phaseAxes = 0, cycleMotors = 0, phaseMotors = 0, remainingCycles = [], unhomed_axes = 3,
      homed_since_boot = False, m_effects = []\<rparr>"

definition ex_pins :: "nat \<Rightarrow> u32" where
  "ex_pins n = (if n < 4 then [1, 3, 0x10003, 0] ! n else 0)"

lemma ex_homing_runs:
  "mode (run_cycles ex_menv 0 ex_mach) = Homing"
  "fst (set_mpos_only ex_menv [0 ..< length (axes ex_menv)] 0 ex_mach) = Some 0"
  by code_simp+

lemma ex_homing_ends: "4 \<le> n \<Longrightarrow> mode (homing_run ex_menv ex_pins n (run_cycles ex_menv 0 ex_mach)) \<noteq> Homing"
proof (induction n rule: dec_induct)
  case base show ?case by code_simp
qed (simp add: Let_def)

lemma ex_pins_work:
  "let t = homing_run ex_menv ex_pins n (run_cycles ex_menv 0 ex_mach) in mode t = Homing \<longrightarrow> pins_work (ex_pins n) t"
proof (cases "4 \<le> n")
  case True then show ?thesis using ex_homing_ends by (simp add: Let_def)
next
  case False
  then consider "n = 0" | "n = 1" | "n = 2" | "n = 3" by linarith
  then show ?thesis by cases (hypsubst, code_simp)+
qed

theorem homing_finishes_witness:
  "\<exists>n. mode (homing_run ex_menv ex_pins n (run_cycles ex_menv 0 ex_mach)) \<noteq> Homing"
proof -
  have "mode ex_mach \<noteq> Homing" "\<not> abort ex_mach" "1 \<le> homing_runs ex_menv" by (simp_all add: ex_mach_def ex_menv_def)
  from homing_finishes [OF ex_homing_runs(1) this ex_homing_runs(2), of ex_pins] ex_pins_work
  obtain n where "mode (homing_run ex_menv ex_pins n (run_cycles ex_menv 0 ex_mach)) =
      (if unhomed_axes (homing_run ex_menv ex_pins n (run_cycles ex_menv 0 ex_mach)) = 0 then Idle else Alarm)"
    unfolding Let_def by blast
  then show ?thesis by (intro exI [of _ n]) simp
qed

end
