(* ===== verification/Protocol.thy ===== *)
theory Protocol
  imports Homing CNumbers
begin

text \<open>
  FluidNC/src/Protocol.cpp, the execution state machine: one definition per event handler,
  \<open>run_event\<close> dispatching to them, the event loop, the realtime checkpoint and the suspend
  loop. An enumerator that a switch of the code does not list (\<open>Critical\<close>) falls past the
  switch here too. The two motions of Parking.cpp are parameters of the suspend loop.
\<close>

section \<open>Alarms and restarts\<close>

definition protocol_reset :: "mach \<Rightarrow> mach" where
  "protocol_reset s =
     s\<lparr>probing := False, soft_limit := False, rtSafetyDoor := False, spindle_stop_ovr := no_spindle_stop\<rparr>"

definition request_safety_door :: "mach \<Rightarrow> mach" where
  "request_safety_door s = s\<lparr>rtSafetyDoor := True\<rparr>"

definition protocol_do_alarm :: "menv \<Rightarrow> nat \<Rightarrow> mach \<Rightarrow> mach" where
  "protocol_do_alarm env code s =
     (let s1 = s\<lparr>lastAlarm := code\<rparr>;
          s2 = (if off_on_alarm env then m_do [SpindleStop] s1 else s1)
      in if code = HardLimit \<or> code = HardStop then
           m_do [AlarmMsg code, Feedback ''CriticalEvent'']
             (set_state Critical (set_all_axes_unhomed env (protocol_disable_steppers env s2)))
         else if code = SoftLimit then
           m_do [AlarmMsg code, Feedback ''CriticalEvent''] (set_state Critical s2)
         else m_do [AlarmMsg code] (set_state Alarm s2))"

definition gc_init :: "mach \<Rightarrow> mach" where
  "gc_init s = m_do [GcInit] (s\<lparr>spindle_on := False, flood := False, mist := False\<rparr>)"

definition protocol_do_soft_restart :: "menv \<Rightarrow> mach \<Rightarrow> mach" where
  "protocol_do_soft_restart env s =
     (let s1 = plan_reset (gc_init (protocol_reset (system_reset s)));
          s2 = (if mode s1 \<noteq> ConfigAlarm
                then stepper_reset env (if has_spindle env then m_do [SpindleStop] s1 else s1) else s1);
          s3 = m_do [PlanSync, GcSync, FlushRx, InitMessage, McInit] s2
      in if mode s3 = ConfigAlarm then m_do [Feedback ''ConfigAlarmLock''] s3
         else if limits_startup env then mc_critical env HardLimit s3
         else if control_startup env then send_alarm ControlPin s3
         else if mode s3 = Idle then m_do [RunMacro ''after_reset''] s3
         else s3)"

definition FORCE_INITIALIZATION_ALARM :: bool where
  "FORCE_INITIALIZATION_ALARM = False"

definition protocol_do_start :: "menv \<Rightarrow> mach \<Rightarrow> mach" where
  "protocol_do_start env s =
     (let s1 = protocol_send_event restartEvent s in
      if mode s1 \<noteq> Idle then s1
      else
        let s2 = set_state Critical s1 in
        if FORCE_INITIALIZATION_ALARM then send_alarm Init s2
        else
          let s3 = set_all_axes_unhomed env s2;
              s4 = (if unhomed_axes s3 \<noteq> 0 then send_alarm Unhomed s3 else set_state Idle s3)
          in protocol_send_event runStartupLinesEvent s4)"

definition protocol_do_late_reset :: "menv \<Rightarrow> mach \<Rightarrow> mach" where
  "protocol_do_late_reset env s =
     (m_do [SteppingReset, UserOutputsOff]
        (protocol_disable_steppers env (m_do [SpindleStop, CoolantStop] s)))\<lparr>abort := True, unwind_cause := Some ''Reset''\<rparr>"

definition protocol_do_rt_reset :: "menv \<Rightarrow> mach \<Rightarrow> mach" where
  "protocol_do_rt_reset env s =
     (let s1 =
        (if mode s = Homing then homing_fail env HomingFailReset s
         else if mode s = Cycle \<or> mode s = Jog \<or> executeHold (stepc s) \<or> executeSysMotion (stepc s) then
           protocol_do_alarm env AbortCycle (m_do [StopStepping] s)
         else if mode s = Critical then
           (if unhomed_axes s \<noteq> 0 then protocol_do_alarm env Unhomed s else set_state Idle s)
         else if mode s \<noteq> Alarm then set_state Idle s
         else s)
      in protocol_send_event restartEvent (protocol_do_late_reset env s1))"

section \<open>Holds\<close>

definition holding_blocked :: "mach \<Rightarrow> bool" where
  "holding_blocked s \<longleftrightarrow> motionCancel (susp s) \<or> jogCancel (susp s)"

definition protocol_start_holding :: "mach \<Rightarrow> mach" where
  "protocol_start_holding s =
     (if \<not> holding_blocked s
      then (m_do [UpdatePlanBlock] s)\<lparr>stepc := no_step_control\<lparr>executeHold := True\<rparr>\<rparr> else s)"

definition protocol_cancel_jogging :: "mach \<Rightarrow> mach" where
  "protocol_cancel_jogging s =
     (if \<not> holding_blocked s
      then upd_susp (\<lambda>u. u\<lparr>jogCancel := True\<rparr>)
             ((m_do [UpdatePlanBlock] s)\<lparr>stepc := no_step_control\<lparr>executeHold := True\<rparr>\<rparr>)
      else s)"

definition protocol_hold_complete :: "mach \<Rightarrow> mach" where
  "protocol_hold_complete s = s\<lparr>susp := no_suspend\<lparr>holdComplete := True\<rparr>\<rparr>"

definition protocol_do_motion_cancel :: "mach \<Rightarrow> mach" where
  "protocol_do_motion_cancel s =
     (let cancel = upd_susp (\<lambda>u. u\<lparr>motionCancel := True\<rparr>) in
      case mode s of
        Alarm \<Rightarrow> s | ConfigAlarm \<Rightarrow> s | CheckMode \<Rightarrow> s
      | Idle \<Rightarrow> cancel (protocol_hold_complete s)
      | Cycle \<Rightarrow> cancel (protocol_start_holding s)
      | Jog \<Rightarrow> protocol_cancel_jogging s
      | _ \<Rightarrow> cancel s)"

definition protocol_do_stop_job :: "menv \<Rightarrow> mach \<Rightarrow> mach" where
  "protocol_do_stop_job env s =
     (let stopped =
        (case mode s of
           Cycle \<Rightarrow> Some (protocol_cancel_jogging s)
         | Jog \<Rightarrow> Some (protocol_cancel_jogging s)
         | Hold \<Rightarrow>
             Some (set_state Idle
               ((m_do [GcSync, PlanSync] (stepper_reset env (plan_reset (s\<lparr>stepc := no_step_control\<rparr>))))
                  \<lparr>susp := no_suspend\<rparr>))
         | Idle \<Rightarrow> Some s
         | _ \<Rightarrow> None)
      in case stopped of
           None \<Rightarrow> s
         | Some t \<Rightarrow> (if job_active env then t\<lparr>unwind_cause := Some ''Stop''\<rparr> else t)\<lparr>rtStopJob := True\<rparr>)"

definition protocol_do_start_home :: "mach \<Rightarrow> mach" where
  "protocol_do_start_home s = s\<lparr>rtStartHome := True\<rparr>"

definition protocol_request_goto :: "rat option \<Rightarrow> rat option \<Rightarrow> rat \<Rightarrow> mach \<Rightarrow> mach" where
  "protocol_request_goto theta rho feed s = s\<lparr>rtGoto := Some (theta, rho, feed)\<rparr>"

definition protocol_do_feedhold :: "mach \<Rightarrow> mach" where
  "protocol_do_feedhold s =
     (if runLimitLoop s then s\<lparr>runLimitLoop := False\<rparr>
      else case mode s of
        ConfigAlarm \<Rightarrow> s | Alarm \<Rightarrow> s | CheckMode \<Rightarrow> s | SafetyDoor \<Rightarrow> s | Sleep \<Rightarrow> s
      | Homing \<Rightarrow> s
      | Idle \<Rightarrow> set_state Hold (protocol_hold_complete s)
      | Cycle \<Rightarrow> set_state Hold (protocol_start_holding s)
      | Jog \<Rightarrow> protocol_cancel_jogging s
      | _ \<Rightarrow> set_state Hold s)"

text \<open>The door while it is being restored: the parking sequence starts again.\<close>

definition door_restoring :: "mach \<Rightarrow> mach" where
  "door_restoring s =
     (if \<not> jogCancel (susp s) \<and> initiateRestore (susp s) then
        let s1 = (if executeSysMotion (stepc s)
                  then upd_susp (\<lambda>u. u\<lparr>holdComplete := False\<rparr>)
                         ((m_do [UpdatePlanBlock] s)\<lparr>stepc := no_step_control\<lparr>executeHold := True, executeSysMotion := True\<rparr>\<rparr>)
                  else s)
        in upd_susp (\<lambda>u. u\<lparr>retractComplete := False, initiateRestore := False, restoreComplete := False,
                           restartRetract := True\<rparr>) s1
      else s)"

definition protocol_do_safety_door :: "menv \<Rightarrow> mach \<Rightarrow> mach" where
  "protocol_do_safety_door env s0 =
     (let s = m_do [Feedback ''SafetyDoorAjar''] s0;
          ajar = (\<lambda>t. upd_susp (\<lambda>u. u\<lparr>safetyDoorAjar := True\<rparr>)
                        (if \<not> jogCancel (susp t) then set_state SafetyDoor (t\<lparr>rtSafetyDoor := False\<rparr>) else t))
      in case mode s of
           ConfigAlarm \<Rightarrow> s
         | Alarm \<Rightarrow> s\<lparr>rtSafetyDoor := False\<rparr>
         | CheckMode \<Rightarrow> s\<lparr>rtSafetyDoor := False\<rparr>
         | Sleep \<Rightarrow> s\<lparr>rtSafetyDoor := False\<rparr>
         | Hold \<Rightarrow> ajar s
         | Homing \<Rightarrow> ajar (homing_fail env HomingFailDoor s)
         | SafetyDoor \<Rightarrow> ajar (door_restoring s)
         | Idle \<Rightarrow> ajar (protocol_hold_complete s)
         | Cycle \<Rightarrow> ajar (protocol_start_holding s)
         | Jog \<Rightarrow> ajar (protocol_cancel_jogging s)
         | Critical \<Rightarrow> ajar s)"

definition protocol_do_sleep :: "mach \<Rightarrow> mach" where
  "protocol_do_sleep s =
     set_state Sleep
       (case mode s of
          ConfigAlarm \<Rightarrow> upd_susp (\<lambda>u. u\<lparr>retractComplete := True, holdComplete := True\<rparr>) s
        | Alarm \<Rightarrow> upd_susp (\<lambda>u. u\<lparr>retractComplete := True, holdComplete := True\<rparr>) s
        | Idle \<Rightarrow> protocol_hold_complete s
        | Cycle \<Rightarrow> protocol_start_holding s
        | Jog \<Rightarrow> protocol_start_holding s
        | _ \<Rightarrow> s)"

section \<open>Cycles\<close>

definition protocol_do_initiate_cycle :: "mach \<Rightarrow> mach" where
  "protocol_do_initiate_cycle s0 =
     (let s = s0\<lparr>stepc := no_step_control\<rparr> in
      if blocks s \<noteq> [] \<and> \<not> motionCancel (susp s)
      then wake_up (m_do [PrepBuffer] (set_state (if hd (blocks s) then Jog else Cycle) (s\<lparr>susp := no_suspend\<rparr>)))
      else set_state Idle (s\<lparr>susp := no_suspend\<rparr>))"

definition protocol_initiate_homing_cycle :: "mach \<Rightarrow> mach" where
  "protocol_initiate_homing_cycle s =
     wake_up (m_do [PrepBuffer] (s\<lparr>stepc := no_step_control\<lparr>executeSysMotion := True\<rparr>, susp := no_suspend\<rparr>))"

definition protocol_do_cycle_start :: "mach \<Rightarrow> mach" where
  "protocol_do_cycle_start s =
     (case mode s of
        SafetyDoor \<Rightarrow>
          if \<not> safetyDoorAjar (susp s) then
            (if restoreComplete (susp s) then protocol_do_initiate_cycle (set_state Idle s)
             else if retractComplete (susp s) then upd_susp (\<lambda>u. u\<lparr>initiateRestore := True\<rparr>) s
             else s)
          else s
      | Idle \<Rightarrow> protocol_do_initiate_cycle s
      | Homing \<Rightarrow> protocol_initiate_homing_cycle s
      | Hold \<Rightarrow>
          if holdComplete (susp s) then
            (if spindle_stop_ovr s \<noteq> no_spindle_stop
             then s\<lparr>spindle_stop_ovr := (spindle_stop_ovr s)\<lparr>ss_restoreCycle := True\<rparr>\<rparr>
             else protocol_do_initiate_cycle s)
          else s
      | _ \<Rightarrow> s)"

text \<open>The end of a motion, in the states that return to Idle.\<close>

definition motion_complete :: "menv \<Rightarrow> mach \<Rightarrow> mach" where
  "motion_complete env s =
     (let s1 = (if jogCancel (susp s)
                then m_do [GcSync, PlanSync] (stepper_reset env (plan_reset (s\<lparr>stepc := no_step_control\<rparr>)))
                else s)
      in if safetyDoorAjar (susp s1)
         then set_state SafetyDoor (upd_susp (\<lambda>u. u\<lparr>jogCancel := False, holdComplete := True\<rparr>) s1)
         else set_state Idle (s1\<lparr>susp := no_suspend\<rparr>))"

definition hold_reached :: "mach \<Rightarrow> mach" where
  "hold_reached s =
     (if \<not> soft_limit s \<and> \<not> jogCancel (susp s) then
        let s1 = m_do [PlanReinit] s;
            s2 = (if executeHold (stepc s1) then upd_susp (\<lambda>u. u\<lparr>holdComplete := True\<rparr>) s1 else s1)
        in upd_step (\<lambda>c. c\<lparr>executeHold := False, executeSysMotion := False\<rparr>) s2
      else s)"

definition protocol_do_cycle_stop :: "menv \<Rightarrow> mach \<Rightarrow> mach" where
  "protocol_do_cycle_stop env s0 =
     (let s = protocol_disable_steppers env s0 in
      case mode s of
        Hold \<Rightarrow> hold_reached s
      | SafetyDoor \<Rightarrow> hold_reached s
      | Sleep \<Rightarrow> hold_reached s
      | ConfigAlarm \<Rightarrow> s
      | Alarm \<Rightarrow> s
      | CheckMode \<Rightarrow> motion_complete env s
      | Idle \<Rightarrow> motion_complete env s
      | Cycle \<Rightarrow> motion_complete env s
      | Jog \<Rightarrow> motion_complete env s
      | Homing \<Rightarrow> cycleStop env s
      | Critical \<Rightarrow> s)"

section \<open>Overrides\<close>

definition clamp :: "int \<Rightarrow> int \<Rightarrow> int \<Rightarrow> int" where
  "clamp lo hi x = (if x > hi then hi else if x < lo then lo else x)"

definition set_f_override :: "int \<Rightarrow> mach \<Rightarrow> mach" where
  "set_f_override percent s =
     (if percent \<noteq> uint (f_override s)
      then m_do [UpdateVelocities, OvrChanged] (s\<lparr>f_override := of_int percent\<rparr>) else s)"

definition protocol_do_feed_override :: "int \<Rightarrow> mach \<Rightarrow> mach" where
  "protocol_do_feed_override increment s =
     set_f_override (if increment = 100 then 100 else clamp 10 200 (uint (f_override s) + increment)) s"

definition protocol_do_set_feed_override :: "int \<Rightarrow> mach \<Rightarrow> mach" where
  "protocol_do_set_feed_override percent s = set_f_override (clamp 10 200 percent) s"

definition protocol_do_rapid_override :: "int \<Rightarrow> mach \<Rightarrow> mach" where
  "protocol_do_rapid_override percent s =
     (if percent \<noteq> uint (r_override s)
      then m_do [UpdateVelocities, OvrChanged] (s\<lparr>r_override := of_int percent\<rparr>) else s)"

definition protocol_do_spindle_override :: "int \<Rightarrow> mach \<Rightarrow> mach" where
  "protocol_do_spindle_override increment s =
     (let percent = (if increment = 100 then 100 else clamp 10 200 (uint (spindle_speed_ovr s) + increment)) in
      if percent \<noteq> uint (spindle_speed_ovr s) then
        let s1 = m_do [OvrChanged]
              (upd_step (\<lambda>c. c\<lparr>updateSpindleSpeed := True\<rparr>) (s\<lparr>spindle_speed_ovr := of_int percent\<rparr>))
        in if spindle_on s1 \<and> \<not> inMotionState s1 then m_do [SpindleSet, OvrChanged] s1 else s1
      else s)"

definition protocol_do_accessory_override :: "menv \<Rightarrow> int \<Rightarrow> mach \<Rightarrow> mach" where
  "protocol_do_accessory_override env type s =
     (let running = (mode s = Idle \<or> mode s = Cycle \<or> mode s = Hold) in
      if type = 1 then
        (if mode s = Hold then
           m_do [OvrChanged]
             (if spindle_stop_ovr s = no_spindle_stop
              then s\<lparr>spindle_stop_ovr := (spindle_stop_ovr s)\<lparr>ss_initiate := True\<rparr>\<rparr>
              else if ss_enabled (spindle_stop_ovr s)
              then s\<lparr>spindle_stop_ovr := (spindle_stop_ovr s)\<lparr>ss_restore := True\<rparr>\<rparr> else s)
         else s)
      else if type = 2 then
        (if has_flood env \<and> running
         then m_do [CoolantSet (\<not> flood s) (mist s), OvrChanged] (s\<lparr>flood := \<not> flood s\<rparr>) else s)
      else if type = 3 then
        (if has_mist env \<and> running
         then m_do [CoolantSet (flood s) (\<not> mist s), OvrChanged] (s\<lparr>mist := \<not> mist s\<rparr>) else s)
      else s)"

section \<open>Pins\<close>

definition protocol_do_limit :: "menv \<Rightarrow> bool \<Rightarrow> mach \<Rightarrow> mach" where
  "protocol_do_limit env hard s =
     (if mode s = Homing then limitReached env s
      else if (mode s = Cycle \<or> mode s = Jog \<or> mode s = Idle \<or> mode s = Hold \<or> mode s = SafetyDoor) \<and> hard
      then mc_critical env HardLimit s
      else s)"

definition protocol_do_fault_pin :: "menv \<Rightarrow> mach \<Rightarrow> mach" where
  "protocol_do_fault_pin env s =
     (if inMotionState s \<or> mode s = Idle \<or> mode s = Hold \<or> mode s = SafetyDoor
      then mc_critical env HardStop s else s)"

section \<open>The event loop\<close>

text \<open>
  The handler of an event. What a handler hands to the interpreter or the host (the line of a
  macro key, the startup lines, a debug report, a reboot) is an effect here.
\<close>

definition run_event :: "menv \<Rightarrow> event \<Rightarrow> mach \<Rightarrow> mach" where
  "run_event env e s =
     (case e of
        feedOverrideEvent i \<Rightarrow> protocol_do_feed_override i s
      | feedOverrideSetEvent p \<Rightarrow> protocol_do_set_feed_override p s
      | rapidOverrideEvent p \<Rightarrow> protocol_do_rapid_override p s
      | spindleOverrideEvent i \<Rightarrow> protocol_do_spindle_override i s
      | accessoryOverrideEvent t \<Rightarrow> protocol_do_accessory_override env t s
      | limitEvent h \<Rightarrow> protocol_do_limit env h s
      | faultPinEvent \<Rightarrow> protocol_do_fault_pin env s
      | reportStatusEvent \<Rightarrow> m_do [StatusReport] s
      | safetyDoorEvent \<Rightarrow> request_safety_door s
      | feedHoldEvent \<Rightarrow> protocol_do_feedhold s
      | cycleStartEvent \<Rightarrow> protocol_do_cycle_start s
      | stopJobEvent \<Rightarrow> protocol_do_stop_job env s
      | startHomeEvent \<Rightarrow> protocol_do_start_home s
      | cycleStopEvent \<Rightarrow> protocol_do_cycle_stop env s
      | motionCancelEvent \<Rightarrow> protocol_do_motion_cancel s
      | sleepEvent \<Rightarrow> protocol_do_sleep s
      | debugEvent \<Rightarrow> m_do [DebugReport] s
      | startEvent \<Rightarrow> protocol_do_start env s
      | restartEvent \<Rightarrow> protocol_do_soft_restart env s
      | fullResetEvent \<Rightarrow> m_do [Reboot] s
      | runStartupLinesEvent \<Rightarrow> m_do [StartupLines] s
      | rtResetEvent \<Rightarrow> protocol_do_rt_reset env s
      | alarmEvent a \<Rightarrow> protocol_do_alarm env a s
      | macroEvent n \<Rightarrow> m_do [MacroKey n] s)"


text \<open>
  What an event can put into the queue weighs less than the event: the loop below empties the
  queue. Events that arrive from other tasks are taken at the checkpoint.
\<close>

definition weight :: "event \<Rightarrow> nat" where
  "weight e =
     (case e of
        limitEvent _ \<Rightarrow> 3 | faultPinEvent \<Rightarrow> 3 | cycleStopEvent \<Rightarrow> 3 | restartEvent \<Rightarrow> 3
      | startEvent \<Rightarrow> 6 | rtResetEvent \<Rightarrow> 6 | _ \<Rightarrow> 1)"

definition queue_weight :: "mach \<Rightarrow> nat" where
  "queue_weight s = sum_list (map weight (ev_queue s))"

lemma send_weight: "queue_weight (protocol_send_event e s) \<le> queue_weight s + weight e"
  by (simp add: queue_weight_def protocol_send_event_def)

lemma same_weight: "ev_queue t = ev_queue s \<Longrightarrow> queue_weight t = queue_weight s"
  by (simp add: queue_weight_def)

lemma alarm_weight [simp]: "weight (alarmEvent a) = 1" "weight cycleStartEvent = 1" "weight runStartupLinesEvent = 1"
  "weight restartEvent = 3"
  by (simp_all add: weight_def)

lemma nextPhase_weight:
  "queue_weight (nextPhase env s) \<le> queue_weight s + 1"
  "queue_weight (runPhase env s) \<le> queue_weight s + 1"
  "queue_weight (nextCycle env s) \<le> queue_weight s + 1"
proof (induction env s and env s and env s rule: nextPhase_runPhase_nextCycle.induct)
  case (1 env s)
  have "queue_weight (set_mpos env (advance_phase s)) = queue_weight s" "queue_weight (advance_phase s) = queue_weight s"
    by (rule same_weight, simp)+
  then show ?case using 1 by (subst nextPhase.simps) (simp only: Let_def split: if_split, auto)
next
  case (2 env s)
  have "queue_weight ((enter_phase s)\<lparr>hphase := CycleDone - 1\<rparr>) = queue_weight s"
      "queue_weight (enter_phase s) = queue_weight s"
    by (rule same_weight, simp add: enter_phase_def)+
  moreover have "queue_weight (startMove (m_do es (enter_phase s))) \<le> queue_weight s + 1" for es
  proof -
    let ?t = "m_do [HomingMove (hphase (m_do es (enter_phase s))) (phaseAxes (m_do es (enter_phase s)))
        (phaseMotors (m_do es (enter_phase s)))] (m_do es (enter_phase s))"
    have "queue_weight ?t = queue_weight s" by (rule same_weight) (simp add: enter_phase_def)
    then show ?thesis using send_weight [of cycleStartEvent ?t] unfolding startMove_def by simp
  qed
  ultimately show ?case using 2 by (subst runPhase.simps) (simp only: Let_def split: if_split, auto)
next
  case (3 env s)
  have "queue_weight (begin_cycle env c cs s) = queue_weight s" for c cs
    by (rule same_weight) (simp add: begin_cycle_def set_homing_mode_def Let_def)
  moreover have "queue_weight (homing_done env s) = queue_weight s"
    by (rule same_weight) (simp add: homing_done_def go_idle_def set_state_def Let_def)
  moreover have "queue_weight (s\<lparr>remainingCycles := []\<rparr>) = queue_weight s" by (rule same_weight) simp
  ultimately show ?case using 3 by (subst nextCycle.simps) (simp split: list.split)
qed


lemma fail_weight: "queue_weight (homing_fail env a s) \<le> queue_weight s + 1"
  using send_weight [of "alarmEvent a" "stepper_reset env s"]
  by (simp add: homing_fail_def set_homing_mode_def send_alarm_def queue_weight_def)

lemma critical_weight: "queue_weight (mc_critical env a s) \<le> queue_weight s + 1"
  using send_weight [of "alarmEvent a" s] send_weight [of "alarmEvent a" "stepper_reset env s"]
  by (simp add: mc_critical_def send_alarm_def queue_weight_def)

lemma homing_unhomed_queue [simp]: "ev_queue (set_all_axes_unhomed env s) = ev_queue s"
  by (simp add: set_all_axes_unhomed_def)

lemma handlers_queue [simp]:
  "ev_queue (protocol_do_alarm env a s) = ev_queue s"
  "ev_queue (protocol_start_holding s) = ev_queue s" "ev_queue (protocol_cancel_jogging s) = ev_queue s"
  "ev_queue (protocol_hold_complete s) = ev_queue s" "ev_queue (protocol_do_motion_cancel s) = ev_queue s"
  "ev_queue (protocol_do_stop_job env s) = ev_queue s" "ev_queue (protocol_do_feedhold s) = ev_queue s"
  "ev_queue (protocol_do_sleep s) = ev_queue s" "ev_queue (protocol_do_initiate_cycle s) = ev_queue s"
  "ev_queue (protocol_initiate_homing_cycle s) = ev_queue s" "ev_queue (protocol_do_cycle_start s) = ev_queue s"
  "ev_queue (motion_complete env s) = ev_queue s" "ev_queue (hold_reached s) = ev_queue s"
  "ev_queue (set_f_override p s) = ev_queue s" "ev_queue (protocol_do_rapid_override p s) = ev_queue s"
  "ev_queue (protocol_do_spindle_override i s) = ev_queue s"
  "ev_queue (protocol_do_accessory_override env t s) = ev_queue s"
  "ev_queue (protocol_do_late_reset env s) = ev_queue s" "ev_queue (door_restoring s) = ev_queue s"
  by (simp_all add: protocol_do_alarm_def set_state_def protocol_start_holding_def protocol_cancel_jogging_def
      upd_susp_def upd_step_def protocol_hold_complete_def protocol_do_motion_cancel_def protocol_do_stop_job_def
      plan_reset_def protocol_do_feedhold_def protocol_do_sleep_def protocol_do_initiate_cycle_def wake_up_def
      protocol_cancel_disable_steppers_def protocol_initiate_homing_cycle_def protocol_do_cycle_start_def
      motion_complete_def hold_reached_def set_f_override_def protocol_do_rapid_override_def
      protocol_do_spindle_override_def protocol_do_accessory_override_def protocol_do_late_reset_def
      door_restoring_def Let_def split: mstate.split option.split)


lemma reset_queue [simp]:
  "ev_queue (set_state x s) = ev_queue s" "ev_queue (system_reset s) = ev_queue s"
  "ev_queue (protocol_reset s) = ev_queue s" "ev_queue (gc_init s) = ev_queue s" "ev_queue (plan_reset s) = ev_queue s"
  by (simp_all add: set_state_def system_reset_def protocol_reset_def gc_init_def plan_reset_def)

lemma cycleStop_weight: "queue_weight (cycleStop env s) \<le> queue_weight s + 1"
proof -
  have "queue_weight (m_do es (homing_fail env a s)) \<le> queue_weight s + 1" for es a
    using fail_weight [of env a s] by (simp add: queue_weight_def)
  moreover have "queue_weight (nextPhase env (stepper_reset env (s\<lparr>phaseMotors := 0\<rparr>))) \<le> queue_weight s + 1"
    using nextPhase_weight(1) [of env "stepper_reset env (s\<lparr>phaseMotors := 0\<rparr>)"] by (simp add: queue_weight_def)
  ultimately show ?thesis using fail_weight by (simp add: cycleStop_def)
qed

lemma limitReached_weight: "queue_weight (limitReached env s) \<le> queue_weight s + 1"
proof -
  obtain st a m where c: "cart_limitReached (phaseAxes s) (phaseMotors s) (limit_pins env) = (st, a, m)"
    by (metis prod_cases3)
  let ?t = "stepper_reset env (s\<lparr>phaseAxes := a, phaseMotors := m\<rparr>)"
  have "queue_weight ?t = queue_weight s" "queue_weight (s\<lparr>phaseAxes := a, phaseMotors := m\<rparr>) = queue_weight s"
    by (rule same_weight, simp)+
  moreover have "queue_weight (startMove (m_do es ?t)) \<le> queue_weight s + 1" for es
  proof -
    let ?u = "m_do [HomingMove (hphase (m_do es ?t)) (phaseAxes (m_do es ?t)) (phaseMotors (m_do es ?t))] (m_do es ?t)"
    have "queue_weight ?u = queue_weight s" by (rule same_weight) simp
    then show ?thesis using send_weight [of cycleStartEvent ?u] unfolding startMove_def by simp
  qed
  moreover have "queue_weight (nextPhase env ?t) \<le> queue_weight s + 1"
    using nextPhase_weight(1) [of env ?t] calculation(1) by simp
  ultimately show ?thesis unfolding limitReached_def c Let_def prod.case by (auto split: if_split)
qed

lemma soft_restart_weight: "queue_weight (protocol_do_soft_restart env s) \<le> queue_weight s + 1"
proof -
  define t where "t = m_do [PlanSync, GcSync, FlushRx, InitMessage, McInit]
    (let s1 = plan_reset (gc_init (protocol_reset (system_reset s)))
     in if mode s1 \<noteq> ConfigAlarm
        then stepper_reset env (if has_spindle env then m_do [SpindleStop] s1 else s1) else s1)"
  have t: "ev_queue t = ev_queue s" by (simp add: t_def Let_def)
  have "queue_weight (mc_critical env HardLimit t) \<le> queue_weight s + 1"
      "queue_weight (send_alarm ControlPin t) \<le> queue_weight s + 1"
      "queue_weight (m_do es t) = queue_weight s" "queue_weight t = queue_weight s" for es
    using critical_weight [of env HardLimit t] send_weight [of "alarmEvent ControlPin" t] t
    by (simp_all add: queue_weight_def send_alarm_def)
  moreover have "protocol_do_soft_restart env s =
      (if mode t = ConfigAlarm then m_do [Feedback ''ConfigAlarmLock''] t
       else if limits_startup env then mc_critical env HardLimit t
       else if control_startup env then send_alarm ControlPin t
       else if mode t = Idle then m_do [RunMacro ''after_reset''] t else t)"
    by (simp only: protocol_do_soft_restart_def t_def Let_def)
  ultimately show ?thesis by auto
qed

lemma start_weight: "queue_weight (protocol_do_start env s) \<le> queue_weight s + 5"
proof -
  let ?s1 = "protocol_send_event restartEvent s"
  have s1: "queue_weight ?s1 \<le> queue_weight s + 3" using send_weight [of restartEvent s] by simp
  have up: "ev_queue (set_all_axes_unhomed env (set_state Critical ?s1)) = ev_queue ?s1" by simp
  have alarm: "queue_weight (send_alarm a t) \<le> queue_weight s + 4" if "ev_queue t = ev_queue ?s1" for a t
    using send_weight [of "alarmEvent a" t] s1 that by (simp add: queue_weight_def send_alarm_def)
  have "queue_weight (protocol_send_event runStartupLinesEvent u) \<le> queue_weight s + 5"
    if "queue_weight u \<le> queue_weight s + 4" for u
    using send_weight [of runStartupLinesEvent u] that by simp
  moreover have "queue_weight (set_state Idle t) \<le> queue_weight s + 4" if "ev_queue t = ev_queue ?s1" for t
    using that s1 by (simp add: queue_weight_def)
  ultimately show ?thesis
    using s1 alarm [of "set_state Critical ?s1"] alarm [OF up] up
    by (simp add: protocol_do_start_def Let_def FORCE_INITIALIZATION_ALARM_def)
qed

lemma rt_reset_weight: "queue_weight (protocol_do_rt_reset env s) \<le> queue_weight s + 4"
proof -
  have "queue_weight (protocol_send_event restartEvent (protocol_do_late_reset env t)) \<le> queue_weight s + 4"
    if "queue_weight t \<le> queue_weight s + 1" for t
  proof -
    have "queue_weight (protocol_do_late_reset env t) = queue_weight t" by (rule same_weight) simp
    then show ?thesis using send_weight [of restartEvent "protocol_do_late_reset env t"] that by simp
  qed
  moreover have "queue_weight (homing_fail env HomingFailReset s) \<le> queue_weight s + 1" by (rule fail_weight)
  moreover have "queue_weight (protocol_do_alarm env AbortCycle (m_do es s)) = queue_weight s"
      "queue_weight (protocol_do_alarm env a s) = queue_weight s" "queue_weight (set_state x s) = queue_weight s" for es a x
    by (rule same_weight, simp)+
  ultimately show ?thesis by (simp add: protocol_do_rt_reset_def Let_def)
qed

lemma run_event_weight: "queue_weight (run_event env e s) < queue_weight s + weight e"
proof -
  have crit: "queue_weight (protocol_do_limit env h s) \<le> queue_weight s + 1"
      "queue_weight (protocol_do_fault_pin env s) \<le> queue_weight s + 1" for h
    using critical_weight limitReached_weight by (auto simp: protocol_do_limit_def protocol_do_fault_pin_def)
  have stop: "queue_weight (protocol_do_cycle_stop env s) \<le> queue_weight s + 1"
  proof -
    let ?t = "protocol_disable_steppers env s"
    have "queue_weight (hold_reached ?t) = queue_weight s" "queue_weight (motion_complete env ?t) = queue_weight s"
        "queue_weight ?t = queue_weight s"
      by (rule same_weight, simp)+
    then show ?thesis
      using cycleStop_weight [of env ?t] by (simp add: protocol_do_cycle_stop_def Let_def split: mstate.split)
  qed
  have w: "0 < weight e" by (simp add: weight_def split: event.split)
  show ?thesis
    using w crit(1) [of "case e of limitEvent h \<Rightarrow> h | _ \<Rightarrow> False"] crit(2) stop soft_restart_weight [of env s] start_weight [of env s] rt_reset_weight [of env s]
    by (cases e)
      (simp_all add: run_event_def queue_weight_def weight_def protocol_do_feed_override_def
        protocol_do_set_feed_override_def request_safety_door_def protocol_do_start_home_def less_Suc_eq_le)
qed

function protocol_handle_events :: "menv \<Rightarrow> mach \<Rightarrow> mach" where
  "protocol_handle_events env s =
     (case ev_queue s of
        [] \<Rightarrow> s
      | e # es \<Rightarrow> protocol_handle_events env (run_event env e (s\<lparr>ev_queue := es\<rparr>)))"
  by pat_completeness auto
termination
proof (relation "measure (\<lambda>(env, s). queue_weight s)", goal_cases)
  case (2 env s e es)
  then have "queue_weight s = weight e + queue_weight (s\<lparr>ev_queue := es\<rparr>)" by (simp add: queue_weight_def)
  then show ?case using run_event_weight [of env e "s\<lparr>ev_queue := es\<rparr>"] by simp
qed simp

declare protocol_handle_events.simps [simp del]

lemma handled_all: "ev_queue (protocol_handle_events env s) = []"
  by (induction env s rule: protocol_handle_events.induct)
    (subst protocol_handle_events.simps, simp split: list.split)

section \<open>Checkpoints\<close>

text \<open>
  \<open>protocol_exec_rt_system\<close>: \<open>arrived\<close> are the events that other tasks and interrupts have
  sent since the last checkpoint.
\<close>

definition protocol_exec_rt_system :: "menv \<Rightarrow> event list \<Rightarrow> mach \<Rightarrow> mach" where
  "protocol_exec_rt_system env arrived s =
     (let s0 = foldl (\<lambda>t e. protocol_send_event e t) s arrived;
          s1 = (if rtSafetyDoor s0 then protocol_do_safety_door env s0 else s0);
          s2 = protocol_handle_events env s1
      in if mode s2 \<in> {Cycle, Hold, SafetyDoor, Homing, Jog} then m_do [PrepBuffer] s2 else s2)"

definition protocol_auto_cycle_start :: "mach \<Rightarrow> mach" where
  "protocol_auto_cycle_start s =
     (if blocks s \<noteq> [] \<and> mode s \<noteq> Cycle \<and> mode s \<noteq> Hold then protocol_send_event cycleStartEvent s else s)"

definition protocol_manage_spindle :: "menv \<Rightarrow> mach \<Rightarrow> mach" where
  "protocol_manage_spindle env s =
     (let ov = spindle_stop_ovr s in
      if ov \<noteq> no_spindle_stop then
        (if ss_initiate ov then
           (if spindle_on s then (m_do [SpindleSpinDown] s)\<lparr>spindle_stop_ovr := no_spindle_stop\<lparr>ss_enabled := True\<rparr>\<rparr>
            else s\<lparr>spindle_stop_ovr := no_spindle_stop\<rparr>)
         else if ss_restore ov \<or> ss_restoreCycle ov then
           (let s1 = (if spindle_on s then
                        (let t = m_do [Feedback ''SpindleRestore''] s in
                         if rate_adjusted env then upd_step (\<lambda>c. c\<lparr>updateSpindleSpeed := True\<rparr>) t
                         else m_do [SpindleRestore, OvrChanged] t)
                      else s);
                s2 = (if ss_restoreCycle ov then protocol_send_event cycleStartEvent s1 else s1)
            in s2\<lparr>spindle_stop_ovr := no_spindle_stop\<rparr>)
         else s)
      else if updateSpindleSpeed (stepc s) then
        upd_step (\<lambda>c. c\<lparr>updateSpindleSpeed := False\<rparr>) (m_do [SpindleRestore] s)
      else s)"

text \<open>
  One pass of the suspend loop up to its checkpoint, after the hold is complete. \<open>park\<close> and
  \<open>unpark\<close> are the motions of Parking.cpp, with their argument.
\<close>

definition suspend_held :: "(bool \<Rightarrow> mach \<Rightarrow> mach) \<Rightarrow> (bool \<Rightarrow> mach \<Rightarrow> mach) \<Rightarrow> menv \<Rightarrow> mach \<Rightarrow> mach" where
  "suspend_held park unpark env s =
     (if mode s = SafetyDoor \<or> mode s = Sleep then
        let s1 = m_do [ParkingTarget] s in
        if \<not> retractComplete (susp s1) then
          upd_susp (\<lambda>u. u\<lparr>retractComplete := True, restartRetract := False\<rparr>)
            (park (restartRetract (susp s1)) (s1\<lparr>spindle_stop_ovr := no_spindle_stop\<rparr>))
        else
          let s2 = (if mode s1 = SafetyDoor \<and> \<not> door_ajar env
                    then upd_susp (\<lambda>u. u\<lparr>safetyDoorAjar := False\<rparr>) s1 else s1)
          in if initiateRestore (susp s2) then
               let s3 = unpark (restartRetract (susp s2)) s2
               in if \<not> restartRetract (susp s3) \<and> mode s3 = SafetyDoor \<and> \<not> safetyDoorAjar (susp s3)
                  then protocol_send_event cycleStartEvent (set_state Idle s3) else s3
             else s2
      else protocol_manage_spindle env s)"

text \<open>
  The loops over checkpoints run over what arrives at each of them, with the environment of the
  pass. The rest of the inputs is what is left when the loop of the code ends; a run that ends
  with no inputs left may still be in the loop.
\<close>

type_synonym arrivals = "(menv \<times> event list) list"

fun sleep_loop :: "arrivals \<Rightarrow> mach \<Rightarrow> mach \<times> arrivals" where
  "sleep_loop [] s = (s, [])"
| "sleep_loop ((env, es) # ins) s =
     (if abort s then (s, (env, es) # ins) else sleep_loop ins (protocol_exec_rt_system env es s))"

fun suspend_loop :: "(bool \<Rightarrow> mach \<Rightarrow> mach) \<Rightarrow> (bool \<Rightarrow> mach \<Rightarrow> mach) \<Rightarrow> arrivals \<Rightarrow> mach \<Rightarrow> mach \<times> arrivals" where
  "suspend_loop park unpark [] s = (s, [])"
| "suspend_loop park unpark ((env, es) # ins) s =
     (if susp s = no_suspend \<or> abort s then (s, (env, es) # ins)
      else
        let s1 = (if jogCancel (susp s) then m_do [McCancelJog] s else s) in
        if holdComplete (susp s1) \<and> mode s1 = Sleep \<and> retractComplete (susp s1) then
          sleep_loop ((env, es) # ins)
            (go_idle env (m_do [ParkingTarget, Feedback ''SleepMode'', SpindleSpinDown, CoolantOff, OvrChanged] s1))
        else
          let s2 = (if holdComplete (susp s1) then suspend_held park unpark env s1 else s1)
          in suspend_loop park unpark ins (protocol_exec_rt_system env es s2))"

definition protocol_exec_rt_suspend ::
    "(bool \<Rightarrow> mach \<Rightarrow> mach) \<Rightarrow> (bool \<Rightarrow> mach \<Rightarrow> mach) \<Rightarrow> menv \<Rightarrow> arrivals \<Rightarrow> mach \<Rightarrow> mach \<times> arrivals" where
  "protocol_exec_rt_suspend park unpark env ins s =
     (let s1 = m_do [ParkingSetup] s;
          s2 = (if rate_adjusted env then protocol_send_event (accessoryOverrideEvent 1) s1 else s1)
      in suspend_loop park unpark ins s2)"

definition protocol_execute_realtime ::
    "(bool \<Rightarrow> mach \<Rightarrow> mach) \<Rightarrow> (bool \<Rightarrow> mach \<Rightarrow> mach) \<Rightarrow> menv \<times> event list \<Rightarrow> arrivals \<Rightarrow> mach \<Rightarrow> mach \<times> arrivals" where
  "protocol_execute_realtime park unpark input ins s =
     (let s1 = protocol_exec_rt_system (fst input) (snd input) s in
      if susp s1 \<noteq> no_suspend then protocol_exec_rt_suspend park unpark (fst input) ins s1 else (s1, ins))"

section \<open>The main loop\<close>

text \<open>The line of a goto; both coordinates are optional.\<close>

definition goto_line :: "rat option \<Rightarrow> rat option \<Rightarrow> rat \<Rightarrow> string" where
  "goto_line theta rho feed =
     ''G90G1'' @ (case theta of None \<Rightarrow> [] | Some x \<Rightarrow> ''X'' @ show_fixed 5 x)
       @ (case rho of None \<Rightarrow> [] | Some y \<Rightarrow> ''Y'' @ show_fixed 5 y) @ ''F'' @ show_fixed 1 feed"

text \<open>
  The deferred requests of a pass, after the checkpoint: the stop, the home (recorded as its
  line or, on a table without switches, as the effect \<open>CrashHome\<close>; the offset that is written
  into the configuration before the line is not modelled), the goto and the disabling of the
  steppers.
\<close>

definition deferred_stop :: "menv \<Rightarrow> mach \<Rightarrow> mach" where
  "deferred_stop env s =
     (if rtStopJob s \<and> \<not> job_active env \<and> mode s = Idle
      then m_do [KinematicsStop] (s\<lparr>rtStopJob := False\<rparr>) else s)"

definition deferred_home :: "menv \<Rightarrow> mach \<Rightarrow> mach" where
  "deferred_home env s =
     (if rtStartHome s \<and> (mode s = Idle \<or> mode s = Alarm)
      then m_do [if crash_homing env then CrashHome else ExecuteLine ''$H''] (s\<lparr>rtStartHome := False\<rparr>) else s)"

definition deferred_goto :: "mach \<Rightarrow> mach" where
  "deferred_goto s =
     (case rtGoto s of
        None \<Rightarrow> s
      | Some (theta, rho, feed) \<Rightarrow>
          let s1 = s\<lparr>rtGoto := None\<rparr>; l = goto_line theta rho feed
          in if mode s1 = Idle \<and> length l < 256 then m_do [ExecuteLine l] s1 else s1)"

definition main_pass ::
    "(bool \<Rightarrow> mach \<Rightarrow> mach) \<Rightarrow> (bool \<Rightarrow> mach \<Rightarrow> mach) \<Rightarrow> menv \<times> event list \<Rightarrow> arrivals \<Rightarrow> mach \<Rightarrow> mach \<times> arrivals" where
  "main_pass park unpark input ins s =
     (let (s1, rest) = protocol_execute_realtime park unpark input ins (protocol_auto_cycle_start s);
          s2 = (if abort s1 then s1\<lparr>abort := False\<rparr> else s1)
      in (idle_check (fst input) (deferred_goto (deferred_home (fst input) (deferred_stop (fst input) s2))), rest))"

end
