(* ===== verification/ProtocolProps.thy ===== *)
theory ProtocolProps
  imports Protocol Transition "HOL-Library.Sublist"
begin

text \<open>
  Properties of the protocol task: what survives which events. The events are delivered in
  any order and in any environment; \<open>run_events\<close> is a sequence of deliveries.
\<close>

section \<open>Sequences of events\<close>

definition run_events :: "(menv \<times> event) list \<Rightarrow> mach \<Rightarrow> mach" where
  "run_events es s = foldl (\<lambda>t (env, e). run_event env e t) s es"

lemma run_events_simps [simp]:
  "run_events [] s = s" "run_events ((env, e) # es) s = run_events es (run_event env e s)"
  "run_events (es @ es') s = run_events es' (run_events es s)"
  by (simp_all add: run_events_def)

text \<open>A predicate that the allowed events keep, and so do their sequences.\<close>

locale kept_by_events =
  fixes allowed :: "event \<Rightarrow> bool"
    and P :: "mach \<Rightarrow> bool"
  assumes event_keeps: "allowed e \<Longrightarrow> P s \<Longrightarrow> P (run_event env e s)"
begin

lemma events_keep: "list_all (\<lambda>x. allowed (snd x)) es \<Longrightarrow> P s \<Longrightarrow> P (run_events es s)"
  by (induction es arbitrary: s) (auto simp: event_keeps)

end

lemmas handler_defs =
  run_event_def protocol_do_feed_override_def protocol_do_set_feed_override_def set_f_override_def
  protocol_do_rapid_override_def protocol_do_spindle_override_def protocol_do_accessory_override_def
  protocol_do_limit_def protocol_do_fault_pin_def mc_critical_def send_alarm_def protocol_send_event_def
  request_safety_door_def protocol_do_feedhold_def protocol_do_cycle_start_def protocol_do_initiate_cycle_def
  protocol_initiate_homing_cycle_def wake_up_def protocol_cancel_disable_steppers_def protocol_do_stop_job_def
  protocol_do_start_home_def protocol_do_cycle_stop_def motion_complete_def hold_reached_def
  protocol_do_motion_cancel_def protocol_do_sleep_def protocol_do_start_def protocol_do_soft_restart_def
  protocol_do_rt_reset_def protocol_do_late_reset_def protocol_do_alarm_def protocol_start_holding_def
  protocol_cancel_jogging_def protocol_hold_complete_def set_state_def upd_susp_def upd_step_def
  plan_reset_def gc_init_def protocol_reset_def system_reset_def set_all_axes_unhomed_def
  FORCE_INITIALIZATION_ALARM_def inMotionState_def

lemma awake_reset [simp]: "awake (stepper_reset env s) = False"
  by (simp add: stepper_reset_def go_idle_def)

section \<open>Locked states\<close>

text \<open>Events that can lead out of an alarm: putting the machine to sleep, and a critical alarm.\<close>

definition leaves_alarm :: "event \<Rightarrow> bool" where
  "leaves_alarm e \<longleftrightarrow> e \<in> {sleepEvent, alarmEvent HardLimit, alarmEvent HardStop, alarmEvent SoftLimit}"

interpretation alarm: kept_by_events "\<lambda>e. \<not> leaves_alarm e" "\<lambda>s. mode s = Alarm \<and> (awake s \<longrightarrow> a)" for a :: bool
proof
  fix e env and s :: mach assume "\<not> leaves_alarm e" "mode s = Alarm \<and> (awake s \<longrightarrow> a)"
  then show "mode (run_event env e s) = Alarm \<and> (awake (run_event env e s) \<longrightarrow> a)"
    by (cases e) (auto simp: leaves_alarm_def handler_defs Let_def)
qed

text \<open>
  An alarm is a lock: whatever is sent to a machine in alarm, in any order and any
  environment, except to sleep and a critical alarm, it stays in alarm and the stepper is not
  woken up.
\<close>

theorem alarm_locks:
  assumes "mode s = Alarm" "list_all (\<lambda>x. \<not> leaves_alarm (snd x)) es"
  shows "mode (run_events es s) = Alarm \<and> (awake (run_events es s) \<longrightarrow> awake s)"
  using alarm.events_keep [OF assms(2), of s "awake s"] assms(1) by simp

theorem alarm_locks_witness:
  "mode (run_events [(ex_menv, cycleStartEvent), (ex_menv, feedHoldEvent), (ex_menv, rtResetEvent)] ex_mach) = Alarm"
  using alarm_locks [of ex_mach "[(ex_menv, cycleStartEvent), (ex_menv, feedHoldEvent), (ex_menv, rtResetEvent)]"]
  by (simp add: ex_mach_def leaves_alarm_def)

text \<open>
  Two locks have a back door. Sleep and then a reset lead a machine from an alarm to Idle,
  although the position is as unknown as before; and a critical stop is left without a reset
  by a feed hold, from which stopping the job leads to Idle.
\<close>

theorem locks_have_back_doors:
  "(mode s = Alarm \<and> \<not> executeHold (stepc s) \<and> \<not> executeSysMotion (stepc s) \<longrightarrow>
      mode (run_events [(env, sleepEvent), (env, rtResetEvent)] s) = Idle)
    \<and> (mode s = Critical \<and> \<not> runLimitLoop s \<longrightarrow>
      mode (run_events [(env, feedHoldEvent), (env, stopJobEvent)] s) = Idle)"
  by (auto simp: handler_defs Let_def)

theorem locks_have_back_doors_witness:
  "mode (run_events [(ex_menv, sleepEvent), (ex_menv, rtResetEvent)] ex_mach) = Idle"
proof -
  have "mode ex_mach = Alarm \<and> \<not> executeHold (stepc ex_mach) \<and> \<not> executeSysMotion (stepc ex_mach)"
    by (simp add: ex_mach_def no_step_control_def)
  then show ?thesis using locks_have_back_doors [of ex_mach ex_menv] by blast
qed

definition leaves_door :: "event \<Rightarrow> bool" where
  "leaves_door e \<longleftrightarrow> e \<in> {sleepEvent, rtResetEvent, restartEvent} \<or> (\<exists>a. e = alarmEvent a)"

interpretation door: kept_by_events "\<lambda>e. \<not> leaves_door e"
  "\<lambda>s. mode s = SafetyDoor \<and> safetyDoorAjar (susp s) \<and> (awake s \<longrightarrow> a)" for a :: bool
proof
  fix e env and s :: mach assume "\<not> leaves_door e" "mode s = SafetyDoor \<and> safetyDoorAjar (susp s) \<and> (awake s \<longrightarrow> a)"
  then show "mode (run_event env e s) = SafetyDoor \<and> safetyDoorAjar (susp (run_event env e s))
      \<and> (awake (run_event env e s) \<longrightarrow> a)"
    by (cases e) (auto simp: leaves_door_def handler_defs Let_def)
qed

text \<open>
  C5. While the safety door is ajar nothing but a reset, an alarm or sleep leads out of the door
  state, and no cycle start wakes the stepper up: the machine cannot resume.
\<close>

theorem open_door_blocks_motion:
  assumes "mode s = SafetyDoor" "safetyDoorAjar (susp s)" "list_all (\<lambda>x. \<not> leaves_door (snd x)) es"
  shows "mode (run_events es s) = SafetyDoor \<and> safetyDoorAjar (susp (run_events es s))
    \<and> (awake (run_events es s) \<longrightarrow> awake s)"
  using door.events_keep [OF assms(3), of s "awake s"] assms(1,2) by simp

text \<open>A machine that executes two blocks.\<close>

definition ex_running :: mach where
  "ex_running = ex_mach\<lparr>mode := Cycle, awake := True, blocks := [False, False], unhomed_axes := 0\<rparr>"

lemma ex_open_door:
  "protocol_do_safety_door ex_menv ex_running =
    ex_running\<lparr>mode := SafetyDoor, susp := no_suspend\<lparr>safetyDoorAjar := True\<rparr>,
      stepc := no_step_control\<lparr>executeHold := True\<rparr>,
      m_effects := [Feedback ''SafetyDoorAjar'', UpdatePlanBlock]\<rparr>"
  by (simp add: protocol_do_safety_door_def protocol_start_holding_def holding_blocked_def ex_running_def ex_mach_def
      upd_susp_def m_do_def set_state_def no_suspend_def Let_def)

theorem open_door_blocks_motion_witness:
  "mode (run_events [(ex_menv, cycleStopEvent), (ex_menv, cycleStartEvent)]
     (protocol_do_safety_door ex_menv ex_running)) = SafetyDoor"
  using open_door_blocks_motion [of "protocol_do_safety_door ex_menv ex_running"
      "[(ex_menv, cycleStopEvent), (ex_menv, cycleStartEvent)]"]
  by (simp add: ex_open_door leaves_door_def)

section \<open>Hold and resume\<close>

text \<open>Events that neither start nor end a motion.\<close>

definition quiet :: "event \<Rightarrow> bool" where
  "quiet e \<longleftrightarrow>
     (case e of
        feedOverrideEvent _ \<Rightarrow> True | feedOverrideSetEvent _ \<Rightarrow> True | rapidOverrideEvent _ \<Rightarrow> True
      | spindleOverrideEvent _ \<Rightarrow> True | accessoryOverrideEvent t \<Rightarrow> t \<noteq> 1 | limitEvent h \<Rightarrow> \<not> h
      | reportStatusEvent \<Rightarrow> True | safetyDoorEvent \<Rightarrow> False | startHomeEvent \<Rightarrow> True | debugEvent \<Rightarrow> True
      | macroEvent _ \<Rightarrow> True | runStartupLinesEvent \<Rightarrow> True | _ \<Rightarrow> False)"

text \<open>What a held machine must keep to resume.\<close>

definition held :: "suspend \<Rightarrow> bool \<Rightarrow> bool list \<Rightarrow> mach \<Rightarrow> bool" where
  "held u h bs s \<longleftrightarrow> mode s = Hold \<and> susp s = u \<and> executeHold (stepc s) = h \<and> blocks s = bs
     \<and> \<not> soft_limit s \<and> spindle_stop_ovr s = no_spindle_stop \<and> \<not> runLimitLoop s"

lemma held_feedhold: "held u h bs s \<Longrightarrow> held u h bs (run_event env feedHoldEvent s)"
  by (simp add: held_def handler_defs)

lemma held_quiet: "quiet e \<Longrightarrow> held u h bs s \<Longrightarrow> held u h bs (run_event env e s)"
  by (cases e) (auto simp: quiet_def held_def handler_defs Let_def)

text \<open>While the machine decelerates, a cycle start is ignored.\<close>

interpretation decelerating: kept_by_events "\<lambda>e. quiet e \<or> e = feedHoldEvent \<or> e = cycleStartEvent"
  "held no_suspend True bs" for bs
proof
  fix e env and s :: mach
  assume e: "quiet e \<or> e = feedHoldEvent \<or> e = cycleStartEvent" and h: "held no_suspend True bs s"
  have "held no_suspend True bs (run_event env cycleStartEvent s)"
    using h by (simp add: held_def handler_defs no_suspend_def)
  then show "held no_suspend True bs (run_event env e s)" using e h held_quiet held_feedhold by blast
qed

interpretation holding: kept_by_events "\<lambda>e. quiet e \<or> e = feedHoldEvent \<or> e = cycleStopEvent"
  "held (no_suspend\<lparr>holdComplete := True\<rparr>) False bs" for bs
proof
  fix e env and s :: mach
  assume e: "quiet e \<or> e = feedHoldEvent \<or> e = cycleStopEvent" and h: "held (no_suspend\<lparr>holdComplete := True\<rparr>) False bs s"
  have "held (no_suspend\<lparr>holdComplete := True\<rparr>) False bs (run_event env cycleStopEvent s)"
    using h by (simp add: held_def handler_defs no_suspend_def Let_def)
  then show "held (no_suspend\<lparr>holdComplete := True\<rparr>) False bs (run_event env e s)"
    using e h held_quiet held_feedhold by blast
qed

text \<open>
  What happens to a machine that decelerates: the events that are handled, and the blocks that
  the stepper finishes before it has come to rest (None).
\<close>

fun hold_inputs :: "(menv \<times> event) option list \<Rightarrow> mach \<Rightarrow> mach" where
  "hold_inputs [] s = s"
| "hold_inputs (Some (env, e) # xs) s = hold_inputs xs (run_event env e s)"
| "hold_inputs (None # xs) s = hold_inputs xs (s\<lparr>blocks := tl (blocks s)\<rparr>)"

lemma held_inputs:
  assumes "held no_suspend True bs s"
    and "list_all (\<lambda>x. case x of None \<Rightarrow> True | Some (env, e) \<Rightarrow> quiet e \<or> e = feedHoldEvent \<or> e = cycleStartEvent) xs"
  shows "held no_suspend True (drop (count_list xs None) bs) (hold_inputs xs s)"
  using assms
proof (induction xs s arbitrary: bs rule: hold_inputs.induct)
  case (2 env e xs s) then show ?case using decelerating.event_keeps [of e bs s env] by simp
next
  case (3 xs s)
  then have "held no_suspend True (tl bs) (s\<lparr>blocks := tl (blocks s)\<rparr>)" by (simp add: held_def)
  then show ?case using 3 by (simp add: drop_Suc)
qed simp

text \<open>
  C2. A feed hold keeps the rest of the pattern: a machine in a cycle (with no suspend flag, no
  soft limit, no spindle stop and no limit loop pending, and no jog in the queue) that is told
  to hold stops and stays in hold whatever feed, rapid, spindle speed and coolant overrides,
  reports, soft limit pins, home requests, macro keys or further holds are handled, and
  a premature cycle start. The first cycle start after the motion has stopped resumes the cycle
  with all blocks that the stepper had not finished while it decelerated, the stepper awake and
  no trace of the hold; with no block left the machine is idle. The spindle stop override (0x9E) is not
  among the events: after it a cycle start restores the spindle first. Nor are the door, stops,
  resets and alarms, which end a hold.
\<close>

theorem hold_then_resume:
  assumes "mode s = Cycle" "susp s = no_suspend" "list_all Not (blocks s)" "\<not> soft_limit s"
    "spindle_stop_ovr s = no_spindle_stop" "\<not> runLimitLoop s"
    and "list_all (\<lambda>x. case x of None \<Rightarrow> True | Some (env, e) \<Rightarrow> quiet e \<or> e = feedHoldEvent \<or> e = cycleStartEvent) xs"
    and "list_all (\<lambda>x. quiet (snd x) \<or> snd x = feedHoldEvent \<or> snd x = cycleStopEvent) es"
  shows "let t = run_events ((env2, cycleStopEvent) # es) (hold_inputs xs (run_event env1 feedHoldEvent s));
             r = run_event env3 cycleStartEvent t;
             left = drop (count_list xs None) (blocks s)
         in mode t = Hold \<and> blocks t = left \<and> blocks r = left \<and> susp r = no_suspend \<and> stepc r = no_step_control
           \<and> (if left = [] then mode r = Idle else mode r = Cycle \<and> awake r)"
proof -
  let ?s1 = "run_event env1 feedHoldEvent s"
  let ?left = "drop (count_list xs None) (blocks s)"
  have jog: "\<not> hd ?left" if "?left \<noteq> []"
    using assms(3) that by (simp add: list_all_length hd_drop_conv_nth)
  have "held no_suspend True (blocks s) ?s1"
    using assms(1-6) by (simp add: held_def handler_defs holding_blocked_def no_suspend_def)
  then have h: "held no_suspend True ?left (hold_inputs xs ?s1)" using held_inputs assms(7) by blast
  have "held (no_suspend\<lparr>holdComplete := True\<rparr>) False ?left (run_event env2 cycleStopEvent (hold_inputs xs ?s1))"
    using h by (simp add: held_def handler_defs no_suspend_def Let_def)
  then have "held (no_suspend\<lparr>holdComplete := True\<rparr>) False ?left
      (run_events es (run_event env2 cycleStopEvent (hold_inputs xs ?s1)))"
    by (rule holding.events_keep [OF assms(8)])
  then show ?thesis
    using jog by (simp add: held_def handler_defs no_suspend_def Let_def)
qed

text \<open>A machine with three blocks is told to hold and finishes the first of them while it decelerates.\<close>

theorem hold_then_resume_witness:
  "let t = run_events [(ex_menv, cycleStopEvent)] (hold_inputs [Some (ex_menv, feedOverrideEvent 10), None]
       (run_event ex_menv feedHoldEvent (ex_running\<lparr>blocks := [False, False, False]\<rparr>)));
     r = run_event ex_menv cycleStartEvent t
   in mode t = Hold \<and> blocks t = [False, False] \<and> mode r = Cycle \<and> blocks r = [False, False]"
  using hold_then_resume [of "ex_running\<lparr>blocks := [False, False, False]\<rparr>" "[Some (ex_menv, feedOverrideEvent 10), None]" "[]"
      ex_menv ex_menv ex_menv]
  by (simp add: ex_running_def ex_mach_def quiet_def Let_def)

section \<open>Stopping a job\<close>





interpretation stuck: kept_by_events
  "\<lambda>e. quiet e \<or> e \<in> {feedHoldEvent, cycleStartEvent, cycleStopEvent, motionCancelEvent}"
  "\<lambda>s. mode s = Hold \<and> jogCancel (susp s) \<and> \<not> holdComplete (susp s)"
proof
  fix e env and s :: mach
  assume e: "quiet e \<or> e \<in> {feedHoldEvent, cycleStartEvent, cycleStopEvent, motionCancelEvent}"
    and s: "mode s = Hold \<and> jogCancel (susp s) \<and> \<not> holdComplete (susp s)"
  have "mode (run_event env f s) = Hold \<and> jogCancel (susp (run_event env f s)) \<and> \<not> holdComplete (susp (run_event env f s))"
    if "f = feedHoldEvent \<or> f = cycleStartEvent \<or> f = cycleStopEvent \<or> f = motionCancelEvent" for f
    using s that by (cases "runLimitLoop s") (auto simp: handler_defs Let_def)
  moreover have "quiet e \<Longrightarrow> mode (run_event env e s) = Hold \<and> jogCancel (susp (run_event env e s))
      \<and> \<not> holdComplete (susp (run_event env e s))"
    using s by (cases e) (auto simp: quiet_def handler_defs Let_def)
  ultimately show "mode (run_event env e s) = Hold \<and> jogCancel (susp (run_event env e s))
      \<and> \<not> holdComplete (susp (run_event env e s))" using e by blast
qed

text \<open>
  A feed hold while a stopped job decelerates makes the machine stick: the stop of the
  stepper falls through to a case that does nothing, the hold never completes, and no cycle
  start, hold, override or end of motion leads out of it.
\<close>

theorem stop_then_hold_sticks:
  assumes "mode s = Cycle" "susp s = no_suspend" "\<not> runLimitLoop s"
    and "list_all (\<lambda>x. quiet (snd x) \<or> snd x \<in> {feedHoldEvent, cycleStartEvent, cycleStopEvent, motionCancelEvent}) es"
  shows "mode (run_events ((env1, stopJobEvent) # (env2, feedHoldEvent) # es) s) = Hold"
proof -
  let ?s1 = "run_event env2 feedHoldEvent (run_event env1 stopJobEvent s)"
  have "mode ?s1 = Hold \<and> jogCancel (susp ?s1) \<and> \<not> holdComplete (susp ?s1)"
    using assms(1-3) by (simp add: handler_defs holding_blocked_def no_suspend_def Let_def)
  then show ?thesis using stuck.events_keep [OF assms(4)] by simp
qed

theorem stop_then_hold_sticks_witness:
  "mode (run_events [(ex_menv, stopJobEvent), (ex_menv, feedHoldEvent), (ex_menv, cycleStopEvent), (ex_menv, cycleStartEvent)]
     ex_running) = Hold"
  using stop_then_hold_sticks [of ex_running "[(ex_menv, cycleStopEvent), (ex_menv, cycleStartEvent)]" ex_menv ex_menv]
  by (simp add: ex_running_def ex_mach_def)

section \<open>Overrides\<close>

definition overrides_ok :: "mach \<Rightarrow> bool" where
  "overrides_ok s \<longleftrightarrow> 10 \<le> uint (f_override s) \<and> uint (f_override s) \<le> 200
     \<and> 10 \<le> uint (spindle_speed_ovr s) \<and> uint (spindle_speed_ovr s) \<le> 200"

lemma set_mpos_overrides [simp]:
  "f_override (set_mpos env s) = f_override s" "spindle_speed_ovr (set_mpos env s) = spindle_speed_ovr s"
proof -
  have "f_override (foldl (\<lambda>t axis. set_axis_homed axis t) t xs) = f_override t
      \<and> spindle_speed_ovr (foldl (\<lambda>t axis. set_axis_homed axis t) t xs) = spindle_speed_ovr t" for t xs
    by (induction xs arbitrary: t) (simp_all add: set_axis_homed_def)
  then show "f_override (set_mpos env s) = f_override s" "spindle_speed_ovr (set_mpos env s) = spindle_speed_ovr s"
    by (simp_all add: set_mpos_def set_homing_mode_def Let_def)
qed

lemma homing_overrides:
  "overrides_ok (nextPhase env s) = overrides_ok s"
  "overrides_ok (runPhase env s) = overrides_ok s"
  "overrides_ok (nextCycle env s) = overrides_ok s"
proof (induction env s and env s and env s rule: nextPhase_runPhase_nextCycle.induct)
  case (1 env s)
  have "overrides_ok (set_mpos env (advance_phase s)) = overrides_ok s" "overrides_ok (advance_phase s) = overrides_ok s"
    by (simp_all add: overrides_ok_def) (simp_all add: advance_phase_def Let_def)
  then show ?case using 1 by (subst nextPhase.simps) (simp only: Let_def split: if_split, auto)
next
  case (2 env s)
  have "overrides_ok ((enter_phase s)\<lparr>hphase := CycleDone - 1\<rparr>) = overrides_ok s"
      "overrides_ok (enter_phase s) = overrides_ok s"
      "overrides_ok (startMove (m_do es (enter_phase s))) = overrides_ok s" for es
    by (simp_all add: overrides_ok_def enter_phase_def startMove_def protocol_send_event_def)
  then show ?case using 2 by (subst runPhase.simps) (simp only: Let_def split: if_split, auto)
next
  case (3 env s)
  have "overrides_ok (begin_cycle env c cs s) = overrides_ok s" for c cs
    by (simp add: overrides_ok_def begin_cycle_def set_homing_mode_def Let_def)
  moreover have "overrides_ok (homing_done env s) = overrides_ok s"
    by (simp add: overrides_ok_def homing_done_def go_idle_def set_state_def Let_def)
  moreover have "overrides_ok (s\<lparr>remainingCycles := []\<rparr>) = overrides_ok s" by (simp add: overrides_ok_def)
  ultimately show ?case using 3 by (subst nextCycle.simps) (simp split: list.split)
qed

lemma homing_event_overrides:
  "overrides_ok (homing_fail env a s) = overrides_ok s" "overrides_ok (cycleStop env s) = overrides_ok s"
  "overrides_ok (limitReached env s) = overrides_ok s"
proof -
  show fail: "overrides_ok (homing_fail env a s) = overrides_ok s" for a
    by (simp add: overrides_ok_def homing_fail_def set_homing_mode_def send_alarm_def protocol_send_event_def)
  have st: "overrides_ok (m_do es t) = overrides_ok t" "overrides_ok (startMove t) = overrides_ok t"
      "overrides_ok (stepper_reset env t) = overrides_ok t" for es t
    by (simp_all add: overrides_ok_def startMove_def protocol_send_event_def)
  show "overrides_ok (cycleStop env s) = overrides_ok s"
    by (simp add: cycleStop_def fail st homing_overrides) (simp add: overrides_ok_def)
  show "overrides_ok (limitReached env s) = overrides_ok s"
    by (simp add: limitReached_def split_beta Let_def st homing_overrides) (simp add: overrides_ok_def)
qed

lemma clamp_percent: "10 \<le> clamp 10 200 x \<and> clamp 10 200 x \<le> 200"
  by (simp add: clamp_def)

lemma percent_byte: "10 \<le> x \<Longrightarrow> x \<le> 200 \<Longrightarrow> uint (of_int x :: u8) = x"
  by (simp add: uint_word_of_int_eq take_bit_int_eq_self)

interpretation overrides: kept_by_events "\<lambda>e. True" overrides_ok
proof
  fix e env and s :: mach assume ok: "overrides_ok s"
  have f: "overrides_ok (set_f_override x t)" if "10 \<le> x" "x \<le> 200" "overrides_ok t" for x t
    using that by (simp add: overrides_ok_def set_f_override_def percent_byte)
  have sp: "overrides_ok (protocol_do_spindle_override i s)" for i
    using ok clamp_percent [of "uint (spindle_speed_ovr s) + i"]
    by (auto simp: overrides_ok_def protocol_do_spindle_override_def Let_def percent_byte upd_step_def inMotionState_def)
  have ff: "overrides_ok (protocol_do_feed_override i s)" "overrides_ok (protocol_do_set_feed_override i s)" for i
    using f ok clamp_percent by (simp_all add: protocol_do_feed_override_def protocol_do_set_feed_override_def)
  have stop: "overrides_ok (protocol_do_cycle_stop env s)"
  proof -
    let ?t = "protocol_disable_steppers env s"
    have "overrides_ok ?t" using ok by (simp add: overrides_ok_def)
    then show ?thesis using homing_event_overrides(2) [of env ?t]
      by (auto simp: protocol_do_cycle_stop_def Let_def hold_reached_def motion_complete_def overrides_ok_def upd_susp_def
          upd_step_def set_state_def plan_reset_def split: mstate.split)
  qed
  have lim: "overrides_ok (protocol_do_limit env h s)" for h
    using ok homing_event_overrides(3) [of env s]
    by (simp add: protocol_do_limit_def mc_critical_def send_alarm_def protocol_send_event_def) (simp add: overrides_ok_def)
  have reset: "overrides_ok (protocol_do_rt_reset env s)"
    using ok homing_event_overrides(1) [of env HomingFailReset s]
    by (simp add: protocol_do_rt_reset_def Let_def protocol_send_event_def protocol_do_late_reset_def overrides_ok_def
        protocol_do_alarm_def set_state_def set_all_axes_unhomed_def)
  show "overrides_ok (run_event env e s)"
    using ok sp ff stop lim reset
    by (cases e) (simp_all add: run_event_def, simp_all add: overrides_ok_def handler_defs Let_def split: mstate.split)
qed

text \<open>
  C30. After a restart the feed and spindle overrides stay between 10 and 200 percent, whatever
  increments and absolute values are sent, among whatever other events.
\<close>

theorem overrides_in_range: "overrides_ok (run_events es (system_reset s))"
proof (rule overrides.events_keep)
  show "list_all (\<lambda>x. True) es" by (simp add: list_all_iff)
  show "overrides_ok (system_reset s)" by (simp add: overrides_ok_def system_reset_def)
qed

section \<open>Reset\<close>


lemma handle_nil: "ev_queue s = [] \<Longrightarrow> protocol_handle_events env s = s"
  by (subst protocol_handle_events.simps) simp

lemma handle_cons:
  "ev_queue s = e # es \<Longrightarrow> protocol_handle_events env s = protocol_handle_events env (run_event env e (s\<lparr>ev_queue := es\<rparr>))"
  by (subst protocol_handle_events.simps) simp





section \<open>The queue\<close>

text \<open>The events that the loop handles, in their order.\<close>

function handled_events :: "menv \<Rightarrow> mach \<Rightarrow> event list" where
  "handled_events env s =
     (case ev_queue s of
        [] \<Rightarrow> []
      | e # es \<Rightarrow> e # handled_events env (run_event env e (s\<lparr>ev_queue := es\<rparr>)))"
  by pat_completeness auto
termination
proof (relation "measure (\<lambda>(env, s). queue_weight s)", goal_cases)
  case (2 env s e es)
  then have "queue_weight s = weight e + queue_weight (s\<lparr>ev_queue := es\<rparr>)" by (simp add: queue_weight_def)
  then show ?case using run_event_weight [of env e "s\<lparr>ev_queue := es\<rparr>"] by simp
qed simp

declare handled_events.simps [simp del]

lemma handled_le_weight: "length (handled_events env s) \<le> queue_weight s"
proof (induction env s rule: handled_events.induct)
  case (1 env s)
  show ?case
  proof (cases "ev_queue s")
    case (Cons e es)
    have "queue_weight s = weight e + queue_weight (s\<lparr>ev_queue := es\<rparr>)" using Cons by (simp add: queue_weight_def)
    then show ?thesis
      using 1 [OF Cons] run_event_weight [of env e "s\<lparr>ev_queue := es\<rparr>"] Cons
      by (subst handled_events.simps) simp
  qed (subst handled_events.simps, simp)
qed

text \<open>Handlers only append to the queue.\<close>

lemma send_appends: "prefix (ev_queue s) (ev_queue (protocol_send_event e s))"
  by (simp add: protocol_send_event_def)

lemma nextPhase_appends:
  "prefix (ev_queue s) (ev_queue (nextPhase env s))"
  "prefix (ev_queue s) (ev_queue (runPhase env s))"
  "prefix (ev_queue s) (ev_queue (nextCycle env s))"
proof (induction env s and env s and env s rule: nextPhase_runPhase_nextCycle.induct)
  case (1 env s)
  then show ?case by (subst nextPhase.simps) (simp add: Let_def)
next
  case (2 env s)
  then show ?case
    by (subst runPhase.simps) (auto simp: Let_def enter_phase_def startMove_def protocol_send_event_def)
next
  case (3 env s)
  have "ev_queue (begin_cycle env c cs s) = ev_queue s" for c cs
    by (simp add: begin_cycle_def set_homing_mode_def Let_def)
  moreover have "ev_queue (homing_done env s) = ev_queue s"
    by (simp add: homing_done_def go_idle_def set_state_def Let_def)
  ultimately show ?case using 3 by (subst nextCycle.simps) (simp split: list.split)
qed

lemma homing_appends:
  "prefix (ev_queue s) (ev_queue (homing_fail env a s))"
  "prefix (ev_queue s) (ev_queue (cycleStop env s))"
  "prefix (ev_queue s) (ev_queue (limitReached env s))"
proof -
  show fail: "prefix (ev_queue s) (ev_queue (homing_fail env a s))" for a
    by (simp add: homing_fail_def set_homing_mode_def send_alarm_def protocol_send_event_def)
  show "prefix (ev_queue s) (ev_queue (cycleStop env s))"
    using fail nextPhase_appends(1) [of "stepper_reset env (s\<lparr>phaseMotors := 0\<rparr>)" env] by (simp add: cycleStop_def)
  have "prefix (ev_queue s) (ev_queue (nextPhase env (stepper_reset env (s\<lparr>phaseAxes := x, phaseMotors := m\<rparr>))))" for x m
    using nextPhase_appends(1) [of "stepper_reset env (s\<lparr>phaseAxes := x, phaseMotors := m\<rparr>)" env] by simp
  then show "prefix (ev_queue s) (ev_queue (limitReached env s))"
    by (simp add: limitReached_def startMove_def protocol_send_event_def Let_def split: prod.split)
qed

lemma restart_appends:
  "prefix (ev_queue s) (ev_queue (protocol_do_soft_restart env s))"
  "prefix (ev_queue s) (ev_queue (protocol_do_start env s))"
  "prefix (ev_queue s) (ev_queue (protocol_do_rt_reset env s))"
proof -
  show "prefix (ev_queue s) (ev_queue (protocol_do_soft_restart env s))"
    by (simp add: protocol_do_soft_restart_def mc_critical_def send_alarm_def protocol_send_event_def Let_def)
  show "prefix (ev_queue s) (ev_queue (protocol_do_start env s))"
    by (simp add: protocol_do_start_def send_alarm_def protocol_send_event_def Let_def)
  have "prefix (ev_queue s) (ev_queue (protocol_send_event e (protocol_do_late_reset env t)))"
    if "prefix (ev_queue s) (ev_queue t)" for e t
    using that by (simp add: protocol_send_event_def)
  then show "prefix (ev_queue s) (ev_queue (protocol_do_rt_reset env s))"
    using homing_appends(1) [of s env] by (simp add: protocol_do_rt_reset_def Let_def)
qed

lemma run_event_appends: "prefix (ev_queue s) (ev_queue (run_event env e s))"
proof -
  have "prefix (ev_queue s) (ev_queue (protocol_do_cycle_stop env s))"
    using homing_appends(2) [of "protocol_disable_steppers env s" env]
    by (simp add: protocol_do_cycle_stop_def Let_def split: mstate.split)
  then show ?thesis
    using homing_appends(3) [of s env] restart_appends [of s env]
    by (cases e) (simp_all add: run_event_def protocol_do_feed_override_def protocol_do_set_feed_override_def
        request_safety_door_def protocol_do_start_home_def protocol_do_limit_def protocol_do_fault_pin_def
        mc_critical_def send_alarm_def protocol_send_event_def)
qed

lemma handled_first: "prefix (ev_queue s) (handled_events env s)"
proof (induction env s rule: handled_events.induct)
  case (1 env s)
  show ?case
  proof (cases "ev_queue s")
    case (Cons e es)
    have "prefix es (handled_events env (run_event env e (s\<lparr>ev_queue := es\<rparr>)))"
      using run_event_appends [of "s\<lparr>ev_queue := es\<rparr>" env e] 1 [OF Cons] prefix_order.trans by fastforce
    then show ?thesis using Cons by (subst handled_events.simps) simp
  qed simp
qed

text \<open>One turn of the loop: the first event of the queue is taken out and handled.\<close>

definition handle_next :: "menv \<Rightarrow> event \<Rightarrow> mach \<Rightarrow> mach" where
  "handle_next env e s = run_event env e (s\<lparr>ev_queue := tl (ev_queue s)\<rparr>)"

lemma handles_in_order: "protocol_handle_events env s = fold (handle_next env) (handled_events env s) s"
proof (induction env s rule: handled_events.induct)
  case (1 env s)
  show ?case
  proof (cases "ev_queue s")
    case Nil then show ?thesis by (subst handled_events.simps) (simp add: handle_nil)
  next
    case (Cons e es)
    then show ?thesis
      using 1 [OF Cons] handle_cons [OF Cons, of env]
      by (subst handled_events.simps) (simp add: handle_next_def [of env e s])
  qed
qed

text \<open>
  C29. A checkpoint handles the events of its queue, each by its handler and in the order in
  which they were sent, then those that the handlers themselves have sent and that found room
  in the queue (of ten; an event sent to a full queue is lost), and ends with an empty queue:
  from a queue of n events it runs at most 6 n handlers.
\<close>

theorem checkpoint_drains_queue:
  "protocol_handle_events env s = fold (handle_next env) (handled_events env s) s
    \<and> prefix (ev_queue s) (handled_events env s)
    \<and> length (handled_events env s) \<le> 6 * length (ev_queue s)
    \<and> ev_queue (protocol_exec_rt_system env arrived s) = []"
proof -
  have "sum_list (map weight es) \<le> 6 * length es" for es
    by (induction es) (auto simp: weight_def split: event.split)
  then have "length (handled_events env s) \<le> 6 * length (ev_queue s)"
    using handled_le_weight [of env s] by (metis (no_types, lifting) le_trans queue_weight_def)
  moreover have "ev_queue (protocol_exec_rt_system env arrived s) = []"
    by (simp add: protocol_exec_rt_system_def handled_all Let_def)
  ultimately show ?thesis using handles_in_order [of env s] handled_first [of s env] by simp
qed

end
