(* ===== verification/RealtimeCmd.thy ===== *)
theory RealtimeCmd
  imports ProtocolProps
begin

text \<open>
  FluidNC/src/RealtimeCmd.h and RealtimeCmd.cpp: the characters that are picked off the input
  and sent to the protocol task as events, and what they cannot do.
\<close>

section \<open>Definitions\<close>

definition is_realtime_command :: "u8 \<Rightarrow> bool" where
  "is_realtime_command c \<longleftrightarrow> c \<ge> 0x80 \<or> c = 0x18 \<or> c = 0x3F \<or> c = 0x7E \<or> c = 0x21"

text \<open>The event of a command; the status report and the jog cancel are below.\<close>

definition command_event :: "u8 \<Rightarrow> event option" where
  "command_event c =
     (if c = 0x18 then Some rtResetEvent else if c = 0x7E then Some cycleStartEvent
      else if c = 0x21 then Some feedHoldEvent else if c = 0x84 then Some safetyDoorEvent
      else if c = 0x86 then Some debugEvent else if c = 0x9E then Some (accessoryOverrideEvent 1)
      else if c = 0x9F then Some stopJobEvent
      else if c = 0x90 then Some (feedOverrideEvent 100) else if c = 0x91 then Some (feedOverrideEvent 10)
      else if c = 0x92 then Some (feedOverrideEvent (- 10)) else if c = 0x93 then Some (feedOverrideEvent 1)
      else if c = 0x94 then Some (feedOverrideEvent (- 1))
      else if c = 0x95 then Some (rapidOverrideEvent 100) else if c = 0x96 then Some (rapidOverrideEvent 50)
      else if c = 0x97 then Some (rapidOverrideEvent 25) else if c = 0x98 then Some (rapidOverrideEvent 5)
      else if c = 0x99 then Some (spindleOverrideEvent 100) else if c = 0x9A then Some (spindleOverrideEvent 10)
      else if c = 0x9B then Some (spindleOverrideEvent (- 10)) else if c = 0x9C then Some (spindleOverrideEvent 1)
      else if c = 0x9D then Some (spindleOverrideEvent (- 1))
      else if c = 0xA0 then Some (accessoryOverrideEvent 2) else if c = 0xA1 then Some (accessoryOverrideEvent 3)
      else if c = 0x87 then Some (macroEvent 0) else if c = 0x88 then Some (macroEvent 1)
      else if c = 0x89 then Some (macroEvent 2) else if c = 0x8A then Some (macroEvent 3)
      else None)"

definition execute_realtime_command :: "u8 \<Rightarrow> mach \<Rightarrow> mach" where
  "execute_realtime_command c s =
     (if c = 0x3F then m_do [StatusReport] s
      else if c = 0x85 then (if mode s = Jog then protocol_send_event motionCancelEvent s else s)
      else case command_event c of Some e \<Rightarrow> protocol_send_event e s | None \<Rightarrow> s)"

text \<open>
  A realtime command character, as the channels pass it on, and the checkpoint that follows it.
  All other characters become lines, which are not commands of this kind.
\<close>

definition realtime_character :: "menv \<Rightarrow> u8 \<Rightarrow> mach \<Rightarrow> mach" where
  "realtime_character env c s = protocol_exec_rt_system env [] (execute_realtime_command c s)"

section \<open>What realtime characters cannot do\<close>

definition idle_alarm :: "mach \<Rightarrow> bool" where
  "idle_alarm s \<longleftrightarrow> mode s = Alarm \<and> ev_queue s = []"

text \<open>Events of characters, and the restart that a reset sends.\<close>

definition char_event :: "event \<Rightarrow> bool" where
  "char_event e \<longleftrightarrow> \<not> leaves_alarm e \<and>
     (case e of limitEvent _ \<Rightarrow> False | faultPinEvent \<Rightarrow> False | startEvent \<Rightarrow> False | rtResetEvent \<Rightarrow> False
      | restartEvent \<Rightarrow> False | _ \<Rightarrow> True)"

lemma char_event_keeps: "char_event e \<Longrightarrow> idle_alarm s \<Longrightarrow> idle_alarm (run_event env e s)"
  by (cases e) (auto simp: char_event_def leaves_alarm_def idle_alarm_def handler_defs Let_def)

lemma handle_char_event:
  assumes "char_event e" "mode s = Alarm" "ev_queue s = [e]"
  shows "idle_alarm (protocol_handle_events env s)"
proof -
  have "idle_alarm (run_event env e (s\<lparr>ev_queue := []\<rparr>))"
    by (rule char_event_keeps [OF assms(1)]) (simp add: idle_alarm_def assms(2))
  then show ?thesis
    using handle_cons [OF assms(3), of env] handle_nil by (simp add: idle_alarm_def)
qed

lemma handle_restart:
  assumes "mode s = Alarm" "ev_queue s = [restartEvent]" "\<not> limits_startup env"
  shows "idle_alarm (protocol_handle_events env s)"
proof -
  let ?t = "protocol_do_soft_restart env (s\<lparr>ev_queue := []\<rparr>)"
  have h: "protocol_handle_events env s = protocol_handle_events env ?t"
    using handle_cons [OF assms(2), of env] by (simp add: run_event_def)
  have m: "mode ?t = Alarm" "ev_queue ?t = (if control_startup env then [alarmEvent ControlPin] else [])"
    using assms(1,3)
    by (simp_all add: protocol_do_soft_restart_def gc_init_def plan_reset_def protocol_reset_def system_reset_def
        send_alarm_def protocol_send_event_def Let_def)
  show ?thesis
  proof (cases "control_startup env")
    case True
    then show ?thesis
      unfolding h using m by (intro handle_char_event) (auto simp: char_event_def leaves_alarm_def)
  next
    case False
    then show ?thesis unfolding h using m handle_nil by (simp add: idle_alarm_def)
  qed
qed

lemma handle_reset:
  assumes "mode s = Alarm" "ev_queue s = [rtResetEvent]" "\<not> limits_startup env"
  shows "idle_alarm (protocol_handle_events env s)"
proof -
  let ?t = "protocol_do_rt_reset env (s\<lparr>ev_queue := []\<rparr>)"
  have "mode ?t = Alarm" "ev_queue ?t = [restartEvent]"
    using assms(1) by (auto simp: protocol_do_rt_reset_def protocol_send_event_def protocol_do_late_reset_def
        protocol_do_alarm_def set_state_def Let_def)
  then show ?thesis
    using handle_restart [OF _ _ assms(3), of ?t] handle_cons [OF assms(2), of env] by (simp add: run_event_def)
qed

lemma command_events: "command_event c = Some e \<Longrightarrow> e = rtResetEvent \<or> char_event e"
  by (auto simp: command_event_def char_event_def leaves_alarm_def split: if_splits)

lemma execute_sends:
  assumes "idle_alarm s"
  shows "mode (execute_realtime_command c s) = Alarm
    \<and> (ev_queue (execute_realtime_command c s) = []
      \<or> (\<exists>e. ev_queue (execute_realtime_command c s) = [e] \<and> (e = rtResetEvent \<or> char_event e)))"
proof -
  have a: "mode s = Alarm" "ev_queue s = []" using assms by (simp_all add: idle_alarm_def)
  show ?thesis
  proof (cases "command_event c")
    case None then show ?thesis using a by (simp add: execute_realtime_command_def)
  next
    case (Some e)
    then show ?thesis
      using a command_events [OF Some] by (simp add: execute_realtime_command_def protocol_send_event_def)
  qed
qed

lemma door_in_alarm:
  "mode s = Alarm \<Longrightarrow> mode (protocol_do_safety_door env s) = Alarm \<and> ev_queue (protocol_do_safety_door env s) = ev_queue s"
  by (simp add: protocol_do_safety_door_def Let_def)

lemma character_keeps_alarm:
  assumes "idle_alarm s" "\<not> limits_startup env"
  shows "idle_alarm (realtime_character env c s)"
proof -
  define t where "t = execute_realtime_command c s"
  define d where "d = (if rtSafetyDoor t then protocol_do_safety_door env t else t)"
  have t: "mode t = Alarm" "ev_queue t = [] \<or> (\<exists>e. ev_queue t = [e] \<and> (e = rtResetEvent \<or> char_event e))"
    using execute_sends [OF assms(1), of c] assms(1) by (simp_all add: t_def idle_alarm_def)
  have d: "mode d = Alarm" "ev_queue d = ev_queue t" using door_in_alarm [OF t(1)] t(1) by (simp_all add: d_def)
  have "idle_alarm (protocol_handle_events env d)"
    using t(2) d handle_char_event [OF _ d(1)] handle_reset [OF d(1) _ assms(2)] handle_nil [of d env]
    unfolding idle_alarm_def by metis
  moreover have "realtime_character env c s = (let u = protocol_handle_events env d
      in if mode u \<in> {Cycle, Hold, SafetyDoor, Homing, Jog} then m_do [PrepBuffer] u else u)"
    by (simp add: realtime_character_def protocol_exec_rt_system_def t_def d_def Let_def)
  ultimately show ?thesis by (simp add: idle_alarm_def Let_def)
qed

definition realtime_characters :: "(menv \<times> u8) list \<Rightarrow> mach \<Rightarrow> mach" where
  "realtime_characters cs s = foldl (\<lambda>t (env, c). realtime_character env c t) s cs"

text \<open>
  C28. No sequence of realtime command characters unlocks an alarm: resets, cycle starts, holds,
  stops, doors, jog cancels, macro keys, overrides and codes without a meaning, each handled at
  a checkpoint of its own, leave a machine that is in alarm, with no event pending, in alarm
  with every event handled. No limit switch is active at the restarts (it would make the stop
  critical instead). Lines are not realtime characters and can unlock ($X); of a macro
  key only the event is handled here, the line it names is executed later as a line.
\<close>

theorem no_realtime_character_unlocks:
  assumes "mode s = Alarm" "ev_queue s = []"
    and "list_all (\<lambda>(env, c). is_realtime_command c \<and> \<not> limits_startup env) cs"
  shows "mode (realtime_characters cs s) = Alarm \<and> ev_queue (realtime_characters cs s) = []"
proof -
  have "list_all (\<lambda>(env, c). is_realtime_command c \<and> \<not> limits_startup env) cs \<Longrightarrow> idle_alarm t
      \<Longrightarrow> idle_alarm (realtime_characters cs t)" for t
    by (induction cs arbitrary: t) (auto simp: realtime_characters_def character_keeps_alarm)
  then show ?thesis using assms by (auto simp: idle_alarm_def)
qed

theorem no_realtime_character_unlocks_witness:
  "mode (realtime_characters [(ex_menv, 0x18), (ex_menv, 0x7E), (ex_menv, 0x9F), (ex_menv, 0x84)] ex_mach) = Alarm"
  using no_realtime_character_unlocks [of ex_mach "[(ex_menv, 0x18), (ex_menv, 0x7E), (ex_menv, 0x9F), (ex_menv, 0x84)]"]
  by (simp add: ex_mach_def ex_menv_def is_realtime_command_def)

end
