(* ===== verification/Expression.thy ===== *)
theory Expression
  imports Complex_Main Prelude MachineTypes CNumbers Flowcontrol
begin

text \<open>
  FluidNC/src/Expression.cpp, with \<open>read_number\<close> and \<open>get_param_ref\<close> of Parameters.cpp and
  \<open>read_float\<close> of NutsBolts.cpp, which call each other: the evaluator of the expressions of
  a G-code line. The arithmetic of \<open>float\<close> is a record of operations, so that what is proved
  holds for single precision with its roundings, infinities and NaN. A position in the line
  is the rest of the line, and the NUL at its end is the empty list.
\<close>

section \<open>Single-precision arithmetic\<close>

text \<open>
  The operations of C on \<open>float\<close> and the functions of math.h the sources call. \<open>f_lit\<close> is the
  value of a literal or of an integer; \<open>f_deg\<close> and \<open>f_rad\<close> multiply by \<open>DEGRAD\<close> and
  \<open>RADDEG\<close>; \<open>f_int\<close> and \<open>f_lround\<close> convert to int. Where the code computes in double there is an
  operation for it: \<open>f_lt_d\<close>, \<open>f_ge_d\<close>, \<open>f_gt_d\<close> compare with a double literal,
  \<open>f_gt_mul_d x d y\<close> is \<open>x > d * y\<close>, and \<open>f_chord x y\<close> is \<open>- sqrt(x) / y\<close>.
\<close>

record 'v arith =
  f_lit :: "rat \<Rightarrow> 'v"
  f_add :: "'v \<Rightarrow> 'v \<Rightarrow> 'v"
  f_sub :: "'v \<Rightarrow> 'v \<Rightarrow> 'v"
  f_mul :: "'v \<Rightarrow> 'v \<Rightarrow> 'v"
  f_div :: "'v \<Rightarrow> 'v \<Rightarrow> 'v"
  f_neg :: "'v \<Rightarrow> 'v"
  f_eq :: "'v \<Rightarrow> 'v \<Rightarrow> bool"
  f_less :: "'v \<Rightarrow> 'v \<Rightarrow> bool"
  f_le :: "'v \<Rightarrow> 'v \<Rightarrow> bool"
  f_int :: "'v \<Rightarrow> int"
  f_lround :: "'v \<Rightarrow> int"
  f_lt_d :: "'v \<Rightarrow> rat \<Rightarrow> bool"
  f_ge_d :: "'v \<Rightarrow> rat \<Rightarrow> bool"
  f_gt_d :: "'v \<Rightarrow> rat \<Rightarrow> bool"
  f_gt_mul_d :: "'v \<Rightarrow> rat \<Rightarrow> 'v \<Rightarrow> bool"
  f_chord :: "'v \<Rightarrow> 'v \<Rightarrow> 'v"
  truncf :: "'v \<Rightarrow> 'v"
  fmodf :: "'v \<Rightarrow> 'v \<Rightarrow> 'v"
  fabsf :: "'v \<Rightarrow> 'v"
  floorf :: "'v \<Rightarrow> 'v"
  ceilf :: "'v \<Rightarrow> 'v"
  powf :: "'v \<Rightarrow> 'v \<Rightarrow> 'v"
  sqrtf :: "'v \<Rightarrow> 'v"
  expf :: "'v \<Rightarrow> 'v"
  logf :: "'v \<Rightarrow> 'v"
  sinf :: "'v \<Rightarrow> 'v"
  cosf :: "'v \<Rightarrow> 'v"
  tanf :: "'v \<Rightarrow> 'v"
  asinf :: "'v \<Rightarrow> 'v"
  acosf :: "'v \<Rightarrow> 'v"
  atan2f :: "'v \<Rightarrow> 'v \<Rightarrow> 'v"
  f_deg :: "'v \<Rightarrow> 'v"
  f_rad :: "'v \<Rightarrow> 'v"

definition f_bool :: "'v arith \<Rightarrow> bool \<Rightarrow> 'v" where
  "f_bool ar b = f_lit ar (if b then 1 else 0)"

text \<open>A value is taken as true when it differs from zero.\<close>

definition f_zero :: "'v arith \<Rightarrow> 'v \<Rightarrow> bool" where
  "f_zero ar v = f_eq ar v (f_lit ar 0)"

section \<open>Number literals\<close>

text \<open>\<open>uint_to_float\<close>: the two loops that apply the decimal exponent.\<close>

function scale_down :: "'v arith \<Rightarrow> 'v \<Rightarrow> int \<Rightarrow> 'v" where
  "scale_down ar fval ex =
     (if ex \<le> -2 then scale_down ar (f_mul ar fval (f_lit ar (1 / 100))) (ex + 2)
      else if ex < 0 then f_mul ar fval (f_lit ar (1 / 10)) else fval)"
  by auto
termination by (relation "measure (\<lambda>(ar, v, e). nat (- e))") auto

declare scale_down.simps [simp del]

primrec scale_up :: "'v arith \<Rightarrow> 'v \<Rightarrow> nat \<Rightarrow> 'v" where
  "scale_up ar fval 0 = fval"
| "scale_up ar fval (Suc n) = scale_up ar (f_mul ar fval (f_lit ar 10)) n"

definition uint_to_float :: "'v arith \<Rightarrow> nat \<Rightarrow> int \<Rightarrow> 'v" where
  "uint_to_float ar intval ex =
     (let fval = f_lit ar (of_nat intval) in
      if f_zero ar fval then fval
      else if ex \<le> 0 then scale_down ar fval ex
      else scale_up ar fval (nat ex))"

definition MAX_INT_DIGITS :: nat where
  "MAX_INT_DIGITS = 8"

text \<open>
  The loop over the characters of a number. The exponent is an \<open>int8_t\<close>; the integer has at
  most eight digits, so that its 32 bits do not overflow.
\<close>

fun float_loop :: "nat \<Rightarrow> u8 \<Rightarrow> nat \<Rightarrow> bool \<Rightarrow> string \<Rightarrow> nat \<times> u8 \<times> nat \<times> string" where
  "float_loop intval ex ndigit isdecimal [] = (intval, ex, ndigit, [])"
| "float_loop intval ex ndigit isdecimal (c # cs) =
     (if is_dec c then
        (if ndigit + 1 \<le> MAX_INT_DIGITS
         then float_loop (intval * 10 + (byte c - 48)) (if isdecimal then ex - 1 else ex)
                (ndigit + 1) isdecimal cs
         else float_loop intval (if isdecimal then ex else ex + 1) (ndigit + 1) isdecimal cs)
      else if c = CHR ''.'' \<and> \<not> isdecimal then float_loop intval ex ndigit True cs
      else (intval, ex, ndigit, c # cs))"

text \<open>
  What reading yields: a value and the rest of the line, or an error. A function of the
  source that returns false is a failure with \<open>BadNumberFormat\<close>, which is what its callers
  return. \<open>Stuck\<close> is running out of the fuel that bounds the recursion below.
\<close>

datatype 'a parsed = Stuck | Fail error_code | Read 'a string

primrec pbind :: "'a parsed \<Rightarrow> ('a \<Rightarrow> string \<Rightarrow> 'b parsed) \<Rightarrow> 'b parsed" where
  "pbind Stuck k = Stuck"
| "pbind (Fail e) k = Fail e"
| "pbind (Read v r) k = k v r"

text \<open>A status tested with \<open>!= Ok\<close> by a function that returns false.\<close>

primrec as_bool :: "'a parsed \<Rightarrow> 'a parsed" where
  "as_bool Stuck = Stuck"
| "as_bool (Fail e) = Fail Error_BadNumberFormat"
| "as_bool (Read v r) = Read v r"

definition read_float :: "'v arith \<Rightarrow> string \<Rightarrow> 'v parsed" where
  "read_float ar s =
     (let (isnegative, p) = read_sign s;
          (intval, ex, ndigit, rest) = float_loop 0 0 0 False p
      in if ndigit = 0 then Fail Error_BadNumberFormat
         else let fval = uint_to_float ar intval (sint ex)
              in Read (if isnegative then f_neg ar fval else fval) rest)"

section \<open>Operations\<close>

datatype ngc_binary_op =
    Binary_DividedBy | Binary_Modulo | Binary_Power | Binary_Times | Binary_And2
  | Binary_ExclusiveOR | Binary_Minus | Binary_NotExclusiveOR | Binary_Plus
  | Binary_RightBracket | Binary_LT | Binary_EQ | Binary_NE | Binary_LE | Binary_GE | Binary_GT

datatype ngc_unary_op =
    Unary_ABS | Unary_ACOS | Unary_ASIN | Unary_ATAN | Unary_COS | Unary_EXP | Unary_FIX
  | Unary_FUP | Unary_LN | Unary_Round | Unary_SIN | Unary_SQRT | Unary_TAN | Unary_Exists

definition execute_binary1 :: "'v arith \<Rightarrow> 'v \<Rightarrow> ngc_binary_op \<Rightarrow> 'v \<Rightarrow> error_code + 'v" where
  "execute_binary1 ar lhs oper rhs =
     (case oper of
        Binary_DividedBy \<Rightarrow>
          if f_zero ar rhs \<or> f_eq ar rhs (f_neg ar (f_lit ar 0)) then Inl Error_ExpressionDivideByZero
          else Inr (f_div ar lhs rhs)
      | Binary_Modulo \<Rightarrow>
          let m = fmodf ar lhs rhs
          in Inr (if f_less ar m (f_lit ar 0) then f_add ar m (fabsf ar rhs) else m)
      | Binary_Power \<Rightarrow>
          if f_less ar lhs (f_lit ar 0) \<and> \<not> f_eq ar (floorf ar rhs) rhs
          then Inl Error_ExpressionInvalidArgument
          else Inr (powf ar lhs rhs)
      | Binary_Times \<Rightarrow> Inr (f_mul ar lhs rhs)
      | _ \<Rightarrow> Inl Error_ExpressionUnknownOp)"

definition abs_diff :: "'v arith \<Rightarrow> 'v \<Rightarrow> 'v \<Rightarrow> 'v" where
  "abs_diff ar lhs rhs =
     (let diff = f_sub ar lhs rhs in if f_less ar diff (f_lit ar 0) then f_neg ar diff else diff)"

definition TOLERANCE_EQUAL :: rat where
  "TOLERANCE_EQUAL = 1 / 100000"

definition execute_binary2 :: "'v arith \<Rightarrow> 'v \<Rightarrow> ngc_binary_op \<Rightarrow> 'v \<Rightarrow> error_code + 'v" where
  "execute_binary2 ar lhs oper rhs =
     (let l0 = f_zero ar lhs; r0 = f_zero ar rhs in
      case oper of
        Binary_And2 \<Rightarrow> Inr (f_bool ar (\<not> (l0 \<or> r0)))
      | Binary_ExclusiveOR \<Rightarrow> Inr (f_bool ar ((l0 \<and> \<not> r0) \<or> (\<not> l0 \<and> r0)))
      | Binary_Minus \<Rightarrow> Inr (f_sub ar lhs rhs)
      | Binary_NotExclusiveOR \<Rightarrow> Inr (f_bool ar (\<not> l0 \<or> \<not> r0))
      | Binary_Plus \<Rightarrow> Inr (f_add ar lhs rhs)
      | Binary_LT \<Rightarrow> Inr (f_bool ar (f_less ar lhs rhs))
      | Binary_EQ \<Rightarrow> Inr (f_bool ar (f_lt_d ar (abs_diff ar lhs rhs) TOLERANCE_EQUAL))
      | Binary_NE \<Rightarrow> Inr (f_bool ar (f_ge_d ar (abs_diff ar lhs rhs) TOLERANCE_EQUAL))
      | Binary_LE \<Rightarrow> Inr (f_bool ar (f_le ar lhs rhs))
      | Binary_GE \<Rightarrow> Inr (f_bool ar (f_le ar rhs lhs))
      | Binary_GT \<Rightarrow> Inr (f_bool ar (f_less ar rhs lhs))
      | _ \<Rightarrow> Inl Error_ExpressionUnknownOp)"

text \<open>The enumerators up to \<open>Binary_Binary2\<close> are the first four.\<close>

definition execute_binary :: "'v arith \<Rightarrow> 'v \<Rightarrow> ngc_binary_op \<Rightarrow> 'v \<Rightarrow> error_code + 'v" where
  "execute_binary ar lhs oper rhs =
     (if oper \<in> {Binary_DividedBy, Binary_Modulo, Binary_Power, Binary_Times}
      then execute_binary1 ar lhs oper rhs
      else execute_binary2 ar lhs oper rhs)"

text \<open>ATAN has its second argument read by its caller, and is no oper here.\<close>

definition execute_unary :: "'v arith \<Rightarrow> 'v \<Rightarrow> ngc_unary_op \<Rightarrow> error_code + 'v" where
  "execute_unary ar operand oper =
     (let less = f_less ar; zero = f_lit ar 0 in
      case oper of
        Unary_ABS \<Rightarrow> Inr (if less operand zero then f_mul ar (f_lit ar (-1)) operand else operand)
      | Unary_ACOS \<Rightarrow>
          if less operand (f_lit ar (-1)) \<or> less (f_lit ar 1) operand
          then Inl Error_ExpressionArgumentOutOfRange else Inr (f_deg ar (acosf ar operand))
      | Unary_ASIN \<Rightarrow>
          if less operand (f_lit ar (-1)) \<or> less (f_lit ar 1) operand
          then Inl Error_ExpressionArgumentOutOfRange else Inr (f_deg ar (asinf ar operand))
      | Unary_COS \<Rightarrow> Inr (cosf ar (f_rad ar operand))
      | Unary_Exists \<Rightarrow> Inr operand
      | Unary_EXP \<Rightarrow> Inr (expf ar operand)
      | Unary_FIX \<Rightarrow> Inr (floorf ar operand)
      | Unary_FUP \<Rightarrow> Inr (ceilf ar operand)
      | Unary_LN \<Rightarrow>
          if f_le ar operand zero then Inl Error_ExpressionArgumentOutOfRange
          else Inr (logf ar operand)
      | Unary_Round \<Rightarrow>
          Inr (f_lit ar (of_int (f_int ar (f_add ar operand
                (if less operand zero then f_lit ar (- 1 / 2) else f_lit ar (1 / 2))))))
      | Unary_SIN \<Rightarrow> Inr (sinf ar (f_rad ar operand))
      | Unary_SQRT \<Rightarrow>
          if less operand zero then Inl Error_ExpressionArgumentOutOfRange
          else Inr (sqrtf ar operand)
      | Unary_TAN \<Rightarrow> Inr (tanf ar (f_rad ar operand))
      | Unary_ATAN \<Rightarrow> Inl Error_ExpressionUnknownOp)"

fun precedence :: "ngc_binary_op \<Rightarrow> nat" where
  "precedence Binary_RightBracket = 1"
| "precedence Binary_And2 = 2"
| "precedence Binary_ExclusiveOR = 2"
| "precedence Binary_NotExclusiveOR = 2"
| "precedence Binary_LT = 3"
| "precedence Binary_EQ = 3"
| "precedence Binary_NE = 3"
| "precedence Binary_LE = 3"
| "precedence Binary_GE = 3"
| "precedence Binary_GT = 3"
| "precedence Binary_Minus = 4"
| "precedence Binary_Plus = 4"
| "precedence Binary_DividedBy = 5"
| "precedence Binary_Modulo = 5"
| "precedence Binary_Times = 5"
| "precedence Binary_Power = 6"

section \<open>Names of operations\<close>

text \<open>\<open>strncmp(line + pos, name, n)\<close> with the position moved behind a match.\<close>

definition eat :: "string \<Rightarrow> string \<Rightarrow> string option" where
  "eat name s = (if take (length name) s = name then Some (drop (length name) s) else None)"

text \<open>The first of the spellings that the line continues with.\<close>

fun pick :: "(string \<times> 'o) list \<Rightarrow> string \<Rightarrow> 'o parsed" where
  "pick [] s = Fail Error_ExpressionUnknownOp"
| "pick ((name, oper) # alts) s =
     (case eat name s of Some r \<Rightarrow> Read oper r | None \<Rightarrow> pick alts s)"

definition read_operation :: "string \<Rightarrow> ngc_binary_op parsed" where
  "read_operation line =
     (case line of
        [] \<Rightarrow> Fail Error_ExpressionUnknownOp
      | c # s \<Rightarrow>
          if c = CHR ''+'' then Read Binary_Plus s
          else if c = CHR ''-'' then Read Binary_Minus s
          else if c = CHR ''/'' then Read Binary_DividedBy s
          else if c = CHR ''*'' then pick [(''*'', Binary_Power), ([], Binary_Times)] s
          else if c = CHR '']'' then Read Binary_RightBracket s
          else if c = CHR ''A'' then pick [(''ND'', Binary_And2)] s
          else if c = CHR ''M'' then pick [(''OD'', Binary_Modulo)] s
          else if c = CHR ''O'' then pick [(''R'', Binary_NotExclusiveOR)] s
          else if c = CHR ''X'' then pick [(''OR'', Binary_ExclusiveOR)] s
          else if c = CHR ''E'' then pick [(''Q'', Binary_EQ)] s
          else if c = CHR ''N'' then pick [(''E'', Binary_NE)] s
          else if c = CHR ''G'' then pick [(''E'', Binary_GE), (''T'', Binary_GT)] s
          else if c = CHR ''L'' then pick [(''E'', Binary_LE), (''T'', Binary_LT)] s
          else Fail Error_ExpressionUnknownOp)"

definition read_operation_unary :: "string \<Rightarrow> ngc_unary_op parsed" where
  "read_operation_unary line =
     (case line of
        [] \<Rightarrow> Fail Error_ExpressionUnknownOp
      | c # s \<Rightarrow>
          if c = CHR ''A'' then
            pick [(''BS'', Unary_ABS), (''COS'', Unary_ACOS), (''SIN'', Unary_ASIN), (''TAN'', Unary_ATAN)] s
          else if c = CHR ''C'' then pick [(''OS'', Unary_COS)] s
          else if c = CHR ''E'' then pick [(''XP'', Unary_EXP), (''XISTS'', Unary_Exists)] s
          else if c = CHR ''F'' then pick [(''IX'', Unary_FIX), (''UP'', Unary_FUP)] s
          else if c = CHR ''L'' then pick [(''N'', Unary_LN)] s
          else if c = CHR ''R'' then pick [(''OUND'', Unary_Round)] s
          else if c = CHR ''S'' then pick [(''IN'', Unary_SIN), (''QRT'', Unary_SQRT)] s
          else if c = CHR ''T'' then pick [(''AN'', Unary_TAN)] s
          else Fail Error_ExpressionUnknownOp)"

section \<open>The stack of pending operations\<close>

text \<open>
  The arrays \<open>values\<close> and \<open>operators\<close> below \<open>stack_index\<close>, top first. The inner loop of
  \<open>expression\<close> meets the operation \<open>(v, op)\<close> just read: it executes the pending operations
  of at least its precedence and pushes it.
\<close>

type_synonym 'v pending = "('v \<times> ngc_binary_op) list"

fun settle :: "'v arith \<Rightarrow> 'v pending \<Rightarrow> 'v \<Rightarrow> ngc_binary_op \<Rightarrow> error_code + 'v pending" where
  "settle ar [] v oper = Inr [(v, oper)]"
| "settle ar ((v0, op0) # st) v oper =
     (if precedence oper > precedence op0 then Inr ((v, oper) # (v0, op0) # st)
      else case execute_binary ar v0 op0 v of
             Inl e \<Rightarrow> Inl e
           | Inr w \<Rightarrow> settle ar st w oper)"

definition MAX_STACK :: nat where
  "MAX_STACK = 7"

section \<open>Expressions and parameter references\<close>

record param_ref =
  pr_name :: string
  pr_id :: int

text \<open>
  What an expression asks of the parameters: the value of one, and whether a named one
  exists. \<open>stale_id\<close> is what the uninitialised number of a \<open>param_ref_t\<close> holds.
\<close>

record 'v params_env =
  pe_get :: "param_ref \<Rightarrow> 'v option"
  pe_exists :: "string \<Rightarrow> bool"
  pe_stale_id :: int

definition ascii_upper :: "char \<Rightarrow> char" where
  "ascii_upper c = (if 97 \<le> byte c \<and> byte c \<le> 122 then char_of (byte c - 32) else c)"

definition get_value :: "'v params_env \<Rightarrow> param_ref \<Rightarrow> string \<Rightarrow> 'v parsed" where
  "get_value env pref rest =
     (case pe_get env pref of None \<Rightarrow> Fail Error_BadNumberFormat | Some v \<Rightarrow> Read v rest)"

definition numbered :: "int \<Rightarrow> param_ref" where
  "numbered i = \<lparr>pr_name = [], pr_id = i\<rparr>"

text \<open>The name of a named parameter: up to \<open>>\<close>, without blanks, in upper case.\<close>

definition read_name :: "'v params_env \<Rightarrow> string \<Rightarrow> param_ref parsed" where
  "read_name env s =
     (let body = takeWhile (\<lambda>c. c \<noteq> CHR ''>'') s; r = dropWhile (\<lambda>c. c \<noteq> CHR ''>'') s in
      if r = [] then Fail Error_BadNumberFormat
      else Read \<lparr>pr_name = map ascii_upper (filter (\<lambda>c. \<not> c_space c) body), pr_id = pe_stale_id env\<rparr> (tl r))"

definition read_exists :: "'v arith \<Rightarrow> 'v params_env \<Rightarrow> string \<Rightarrow> 'v parsed" where
  "read_exists ar env s =
     (let arg = takeWhile (\<lambda>c. c \<noteq> CHR '']'') s; r = dropWhile (\<lambda>c. c \<noteq> CHR '']'') s in
      if r = [] then Fail Error_ExpressionSyntaxError
      else Read (f_bool ar (pe_exists env arg)) (tl r))"

definition of_sum :: "error_code + 'v \<Rightarrow> string \<Rightarrow> 'v parsed" where
  "of_sum x r = (case x of Inl e \<Rightarrow> Fail e | Inr v \<Rightarrow> Read v r)"


text \<open>
  The functions of the source call each other. Each one is defined here over the record of
  the functions it calls; \<open>calls_at n\<close> ties them together with \<open>n\<close> as the bound of the depth
  of the calls. Three for each character suffice (see \<open>enough_fuel\<close>). \<open>expr_loop\<close> is the outer
  loop of \<open>expression\<close> with its stack.
\<close>

record 'v calls =
  c_expression :: "string \<Rightarrow> 'v parsed"
  c_loop :: "'v pending \<Rightarrow> string \<Rightarrow> 'v parsed"
  c_number :: "string \<Rightarrow> bool \<Rightarrow> 'v parsed"
  c_ref :: "string \<Rightarrow> param_ref parsed"

definition starts :: "char \<Rightarrow> string \<Rightarrow> bool" where
  "starts c s \<longleftrightarrow> s \<noteq> [] \<and> hd s = c"

definition expression :: "'v calls \<Rightarrow> string \<Rightarrow> 'v parsed" where
  "expression cs s =
     (if \<not> starts (CHR ''['') s then Fail Error_GcodeUnsupportedCommand
      else pbind (as_bool (c_number cs (tl s) True)) (\<lambda>v r.
           pbind (read_operation r) (\<lambda>oper r.
           c_loop cs [(v, oper)] r)))"

definition expr_loop :: "'v arith \<Rightarrow> 'v calls \<Rightarrow> 'v pending \<Rightarrow> string \<Rightarrow> 'v parsed" where
  "expr_loop ar cs st s =
     (if snd (last st) = Binary_RightBracket then Read (fst (last st)) s
      else pbind (as_bool (c_number cs s True)) (\<lambda>v r.
           pbind (read_operation r) (\<lambda>oper r.
           case settle ar st v oper of
             Inl e \<Rightarrow> Fail e
           | Inr st' \<Rightarrow> c_loop cs st' r)))"

definition read_atan :: "'v arith \<Rightarrow> 'v calls \<Rightarrow> 'v \<Rightarrow> string \<Rightarrow> 'v parsed" where
  "read_atan ar cs v s =
     (if \<not> starts (CHR ''/'') s then Fail Error_ExpressionSyntaxError
      else if \<not> starts (CHR ''['') (tl s) then Fail Error_ExpressionSyntaxError
      else pbind (c_expression cs (tl s)) (\<lambda>argument2 r.
        Read (f_deg ar (atan2f ar v argument2)) r))"

definition read_unary :: "'v arith \<Rightarrow> 'v params_env \<Rightarrow> 'v calls \<Rightarrow> string \<Rightarrow> 'v parsed" where
  "read_unary ar env cs s =
     pbind (read_operation_unary s) (\<lambda>oper r.
       if \<not> starts (CHR ''['') r then Fail Error_ExpressionSyntaxError
       else if oper = Unary_Exists then read_exists ar env (tl r)
       else pbind (c_expression cs r) (\<lambda>v r.
         if oper = Unary_ATAN then read_atan ar cs v r
         else of_sum (execute_unary ar v oper) r))"

definition read_number :: "'v arith \<Rightarrow> 'v params_env \<Rightarrow> 'v calls \<Rightarrow> string \<Rightarrow> bool \<Rightarrow> 'v parsed" where
  "read_number ar env cs s in_expression =
     (if starts (CHR ''#'') s then pbind (c_ref cs (tl s)) (get_value env)
      else if starts (CHR ''['') s then as_bool (c_expression cs s)
      else if in_expression \<and> s \<noteq> [] \<and> is_alpha (hd s) then as_bool (read_unary ar env cs s)
      else if in_expression \<and> starts (CHR ''-'') s then
        pbind (c_number cs (tl s) in_expression) (\<lambda>v r. Read (f_neg ar v) r)
      else if in_expression \<and> starts (CHR ''+'') s then c_number cs (tl s) in_expression
      else read_float ar s)"

definition get_param_ref :: "'v arith \<Rightarrow> 'v params_env \<Rightarrow> 'v calls \<Rightarrow> string \<Rightarrow> param_ref parsed" where
  "get_param_ref ar env cs s =
     (if starts (CHR ''#'') s then
        pbind (c_ref cs (tl s)) (\<lambda>next_ref r.
        pbind (get_value env next_ref r) (\<lambda>v r. Read (numbered (f_int ar v)) r))
      else if starts (CHR ''<'') s then read_name env (tl s)
      else if starts (CHR ''['') s then
        pbind (as_bool (c_expression cs s)) (\<lambda>v r. Read (numbered (f_int ar v)) r)
      else pbind (read_float ar s) (\<lambda>v r. Read (numbered (f_int ar v)) r))"

definition next_calls :: "'v arith \<Rightarrow> 'v params_env \<Rightarrow> 'v calls \<Rightarrow> 'v calls" where
  "next_calls ar env cs =
     \<lparr>c_expression = expression cs, c_loop = expr_loop ar cs, c_number = read_number ar env cs,
      c_ref = get_param_ref ar env cs\<rparr>"

primrec calls_at :: "'v arith \<Rightarrow> 'v params_env \<Rightarrow> nat \<Rightarrow> 'v calls" where
  "calls_at ar env 0 =
     \<lparr>c_expression = (\<lambda>s. Stuck), c_loop = (\<lambda>st s. Stuck), c_number = (\<lambda>s i. Stuck), c_ref = (\<lambda>s. Stuck)\<rparr>"
| "calls_at ar env (Suc n) = next_calls ar env (calls_at ar env n)"

declare calls_at.simps [simp del]

lemma calls_0 [simp]:
  "c_expression (calls_at ar env 0) s = Stuck" "c_loop (calls_at ar env 0) st s = Stuck"
  "c_number (calls_at ar env 0) s i = Stuck" "c_ref (calls_at ar env 0) s = Stuck"
  by (simp_all add: calls_at.simps)

lemma calls_Suc [simp]:
  "c_expression (calls_at ar env (Suc n)) = expression (calls_at ar env n)"
  "c_loop (calls_at ar env (Suc n)) = expr_loop ar (calls_at ar env n)"
  "c_number (calls_at ar env (Suc n)) = read_number ar env (calls_at ar env n)"
  "c_ref (calls_at ar env (Suc n)) = get_param_ref ar env (calls_at ar env n)"
  by (simp_all add: calls_at.simps next_calls_def)

text \<open>For the evaluation of examples.\<close>

lemma calls_numeral:
  "c_expression (calls_at ar env (numeral k)) = expression (calls_at ar env (pred_numeral k))"
  "c_loop (calls_at ar env (numeral k)) = expr_loop ar (calls_at ar env (pred_numeral k))"
  "c_number (calls_at ar env (numeral k)) = read_number ar env (calls_at ar env (pred_numeral k))"
  "c_ref (calls_at ar env (numeral k)) = get_param_ref ar env (calls_at ar env (pred_numeral k))"
  by (simp_all add: numeral_eq_Suc)

definition fuel_for :: "string \<Rightarrow> nat" where
  "fuel_for s = 3 * length s + 3"

text \<open>The functions as their callers see them.\<close>

definition all_calls :: "'v arith \<Rightarrow> 'v params_env \<Rightarrow> 'v calls" where
  "all_calls ar env =
     \<lparr>c_expression = (\<lambda>s. c_expression (calls_at ar env (fuel_for s)) s),
      c_loop = (\<lambda>st s. c_loop (calls_at ar env (fuel_for s)) st s),
      c_number = (\<lambda>s i. c_number (calls_at ar env (fuel_for s)) s i),
      c_ref = (\<lambda>s. c_ref (calls_at ar env (fuel_for s)) s)\<rparr>"

section \<open>An arithmetic for the examples\<close>

text \<open>
  Exact rationals. The functions of math.h with irrational values are placeholders here; no
  example calls them.
\<close>

definition exact :: "rat arith" where
  "exact =
     \<lparr>f_lit = (\<lambda>q. q), f_add = (+), f_sub = (-), f_mul = (*), f_div = (/), f_neg = uminus,
      f_eq = (=), f_less = (<), f_le = (\<le>), f_int = trunc_rat,
      f_lround = (\<lambda>x. if 0 \<le> x then \<lfloor>x + 1 / 2\<rfloor> else \<lceil>x - 1 / 2\<rceil>), f_lt_d = (<), f_ge_d = (\<ge>), f_gt_d = (>),
      f_gt_mul_d = (\<lambda>x d y. x > d * y), f_chord = (\<lambda>x y. - x / y), truncf = (\<lambda>x. of_int (trunc_rat x)),
      fmodf = (\<lambda>x y. x - of_int (trunc_rat (x / y)) * y), fabsf = abs,
      floorf = (\<lambda>x. of_int \<lfloor>x\<rfloor>), ceilf = (\<lambda>x. of_int \<lceil>x\<rceil>),
      powf = (\<lambda>x y. if 0 \<le> y then x ^ nat \<lfloor>y\<rfloor> else 1 / x ^ nat \<lfloor>- y\<rfloor>),
      sqrtf = id, expf = id, logf = id, sinf = id, cosf = id, tanf = id, asinf = id, acosf = id,
      atan2f = (\<lambda>x y. x), f_deg = id, f_rad = id\<rparr>"

definition no_params :: "rat params_env" where
  "no_params = \<lparr>pe_get = (\<lambda>p. None), pe_exists = (\<lambda>s. False), pe_stale_id = 0\<rparr>"


lemmas expression_eval =
  expression_def expr_loop_def read_number_def get_param_ref_def read_unary_def read_atan_def
  starts_def read_operation_def read_operation_unary_def eat_def of_sum_def as_bool.simps
  calls_numeral fuel_for_def

end
