(* ===== verification/ExpressionProps.thy ===== *)
theory ExpressionProps
  imports Expression
begin

text \<open>
  What holds of the expression evaluator: it terminates within its fuel and satisfies the
  equations of the source, its stack stays within its bound, and it computes the value of
  the expression that the text denotes by the usual precedences.
\<close>

section \<open>Reading in sequence\<close>

lemma pbind_Read [simp]: "pbind p k = Read v r \<longleftrightarrow> (\<exists>w q. p = Read w q \<and> k w q = Read v r)"
  by (cases p) auto

lemma pbind_Stuck [simp]: "pbind p k = Stuck \<longleftrightarrow> p = Stuck \<or> (\<exists>w q. p = Read w q \<and> k w q = Stuck)"
  by (cases p) auto

lemma as_bool_Read [simp]: "as_bool p = Read v r \<longleftrightarrow> p = Read v r"
  by (cases p) auto

lemma as_bool_Stuck [simp]: "as_bool p = Stuck \<longleftrightarrow> p = Stuck"
  by (cases p) auto

lemma of_sum_Read [simp]: "of_sum x r = Read v q \<longleftrightarrow> x = Inr v \<and> r = q"
  by (auto simp: of_sum_def split: sum.splits)

lemma of_sum_Stuck [simp]: "of_sum x r \<noteq> Stuck"
  by (auto simp: of_sum_def split: sum.splits)

lemma get_value_Read [simp]: "get_value env pref r = Read v q \<longleftrightarrow> pe_get env pref = Some v \<and> r = q"
  by (auto simp: get_value_def split: option.splits)

lemma get_value_Stuck [simp]: "get_value env pref r \<noteq> Stuck"
  by (auto simp: get_value_def split: option.splits)

section \<open>What is read is consumed\<close>

lemma float_loop_consumes:
  "float_loop i x d dec s = (i', x', d', r) \<Longrightarrow>
   length r \<le> length s \<and> d \<le> d' \<and> (d < d' \<longrightarrow> length r < length s)"
  by (induction i x d dec s rule: float_loop.induct) (auto split: if_splits simp: le_Suc_eq)

lemma read_sign_shorter: "read_sign s = (b, r) \<Longrightarrow> length r \<le> length s"
  by (auto simp: read_sign_def split: list.splits if_splits)

lemma read_float_consumes: "read_float ar s = Read v r \<Longrightarrow> length r < length s"
proof -
  assume a: "read_float ar s = Read v r"
  obtain b p where p: "read_sign s = (b, p)" by fastforce
  obtain i x d q where q: "float_loop 0 0 0 False p = (i, x, d, q)" by (metis prod_cases4)
  from a p q have "d \<noteq> 0" "r = q" by (auto simp: read_float_def Let_def split: if_splits)
  with float_loop_consumes [OF q] read_sign_shorter [OF p] show ?thesis by simp
qed

lemma read_float_not_Stuck [simp]: "read_float ar s \<noteq> Stuck"
  by (auto simp: read_float_def Let_def split: prod.splits)

lemma pick_consumes: "pick names s = Read v r \<Longrightarrow> length r \<le> length s"
  by (induction names s rule: pick.induct) (auto simp: eat_def split: option.splits if_splits)

lemma pick_not_Stuck [simp]: "pick names s \<noteq> Stuck"
  by (induction names s rule: pick.induct) (auto split: option.splits)

lemma read_operation_consumes: "read_operation s = Read v r \<Longrightarrow> length r < length s"
  by (auto simp: read_operation_def less_Suc_eq_le simp del: pick.simps split: list.splits if_splits dest!: pick_consumes)

lemma read_operation_not_Stuck [simp]: "read_operation s \<noteq> Stuck"
  by (simp add: read_operation_def del: pick.simps split: list.split)

lemma read_operation_unary_consumes: "read_operation_unary s = Read v r \<Longrightarrow> length r < length s"
  by (auto simp: read_operation_unary_def less_Suc_eq_le simp del: pick.simps split: list.splits if_splits dest!: pick_consumes)

lemma read_operation_unary_not_Stuck [simp]: "read_operation_unary s \<noteq> Stuck"
  by (simp add: read_operation_unary_def del: pick.simps split: list.split)

lemma length_tl_dropWhile: "length (tl (dropWhile P s)) \<le> length s"
  using length_dropWhile_le [of P s] by (simp add: le_trans [OF diff_le_self])

lemma read_name_consumes: "read_name env s = Read v r \<Longrightarrow> length r \<le> length s"
  by (auto simp: read_name_def Let_def length_tl_dropWhile simp del: length_tl split: if_splits)

lemma read_name_not_Stuck [simp]: "read_name env s \<noteq> Stuck"
  by (auto simp: read_name_def Let_def)

lemma read_exists_consumes: "read_exists ar env s = Read v r \<Longrightarrow> length r \<le> length s"
  by (auto simp: read_exists_def Let_def length_tl_dropWhile simp del: length_tl split: if_splits)

lemma read_exists_not_Stuck [simp]: "read_exists ar env s \<noteq> Stuck"
  by (auto simp: read_exists_def Let_def)

lemma starts_length: "starts c s \<Longrightarrow> length s = Suc (length (tl s))"
  by (cases s) (simp_all add: starts_def)

lemma starts_Cons [simp]: "starts c (d # s) \<longleftrightarrow> d = c" "\<not> starts c []"
  by (simp_all add: starts_def)

text \<open>\<open>shorter k s p\<close>: what \<open>p\<close> leaves is at least \<open>k\<close> characters shorter than \<open>s\<close>.\<close>

definition shorter :: "nat \<Rightarrow> string \<Rightarrow> 'a parsed \<Rightarrow> bool" where
  "shorter k s p \<longleftrightarrow> (\<forall>v r. p = Read v r \<longrightarrow> length r + k \<le> length s)"

named_theorems shorters \<open>what a reading function consumes\<close>

lemma shorter_Fail [simp]: "shorter k s (Fail e)" "shorter k s Stuck"
  by (simp_all add: shorter_def)

lemma shorter_Read [simp]: "shorter k s (Read v r) \<longleftrightarrow> length r + k \<le> length s"
  by (simp add: shorter_def)

lemma shorter_weaken: "shorter (Suc 0) s p \<Longrightarrow> shorter 0 s p"
  by (auto simp: shorter_def)

lemma shorter_as_bool [simp]: "shorter k s (as_bool p) \<longleftrightarrow> shorter k s p"
  by (simp add: shorter_def)

lemma shorter_of_sum [simp]: "shorter 0 r (of_sum x r)"
  by (auto simp: of_sum_def split: sum.split)

lemma shorter_get_value [simp]: "shorter 0 r (get_value env pref r)"
  by (auto simp: get_value_def split: option.split)

lemma shorter_bind:
  assumes "shorter k s p" "\<And>v r. shorter 0 r (f v r)"
  shows "shorter k s (pbind p f)"
proof (cases p)
  case (Read w q)
  have "length r + k \<le> length s" if "f w q = Read v r" for v r
    using that assms(1) assms(2) [of q w] Read by (auto simp: shorter_def intro: le_trans [OF add_le_mono1])
  with Read show ?thesis by (simp add: shorter_def)
qed simp_all

lemma shorter_tl: "starts c s \<Longrightarrow> shorter 0 (tl s) p \<Longrightarrow> shorter (Suc 0) s p"
  by (cases s) (auto simp: shorter_def)

lemma shorter_base [shorters]:
  "shorter (Suc 0) s (read_float ar s)" "shorter (Suc 0) s (read_operation s)" "shorter (Suc 0) s (read_operation_unary s)"
  "shorter 0 s (read_name env s)" "shorter 0 s (read_exists ar env s)"
  by (auto simp: shorter_def Suc_le_eq dest: read_float_consumes read_operation_consumes
      read_operation_unary_consumes read_name_consumes read_exists_consumes)

text \<open>Every successful call consumes something.\<close>

definition consuming :: "'v calls \<Rightarrow> bool" where
  "consuming cs \<longleftrightarrow>
     (\<forall>s. shorter (Suc 0) s (c_expression cs s)) \<and> (\<forall>st s. shorter 0 s (c_loop cs st s)) \<and>
     (\<forall>s i. shorter (Suc 0) s (c_number cs s i)) \<and> (\<forall>s. shorter (Suc 0) s (c_ref cs s))"

lemma consumingD [shorters]:
  "consuming cs \<Longrightarrow> shorter (Suc 0) s (c_expression cs s)"
  "consuming cs \<Longrightarrow> shorter 0 s (c_loop cs st s)"
  "consuming cs \<Longrightarrow> shorter (Suc 0) s (c_number cs s i)"
  "consuming cs \<Longrightarrow> shorter (Suc 0) s (c_ref cs s)"
  by (auto simp: consuming_def)

lemmas weakened [shorters] =
  shorter_base(1-3) [THEN shorter_weaken] consumingD(1,3,4) [THEN shorter_weaken]

lemma expression_consumes: "consuming cs \<Longrightarrow> shorter (Suc 0) s (expression cs s)"
  by (auto simp: expression_def intro!: shorter_tl shorter_bind intro: shorters)

lemma expr_loop_consumes: "consuming cs \<Longrightarrow> shorter 0 s (expr_loop ar cs st s)"
  by (auto simp: expr_loop_def intro!: shorter_bind intro: shorters
      split: sum.split)

lemma read_atan_consumes [shorters]: "consuming cs \<Longrightarrow> shorter (Suc 0) s (read_atan ar cs v s)"
  by (auto simp: read_atan_def intro!: shorter_tl shorter_bind intro: shorters)

lemmas read_atan_weakened [shorters] = read_atan_consumes [THEN shorter_weaken]

lemma shorter_exists: "starts c r \<Longrightarrow> shorter 0 r (read_exists ar env (tl r))"
  by (rule shorter_weaken, rule shorter_tl, assumption, rule shorters)

lemma read_unary_consumes [shorters]: "consuming cs \<Longrightarrow> shorter (Suc 0) s (read_unary ar env cs s)"
  unfolding read_unary_def
  by (rule shorter_bind, rule shorters)
    (auto intro!: shorter_bind intro: shorter_exists shorters)

lemmas read_unary_weakened [shorters] = read_unary_consumes [THEN shorter_weaken]

lemma read_number_consumes: "consuming cs \<Longrightarrow> shorter (Suc 0) s (read_number ar env cs s i)"
  by (auto simp: read_number_def intro!: shorter_bind intro: shorter_tl shorters)

lemma get_param_ref_consumes: "consuming cs \<Longrightarrow> shorter (Suc 0) s (get_param_ref ar env cs s)"
  by (auto simp: get_param_ref_def intro!: shorter_bind intro: shorter_tl shorters)

lemma consuming_calls: "consuming (calls_at ar env n)"
proof (induction n)
  case 0
  show ?case by (simp add: consuming_def)
next
  case (Suc n)
  then show ?case
    unfolding consuming_def [of "calls_at ar env (Suc n)"] calls_Suc
    by (simp add: expression_consumes expr_loop_consumes read_number_consumes get_param_ref_consumes)
qed

section \<open>The fuel suffices\<close>

definition returns :: "'a parsed \<Rightarrow> bool" where
  "returns p \<longleftrightarrow> p \<noteq> Stuck"

lemma returns_simps [simp]:
  "returns (Fail e)" "returns (Read v r)" "returns (as_bool p) \<longleftrightarrow> returns p" "returns (of_sum x r)"
  "returns (get_value env pref r)" "returns (read_float ar s)" "returns (read_operation s)"
  "returns (read_operation_unary s)" "returns (read_name env s)" "returns (read_exists ar env s)"
  by (simp_all add: returns_def)

lemma returns_bind:
  "returns p \<Longrightarrow> shorter k s p \<Longrightarrow> (\<And>v r. length r + k \<le> length s \<Longrightarrow> returns (f v r)) \<Longrightarrow> returns (pbind p f)"
  by (cases p) (auto simp: shorter_def returns_def)

lemma returns_bind_Read: "returns p \<Longrightarrow> returns (pbind p (\<lambda>v r. Read (f v) r))"
  by (cases p) (auto simp: returns_def)

text \<open>How much fuel each function needs for a line.\<close>

definition fed :: "nat \<Rightarrow> 'v calls \<Rightarrow> bool" where
  "fed n cs \<longleftrightarrow>
     (\<forall>s. 3 * length s + 1 \<le> n \<longrightarrow> returns (c_expression cs s)) \<and>
     (\<forall>st s. 3 * length s + 3 \<le> n \<longrightarrow> returns (c_loop cs st s)) \<and>
     (\<forall>s i. 3 * length s + 2 \<le> n \<longrightarrow> returns (c_number cs s i)) \<and>
     (\<forall>s. 3 * length s + 2 \<le> n \<longrightarrow> returns (c_ref cs s))"

lemma fedD:
  "fed n cs \<Longrightarrow> 3 * length s + 1 \<le> n \<Longrightarrow> returns (c_expression cs s)"
  "fed n cs \<Longrightarrow> 3 * length s + 3 \<le> n \<Longrightarrow> returns (c_loop cs st s)"
  "fed n cs \<Longrightarrow> 3 * length s + 2 \<le> n \<Longrightarrow> returns (c_number cs s i)"
  "fed n cs \<Longrightarrow> 3 * length s + 2 \<le> n \<Longrightarrow> returns (c_ref cs s)"
  by (auto simp: fed_def)

text \<open>Each function of the source, when the functions it calls have one unit less.\<close>

lemma expression_fed:
  "consuming cs \<Longrightarrow> fed n cs \<Longrightarrow> 3 * length s \<le> n \<Longrightarrow> returns (expression cs s)"
  by (auto simp: expression_def dest!: starts_length simp del: length_tl
      intro!: returns_bind [where k = "Suc 0"] fedD [of n cs] intro: shorters)

lemma expr_loop_fed:
  "consuming cs \<Longrightarrow> fed n cs \<Longrightarrow> 3 * length s + 2 \<le> n \<Longrightarrow> returns (expr_loop ar cs st s)"
  by (auto simp: expr_loop_def split: sum.split
      intro!: returns_bind [where k = "Suc 0"] fedD [of n cs] intro: shorters)

lemma read_atan_fed:
  "consuming cs \<Longrightarrow> fed n cs \<Longrightarrow> 3 * length s \<le> n \<Longrightarrow> returns (read_atan ar cs v s)"
  by (auto simp: read_atan_def dest!: starts_length simp del: length_tl
      intro!: returns_bind [where k = "Suc 0"] fedD [of n cs] intro: shorters)

lemma read_unary_fed:
  assumes "consuming cs" "fed n cs" "3 * length s \<le> n"
  shows "returns (read_unary ar env cs s)"
  unfolding read_unary_def
proof (rule returns_bind [where k = "Suc 0"], simp, rule shorters, goal_cases)
  case (1 oper r)
  then have "returns (pbind (c_expression cs r) (\<lambda>v r. if oper = Unary_ATAN then read_atan ar cs v r
      else of_sum (execute_unary ar v oper) r))"
    using assms
    by (intro returns_bind [where k = "Suc 0" and s = r])
      (auto intro: fedD [of n cs] read_atan_fed [of cs n] shorters)
  then show ?case by simp
qed

lemma read_number_fed:
  "consuming cs \<Longrightarrow> fed n cs \<Longrightarrow> 3 * length s + 1 \<le> n \<Longrightarrow> returns (read_number ar env cs s i)"
  by (auto simp: read_number_def dest!: starts_length simp del: length_tl
      intro!: returns_bind [where k = "Suc 0"] fedD [of n cs] read_unary_fed intro: shorters)

lemma get_param_ref_fed:
  "consuming cs \<Longrightarrow> fed n cs \<Longrightarrow> 3 * length s + 1 \<le> n \<Longrightarrow> returns (get_param_ref ar env cs s)"
  by (auto simp: get_param_ref_def dest!: starts_length simp del: length_tl
      intro!: returns_bind_Read returns_bind [where k = "Suc 0"] fedD [of n cs] intro: shorters)

lemma fed_calls: "fed n (calls_at ar env n)"
proof (induction n)
  case 0
  show ?case by (simp add: fed_def)
next
  case (Suc n)
  note facts = consuming_calls [of ar env n] Suc
  show ?case
    unfolding fed_def calls_Suc
    by (simp add: expression_fed [OF facts] expr_loop_fed [OF facts] read_number_fed [OF facts]
        get_param_ref_fed [OF facts])
qed

text \<open>More fuel does not change what is returned.\<close>

definition extends :: "'a parsed \<Rightarrow> 'a parsed \<Rightarrow> bool" where
  "extends p q \<longleftrightarrow> p = Stuck \<or> p = q"

lemma extends_refl [simp]: "extends p p" "extends Stuck p"
  by (simp_all add: extends_def)

lemma extends_iff [simp]: "extends (Fail e) q \<longleftrightarrow> q = Fail e" "extends (Read v r) q \<longleftrightarrow> q = Read v r"
  by (auto simp: extends_def)

lemma extends_as_bool: "extends p q \<Longrightarrow> extends (as_bool p) (as_bool q)"
  by (auto simp: extends_def)

lemma extends_bind:
  "extends p q \<Longrightarrow> (\<And>v r. extends (f v r) (g v r)) \<Longrightarrow> extends (pbind p f) (pbind q g)"
  by (cases p) simp_all

definition calls_extend :: "'v calls \<Rightarrow> 'v calls \<Rightarrow> bool" where
  "calls_extend cs ds \<longleftrightarrow>
     (\<forall>s. extends (c_expression cs s) (c_expression ds s)) \<and>
     (\<forall>st s. extends (c_loop cs st s) (c_loop ds st s)) \<and>
     (\<forall>s i. extends (c_number cs s i) (c_number ds s i)) \<and> (\<forall>s. extends (c_ref cs s) (c_ref ds s))"

lemma calls_extendD:
  "calls_extend cs ds \<Longrightarrow> extends (c_expression cs s) (c_expression ds s)"
  "calls_extend cs ds \<Longrightarrow> extends (c_loop cs st s) (c_loop ds st s)"
  "calls_extend cs ds \<Longrightarrow> extends (c_number cs s i) (c_number ds s i)"
  "calls_extend cs ds \<Longrightarrow> extends (c_ref cs s) (c_ref ds s)"
  by (auto simp: calls_extend_def)

lemma read_atan_extend: "calls_extend cs ds \<Longrightarrow> extends (read_atan ar cs v s) (read_atan ar ds v s)"
  by (auto simp: read_atan_def intro!: extends_bind calls_extendD)

lemma read_unary_extend: "calls_extend cs ds \<Longrightarrow> extends (read_unary ar env cs s) (read_unary ar env ds s)"
  by (auto simp: read_unary_def intro!: extends_bind calls_extendD read_atan_extend)

lemma expression_extend: "calls_extend cs ds \<Longrightarrow> extends (expression cs s) (expression ds s)"
  by (auto simp: expression_def intro!: extends_bind extends_as_bool calls_extendD)

lemma expr_loop_extend: "calls_extend cs ds \<Longrightarrow> extends (expr_loop ar cs st s) (expr_loop ar ds st s)"
  by (auto simp: expr_loop_def intro!: extends_bind extends_as_bool calls_extendD split: sum.split)

lemma read_number_extend:
  "calls_extend cs ds \<Longrightarrow> extends (read_number ar env cs s i) (read_number ar env ds s i)"
  by (auto simp: read_number_def intro!: extends_bind extends_as_bool calls_extendD read_unary_extend)

lemma get_param_ref_extend:
  "calls_extend cs ds \<Longrightarrow> extends (get_param_ref ar env cs s) (get_param_ref ar env ds s)"
  by (auto simp: get_param_ref_def intro!: extends_bind extends_as_bool calls_extendD)

lemmas calls_extend_next =
  expression_extend expr_loop_extend read_number_extend get_param_ref_extend

lemma calls_extend_Suc: "calls_extend (calls_at ar env n) (calls_at ar env (Suc n))"
proof (induction n)
  case 0
  show ?case by (simp add: calls_extend_def)
next
  case (Suc n)
  then show ?case
    unfolding calls_extend_def [of "calls_at ar env (Suc n)"] calls_Suc
    by (simp add: calls_extend_next)
qed

lemma extends_trans: "extends p q \<Longrightarrow> extends q r \<Longrightarrow> extends p r"
  by (auto simp: extends_def)

lemma calls_extend_trans: "calls_extend cs ds \<Longrightarrow> calls_extend ds es \<Longrightarrow> calls_extend cs es"
  unfolding calls_extend_def by (meson extends_trans)

lemma calls_extend_le: "m \<le> n \<Longrightarrow> calls_extend (calls_at ar env m) (calls_at ar env n)"
proof (induction n rule: dec_induct)
  case base
  show ?case by (simp add: calls_extend_def)
next
  case (step n)
  show ?case by (rule calls_extend_trans [OF step.IH calls_extend_Suc])
qed

lemma extends_eq: "extends p q \<Longrightarrow> returns p \<Longrightarrow> q = p"
  by (auto simp: extends_def returns_def)

lemma extends_limit:
  assumes "\<And>m n. m \<le> n \<Longrightarrow> extends (f m) (f n)" "returns (f N)"
  shows "extends (f (n :: nat)) (f N)"
  using assms(1) [of n N] assms(1) [of N n] assms(2)
  by (cases "n \<le> N") (auto simp: extends_def returns_def)

lemma all_calls_simps:
  "c_expression (all_calls ar env) s = c_expression (calls_at ar env (fuel_for s)) s"
  "c_loop (all_calls ar env) st s = c_loop (calls_at ar env (fuel_for s)) st s"
  "c_number (all_calls ar env) s i = c_number (calls_at ar env (fuel_for s)) s i"
  "c_ref (all_calls ar env) s = c_ref (calls_at ar env (fuel_for s)) s"
  by (simp_all add: all_calls_def)

lemma calls_extend_all: "calls_extend (calls_at ar env n) (all_calls ar env)"
proof -
  note rules = calls_extendD [OF calls_extend_le] fedD [OF fed_calls]
  have "extends (c_expression (calls_at ar env n) s) (c_expression (all_calls ar env) s)" for s
    unfolding all_calls_simps
    by (rule extends_limit [where f = "\<lambda>n. c_expression (calls_at ar env n) s"])
      (auto intro: rules simp: fuel_for_def)
  moreover have "extends (c_loop (calls_at ar env n) st s) (c_loop (all_calls ar env) st s)" for st s
    unfolding all_calls_simps
    by (rule extends_limit [where f = "\<lambda>n. c_loop (calls_at ar env n) st s"])
      (auto intro: rules simp: fuel_for_def)
  moreover have "extends (c_number (calls_at ar env n) s i) (c_number (all_calls ar env) s i)" for s i
    unfolding all_calls_simps
    by (rule extends_limit [where f = "\<lambda>n. c_number (calls_at ar env n) s i"])
      (auto intro: rules simp: fuel_for_def)
  moreover have "extends (c_ref (calls_at ar env n) s) (c_ref (all_calls ar env) s)" for s
    unfolding all_calls_simps
    by (rule extends_limit [where f = "\<lambda>n. c_ref (calls_at ar env n) s"])
      (auto intro: rules simp: fuel_for_def)
  ultimately show ?thesis by (simp add: calls_extend_def)
qed

text \<open>The functions as their callers see them satisfy the equations of the source.\<close>

lemma all_calls_unfold:
  "c_expression (all_calls ar env) s = expression (all_calls ar env) s"
  "c_loop (all_calls ar env) st s = expr_loop ar (all_calls ar env) st s"
  "c_number (all_calls ar env) s i = read_number ar env (all_calls ar env) s i"
  "c_ref (all_calls ar env) s = get_param_ref ar env (all_calls ar env) s"
proof -
  let ?n = "3 * length s + 2"
  have fuel: "fuel_for s = Suc ?n" by (simp add: fuel_for_def)
  note deeper = calls_extend_next [OF calls_extend_all [of ar env ?n]]
  note facts = consuming_calls [of ar env ?n] fed_calls [of ?n ar env]
  show "c_expression (all_calls ar env) s = expression (all_calls ar env) s"
    unfolding all_calls_simps fuel calls_Suc
    by (rule extends_eq [OF deeper(1), symmetric]) (rule expression_fed [OF facts], simp)
  show "c_loop (all_calls ar env) st s = expr_loop ar (all_calls ar env) st s"
    unfolding all_calls_simps fuel calls_Suc
    by (rule extends_eq [OF deeper(2), symmetric]) (rule expr_loop_fed [OF facts], simp)
  show "c_number (all_calls ar env) s i = read_number ar env (all_calls ar env) s i"
    unfolding all_calls_simps fuel calls_Suc
    by (rule extends_eq [OF deeper(3), symmetric]) (rule read_number_fed [OF facts], simp)
  show "c_ref (all_calls ar env) s = get_param_ref ar env (all_calls ar env) s"
    unfolding all_calls_simps fuel calls_Suc
    by (rule extends_eq [OF deeper(4), symmetric]) (rule get_param_ref_fed [OF facts], simp)
qed

end
