(* ===== verification/ExpressionValue.thy ===== *)
theory ExpressionValue
  imports ExpressionProps
begin

text \<open>
  The value of an expression against its grammar: a chain of operands and operations is
  evaluated at the last operation of the lowest precedence, and the text of an expression
  evaluates to the value of its syntax tree.
\<close>

section \<open>A chain of values\<close>

text \<open>The split at the last operation of the lowest precedence.\<close>

definition lowest :: "(ngc_binary_op \<times> 'v) list \<Rightarrow> nat" where
  "lowest xs = Min (set (map (precedence \<circ> fst) xs))"

definition above :: "nat \<Rightarrow> ngc_binary_op \<times> 'v \<Rightarrow> bool" where
  "above p x \<longleftrightarrow> p < precedence (fst x)"

definition split_lowest ::
    "(ngc_binary_op \<times> 'v) list \<Rightarrow> (ngc_binary_op \<times> 'v) list \<times> (ngc_binary_op \<times> 'v) list" where
  "split_lowest xs =
     (let p = lowest xs in
      (rev (dropWhile (above p) (rev xs)), rev (takeWhile (above p) (rev xs))))"

lemma lowest_le: "x \<in> set xs \<Longrightarrow> lowest xs \<le> precedence (fst x)"
  by (simp add: lowest_def)

lemma split_lowest:
  assumes "xs \<noteq> []"
  obtains ys oper w zs where
    "split_lowest xs = (ys @ [(oper, w)], zs)" "xs = ys @ (oper, w) # zs"
    "\<forall>x \<in> set ys. precedence oper \<le> precedence (fst x)"
    "\<forall>x \<in> set zs. precedence oper < precedence (fst x)"
proof -
  let ?P = "above (lowest xs)"
  have "lowest xs \<in> set (map (precedence \<circ> fst) xs)"
    unfolding lowest_def using assms by (intro Min_in) simp_all
  then obtain y where y: "y \<in> set xs" "\<not> ?P y" by (auto simp: above_def)
  then have "dropWhile ?P (rev xs) \<noteq> []" by (auto simp: dropWhile_eq_Nil_conv)
  then obtain x us where x: "dropWhile ?P (rev xs) = x # us" "\<not> ?P x"
    by (metis dropWhile_eq_Cons_conv neq_Nil_conv)
  obtain oper w where ow: "x = (oper, w)" by fastforce
  have "rev xs = takeWhile ?P (rev xs) @ x # us"
    using x(1) by (metis takeWhile_dropWhile_id)
  then have xs: "xs = rev us @ (oper, w) # rev (takeWhile ?P (rev xs))"
    using ow by (metis rev_append rev_rev_ident rev.simps(2) append.assoc append_Cons append_Nil)
  then have "x \<in> set xs" using ow by (metis in_set_conv_decomp)
  then have low: "lowest xs = precedence oper"
    using x(2) lowest_le [of x xs] ow by (simp add: above_def)
  have "\<forall>x \<in> set (rev us). precedence oper \<le> precedence (fst x)"
    using lowest_le xs low by (metis Un_iff set_append)
  moreover have "\<forall>x \<in> set (rev (takeWhile ?P (rev xs))). precedence oper < precedence (fst x)"
    using low by (auto simp: above_def dest: set_takeWhileD)
  moreover have "split_lowest xs = (rev us @ [(oper, w)], rev (takeWhile ?P (rev xs)))"
    using x(1) ow by (simp add: split_lowest_def Let_def)
  ultimately show ?thesis using that xs by blast
qed

lemma split_lowest_length:
  "(ys, zs) = split_lowest xs \<Longrightarrow> xs \<noteq> [] \<Longrightarrow> length ys - Suc 0 < length xs \<and> length zs < length xs"
  by (erule split_lowest) auto

text \<open>
  The value by the usual rules: the last operation of the lowest precedence is applied to
  the values of what stands left and right of it. The first error wins.
\<close>

function chain_value :: "'v arith \<Rightarrow> 'v \<Rightarrow> (ngc_binary_op \<times> 'v) list \<Rightarrow> error_code + 'v" where
  "chain_value ar v xs =
     (if xs = [] then Inr v
      else case split_lowest xs of (ys, zs) \<Rightarrow>
        case chain_value ar v (butlast ys) of
          Inl e \<Rightarrow> Inl e
        | Inr a \<Rightarrow>
            (case chain_value ar (snd (last ys)) zs of
               Inl e \<Rightarrow> Inl e
             | Inr b \<Rightarrow> execute_binary ar a (fst (last ys)) b))"
  by auto
termination
  by (relation "measure (\<lambda>(ar, v, xs). length xs)") (auto dest: split_lowest_length)

declare chain_value.simps [simp del]

lemma chain_value_Nil [simp]: "chain_value ar v [] = Inr v"
  by (simp add: chain_value.simps)

text \<open>The errors of two computations in a row.\<close>

definition sum_bind :: "error_code + 'a \<Rightarrow> ('a \<Rightarrow> error_code + 'b) \<Rightarrow> error_code + 'b" where
  "sum_bind x f = (case x of Inl e \<Rightarrow> Inl e | Inr a \<Rightarrow> f a)"

lemma sum_bind_simps [simp]: "sum_bind (Inl e) f = Inl e" "sum_bind (Inr a) f = f a"
  by (simp_all add: sum_bind_def)

lemma sum_bind_assoc: "sum_bind (sum_bind x f) g = sum_bind x (\<lambda>a. sum_bind (f a) g)"
  by (cases x) simp_all

lemma chain_value_split:
  "split_lowest xs = (ys @ [(oper, w)], zs) \<Longrightarrow> xs \<noteq> [] \<Longrightarrow>
   chain_value ar v xs =
     sum_bind (chain_value ar v ys) (\<lambda>a. sum_bind (chain_value ar w zs) (\<lambda>b. execute_binary ar a oper b))"
  by (subst chain_value.simps) (simp add: sum_bind_def split: sum.split)

section \<open>The stack computes it\<close>

text \<open>The loop of \<open>expression\<close> on values already read, up to the bracket.\<close>

fun run_chain :: "'v arith \<Rightarrow> 'v pending \<Rightarrow> 'v \<Rightarrow> (ngc_binary_op \<times> 'v) list \<Rightarrow> error_code + 'v pending" where
  "run_chain ar st v [] = settle ar st v Binary_RightBracket"
| "run_chain ar st v ((oper, w) # xs) = sum_bind (settle ar st v oper) (\<lambda>st'. run_chain ar st' w xs)"

definition next_prec :: "(ngc_binary_op \<times> 'v) list \<Rightarrow> nat" where
  "next_prec xs = (case xs of [] \<Rightarrow> 1 | x # _ \<Rightarrow> precedence (fst x))"

definition top_prec :: "'v pending \<Rightarrow> nat" where
  "top_prec st = (case st of [] \<Rightarrow> 0 | x # _ \<Rightarrow> precedence (snd x))"

lemma precedence_pos: "1 \<le> precedence oper"
  by (cases oper) simp_all

lemma run_chain_push:
  "top_prec st < precedence oper \<Longrightarrow> run_chain ar st v ((oper, w) # xs) = run_chain ar ((v, oper) # st) w xs"
  by (cases st) (auto simp: top_prec_def)

lemma run_chain_execute:
  "next_prec xs \<le> precedence oper \<Longrightarrow>
   run_chain ar ((a, oper) # st) b xs = sum_bind (execute_binary ar a oper b) (\<lambda>c. run_chain ar st c xs)"
  by (cases xs) (auto simp: next_prec_def sum_bind_def split: sum.split)

lemma run_chain_segment:
  assumes "\<forall>x \<in> set xs. top_prec st < precedence (fst x)"
    and "\<forall>x \<in> set xs. next_prec zs \<le> precedence (fst x)"
  shows "run_chain ar st v (xs @ zs) = sum_bind (chain_value ar v xs) (\<lambda>a. run_chain ar st a zs)"
  using assms
proof (induction "length xs" arbitrary: xs zs v st rule: less_induct)
  case less
  show ?case
  proof (cases "xs = []")
    case False
    obtain ys oper w us where s: "split_lowest xs = (ys @ [(oper, w)], us)" "xs = ys @ (oper, w) # us"
      "\<forall>x \<in> set ys. precedence oper \<le> precedence (fst x)"
      "\<forall>x \<in> set us. precedence oper < precedence (fst x)"
      using split_lowest [OF False] .
    have left: "run_chain ar st v (ys @ ((oper, w) # us @ zs)) =
        sum_bind (chain_value ar v ys) (\<lambda>a. run_chain ar st a ((oper, w) # us @ zs))"
      using s less.prems by (intro less.hyps) (auto simp: next_prec_def)
    have push: "run_chain ar st a ((oper, w) # us @ zs) = run_chain ar ((a, oper) # st) w (us @ zs)" for a
      using s less.prems by (intro run_chain_push) auto
    have right: "run_chain ar ((a, oper) # st) w (us @ zs) =
        sum_bind (chain_value ar w us) (\<lambda>b. run_chain ar ((a, oper) # st) b zs)" for a
      using s less.prems by (intro less.hyps) (auto simp: top_prec_def)
    have exec: "run_chain ar ((a, oper) # st) b zs =
        sum_bind (execute_binary ar a oper b) (\<lambda>c. run_chain ar st c zs)" for a b
      using s less.prems by (intro run_chain_execute) auto
    show ?thesis
      using left unfolding s(2) [symmetric]
      by (simp add: s(2) left push right exec chain_value_split [OF s(1) False, unfolded s(2)] sum_bind_assoc
          del: run_chain.simps)
  qed simp
qed

theorem run_chain_value:
  "run_chain ar [] v xs = sum_bind (chain_value ar v xs) (\<lambda>a. Inr [(a, Binary_RightBracket)])"
  using run_chain_segment [of xs "[]" "[]" ar v] precedence_pos
  by (simp add: top_prec_def next_prec_def Suc_le_eq)

section \<open>The bound of the stack\<close>

text \<open>The pending operations have strictly increasing precedences.\<close>

definition rising :: "'v pending \<Rightarrow> bool" where
  "rising st \<longleftrightarrow> sorted_wrt (\<lambda>x y. precedence (snd y) < precedence (snd x)) st"

lemma settle_rising: "settle ar st v oper = Inr st' \<Longrightarrow> rising st \<Longrightarrow> rising st' \<and> st' \<noteq> []"
proof (induction ar st v oper rule: settle.induct)
  case (2 ar v0 op0 st v oper)
  then show ?case
    by (fastforce simp: rising_def split: if_splits sum.splits intro: less_trans)
qed (auto simp: rising_def)

lemma precedence_le: "precedence oper \<le> 6"
  by (cases oper) simp_all

lemma rising_length:
  assumes "rising st" shows "length st \<le> 6"
proof -
  have "sorted_wrt (<) (map (precedence \<circ> snd) (rev st))"
    using assms by (simp add: rising_def sorted_wrt_map sorted_wrt_rev)
  then have d: "distinct (map (precedence \<circ> snd) (rev st))" by (simp add: strict_sorted_iff)
  have "set (map (precedence \<circ> snd) (rev st)) \<subseteq> {1..6}"
    using precedence_pos precedence_le by auto
  then have "card (set (map (precedence \<circ> snd) (rev st))) \<le> card {1..6 :: nat}"
    by (intro card_mono) simp_all
  then show ?thesis using distinct_card [OF d] by simp
qed

text \<open>The stacks the loop of \<open>expression\<close> runs through.\<close>

inductive stack_reached :: "'v arith \<Rightarrow> 'v pending \<Rightarrow> bool" for ar where
  stack_first: "stack_reached ar [(v, oper)]"
| stack_next: "stack_reached ar st \<Longrightarrow> settle ar st v oper = Inr st' \<Longrightarrow> stack_reached ar st'"

lemma stack_reached_rising: "stack_reached ar st \<Longrightarrow> rising st \<and> st \<noteq> []"
  by (induction rule: stack_reached.induct) (auto simp: rising_def dest: settle_rising [unfolded rising_def])

text \<open> C25. The operator and value arrays of the expression evaluator never overflow: in
  every state of its loop, whatever the expression, the index where it stores the next value
  and operation is within the bound \<open>MAX_STACK\<close>.\<close>

theorem expression_stack_bounded: "stack_reached ar st \<Longrightarrow> length st < MAX_STACK"
  using stack_reached_rising [of ar st] rising_length [of st] by (simp add: MAX_STACK_def)

theorem expression_stack_bounded_witness:
  "length [(4 :: rat, Binary_Power), (3, Binary_Times), (2, Binary_Plus), (1, Binary_EQ), (0, Binary_And2)] < MAX_STACK"
proof (rule expression_stack_bounded)
  have "stack_reached exact [(0, Binary_And2)]" by (rule stack_first)
  then have "stack_reached exact [(1, Binary_EQ), (0, Binary_And2)]"
    by (rule stack_next [where v = 1 and oper = Binary_EQ]) simp
  then have "stack_reached exact [(2, Binary_Plus), (1, Binary_EQ), (0, Binary_And2)]"
    by (rule stack_next [where v = 2 and oper = Binary_Plus]) simp
  then have "stack_reached exact [(3, Binary_Times), (2, Binary_Plus), (1, Binary_EQ), (0, Binary_And2)]"
    by (rule stack_next [where v = 3 and oper = Binary_Times]) simp
  then show "stack_reached exact
      [(4, Binary_Power), (3, Binary_Times), (2, Binary_Plus), (1, Binary_EQ), (0, Binary_And2)]"
    by (rule stack_next [where v = 4 and oper = Binary_Power]) simp
qed

section \<open>Syntax trees and their text\<close>

text \<open>
  Operands, references to parameters, and chains of operands, as the evaluator can read
  them: a number has no sign (a sign is an operation of its own), a name has no bracket.
\<close>

datatype operand =
    Lit string | Hash pref | Paren chain | Neg operand | Pos operand
  | Fn ngc_unary_op chain | Atan chain chain | Exists string
and pref = NumRef string | NameRef string | IndRef pref | ExprRef chain
and chain = One operand | Seq operand ngc_binary_op chain

fun op_name :: "ngc_binary_op \<Rightarrow> string" where
  "op_name Binary_DividedBy = ''/''" | "op_name Binary_Modulo = ''MOD''"
| "op_name Binary_Power = ''**''" | "op_name Binary_Times = ''*''"
| "op_name Binary_And2 = ''AND''" | "op_name Binary_ExclusiveOR = ''XOR''"
| "op_name Binary_Minus = ''-''" | "op_name Binary_NotExclusiveOR = ''OR''"
| "op_name Binary_Plus = ''+''" | "op_name Binary_RightBracket = '']''"
| "op_name Binary_LT = ''LT''" | "op_name Binary_EQ = ''EQ''" | "op_name Binary_NE = ''NE''"
| "op_name Binary_LE = ''LE''" | "op_name Binary_GE = ''GE''" | "op_name Binary_GT = ''GT''"

fun fn_name :: "ngc_unary_op \<Rightarrow> string" where
  "fn_name Unary_ABS = ''ABS''" | "fn_name Unary_ACOS = ''ACOS''" | "fn_name Unary_ASIN = ''ASIN''"
| "fn_name Unary_ATAN = ''ATAN''" | "fn_name Unary_COS = ''COS''" | "fn_name Unary_EXP = ''EXP''"
| "fn_name Unary_FIX = ''FIX''" | "fn_name Unary_FUP = ''FUP''" | "fn_name Unary_LN = ''LN''"
| "fn_name Unary_Round = ''ROUND''" | "fn_name Unary_SIN = ''SIN''" | "fn_name Unary_SQRT = ''SQRT''"
| "fn_name Unary_TAN = ''TAN''" | "fn_name Unary_Exists = ''EXISTS''"

primrec show_operand :: "operand \<Rightarrow> string"
  and show_pref :: "pref \<Rightarrow> string"
  and show_chain :: "chain \<Rightarrow> string" where
  "show_operand (Lit t) = t"
| "show_operand (Hash p) = CHR ''#'' # show_pref p"
| "show_operand (Paren c) = CHR ''['' # show_chain c"
| "show_operand (Neg x) = CHR ''-'' # show_operand x"
| "show_operand (Pos x) = CHR ''+'' # show_operand x"
| "show_operand (Fn f c) = fn_name f @ CHR ''['' # show_chain c"
| "show_operand (Atan c d) = ''ATAN['' @ show_chain c @ ''/['' @ show_chain d"
| "show_operand (Exists t) = ''EXISTS['' @ t @ '']''"
| "show_pref (NumRef t) = t"
| "show_pref (NameRef t) = CHR ''<'' # t @ ''>''"
| "show_pref (IndRef p) = CHR ''#'' # show_pref p"
| "show_pref (ExprRef c) = CHR ''['' # show_chain c"
| "show_chain (One x) = show_operand x @ '']''"
| "show_chain (Seq x oper c) = show_operand x @ op_name oper @ show_chain c"

definition digit_or_dot :: "char \<Rightarrow> bool" where
  "digit_or_dot c \<longleftrightarrow> is_dec c \<or> c = CHR ''.''"

primrec wf_operand :: "operand \<Rightarrow> bool"
  and wf_pref :: "pref \<Rightarrow> bool"
  and wf_chain :: "chain \<Rightarrow> bool" where
  "wf_operand (Lit t) \<longleftrightarrow> t \<noteq> [] \<and> digit_or_dot (hd t)"
| "wf_operand (Hash p) \<longleftrightarrow> wf_pref p"
| "wf_operand (Paren c) \<longleftrightarrow> wf_chain c"
| "wf_operand (Neg x) \<longleftrightarrow> wf_operand x"
| "wf_operand (Pos x) \<longleftrightarrow> wf_operand x"
| "wf_operand (Fn f c) \<longleftrightarrow> f \<noteq> Unary_ATAN \<and> f \<noteq> Unary_Exists \<and> wf_chain c"
| "wf_operand (Atan c d) \<longleftrightarrow> wf_chain c \<and> wf_chain d"
| "wf_operand (Exists t) \<longleftrightarrow> CHR '']'' \<notin> set t"
| "wf_pref (NumRef t) \<longleftrightarrow> t \<noteq> [] \<and> (digit_or_dot (hd t) \<or> hd t = CHR ''-'' \<or> hd t = CHR ''+'')"
| "wf_pref (NameRef t) \<longleftrightarrow> CHR ''>'' \<notin> set t"
| "wf_pref (IndRef p) \<longleftrightarrow> wf_pref p"
| "wf_pref (ExprRef c) \<longleftrightarrow> wf_chain c"
| "wf_chain (One x) \<longleftrightarrow> wf_operand x"
| "wf_chain (Seq x oper c) \<longleftrightarrow> wf_operand x \<and> oper \<noteq> Binary_RightBracket \<and> wf_chain c"

section \<open>What they denote\<close>

definition literal_value :: "'v arith \<Rightarrow> string \<Rightarrow> 'v option" where
  "literal_value ar t = (case read_float ar t of Read v [] \<Rightarrow> Some v | _ \<Rightarrow> None)"

definition the_right :: "'e + 'a \<Rightarrow> 'a option" where
  "the_right x = (case x of Inl e \<Rightarrow> None | Inr a \<Rightarrow> Some a)"

text \<open>
  \<open>items c\<close> are the values of the operands of a chain, if they all have one; then
  \<open>chain_value\<close> is its value or its error.
\<close>

definition value_of_items :: "'v arith \<Rightarrow> ('v \<times> (ngc_binary_op \<times> 'v) list) option \<Rightarrow> 'v option" where
  "value_of_items ar it =
     (case it of None \<Rightarrow> None | Some (v, xs) \<Rightarrow> the_right (chain_value ar v xs))"

primrec den_operand :: "'v arith \<Rightarrow> 'v params_env \<Rightarrow> operand \<Rightarrow> 'v option"
  and den_pref :: "'v arith \<Rightarrow> 'v params_env \<Rightarrow> pref \<Rightarrow> param_ref option"
  and items :: "'v arith \<Rightarrow> 'v params_env \<Rightarrow> chain \<Rightarrow> ('v \<times> (ngc_binary_op \<times> 'v) list) option" where
  "den_operand ar env (Lit t) = literal_value ar t"
| "den_operand ar env (Hash p) = Option.bind (den_pref ar env p) (pe_get env)"
| "den_operand ar env (Paren c) = value_of_items ar (items ar env c)"
| "den_operand ar env (Neg x) = map_option (f_neg ar) (den_operand ar env x)"
| "den_operand ar env (Pos x) = den_operand ar env x"
| "den_operand ar env (Fn f c) =
     Option.bind (value_of_items ar (items ar env c)) (\<lambda>v. the_right (execute_unary ar v f))"
| "den_operand ar env (Atan c d) =
     Option.bind (value_of_items ar (items ar env c)) (\<lambda>v.
       map_option (\<lambda>w. f_deg ar (atan2f ar v w)) (value_of_items ar (items ar env d)))"
| "den_operand ar env (Exists t) = Some (f_bool ar (pe_exists env t))"
| "den_pref ar env (NumRef t) = map_option (\<lambda>v. numbered (f_int ar v)) (literal_value ar t)"
| "den_pref ar env (NameRef t) =
     Some \<lparr>pr_name = map ascii_upper (filter (\<lambda>c. \<not> c_space c) t), pr_id = pe_stale_id env\<rparr>"
| "den_pref ar env (IndRef p) =
     map_option (\<lambda>v. numbered (f_int ar v)) (Option.bind (den_pref ar env p) (pe_get env))"
| "den_pref ar env (ExprRef c) = map_option (\<lambda>v. numbered (f_int ar v)) (value_of_items ar (items ar env c))"
| "items ar env (One x) = map_option (\<lambda>v. (v, [])) (den_operand ar env x)"
| "items ar env (Seq x oper c) =
     Option.bind (den_operand ar env x) (\<lambda>v. map_option (\<lambda>(w, xs). (v, (oper, w) # xs)) (items ar env c))"

section \<open>Reading the text back\<close>

text \<open>What may follow a number.\<close>

definition stops :: "string \<Rightarrow> bool" where
  "stops r \<longleftrightarrow> r = [] \<or> \<not> digit_or_dot (hd r)"

lemma stops_Cons [simp]: "stops (c # r) \<longleftrightarrow> \<not> digit_or_dot c"
  by (simp add: stops_def)

lemma float_loop_append:
  "float_loop i x d dec t = (i', x', d', []) \<Longrightarrow> stops r \<Longrightarrow> float_loop i x d dec (t @ r) = (i', x', d', r)"
proof (induction i x d dec t rule: float_loop.induct)
  case (1 i x d dec)
  then show ?case by (cases r) (auto simp: stops_def digit_or_dot_def)
qed (auto split: if_splits)

lemma float_loop_all: "float_loop i x d dec t = (i', x', d', []) \<Longrightarrow> t \<noteq> [] \<Longrightarrow> digit_or_dot (hd t)"
  by (cases t) (auto simp: digit_or_dot_def split: if_splits)

lemma read_float_append:
  assumes "literal_value ar t = Some v" "t \<noteq> []" "stops r"
  shows "read_float ar (t @ r) = Read v r"
proof -
  from assms(1) have rd: "read_float ar t = Read v []"
    by (auto simp: literal_value_def split: parsed.splits list.splits)
  obtain b p where p: "read_sign t = (b, p)" by fastforce
  obtain i x d q where q: "float_loop 0 0 0 False p = (i, x, d, q)" by (metis prod_cases4)
  have "read_sign (t @ r) = (b, p @ r)"
    using p assms(2) by (cases t) (auto simp: read_sign_def split: if_splits)
  moreover have "q = []" using rd p q by (auto simp: read_float_def Let_def split: if_splits)
  with float_loop_append [of 0 0 0 False p i x d r] q assms(3)
  have "float_loop 0 0 0 False (p @ r) = (i, x, d, r)" by simp
  ultimately show ?thesis using rd p q by (auto simp: read_float_def Let_def split: if_splits)
qed

lemma operation_start:
  "\<exists>c t. op_name oper = c # t \<and> \<not> digit_or_dot c"
  by (cases oper) (simp_all add: digit_or_dot_def is_dec_def)

lemma stops_operation [simp]: "stops (op_name oper @ r)"
  using operation_start [of oper] by auto

text \<open>The first character of an operand.\<close>

lemma operand_start: "wf_operand x \<Longrightarrow> \<exists>c t. show_operand x = c # t \<and> c \<noteq> CHR ''*''"
proof (cases x)
  case (Lit t)
  then show "wf_operand x \<Longrightarrow> ?thesis" by (cases t) (auto simp: digit_or_dot_def is_dec_def)
next
  case (Fn f c)
  then show ?thesis by (cases f) auto
qed auto

lemma chain_start: "wf_chain c \<Longrightarrow> \<exists>d t. show_chain c = d # t \<and> d \<noteq> CHR ''*''"
  using operand_start by (cases c) fastforce+

lemma read_operation_name:
  "oper = Binary_Times \<longrightarrow> \<not> starts (CHR ''*'') r \<Longrightarrow> read_operation (op_name oper @ r) = Read oper r"
  by (cases oper; cases r) (auto simp: read_operation_def eat_def)

lemma read_operation_bracket [simp]: "read_operation (CHR '']'' # r) = Read Binary_RightBracket r"
  by (simp add: read_operation_def)

lemma read_operation_chain:
  "wf_chain c \<Longrightarrow> read_operation (op_name oper @ show_chain c @ r) = Read oper (show_chain c @ r)"
  using chain_start [of c] by (intro read_operation_name) auto

lemma read_operation_unary_name: "read_operation_unary (fn_name f @ CHR ''['' # r) = Read f (CHR ''['' # r)"
  by (cases f) (simp_all add: read_operation_unary_def eat_def)

lemma fn_start: "\<exists>c t. fn_name f = c # t \<and> is_alpha c \<and> c \<noteq> CHR ''#'' \<and> c \<noteq> CHR ''[''"
  by (cases f) (simp_all add: is_alpha_def)

lemma takeWhile_name: "d \<notin> set t \<Longrightarrow> takeWhile (\<lambda>c. c \<noteq> d) (t @ d # r) = t \<and> dropWhile (\<lambda>c. c \<noteq> d) (t @ d # r) = d # r"
  by (induction t) auto

text \<open>The stacks between two operands: no bracket is pending.\<close>

definition open_stack :: "'v pending \<Rightarrow> bool" where
  "open_stack st \<longleftrightarrow> (\<forall>x \<in> set st. snd x \<noteq> Binary_RightBracket)"

lemma settle_open:
  "settle ar st v oper = Inr st' \<Longrightarrow> open_stack st \<Longrightarrow> oper \<noteq> Binary_RightBracket \<Longrightarrow> open_stack st' \<and> st' \<noteq> []"
  by (induction ar st v oper rule: settle.induct) (auto simp: open_stack_def split: if_splits sum.splits)

lemma open_last: "open_stack st \<Longrightarrow> st \<noteq> [] \<Longrightarrow> snd (last st) \<noteq> Binary_RightBracket"
  by (simp add: open_stack_def)

lemma settle_bracket: "settle ar st v Binary_RightBracket = Inr st' \<Longrightarrow> \<exists>w. st' = [(w, Binary_RightBracket)]"
proof (induction ar st v "Binary_RightBracket" rule: settle.induct)
  case (2 ar v0 op0 st v)
  then show ?case using precedence_pos [of op0] by (auto split: if_splits sum.splits)
qed auto

text \<open>Reading an operand and an operation with a stack of pending operations.\<close>

definition scan :: "'v arith \<Rightarrow> 'v calls \<Rightarrow> 'v pending \<Rightarrow> string \<Rightarrow> 'v parsed" where
  "scan ar cs st s =
     pbind (as_bool (c_number cs s True)) (\<lambda>v r.
     pbind (read_operation r) (\<lambda>oper r.
     case settle ar st v oper of Inl e \<Rightarrow> Fail e | Inr st' \<Rightarrow> c_loop cs st' r))"

lemma expression_scan:
  "c_expression (all_calls ar env) (CHR ''['' # s) = scan ar (all_calls ar env) [] s"
  by (simp add: all_calls_unfold(1) expression_def scan_def)

lemma loop_scan:
  "open_stack st \<Longrightarrow> st \<noteq> [] \<Longrightarrow> c_loop (all_calls ar env) st s = scan ar (all_calls ar env) st s"
  by (simp add: all_calls_unfold(2) expr_loop_def scan_def open_last)

lemma loop_bracket: "c_loop (all_calls ar env) [(w, Binary_RightBracket)] s = Read w s"
  by (simp add: all_calls_unfold(2) expr_loop_def)

definition run_value :: "'v arith \<Rightarrow> 'v pending \<Rightarrow> 'v \<Rightarrow> (ngc_binary_op \<times> 'v) list \<Rightarrow> error_code + 'v" where
  "run_value ar st v xs = sum_bind (run_chain ar st v xs) (\<lambda>st'. Inr (fst (last st')))"

lemma run_value_empty: "run_value ar [] v xs = chain_value ar v xs"
  by (cases "chain_value ar v xs") (simp_all add: run_value_def run_chain_value)

lemma of_sum_simps [simp]: "of_sum (Inl e) r = Fail e" "of_sum (Inr v) r = Read v r"
  by (simp_all add: of_sum_def)

lemma scan_last:
  assumes "c_number (all_calls ar env) s True = Read v (CHR '']'' # r)"
  shows "scan ar (all_calls ar env) st s = of_sum (run_value ar st v []) r"
  using settle_bracket [of ar st v]
  by (cases "settle ar st v Binary_RightBracket") (auto simp: scan_def assms run_value_def loop_bracket)

lemma scan_more:
  assumes "c_number (all_calls ar env) s True = Read v (op_name oper @ show_chain c @ r)"
    and "wf_chain c" "oper \<noteq> Binary_RightBracket" "open_stack st"
    and "\<And>st. open_stack st \<Longrightarrow>
      scan ar (all_calls ar env) st (show_chain c @ r) = of_sum (run_value ar st w xs) r"
  shows "scan ar (all_calls ar env) st s = of_sum (run_value ar st v ((oper, w) # xs)) r"
proof (cases "settle ar st v oper")
  case (Inl e)
  then show ?thesis by (simp add: scan_def assms(1) read_operation_chain [OF assms(2)] run_value_def)
next
  case (Inr st')
  from settle_open [OF this assms(4,3)] have st': "open_stack st'" "st' \<noteq> []" by auto
  have "scan ar (all_calls ar env) st s = c_loop (all_calls ar env) st' (show_chain c @ r)"
    by (simp add: scan_def assms(1) read_operation_chain [OF assms(2)] Inr)
  also have "\<dots> = of_sum (run_value ar st' w xs) r"
    by (simp add: loop_scan [OF st'] assms(5) [OF st'(1)])
  finally show ?thesis by (simp add: run_value_def Inr)
qed

lemma expression_from_scan:
  assumes "\<And>st. open_stack st \<Longrightarrow> scan ar (all_calls ar env) st s = of_sum (run_value ar st v xs) r"
  shows "c_expression (all_calls ar env) (CHR ''['' # s) = of_sum (chain_value ar v xs) r"
  using assms [of "[]"] by (simp add: expression_scan run_value_empty open_stack_def)

lemma value_of_items_Some:
  "value_of_items ar it = Some w \<longleftrightarrow> (\<exists>v xs. it = Some (v, xs) \<and> chain_value ar v xs = Inr w)"
  by (auto simp: value_of_items_def the_right_def split: option.splits sum.splits)

lemma the_right_Some [simp]: "the_right x = Some a \<longleftrightarrow> x = Inr a"
  by (auto simp: the_right_def split: sum.splits)

text \<open>
  By induction on the syntax tree: operands, references and chains are read back, whatever
  follows.
\<close>

lemma read_back:
  fixes ar :: "'v arith" and env :: "'v params_env"
  shows
  "\<lbrakk>wf_operand x; den_operand ar env x = Some v; stops r\<rbrakk> \<Longrightarrow>
     c_number (all_calls ar env) (show_operand x @ r) True = Read v r"
  "\<lbrakk>wf_pref p; den_pref ar env p = Some pr; stops r\<rbrakk> \<Longrightarrow>
     c_ref (all_calls ar env) (show_pref p @ r) = Read pr r"
  "\<lbrakk>wf_chain c; items ar env c = Some (v, xs); open_stack st\<rbrakk> \<Longrightarrow>
     scan ar (all_calls ar env) st (show_chain c @ r) = of_sum (run_value ar st v xs) r"
proof (induction x and p and c arbitrary: v r and pr r and v xs st r)
  case (Lit t)
  then obtain d u where t: "t = d # u" "digit_or_dot d" by (cases t) auto
  then have "d \<noteq> CHR ''#''" "d \<noteq> CHR ''[''" "\<not> is_alpha d" "d \<noteq> CHR ''-''" "d \<noteq> CHR ''+''"
    by (auto simp: digit_or_dot_def is_dec_def is_alpha_def)
  then show ?case
    using read_float_append [of ar t v r] Lit t by (simp add: all_calls_unfold(3) read_number_def)
next
  case (Hash p)
  then show ?case
    by (auto simp: all_calls_unfold(3) read_number_def get_value_def bind_eq_Some_conv)
next
  case (Paren c)
  then obtain w xs where i: "items ar env c = Some (w, xs)" "chain_value ar w xs = Inr v"
    by (auto simp: value_of_items_Some)
  have "c_expression (all_calls ar env) (CHR ''['' # show_chain c @ r) = of_sum (chain_value ar w xs) r"
    by (rule expression_from_scan) (rule Paren.IH, use Paren.prems i in auto)
  then show ?case by (simp add: all_calls_unfold(3) read_number_def i)
next
  case (Neg x)
  then show ?case by (auto simp: all_calls_unfold(3) [of _ _ "CHR ''-'' # _"] read_number_def is_alpha_def)
next
  case (Pos x)
  then show ?case by (auto simp: all_calls_unfold(3) [of _ _ "CHR ''+'' # _"] read_number_def is_alpha_def)
next
  case (Fn f c)
  then obtain u w xs where i: "items ar env c = Some (w, xs)" "chain_value ar w xs = Inr u"
    "execute_unary ar u f = Inr v"
    by (auto simp: value_of_items_Some bind_eq_Some_conv)
  have e: "c_expression (all_calls ar env) (CHR ''['' # show_chain c @ r) = of_sum (chain_value ar w xs) r"
    by (rule expression_from_scan) (rule Fn.IH, use Fn.prems i in auto)
  have "read_unary ar env (all_calls ar env) (fn_name f @ CHR ''['' # show_chain c @ r) = Read v r"
    using Fn.prems(1) by (simp add: read_unary_def read_operation_unary_name e i)
  moreover obtain a t where "fn_name f = a # t" "is_alpha a" "a \<noteq> CHR ''#''" "a \<noteq> CHR ''[''"
    using fn_start [of f] by auto
  ultimately show ?case by (simp add: all_calls_unfold(3) [of _ _ "a # _"] read_number_def)
next
  case (Atan c d)
  then obtain a b w xs z ys where i: "items ar env c = Some (w, xs)" "chain_value ar w xs = Inr a"
    "items ar env d = Some (z, ys)" "chain_value ar z ys = Inr b" "v = f_deg ar (atan2f ar a b)"
    by (auto simp: value_of_items_Some bind_eq_Some_conv)
  have e: "c_expression (all_calls ar env) (CHR ''['' # show_chain c @ q) = of_sum (chain_value ar w xs) q" for q
    by (rule expression_from_scan) (rule Atan.IH(1), use Atan.prems i in auto)
  have f: "c_expression (all_calls ar env) (CHR ''['' # show_chain d @ r) = of_sum (chain_value ar z ys) r"
    by (rule expression_from_scan) (rule Atan.IH(2), use Atan.prems i in auto)
  have "read_unary ar env (all_calls ar env) (fn_name Unary_ATAN @ CHR ''['' # show_chain c @ ''/['' @ show_chain d @ r)
      = Read v r"
    by (simp only: read_unary_def read_operation_unary_name) (simp add: e f i read_atan_def)
  then show ?case by (simp add: all_calls_unfold(3) read_number_def is_alpha_def)
next
  case (Exists t)
  then have "read_unary ar env (all_calls ar env) (fn_name Unary_Exists @ CHR ''['' # t @ '']'' @ r) = Read v r"
    using takeWhile_name [of "CHR '']''" t r]
    by (simp only: read_unary_def read_operation_unary_name) (simp add: read_exists_def)
  then show ?case by (simp add: all_calls_unfold(3) read_number_def is_alpha_def)
next
  case (NumRef t)
  then obtain w where w: "literal_value ar t = Some w" "pr = numbered (f_int ar w)" by auto
  obtain d u where t: "t = d # u" "digit_or_dot d \<or> d = CHR ''-'' \<or> d = CHR ''+''"
    using NumRef.prems by (cases t) auto
  then have "d \<noteq> CHR ''#''" "d \<noteq> CHR ''<''" "d \<noteq> CHR ''[''"
    by (auto simp: digit_or_dot_def is_dec_def)
  then show ?case
    using read_float_append [of ar t w r] w t NumRef.prems by (simp add: all_calls_unfold(4) get_param_ref_def)
next
  case (NameRef t)
  then show ?case
    using takeWhile_name [of "CHR ''>''" t r] by (simp add: all_calls_unfold(4) get_param_ref_def read_name_def)
next
  case (IndRef p)
  then obtain a w where a: "den_pref ar env p = Some a" "pe_get env a = Some w" "pr = numbered (f_int ar w)"
    by (auto simp: bind_eq_Some_conv)
  have "c_ref (all_calls ar env) (show_pref p @ r) = Read a r"
    by (rule IndRef.IH) (use IndRef.prems a in auto)
  with a show ?case by (simp add: all_calls_unfold(4) [of _ _ "CHR ''#'' # _"] get_param_ref_def get_value_def)
next
  case (ExprRef c)
  then obtain w xs u where i: "items ar env c = Some (w, xs)" "chain_value ar w xs = Inr u"
    "pr = numbered (f_int ar u)"
    by (auto simp: value_of_items_Some)
  have "c_expression (all_calls ar env) (CHR ''['' # show_chain c @ r) = of_sum (chain_value ar w xs) r"
    by (rule expression_from_scan) (rule ExprRef.IH, use ExprRef.prems i in auto)
  then show ?case by (simp add: all_calls_unfold(4) get_param_ref_def i)
next
  case (One x)
  then have "c_number (all_calls ar env) (show_operand x @ CHR '']'' # r) True = Read v (CHR '']'' # r)"
    by (intro One.IH) (auto simp: digit_or_dot_def is_dec_def)
  with One show ?case by (auto intro: scan_last)
next
  case (Seq x oper c)
  then obtain w ys where i: "items ar env c = Some (w, ys)" "xs = (oper, w) # ys" "den_operand ar env x = Some v"
    by (auto simp: bind_eq_Some_conv)
  have n: "c_number (all_calls ar env) (show_operand x @ op_name oper @ show_chain c @ r) True
      = Read v (op_name oper @ show_chain c @ r)"
    by (rule Seq.IH(1)) (use Seq.prems i in auto)
  show ?case
    unfolding i(2) show_chain.simps append_assoc
    by (rule scan_more [OF n]) (use Seq.prems Seq.IH(2) i in auto)
qed

section \<open>The theorems\<close>

text \<open> C15. An expression in brackets evaluates to what its text means: the text of any chain
  of operands and operations, nested brackets, functions and parameters included, whose
  operands have a value, yields the value by the precedences of the operations, or the first
  error of the operations, and the rest of the line is left.\<close>

theorem expression_means:
  "wf_chain c \<Longrightarrow> items ar env c = Some (v, xs) \<Longrightarrow>
   c_expression (all_calls ar env) (CHR ''['' # show_chain c @ r) = of_sum (chain_value ar v xs) r"
  by (rule expression_from_scan) (rule read_back(3))

definition ex_chain :: chain where
  "ex_chain = Seq (Lit ''1'') Binary_Plus (Seq (Lit ''2.5'') Binary_Times
     (One (Paren (Seq (Lit ''3'') Binary_Minus (One (Fn Unary_ABS (One (Neg (Lit ''1'')))))))))"

lemma ex_chain_facts:
  "wf_chain ex_chain" "show_chain ex_chain = ''1+2.5*[3-ABS[-1]]]''"
  "items exact no_params ex_chain = Some (1, [(Binary_Plus, 5 / 2), (Binary_Times, 2)])"
  "chain_value exact 1 [(Binary_Plus, 5 / 2), (Binary_Times, 2)] = Inr 6"
  by code_simp+

theorem expression_means_witness:
  "c_expression (all_calls exact no_params) ''[1+2.5*[3-ABS[-1]]]X7'' = Read 6 ''X7''"
  using expression_means [OF ex_chain_facts(1,3), of "''X7''"] by (simp add: ex_chain_facts(2,4))

text \<open> C24. Evaluation ends: with the fuel of three calls for each character, and any more,
  the functions return, and what they return does not depend on the fuel.\<close>

theorem evaluation_ends:
  "c_number (all_calls ar env) s i \<noteq> Stuck \<and> c_expression (all_calls ar env) s \<noteq> Stuck
   \<and> c_number (calls_at ar env (fuel_for s + k)) s i = c_number (all_calls ar env) s i
   \<and> c_expression (calls_at ar env (fuel_for s + k)) s = c_expression (all_calls ar env) s"
proof -
  have n: "returns (c_number (calls_at ar env (fuel_for s + k)) s i)" for k
    by (rule fedD [OF fed_calls]) (simp add: fuel_for_def)
  have e: "returns (c_expression (calls_at ar env (fuel_for s + k)) s)" for k
    by (rule fedD [OF fed_calls]) (simp add: fuel_for_def)
  show ?thesis
    using n [of 0] e [of 0] extends_eq [OF calls_extendD(3) [OF calls_extend_all] n [of k]]
      extends_eq [OF calls_extendD(1) [OF calls_extend_all] e [of k]]
    by (simp add: returns_def all_calls_simps)
qed

end
