(* ===== verification/GCodeTypes.thy ===== *)
theory GCodeTypes
  imports Complex_Main MachineTypes
begin

text \<open>
  FluidNC/src/GCode.h: the modes of the G-code interpreter, its state and the block it is
  parsing. A float is a rational, on which the operations of an arithmetic act; the
  enumerations of the code are datatypes, with their numbers where the code reads them. An
  array over the axes is a function of the axis.
\<close>

section \<open>Modes\<close>

datatype override_mode = Override_ParkingMotion | Override_Disabled

datatype modal_group =
    MG0 | MG1 | MG2 | MG3 | MG4 | MG5 | MG6 | MG7 | MG8 | MG12 | MG13
  | MM4 | MM5 | MM6 | MM7 | MM8 | MM9 | MM10

datatype non_modal =
    NonModal_NoAction | NonModal_Dwell | NonModal_SetCoordinateData | NonModal_GoHome0
  | NonModal_SetHome0 | NonModal_GoHome1 | NonModal_SetHome1 | NonModal_AbsoluteOverride
  | NonModal_SetCoordinateOffset | NonModal_ResetCoordinateOffset

datatype motion =
    Motion_Seek | Motion_Linear | Motion_CwArc | Motion_CcwArc | Motion_ProbeToward
  | Motion_ProbeTowardNoError | Motion_ProbeAway | Motion_ProbeAwayNoError | Motion_None

fun motion_num :: "motion \<Rightarrow> nat" where
  "motion_num Motion_Seek = 0"
| "motion_num Motion_Linear = 10"
| "motion_num Motion_CwArc = 20"
| "motion_num Motion_CcwArc = 30"
| "motion_num Motion_ProbeToward = 382"
| "motion_num Motion_ProbeTowardNoError = 383"
| "motion_num Motion_ProbeAway = 384"
| "motion_num Motion_ProbeAwayNoError = 385"
| "motion_num Motion_None = 800"

datatype plane = Plane_XY | Plane_ZX | Plane_YZ

fun plane_num :: "plane \<Rightarrow> nat" where
  "plane_num Plane_XY = 170"
| "plane_num Plane_ZX = 180"
| "plane_num Plane_YZ = 190"

datatype distance = Distance_Absolute | Distance_Incremental

datatype program_flow =
    ProgramFlow_Running | ProgramFlow_Paused | ProgramFlow_OptionalStop
  | ProgramFlow_CompletedM2 | ProgramFlow_CompletedM30

datatype feed_mode = FeedRate_UnitsPerMin | FeedRate_InverseTime

datatype units = Units_Mm | Units_Inches

datatype gcode_coolant = GCodeCoolant_None | GCodeCoolant_M7 | GCodeCoolant_M8 | GCodeCoolant_M9

datatype io_control =
    IoControl_None | IoControl_DigitalOnSync | IoControl_DigitalOffSync
  | IoControl_DigitalOnImmediate | IoControl_DigitalOffImmediate | IoControl_WaitOnInput
  | IoControl_SetAnalogSync | IoControl_SetAnalogImmediate

datatype tool_length = ToolLengthOffset_Cancel | ToolLengthOffset_EnableDynamic

datatype spindle_state = SpindleState_Disable | SpindleState_Cw | SpindleState_Ccw | SpindleState_Unknown

fun spindle_num :: "spindle_state \<Rightarrow> nat" where
  "spindle_num SpindleState_Disable = 5"
| "spindle_num SpindleState_Cw = 3"
| "spindle_num SpindleState_Ccw = 4"
| "spindle_num SpindleState_Unknown = 0"

text \<open>The words with a value.\<close>

datatype gcode_word =
    Word_E | Word_F | Word_I | Word_J | Word_K | Word_L | Word_N | Word_P | Word_Q | Word_R
  | Word_S | Word_T | Word_X | Word_Y | Word_Z | Word_A | Word_B | Word_C | Word_O | Word_D

datatype axis_command =
    AxisCommand_None | AxisCommand_NonModal | AxisCommand_MotionMode | AxisCommand_ToolLengthOffset

text \<open>
  \<open>CoordIndex\<close> is an unscoped enumeration that assignments cast any number to: a number
  here.
\<close>

type_synonym coord_index = int

abbreviation (input) Coord_G54 :: coord_index where "Coord_G54 \<equiv> 0"
abbreviation (input) Coord_G55 :: coord_index where "Coord_G55 \<equiv> 1"
abbreviation (input) Coord_G56 :: coord_index where "Coord_G56 \<equiv> 2"
abbreviation (input) Coord_G57 :: coord_index where "Coord_G57 \<equiv> 3"
abbreviation (input) Coord_G58 :: coord_index where "Coord_G58 \<equiv> 4"
abbreviation (input) Coord_G59 :: coord_index where "Coord_G59 \<equiv> 5"
abbreviation (input) Coord_G28 :: coord_index where "Coord_G28 \<equiv> 6"
abbreviation (input) Coord_G30 :: coord_index where "Coord_G30 \<equiv> 7"
abbreviation (input) Coord_G92 :: coord_index where "Coord_G92 \<equiv> 8"
abbreviation (input) Coord_TLO :: coord_index where "Coord_TLO \<equiv> 9"
abbreviation (input) Coord_End :: coord_index where "Coord_End \<equiv> 10"

section \<open>State\<close>

record gc_modal =
  md_motion :: motion
  md_feed_rate :: feed_mode
  md_units :: units
  md_distance :: distance
  md_plane :: plane
  md_tool_length :: tool_length
  md_coord_select :: coord_index
  md_program_flow :: program_flow
  md_mist :: bool
  md_flood :: bool
  md_spindle :: spindle_state
  md_tool_change :: bool
  md_set_tool_number :: bool
  md_io_control :: io_control
  md_override :: override_mode

definition modal_defaults :: gc_modal where
  "modal_defaults =
     \<lparr>md_motion = Motion_Seek, md_feed_rate = FeedRate_UnitsPerMin, md_units = Units_Mm,
      md_distance = Distance_Absolute, md_plane = Plane_XY, md_tool_length = ToolLengthOffset_Cancel,
      md_coord_select = Coord_G54, md_program_flow = ProgramFlow_Running, md_mist = False,
      md_flood = False, md_spindle = SpindleState_Disable, md_tool_change = False,
      md_set_tool_number = False, md_io_control = IoControl_None,
      md_override = Override_ParkingMotion\<rparr>"

text \<open>The values of the words of a block: \<open>gc_values_t\<close>.\<close>

record gc_values =
  v_e :: u8
  v_f :: rat
  v_ijk :: "nat \<Rightarrow> rat"
  v_l :: u8
  v_n :: int
  v_o :: u32
  v_p :: rat
  v_q :: rat
  v_r :: rat
  v_s :: rat
  v_xyz :: "nat \<Rightarrow> rat"

definition zero_values :: gc_values where
  "zero_values =
     \<lparr>v_e = 0, v_f = 0, v_ijk = (\<lambda>i. 0), v_l = 0, v_n = 0, v_o = 0, v_p = 0, v_q = 0, v_r = 0,
      v_s = 0, v_xyz = (\<lambda>i. 0)\<rparr>"

record gc_block =
  b_non_modal :: non_modal
  b_modal :: gc_modal
  b_values :: gc_values
  b_coolant :: gcode_coolant

text \<open>The state of the interpreter: \<open>parser_state_t\<close>.\<close>

record gc_state =
  g_modal :: gc_modal
  g_spindle_speed :: rat
  g_feed_rate :: rat
  g_selected_tool :: u32
  g_current_tool :: int
  g_line_number :: int
  g_position :: "nat \<Rightarrow> rat"
  g_coord_system :: "nat \<Rightarrow> rat"
  g_coord_offset :: "nat \<Rightarrow> rat"
  g_tool_length_offset :: rat
  g_skip_blocks :: bool

text \<open>
  \<open>gc_init\<close>: the tool length offset survives. \<open>parking\<close> is the configuration's
  \<open>_deactivateParking\<close>; \<open>g54\<close> the stored offset of the default coordinate system.
\<close>

definition gc_init :: "bool \<Rightarrow> (nat \<Rightarrow> rat) \<Rightarrow> gc_state \<Rightarrow> gc_state" where
  "gc_init parking g54 gs =
     \<lparr>g_modal = modal_defaults\<lparr>md_override := (if parking then Override_Disabled else Override_ParkingMotion)\<rparr>,
      g_spindle_speed = 0, g_feed_rate = 0, g_selected_tool = 0, g_current_tool = -1, g_line_number = 0,
      g_position = (\<lambda>i. 0), g_coord_system = g54, g_coord_offset = (\<lambda>i. 0),
      g_tool_length_offset = g_tool_length_offset gs, g_skip_blocks = False\<rparr>"

end
