(* ===== verification/Parameters.thy ===== *)
theory Parameters
  imports ExpressionValue GCodeTypes Job
begin

text \<open>
  FluidNC/src/Parameters.cpp: the numbered and named parameters of G-code. What they read
  of the rest of the firmware (positions, overrides, the version, the configuration tree)
  is an environment; what they keep or change is the state. Reading a value that the code
  leaves unset gives \<open>rd_stale\<close>, whatever the variable holds.
\<close>

section \<open>State and environment\<close>

text \<open>
  \<open>coord_set k\<close> is \<open>coords[k]\<close>. The configuration is opaque: \<open>rd_config_get\<close> and
  \<open>rd_config_set\<close> are the visits of \<open>Configuration::GCodeParam\<close>, None when the item does
  not exist or is not a number. The notifications of changed coordinates are recorded.
\<close>

record 'c pstate =
  p_gc :: gc_state
  coord_set :: "coord_index \<Rightarrow> nat \<Rightarrow> rat"
  float_params :: "int \<rightharpoonup> rat"
  global_named_params :: "string \<rightharpoonup> rat"
  p_jobs :: jobs
  p_config :: 'c
  ngc_changed :: "coord_index list"
  assignments :: "(param_ref \<times> rat) list"

record 'c readings =
  rd_arith :: "rat arith"
  rd_n_axis :: nat
  rd_mpos :: "nat \<Rightarrow> rat"
  rd_probe_position :: "nat \<Rightarrow> rat"
  rd_probe_succeeded :: bool
  rd_spindle_ovr :: u8
  rd_f_override :: u8
  rd_mode :: mstate
  rd_version :: string
  rd_config_get :: "'c \<Rightarrow> string \<Rightarrow> rat option"
  rd_config_set :: "'c \<Rightarrow> string \<Rightarrow> rat \<Rightarrow> 'c option"
  rd_stale :: rat
  rd_stale_id :: int

definition gc_upd :: "(gc_state \<Rightarrow> gc_state) \<Rightarrow> 'c pstate \<Rightarrow> 'c pstate" where
  "gc_upd f ps = ps\<lparr>p_gc := f (p_gc ps)\<rparr>"

definition can_write_float_param :: "int \<Rightarrow> bool" where
  "can_write_float_param i \<longleftrightarrow> i = 5399 \<or> 1 \<le> i \<and> i \<le> 5000"

definition can_read_float_param :: "int \<Rightarrow> bool" where
  "can_read_float_param i \<longleftrightarrow> i = 5399 \<or> 31 \<le> i \<and> i \<le> 5000"

definition axis_params :: "(int \<times> coord_index) list" where
  "axis_params =
     [(5161, Coord_G28), (5181, Coord_G30), (5221, Coord_G54), (5241, Coord_G55), (5261, Coord_G56),
      (5281, Coord_G57), (5301, Coord_G58), (5321, Coord_G59)]"

definition is_axis :: "int \<Rightarrow> bool" where
  "is_axis axis \<longleftrightarrow> 0 \<le> axis \<and> axis < 6"

definition is_rotary :: "int \<Rightarrow> bool" where
  "is_rotary axis \<longleftrightarrow> 3 \<le> axis \<and> axis \<le> 5"

text \<open>The factors are the literals of NutsBolts.h.\<close>

definition MM_PER_INCH :: rat where "MM_PER_INCH = 254 / 10"

definition INCH_PER_MM :: rat where "INCH_PER_MM = 393701 / 10000000"

definition in_inches :: "'c pstate \<Rightarrow> int \<Rightarrow> bool" where
  "in_inches ps axis \<longleftrightarrow> \<not> is_rotary axis \<and> md_units (g_modal (p_gc ps)) = Units_Inches"

definition to_inches :: "'c readings \<Rightarrow> 'c pstate \<Rightarrow> int \<Rightarrow> rat \<Rightarrow> rat" where
  "to_inches rd ps axis v =
     (if in_inches ps axis then f_mul (rd_arith rd) v (f_lit (rd_arith rd) INCH_PER_MM) else v)"

definition to_mm :: "'c readings \<Rightarrow> 'c pstate \<Rightarrow> int \<Rightarrow> rat \<Rightarrow> rat" where
  "to_mm rd ps axis v =
     (if in_inches ps axis then f_mul (rd_arith rd) v (f_lit (rd_arith rd) MM_PER_INCH) else v)"

text \<open>\<open>get_wco\<close> of System.cpp and \<open>mpos_to_wpos\<close> of Report.cpp, for one axis.\<close>

definition get_wco :: "'c readings \<Rightarrow> 'c pstate \<Rightarrow> nat \<Rightarrow> rat" where
  "get_wco rd ps idx =
     (let ar = rd_arith rd; gs = p_gc ps; w = f_add ar (g_coord_system gs idx) (g_coord_offset gs idx)
      in if idx < rd_n_axis rd then (if idx = 2 then f_add ar w (g_tool_length_offset gs) else w) else 0)"

definition mpos_to_wpos :: "'c readings \<Rightarrow> 'c pstate \<Rightarrow> nat \<Rightarrow> rat" where
  "mpos_to_wpos rd ps idx =
     (if idx < rd_n_axis rd then f_sub (rd_arith rd) (rd_mpos rd idx) (get_wco rd ps idx) else rd_mpos rd idx)"

section \<open>Numbered parameters\<close>

text \<open>The first entry of the table that the number belongs to, with the axis.\<close>

fun find_axis :: "(int \<times> coord_index) list \<Rightarrow> int \<Rightarrow> (coord_index \<times> int) option" where
  "find_axis [] i = None"
| "find_axis ((key, ci) # tab) i = (if is_axis (i - key) then Some (ci, i - key) else find_axis tab i)"

text \<open>
  The branch for #5211 to #5216 computes a result, and goes on to the tests below without
  returning it.
\<close>

definition get_numbered_param :: "'c readings \<Rightarrow> 'c pstate \<Rightarrow> int \<Rightarrow> rat option" where
  "get_numbered_param rd ps i =
     (let ar = rd_arith rd; gs = p_gc ps in
      case find_axis axis_params i of
        Some (ci, axis) \<Rightarrow> Some (to_inches rd ps axis (coord_set ps ci (nat axis)))
      | None \<Rightarrow>
          if is_axis (i - 5061) then Some (to_inches rd ps (i - 5061) (rd_probe_position rd (nat (i - 5061))))
          else if i = 5220 then Some (f_lit ar (of_int (md_coord_select (g_modal gs) + 1)))
          else if i = 5400 then Some (f_lit ar (of_int (uint (g_selected_tool gs))))
          else if is_axis (i - 5420) then Some (to_inches rd ps (i - 5420) (mpos_to_wpos rd ps (nat (i - 5420))))
          else if i = 5070 then Some (f_bool ar (rd_probe_succeeded rd))
          else if can_read_float_param i then float_params ps i
          else None)"

definition notify :: "coord_index \<Rightarrow> 'c pstate \<Rightarrow> 'c pstate" where
  "notify ci ps = ps\<lparr>ngc_changed := ngc_changed ps @ [ci]\<rparr>"

text \<open>The result and the new state.\<close>

definition set_numbered_param :: "'c readings \<Rightarrow> int \<Rightarrow> rat \<Rightarrow> 'c pstate \<Rightarrow> bool \<times> 'c pstate" where
  "set_numbered_param rd i v ps =
     (case find_axis axis_params i of
        Some (ci, axis) \<Rightarrow>
          (True, notify ci (ps\<lparr>coord_set :=
             (coord_set ps)(ci := (coord_set ps ci)(nat axis := to_mm rd ps axis v))\<rparr>))
      | None \<Rightarrow>
          if is_axis (i - 5211) then
            (True, notify Coord_G92 (gc_upd (\<lambda>gs. gs\<lparr>g_coord_offset :=
               (g_coord_offset gs)(nat (i - 5211) := to_mm rd ps (i - 5211) v)\<rparr>) ps))
          else if i = 5220 then
            (True, gc_upd (\<lambda>gs. gs\<lparr>g_modal := (g_modal gs)\<lparr>md_coord_select := f_int (rd_arith rd) v\<rparr>\<rparr>) ps)
          else if i = 5400 then
            (True, gc_upd (\<lambda>gs. gs\<lparr>g_selected_tool := of_int (f_int (rd_arith rd) v)\<rparr>) ps)
          else if can_write_float_param i then (True, ps\<lparr>float_params := (float_params ps)(i \<mapsto> v)\<rparr>)
          else (False, ps))"

section \<open>Named parameters\<close>

definition axis_letters :: string where
  "axis_letters = ''xyzabc''"

definition coord_values :: "int list" where
  "coord_values = [540, 550, 560, 570, 580, 590, 591, 592, 593]"

definition unsupported_sys :: "string list" where
  "unsupported_sys =
     [''_spindle_rpm_mode'', ''_spindle_css_mode'', ''_ijk_absolute_mode'', ''_lathe_diameter_mode'',
      ''_lathe_radius_mode'', ''_adaptive_feed'']"

text \<open>The parts of the version before and after its first dot, as \<open>atoi\<close> reads them.\<close>

definition version_part :: "bool \<Rightarrow> string \<Rightarrow> int" where
  "version_part major v =
     (case find_index (\<lambda>c. c = CHR ''.'') v of
        None \<Rightarrow> int (dec_value 0 v)
      | Some k \<Rightarrow> int (dec_value 0 (if major then take k v else drop (k + 1) v)))"

text \<open>The tests of \<open>get_system_param\<close> after its tables, in their order.\<close>

definition system_params :: "'c readings \<Rightarrow> 'c pstate \<Rightarrow> (string \<times> rat) list" where
  "system_params rd ps =
     (let ar = rd_arith rd; gs = p_gc ps; md = g_modal gs; b = f_bool ar; num = (\<lambda>k. f_lit ar (of_int k)) in
      [(''_spindle_on'', b (md_spindle md \<noteq> SpindleState_Disable)),
       (''_spindle_cw'', b (md_spindle md = SpindleState_Cw)),
       (''_spindle_m'', num (int (spindle_num (md_spindle md)))),
       (''_mist'', b (md_mist md)),
       (''_flood'', b (md_flood md)),
       (''_speed_override'', b (rd_spindle_ovr rd \<noteq> 100)),
       (''_feed_override'', b (rd_f_override rd \<noteq> 100)),
       (''_feed_hold'', b (rd_mode rd = Hold)),
       (''_feed'', to_inches rd ps 0 (g_feed_rate gs)),
       (''_rpm'', g_spindle_speed gs),
       (''_selected_tool'', num (uint (g_selected_tool gs))),
       (''_current_tool'', num (g_current_tool gs)),
       (''_vmajor'', num (version_part True (rd_version rd))),
       (''_vminor'', num (version_part False (rd_version rd))),
       (''_line'', rd_stale rd),
       (''_motion_mode'', num (int (motion_num (md_motion md)))),
       (''_plane'', num (int (plane_num (md_plane md)))),
       (''_coord_system'',
          if 0 \<le> md_coord_select md \<and> nat (md_coord_select md) < length coord_values
          then num (coord_values ! nat (md_coord_select md)) else rd_stale rd),
       (''_metric'', b (md_units md = Units_Mm)),
       (''_imperial'', b (md_units md = Units_Inches)),
       (''_absolute'', b (md_distance md = Distance_Absolute)),
       (''_incremental'', b (md_distance md = Distance_Incremental)),
       (''_inverse_time'', b (md_feed_rate md = FeedRate_InverseTime)),
       (''_units_per_minute'', b (md_feed_rate md = FeedRate_UnitsPerMin)),
       (''_units_per_rev'', f_lit ar 0)])"

definition get_system_param :: "'c readings \<Rightarrow> 'c pstate \<Rightarrow> string \<Rightarrow> rat option" where
  "get_system_param rd ps name =
     (let sysn = map ascii_lower name;
          work_positions = map (\<lambda>k. (''_'' @ [axis_letters ! k], k)) [0..<6];
          machine_positions = map (\<lambda>k. (''_abs_'' @ [axis_letters ! k], k)) [0..<6]
      in case map_of work_positions sysn of
           Some axis \<Rightarrow>
             Some (to_inches rd ps (int axis) (f_sub (rd_arith rd) (rd_mpos rd axis) (get_wco rd ps axis)))
         | None \<Rightarrow>
             (case map_of machine_positions sysn of
                Some axis \<Rightarrow> Some (to_inches rd ps (int axis) (rd_mpos rd axis))
              | None \<Rightarrow>
                  if sysn \<in> set unsupported_sys then Some (f_lit (rd_arith rd) 0)
                  else map_of (system_params rd ps) sysn))"

definition named_param_exists :: "'c readings \<Rightarrow> 'c pstate \<Rightarrow> string \<Rightarrow> bool" where
  "named_param_exists rd ps name =
     (let search = (if length name > 3 \<and> name ! 0 = CHR ''#'' \<and> name ! 1 = CHR ''<'' \<and> last name = CHR ''>''
                    then substr 2 (length name - 3) name else name)
      in if search = [] then False
         else if hd search = CHR ''/'' then rd_config_get rd (p_config ps) search \<noteq> None
         else if hd search = CHR ''_'' then
           get_system_param rd ps search \<noteq> None \<or> global_named_params ps search \<noteq> None
         else if job_active (p_jobs ps) then job_param_exists search (p_jobs ps)
         else global_named_params ps search \<noteq> None)"

definition get_param :: "'c readings \<Rightarrow> 'c pstate \<Rightarrow> param_ref \<Rightarrow> rat option" where
  "get_param rd ps ref =
     (let name = pr_name ref in
      if name = [] then get_numbered_param rd ps (pr_id ref)
      else if hd name = CHR ''/'' then rd_config_get rd (p_config ps) name
      else if hd name = CHR ''_'' then
        (case get_system_param rd ps name of Some v \<Rightarrow> Some v | None \<Rightarrow> global_named_params ps name)
      else if job_active (p_jobs ps) then job_get_param name (p_jobs ps)
      else global_named_params ps name)"

definition set_named_param :: "string \<Rightarrow> rat \<Rightarrow> 'c pstate \<Rightarrow> bool \<times> 'c pstate" where
  "set_named_param name v ps =
     (True, ps\<lparr>global_named_params := (global_named_params ps)(name \<mapsto> v)\<rparr>)"

definition set_param :: "'c readings \<Rightarrow> param_ref \<Rightarrow> rat \<Rightarrow> 'c pstate \<Rightarrow> bool \<times> 'c pstate" where
  "set_param rd ref v ps =
     (let name = pr_name ref in
      if name = [] then set_numbered_param rd (pr_id ref) v ps
      else if hd name = CHR ''/'' then
        (case rd_config_set rd (p_config ps) name v of
           None \<Rightarrow> (False, ps) | Some c \<Rightarrow> (True, ps\<lparr>p_config := c\<rparr>))
      else if hd name \<noteq> CHR ''_'' \<and> job_active (p_jobs ps) then
        (let (ok, j) = job_set_param name v (p_jobs ps) in (ok, ps\<lparr>p_jobs := j\<rparr>))
      else if hd name = CHR ''_'' \<and> get_system_param rd ps name \<noteq> None then (False, ps)
      else set_named_param name v ps)"

section \<open>Reading and assigning\<close>

text \<open>The functions of the expression evaluator over the parameters of a state.\<close>

definition env_of :: "'c readings \<Rightarrow> 'c pstate \<Rightarrow> rat params_env" where
  "env_of rd ps =
     \<lparr>pe_get = get_param rd ps, pe_exists = named_param_exists rd ps, pe_stale_id = rd_stale_id rd\<rparr>"

definition read_number_in :: "'c readings \<Rightarrow> 'c pstate \<Rightarrow> string \<Rightarrow> rat parsed" where
  "read_number_in rd ps s = c_number (all_calls (rd_arith rd) (env_of rd ps)) s False"

definition get_param_ref_in :: "'c readings \<Rightarrow> 'c pstate \<Rightarrow> string \<Rightarrow> param_ref parsed" where
  "get_param_ref_in rd ps s = c_ref (all_calls (rd_arith rd) (env_of rd ps)) s"

text \<open>
  An assignment, with its \<open>#\<close> already consumed, is put on the list; the list is performed
  in order, also after one that fails, and emptied.
\<close>

definition assign_param :: "'c readings \<Rightarrow> 'c pstate \<Rightarrow> string \<Rightarrow> 'c pstate parsed" where
  "assign_param rd ps s =
     pbind (get_param_ref_in rd ps s) (\<lambda>ref r.
       if \<not> starts (CHR ''='') r then Fail Error_BadNumberFormat
       else pbind (read_number_in rd ps (tl r)) (\<lambda>v r.
         Read (ps\<lparr>assignments := assignments ps @ [(ref, v)]\<rparr>) r))"

primrec set_params ::
    "'c readings \<Rightarrow> (param_ref \<times> rat) list \<Rightarrow> 'c pstate \<Rightarrow> bool \<times> 'c pstate" where
  "set_params rd [] ps = (True, ps)"
| "set_params rd (a # as) ps =
     (let (ok, ps1) = set_param rd (fst a) (snd a) ps; (ok', ps2) = set_params rd as ps1
      in (ok \<and> ok', ps2))"

definition perform_assignments :: "'c readings \<Rightarrow> 'c pstate \<Rightarrow> bool \<times> 'c pstate" where
  "perform_assignments rd ps =
     (let (ok, ps1) = set_params rd (assignments ps) ps in (ok, ps1\<lparr>assignments := []\<rparr>))"

end
