(* ===== verification/GCodeParse.thy ===== *)
theory GCodeParse
  imports Parameters
begin

text \<open>
  FluidNC/src/GCode.cpp, the first half of \<open>gc_execute_line\<close>: removing blanks and comments
  from the line, and importing its words into the block with the checks of the modal groups
  and of repeated words. The bit masks of the code are sets.
\<close>

section \<open>Removing blanks and comments\<close>

text \<open>
  What \<open>collapseGCode\<close> does beside: the comments it passes to \<open>gcode_comment_msg\<close> and the
  percent marks it gives to the channel of the job. \<open>paren\<close> is the comment since the last
  opening parenthesis.
\<close>

datatype collapse_effect = CommentMsg string | PercentMark

definition with_effect :: "collapse_effect \<Rightarrow> string \<times> collapse_effect list \<Rightarrow> string \<times> collapse_effect list" where
  "with_effect e x = (fst x, e # snd x)"

fun collapse_loop ::
    "bool \<Rightarrow> bool \<Rightarrow> string option \<Rightarrow> string \<Rightarrow> string \<Rightarrow> string \<times> collapse_effect list" where
  "collapse_loop skipping job_running paren out [] =
     (out, case paren of None \<Rightarrow> [] | Some p \<Rightarrow> [CommentMsg p])"
| "collapse_loop skipping job_running paren out (c # cs) =
     (let longer = map_option (\<lambda>p. p @ [c]) paren in
      if c_space c then collapse_loop skipping job_running longer out cs
      else if c = CHR '')'' then
        (case paren of
           Some p \<Rightarrow> with_effect (CommentMsg p) (collapse_loop skipping job_running None out cs)
         | None \<Rightarrow> collapse_loop skipping job_running None out cs)
      else if c = CHR ''('' then
        (if skipping then ([], []) else collapse_loop skipping job_running (Some []) out cs)
      else if c = CHR '';'' then (if skipping then ([], []) else (out, []))
      else if c = CHR ''%'' then
        (if job_running then with_effect PercentMark (collapse_loop skipping job_running longer out cs)
         else collapse_loop skipping job_running longer out cs)
      else if paren = None then collapse_loop skipping job_running longer (out @ [ascii_upper c]) cs
      else collapse_loop skipping job_running longer out cs)"

definition collapseGCode :: "bool \<Rightarrow> bool \<Rightarrow> string \<Rightarrow> string \<times> collapse_effect list" where
  "collapseGCode skipping job_running line = collapse_loop skipping job_running None [] line"

section \<open>The words of a block\<close>

text \<open>
  What the parser asks of the machine: the devices it has and the options of the
  configuration.
\<close>

record 'c gc_env =
  ge_rd :: "'c readings"
  ge_probe_exists :: bool
  ge_reversable :: bool
  ge_rate_adjusted :: bool
  ge_has_mist :: bool
  ge_has_flood :: bool
  ge_parking_override :: bool
  ge_line_numbers :: bool

text \<open>The variables of \<open>gc_execute_line\<close> while it reads the words.\<close>

record 'c words =
  w_ps :: "'c pstate"
  w_block :: gc_block
  w_axis_command :: axis_command
  axis_words :: "nat set"
  ijk_words :: "nat set"
  command_words :: "modal_group set"
  value_words :: "gcode_word set"
  w_probe_explicit :: bool
  w_nonmodal_g38 :: bool
  w_mantissa :: int

definition md_upd :: "(gc_modal \<Rightarrow> gc_modal) \<Rightarrow> 'c words \<Rightarrow> 'c words" where
  "md_upd f w = w\<lparr>w_block := (w_block w)\<lparr>b_modal := f (b_modal (w_block w))\<rparr>\<rparr>"

definition val_upd :: "(gc_values \<Rightarrow> gc_values) \<Rightarrow> 'c words \<Rightarrow> 'c words" where
  "val_upd f w = w\<lparr>w_block := (w_block w)\<lparr>b_values := f (b_values (w_block w))\<rparr>\<rparr>"

definition set_non_modal :: "non_modal \<Rightarrow> 'c words \<Rightarrow> 'c words" where
  "set_non_modal m w = w\<lparr>w_block := (w_block w)\<lparr>b_non_modal := m\<rparr>\<rparr>"

definition set_coolant :: "gcode_coolant \<Rightarrow> 'c words \<Rightarrow> 'c words" where
  "set_coolant c w = w\<lparr>w_block := (w_block w)\<lparr>b_coolant := c\<rparr>\<rparr>"

text \<open>The command of a G or M word: the new variables, its modal group and its mantissa.\<close>

type_synonym 'c command = "error_code + ('c words \<times> modal_group \<times> int)"

text \<open>An explicit axis command: G0 to G3 overwrite one that is there, the others conflict.\<close>

definition claim_axes :: "axis_command \<Rightarrow> 'c words \<Rightarrow> error_code + 'c words" where
  "claim_axes ac w =
     (if w_axis_command w \<noteq> AxisCommand_None then Inl Error_GcodeAxisCommandConflict
      else Inr (w\<lparr>w_axis_command := ac\<rparr>))"

text \<open>The code at the label \<open>check_mantissa\<close>, for G28, G30 and G92.\<close>

definition check_mantissa :: "int \<Rightarrow> 'c words \<Rightarrow> 'c command" where
  "check_mantissa mantissa w =
     (if mantissa = 0 then
        (case claim_axes AxisCommand_NonModal w of Inl e \<Rightarrow> Inl e | Inr w' \<Rightarrow> Inr (w', MG0, 0))
      else if mantissa = 10 then Inr (w, MG0, 0)
      else Inl Error_GcodeUnsupportedCommand)"

definition motion_command :: "motion \<Rightarrow> int \<Rightarrow> 'c words \<Rightarrow> 'c command" where
  "motion_command m mantissa w =
     Inr (md_upd (\<lambda>md. md\<lparr>md_motion := m\<rparr>) (w\<lparr>w_axis_command := AxisCommand_MotionMode\<rparr>), MG1, mantissa)"

definition probe_motion :: "int \<Rightarrow> motion option" where
  "probe_motion mantissa =
     (if mantissa = 20 then Some Motion_ProbeToward
      else if mantissa = 30 then Some Motion_ProbeTowardNoError
      else if mantissa = 40 then Some Motion_ProbeAway
      else if mantissa = 50 then Some Motion_ProbeAwayNoError
      else None)"

definition g38_word :: "'c gc_env \<Rightarrow> int \<Rightarrow> 'c words \<Rightarrow> 'c command" where
  "g38_word ge mantissa w =
     (if \<not> ge_probe_exists ge then Inl Error_GcodeUnsupportedCommand
      else case claim_axes AxisCommand_MotionMode w of
        Inl e \<Rightarrow> Inl e
      | Inr w' \<Rightarrow>
          let w1 = w'\<lparr>w_probe_explicit := True, w_nonmodal_g38 := w_nonmodal_g38 w' \<or> 60 \<le> mantissa\<rparr>
          in case probe_motion (if 60 \<le> mantissa then mantissa - 40 else mantissa) of
               None \<Rightarrow> Inl Error_GcodeUnsupportedCommand
             | Some m \<Rightarrow> Inr (md_upd (\<lambda>md. md\<lparr>md_motion := m\<rparr>) w1, MG1, 0))"

definition tlo_word :: "int \<Rightarrow> int \<Rightarrow> 'c words \<Rightarrow> 'c command" where
  "tlo_word int_value mantissa w =
     (case claim_axes AxisCommand_ToolLengthOffset w of
        Inl e \<Rightarrow> Inl e
      | Inr w' \<Rightarrow>
          if int_value = 49 then Inr (md_upd (\<lambda>md. md\<lparr>md_tool_length := ToolLengthOffset_Cancel\<rparr>) w', MG8, 0)
          else if mantissa = 10 then
            Inr (md_upd (\<lambda>md. md\<lparr>md_tool_length := ToolLengthOffset_EnableDynamic\<rparr>) w', MG8, 0)
          else Inl Error_GcodeUnsupportedCommand)"

definition g_command :: "'c gc_env \<Rightarrow> int \<Rightarrow> int \<Rightarrow> 'c words \<Rightarrow> 'c command" where
  "g_command ge n mantissa w =
     (if n = 10 then
        (if mantissa = 0 then
           (case claim_axes AxisCommand_NonModal (set_non_modal NonModal_SetCoordinateData w) of
              Inl e \<Rightarrow> Inl e | Inr w' \<Rightarrow> Inr (w', MG0, mantissa))
         else Inr (set_non_modal NonModal_SetCoordinateData w, MG0, mantissa))
      else if n = 28 then
        check_mantissa mantissa (set_non_modal (if mantissa \<noteq> 0 then NonModal_SetHome0 else NonModal_GoHome0) w)
      else if n = 30 then
        check_mantissa mantissa (set_non_modal (if mantissa \<noteq> 0 then NonModal_SetHome1 else NonModal_GoHome1) w)
      else if n = 92 then
        check_mantissa mantissa (set_non_modal
          (if mantissa \<noteq> 0 then NonModal_ResetCoordinateOffset else NonModal_SetCoordinateOffset) w)
      else if n = 4 then Inr (set_non_modal NonModal_Dwell w, MG0, mantissa)
      else if n = 53 then Inr (set_non_modal NonModal_AbsoluteOverride w, MG0, mantissa)
      else if n = 0 then motion_command Motion_Seek mantissa w
      else if n = 1 then motion_command Motion_Linear mantissa w
      else if n = 2 then motion_command Motion_CwArc mantissa w
      else if n = 3 then motion_command Motion_CcwArc mantissa w
      else if n = 38 then g38_word ge mantissa w
      else if n = 80 then Inr (md_upd (\<lambda>md. md\<lparr>md_motion := Motion_None\<rparr>) w, MG1, mantissa)
      else if n = 17 then Inr (md_upd (\<lambda>md. md\<lparr>md_plane := Plane_XY\<rparr>) w, MG2, mantissa)
      else if n = 18 then Inr (md_upd (\<lambda>md. md\<lparr>md_plane := Plane_ZX\<rparr>) w, MG2, mantissa)
      else if n = 19 then Inr (md_upd (\<lambda>md. md\<lparr>md_plane := Plane_YZ\<rparr>) w, MG2, mantissa)
      else if n = 90 then
        (if mantissa = 0 then Inr (md_upd (\<lambda>md. md\<lparr>md_distance := Distance_Absolute\<rparr>) w, MG3, mantissa)
         else Inl Error_GcodeUnsupportedCommand)
      else if n = 91 then
        (if mantissa = 0 then Inr (md_upd (\<lambda>md. md\<lparr>md_distance := Distance_Incremental\<rparr>) w, MG3, mantissa)
         else if mantissa = 10 then Inr (w, MG4, 0)
         else Inl Error_GcodeUnsupportedCommand)
      else if n = 93 then Inr (md_upd (\<lambda>md. md\<lparr>md_feed_rate := FeedRate_InverseTime\<rparr>) w, MG5, mantissa)
      else if n = 94 then Inr (md_upd (\<lambda>md. md\<lparr>md_feed_rate := FeedRate_UnitsPerMin\<rparr>) w, MG5, mantissa)
      else if n = 20 then Inr (md_upd (\<lambda>md. md\<lparr>md_units := Units_Inches\<rparr>) w, MG6, mantissa)
      else if n = 21 then Inr (md_upd (\<lambda>md. md\<lparr>md_units := Units_Mm\<rparr>) w, MG6, mantissa)
      else if n = 40 then Inr (w, MG7, mantissa)
      else if n = 43 \<or> n = 49 then tlo_word n mantissa w
      else if 54 \<le> n \<and> n \<le> 59 then
        Inr (md_upd (\<lambda>md. md\<lparr>md_coord_select := Coord_G54 + (n - 54)\<rparr>) w, MG12, mantissa)
      else if n = 61 then (if mantissa \<noteq> 0 then Inl Error_GcodeUnsupportedCommand else Inr (w, MG13, mantissa))
      else Inl Error_GcodeUnsupportedCommand)"

definition io_command :: "int \<Rightarrow> io_control" where
  "io_command n =
     (if n = 62 then IoControl_DigitalOnSync else if n = 63 then IoControl_DigitalOffSync
      else if n = 64 then IoControl_DigitalOnImmediate else if n = 65 then IoControl_DigitalOffImmediate
      else if n = 66 then IoControl_WaitOnInput else if n = 67 then IoControl_SetAnalogSync
      else IoControl_SetAnalogImmediate)"

text \<open>M7 and M8 of a device the machine does not have are accepted and do nothing.\<close>

definition coolant_command :: "'c gc_env \<Rightarrow> int \<Rightarrow> int \<Rightarrow> 'c words \<Rightarrow> 'c command" where
  "coolant_command ge n mantissa w =
     (if n \<noteq> 9 \<and> mantissa \<noteq> 0 \<and> mantissa \<noteq> 10 then Inl Error_GcodeUnsupportedCommand
      else if n = 7 then Inr (if ge_has_mist ge then set_coolant GCodeCoolant_M7 w else w, MM8, mantissa)
      else if n = 8 then Inr (if ge_has_flood ge then set_coolant GCodeCoolant_M8 w else w, MM8, mantissa)
      else Inr (if ge_has_flood ge \<or> ge_has_mist ge then set_coolant GCodeCoolant_M9 w else w, MM8, mantissa))"

definition m_command :: "'c gc_env \<Rightarrow> int \<Rightarrow> int \<Rightarrow> 'c words \<Rightarrow> 'c command" where
  "m_command ge n mantissa w =
     (if 0 < mantissa \<and> \<not> (n = 7 \<or> n = 8) then Inl Error_GcodeCommandValueNotInteger
      else if n = 0 then Inr (md_upd (\<lambda>md. md\<lparr>md_program_flow := ProgramFlow_Paused\<rparr>) w, MM4, mantissa)
      else if n = 1 then Inr (w, MM4, mantissa)
      else if n = 2 then Inr (md_upd (\<lambda>md. md\<lparr>md_program_flow := ProgramFlow_CompletedM2\<rparr>) w, MM4, mantissa)
      else if n = 30 then Inr (md_upd (\<lambda>md. md\<lparr>md_program_flow := ProgramFlow_CompletedM30\<rparr>) w, MM4, mantissa)
      else if n = 3 then Inr (md_upd (\<lambda>md. md\<lparr>md_spindle := SpindleState_Cw\<rparr>) w, MM7, mantissa)
      else if n = 4 then
        (if ge_reversable ge \<or> ge_rate_adjusted ge
         then Inr (md_upd (\<lambda>md. md\<lparr>md_spindle := SpindleState_Ccw\<rparr>) w, MM7, mantissa)
         else Inl Error_GcodeUnsupportedCommand)
      else if n = 5 then Inr (md_upd (\<lambda>md. md\<lparr>md_spindle := SpindleState_Disable\<rparr>) w, MM7, mantissa)
      else if n = 6 then Inr (md_upd (\<lambda>md. md\<lparr>md_tool_change := True\<rparr>) w, MM6, mantissa)
      else if 7 \<le> n \<and> n \<le> 9 then coolant_command ge n mantissa w
      else if n = 56 then
        (if ge_parking_override ge
         then Inr (md_upd (\<lambda>md. md\<lparr>md_override := Override_ParkingMotion\<rparr>) w, MM9, mantissa)
         else Inl Error_GcodeUnsupportedCommand)
      else if n = 61 then Inr (md_upd (\<lambda>md. md\<lparr>md_set_tool_number := True\<rparr>) w, MM6, mantissa)
      else if 62 \<le> n \<and> n \<le> 68 then Inr (md_upd (\<lambda>md. md\<lparr>md_io_control := io_command n\<rparr>) w, MM5, mantissa)
      else Inl Error_GcodeUnsupportedCommand)"

text \<open>At most one command of a modal group in a block.\<close>

definition take_group :: "modal_group \<Rightarrow> 'c words \<Rightarrow> error_code + 'c words" where
  "take_group mg w =
     (if mg \<in> command_words w then Inl Error_GcodeModalGroupViolation
      else Inr (w\<lparr>command_words := insert mg (command_words w)\<rparr>))"

definition g_word :: "'c gc_env \<Rightarrow> int \<Rightarrow> int \<Rightarrow> 'c words \<Rightarrow> error_code + 'c words" where
  "g_word ge n mantissa w =
     (case g_command ge n mantissa w of
        Inl e \<Rightarrow> Inl e
      | Inr (w', mg, mantissa') \<Rightarrow>
          if 0 < mantissa' then Inl Error_GcodeCommandValueNotInteger
          else take_group mg (w'\<lparr>w_mantissa := mantissa'\<rparr>))"

definition m_word :: "'c gc_env \<Rightarrow> int \<Rightarrow> int \<Rightarrow> 'c words \<Rightarrow> error_code + 'c words" where
  "m_word ge n mantissa w =
     (case m_command ge n mantissa w of
        Inl e \<Rightarrow> Inl e
      | Inr (w', mg, mantissa') \<Rightarrow> take_group mg (w'\<lparr>w_mantissa := mantissa'\<rparr>))"

section \<open>Words with a value\<close>

definition MaxToolNumber :: int where
  "MaxToolNumber = 99999999"

definition axis_word :: "'c gc_env \<Rightarrow> nat \<Rightarrow> gcode_word \<Rightarrow> rat \<Rightarrow> 'c words \<Rightarrow> error_code + ('c words \<times> gcode_word)" where
  "axis_word ge axis word v w =
     (if axis < rd_n_axis (ge_rd ge)
      then Inr (val_upd (\<lambda>vs. vs\<lparr>v_xyz := (v_xyz vs)(axis := v)\<rparr>) (w\<lparr>axis_words := insert axis (axis_words w)\<rparr>), word)
      else Inl Error_GcodeUnsupportedCommand)"

definition offset_word :: "nat \<Rightarrow> gcode_word \<Rightarrow> rat \<Rightarrow> 'c words \<Rightarrow> error_code + ('c words \<times> gcode_word)" where
  "offset_word axis word v w =
     Inr (val_upd (\<lambda>vs. vs\<lparr>v_ijk := (v_ijk vs)(axis := v)\<rparr>) (w\<lparr>ijk_words := insert axis (ijk_words w)\<rparr>), word)"

definition store_word ::
    "'c gc_env \<Rightarrow> char \<Rightarrow> rat \<Rightarrow> int \<Rightarrow> int \<Rightarrow> 'c words \<Rightarrow> error_code + ('c words \<times> gcode_word)" where
  "store_word ge letter v int_value mantissa w =
     (if letter = CHR ''A'' then axis_word ge 3 Word_A v w
      else if letter = CHR ''B'' then axis_word ge 4 Word_B v w
      else if letter = CHR ''C'' then axis_word ge 5 Word_C v w
      else if letter = CHR ''D'' then Inr (w, Word_D)
      else if letter = CHR ''E'' then Inr (val_upd (\<lambda>vs. vs\<lparr>v_e := of_int int_value\<rparr>) w, Word_E)
      else if letter = CHR ''F'' then Inr (val_upd (\<lambda>vs. vs\<lparr>v_f := v\<rparr>) w, Word_F)
      else if letter = CHR ''I'' then offset_word 0 Word_I v w
      else if letter = CHR ''J'' then offset_word 1 Word_J v w
      else if letter = CHR ''K'' then offset_word 2 Word_K v w
      else if letter = CHR ''L'' then Inr (val_upd (\<lambda>vs. vs\<lparr>v_l := of_int int_value\<rparr>) w, Word_L)
      else if letter = CHR ''N'' then Inr (val_upd (\<lambda>vs. vs\<lparr>v_n := int_value\<rparr>) w, Word_N)
      else if letter = CHR ''O'' then
        (if 0 < mantissa then Inl Error_GcodeCommandValueNotInteger
         else Inr (val_upd (\<lambda>vs. vs\<lparr>v_o := of_int int_value\<rparr>) w, Word_O))
      else if letter = CHR ''P'' then Inr (val_upd (\<lambda>vs. vs\<lparr>v_p := v\<rparr>) w, Word_P)
      else if letter = CHR ''Q'' then Inr (val_upd (\<lambda>vs. vs\<lparr>v_q := v\<rparr>) w, Word_Q)
      else if letter = CHR ''R'' then Inr (val_upd (\<lambda>vs. vs\<lparr>v_r := v\<rparr>) w, Word_R)
      else if letter = CHR ''S'' then Inr (val_upd (\<lambda>vs. vs\<lparr>v_s := v\<rparr>) w, Word_S)
      else if letter = CHR ''T'' then
        (if f_less (rd_arith (ge_rd ge)) (f_lit (rd_arith (ge_rd ge)) (of_int MaxToolNumber)) v
         then Inl Error_GcodeMaxValueExceeded
         else Inr (w\<lparr>w_ps := gc_upd (\<lambda>gs. gs\<lparr>g_selected_tool := of_int int_value\<rparr>) (w_ps w)\<rparr>, Word_T))
      else if letter = CHR ''X'' then axis_word ge 0 Word_X v w
      else if letter = CHR ''Y'' then axis_word ge 1 Word_Y v w
      else if letter = CHR ''Z'' then axis_word ge 2 Word_Z v w
      else Inl Error_GcodeUnsupportedCommand)"

text \<open>
  The checks come after the value has been stored; an error leaves what is not part of the
  block, the selected tool, as it has become.
\<close>

definition value_word ::
    "'c gc_env \<Rightarrow> char \<Rightarrow> rat \<Rightarrow> int \<Rightarrow> int \<Rightarrow> 'c words \<Rightarrow> (error_code \<times> 'c pstate) + 'c words" where
  "value_word ge letter v int_value mantissa w =
     (case store_word ge letter v int_value mantissa w of
        Inl e \<Rightarrow> Inl (e, w_ps w)
      | Inr (w', word) \<Rightarrow>
          if word \<in> value_words w' then Inl (Error_GcodeWordRepeated, w_ps w')
          else if word \<in> {Word_F, Word_N, Word_P, Word_T, Word_S}
               \<and> f_less (rd_arith (ge_rd ge)) v (f_lit (rd_arith (ge_rd ge)) 0)
          then Inl (Error_NegativeValue, w_ps w')
          else Inr (w'\<lparr>value_words := insert word (value_words w'), w_mantissa := mantissa\<rparr>))"

definition do_word ::
    "'c gc_env \<Rightarrow> char \<Rightarrow> rat \<Rightarrow> 'c words \<Rightarrow> (error_code \<times> 'c pstate) + 'c words" where
  "do_word ge letter v w =
     (let ar = rd_arith (ge_rd ge);
          int_value = f_int ar v;
          mantissa = f_lround ar (f_mul ar (f_lit ar 100) (f_sub ar v (f_lit ar (of_int int_value))));
          lift = (\<lambda>x. case x of Inl e \<Rightarrow> Inl (e, w_ps w) | Inr w' \<Rightarrow> Inr w')
      in if letter = CHR ''G'' then lift (g_word ge int_value mantissa w)
         else if letter = CHR ''M'' then lift (m_word ge int_value mantissa w)
         else value_word ge letter v int_value mantissa w)"

section \<open>The line\<close>

text \<open>
  The loop over the words ends with the block parsed, with a return, or with a call of the
  flow control for the rest of the line.
\<close>

datatype 'c parsed_line =
    Parsed "'c words" | Returned error_code "'c pstate" | ToFlow u32 string "'c pstate"

lemma all_calls_shorter:
  "c_number (all_calls ar env) s i = Read v r \<Longrightarrow> length r < length s"
  "c_ref (all_calls ar env) s = Read ref r \<Longrightarrow> length r < length s"
  using consumingD(3) [OF consuming_calls, of s ar env "fuel_for s" i]
    consumingD(4) [OF consuming_calls, of s ar env "fuel_for s"]
  by (auto simp: shorter_def all_calls_simps Suc_le_eq)

lemma read_number_in_shorter: "read_number_in rd ps s = Read v r \<Longrightarrow> length r < length s"
  by (simp add: read_number_in_def all_calls_shorter(1))

lemma assign_param_shorter: "assign_param rd ps s = Read ps' r \<Longrightarrow> length r < length s"
  by (auto simp: assign_param_def get_param_ref_in_def split: if_splits
      dest!: all_calls_shorter read_number_in_shorter)

function parse_words :: "'c gc_env \<Rightarrow> 'c words \<Rightarrow> string \<Rightarrow> 'c parsed_line" where
  "parse_words ge w s =
     (case s of
        [] \<Rightarrow> Parsed w
      | letter # r \<Rightarrow>
          if letter = CHR ''#'' then
            (if g_skip_blocks (p_gc (w_ps w)) then Returned Error_Ok (w_ps w)
             else case assign_param (ge_rd ge) (w_ps w) r of
                    Read ps' r' \<Rightarrow> parse_words ge (w\<lparr>w_ps := ps'\<rparr>) r'
                  | _ \<Rightarrow> Returned Error_BadNumberFormat (w_ps w))
          else if Word_O \<in> value_words w then ToFlow (v_o (b_values (w_block w))) s (w_ps w)
          else if \<not> (65 \<le> byte letter \<and> byte letter \<le> 90) then
            Returned Error_ExpectedCommandLetter (w_ps w)
          else
            case read_number_in (ge_rd ge) (w_ps w) r of
              Read v r' \<Rightarrow>
                if g_skip_blocks (p_gc (w_ps w)) \<and> letter \<noteq> CHR ''O'' then Returned Error_Ok (w_ps w)
                else (case do_word ge letter v w of
                        Inl (e, ps') \<Rightarrow> Returned e ps'
                      | Inr w' \<Rightarrow> parse_words ge w' r')
            | _ \<Rightarrow> Returned Error_BadNumberFormat (w_ps w))"
  by auto
termination
  by (relation "measure (\<lambda>(ge, w, s). length s)")
    (auto dest!: assign_param_shorter read_number_in_shorter)

declare parse_words.simps [simp del]

definition JOG_LINE_NUMBER :: int where
  "JOG_LINE_NUMBER = 0"

definition is_jog :: "string \<Rightarrow> bool" where
  "is_jog line \<longleftrightarrow> starts (CHR ''$'') line"

text \<open>Step 1: the block starts from the modes of the interpreter.\<close>

definition init_words :: "'c gc_env \<Rightarrow> 'c pstate \<Rightarrow> string \<Rightarrow> 'c words" where
  "init_words ge ps line =
     (let md = g_modal (p_gc ps);
          jog_md = md\<lparr>md_motion := Motion_Linear, md_feed_rate := FeedRate_UnitsPerMin\<rparr>
      in \<lparr>w_ps = ps,
          w_block =
            \<lparr>b_non_modal = NonModal_NoAction, b_modal = (if is_jog line then jog_md else md),
             b_values = (if is_jog line \<and> ge_line_numbers ge then zero_values\<lparr>v_n := JOG_LINE_NUMBER\<rparr>
                         else zero_values),
             b_coolant = GCodeCoolant_None\<rparr>,
          w_axis_command = AxisCommand_None, axis_words = {}, ijk_words = {}, command_words = {},
          value_words = {}, w_probe_explicit = False, w_nonmodal_g38 = False, w_mantissa = 0\<rparr>)"

definition parse_line :: "'c gc_env \<Rightarrow> 'c pstate \<Rightarrow> string \<Rightarrow> 'c parsed_line" where
  "parse_line ge ps line =
     parse_words ge (init_words ge ps line) (if is_jog line then drop 3 line else line)"

end
