(* ===== verification/GCodeCheck.thy ===== *)
theory GCodeCheck
  imports GCodeParse
begin

text \<open>
  FluidNC/src/GCode.cpp, step 3 of \<open>gc_execute_line\<close>: the error checks of a parsed block and
  the conversion of its values to millimetres and machine coordinates. Each paragraph of
  the code is a function; an error carries the state that is not part of the block, in which
  only notifications can have been added.
\<close>

section \<open>The variables of the check\<close>

text \<open>
  What the checks add to the variables of the parser: the coordinate system that G10 sets
  and its data, the coordinates in force, the flags of arcs, probes and inputs.
\<close>

record 'c checked =
  k_words :: "'c words"
  k_coord_select :: coord_index
  k_coord_data :: "nat \<Rightarrow> rat"
  k_block_coords :: "nat \<Rightarrow> rat"
  k_clockwise :: bool
  k_probe_away :: bool
  k_probe_no_error :: bool
  k_wait_digital :: bool

type_synonym 'c check = "(error_code \<times> 'c pstate) + 'c checked"

definition then_check :: "'c check \<Rightarrow> ('c checked \<Rightarrow> 'c check) \<Rightarrow> 'c check" where
  "then_check x f = (case x of Inl e \<Rightarrow> Inl e | Inr k \<Rightarrow> f k)"

definition err :: "error_code \<Rightarrow> 'c checked \<Rightarrow> 'c check" where
  "err e k = Inl (e, w_ps (k_words k))"

definition k_upd :: "('c words \<Rightarrow> 'c words) \<Rightarrow> 'c checked \<Rightarrow> 'c checked" where
  "k_upd f k = k\<lparr>k_words := f (k_words k)\<rparr>"

definition clear_words :: "gcode_word set \<Rightarrow> 'c checked \<Rightarrow> 'c checked" where
  "clear_words ws = k_upd (\<lambda>w. w\<lparr>value_words := value_words w - ws\<rparr>)"

definition has_word :: "gcode_word \<Rightarrow> 'c checked \<Rightarrow> bool" where
  "has_word word k \<longleftrightarrow> word \<in> value_words (k_words k)"

definition k_modal :: "'c checked \<Rightarrow> gc_modal" where
  "k_modal k = b_modal (w_block (k_words k))"

definition k_values :: "'c checked \<Rightarrow> gc_values" where
  "k_values k = b_values (w_block (k_words k))"

definition k_gc :: "'c checked \<Rightarrow> gc_state" where
  "k_gc k = p_gc (w_ps (k_words k))"

definition k_notify :: "coord_index \<Rightarrow> 'c checked \<Rightarrow> 'c checked" where
  "k_notify ci = k_upd (\<lambda>w. w\<lparr>w_ps := notify ci (w_ps w)\<rparr>)"

definition set_values :: "(gc_values \<Rightarrow> gc_values) \<Rightarrow> 'c checked \<Rightarrow> 'c checked" where
  "set_values f = k_upd (val_upd f)"

definition ge_arith :: "'c gc_env \<Rightarrow> rat arith" where
  "ge_arith ge = rd_arith (ge_rd ge)"

definition n_axis :: "'c gc_env \<Rightarrow> nat" where
  "n_axis ge = rd_n_axis (ge_rd ge)"

text \<open>\<open>!nonmodalG38 && units == Inches\<close>, and a length in millimetres.\<close>

definition inch_block :: "'c checked \<Rightarrow> bool" where
  "inch_block k \<longleftrightarrow> \<not> w_nonmodal_g38 (k_words k) \<and> md_units (k_modal k) = Units_Inches"

definition inch_mul :: "'c gc_env \<Rightarrow> rat \<Rightarrow> rat" where
  "inch_mul ge v = f_mul (ge_arith ge) v (f_lit (ge_arith ge) MM_PER_INCH)"

text \<open>The axes below \<open>n_axis\<close> changed by a function, the others kept.\<close>

definition each_axis :: "'c gc_env \<Rightarrow> (nat \<Rightarrow> rat \<Rightarrow> rat) \<Rightarrow> (nat \<Rightarrow> rat) \<Rightarrow> nat \<Rightarrow> rat" where
  "each_axis ge f v = (\<lambda>idx. if idx < n_axis ge then f idx (v idx) else v idx)"

section \<open>Common checks, feed rate and speed\<close>

definition MaxLineNumber :: int where
  "MaxLineNumber = 10000000"

definition check_common :: "'c checked \<Rightarrow> 'c check" where
  "check_common k =
     (let k1 = (if axis_words (k_words k) \<noteq> {} \<and> w_axis_command (k_words k) = AxisCommand_None
                then k_upd (\<lambda>w. w\<lparr>w_axis_command := AxisCommand_MotionMode\<rparr>) k else k)
      in if has_word Word_N k1 \<and> MaxLineNumber < v_n (k_values k1) then err Error_GcodeInvalidLineNumber k1
         else Inr k1)"

definition check_feed :: "'c gc_env \<Rightarrow> bool \<Rightarrow> 'c checked \<Rightarrow> 'c check" where
  "check_feed ge jog k =
     (let md = k_modal k; in_mm = set_values (\<lambda>vs. vs\<lparr>v_f := inch_mul ge (v_f vs)\<rparr>) in
      if jog then
        (if \<not> has_word Word_F k then err Error_GcodeUndefinedFeedRate k
         else Inr (if inch_block k then in_mm k else k))
      else if md_feed_rate md = FeedRate_InverseTime then
        (if w_axis_command (k_words k) = AxisCommand_MotionMode \<and> md_motion md \<noteq> Motion_None
            \<and> md_motion md \<noteq> Motion_Seek \<and> \<not> has_word Word_F k
         then err Error_GcodeUndefinedFeedRate k else Inr k)
      else if md_feed_rate (g_modal (k_gc k)) = FeedRate_UnitsPerMin then
        (if has_word Word_F k then Inr (if inch_block k then in_mm k else k)
         else Inr (set_values (\<lambda>vs. vs\<lparr>v_f := g_feed_rate (k_gc k)\<rparr>) k))
      else Inr k)"

definition check_speed :: "'c checked \<Rightarrow> 'c check" where
  "check_speed k =
     Inr (if has_word Word_S k then k else set_values (\<lambda>vs. vs\<lparr>v_s := g_spindle_speed (k_gc k)\<rparr>) k)"

definition check_override :: "'c gc_env \<Rightarrow> 'c checked \<Rightarrow> 'c check" where
  "check_override ge k =
     Inr (if ge_parking_override ge \<and> MM9 \<in> command_words (k_words k) \<and> has_word Word_P k then
            clear_words {Word_P}
              (if f_zero (ge_arith ge) (v_p (k_values k))
               then k_upd (md_upd (\<lambda>md. md\<lparr>md_override := Override_Disabled\<rparr>)) k else k)
          else k)"

section \<open>Dwell, inputs and outputs\<close>

definition require_word :: "gcode_word \<Rightarrow> 'c checked \<Rightarrow> 'c check" where
  "require_word word k =
     (if \<not> has_word word k then err Error_GcodeValueWordMissing k else Inr (clear_words {word} k))"

definition check_dwell :: "'c checked \<Rightarrow> 'c check" where
  "check_dwell k =
     (if b_non_modal (w_block (k_words k)) = NonModal_Dwell then require_word Word_P k else Inr k)"

definition digital_io :: "io_control \<Rightarrow> bool" where
  "digital_io io \<longleftrightarrow> io \<in> {IoControl_DigitalOnSync, IoControl_DigitalOffSync,
     IoControl_DigitalOnImmediate, IoControl_DigitalOffImmediate}"

definition analog_io :: "io_control \<Rightarrow> bool" where
  "analog_io io \<longleftrightarrow> io \<in> {IoControl_SetAnalogSync, IoControl_SetAnalogImmediate}"

datatype wait_mode = Wait_Immediate | Wait_Rise | Wait_Fall | Wait_High | Wait_Low

definition validate_wait_on_input_mode_value :: "u8 \<Rightarrow> wait_mode option" where
  "validate_wait_on_input_mode_value value =
     (if value = 0 then Some Wait_Immediate else if value = 1 then Some Wait_Rise
      else if value = 2 then Some Wait_Fall else if value = 3 then Some Wait_High
      else if value = 4 then Some Wait_Low else None)"

text \<open>
  M66: one of P and E, then L, then the timeout Q. A wait with a timeout that is not zero is
  refused unless it is immediate, as the code has it.
\<close>

definition check_wait_mode :: "'c gc_env \<Rightarrow> 'c checked \<Rightarrow> 'c check" where
  "check_wait_mode ge k =
     (case validate_wait_on_input_mode_value (v_l (k_values k)) of
        None \<Rightarrow> err Error_GcodeValueWordInvalid k
      | Some m \<Rightarrow>
          if \<not> k_wait_digital k \<and> m \<noteq> Wait_Immediate then err Error_GcodeValueWordInvalid k
          else if has_word Word_Q k then
            (if \<not> f_zero (ge_arith ge) (v_q (k_values k)) \<and> m \<noteq> Wait_Immediate
             then err Error_GcodeValueWordInvalid k else Inr (clear_words {Word_Q} k))
          else if m \<noteq> Wait_Immediate then err Error_GcodeValueWordMissing k
          else Inr (clear_words {Word_Q} k))"

definition check_io :: "'c gc_env \<Rightarrow> 'c checked \<Rightarrow> 'c check" where
  "check_io ge k =
     (let io = md_io_control (k_modal k) in
      if digital_io io then require_word Word_P k
      else if analog_io io then
        (if \<not> has_word Word_E k \<or> \<not> has_word Word_Q k then err Error_GcodeValueWordMissing k
         else Inr (clear_words {Word_E, Word_Q} k))
      else if io = IoControl_WaitOnInput then
        (if \<not> has_word Word_P k \<and> \<not> has_word Word_E k then err Error_GcodeValueWordMissing k
         else if has_word Word_P k \<and> has_word Word_E k then err Error_GcodeValueWordInvalid k
         else then_check (require_word Word_L
                (clear_words {Word_P, Word_E} (k\<lparr>k_wait_digital := has_word Word_P k\<rparr>)))
              (check_wait_mode ge))
      else Inr k)"

definition check_tool_number :: "'c checked \<Rightarrow> 'c check" where
  "check_tool_number k = (if md_set_tool_number (k_modal k) then require_word Word_Q k else Inr k)"

section \<open>Plane, units and offsets\<close>

text \<open>\<open>axis_0\<close>, \<open>axis_1\<close> and \<open>axis_linear\<close>.\<close>

fun plane_axes :: "plane \<Rightarrow> nat \<times> nat \<times> nat" where
  "plane_axes Plane_XY = (0, 1, 2)"
| "plane_axes Plane_ZX = (2, 0, 1)"
| "plane_axes Plane_YZ = (1, 2, 0)"

definition check_units :: "'c gc_env \<Rightarrow> 'c checked \<Rightarrow> 'c check" where
  "check_units ge k =
     (let aw = axis_words (k_words k) in
      Inr (if inch_block k
           then set_values (\<lambda>vs. vs\<lparr>v_xyz := each_axis ge
                  (\<lambda>idx v. if (idx < 3 \<or> 5 < idx) \<and> idx \<in> aw then inch_mul ge v else v) (v_xyz vs)\<rparr>) k
           else k))"

definition TOOL_LENGTH_OFFSET_AXIS :: nat where
  "TOOL_LENGTH_OFFSET_AXIS = 2"

definition check_tlo :: "'c checked \<Rightarrow> 'c check" where
  "check_tlo k =
     (if w_axis_command (k_words k) = AxisCommand_ToolLengthOffset then
        let k1 = k_notify Coord_TLO k in
        if md_tool_length (k_modal k1) = ToolLengthOffset_EnableDynamic
           \<and> axis_words (k_words k1) \<noteq> {TOOL_LENGTH_OFFSET_AXIS}
        then err Error_GcodeG43DynamicAxisError k1 else Inr k1
      else Inr k)"

definition check_coords :: "'c checked \<Rightarrow> 'c check" where
  "check_coords k =
     (let sel = md_coord_select (k_modal k); k1 = k\<lparr>k_block_coords := g_coord_system (k_gc k)\<rparr> in
      if MG12 \<in> command_words (k_words k1) then
        (if Coord_G28 \<le> sel then err Error_GcodeUnsupportedCoordSys k1
         else if md_coord_select (g_modal (k_gc k1)) \<noteq> sel
         then Inr (k1\<lparr>k_block_coords := coord_set (w_ps (k_words k1)) sel\<rparr>)
         else Inr k1)
      else Inr k1)"

section \<open>Non-modal commands\<close>

text \<open>Machine position less offsets less the wanted value, and less the tool length on its axis.\<close>

definition offset_for :: "'c gc_env \<Rightarrow> 'c checked \<Rightarrow> (nat \<Rightarrow> rat) \<Rightarrow> nat \<Rightarrow> rat \<Rightarrow> rat" where
  "offset_for ge k off idx v =
     (let ar = ge_arith ge; d = f_sub ar (f_sub ar (g_position (k_gc k) idx) (off idx)) v
      in if idx = TOOL_LENGTH_OFFSET_AXIS then f_sub ar d (g_tool_length_offset (k_gc k)) else d)"

text \<open>The test for P and L fails only when both words are missing.\<close>

definition check_g10 :: "'c gc_env \<Rightarrow> 'c checked \<Rightarrow> 'c check" where
  "check_g10 ge k =
     (let ar = ge_arith ge; aw = axis_words (k_words k); l = v_l (k_values k);
          pValue = (of_int (f_int ar (v_p (k_values k))) :: u8) in
      if aw = {} then err Error_GcodeNoAxisWords k
      else if \<not> has_word Word_P k \<and> \<not> has_word Word_L k then err Error_GcodeValueWordMissing k
      else if l \<noteq> 20 \<and> (l \<noteq> 2 \<or> has_word Word_R k) then err Error_GcodeUnsupportedCommand k
      else
        let sel = (if 0 < pValue then int (unat pValue) - 1 + Coord_G54 else md_coord_select (k_modal k)) in
        if Coord_G28 \<le> sel then err Error_GcodeUnsupportedCoordSys k
        else
          let k1 = clear_words {Word_L, Word_P} k;
              pick_value = (\<lambda>idx v. if idx \<notin> aw then v
                 else if l = 20 then offset_for ge k1 (g_coord_offset (k_gc k1)) idx (v_xyz (k_values k1) idx)
                 else v_xyz (k_values k1) idx)
          in Inr (k_notify sel (k1\<lparr>k_coord_select := sel,
                 k_coord_data := each_axis ge pick_value (coord_set (w_ps (k_words k1)) sel)\<rparr>)))"

definition check_g92 :: "'c gc_env \<Rightarrow> 'c checked \<Rightarrow> 'c check" where
  "check_g92 ge k =
     (let aw = axis_words (k_words k); gs = k_gc k in
      if aw = {} then err Error_GcodeNoAxisWords k
      else Inr (k_notify Coord_G92 (set_values (\<lambda>vs. vs\<lparr>v_xyz := each_axis ge (\<lambda>idx v.
             if idx \<in> aw then offset_for ge k (k_block_coords k) idx v else g_coord_offset gs idx)
             (v_xyz vs)\<rparr>) k)))"

text \<open>The target in machine coordinates.\<close>

definition target_axis :: "'c gc_env \<Rightarrow> 'c checked \<Rightarrow> nat \<Rightarrow> rat \<Rightarrow> rat" where
  "target_axis ge k idx v =
     (let ar = ge_arith ge; gs = k_gc k in
      if idx \<notin> axis_words (k_words k) then g_position gs idx
      else if b_non_modal (w_block (k_words k)) = NonModal_AbsoluteOverride then v
      else if \<not> w_nonmodal_g38 (k_words k) \<and> md_distance (k_modal k) = Distance_Absolute then
        (let t = f_add ar v (f_add ar (k_block_coords k idx) (g_coord_offset gs idx))
         in if idx = TOOL_LENGTH_OFFSET_AXIS then f_add ar t (g_tool_length_offset gs) else t)
      else f_add ar v (g_position gs idx))"

definition compute_target :: "'c gc_env \<Rightarrow> 'c checked \<Rightarrow> 'c checked" where
  "compute_target ge k =
     (if w_axis_command (k_words k) \<noteq> AxisCommand_ToolLengthOffset \<and> axis_words (k_words k) \<noteq> {}
      then set_values (\<lambda>vs. vs\<lparr>v_xyz := each_axis ge (target_axis ge k) (v_xyz vs)\<rparr>) k else k)"

definition check_go_home :: "'c gc_env \<Rightarrow> coord_index \<Rightarrow> 'c checked \<Rightarrow> 'c check" where
  "check_go_home ge ci k =
     (let aw = axis_words (k_words k); data = coord_set (w_ps (k_words k)) ci in
      if aw \<noteq> {} then
        Inr (k\<lparr>k_coord_data := each_axis ge (\<lambda>idx v. if idx \<in> aw then v else g_position (k_gc k) idx) data\<rparr>)
      else Inr (k_upd (\<lambda>w. w\<lparr>w_axis_command := AxisCommand_None\<rparr>) (k\<lparr>k_coord_data := data\<rparr>)))"

definition check_non_modal :: "'c gc_env \<Rightarrow> 'c checked \<Rightarrow> 'c check" where
  "check_non_modal ge k =
     (let k1 = compute_target ge k in
      case b_non_modal (w_block (k_words k)) of
        NonModal_SetCoordinateData \<Rightarrow> check_g10 ge k
      | NonModal_SetCoordinateOffset \<Rightarrow> check_g92 ge k
      | NonModal_GoHome0 \<Rightarrow> check_go_home ge Coord_G28 k1
      | NonModal_GoHome1 \<Rightarrow> check_go_home ge Coord_G30 k1
      | NonModal_AbsoluteOverride \<Rightarrow>
          if \<not> (w_probe_explicit (k_words k1) \<or> md_motion (k_modal k1) = Motion_Seek
              \<or> md_motion (k_modal k1) = Motion_Linear)
          then err Error_GcodeG53InvalidMotionMode k1 else Inr k1
      | _ \<Rightarrow> Inr k1)"

section \<open>Motion modes\<close>

definition FLT_MAX :: rat where
  "FLT_MAX = (2 - 1 / 2 ^ 23) * 2 ^ 127"

definition hypot_f :: "rat arith \<Rightarrow> rat \<Rightarrow> rat \<Rightarrow> rat" where
  "hypot_f ar x y = sqrtf ar (f_add ar (f_mul ar x x) (f_mul ar y y))"

text \<open>\<open>memcmp\<close> over all axes, also those the machine does not have.\<close>

definition isequal_position_vector :: "(nat \<Rightarrow> rat) \<Rightarrow> (nat \<Rightarrow> rat) \<Rightarrow> bool" where
  "isequal_position_vector a b \<longleftrightarrow> list_all (\<lambda>idx. a idx = b idx) [0..<6]"

text \<open>The centre of an arc from its radius: radius mode.\<close>

definition check_arc_radius :: "'c gc_env \<Rightarrow> nat \<Rightarrow> nat \<Rightarrow> rat \<Rightarrow> rat \<Rightarrow> 'c checked \<Rightarrow> 'c check" where
  "check_arc_radius ge axis_0 axis_1 x y k =
     (let ar = ge_arith ge; k1 = clear_words {Word_R} k in
      if isequal_position_vector (g_position (k_gc k1)) (v_xyz (k_values k1)) then err Error_GcodeInvalidTarget k1
      else
        let r = (if inch_block k1 then inch_mul ge (v_r (k_values k1)) else v_r (k_values k1));
            h = f_sub ar (f_sub ar (f_mul ar (f_mul ar (f_lit ar 4) r) r) (f_mul ar x x)) (f_mul ar y y)
        in if f_less ar h (f_lit ar 0) then err Error_GcodeArcRadiusError k1
           else
             let c = f_chord ar h (hypot_f ar x y);
                 c1 = (if md_motion (k_modal k1) = Motion_CcwArc then f_neg ar c else c);
                 neg = f_less ar r (f_lit ar 0);
                 c2 = (if neg then f_neg ar c1 else c1);
                 half = f_lit ar (1 / 2)
             in Inr (set_values (\<lambda>vs. vs\<lparr>v_r := (if neg then f_neg ar r else r),
                  v_ijk := (v_ijk vs)(axis_0 := f_mul ar half (f_sub ar x (f_mul ar y c2)),
                                      axis_1 := f_mul ar half (f_add ar y (f_mul ar x c2)))\<rparr>) k1))"

text \<open>The radius of an arc from the offsets of its centre, and its error at the target.\<close>

definition check_arc_centre :: "'c gc_env \<Rightarrow> nat \<Rightarrow> nat \<Rightarrow> rat \<Rightarrow> rat \<Rightarrow> 'c checked \<Rightarrow> 'c check" where
  "check_arc_centre ge axis_0 axis_1 x y k =
     (let ar = ge_arith ge; ijkw = ijk_words (k_words k) in
      if ijkw \<inter> {axis_0, axis_1} = {} then err Error_GcodeNoOffsetsInPlane k
      else
        let k1 = clear_words {Word_I, Word_J, Word_K} k;
            k2 = (if inch_block k1
                  then set_values (\<lambda>vs. vs\<lparr>v_ijk := each_axis ge (\<lambda>idx v. if idx \<in> ijkw then inch_mul ge v else v)
                         (v_ijk vs)\<rparr>) k1 else k1);
            ijk = v_ijk (k_values k2);
            target_r = hypot_f ar (f_sub ar x (ijk axis_0)) (f_sub ar y (ijk axis_1));
            r = hypot_f ar (ijk axis_0) (ijk axis_1);
            k3 = set_values (\<lambda>vs. vs\<lparr>v_r := r\<rparr>) k2;
            delta_r = fabsf ar (f_sub ar target_r r)
        in if f_gt_d ar delta_r (5 / 1000) \<and> (f_gt_d ar delta_r (1 / 2) \<or> f_gt_mul_d ar delta_r (1 / 1000) r)
           then err Error_GcodeInvalidTarget k3 else Inr k3)"

definition check_arc :: "'c gc_env \<Rightarrow> 'c checked \<Rightarrow> 'c check" where
  "check_arc ge k =
     (let ar = ge_arith ge; (axis_0, axis_1, axis_linear) = plane_axes (md_plane (k_modal k));
          aw = axis_words (k_words k); p = v_p (k_values k);
          delta = (\<lambda>a. f_sub ar (v_xyz (k_values k) a) (g_position (k_gc k) a)) in
      if aw = {} then err Error_GcodeNoAxisWords k
      else if aw \<inter> {axis_0, axis_1} = {} then err Error_GcodeNoAxisWordsInPlane k
      else if \<not> f_eq ar p (truncf ar p) \<or> f_less ar p (f_lit ar 0) then err Error_GcodeCommandValueNotInteger k
      else then_check
        (if has_word Word_R k then check_arc_radius ge axis_0 axis_1 (delta axis_0) (delta axis_1) k
         else check_arc_centre ge axis_0 axis_1 (delta axis_0) (delta axis_1) k)
        (\<lambda>k. Inr (clear_words {Word_P} k)))"

definition check_probe :: "'c checked \<Rightarrow> 'c check" where
  "check_probe k =
     (let aw = axis_words (k_words k) in
      if has_word Word_P k \<and> 1 < card aw then err Error_GcodeUnusedWords k
      else
        let k1 = (if has_word Word_P k then k else set_values (\<lambda>vs. vs\<lparr>v_p := FLT_MAX\<rparr>) k);
            k2 = clear_words {Word_P} k1
        in if aw = {} then err Error_GcodeNoAxisWords k2
           else if isequal_position_vector (g_position (k_gc k2)) (v_xyz (k_values k2))
           then err Error_GcodeInvalidTarget k2 else Inr k2)"

text \<open>A motion without axis words is not carried out.\<close>

definition optional_axes :: "'c checked \<Rightarrow> 'c check" where
  "optional_axes k =
     Inr (if axis_words (k_words k) = {}
          then k_upd (\<lambda>w. w\<lparr>w_axis_command := AxisCommand_None\<rparr>) k else k)"

definition check_motion :: "'c gc_env \<Rightarrow> 'c checked \<Rightarrow> 'c check" where
  "check_motion ge k =
     (let m = md_motion (k_modal k) in
      if m = Motion_None then
        (if axis_words (k_words k) \<noteq> {} then err Error_GcodeAxisWordsExist k else Inr k)
      else if w_axis_command (k_words k) \<noteq> AxisCommand_MotionMode then Inr k
      else if m = Motion_Seek then optional_axes k
      else if f_zero (ge_arith ge) (v_f (k_values k)) then err Error_GcodeUndefinedFeedRate k
      else if m = Motion_Linear then optional_axes k
      else if m = Motion_CwArc then check_arc ge (k\<lparr>k_clockwise := True\<rparr>)
      else if m = Motion_CcwArc then check_arc ge k
      else check_probe
             (k\<lparr>k_probe_no_error := (m = Motion_ProbeTowardNoError \<or> m = Motion_ProbeAwayNoError),
               k_probe_away := (m = Motion_ProbeAway \<or> m = Motion_ProbeAwayNoError)\<rparr>))"

text \<open>The words of the block that nothing has used.\<close>

definition check_unused :: "bool \<Rightarrow> 'c checked \<Rightarrow> 'c check" where
  "check_unused jog k =
     (let single = (if jog then {Word_N, Word_F} else {Word_N, Word_F, Word_S, Word_T});
          axes = (if w_axis_command (k_words k) \<noteq> AxisCommand_None
                  then {Word_X, Word_Y, Word_Z, Word_A, Word_B, Word_C} else {});
          k1 = clear_words (single \<union> axes \<union> {Word_D, Word_O}) k
      in if value_words (k_words k1) \<noteq> {} then err Error_GcodeUnusedWords k1 else Inr k1)"

section \<open>The whole check\<close>

definition start_check :: "'c words \<Rightarrow> 'c checked" where
  "start_check w =
     \<lparr>k_words = w, k_coord_select = Coord_G54, k_coord_data = (\<lambda>i. 0), k_block_coords = (\<lambda>i. 0),
      k_clockwise = False, k_probe_away = False, k_probe_no_error = False, k_wait_digital = False\<rparr>"

definition checks :: "'c gc_env \<Rightarrow> bool \<Rightarrow> ('c checked \<Rightarrow> 'c check) list" where
  "checks ge jog =
     [check_common, check_feed ge jog, check_speed, check_override ge, check_dwell, check_io ge,
      check_tool_number, check_units ge, check_tlo, check_coords, check_non_modal ge, check_motion ge,
      check_unused jog]"

primrec run_checks :: "('c checked \<Rightarrow> 'c check) list \<Rightarrow> 'c checked \<Rightarrow> 'c check" where
  "run_checks [] k = Inr k"
| "run_checks (f # fs) k = then_check (f k) (run_checks fs)"

definition check_block :: "'c gc_env \<Rightarrow> bool \<Rightarrow> 'c words \<Rightarrow> 'c check" where
  "check_block ge jog w = run_checks (checks ge jog) (start_check w)"

end
