(* ===== verification/GCodeExec.thy ===== *)
theory GCodeExec
  imports GCodeCheck Flowcontrol
begin

text \<open>
  FluidNC/src/GCode.cpp, step 4 of \<open>gc_execute_line\<close> and the function as a whole: the
  checked block updates the modes, and what it makes the rest of the firmware do is recorded
  in order. What the rest answers (the spindle, the inputs and outputs, the motion control)
  is an environment.
\<close>

section \<open>Effects and environment\<close>

text \<open>The members of \<open>plan_line_data_t\<close> that a block sets.\<close>

record plan_line =
  pl_line_number :: int
  pl_feed_rate :: rat
  pl_inverse_time :: bool
  pl_rapid :: bool
  pl_no_feed_override :: bool
  pl_is_jog :: bool
  pl_spindle_speed :: rat
  pl_spindle :: spindle_state
  pl_mist :: bool
  pl_flood :: bool

definition no_plan :: plan_line where
  "no_plan =
     \<lparr>pl_line_number = 0, pl_feed_rate = 0, pl_inverse_time = False, pl_rapid = False,
      pl_no_feed_override = False, pl_is_jog = False, pl_spindle_speed = 0,
      pl_spindle = SpindleState_Unknown, pl_mist = False, pl_flood = False\<rparr>"

datatype gc_effect =
    Collapse collapse_effect | BufferSync | SpindleSetState spindle_state int | OverridesChanged
  | WcoChanged | SwitchSpindle u32 | ToolChanged u32 bool | CoolantSetState bool bool
  | SetDigital int bool | SetAnalog int rat | Dwell int | OverrideControl override_mode
  | StoreCoords coord_index | McLinear "nat \<Rightarrow> rat" plan_line
  | McArc "nat \<Rightarrow> rat" plan_line "nat \<Rightarrow> rat" rat plane bool int
  | McProbe "nat \<Rightarrow> rat" plan_line bool bool rat | SendFeedHold | ExecuteRt | ChannelEnd nat
  | RestoreOverrides | SpinDown | CoolantStopped | ProgramEnded

datatype update_pos = UpdatePos_Target | UpdatePos_System | UpdatePos_None

record 'c exec_env =
  xe_ge :: "'c gc_env"
  xe_set_digital :: "int \<Rightarrow> bool \<Rightarrow> bool"
  xe_set_analog :: "int \<Rightarrow> rat \<Rightarrow> bool"
  xe_read_input :: "bool \<Rightarrow> u8 \<Rightarrow> error_code + bool"
  xe_switch :: "u32 \<Rightarrow> bool \<times> bool"
  xe_no_changer :: bool
  xe_abort :: bool
  xe_probe :: "update_pos \<times> (nat \<Rightarrow> rat)"
  xe_motor_position :: "nat \<Rightarrow> rat"
  xe_constrain_jog :: "(nat \<Rightarrow> rat) \<Rightarrow> nat \<Rightarrow> rat"
  xe_jog_planned :: bool
  xe_deactivate_parking :: bool

section \<open>Variables\<close>

record 'c exec =
  x_k :: "'c checked"
  x_plan :: plan_line
  x_eff :: "gc_effect list"
  x_sync_laser :: bool
  x_disable_laser :: bool
  x_laser_is_motion :: bool

type_synonym 'c run = "(error_code \<times> 'c exec) + 'c exec"

definition then_run :: "'c run \<Rightarrow> ('c exec \<Rightarrow> 'c run) \<Rightarrow> 'c run" where
  "then_run x f = (case x of Inl e \<Rightarrow> Inl e | Inr s \<Rightarrow> f s)"

definition x_do :: "gc_effect list \<Rightarrow> 'c exec \<Rightarrow> 'c exec" where
  "x_do es x = x\<lparr>x_eff := x_eff x @ es\<rparr>"

definition x_gc :: "'c exec \<Rightarrow> gc_state" where
  "x_gc x = k_gc (x_k x)"

definition x_modal :: "'c exec \<Rightarrow> gc_modal" where
  "x_modal x = k_modal (x_k x)"

definition x_values :: "'c exec \<Rightarrow> gc_values" where
  "x_values x = k_values (x_k x)"

definition x_axis_command :: "'c exec \<Rightarrow> axis_command" where
  "x_axis_command x = w_axis_command (k_words (x_k x))"

definition ps_upd :: "('c pstate \<Rightarrow> 'c pstate) \<Rightarrow> 'c exec \<Rightarrow> 'c exec" where
  "ps_upd f x = x\<lparr>x_k := k_upd (\<lambda>w. w\<lparr>w_ps := f (w_ps w)\<rparr>) (x_k x)\<rparr>"

definition gs_upd :: "(gc_state \<Rightarrow> gc_state) \<Rightarrow> 'c exec \<Rightarrow> 'c exec" where
  "gs_upd f = ps_upd (gc_upd f)"

definition gmd_upd :: "(gc_modal \<Rightarrow> gc_modal) \<Rightarrow> 'c exec \<Rightarrow> 'c exec" where
  "gmd_upd f = gs_upd (\<lambda>gs. gs\<lparr>g_modal := f (g_modal gs)\<rparr>)"

definition pl_upd :: "(plan_line \<Rightarrow> plan_line) \<Rightarrow> 'c exec \<Rightarrow> 'c exec" where
  "pl_upd f x = x\<lparr>x_plan := f (x_plan x)\<rparr>"

definition block_modal :: "(gc_modal \<Rightarrow> gc_modal) \<Rightarrow> 'c exec \<Rightarrow> 'c exec" where
  "block_modal f x = x\<lparr>x_k := k_upd (md_upd f) (x_k x)\<rparr>"

definition block_values :: "(gc_values \<Rightarrow> gc_values) \<Rightarrow> 'c exec \<Rightarrow> 'c exec" where
  "block_values f x = x\<lparr>x_k := set_values f (x_k x)\<rparr>"

definition check_mode :: "'c exec_env \<Rightarrow> bool" where
  "check_mode xe \<longleftrightarrow> rd_mode (ge_rd (xe_ge xe)) = CheckMode"

definition xe_arith :: "'c exec_env \<Rightarrow> rat arith" where
  "xe_arith xe = ge_arith (xe_ge xe)"

text \<open>\<open>coords[ci]->set(v)\<close>, and \<open>gc_wco_changed\<close> and \<open>gc_ngc_changed\<close>.\<close>

definition store_coords :: "coord_index \<Rightarrow> (nat \<Rightarrow> rat) \<Rightarrow> 'c exec \<Rightarrow> 'c exec" where
  "store_coords ci v x =
     x_do [BufferSync, StoreCoords ci] (ps_upd (\<lambda>ps. ps\<lparr>coord_set := (coord_set ps)(ci := v)\<rparr>) x)"

definition wco_changed :: "'c exec \<Rightarrow> 'c exec" where
  "wco_changed = x_do [BufferSync, WcoChanged]"

definition ngc_notify :: "coord_index \<Rightarrow> 'c exec \<Rightarrow> 'c exec" where
  "ngc_notify ci = ps_upd (notify ci)"

section \<open>Laser, feed rate and spindle speed\<close>

definition feedrate_motion :: "motion \<Rightarrow> bool" where
  "feedrate_motion m \<longleftrightarrow> m \<in> {Motion_Linear, Motion_CwArc, Motion_CcwArc}"

definition run_laser :: "'c exec_env \<Rightarrow> 'c exec \<Rightarrow> 'c run" where
  "run_laser xe x =
     Inr (if \<not> ge_rate_adjusted (xe_ge xe) then x
          else
            let off = \<not> feedrate_motion (md_motion (x_modal x));
                x1 = x\<lparr>x_disable_laser := off\<rparr>
            in if axis_words (k_words (x_k x1)) \<noteq> {} \<and> x_axis_command x1 = AxisCommand_MotionMode
               then x1\<lparr>x_laser_is_motion := True\<rparr>
               else if md_spindle (g_modal (x_gc x1)) = SpindleState_Cw then
                 x1\<lparr>x_sync_laser := (if feedrate_motion (md_motion (g_modal (x_gc x1))) then off else \<not> off)\<rparr>
               else x1)"

definition run_feed :: "'c exec \<Rightarrow> 'c run" where
  "run_feed x =
     (let vs = x_values x; md = x_modal x in
      Inr (pl_upd (\<lambda>p. p\<lparr>pl_line_number := v_n vs, pl_feed_rate := v_f vs,
                          pl_inverse_time := (md_feed_rate md = FeedRate_InverseTime)\<rparr>)
            (gs_upd (\<lambda>gs. gs\<lparr>g_line_number := v_n vs, g_feed_rate := v_f vs,
                g_modal := (g_modal gs)\<lparr>md_feed_rate := md_feed_rate md\<rparr>\<rparr>) x)))"

definition run_speed :: "'c exec_env \<Rightarrow> 'c exec \<Rightarrow> 'c run" where
  "run_speed xe x =
     (let ar = xe_arith xe; s = v_s (x_values x); gs = x_gc x;
          x1 = (if \<not> f_eq ar (g_spindle_speed gs) s \<or> x_sync_laser x then
                  gs_upd (\<lambda>gs. gs\<lparr>g_spindle_speed := s\<rparr>)
                    (if md_spindle (g_modal gs) \<noteq> SpindleState_Disable \<and> \<not> x_laser_is_motion x \<and> \<not> check_mode xe
                     then x_do [BufferSync, SpindleSetState (md_spindle (g_modal gs))
                                  (if x_disable_laser x then 0 else f_int ar s), OverridesChanged] x
                     else x)
                else x)
      in Inr (if x_disable_laser x1 then x1
              else pl_upd (\<lambda>p. p\<lparr>pl_spindle_speed := g_spindle_speed (x_gc x1)\<rparr>) x1))"

section \<open>Tools\<close>

text \<open>\<open>switchSpindle\<close>, and what both tool commands do with its answers.\<close>

definition switch_spindle :: "'c exec_env \<Rightarrow> u32 \<Rightarrow> 'c exec \<Rightarrow> 'c exec" where
  "switch_spindle xe tool x =
     (let (stopped, fresh) = xe_switch xe tool;
          x1 = x_do [BufferSync, SwitchSpindle tool] x;
          x2 = (if stopped then block_modal (\<lambda>md. md\<lparr>md_spindle := SpindleState_Disable\<rparr>) x1 else x1)
      in if fresh then gs_upd (\<lambda>gs. gs\<lparr>g_spindle_speed := 0\<rparr>) x2 else x2)"

definition run_tool_change :: "'c exec_env \<Rightarrow> 'c exec \<Rightarrow> 'c run" where
  "run_tool_change xe x =
     (let tool = g_selected_tool (x_gc x) in
      if md_tool_change (x_modal x) \<and> tool \<noteq> of_int (g_current_tool (x_gc x)) then
        let x1 = x_do [ToolChanged tool False] (switch_spindle xe tool x);
            x2 = (if xe_no_changer xe then gs_upd (\<lambda>gs. gs\<lparr>g_current_tool := sint tool\<rparr>) x1 else x1)
        in Inr (x_do [OverridesChanged] x2)
      else Inr x)"

definition run_tool_number :: "'c exec_env \<Rightarrow> 'c exec \<Rightarrow> 'c run" where
  "run_tool_number xe x =
     (let ar = xe_arith xe; q = v_q (x_values x); tool = (of_int (f_int ar q) :: u32) in
      if \<not> md_set_tool_number (x_modal x) then Inr x
      else if f_less ar q (f_lit ar 0) then Inl (Error_NegativeValue, x)
      else
        let x1 = switch_spindle xe tool (gs_upd (\<lambda>gs. gs\<lparr>g_selected_tool := tool\<rparr>) x)
        in Inr (x_do [OverridesChanged] (gs_upd (\<lambda>gs. gs\<lparr>g_current_tool := f_int ar q\<rparr>)
             (x_do [ToolChanged tool True] x1))))"

section \<open>Spindle, coolant, inputs and outputs\<close>

definition run_spindle :: "'c exec_env \<Rightarrow> 'c exec \<Rightarrow> 'c run" where
  "run_spindle xe x =
     (let sp = md_spindle (x_modal x);
          x1 = (if md_spindle (g_modal (x_gc x)) \<noteq> sp then
                  gmd_upd (\<lambda>md. md\<lparr>md_spindle := sp\<rparr>)
                    (x_do ((if check_mode xe then []
                            else [BufferSync, SpindleSetState sp (f_int (xe_arith xe) (pl_spindle_speed (x_plan x)))])
                           @ [OverridesChanged]) x)
                else x)
      in Inr (pl_upd (\<lambda>p. p\<lparr>pl_spindle := md_spindle (g_modal (x_gc x1))\<rparr>) x1))"

text \<open>M7.1 and M8.1 switch off: the code asks the mantissa of the last word of the block.\<close>

definition run_coolant :: "'c exec_env \<Rightarrow> 'c exec \<Rightarrow> 'c run" where
  "run_coolant xe x =
     (let c = b_coolant (w_block (k_words (x_k x)));
          on = (w_mantissa (k_words (x_k x)) \<noteq> 10);
          x1 = (case c of
                  GCodeCoolant_None \<Rightarrow> x
                | GCodeCoolant_M7 \<Rightarrow> gmd_upd (\<lambda>md. md\<lparr>md_mist := on\<rparr>) x
                | GCodeCoolant_M8 \<Rightarrow> gmd_upd (\<lambda>md. md\<lparr>md_flood := on\<rparr>) x
                | GCodeCoolant_M9 \<Rightarrow> gmd_upd (\<lambda>md. md\<lparr>md_mist := False, md_flood := False\<rparr>) x);
          md = g_modal (x_gc x1);
          x2 = (if c \<noteq> GCodeCoolant_None \<and> \<not> check_mode xe
                then x_do [BufferSync, CoolantSetState (md_mist md) (md_flood md), OverridesChanged] x1 else x1)
      in Inr (pl_upd (\<lambda>p. p\<lparr>pl_mist := md_mist md, pl_flood := md_flood md\<rparr>) x2))"

definition MaxUserDigitalPin :: int where
  "MaxUserDigitalPin = 8"

definition MaxUserAnalogPin :: int where
  "MaxUserAnalogPin = 4"

definition run_digital :: "'c exec_env \<Rightarrow> 'c exec \<Rightarrow> 'c run" where
  "run_digital xe x =
     (let ar = xe_arith xe; io = md_io_control (x_modal x); p = v_p (x_values x);
          on = (io = IoControl_DigitalOnSync \<or> io = IoControl_DigitalOnImmediate);
          sync = (io = IoControl_DigitalOnSync \<or> io = IoControl_DigitalOffSync) in
      if \<not> digital_io io then Inr x
      else if \<not> f_less ar p (f_lit ar (of_int MaxUserDigitalPin)) then Inl (Error_PParamMaxExceeded, x)
      else
        let x1 = x_do ((if sync then [BufferSync] else []) @ [SetDigital (f_int ar p) on]) x
        in if xe_set_digital xe (f_int ar p) on then Inr x1 else Inl (Error_PParamMaxExceeded, x1))"

definition run_analog :: "'c exec_env \<Rightarrow> 'c exec \<Rightarrow> 'c run" where
  "run_analog xe x =
     (let ar = xe_arith xe; io = md_io_control (x_modal x); e = uint (v_e (x_values x)); q = v_q (x_values x);
          q1 = (if f_less ar q (f_lit ar 0) then f_lit ar 0
                else if f_less ar (f_lit ar 100) q then f_lit ar 100 else q) in
      if \<not> analog_io io then Inr x
      else if \<not> e < MaxUserAnalogPin then Inl (Error_PParamMaxExceeded, x)
      else
        let x1 = x_do ((if io = IoControl_SetAnalogSync then [BufferSync] else []) @ [SetAnalog e q1])
                   (block_values (\<lambda>vs. vs\<lparr>v_q := q1\<rparr>) x)
        in if xe_set_analog xe e q1 then Inr x1 else Inl (Error_PParamMaxExceeded, x1))"

text \<open>The number of the input: the two bounds are both on the digital branch.\<close>

definition validate_input_number :: "rat arith \<Rightarrow> bool \<Rightarrow> rat \<Rightarrow> u8 option" where
  "validate_input_number ar digital v =
     (if f_less ar v (f_lit ar 0) then None
      else if digital \<and> (f_less ar (f_lit ar (of_int MaxUserDigitalPin)) v
                         \<or> f_less ar (f_lit ar (of_int MaxUserAnalogPin)) v) then None
      else Some (of_int (f_int ar v)))"

text \<open>The result of \<open>gc_wait_on_input\<close>; its caller ignores the error.\<close>

definition gc_wait_on_input :: "'c exec_env \<Rightarrow> bool \<Rightarrow> u8 \<Rightarrow> wait_mode \<Rightarrow> 'c pstate \<Rightarrow> error_code \<times> 'c pstate" where
  "gc_wait_on_input xe digital input m ps =
     (if m = Wait_Immediate then
        (case xe_read_input xe digital input of
           Inl e \<Rightarrow> (e, ps)
         | Inr b \<Rightarrow> (Error_Ok, snd (set_numbered_param (ge_rd (xe_ge xe)) 5399 (f_bool (xe_arith xe) b) ps)))
      else (Error_GcodeValueWordInvalid, ps))"

definition run_wait :: "'c exec_env \<Rightarrow> 'c exec \<Rightarrow> 'c run" where
  "run_wait xe x =
     (let ar = xe_arith xe; vs = x_values x; digital = k_wait_digital (x_k x) in
      if md_io_control (x_modal x) \<noteq> IoControl_WaitOnInput then Inr x
      else case validate_input_number ar digital (if digital then v_p vs else f_lit ar (of_int (uint (v_e vs)))) of
        None \<Rightarrow> Inl (Error_PParamMaxExceeded, x)
      | Some input \<Rightarrow>
          (case validate_wait_on_input_mode_value (v_l vs) of
             None \<Rightarrow> Inr x
           | Some m \<Rightarrow> Inr (ps_upd (\<lambda>ps. snd (gc_wait_on_input xe digital input m ps)) x)))"

section \<open>Modes and offsets\<close>

definition run_override :: "'c exec_env \<Rightarrow> 'c exec \<Rightarrow> 'c run" where
  "run_override xe x =
     (let ov = md_override (x_modal x) in
      Inr (if ge_parking_override (xe_ge xe) \<and> md_override (g_modal (x_gc x)) \<noteq> ov
           then x_do [OverrideControl ov] (gmd_upd (\<lambda>md. md\<lparr>md_override := ov\<rparr>) x) else x))"

definition run_dwell :: "'c exec_env \<Rightarrow> 'c exec \<Rightarrow> 'c run" where
  "run_dwell xe x =
     (let ar = xe_arith xe in
      Inr (if b_non_modal (w_block (k_words (x_k x))) = NonModal_Dwell
           then x_do [Dwell (f_int ar (f_mul ar (v_p (x_values x)) (f_lit ar 1000)))] x else x))"

definition run_plane_units :: "'c exec \<Rightarrow> 'c run" where
  "run_plane_units x =
     (let md = x_modal x in Inr (gmd_upd (\<lambda>m. m\<lparr>md_plane := md_plane md, md_units := md_units md\<rparr>) x))"

definition run_tlo :: "'c exec \<Rightarrow> 'c run" where
  "run_tlo x =
     (if x_axis_command x = AxisCommand_ToolLengthOffset then
        let md = x_modal x;
            x1 = gmd_upd (\<lambda>m. m\<lparr>md_tool_length := md_tool_length md\<rparr>) x;
            x2 = (if md_tool_length md = ToolLengthOffset_Cancel
                  then block_values (\<lambda>vs. vs\<lparr>v_xyz := (v_xyz vs)(TOOL_LENGTH_OFFSET_AXIS := 0)\<rparr>) x1 else x1)
        in Inr (gs_upd (\<lambda>gs. gs\<lparr>g_tool_length_offset := v_xyz (x_values x2) TOOL_LENGTH_OFFSET_AXIS\<rparr>) x2)
      else Inr x)"

definition run_coords :: "'c exec \<Rightarrow> 'c run" where
  "run_coords x =
     (let sel = md_coord_select (x_modal x) in
      Inr (if md_coord_select (g_modal (x_gc x)) \<noteq> sel
           then wco_changed (gs_upd (\<lambda>gs. gs\<lparr>g_modal := (g_modal gs)\<lparr>md_coord_select := sel\<rparr>,
                  g_coord_system := k_block_coords (x_k x)\<rparr>) x)
           else x))"

definition run_distance :: "'c exec \<Rightarrow> 'c run" where
  "run_distance x =
     (let d = md_distance (x_modal x) in Inr (gmd_upd (\<lambda>m. m\<lparr>md_distance := d\<rparr>) x))"

definition mc_linear :: "(nat \<Rightarrow> rat) \<Rightarrow> 'c exec \<Rightarrow> 'c exec" where
  "mc_linear target x = x_do [McLinear target (x_plan x)] x"

definition run_go_home :: "'c exec \<Rightarrow> 'c exec" where
  "run_go_home x =
     (let data = k_coord_data (x_k x);
          x1 = pl_upd (\<lambda>p. p\<lparr>pl_rapid := True\<rparr>) x;
          x2 = (if x_axis_command x1 \<noteq> AxisCommand_None then mc_linear (v_xyz (x_values x1)) x1 else x1)
      in gs_upd (\<lambda>gs. gs\<lparr>g_position := data\<rparr>) (mc_linear data x2))"

definition run_non_modal :: "'c exec \<Rightarrow> 'c run" where
  "run_non_modal x =
     Inr (case b_non_modal (w_block (k_words (x_k x))) of
            NonModal_SetCoordinateData \<Rightarrow>
              let sel = k_coord_select (x_k x); data = k_coord_data (x_k x);
                  x1 = wco_changed (store_coords sel data x)
              in if md_coord_select (g_modal (x_gc x1)) = sel
                 then gs_upd (\<lambda>gs. gs\<lparr>g_coord_system := data\<rparr>) x1 else x1
          | NonModal_GoHome0 \<Rightarrow> run_go_home x
          | NonModal_GoHome1 \<Rightarrow> run_go_home x
          | NonModal_SetHome0 \<Rightarrow> ngc_notify Coord_G28 (store_coords Coord_G28 (g_position (x_gc x)) x)
          | NonModal_SetHome1 \<Rightarrow> ngc_notify Coord_G30 (store_coords Coord_G30 (g_position (x_gc x)) x)
          | NonModal_SetCoordinateOffset \<Rightarrow>
              let off = v_xyz (x_values x)
              in wco_changed (ngc_notify Coord_G92 (gs_upd (\<lambda>gs. gs\<lparr>g_coord_offset := off\<rparr>) x))
          | NonModal_ResetCoordinateOffset \<Rightarrow>
              wco_changed (ngc_notify Coord_G92 (gs_upd (\<lambda>gs. gs\<lparr>g_coord_offset := (\<lambda>i. 0)\<rparr>) x))
          | _ \<Rightarrow> x)"

section \<open>Motion and program flow\<close>

text \<open>The position of the interpreter follows the motors.\<close>

definition gc_sync_position :: "(nat \<Rightarrow> rat) \<Rightarrow> gc_state \<Rightarrow> gc_state" where
  "gc_sync_position mpos gs = gs\<lparr>g_position := mpos\<rparr>"

text \<open>The motion itself: the new variables and how the position follows.\<close>

definition run_motion_command :: "'c exec_env \<Rightarrow> motion \<Rightarrow> 'c exec \<Rightarrow> 'c exec \<times> update_pos" where
  "run_motion_command xe m x =
     (let vs = x_values x in
      if m = Motion_Linear then (mc_linear (v_xyz vs) x, UpdatePos_Target)
      else if m = Motion_Seek then
        (mc_linear (v_xyz vs) (pl_upd (\<lambda>p. p\<lparr>pl_rapid := True\<rparr>) x), UpdatePos_Target)
      else if m = Motion_CwArc \<or> m = Motion_CcwArc then
        (x_do [McArc (v_xyz vs) (x_plan x) (v_ijk vs) (v_r vs) (md_plane (x_modal x)) (k_clockwise (x_k x))
                 (f_int (xe_arith xe) (v_p vs))] x, UpdatePos_Target)
      else
        let x1 = pl_upd (\<lambda>p. p\<lparr>pl_no_feed_override := True\<rparr>) x;
            x2 = x_do [McProbe (v_xyz vs) (x_plan x1) (k_probe_away (x_k x1)) (k_probe_no_error (x_k x1)) (v_p vs)] x1
        in (block_values (\<lambda>vs. vs\<lparr>v_xyz := snd (xe_probe xe)\<rparr>) x2, fst (xe_probe xe)))"

definition run_motion :: "'c exec_env \<Rightarrow> 'c exec \<Rightarrow> 'c run" where
  "run_motion xe x =
     (let m = md_motion (x_modal x); x1 = gmd_upd (\<lambda>md. md\<lparr>md_motion := m\<rparr>) x in
      if m \<noteq> Motion_None \<and> x_axis_command x1 = AxisCommand_MotionMode then
        let (x2, up) = run_motion_command xe m x1; xyz = v_xyz (x_values x2) in
        if xe_abort xe then Inl (Error_Reset, x2)
        else Inr (case up of
                    UpdatePos_Target \<Rightarrow> gs_upd (\<lambda>gs. gs\<lparr>g_position := xyz\<rparr>) x2
                  | UpdatePos_System \<Rightarrow> gs_upd (gc_sync_position (xe_motor_position xe)) x2
                  | UpdatePos_None \<Rightarrow> x2)
      else Inr x1)"

definition end_program :: "'c exec_env \<Rightarrow> 'c exec \<Rightarrow> 'c exec" where
  "end_program xe x =
     (let ends = (case job_channel (p_jobs (w_ps (k_words (x_k x)))) of None \<Rightarrow> [] | Some ch \<Rightarrow> [ChannelEnd ch]);
          ov = (if xe_deactivate_parking xe then Override_Disabled else Override_ParkingMotion);
          x1 = gmd_upd (\<lambda>md. md\<lparr>md_motion := Motion_Linear, md_plane := Plane_XY,
                 md_distance := Distance_Absolute, md_feed_rate := FeedRate_UnitsPerMin,
                 md_coord_select := Coord_G54, md_spindle := SpindleState_Disable,
                 md_mist := False, md_flood := False,
                 md_override := (if ge_parking_override (xe_ge xe) then ov else md_override md)\<rparr>)
                 (x_do (BufferSync # ends) x);
          x2 = x_do [RestoreOverrides] x1;
          g54 = coord_set (w_ps (k_words (x_k x2))) Coord_G54;
          x3 = (if check_mode xe then x2
                else x_do [SpinDown, CoolantStopped, OverridesChanged]
                       (wco_changed (gs_upd (\<lambda>gs. gs\<lparr>g_coord_system := g54\<rparr>) x2)))
      in x_do [ProgramEnded] x3)"

definition run_program_flow :: "'c exec_env \<Rightarrow> 'c exec \<Rightarrow> 'c run" where
  "run_program_flow xe x =
     Inr (gmd_upd (\<lambda>md. md\<lparr>md_program_flow := ProgramFlow_Running\<rparr>)
       (case md_program_flow (x_modal x) of
          ProgramFlow_Paused \<Rightarrow>
            x_do (BufferSync # (if check_mode xe then [] else [SendFeedHold, ExecuteRt])) x
        | ProgramFlow_CompletedM2 \<Rightarrow> end_program xe x
        | ProgramFlow_CompletedM30 \<Rightarrow> end_program xe x
        | _ \<Rightarrow> x))"

section \<open>The block\<close>

definition start_run :: "'c checked \<Rightarrow> 'c exec" where
  "start_run k =
     \<lparr>x_k = k, x_plan = no_plan, x_eff = [], x_sync_laser = False, x_disable_laser = False,
      x_laser_is_motion = False\<rparr>"

definition runs :: "'c exec_env \<Rightarrow> ('c exec \<Rightarrow> 'c run) list" where
  "runs xe =
     [run_laser xe, run_feed, run_speed xe, run_tool_change xe, run_tool_number xe, run_spindle xe,
      run_coolant xe, run_digital xe, run_analog xe, run_wait xe, run_override xe, run_dwell xe,
      run_plane_units, run_tlo, run_coords, run_distance, run_non_modal, run_motion xe, run_program_flow xe]"

primrec run_all :: "('c exec \<Rightarrow> 'c run) list \<Rightarrow> 'c exec \<Rightarrow> 'c run" where
  "run_all [] x = Inr x"
| "run_all (f # fs) x = then_run (f x) (run_all fs)"

definition run_block :: "'c exec_env \<Rightarrow> 'c checked \<Rightarrow> error_code \<times> 'c pstate \<times> gc_effect list" where
  "run_block xe k =
     (case run_all (runs xe) (start_run k) of
        Inl (e, x) \<Rightarrow> (e, w_ps (k_words (x_k x)), x_eff x)
      | Inr x \<Rightarrow>
          let (ok, ps) = perform_assignments (ge_rd (xe_ge xe)) (w_ps (k_words (x_k x)))
          in (if ok then Error_Ok else Error_ParameterAssignmentFailed, ps, x_eff x))"

text \<open>
  A jog: the position follows when the motion was planned; a cancelled one is no error. The
  assignments are not performed.
\<close>

definition run_jog :: "'c exec_env \<Rightarrow> 'c checked \<Rightarrow> error_code \<times> 'c pstate \<times> gc_effect list" where
  "run_jog xe k =
     (let ps = w_ps (k_words k); gs = p_gc ps; md = g_modal gs; vs = k_values k;
          nm = b_non_modal (w_block (k_words k));
          xyz = xe_constrain_jog xe (v_xyz vs);
          plan = no_plan\<lparr>pl_line_number := v_n vs, pl_feed_rate := v_f vs, pl_no_feed_override := True,
                    pl_is_jog := True, pl_spindle_speed := g_spindle_speed gs, pl_spindle := md_spindle md,
                    pl_mist := md_mist md, pl_flood := md_flood md\<rparr>
      in if \<not> command_words (k_words k) \<subseteq> {MG3, MG6, MG0} then (Error_InvalidJogCommand, ps, [])
         else if nm \<noteq> NonModal_AbsoluteOverride \<and> nm \<noteq> NonModal_NoAction then (Error_InvalidJogCommand, ps, [])
         else (Error_Ok,
               if xe_jog_planned xe then gc_upd (\<lambda>gs. gs\<lparr>g_position := xyz\<rparr>) ps else ps,
               [McLinear xyz plan]))"

section \<open>The line\<close>

text \<open>
  The state of the interpreter between lines: the parameters and modes, and the context of
  the flow control, which shares the jobs with them.
\<close>

record 'c interpreter =
  i_ps :: "'c pstate"
  i_context :: "ngc_entry list"
  i_alarms :: "int list"

text \<open>The expression evaluator that flow control asks, at a position of the line.\<close>

definition line_evaluator :: "'c readings \<Rightarrow> 'c pstate \<Rightarrow> evaluator" where
  "line_evaluator rd ps line pos =
     (case c_expression (all_calls (rd_arith rd) (env_of rd ps)) (drop pos line) of
        Read v r \<Rightarrow> (Error_Ok, v) | Fail e \<Rightarrow> (e, 0) | Stuck \<Rightarrow> (Error_ExpressionInvalidResult, 0))"

definition run_flow ::
    "'c exec_env \<Rightarrow> string \<Rightarrow> u32 \<Rightarrow> string \<Rightarrow> 'c pstate \<Rightarrow> 'c interpreter \<Rightarrow> (error_code \<times> 'c interpreter) option" where
  "run_flow xe line label rest ps i =
     (case flowcontrol (line_evaluator (ge_rd (xe_ge xe)) ps) label line (length line - length rest)
             (g_skip_blocks (p_gc ps))
             \<lparr>fcontext = i_context i, fjobs = p_jobs ps, alarms = i_alarms i\<rparr> of
        None \<Rightarrow> None
      | Some (e, skipping, f) \<Rightarrow>
          Some (e, i\<lparr>i_ps := gc_upd (\<lambda>gs. gs\<lparr>g_skip_blocks := skipping\<rparr>) (ps\<lparr>p_jobs := fjobs f\<rparr>),
                     i_context := fcontext f, i_alarms := alarms f\<rparr>))"

text \<open>None is undefined behaviour in the flow control.\<close>

definition gc_execute_line ::
    "'c exec_env \<Rightarrow> string \<Rightarrow> 'c interpreter \<Rightarrow> (error_code \<times> 'c interpreter \<times> gc_effect list) option" where
  "gc_execute_line xe line i =
     (let ps = i_ps i;
          (gline, comments) = collapseGCode (g_skip_blocks (p_gc ps)) (job_active (p_jobs ps)) line;
          finish_line = (\<lambda>(e, ps', es). Some (e, i\<lparr>i_ps := ps'\<rparr>, map Collapse comments @ es))
      in case parse_line (xe_ge xe) ps gline of
           Returned e ps' \<Rightarrow> finish_line (e, ps', [])
         | ToFlow label rest ps' \<Rightarrow>
             (case run_flow xe gline label rest ps' i of
                None \<Rightarrow> None | Some (e, i') \<Rightarrow> Some (e, i', map Collapse comments))
         | Parsed w \<Rightarrow>
             (case check_block (xe_ge xe) (is_jog gline) w of
                Inl (e, ps') \<Rightarrow> finish_line (e, ps', [])
              | Inr k \<Rightarrow> finish_line (if is_jog gline then run_jog xe k else run_block xe k)))"

end
