(* ===== verification/ParameterProps.thy ===== *)
theory ParameterProps
  imports Parameters
begin

text \<open>
  What holds of the parameters: which of them can be written and read back, what a list of
  assignments does, the scope of names in a job, and the text of an assignment.
\<close>

section \<open>User parameters\<close>

definition user_param :: "int \<Rightarrow> bool" where
  "user_param i \<longleftrightarrow> i = 5399 \<or> 31 \<le> i \<and> i \<le> 5000"

lemma find_axis_None: "i \<le> 5060 \<or> i = 5399 \<Longrightarrow> find_axis axis_params i = None"
  by (auto simp: axis_params_def is_axis_def)

lemma set_user_param:
  "1 \<le> i \<and> i \<le> 5000 \<or> i = 5399 \<Longrightarrow>
   set_numbered_param rd i v ps = (True, ps\<lparr>float_params := (float_params ps)(i \<mapsto> v)\<rparr>)"
  by (auto simp: set_numbered_param_def find_axis_None is_axis_def can_write_float_param_def)

lemma get_user_param: "user_param i \<Longrightarrow> get_numbered_param rd ps i = float_params ps i"
  by (auto simp: user_param_def get_numbered_param_def find_axis_None is_axis_def can_read_float_param_def)

lemma to_inches_float_params [simp]: "to_inches rd (ps\<lparr>float_params := f\<rparr>) = to_inches rd ps"
  by (simp add: to_inches_def in_inches_def fun_eq_iff)

lemma mpos_to_wpos_float_params [simp]: "mpos_to_wpos rd (ps\<lparr>float_params := f\<rparr>) = mpos_to_wpos rd ps"
  by (simp add: mpos_to_wpos_def get_wco_def fun_eq_iff)

lemma get_other_param:
  "f j = float_params ps j \<Longrightarrow> get_numbered_param rd (ps\<lparr>float_params := f\<rparr>) j = get_numbered_param rd ps j"
  by (simp add: get_numbered_param_def Let_def split: option.split)

text \<open>The number of a reference by number, and the pairs of a list of assignments by number.\<close>

definition by_number :: "param_ref \<times> rat \<Rightarrow> bool" where
  "by_number a \<longleftrightarrow> pr_name (fst a) = [] \<and> user_param (pr_id (fst a))"

definition number_values :: "(param_ref \<times> rat) list \<Rightarrow> (int \<times> rat) list" where
  "number_values as = map (\<lambda>a. (pr_id (fst a), snd a)) as"

lemma set_by_number:
  "list_all by_number as \<Longrightarrow>
   set_params rd as ps =
     (True, ps\<lparr>float_params := float_params ps ++ map_of (rev (number_values as))\<rparr>)"
proof (induction as arbitrary: ps)
  case Nil
  then show ?case by (simp add: number_values_def)
next
  case (Cons a as)
  then have "set_param rd (fst a) (snd a) ps =
      (True, ps\<lparr>float_params := (float_params ps)(pr_id (fst a) \<mapsto> snd a)\<rparr>)"
    by (auto simp: set_param_def set_user_param by_number_def user_param_def)
  with Cons show ?case
    by (simp add: number_values_def)
qed

lemma assignments_apart [simp]:
  "to_inches rd (ps\<lparr>assignments := as\<rparr>) = to_inches rd ps"
  "mpos_to_wpos rd (ps\<lparr>assignments := as\<rparr>) = mpos_to_wpos rd ps"
  by (simp_all add: to_inches_def in_inches_def mpos_to_wpos_def get_wco_def fun_eq_iff)

lemma get_assignments [simp]:
  "get_numbered_param rd (ps\<lparr>assignments := as\<rparr>) i = get_numbered_param rd ps i"
  by (simp add: get_numbered_param_def Let_def split: option.split)

text \<open>Performing a list of assignments to user parameters by number.\<close>

lemma perform_by_number:
  "list_all by_number (assignments ps) \<Longrightarrow> perform_assignments rd ps = (ok, ps') \<Longrightarrow>
   ok \<and> assignments ps' = [] \<and>
   (case map_of (rev (number_values (assignments ps))) i of
      Some v \<Rightarrow> get_numbered_param rd ps' i = Some v
    | None \<Rightarrow> get_numbered_param rd ps' i = get_numbered_param rd ps i)"
proof -
  let ?m = "map_of (rev (number_values (assignments ps)))"
  assume a: "list_all by_number (assignments ps)" "perform_assignments rd ps = (ok, ps')"
  then have p: "ok" "ps' = ps\<lparr>float_params := float_params ps ++ ?m, assignments := []\<rparr>"
    by (simp_all add: perform_assignments_def set_by_number)
  show ?thesis
  proof (cases "?m i")
    case None
    then show ?thesis using p by (simp add: get_other_param map_add_def)
  next
    case (Some v)
    then have "(i, v) \<in> set (number_values (assignments ps))" by (auto dest: map_of_SomeD)
    then have "user_param i"
      using a(1) by (auto simp: number_values_def by_number_def list_all_iff)
    with Some p show ?thesis by (simp add: get_user_param)
  qed
qed

text \<open>A state and an environment for the examples.\<close>

definition ex_gc :: gc_state where
  "ex_gc =
     \<lparr>g_modal = modal_defaults, g_spindle_speed = 0, g_feed_rate = 0, g_selected_tool = 0,
      g_current_tool = 0, g_line_number = 0, g_position = (\<lambda>i. 0), g_coord_system = (\<lambda>i. 0),
      g_coord_offset = (\<lambda>i. 0), g_tool_length_offset = 0, g_skip_blocks = False\<rparr>"

definition ex_params :: "unit pstate" where
  "ex_params =
     \<lparr>p_gc = ex_gc, coord_set = (\<lambda>k a. 0), float_params = [5399 \<mapsto> 0], global_named_params = Map.empty,
      p_jobs = no_jobs (\<lambda>c. 0), p_config = (), ngc_changed = [], assignments = []\<rparr>"

definition ex_readings :: "unit readings" where
  "ex_readings =
     \<lparr>rd_arith = exact, rd_n_axis = 3, rd_mpos = (\<lambda>i. of_nat i), rd_probe_position = (\<lambda>i. 0),
      rd_probe_succeeded = False, rd_spindle_ovr = 100, rd_f_override = 100, rd_mode = Idle,
      rd_version = ''v3.9.1'', rd_config_get = (\<lambda>c s. None), rd_config_set = (\<lambda>c s v. None),
      rd_stale = 0, rd_stale_id = 0\<rparr>"

section \<open>Parameters that do not read back\<close>

lemma low_params:
  "1 \<le> i \<Longrightarrow> i \<le> 30 \<Longrightarrow> fst (set_numbered_param rd i v ps) \<and> get_numbered_param rd qs i = None"
  by (simp add: set_user_param get_numbered_param_def find_axis_None is_axis_def can_read_float_param_def)

lemma g92_axes: "5211 \<le> i \<Longrightarrow> i \<le> 5216 \<Longrightarrow> find_axis axis_params i = None"
  by (auto simp: axis_params_def is_axis_def)

lemma g92_params:
  "5211 \<le> i \<Longrightarrow> i \<le> 5216 \<Longrightarrow> fst (set_numbered_param rd i v ps) \<and> get_numbered_param rd qs i = None"
  by (simp add: set_numbered_param_def get_numbered_param_def g92_axes is_axis_def can_read_float_param_def)

lemma param_5220:
  "fst (set_numbered_param rd 5220 v ps) \<and>
   get_numbered_param rd (snd (set_numbered_param rd 5220 v ps)) 5220 =
     Some (f_lit (rd_arith rd) (of_int (f_int (rd_arith rd) v + 1)))"
  by (simp add: set_numbered_param_def get_numbered_param_def axis_params_def is_axis_def gc_upd_def Let_def)

text \<open> Three groups of parameters accept an assignment that reading does not return: #1 to
  #30 and the G92 offsets #5211 to #5216 cannot be read at all, and the coordinate system
  #5220 reads one higher than it was set.\<close>

theorem some_params_misread:
  "1 \<le> i \<and> i \<le> 30 \<or> 5211 \<le> i \<and> i \<le> 5216 \<Longrightarrow>
   fst (set_numbered_param rd i v ps)
   \<and> get_numbered_param rd (snd (set_numbered_param rd i v ps)) i = None
   \<and> fst (set_numbered_param rd 5220 v ps)
   \<and> get_numbered_param rd (snd (set_numbered_param rd 5220 v ps)) 5220 =
       Some (f_lit (rd_arith rd) (of_int (f_int (rd_arith rd) v + 1)))"
  using low_params [of i rd v ps] g92_params [of i rd v ps] param_5220 [of rd v ps] by blast

theorem some_params_misread_witness:
  "get_numbered_param ex_readings (snd (set_numbered_param ex_readings 5220 2 ex_params)) 5220 = Some 3
   \<and> get_numbered_param ex_readings (snd (set_numbered_param ex_readings 7 1 ex_params)) 7 = None"
  using some_params_misread [of 7 ex_readings 2 ex_params] some_params_misread [of 7 ex_readings 1 ex_params]
  by (simp add: ex_readings_def exact_def trunc_rat_def)

section \<open>Names\<close>

definition local_name :: "string \<Rightarrow> bool" where
  "local_name name \<longleftrightarrow> name \<noteq> [] \<and> hd name \<noteq> CHR ''/'' \<and> hd name \<noteq> CHR ''_''"

lemma set_local_param:
  "local_name (pr_name ref) \<Longrightarrow> job (p_jobs ps) = js # rest \<Longrightarrow>
   set_param rd ref v ps =
     (True, ps\<lparr>p_jobs := (p_jobs ps)\<lparr>job := src_set_param (pr_name ref) v js # rest\<rparr>\<rparr>)"
  by (simp add: set_param_def local_name_def job_active_def job_set_param_def)

lemma get_local_param:
  "local_name (pr_name ref) \<Longrightarrow> job (p_jobs ps) = js # rest \<Longrightarrow>
   get_param rd ps ref = src_params js (pr_name ref)"
  by (simp add: get_param_def local_name_def job_active_def job_get_param_def src_get_param_def)

text \<open> C26. A name without a leading underscore belongs to the running job: a job called from
  it does not see the value, an assignment there does not reach the caller, and after the
  return the caller reads its own value; the global names are not touched.\<close>

theorem local_names_are_scoped:
  assumes "local_name (pr_name ref)" "job_active (p_jobs ps)"
    and "ps1 = snd (set_param rd ref v ps)"
    and "ps2 = ps1\<lparr>p_jobs := job_nest ic oc (p_jobs ps1)\<rparr>"
    and "ps3 = snd (set_param rd ref w ps2)"
    and "ps4 = ps3\<lparr>p_jobs := job_unnest (p_jobs ps3)\<rparr>"
  shows "get_param rd ps2 ref = None \<and> get_param rd ps3 ref = Some w \<and> get_param rd ps4 ref = Some v
     \<and> global_named_params ps4 = global_named_params ps"
proof -
  obtain js rest where j: "job (p_jobs ps) = js # rest"
    using assms(2) by (cases "job (p_jobs ps)") (auto simp: job_active_def)
  have ps1: "ps1 = ps\<lparr>p_jobs := (p_jobs ps)\<lparr>job := src_set_param (pr_name ref) v js # rest\<rparr>\<rparr>"
    using set_local_param [OF assms(1) j] assms(3) by simp
  then obtain inner where i: "job (p_jobs ps2) = inner # src_set_param (pr_name ref) v js # rest"
    "src_params inner = Map.empty"
    using assms(4) by (simp add: job_nest_def Let_def)
  have ps3: "ps3 = ps2\<lparr>p_jobs := (p_jobs ps2)\<lparr>job :=
      src_set_param (pr_name ref) w inner # src_set_param (pr_name ref) v js # rest\<rparr>\<rparr>"
    using set_local_param [OF assms(1) i(1)] assms(5) by simp
  then have u: "job (p_jobs ps4) = src_set_param (pr_name ref) v js # rest"
    using assms(6)
    by (simp add: job_unnest_def job_active_def job_pop_def job_restore_def job_do_def Let_def)
  have "global_named_params ps4 = global_named_params ps"
    using assms(4,6) ps1 ps3 by simp
  moreover have "job (p_jobs ps3) = src_set_param (pr_name ref) w inner # src_set_param (pr_name ref) v js # rest"
    by (simp add: ps3)
  then have "get_param rd ps3 ref = Some w"
    by (simp add: get_local_param [OF assms(1)] src_set_param_def)
  ultimately show ?thesis
    using get_local_param [OF assms(1) i(1), of rd] i(2) get_local_param [OF assms(1) u, of rd]
    by (simp add: src_set_param_def)
qed

theorem local_names_are_scoped_witness:
  "\<exists>ps4 :: unit pstate.
     get_param ex_readings ps4 \<lparr>pr_name = ''X'', pr_id = 0\<rparr> = Some 1 \<and> global_named_params ps4 = Map.empty"
  using local_names_are_scoped [of "\<lparr>pr_name = ''X'', pr_id = 0\<rparr>"
      "ex_params\<lparr>p_jobs := job_nest 4 None (p_jobs ex_params)\<rparr>" _ ex_readings 1 _ 5 None _ 2, OF _ _ refl refl refl refl]
  by (auto simp: local_name_def job_active_def job_nest_def ex_params_def no_jobs_def Let_def)

text \<open>System parameters cannot be assigned, in whatever case they are written.\<close>

lemma ascii_lower_underscore: "ascii_lower c = CHR ''_'' \<longleftrightarrow> c = CHR ''_''"
proof -
  have "char_of (of_char c + (32 :: nat)) \<noteq> CHR ''_''" if "65 \<le> (of_char c :: nat)" "(of_char c :: nat) \<le> 90"
  proof
    assume "char_of (of_char c + (32 :: nat)) = CHR ''_''"
    then have "of_char (char_of (of_char c + (32 :: nat)) :: char) = (95 :: nat)" by simp
    with that show False by (simp add: of_char_of)
  qed
  then show ?thesis by (auto simp: ascii_lower_def)
qed

lemma system_names: "get_system_param rd ps name = Some u \<Longrightarrow> \<exists>t. map ascii_lower name = CHR ''_'' # t"
  by (auto simp: get_system_param_def Let_def system_params_def unsupported_sys_def
      split: if_splits option.splits dest!: map_of_SomeD)

lemma system_params_read_only:
  assumes "get_system_param rd ps (pr_name ref) = Some u"
  shows "set_param rd ref v ps = (False, ps)"
proof -
  obtain c t where "pr_name ref = c # t" "c = CHR ''_''"
    using system_names [OF assms] ascii_lower_underscore by (cases "pr_name ref") auto
  with assms show ?thesis by (simp add: set_param_def)
qed

section \<open>The text of an assignment\<close>

text \<open> C27. The text of an assignment, a reference to a parameter, an equals sign and an
  expression in brackets, is read back and put on the list as the pair of the parameter it
  denotes and the value of the expression.\<close>

theorem assignment_means:
  assumes "wf_pref p" "den_pref (rd_arith rd) (env_of rd ps) p = Some ref"
    and "wf_chain c" "items (rd_arith rd) (env_of rd ps) c = Some (w, xs)"
    and "chain_value (rd_arith rd) w xs = Inr v"
  shows "assign_param rd ps (show_pref p @ ''=['' @ show_chain c @ r) =
    Read (ps\<lparr>assignments := assignments ps @ [(ref, v)]\<rparr>) r"
proof -
  have "get_param_ref_in rd ps (show_pref p @ ''=['' @ show_chain c @ r) = Read ref (''=['' @ show_chain c @ r)"
    unfolding get_param_ref_in_def
    by (rule read_back(2)) (use assms in \<open>auto simp: digit_or_dot_def is_dec_def\<close>)
  moreover have "read_number_in rd ps (CHR ''['' # show_chain c @ r) = Read v r"
    using expression_from_scan [OF read_back(3) [OF assms(3,4)], of r] assms(5)
    by (simp add: read_number_in_def all_calls_unfold(3) read_number_def)
  ultimately show ?thesis by (simp add: assign_param_def)
qed

theorem assignment_means_witness:
  "assign_param ex_readings ex_params ''<speed x>=[3-1]G1'' =
     Read (ex_params\<lparr>assignments := [(\<lparr>pr_name = ''SPEEDX'', pr_id = 0\<rparr>, 2)]\<rparr>) ''G1''"
proof -
  have c: "wf_chain (Seq (Lit ''3'') Binary_Minus (One (Lit ''1'')))"
    "items (rd_arith ex_readings) (env_of ex_readings ex_params) (Seq (Lit ''3'') Binary_Minus (One (Lit ''1''))) =
       Some (3, [(Binary_Minus, 1)])"
    "chain_value (rd_arith ex_readings) 3 [(Binary_Minus, 1)] = Inr 2"
    by code_simp+
  have p: "wf_pref (NameRef ''speed x'')"
    "den_pref (rd_arith ex_readings) (env_of ex_readings ex_params) (NameRef ''speed x'') =
       Some \<lparr>pr_name = ''SPEEDX'', pr_id = 0\<rparr>"
    by code_simp+
  from assignment_means [OF p c, of "''G1''"] show ?thesis by (simp add: ex_params_def)
qed

end
