(* ===== verification/GCodeProps.thy ===== *)
theory GCodeProps
  imports GCodeExec ParameterProps
begin

text \<open>
  What holds of the G-code interpreter: the clean line, the text of a block and the words it
  is read as, blocks that are skipped, blocks in error, and the offsets.
\<close>

section \<open>The clean line\<close>

text \<open>A character that the parser may meet.\<close>

definition clean_char :: "char \<Rightarrow> bool" where
  "clean_char c \<longleftrightarrow> \<not> c_space c \<and> c \<notin> {CHR ''('', CHR '')'', CHR '';'', CHR ''%''} \<and> ascii_upper c = c"

lemma ascii_upper_fixed:
  "ascii_upper (ascii_upper c) = ascii_upper c"
  "d \<in> {CHR ''('', CHR '')'', CHR '';'', CHR ''%''} \<Longrightarrow> ascii_upper c = d \<longleftrightarrow> c = d"
  "c_space (ascii_upper c) = c_space c"
proof -
  have "(of_char c mod 256 :: nat) < 256" by (rule mod_less_divisor) simp
  then have lt: "(of_char c :: nat) < 256" by simp
  have up: "of_char (char_of (of_char c - (32 :: nat)) :: char) = (of_char c - 32 :: nat)"
    using lt by (simp add: of_char_of mod_less [OF le_less_trans [OF diff_le_self lt]])
  show "ascii_upper (ascii_upper c) = ascii_upper c"
    using up by (auto simp: ascii_upper_def)
  show "c_space (ascii_upper c) = c_space c"
    using up by (auto simp: ascii_upper_def c_space_def)
  assume d: "d \<in> {CHR ''('', CHR '')'', CHR '';'', CHR ''%''}"
  have "char_of (of_char c - (32 :: nat)) \<noteq> d" if "97 \<le> (of_char c :: nat)"
  proof
    assume "char_of (of_char c - (32 :: nat)) = d"
    then have "(of_char d :: nat) = of_char c - 32" using up by metis
    with that d show False by auto
  qed
  with d show "ascii_upper c = d \<longleftrightarrow> c = d" by (auto simp: ascii_upper_def)
qed

lemma clean_upper: "\<not> c_space c \<Longrightarrow> c \<notin> {CHR ''('', CHR '')'', CHR '';'', CHR ''%''} \<Longrightarrow> clean_char (ascii_upper c)"
  using ascii_upper_fixed(2) [of _ c] by (auto simp: clean_char_def ascii_upper_fixed)

lemma collapse_loop_clean:
  "list_all clean_char out \<Longrightarrow> list_all clean_char (fst (collapse_loop skipping job_running paren out line))"
proof (induction skipping job_running paren out line rule: collapse_loop.induct)
  case (2 skipping job_running paren out c cs)
  then show ?case
    by (auto simp: Let_def with_effect_def clean_upper split: option.split)
qed simp

lemma collapse_loop_id:
  "list_all clean_char line \<Longrightarrow> collapse_loop skipping job_running None out line = (out @ line, [])"
  by (induction line arbitrary: out) (auto simp: clean_char_def)

text \<open> The line the parser sees is clean: it has no blank, no comment, no percent sign and
  no lower-case letter, and collapsing it again changes nothing.\<close>

theorem collapse_is_clean:
  "fst (collapseGCode skipping job_running line) = gline \<Longrightarrow>
   list_all clean_char gline \<and> collapseGCode skipping' job_running' gline = (gline, [])"
  using collapse_loop_clean [of "[]" skipping job_running None line]
  by (auto simp: collapseGCode_def collapse_loop_id)

theorem collapse_is_clean_witness:
  "list_all clean_char ''G1X-2.5'' \<and> collapseGCode True False ''G1X-2.5'' = (''G1X-2.5'', [])"
  by (rule collapse_is_clean [of False False "''g1 (move) x -2.5 ; done''"]) code_simp

section \<open>What a word changes\<close>

text \<open>A command word changes the block only, and leaves the words counted so far.\<close>

definition same_words :: "'c words \<Rightarrow> 'c words \<Rightarrow> bool" where
  "same_words w w' \<longleftrightarrow> w_ps w' = w_ps w \<and> command_words w' = command_words w \<and> value_words w' = value_words w
     \<and> axis_words w' = axis_words w \<and> ijk_words w' = ijk_words w"

lemma same_words_simps [simp]:
  "same_words w w" "same_words w (md_upd f w') = same_words w w'"
  "same_words w (set_non_modal m w') = same_words w w'" "same_words w (set_coolant c w') = same_words w w'"
  "same_words w (w'\<lparr>w_axis_command := ac\<rparr>) = same_words w w'"
  "same_words w (w'\<lparr>w_probe_explicit := pe\<rparr>) = same_words w w'"
  "same_words w (w'\<lparr>w_nonmodal_g38 := nm\<rparr>) = same_words w w'"
  "same_words w (w'\<lparr>w_probe_explicit := pe, w_nonmodal_g38 := nm\<rparr>) = same_words w w'"
  by (simp_all add: same_words_def md_upd_def set_non_modal_def set_coolant_def)

lemma claim_axes_same: "claim_axes ac w = Inr w' \<Longrightarrow> same_words v w' = same_words v w"
  by (auto simp: claim_axes_def split: if_splits)

lemma check_mantissa_same: "check_mantissa m w = Inr (w', mg, m') \<Longrightarrow> same_words v w' = same_words v w"
  by (auto simp: check_mantissa_def claim_axes_same split: if_splits sum.splits)

lemma g38_word_same: "g38_word ge m w = Inr (w', mg, m') \<Longrightarrow> same_words v w' = same_words v w"
  by (auto simp: g38_word_def claim_axes_same Let_def split: if_splits sum.splits option.splits)

lemma tlo_word_same: "tlo_word n m w = Inr (w', mg, m') \<Longrightarrow> same_words v w' = same_words v w"
  by (auto simp: tlo_word_def claim_axes_same split: if_splits sum.splits)

lemma motion_command_same: "motion_command mo m w = Inr (w', mg, m') \<Longrightarrow> same_words v w' = same_words v w"
  by (auto simp: motion_command_def)

lemma coolant_command_same: "coolant_command ge n m w = Inr (w', mg, m') \<Longrightarrow> same_words v w' = same_words v w"
  by (auto simp: coolant_command_def split: if_splits)

lemma g_command_same: "g_command ge n m w = Inr (w', mg, m') \<Longrightarrow> same_words w w'"
  unfolding g_command_def
  by (simp split: if_split_asm sum.split_asm
      add: claim_axes_same check_mantissa_same g38_word_same tlo_word_same motion_command_same)
    (auto simp: claim_axes_same)

lemma m_command_same: "m_command ge n m w = Inr (w', mg, m') \<Longrightarrow> same_words w w'"
  unfolding m_command_def
  by (simp split: if_split_asm add: coolant_command_same) auto

text \<open>
  A word that is accepted is one more: a modal group or a value word that was not there. Of
  the state outside the block it can change the selected tool.
\<close>

definition one_more :: "'c words \<Rightarrow> 'c words \<Rightarrow> bool" where
  "one_more w w' \<longleftrightarrow>
     (\<exists>mg. mg \<notin> command_words w \<and> command_words w' = insert mg (command_words w) \<and> value_words w' = value_words w)
   \<or> (\<exists>word. word \<notin> value_words w \<and> value_words w' = insert word (value_words w) \<and> command_words w' = command_words w)"

lemma one_moreI:
  "mg \<notin> command_words w \<Longrightarrow> command_words w' = insert mg (command_words w) \<Longrightarrow> value_words w' = value_words w
   \<Longrightarrow> one_more w w'"
  "word \<notin> value_words w \<Longrightarrow> value_words w' = insert word (value_words w) \<Longrightarrow> command_words w' = command_words w
   \<Longrightarrow> one_more w w'"
  unfolding one_more_def by blast+

definition tool_only :: "'c pstate \<Rightarrow> 'c pstate \<Rightarrow> bool" where
  "tool_only ps ps' \<longleftrightarrow> (\<exists>t. ps' = gc_upd (\<lambda>gs. gs\<lparr>g_selected_tool := t\<rparr>) ps)"

lemma tool_only_refl [simp]: "tool_only ps ps"
  unfolding tool_only_def by (rule exI [of _ "g_selected_tool (p_gc ps)"]) (simp add: gc_upd_def)

lemma g_word_one: "g_word ge n m w = Inr w' \<Longrightarrow> one_more w w' \<and> w_ps w' = w_ps w"
  by (auto simp: g_word_def take_group_def same_words_def split: sum.splits if_splits
      dest!: g_command_same)
    (rule one_moreI(1), assumption, simp_all)

lemma m_word_one: "m_word ge n m w = Inr w' \<Longrightarrow> one_more w w' \<and> w_ps w' = w_ps w"
  by (auto simp: m_word_def take_group_def same_words_def split: sum.splits if_splits
      dest!: m_command_same)
    (rule one_moreI(1), assumption, simp_all)

lemma tool_only_set [simp]: "tool_only ps (gc_upd (\<lambda>gs. gs\<lparr>g_selected_tool := t\<rparr>) ps)"
  by (auto simp: tool_only_def)

lemma val_upd_keeps [simp]:
  "w_ps (val_upd f w) = w_ps w" "command_words (val_upd f w) = command_words w"
  "value_words (val_upd f w) = value_words w"
  by (simp_all add: val_upd_def)

lemma store_word_keeps:
  "store_word ge l v n m w = Inr (w', word) \<Longrightarrow>
   command_words w' = command_words w \<and> value_words w' = value_words w \<and> tool_only (w_ps w) (w_ps w')"
  unfolding store_word_def axis_word_def offset_word_def
  by (simp split: if_split_asm) auto

lemma value_word_one: "value_word ge l v n m w = Inr w' \<Longrightarrow> one_more w w' \<and> tool_only (w_ps w) (w_ps w')"
  by (auto simp: value_word_def split: sum.splits if_splits dest!: store_word_keeps)
    (rule one_moreI(2), assumption, simp_all)+

lemma value_word_error: "value_word ge l v n m w = Inl (e, ps') \<Longrightarrow> tool_only (w_ps w) ps'"
  by (auto simp: value_word_def split: sum.splits if_splits dest!: store_word_keeps)

lemma do_word_one: "do_word ge l v w = Inr w' \<Longrightarrow> one_more w w' \<and> tool_only (w_ps w) (w_ps w')"
  by (auto simp: do_word_def Let_def split: sum.splits if_splits dest: g_word_one m_word_one value_word_one)

lemma do_word_error: "do_word ge l v w = Inl (e, ps') \<Longrightarrow> tool_only (w_ps w) ps'"
  by (auto simp: do_word_def Let_def split: sum.splits if_splits dest: value_word_error)

end
