(* ===== verification/GCodeKeeps.thy ===== *)
theory GCodeKeeps
  imports GCodeProps
begin

text \<open>
  What a line leaves alone: a line that is skipped or in error, and a jog. Reading the words
  and checking the block change, outside the block, the selected tool and two lists: the
  assignments still to be performed and the notifications.
\<close>

section \<open>The state outside the block\<close>

definition pending_only :: "'c pstate \<Rightarrow> 'c pstate \<Rightarrow> bool" where
  "pending_only ps ps' \<longleftrightarrow>
     (\<exists>t as cs. ps' = gc_upd (\<lambda>gs. gs\<lparr>g_selected_tool := t\<rparr>)
        (ps\<lparr>assignments := assignments ps @ as, ngc_changed := ngc_changed ps @ cs\<rparr>))"

lemma pending_onlyI:
  "ps' = gc_upd (\<lambda>gs. gs\<lparr>g_selected_tool := t\<rparr>)
     (ps\<lparr>assignments := assignments ps @ as, ngc_changed := ngc_changed ps @ cs\<rparr>) \<Longrightarrow> pending_only ps ps'"
  unfolding pending_only_def by blast

lemma pending_refl [simp, intro]: "pending_only ps ps"
  by (rule pending_onlyI [where t = "g_selected_tool (p_gc ps)" and as = "[]" and cs = "[]"]) (simp add: gc_upd_def)

lemma pending_trans: "pending_only ps qs \<Longrightarrow> pending_only qs rs \<Longrightarrow> pending_only ps rs"
  unfolding pending_only_def gc_upd_def by (elim exE, simp) blast

lemma pending_tool: "tool_only ps ps' \<Longrightarrow> pending_only ps ps'"
  unfolding tool_only_def by (elim exE, rule pending_onlyI [where as = "[]" and cs = "[]"]) simp

lemma pending_notify [simp]: "pending_only ps (notify ci ps)"
  by (rule pending_onlyI [where t = "g_selected_tool (p_gc ps)" and as = "[]" and cs = "[ci]"])
    (simp add: gc_upd_def notify_def)

lemma pbind_ReadE: "pbind x f = Read v r \<Longrightarrow> (\<And>a q. x = Read a q \<Longrightarrow> f a q = Read v r \<Longrightarrow> P) \<Longrightarrow> P"
  by (cases x) auto

lemma pending_assign: "assign_param rd ps s = Read ps' r \<Longrightarrow> pending_only ps ps'"
proof -
  assume "assign_param rd ps s = Read ps' r"
  then obtain pair where "ps' = ps\<lparr>assignments := assignments ps @ [pair]\<rparr>"
    by (cases "get_param_ref_in rd ps s")
      (auto simp: assign_param_def split: if_splits elim: pbind_ReadE)
  then show ?thesis
    by (intro pending_onlyI [where t = "g_selected_tool (p_gc ps)" and as = "[pair]" and cs = "[]"])
      (simp add: gc_upd_def)
qed

section \<open>Reading the words\<close>

lemma word_then_pending:
  "do_word ge l v w = Inr w' \<Longrightarrow> pending_only (w_ps w') ps \<Longrightarrow> pending_only (w_ps w) ps"
  "assign_param rd qs s = Read qs' r \<Longrightarrow> pending_only qs' ps \<Longrightarrow> pending_only qs ps"
  "do_word ge l v w = Inl (e, ps) \<Longrightarrow> pending_only (w_ps w) ps"
  by (rule pending_trans, rule pending_tool, erule do_word_one [THEN conjunct2], assumption)
    (rule pending_trans, erule pending_assign, assumption, rule pending_tool, erule do_word_error)

primrec parsed_state :: "'c parsed_line \<Rightarrow> 'c pstate" where
  "parsed_state (Parsed w) = w_ps w"
| "parsed_state (Returned e ps) = ps"
| "parsed_state (ToFlow l r ps) = ps"

lemma parse_words_pending: "pending_only (w_ps w) (parsed_state (parse_words ge w s))"
proof (induction ge w s rule: parse_words.induct)
  case (1 ge w s)
  show ?case
  proof (cases s)
    case (Cons letter r)
    note IH = 1 [OF Cons]
    show ?thesis
    proof (cases "letter = CHR ''#''")
      case True
      then show ?thesis
        using IH(1) Cons
        by (subst parse_words.simps)
          (auto split: parsed.splits intro: word_then_pending)
    next
      case False
      then show ?thesis
        using IH(2) Cons
        by (subst parse_words.simps)
          (auto split: parsed.splits sum.splits intro: word_then_pending)
    qed
  qed (simp add: parse_words.simps)
qed

section \<open>Checking the block\<close>

definition k_ps :: "'c checked \<Rightarrow> 'c pstate" where
  "k_ps k = w_ps (k_words k)"

definition check_state :: "'c check \<Rightarrow> 'c pstate" where
  "check_state x = (case x of Inl e \<Rightarrow> snd e | Inr k \<Rightarrow> k_ps k)"

lemma check_state_simps [simp]:
  "check_state (err e k) = k_ps k" "check_state (Inr k) = k_ps k" "check_state (Inl (e, ps)) = ps"
  by (simp_all add: check_state_def err_def k_ps_def)

lemma k_ps_simps [simp]:
  "k_ps (clear_words ws k) = k_ps k" "k_ps (set_values f k) = k_ps k" "k_ps (k_upd (md_upd g) k) = k_ps k"
  "k_ps (k_upd (\<lambda>w. w\<lparr>w_axis_command := ac\<rparr>) k) = k_ps k" "k_ps (k_notify ci k) = notify ci (k_ps k)"
  "k_ps (k\<lparr>k_coord_select := c\<rparr>) = k_ps k" "k_ps (k\<lparr>k_coord_data := d\<rparr>) = k_ps k"
  "k_ps (k\<lparr>k_coord_select := c, k_coord_data := d\<rparr>) = k_ps k"
  "k_ps (k\<lparr>k_block_coords := d\<rparr>) = k_ps k" "k_ps (k\<lparr>k_clockwise := b\<rparr>) = k_ps k"
  "k_ps (k\<lparr>k_probe_no_error := b1, k_probe_away := b2\<rparr>) = k_ps k" "k_ps (k\<lparr>k_wait_digital := b\<rparr>) = k_ps k"
  by (simp_all add: k_ps_def k_upd_def clear_words_def set_values_def k_notify_def md_upd_def val_upd_def)

lemma then_check_state:
  "check_state (then_check x f) = (case x of Inl (e, ps) \<Rightarrow> ps | Inr k \<Rightarrow> check_state (f k))"
  by (auto simp: then_check_def split: sum.split)

text \<open>Most checks leave the state alone.\<close>

lemma require_word_state [simp]: "check_state (require_word word k) = k_ps k"
  by (simp add: require_word_def)

lemma then_require_state:
  "(\<And>k'. k_ps k' = k_ps k \<Longrightarrow> check_state (f k') = k_ps k) \<Longrightarrow>
   check_state (then_check (require_word word k) f) = k_ps k"
  by (simp add: require_word_def then_check_def err_def k_ps_def [symmetric])

lemma check_wait_mode_state: "check_state (check_wait_mode ge k) = k_ps k"
  by (simp add: check_wait_mode_def split: option.split)

lemma quiet_checks:
  "check_state (check_common k) = k_ps k" "check_state (check_feed ge jog k) = k_ps k"
  "check_state (check_speed k) = k_ps k" "check_state (check_override ge k) = k_ps k"
  "check_state (check_dwell k) = k_ps k" "check_state (check_tool_number k) = k_ps k"
  "check_state (check_units ge k) = k_ps k" "check_state (check_coords k) = k_ps k"
  "check_state (check_unused jog k) = k_ps k"
  by (simp_all add: check_common_def check_feed_def check_speed_def check_override_def check_dwell_def
      check_tool_number_def check_units_def check_coords_def check_unused_def Let_def)

lemma check_io_state: "check_state (check_io ge k) = k_ps k"
  by (simp add: check_io_def Let_def check_wait_mode_state then_require_state)

lemma check_arc_state: "check_state (check_arc ge k) = k_ps k"
proof -
  have "check_state (then_check (check_arc_radius ge a b x y k) (\<lambda>k. Inr (clear_words {Word_P} k))) = k_ps k"
    for a b x y
    by (simp add: check_arc_radius_def Let_def then_check_def err_def k_ps_def [symmetric])
  moreover have "check_state (then_check (check_arc_centre ge a b x y k) (\<lambda>k. Inr (clear_words {Word_P} k))) = k_ps k"
    for a b x y
    by (simp add: check_arc_centre_def Let_def then_check_def err_def k_ps_def [symmetric])
  ultimately show ?thesis
    by (simp add: check_arc_def Let_def split: prod.split)
qed

lemma check_motion_state: "check_state (check_motion ge k) = k_ps k"
  by (simp add: check_motion_def Let_def optional_axes_def check_arc_state check_probe_def)

lemma check_go_home_state: "check_state (check_go_home ge ci k) = k_ps k"
  by (simp add: check_go_home_def Let_def)

lemma compute_target_ps [simp]: "k_ps (compute_target ge k) = k_ps k"
  by (simp add: compute_target_def)

lemma noisy_checks:
  "pending_only (k_ps k) (check_state (check_tlo k))"
  "pending_only (k_ps k) (check_state (check_non_modal ge k))"
  by (simp_all add: check_tlo_def check_non_modal_def check_g10_def check_g92_def check_go_home_state Let_def
      split: non_modal.split)

lemma checks_pending: "f \<in> set (checks ge jog) \<Longrightarrow> pending_only (k_ps k) (check_state (f k))"
  by (auto simp: checks_def quiet_checks check_io_state check_motion_state noisy_checks)

lemma run_checks_pending:
  "(\<And>f k. f \<in> set fs \<Longrightarrow> pending_only (k_ps k) (check_state (f k))) \<Longrightarrow>
   pending_only (k_ps k) (check_state (run_checks fs k))"
proof (induction fs arbitrary: k)
  case (Cons f fs)
  have f: "pending_only (k_ps k) (check_state (f k))" by (rule Cons.prems) simp
  have fs: "pending_only (k_ps k') (check_state (run_checks fs k'))" for k'
    by (rule Cons.IH) (simp add: Cons.prems)
  show ?case
  proof (cases "f k")
    case (Inl e)
    with f show ?thesis by (cases e) (simp add: then_check_state)
  next
    case (Inr k')
    with f pending_trans [OF _ fs [of k']] show ?thesis by (simp add: then_check_state)
  qed
qed simp

lemma check_block_pending: "pending_only (w_ps w) (check_state (check_block ge jog w))"
  using run_checks_pending [of "checks ge jog" "start_check w"] checks_pending
  by (fastforce simp: check_block_def k_ps_def start_check_def)

section \<open>Reading a number that is no expression\<close>

lemma read_number_in_code [code]:
  "read_number_in rd ps s =
     (if starts (CHR ''#'') s \<or> starts (CHR ''['') s
      then c_number (all_calls (rd_arith rd) (env_of rd ps)) s False else read_float (rd_arith rd) s)"
  by (simp add: read_number_in_def all_calls_unfold(3) read_number_def)

lemma get_param_ref_in_code [code]:
  "get_param_ref_in rd ps s =
     (if starts (CHR ''#'') s \<or> starts (CHR ''['') s \<or> starts (CHR ''<'') s
      then c_ref (all_calls (rd_arith rd) (env_of rd ps)) s
      else pbind (read_float (rd_arith rd) s) (\<lambda>v r. Read (numbered (f_int (rd_arith rd) v)) r))"
  by (simp add: get_param_ref_in_def all_calls_unfold(4) get_param_ref_def)

section \<open>A machine for the examples\<close>

definition ex_ge :: "unit gc_env" where
  "ex_ge =
     \<lparr>ge_rd = ex_readings, ge_probe_exists = True, ge_reversable = False, ge_rate_adjusted = False,
      ge_has_mist = True, ge_has_flood = True, ge_parking_override = False, ge_line_numbers = False\<rparr>"

definition ex_xe :: "unit exec_env" where
  "ex_xe =
     \<lparr>xe_ge = ex_ge, xe_set_digital = (\<lambda>p b. True), xe_set_analog = (\<lambda>p q. True),
      xe_read_input = (\<lambda>d i. Inr True), xe_switch = (\<lambda>t. (False, False)), xe_no_changer = True,
      xe_abort = False, xe_probe = (UpdatePos_None, \<lambda>i. 0), xe_motor_position = (\<lambda>i. 0),
      xe_constrain_jog = (\<lambda>v. v), xe_jog_planned = True, xe_deactivate_parking = False\<rparr>"

definition ex_start :: "unit interpreter" where
  "ex_start = \<lparr>i_ps = ex_params, i_context = [], i_alarms = []\<rparr>"

section \<open>A line in error\<close>

text \<open>The line in the form the parser gets.\<close>

definition cleaned :: "'c interpreter \<Rightarrow> string \<Rightarrow> string" where
  "cleaned i line = fst (collapseGCode (g_skip_blocks (p_gc (i_ps i))) (job_active (p_jobs (i_ps i))) line)"

definition comments_of :: "'c interpreter \<Rightarrow> string \<Rightarrow> gc_effect list" where
  "comments_of i line =
     map Collapse (snd (collapseGCode (g_skip_blocks (p_gc (i_ps i))) (job_active (p_jobs (i_ps i))) line))"

lemma gc_execute_line_cases:
  "gc_execute_line xe line i =
     (case parse_line (xe_ge xe) (i_ps i) (cleaned i line) of
        Returned e ps' \<Rightarrow> Some (e, i\<lparr>i_ps := ps'\<rparr>, comments_of i line)
      | ToFlow label rest ps' \<Rightarrow>
          map_option (\<lambda>(e, i'). (e, i', comments_of i line)) (run_flow xe (cleaned i line) label rest ps' i)
      | Parsed w \<Rightarrow>
          (case check_block (xe_ge xe) (is_jog (cleaned i line)) w of
             Inl (e, ps') \<Rightarrow> Some (e, i\<lparr>i_ps := ps'\<rparr>, comments_of i line)
           | Inr k \<Rightarrow>
               let (e, ps', es) = (if is_jog (cleaned i line) then run_jog xe k else run_block xe k)
               in Some (e, i\<lparr>i_ps := ps'\<rparr>, comments_of i line @ es)))"
  by (auto simp: gc_execute_line_def cleaned_def comments_of_def Let_def
      split: parsed_line.split option.split sum.split prod.split)

text \<open>The line ends before the execution: a return of the parser or an error of the checks.\<close>

definition rejected :: "'c gc_env \<Rightarrow> 'c pstate \<Rightarrow> string \<Rightarrow> bool" where
  "rejected ge ps gline =
     (case parse_line ge ps gline of
        Returned e ps' \<Rightarrow> True | ToFlow l r ps' \<Rightarrow> False
      | Parsed w \<Rightarrow> (case check_block ge (is_jog gline) w of Inl e \<Rightarrow> True | Inr k \<Rightarrow> False))"

lemma parse_line_pending: "pending_only ps (parsed_state (parse_line ge ps gline))"
  using parse_words_pending [of "init_words ge ps gline"] by (simp add: parse_line_def init_words_def Let_def)

lemma check_line_pending:
  "parse_line ge ps gline = Parsed w \<Longrightarrow> pending_only ps (check_state (check_block ge jog w))"
  using parse_line_pending [of ps ge gline] by (auto intro: pending_trans check_block_pending)

text \<open> C23. The assignments of a block act together, after the block has been read. Reading a line
  changes no parameter: the stored parameters by number and by name, those of the jobs and the
  configuration are as before when all words have been read, so that every value on the line is
  computed with the old ones, and the assignments are only appended to a list. When the
  list is performed and all its entries are user parameters given by number (31 to 5000 and 5399; names,
  system parameters and the axis groups are not covered), each of them gets the value
  computed for it, the last one if it is assigned twice, every other number reads as before,
  and the list is empty.\<close>

theorem assignments_act_together:
  assumes "parse_line ge ps gline = Parsed w"
  shows "float_params (w_ps w) = float_params ps \<and> global_named_params (w_ps w) = global_named_params ps
    \<and> p_jobs (w_ps w) = p_jobs ps \<and> p_config (w_ps w) = p_config ps
    \<and> (\<exists>as. assignments (w_ps w) = assignments ps @ as)
    \<and> (list_all by_number (assignments (w_ps w)) \<longrightarrow>
       (case perform_assignments rd (w_ps w) of (ok, ps') \<Rightarrow>
          ok \<and> assignments ps' = []
          \<and> (\<forall>i. case map_of (rev (number_values (assignments (w_ps w)))) i of
               Some v \<Rightarrow> get_numbered_param rd ps' i = Some v
             | None \<Rightarrow> get_numbered_param rd ps' i = get_numbered_param rd (w_ps w) i)))"
proof -
  have "pending_only ps (w_ps w)" using parse_line_pending [of ps ge gline] assms by simp
  then have "float_params (w_ps w) = float_params ps \<and> global_named_params (w_ps w) = global_named_params ps
      \<and> p_jobs (w_ps w) = p_jobs ps \<and> p_config (w_ps w) = p_config ps
      \<and> (\<exists>as. assignments (w_ps w) = assignments ps @ as)"
    by (auto simp: pending_only_def gc_upd_def)
  moreover obtain ok ps' where p: "perform_assignments rd (w_ps w) = (ok, ps')" by force
  ultimately show ?thesis using perform_by_number [OF _ p] by auto
qed

text \<open> C13. A line in error changes no mode, no offset and no parameter, and moves nothing: when
  the parser returns or a check fails, the only effects are those of the comments, and the
  state differs at most in the selected tool, in assignments waiting to be performed, and in
  notifications of changed coordinates.\<close>

theorem rejected_line_changes_little:
  "rejected (xe_ge xe) (i_ps i) (cleaned i line) \<Longrightarrow>
   \<exists>e ps'. gc_execute_line xe line i = Some (e, i\<lparr>i_ps := ps'\<rparr>, comments_of i line)
     \<and> pending_only (i_ps i) ps'"
  using parse_line_pending [of "i_ps i" "xe_ge xe" "cleaned i line"]
    check_line_pending [of "xe_ge xe" "i_ps i" "cleaned i line" _ "is_jog (cleaned i line)"]
  by (auto simp: rejected_def gc_execute_line_cases split: parsed_line.splits sum.splits)

theorem rejected_line_changes_little_witness:
  "\<exists>e ps'. gc_execute_line ex_xe ''T3 G1 G2 (two motions)'' ex_start
     = Some (e, ex_start\<lparr>i_ps := ps'\<rparr>, comments_of ex_start ''T3 G1 G2 (two motions)'')
     \<and> pending_only (i_ps ex_start) ps'"
  by (rule rejected_line_changes_little) code_simp

section \<open>Blocks that are skipped\<close>

text \<open> While flow control skips, a line that does not begin with an O word does nothing at
  all: whatever it says, nothing is executed, no assignment is taken and the interpreter is
  as before, also where the text of the line would be an error.\<close>

theorem skipped_line_is_inert:
  assumes "g_skip_blocks (p_gc (i_ps i))" "cleaned i line = letter # rest"
    and "letter \<noteq> CHR ''O''" "letter \<noteq> CHR ''$''"
  shows "\<exists>e. e \<in> {Error_Ok, Error_BadNumberFormat, Error_ExpectedCommandLetter}
     \<and> gc_execute_line xe line i = Some (e, i, comments_of i line)"
proof -
  have "\<exists>e. e \<in> {Error_Ok, Error_BadNumberFormat, Error_ExpectedCommandLetter}
      \<and> parse_line (xe_ge xe) (i_ps i) (cleaned i line) = Returned e (i_ps i)"
    using assms
    by (cases "read_number_in (ge_rd (xe_ge xe)) (i_ps i) rest")
      (simp_all add: parse_line_def init_words_def is_jog_def starts_def Let_def parse_words.simps [of _ _ "_ # _"])
  then show ?thesis by (auto simp: gc_execute_line_cases)
qed

theorem skipped_line_is_inert_witness:
  "\<exists>e. e \<in> {Error_Ok, Error_BadNumberFormat, Error_ExpectedCommandLetter}
     \<and> gc_execute_line ex_xe ''G0 X1'' (ex_start\<lparr>i_ps := gc_upd (\<lambda>gs. gs\<lparr>g_skip_blocks := True\<rparr>) ex_params\<rparr>)
       = Some (e, ex_start\<lparr>i_ps := gc_upd (\<lambda>gs. gs\<lparr>g_skip_blocks := True\<rparr>) ex_params\<rparr>,
           comments_of (ex_start\<lparr>i_ps := gc_upd (\<lambda>gs. gs\<lparr>g_skip_blocks := True\<rparr>) ex_params\<rparr>) ''G0 X1'')"
  by (rule skipped_line_is_inert [where letter = "CHR ''G''" and rest = "''0X1''"]) code_simp+

section \<open>Jogs\<close>

text \<open>The parser hands the rest of the line to flow control.\<close>

definition for_flow :: "'c gc_env \<Rightarrow> 'c pstate \<Rightarrow> string \<Rightarrow> bool" where
  "for_flow ge ps gline = (case parse_line ge ps gline of ToFlow l r ps' \<Rightarrow> True | _ \<Rightarrow> False)"

lemma run_jog_position:
  "run_jog xe k = (e, ps, es) \<Longrightarrow>
   ps = k_ps k \<or> e = Error_Ok \<and> (\<exists>xyz. ps = gc_upd (\<lambda>gs. gs\<lparr>g_position := xyz\<rparr>) (k_ps k))"
  "run_jog xe k = (e, ps, es) \<Longrightarrow> es = [] \<or> (\<exists>xyz plan. es = [McLinear xyz plan] \<and> pl_is_jog plan)"
  by (auto simp: run_jog_def Let_def k_ps_def split: if_splits)

text \<open> C19. A jog moves and does nothing else: after a jog line that is not one for flow control
  (an O word behind the $J=), accepted or not, the modes, the feed rate and the spindle speed,
  the coordinate systems and all offsets, the stored parameters, the configuration and the
  contexts of flow control are as before. Only the position can differ, and the selected tool if
  the line has a T word before its error. Beside comments there is at most one effect, a motion
  marked as a jog. An assignment on the line is not performed: it is appended to the list
  of assignments that wait, where the next block that is executed finds it.\<close>

theorem jog_only_moves:
  assumes "is_jog (cleaned i line)" "gc_execute_line xe line i = Some (e, i', es)"
    and "\<not> for_flow (xe_ge xe) (i_ps i) (cleaned i line)"
  shows "let gs = p_gc (i_ps i); gs' = p_gc (i_ps i') in
    gs' = gs\<lparr>g_position := g_position gs', g_selected_tool := g_selected_tool gs'\<rparr>
    \<and> coord_set (i_ps i') = coord_set (i_ps i) \<and> float_params (i_ps i') = float_params (i_ps i)
    \<and> global_named_params (i_ps i') = global_named_params (i_ps i) \<and> p_jobs (i_ps i') = p_jobs (i_ps i)
    \<and> p_config (i_ps i') = p_config (i_ps i) \<and> (\<exists>as. assignments (i_ps i') = assignments (i_ps i) @ as)
    \<and> i_context i' = i_context i \<and> i_alarms i' = i_alarms i
    \<and> (es = comments_of i line \<or>
       (\<exists>xyz plan. es = comments_of i line @ [McLinear xyz plan] \<and> pl_is_jog plan))"
proof -
  have "\<exists>ps. pending_only (i_ps i) ps \<and>
      (i' = i\<lparr>i_ps := ps\<rparr> \<or> (\<exists>xyz. i' = i\<lparr>i_ps := gc_upd (\<lambda>gs. gs\<lparr>g_position := xyz\<rparr>) ps\<rparr>))
      \<and> (es = comments_of i line \<or>
       (\<exists>xyz plan. es = comments_of i line @ [McLinear xyz plan] \<and> pl_is_jog plan))"
  proof (cases "parse_line (xe_ge xe) (i_ps i) (cleaned i line)")
    case (Parsed w)
    note pending = check_line_pending [OF Parsed, of True]
    show ?thesis
    proof (cases "check_block (xe_ge xe) True w")
      case (Inl p)
      obtain e' ps' where p: "p = (e', ps')" by (cases p)
      from assms(1,2) Parsed Inl p have "i' = i\<lparr>i_ps := ps'\<rparr>" "es = comments_of i line"
        by (simp_all add: gc_execute_line_cases)
      with pending Inl p show ?thesis by auto
    next
      case (Inr k)
      obtain e' ps' es' where run: "run_jog xe k = (e', ps', es')" by (metis prod_cases3)
      from assms(1,2) Parsed Inr run have "i' = i\<lparr>i_ps := ps'\<rparr>" "es = comments_of i line @ es'"
        by (simp_all add: gc_execute_line_cases)
      with run_jog_position [OF run] pending Inr show ?thesis by auto
    qed
  next
    case (Returned e ps)
    then show ?thesis
      using assms(2) parse_line_pending [of "i_ps i" "xe_ge xe" "cleaned i line"]
      by (auto simp: gc_execute_line_cases)
  qed (use assms(3) in \<open>simp add: for_flow_def\<close>)
  then show ?thesis
    by (auto simp: pending_only_def gc_upd_def Let_def)
qed

theorem jog_only_moves_witness:
  "\<exists>e i' es. gc_execute_line ex_xe ''$J=G91 X1.5 F100'' ex_start = Some (e, i', es)
     \<and> g_modal (p_gc (i_ps i')) = modal_defaults \<and> g_position (p_gc (i_ps i')) 0 = 3 / 2"
proof -
  have x: "(case gc_execute_line ex_xe ''$J=G91 X1.5 F100'' ex_start of
      None \<Rightarrow> False | Some (e, i', es) \<Rightarrow> g_position (p_gc (i_ps i')) 0 = 3 / 2)"
    by code_simp
  then obtain e i' es where run: "gc_execute_line ex_xe ''$J=G91 X1.5 F100'' ex_start = Some (e, i', es)"
    and pos: "g_position (p_gc (i_ps i')) 0 = 3 / 2"
    by (auto split: option.splits)
  have "is_jog (cleaned ex_start ''$J=G91 X1.5 F100'')"
    "\<not> for_flow (xe_ge ex_xe) (i_ps ex_start) (cleaned ex_start ''$J=G91 X1.5 F100'')"
    by code_simp+
  then have "g_modal (p_gc (i_ps i')) = g_modal (p_gc (i_ps ex_start))"
    using jog_only_moves [OF _ run] by (simp only: Let_def) (metis gc_state.select_convs(1) gc_state.surjective gc_state.update_convs(4,7))
  then have "g_modal (p_gc (i_ps i')) = modal_defaults"
    by (simp add: ex_start_def ex_params_def ex_gc_def)
  with run pos show ?thesis by blast
qed

end
