(* ===== verification/GCodeText.thy ===== *)
theory GCodeText
  imports GCodeKeeps
begin

text \<open>
  The text of a block and the words the parser reads it as. A block is a list of words, a
  letter with a number, and of assignments; a number is a literal, a parameter or an
  expression in brackets.
\<close>

section \<open>Blocks\<close>

datatype gnum = NumText string | NumParam pref | NumExpr chain

primrec show_num :: "gnum \<Rightarrow> string" where
  "show_num (NumText t) = t"
| "show_num (NumParam p) = CHR ''#'' # show_pref p"
| "show_num (NumExpr c) = CHR ''['' # show_chain c"

primrec wf_num :: "gnum \<Rightarrow> bool" where
  "wf_num (NumText t) \<longleftrightarrow> t \<noteq> [] \<and> (digit_or_dot (hd t) \<or> hd t = CHR ''-'' \<or> hd t = CHR ''+'')"
| "wf_num (NumParam p) \<longleftrightarrow> wf_pref p"
| "wf_num (NumExpr c) \<longleftrightarrow> wf_chain c"

definition den_num :: "'c readings \<Rightarrow> 'c pstate \<Rightarrow> gnum \<Rightarrow> rat option" where
  "den_num rd ps n =
     (let ar = rd_arith rd; env = env_of rd ps in
      case n of NumText t \<Rightarrow> literal_value ar t
      | NumParam p \<Rightarrow> Option.bind (den_pref ar env p) (pe_get env)
      | NumExpr c \<Rightarrow> value_of_items ar (items ar env c))"

lemma number_back:
  assumes "wf_num n" "den_num rd ps n = Some v" "stops r"
  shows "read_number_in rd ps (show_num n @ r) = Read v r"
proof (cases n)
  case (NumText t)
  with assms obtain d u where t: "t = d # u" "digit_or_dot d \<or> d = CHR ''-'' \<or> d = CHR ''+''"
    by (cases t) auto
  then have "d \<noteq> CHR ''#''" "d \<noteq> CHR ''[''" by (auto simp: digit_or_dot_def is_dec_def)
  then show ?thesis
    using read_float_append [of "rd_arith rd" t v r] assms NumText t
    by (simp add: read_number_in_code den_num_def starts_def)
next
  case (NumParam p)
  with assms obtain ref where ref: "den_pref (rd_arith rd) (env_of rd ps) p = Some ref" "pe_get (env_of rd ps) ref = Some v"
    by (auto simp: den_num_def Let_def bind_eq_Some_conv)
  then have "c_ref (all_calls (rd_arith rd) (env_of rd ps)) (show_pref p @ r) = Read ref r"
    using assms NumParam by (intro read_back(2)) auto
  then show ?thesis
    using NumParam ref by (simp add: read_number_in_def all_calls_unfold(3) read_number_def get_value_def)
next
  case (NumExpr c)
  with assms obtain w xs where c: "items (rd_arith rd) (env_of rd ps) c = Some (w, xs)"
    "chain_value (rd_arith rd) w xs = Inr v"
    by (auto simp: den_num_def Let_def value_of_items_Some)
  have "c_expression (all_calls (rd_arith rd) (env_of rd ps)) (CHR ''['' # show_chain c @ r) = of_sum (Inr v) r"
    unfolding c(2) [symmetric]
    by (rule expression_from_scan) (rule read_back(3), use assms NumExpr c in auto)
  then show ?thesis
    using NumExpr by (simp add: read_number_in_def all_calls_unfold(3) read_number_def of_sum_def)
qed

datatype item = WordItem char gnum | AssignItem pref gnum

primrec show_item :: "item \<Rightarrow> string" where
  "show_item (WordItem l n) = l # show_num n"
| "show_item (AssignItem p n) = CHR ''#'' # show_pref p @ CHR ''='' # show_num n"

primrec wf_item :: "item \<Rightarrow> bool" where
  "wf_item (WordItem l n) \<longleftrightarrow> 65 \<le> byte l \<and> byte l \<le> 90 \<and> l \<noteq> CHR ''O'' \<and> wf_num n"
| "wf_item (AssignItem p n) \<longleftrightarrow> wf_pref p \<and> wf_num n"

definition show_block :: "item list \<Rightarrow> string" where
  "show_block is = concat (map show_item is)"

text \<open>
  The meaning of an item, None when its number has no value: the words are done one after
  the other, in the state the words before them have left (a T word changes #5400); the
  assignments of the block have not been performed yet.
\<close>

primrec do_item :: "'c gc_env \<Rightarrow> 'c words \<Rightarrow> item \<Rightarrow> ((error_code \<times> 'c pstate) + 'c words) option" where
  "do_item ge w (WordItem l n) = map_option (\<lambda>v. do_word ge l v w) (den_num (ge_rd ge) (w_ps w) n)"
| "do_item ge w (AssignItem p n) =
     (let ps = w_ps w in
      Option.bind (den_pref (rd_arith (ge_rd ge)) (env_of (ge_rd ge) ps) p) (\<lambda>ref.
        map_option (\<lambda>v. Inr (w\<lparr>w_ps := ps\<lparr>assignments := assignments ps @ [(ref, v)]\<rparr>\<rparr>))
          (den_num (ge_rd ge) ps n)))"

primrec do_block :: "'c gc_env \<Rightarrow> 'c words \<Rightarrow> item list \<Rightarrow> 'c parsed_line option" where
  "do_block ge w [] = Some (Parsed w)"
| "do_block ge w (it # is) =
     (case do_item ge w it of
        None \<Rightarrow> None
      | Some (Inl (e, ps)) \<Rightarrow> Some (Returned e ps)
      | Some (Inr w') \<Rightarrow> do_block ge w' is)"

section \<open>Reading a block\<close>

lemma show_block_simps [simp]: "show_block [] = []" "show_block (it # is) = show_item it @ show_block is"
  by (simp_all add: show_block_def)

lemma letter_no_digit: "65 \<le> byte l \<Longrightarrow> byte l \<le> 90 \<Longrightarrow> \<not> digit_or_dot l"
  by (auto simp: digit_or_dot_def is_dec_def)

lemma stops_block: "list_all wf_item is \<Longrightarrow> stops (show_block is)"
proof (cases "is")
  case (Cons it rest)
  assume "list_all wf_item is"
  with Cons show ?thesis
    by (cases it) (auto simp: letter_no_digit digit_or_dot_def is_dec_def)
qed (simp add: stops_def)

text \<open>What the parser asks of the state, and no word changes.\<close>

definition reading :: "'c words \<Rightarrow> bool" where
  "reading w \<longleftrightarrow> \<not> g_skip_blocks (p_gc (w_ps w)) \<and> Word_O \<notin> value_words w"

lemma store_word_O: "store_word ge l v n m w = Inr (w', word) \<Longrightarrow> l \<noteq> CHR ''O'' \<Longrightarrow>
    word \<noteq> Word_O \<and> value_words w' = value_words w"
  using store_word_keeps [of ge l v n m w w' word]
  by (auto simp: store_word_def axis_word_def offset_word_def split: if_splits)

lemma command_word_values:
  "g_word ge n m w = Inr w' \<Longrightarrow> value_words w' = value_words w"
  "m_word ge n m w = Inr w' \<Longrightarrow> value_words w' = value_words w"
  by (auto simp: g_word_def m_word_def take_group_def same_words_def split: sum.splits if_splits
      dest!: g_command_same m_command_same)

lemma value_word_O:
  assumes "value_word ge l v n m w = Inr w'" "l \<noteq> CHR ''O''"
  shows "Word_O \<in> value_words w' \<longleftrightarrow> Word_O \<in> value_words w"
proof -
  from assms(1) obtain a word where a: "store_word ge l v n m w = Inr (a, word)"
    and w': "w' = a\<lparr>value_words := insert word (value_words a), w_mantissa := m\<rparr>"
    by (cases "store_word ge l v n m w") (auto simp: value_word_def split: if_splits)
  from store_word_O [OF a assms(2)] show ?thesis by (auto simp: w')
qed

lemma do_word_cases:
  assumes "do_word ge l v w = Inr w'"
  obtains n m where "g_word ge n m w = Inr w'" | n m where "m_word ge n m w = Inr w'"
    | n m where "value_word ge l v n m w = Inr w'"
  using assms unfolding do_word_def Let_def by (auto split: if_splits sum.splits)

lemma do_word_O:
  assumes "do_word ge l v w = Inr w'" "l \<noteq> CHR ''O''"
  shows "Word_O \<in> value_words w' \<longleftrightarrow> Word_O \<in> value_words w"
  using assms(1) by (cases rule: do_word_cases) (simp_all only: command_word_values value_word_O [OF _ assms(2)])

lemma pending_skip: "pending_only ps ps' \<Longrightarrow> g_skip_blocks (p_gc ps') = g_skip_blocks (p_gc ps)"
  by (auto simp: pending_only_def gc_upd_def)

lemma reading_word: "do_word ge l v w = Inr w' \<Longrightarrow> l \<noteq> CHR ''O'' \<Longrightarrow> reading w \<Longrightarrow> reading w'"
  using do_word_O [of ge l v w w'] do_word_one [of ge l v w w'] pending_tool [of "w_ps w" "w_ps w'"]
    pending_skip [of "w_ps w" "w_ps w'"]
  by (simp add: reading_def)

lemma block_read:
  "list_all wf_item is \<Longrightarrow> reading w \<Longrightarrow> do_block ge w is = Some res \<Longrightarrow> parse_words ge w (show_block is) = res"
proof (induction "is" arbitrary: w)
  case Nil
  then show ?case by (simp add: parse_words.simps)
next
  case (Cons it "is")
  have r: "\<not> g_skip_blocks (p_gc (w_ps w))" "Word_O \<notin> value_words w"
    using Cons.prems(2) by (simp_all add: reading_def)
  have st: "stops (show_block is)" using Cons.prems(1) by (simp add: stops_block)
  show ?case
  proof (cases it)
    case (WordItem l n)
    from Cons.prems(3) WordItem obtain v where v: "den_num (ge_rd ge) (w_ps w) n = Some v"
      by (auto split: option.splits)
    have l: "65 \<le> byte l" "byte l \<le> 90" "l \<noteq> CHR ''O''" "wf_num n" "l \<noteq> CHR ''#''"
      using Cons.prems(1) WordItem by auto
    have num: "read_number_in (ge_rd ge) (w_ps w) (show_num n @ show_block is) = Read v (show_block is)"
      by (rule number_back [OF l(4) v st])
    show ?thesis
    proof (cases "do_word ge l v w")
      case (Inl p)
      then show ?thesis
        using Cons.prems(3) WordItem v l r num
        by (cases p) (simp add: parse_words.simps [of _ _ "_ # _"])
    next
      case (Inr w')
      then have "parse_words ge w' (show_block is) = res"
        using Cons.prems WordItem v l by (intro Cons.IH) (auto intro: reading_word)
      then show ?thesis
        using Inr WordItem l r num by (simp add: parse_words.simps [of _ _ "_ # _"])
    qed
  next
    case (AssignItem p n)
    let ?ps = "w_ps w"
    from Cons.prems(3) AssignItem obtain ref v where
      v: "den_pref (rd_arith (ge_rd ge)) (env_of (ge_rd ge) ?ps) p = Some ref" "den_num (ge_rd ge) ?ps n = Some v"
      and res: "do_block ge (w\<lparr>w_ps := ?ps\<lparr>assignments := assignments ?ps @ [(ref, v)]\<rparr>\<rparr>) is = Some res"
      by (auto simp: Let_def bind_eq_Some_conv split: option.splits)
    have wf: "wf_pref p" "wf_num n" using Cons.prems(1) AssignItem by auto
    have "get_param_ref_in (ge_rd ge) ?ps (show_pref p @ CHR ''='' # show_num n @ show_block is)
        = Read ref (CHR ''='' # show_num n @ show_block is)"
      unfolding get_param_ref_in_def
      by (rule read_back(2)) (use wf v in \<open>auto simp: digit_or_dot_def is_dec_def\<close>)
    then have "assign_param (ge_rd ge) ?ps (show_pref p @ CHR ''='' # show_num n @ show_block is)
        = Read (?ps\<lparr>assignments := assignments ?ps @ [(ref, v)]\<rparr>) (show_block is)"
      by (simp add: assign_param_def number_back [OF wf(2) v(2) st] starts_def)
    moreover have "parse_words ge (w\<lparr>w_ps := ?ps\<lparr>assignments := assignments ?ps @ [(ref, v)]\<rparr>\<rparr>) (show_block is) = res"
      by (rule Cons.IH) (use Cons.prems res r in \<open>auto simp: reading_def\<close>)
    ultimately show ?thesis
      using AssignItem r by (simp add: parse_words.simps [of _ _ "_ # _"])
  qed
qed

lemma no_jog_block: "list_all wf_item is \<Longrightarrow> \<not> is_jog (show_block is)"
proof (cases "is")
  case (Cons it rest)
  assume "list_all wf_item is"
  with Cons show ?thesis by (cases it) (auto simp: is_jog_def starts_def)
qed (simp add: is_jog_def starts_def)

text \<open> C14. The text of a block is read as the block: words and assignments written one after
  the other, their numbers as literals, parameters or expressions, are done in order with the
  values these have, up to the first error.\<close>

theorem block_text_is_read:
  assumes "list_all wf_item is" "\<not> g_skip_blocks (p_gc ps)"
    and "do_block ge (init_words ge ps (show_block is)) is = Some res"
  shows "parse_line ge ps (show_block is) = res"
proof -
  have "\<not> is_jog (show_block is)" using assms(1) by (rule no_jog_block)
  moreover have "reading (init_words ge ps (show_block is))"
    using assms(2) by (simp add: reading_def init_words_def Let_def)
  ultimately show ?thesis
    using block_read [OF assms(1) _ assms(3)] by (simp add: parse_line_def)
qed

theorem block_text_is_read_witness:
  "case parse_line ex_ge ex_params (show_block
      [WordItem CHR ''T'' (NumText ''3''), WordItem CHR ''G'' (NumText ''1''),
       WordItem CHR ''X'' (NumExpr (Seq (Lit ''1'') Binary_Plus (One (Lit ''2''))))]) of
     Parsed w \<Rightarrow> v_xyz (b_values (w_block w)) 0 = 3 | _ \<Rightarrow> False"
proof -
  let ?is = "[WordItem CHR ''T'' (NumText ''3''), WordItem CHR ''G'' (NumText ''1''),
       WordItem CHR ''X'' (NumExpr (Seq (Lit ''1'') Binary_Plus (One (Lit ''2''))))]"
  have "case do_block ex_ge (init_words ex_ge ex_params (show_block ?is)) ?is of
      Some (Parsed w) \<Rightarrow> v_xyz (b_values (w_block w)) 0 = 3 | _ \<Rightarrow> False"
    by code_simp
  then obtain w where "do_block ex_ge (init_words ex_ge ex_params (show_block ?is)) ?is = Some (Parsed w)"
    "v_xyz (b_values (w_block w)) 0 = 3"
    by (auto split: option.splits parsed_line.splits)
  moreover have "list_all wf_item ?is" "\<not> g_skip_blocks (p_gc ex_params)" by code_simp+
  ultimately show ?thesis using block_text_is_read [of ?is ex_params ex_ge] by simp
qed

text \<open>Two parameters exchange their values.\<close>

definition ex_two :: "unit pstate" where
  "ex_two = ex_params\<lparr>float_params := [100 \<mapsto> 1, 101 \<mapsto> 2]\<rparr>"

definition ex_exchange :: "item list" where
  "ex_exchange = [AssignItem (NumRef ''100'') (NumParam (NumRef ''101'')),
     AssignItem (NumRef ''101'') (NumParam (NumRef ''100''))]"

lemma ex_exchange_read:
  "case parse_line ex_ge ex_two ''#100=#101#101=#100'' of
     Parsed w \<Rightarrow> assignments (w_ps w) = [(numbered 100, 2), (numbered 101, 1)] | _ \<Rightarrow> False"
proof -
  have shown: "show_block ex_exchange = ''#100=#101#101=#100''" by code_simp
  have "case do_block ex_ge (init_words ex_ge ex_two (show_block ex_exchange)) ex_exchange of
      Some (Parsed w) \<Rightarrow> assignments (w_ps w) = [(numbered 100, 2), (numbered 101, 1)] | _ \<Rightarrow> False"
    by code_simp
  then obtain w where w: "do_block ex_ge (init_words ex_ge ex_two (show_block ex_exchange)) ex_exchange = Some (Parsed w)"
    "assignments (w_ps w) = [(numbered 100, 2), (numbered 101, 1)]"
    by (auto split: option.splits parsed_line.splits)
  have wf: "list_all wf_item ex_exchange" by code_simp
  have "reading (init_words ex_ge ex_two (show_block ex_exchange))" by code_simp
  from block_read [OF wf this w(1)] no_jog_block [OF wf] show ?thesis
    unfolding shown by (simp add: parse_line_def w(2))
qed

theorem assignments_act_together_witness:
  "\<exists>w. parse_line ex_ge ex_two ''#100=#101#101=#100'' = Parsed w \<and> float_params (w_ps w) = [100 \<mapsto> 1, 101 \<mapsto> 2]
     \<and> get_numbered_param ex_readings (snd (perform_assignments ex_readings (w_ps w))) 100 = Some 2
     \<and> get_numbered_param ex_readings (snd (perform_assignments ex_readings (w_ps w))) 101 = Some 1"
proof -
  obtain w where w: "parse_line ex_ge ex_two ''#100=#101#101=#100'' = Parsed w"
      "assignments (w_ps w) = [(numbered 100, 2), (numbered 101, 1)]"
    using ex_exchange_read by (auto split: parsed_line.splits)
  have m: "map_of (rev (number_values (assignments (w_ps w)))) = [100 \<mapsto> 2, 101 \<mapsto> 1]"
    "list_all by_number (assignments (w_ps w))"
    by (auto simp: w(2) number_values_def numbered_def by_number_def user_param_def)
  note t = assignments_act_together [OF w(1), of ex_readings, unfolded m(1)]
  have "float_params (w_ps w) = [100 \<mapsto> 1, 101 \<mapsto> 2]" using t by (simp add: ex_two_def)
  moreover have "\<forall>i. case ([100 \<mapsto> 2, 101 \<mapsto> 1] :: int \<Rightarrow> rat option) i of
      Some v \<Rightarrow> get_numbered_param ex_readings (snd (perform_assignments ex_readings (w_ps w))) i = Some v
    | None \<Rightarrow> get_numbered_param ex_readings (snd (perform_assignments ex_readings (w_ps w))) i =
        get_numbered_param ex_readings (w_ps w) i"
    using t m(2) by (simp add: split_beta)
  from spec [OF this, of 100] spec [OF this, of 101]
  have "get_numbered_param ex_readings (snd (perform_assignments ex_readings (w_ps w))) 100 = Some 2"
    "get_numbered_param ex_readings (snd (perform_assignments ex_readings (w_ps w))) 101 = Some 1" by simp_all
  ultimately show ?thesis using w(1) by blast
qed

section \<open>No word twice\<close>

definition is_word :: "item \<Rightarrow> bool" where
  "is_word it = (case it of WordItem l n \<Rightarrow> True | AssignItem p n \<Rightarrow> False)"

definition words_counted :: "'c words \<Rightarrow> nat" where
  "words_counted w = card (command_words w) + card (value_words w)"

lemma all_groups: "(UNIV :: modal_group set) = set [MG0, MG1, MG2, MG3, MG4, MG5, MG6, MG7, MG8, MG12, MG13,
    MM4, MM5, MM6, MM7, MM8, MM9, MM10]"
proof -
  have "g \<in> set [MG0, MG1, MG2, MG3, MG4, MG5, MG6, MG7, MG8, MG12, MG13,
    MM4, MM5, MM6, MM7, MM8, MM9, MM10]" for g by (cases g) simp_all
  then show ?thesis by blast
qed

lemma all_value_words: "(UNIV :: gcode_word set) = set [Word_E, Word_F, Word_I, Word_J, Word_K, Word_L, Word_N,
    Word_P, Word_Q, Word_R, Word_S, Word_T, Word_X, Word_Y, Word_Z, Word_A, Word_B, Word_C, Word_O, Word_D]"
proof -
  have "g \<in> set [Word_E, Word_F, Word_I, Word_J, Word_K, Word_L, Word_N,
    Word_P, Word_Q, Word_R, Word_S, Word_T, Word_X, Word_Y, Word_Z, Word_A, Word_B, Word_C, Word_O, Word_D]"
    for g by (cases g) simp_all
  then show ?thesis by blast
qed

lemma finite_words [simp]: "finite (g :: modal_group set)" "finite (v :: gcode_word set)"
  by (rule finite_subset [OF subset_UNIV], simp add: all_groups)
    (rule finite_subset [OF subset_UNIV], simp add: all_value_words)

lemma words_counted_max: "words_counted w \<le> 38"
proof -
  have "card (command_words w) \<le> card (UNIV :: modal_group set)" "card (value_words w) \<le> card (UNIV :: gcode_word set)"
    by (rule card_mono; simp)+
  moreover have "card (UNIV :: modal_group set) \<le> 18" "card (UNIV :: gcode_word set) \<le> 20"
    unfolding all_groups all_value_words by (rule order_trans [OF card_length], simp)+
  ultimately show ?thesis by (simp add: words_counted_def)
qed

lemma one_more_counted: "one_more w w' \<Longrightarrow> words_counted w' = Suc (words_counted w)"
  by (auto simp: one_more_def words_counted_def)

lemma do_block_counted:
  "do_block ge w is = Some (Parsed w') \<Longrightarrow> words_counted w' = words_counted w + length (filter is_word is)"
proof (induction "is" arbitrary: w)
  case (Cons it "is")
  then obtain w1 where w1: "do_item ge w it = Some (Inr w1)" "do_block ge w1 is = Some (Parsed w')"
    by (auto split: option.splits sum.splits)
  then have "words_counted w1 = words_counted w + (if is_word it then 1 else 0)"
    by (cases it) (auto simp: is_word_def Let_def words_counted_def [of "_\<lparr>w_ps := _\<rparr>"] words_counted_def [of w]
        bind_eq_Some_conv dest!: do_word_one one_more_counted)
  with Cons.IH [OF w1(2)] show ?case by simp
qed simp

text \<open> C22. A block that is accepted has no word twice and no two commands of a modal group: the
  groups and the value words noted are as many as its words, which are 38 at most.\<close>

theorem accepted_words_are_distinct:
  assumes "list_all wf_item is" "\<not> g_skip_blocks (p_gc ps)"
    and "do_block ge (init_words ge ps (show_block is)) is \<noteq> None"
    and "parse_line ge ps (show_block is) = Parsed w"
  shows "card (command_words w) + card (value_words w) = length (filter is_word is)
     \<and> length (filter is_word is) \<le> 38"
proof -
  obtain res where res: "do_block ge (init_words ge ps (show_block is)) is = Some res" using assms(3) by auto
  have "reading (init_words ge ps (show_block is))"
    using assms(2) by (simp add: reading_def init_words_def Let_def)
  moreover have "\<not> is_jog (show_block is)" using assms(1) by (rule no_jog_block)
  ultimately have "res = Parsed w"
    using block_read [OF assms(1) _ res] assms(4) by (simp add: parse_line_def)
  with res have "words_counted w = words_counted (init_words ge ps (show_block is)) + length (filter is_word is)"
    using do_block_counted by blast
  moreover have "words_counted (init_words ge ps (show_block is)) = 0"
    by (simp add: words_counted_def init_words_def Let_def)
  ultimately show ?thesis using words_counted_max [of w] by (simp add: words_counted_def)
qed

theorem accepted_words_are_distinct_witness:
  "case parse_line ex_ge ex_params ''G1X2F100'' of
     Parsed w \<Rightarrow> card (command_words w) + card (value_words w) = 3 | _ \<Rightarrow> False"
proof -
  let ?is = "[WordItem CHR ''G'' (NumText ''1''), WordItem CHR ''X'' (NumText ''2''), WordItem CHR ''F'' (NumText ''100'')]"
  have t: "show_block ?is = ''G1X2F100''" by code_simp
  have "case parse_line ex_ge ex_params ''G1X2F100'' of Parsed w \<Rightarrow> True | _ \<Rightarrow> False" by code_simp
  then obtain w where w: "parse_line ex_ge ex_params ''G1X2F100'' = Parsed w" by (auto split: parsed_line.splits)
  have "list_all wf_item ?is" "\<not> g_skip_blocks (p_gc ex_params)" by code_simp+
  moreover have "\<not> Option.is_none (do_block ex_ge (init_words ex_ge ex_params ''G1X2F100'') ?is)" by code_simp
  ultimately have "card (command_words w) + card (value_words w) = length (filter is_word ?is)"
    using accepted_words_are_distinct [of ?is ex_params ex_ge w] w t by (simp add: Option.is_none_def)
  with w show ?thesis by (simp add: is_word_def)
qed


end
