(* ===== verification/GCodeMove.thy ===== *)
theory GCodeMove
  imports GCodeKeeps
begin

text \<open>
  Where a line takes the machine: what the execution of a block leaves alone until it comes
  to the offsets and the motion, what the checks compute, and the position and the offsets
  after a G0 or G1 line and after G92, in exact arithmetic.
\<close>

section \<open>Variables that most steps of the execution leave alone\<close>

lemmas exec_access =
  x_gc_def x_modal_def x_values_def x_axis_command_def k_gc_def k_modal_def k_values_def

lemmas exec_update =
  x_do_def ps_upd_def gs_upd_def gmd_upd_def pl_upd_def block_modal_def block_values_def gc_upd_def
  k_upd_def md_upd_def val_upd_def set_values_def

definition same_course :: "'c exec \<Rightarrow> 'c exec \<Rightarrow> bool" where
  "same_course x y \<longleftrightarrow>
     g_position (x_gc y) = g_position (x_gc x) \<and> g_coord_offset (x_gc y) = g_coord_offset (x_gc x)
     \<and> g_coord_system (x_gc y) = g_coord_system (x_gc x)
     \<and> g_tool_length_offset (x_gc y) = g_tool_length_offset (x_gc x)
     \<and> md_coord_select (g_modal (x_gc y)) = md_coord_select (g_modal (x_gc x))
     \<and> k_block_coords (x_k y) = k_block_coords (x_k x) \<and> k_coord_select (x_k y) = k_coord_select (x_k x)
     \<and> k_coord_data (x_k y) = k_coord_data (x_k x) \<and> v_xyz (x_values y) = v_xyz (x_values x)
     \<and> x_axis_command y = x_axis_command x
     \<and> b_non_modal (w_block (k_words (x_k y))) = b_non_modal (w_block (k_words (x_k x)))
     \<and> md_motion (x_modal y) = md_motion (x_modal x)
     \<and> md_coord_select (x_modal y) = md_coord_select (x_modal x)
     \<and> md_program_flow (x_modal y) = md_program_flow (x_modal x)
     \<and> assignments (k_ps (x_k y)) = assignments (k_ps (x_k x))"

lemma same_course_refl [simp]: "same_course x x"
  by (simp add: same_course_def)

lemma same_course_trans: "same_course x y \<Longrightarrow> same_course y z \<Longrightarrow> same_course x z"
  by (simp add: same_course_def)

lemmas course_defs = same_course_def exec_access exec_update k_ps_def Let_def

lemma course_updates [simp]:
  "same_course x (x_do es y) = same_course x y" "same_course x (pl_upd f y) = same_course x y"
  "same_course x (y\<lparr>x_sync_laser := b\<rparr>) = same_course x y"
  "same_course x (y\<lparr>x_disable_laser := b\<rparr>) = same_course x y"
  "same_course x (y\<lparr>x_laser_is_motion := b\<rparr>) = same_course x y"
  "same_course x (gs_upd (\<lambda>gs. gs\<lparr>g_spindle_speed := s\<rparr>) y) = same_course x y"
  "same_course x (gs_upd (\<lambda>gs. gs\<lparr>g_selected_tool := t\<rparr>) y) = same_course x y"
  "same_course x (gs_upd (\<lambda>gs. gs\<lparr>g_current_tool := c\<rparr>) y) = same_course x y"
  "same_course x (gmd_upd (\<lambda>md. md\<lparr>md_spindle := sp\<rparr>) y) = same_course x y"
  "same_course x (gmd_upd (\<lambda>md. md\<lparr>md_mist := b\<rparr>) y) = same_course x y"
  "same_course x (gmd_upd (\<lambda>md. md\<lparr>md_flood := b\<rparr>) y) = same_course x y"
  "same_course x (gmd_upd (\<lambda>md. md\<lparr>md_mist := b1, md_flood := b2\<rparr>) y) = same_course x y"
  "same_course x (gmd_upd (\<lambda>md. md\<lparr>md_override := ov\<rparr>) y) = same_course x y"
  "same_course x (gmd_upd (\<lambda>md. md\<lparr>md_plane := pn, md_units := u\<rparr>) y) = same_course x y"
  "same_course x (gmd_upd (\<lambda>md. md\<lparr>md_distance := d\<rparr>) y) = same_course x y"
  "same_course x (block_modal (\<lambda>md. md\<lparr>md_spindle := sp\<rparr>) y) = same_course x y"
  "same_course x (block_values (\<lambda>vs. vs\<lparr>v_q := q\<rparr>) y) = same_course x y"
  by (simp_all add: course_defs)

lemma switch_spindle_course [simp]: "same_course x (switch_spindle xe tool y) = same_course x y"
  by (simp add: switch_spindle_def Let_def split: prod.split)

lemma run_devices_course:
  "run_laser xe x = Inr y \<Longrightarrow> same_course x y"
  "run_speed xe x = Inr y \<Longrightarrow> same_course x y"
  "run_tool_change xe x = Inr y \<Longrightarrow> same_course x y"
  "run_tool_number xe x = Inr y \<Longrightarrow> same_course x y"
  "run_spindle xe x = Inr y \<Longrightarrow> same_course x y"
  "run_digital xe x = Inr y \<Longrightarrow> same_course x y"
  "run_analog xe x = Inr y \<Longrightarrow> same_course x y"
  "run_override xe x = Inr y \<Longrightarrow> same_course x y"
  "run_dwell xe x = Inr y \<Longrightarrow> same_course x y"
  "run_plane_units x = Inr y \<Longrightarrow> same_course x y"
  "run_distance x = Inr y \<Longrightarrow> same_course x y"
  by (auto simp: run_laser_def run_speed_def run_tool_change_def run_tool_number_def run_spindle_def
      run_digital_def run_analog_def run_override_def run_dwell_def run_plane_units_def run_distance_def
      Let_def split: if_splits)

lemma run_feed_course: "run_feed x = Inr y \<Longrightarrow> same_course x y"
  by (auto simp: run_feed_def course_defs)

lemma run_coolant_course: "run_coolant xe x = Inr y \<Longrightarrow> same_course x y"
  by (auto simp: run_coolant_def Let_def split: if_splits gcode_coolant.splits)

lemma run_wait_course: "run_wait xe x = Inr y \<Longrightarrow> same_course x y"
proof -
  have "same_course x (ps_upd (\<lambda>ps. snd (gc_wait_on_input xe d n m ps)) x)" for d n m
    by (auto simp: gc_wait_on_input_def set_user_param course_defs split: sum.split)
  then show "run_wait xe x = Inr y \<Longrightarrow> same_course x y"
    by (auto simp: run_wait_def Let_def split: if_splits option.splits)
qed

lemma run_all_append: "run_all (fs @ gs) x = then_run (run_all fs x) (run_all gs)"
  by (induction fs arbitrary: x) (auto simp: then_run_def split: sum.split)

lemma run_all_course:
  "(\<And>f x y. f \<in> set fs \<Longrightarrow> f x = Inr y \<Longrightarrow> same_course x y) \<Longrightarrow> run_all fs x = Inr y \<Longrightarrow> same_course x y"
proof (induction fs arbitrary: x)
  case (Cons f fs)
  then obtain x1 where "f x = Inr x1" "run_all fs x1 = Inr y"
    by (auto simp: then_run_def split: sum.splits)
  moreover have "same_course x1 y" by (rule Cons.IH) (use Cons.prems calculation in auto)
  ultimately show ?case using Cons.prems(1) [of f x x1] same_course_trans by auto
qed simp

text \<open>The steps of the execution before the offsets, and those from there.\<close>

definition device_runs :: "'c exec_env \<Rightarrow> ('c exec \<Rightarrow> 'c run) list" where
  "device_runs xe =
     [run_laser xe, run_feed, run_speed xe, run_tool_change xe, run_tool_number xe, run_spindle xe,
      run_coolant xe, run_digital xe, run_analog xe, run_wait xe, run_override xe, run_dwell xe,
      run_plane_units]"

definition course_runs :: "'c exec_env \<Rightarrow> ('c exec \<Rightarrow> 'c run) list" where
  "course_runs xe = [run_tlo, run_coords, run_distance, run_non_modal, run_motion xe, run_program_flow xe]"

lemma runs_split: "runs xe = device_runs xe @ course_runs xe"
  by (simp add: runs_def device_runs_def course_runs_def)

lemma device_runs_course: "run_all (device_runs xe) x = Inr y \<Longrightarrow> same_course x y"
  by (erule run_all_course [rotated])
    (auto simp: device_runs_def intro: run_devices_course run_feed_course run_coolant_course run_wait_course)

section \<open>What the checks compute\<close>

definition same_block :: "'c checked \<Rightarrow> 'c checked \<Rightarrow> bool" where
  "same_block k l \<longleftrightarrow>
     axis_words (k_words l) = axis_words (k_words k) \<and> w_axis_command (k_words l) = w_axis_command (k_words k)
     \<and> w_nonmodal_g38 (k_words l) = w_nonmodal_g38 (k_words k)
     \<and> command_words (k_words l) = command_words (k_words k)
     \<and> b_non_modal (w_block (k_words l)) = b_non_modal (w_block (k_words k))
     \<and> md_motion (k_modal l) = md_motion (k_modal k) \<and> md_units (k_modal l) = md_units (k_modal k)
     \<and> md_distance (k_modal l) = md_distance (k_modal k)
     \<and> md_coord_select (k_modal l) = md_coord_select (k_modal k)
     \<and> md_program_flow (k_modal l) = md_program_flow (k_modal k)
     \<and> v_l (k_values l) = v_l (k_values k) \<and> v_p (k_values l) = v_p (k_values k)
     \<and> v_xyz (k_values l) = v_xyz (k_values k) \<and> k_gc l = k_gc k
     \<and> coord_set (k_ps l) = coord_set (k_ps k) \<and> assignments (k_ps l) = assignments (k_ps k)"

lemma same_block_refl [simp]: "same_block k k"
  by (simp add: same_block_def)

lemma same_block_trans: "same_block k l \<Longrightarrow> same_block l m \<Longrightarrow> same_block k m"
  by (simp add: same_block_def)

lemmas block_defs =
  same_block_def k_modal_def k_values_def k_gc_def k_ps_def k_upd_def md_upd_def val_upd_def set_values_def
  clear_words_def k_notify_def notify_def

lemma block_updates [simp]:
  "same_block k (clear_words ws l) = same_block k l"
  "same_block k (set_values (\<lambda>vs. vs\<lparr>v_f := f vs\<rparr>) l) = same_block k l"
  "same_block k (set_values (\<lambda>vs. vs\<lparr>v_s := s\<rparr>) l) = same_block k l"
  "same_block k (k_upd (md_upd (\<lambda>md. md\<lparr>md_override := ov\<rparr>)) l) = same_block k l"
  "same_block k (l\<lparr>k_wait_digital := b\<rparr>) = same_block k l"
  "same_block k (l\<lparr>k_block_coords := c\<rparr>) = same_block k l"
  "same_block k (k_notify ci l) = same_block k l"
  by (simp_all add: block_defs)

lemma err_not_Inr [simp]: "err e k = Inr l \<longleftrightarrow> False"
  by (simp add: err_def)

lemma plain_checks:
  "check_feed ge jog k = Inr l \<Longrightarrow> same_block k l" "check_speed k = Inr l \<Longrightarrow> same_block k l"
  "check_override ge k = Inr l \<Longrightarrow> same_block k l" "require_word word k = Inr l \<Longrightarrow> same_block k l"
  "check_wait_mode ge k = Inr l \<Longrightarrow> same_block k l" "check_unused jog k = Inr l \<Longrightarrow> same_block k l"
  by (auto simp: check_feed_def check_speed_def check_override_def require_word_def check_wait_mode_def
      check_unused_def Let_def split: if_splits option.splits)

lemma word_checks:
  "check_dwell k = Inr l \<Longrightarrow> same_block k l" "check_tool_number k = Inr l \<Longrightarrow> same_block k l"
  "check_io ge k = Inr l \<Longrightarrow> same_block k l"
proof -
  show "check_dwell k = Inr l \<Longrightarrow> same_block k l" "check_tool_number k = Inr l \<Longrightarrow> same_block k l"
    by (auto simp: check_dwell_def check_tool_number_def plain_checks(4) split: if_splits)
  have wait: "then_check (require_word Word_L (clear_words ws (k\<lparr>k_wait_digital := d\<rparr>))) (check_wait_mode ge)
      = Inr l \<Longrightarrow> same_block k l" for ws d
  proof -
    have first: "same_block k (clear_words ws (k\<lparr>k_wait_digital := d\<rparr>))" by simp
    show "then_check (require_word Word_L (clear_words ws (k\<lparr>k_wait_digital := d\<rparr>))) (check_wait_mode ge)
      = Inr l \<Longrightarrow> same_block k l"
      by (auto simp: then_check_def split: sum.splits dest!: plain_checks(4,5)
          intro: same_block_trans [OF same_block_trans [OF first]])
  qed
  show "check_io ge k = Inr l \<Longrightarrow> same_block k l"
    by (auto simp: check_io_def Let_def plain_checks(4) wait split: if_splits)
qed

text \<open>
  A block with axis words whose command is the motion mode, or none: the target of the
  checks. \<open>k1\<close> below is the block in millimetres.
\<close>

lemma check_common_motion:
  "check_common (start_check w) = Inr k \<Longrightarrow> axis_words w \<noteq> {} \<Longrightarrow> w_axis_command w = AxisCommand_None
     \<or> w_axis_command w = AxisCommand_MotionMode \<Longrightarrow>
   same_block (start_check (w\<lparr>w_axis_command := AxisCommand_MotionMode\<rparr>)) k"
  by (auto simp: check_common_def start_check_def block_defs Let_def split: if_splits)

lemma check_common_other:
  "check_common (start_check w) = Inr k \<Longrightarrow> w_axis_command w \<noteq> AxisCommand_None \<Longrightarrow> same_block (start_check w) k"
  by (auto simp: check_common_def start_check_def Let_def split: if_splits)

definition value_checks :: "'c gc_env \<Rightarrow> ('c checked \<Rightarrow> 'c check) list" where
  "value_checks ge =
     [check_feed ge False, check_speed, check_override ge, check_dwell, check_io ge, check_tool_number]"

lemma run_checks_append: "run_checks (fs @ gs) k = then_check (run_checks fs k) (run_checks gs)"
  by (induction fs arbitrary: k) (auto simp: then_check_def split: sum.split)

lemma checks_split:
  "checks ge False = check_common # value_checks ge @
     [check_units ge, check_tlo, check_coords, check_non_modal ge, check_motion ge, check_unused False]"
  by (simp add: checks_def value_checks_def)

lemma run_checks_block:
  "(\<And>f k l. f \<in> set fs \<Longrightarrow> f k = Inr l \<Longrightarrow> same_block k l) \<Longrightarrow> run_checks fs k = Inr l \<Longrightarrow> same_block k l"
proof (induction fs arbitrary: k)
  case (Cons f fs)
  then obtain k1 where "f k = Inr k1" "run_checks fs k1 = Inr l"
    by (auto simp: then_check_def split: sum.splits)
  moreover have "same_block k1 l" by (rule Cons.IH) (use Cons.prems calculation in auto)
  ultimately show ?case using Cons.prems(1) [of f k k1] same_block_trans by auto
qed simp

lemma value_checks_block: "run_checks (value_checks ge) k = Inr l \<Longrightarrow> same_block k l"
  by (erule run_checks_block [rotated]) (auto simp: value_checks_def intro: plain_checks word_checks)

text \<open>The steps of the check that succeed, one after the other.\<close>

lemma check_block_steps:
  assumes "check_block ge False w = Inr k"
  obtains k0 k1 k2 k3 k4 k5 k6 where
    "check_common (start_check w) = Inr k0" "same_block k0 k1" "check_units ge k1 = Inr k2"
    "check_tlo k2 = Inr k3" "check_coords k3 = Inr k4" "check_non_modal ge k4 = Inr k5"
    "check_motion ge k5 = Inr k6" "same_block k6 k"
    "k_block_coords k6 = k_block_coords k" "k_coord_data k6 = k_coord_data k"
proof -
  from assms obtain k0 where k0: "check_common (start_check w) = Inr k0"
    and r0: "run_checks (value_checks ge @ [check_units ge, check_tlo, check_coords, check_non_modal ge,
      check_motion ge, check_unused False]) k0 = Inr k"
    by (auto simp: check_block_def checks_split then_check_def split: sum.splits)
  then obtain k1 where k1: "run_checks (value_checks ge) k0 = Inr k1"
    and r1: "run_checks [check_units ge, check_tlo, check_coords, check_non_modal ge,
      check_motion ge, check_unused False] k1 = Inr k"
    by (auto simp: run_checks_append then_check_def split: sum.splits)
  obtain k2 where k2: "check_units ge k1 = Inr k2" by (simp add: check_units_def Let_def)
  with r1 obtain k3 where k3: "check_tlo k2 = Inr k3"
    and r3: "run_checks [check_coords, check_non_modal ge, check_motion ge, check_unused False] k3 = Inr k"
    by (auto simp: then_check_def split: sum.splits)
  then obtain k4 where k4: "check_coords k3 = Inr k4"
    and r4: "run_checks [check_non_modal ge, check_motion ge, check_unused False] k4 = Inr k"
    by (auto simp: then_check_def split: sum.splits)
  then obtain k5 where k5: "check_non_modal ge k4 = Inr k5"
    and r5: "run_checks [check_motion ge, check_unused False] k5 = Inr k"
    by (auto simp: then_check_def split: sum.splits)
  then obtain k6 where k6: "check_motion ge k5 = Inr k6" and r6: "check_unused False k6 = Inr k"
    by (auto simp: then_check_def split: sum.splits)
  have "k_block_coords k6 = k_block_coords k" "k_coord_data k6 = k_coord_data k"
    using r6 by (auto simp: check_unused_def Let_def clear_words_def k_upd_def split: if_splits)
  then show thesis
    using that k0 value_checks_block [OF k1] k2 k3 k4 k5 k6 plain_checks(6) [OF r6] by blast
qed


section \<open>G0 and G1\<close>

definition plain_block :: "'c words \<Rightarrow> bool" where
  "plain_block w \<longleftrightarrow> axis_words w \<noteq> {} \<and> \<not> w_nonmodal_g38 w
     \<and> md_program_flow (b_modal (w_block w)) = ProgramFlow_Running \<and> assignments (w_ps w) = []"

text \<open>A straight motion: no other command that uses axis words, no end of the program.\<close>

definition straight_move :: "'c words \<Rightarrow> bool" where
  "straight_move w \<longleftrightarrow> plain_block w \<and> b_non_modal (w_block w) = NonModal_NoAction
     \<and> md_motion (b_modal (w_block w)) \<in> {Motion_Seek, Motion_Linear}
     \<and> w_axis_command w \<in> {AxisCommand_None, AxisCommand_MotionMode}"

text \<open>The value of an axis word in millimetres, or degrees.\<close>

definition programmed :: "'c words \<Rightarrow> nat \<Rightarrow> rat" where
  "programmed w n =
     (if md_units (b_modal (w_block w)) = Units_Inches \<and> (n < 3 \<or> 5 < n)
      then v_xyz (b_values (w_block w)) n * MM_PER_INCH else v_xyz (b_values (w_block w)) n)"

definition exact_env :: "'c gc_env \<Rightarrow> bool" where
  "exact_env ge \<longleftrightarrow> rd_arith (ge_rd ge) = exact"

lemma exact_ops [simp]:
  "f_add exact a b = a + b" "f_sub exact a b = a - b" "f_mul exact a b = a * b" "f_lit exact q = q"
  "f_zero exact a \<longleftrightarrow> a = 0"
  by (simp_all add: exact_def f_zero_def)

lemma check_units_values:
  "exact_env ge \<Longrightarrow> check_units ge k = Inr l \<Longrightarrow> n < n_axis ge \<Longrightarrow> n \<in> axis_words (k_words k) \<Longrightarrow>
   \<not> w_nonmodal_g38 (k_words k) \<Longrightarrow>
   v_xyz (k_values l) n = (if md_units (k_modal k) = Units_Inches \<and> (n < 3 \<or> 5 < n)
     then v_xyz (k_values k) n * MM_PER_INCH else v_xyz (k_values k) n)"
  by (auto simp: check_units_def each_axis_def inch_mul_def inch_block_def ge_arith_def exact_env_def
      block_defs Let_def cong: if_cong)

text \<open>The fields that the units leave alone.\<close>

definition same_but_xyz :: "'c checked \<Rightarrow> 'c checked \<Rightarrow> bool" where
  "same_but_xyz k l \<longleftrightarrow> same_block (set_values (\<lambda>vs. vs\<lparr>v_xyz := v_xyz (k_values l)\<rparr>) k) l"

lemma same_but_xyz_refl: "same_block k l \<Longrightarrow> same_but_xyz k l"
  by (simp add: same_but_xyz_def block_defs)

lemma same_but_xyz_trans: "same_but_xyz k l \<Longrightarrow> same_but_xyz l m \<Longrightarrow> same_but_xyz k m"
  by (simp add: same_but_xyz_def block_defs)

lemma check_units_same: "check_units ge k = Inr l \<Longrightarrow> same_but_xyz k l"
  by (cases "inch_block k") (auto simp: check_units_def same_but_xyz_def block_defs Let_def)

lemma check_tlo_same: "check_tlo k = Inr l \<Longrightarrow> same_block k l"
  by (auto simp: check_tlo_def Let_def split: if_splits)

lemma check_coords_same:
  "check_coords k = Inr l \<Longrightarrow> same_block k l"
  "check_coords k = Inr l \<Longrightarrow> md_coord_select (g_modal (k_gc k)) = md_coord_select (k_modal k) \<Longrightarrow>
   k_block_coords l = g_coord_system (k_gc k)"
  by (auto simp: check_coords_def Let_def k_gc_def split: if_splits)

lemma check_straight_motion:
  "check_motion ge k = Inr l \<Longrightarrow> axis_words (k_words k) \<noteq> {} \<Longrightarrow>
   md_motion (k_modal k) \<in> {Motion_Seek, Motion_Linear} \<or> w_axis_command (k_words k) \<noteq> AxisCommand_MotionMode \<Longrightarrow>
   l = k"
  by (auto simp: check_motion_def optional_axes_def Let_def split: if_splits)

text \<open>The target of a straight motion.\<close>

definition target_of :: "'c words \<Rightarrow> gc_state \<Rightarrow> (nat \<Rightarrow> rat) \<Rightarrow> nat \<Rightarrow> rat" where
  "target_of w gs coords n =
     (if n \<notin> axis_words w then g_position gs n
      else if md_distance (b_modal (w_block w)) = Distance_Absolute then
        programmed w n + (coords n + g_coord_offset gs n
          + (if n = TOOL_LENGTH_OFFSET_AXIS then g_tool_length_offset gs else 0))
      else programmed w n + g_position gs n)"

lemma check_straight_move:
  assumes "exact_env ge" "straight_move w" "check_block ge False w = Inr k"
  shows "n < n_axis ge \<Longrightarrow> v_xyz (k_values k) n = target_of w (p_gc (w_ps w)) (k_block_coords k) n"
    and "same_but_xyz (start_check (w\<lparr>w_axis_command := AxisCommand_MotionMode\<rparr>)) k"
    and "md_coord_select (g_modal (p_gc (w_ps w))) = md_coord_select (b_modal (w_block w)) \<Longrightarrow>
         k_block_coords k = g_coord_system (p_gc (w_ps w))"
proof -
  let ?s = "start_check (w\<lparr>w_axis_command := AxisCommand_MotionMode\<rparr>)"
  obtain k0 k1 k2 k3 k4 k5 k6 where s:
    "check_common (start_check w) = Inr k0" "same_block k0 k1" "check_units ge k1 = Inr k2"
    "check_tlo k2 = Inr k3" "check_coords k3 = Inr k4" "check_non_modal ge k4 = Inr k5"
    "check_motion ge k5 = Inr k6" "same_block k6 k"
    "k_block_coords k6 = k_block_coords k" "k_coord_data k6 = k_coord_data k"
    by (rule check_block_steps [OF assms(3)])
  have "same_block ?s k0"
    by (rule check_common_motion [OF s(1)]) (use assms(2) in \<open>auto simp: straight_move_def plain_block_def\<close>)
  then have b1: "same_block ?s k1" using s(2) by (rule same_block_trans)
  have b4: "same_but_xyz ?s k4"
    using b1 check_units_same [OF s(3)] check_tlo_same [OF s(4)] check_coords_same(1) [OF s(5)]
    by (meson same_but_xyz_refl same_but_xyz_trans)
  have w: "b_non_modal (w_block w) = NonModal_NoAction" "axis_words w \<noteq> {}" "\<not> w_nonmodal_g38 w"
    "md_motion (b_modal (w_block w)) \<in> {Motion_Seek, Motion_Linear}"
    using assms(2) by (auto simp: straight_move_def plain_block_def)
  have k5: "k5 = compute_target ge k4"
    using s(6) b4 w by (auto simp: check_non_modal_def same_but_xyz_def block_defs start_check_def)
  have b5: "same_but_xyz k4 k5" "k_block_coords k5 = k_block_coords k4"
    by (simp_all add: k5 compute_target_def same_but_xyz_def block_defs)
  have k6: "k6 = k5"
    by (rule check_straight_motion [OF s(7)]) (use b4 b5 w in \<open>auto simp: same_but_xyz_def block_defs start_check_def\<close>)
  show "same_but_xyz ?s k"
    using b4 b5 s(8) k6 by (meson same_but_xyz_refl same_but_xyz_trans)
  show "n < n_axis ge \<Longrightarrow> v_xyz (k_values k) n = target_of w (p_gc (w_ps w)) (k_block_coords k) n"
  proof -
    assume n: "n < n_axis ge"
    have "v_xyz (k_values k4) n = programmed w n" if "n \<in> axis_words w"
    proof -
      have "v_xyz (k_values k4) n = v_xyz (k_values k2) n"
        using check_tlo_same [OF s(4)] check_coords_same(1) [OF s(5)] by (simp add: same_block_def)
      also have "\<dots> = programmed w n"
        using check_units_values [OF assms(1) s(3) n] b1 w that
        by (simp add: block_defs start_check_def programmed_def cong: if_cong)
      finally show ?thesis .
    qed
    moreover have "v_xyz (k_values k) n = (if axis_words w = {} then v_xyz (k_values k4) n
        else target_axis ge k4 n (v_xyz (k_values k4) n))"
      using n s(8) b4 by (auto simp: k6 k5 compute_target_def each_axis_def same_but_xyz_def block_defs start_check_def)
    moreover have "target_axis ge k4 n v = (if n \<notin> axis_words w then g_position (p_gc (w_ps w)) n
       else if md_distance (b_modal (w_block w)) = Distance_Absolute then
         v + (k_block_coords k4 n + g_coord_offset (p_gc (w_ps w)) n
           + (if n = TOOL_LENGTH_OFFSET_AXIS then g_tool_length_offset (p_gc (w_ps w)) else 0))
       else v + g_position (p_gc (w_ps w)) n)" for v
      using b4 w assms(1) by (simp add: target_axis_def same_but_xyz_def block_defs start_check_def Let_def
          exact_env_def ge_arith_def)
    moreover have "k_block_coords k = k_block_coords k4"
      using s(9) k6 b5(2) by simp
    ultimately show ?thesis
      using w by (simp add: target_of_def)
  qed
  assume "md_coord_select (g_modal (p_gc (w_ps w))) = md_coord_select (b_modal (w_block w))"
  then have "k_block_coords k4 = g_coord_system (k_gc k3)"
    by (intro check_coords_same(2) [OF s(5)])
      (use b1 check_units_same [OF s(3)] check_tlo_same [OF s(4)] in
        \<open>auto simp: same_but_xyz_def block_defs start_check_def\<close>)
  then show "k_block_coords k = g_coord_system (p_gc (w_ps w))"
    using s(9) k6 b5(2) b1 check_units_same [OF s(3)] check_tlo_same [OF s(4)]
    by (simp add: same_but_xyz_def block_defs start_check_def)
qed


text \<open>The last steps of the execution, for a straight motion.\<close>

lemma run_coords_system:
  "run_coords x = Inr y \<Longrightarrow>
   (md_coord_select (g_modal (x_gc x)) = md_coord_select (x_modal x) \<Longrightarrow>
    k_block_coords (x_k x) = g_coord_system (x_gc x)) \<Longrightarrow>
   g_coord_system (x_gc y) = k_block_coords (x_k x)"
  by (auto simp: run_coords_def course_defs wco_changed_def split: if_splits)

definition after_coords :: "'c exec \<Rightarrow> 'c exec \<Rightarrow> bool" where
  "after_coords x y \<longleftrightarrow>
     (\<exists>z. same_course x z \<and> y = gs_upd (\<lambda>gs. gs\<lparr>g_modal := (g_modal gs)\<lparr>md_coord_select := md_coord_select (x_modal x)\<rparr>,
        g_coord_system := g_coord_system (x_gc y)\<rparr>) z)"

lemma run_coords_after: "run_coords x = Inr y \<Longrightarrow> after_coords x y"
proof -
  assume "run_coords x = Inr y"
  then have "y = gs_upd (\<lambda>gs. gs\<lparr>g_modal := (g_modal gs)\<lparr>md_coord_select := md_coord_select (x_modal x)\<rparr>,
        g_coord_system := g_coord_system (x_gc y)\<rparr>) (x\<lparr>x_eff := x_eff y\<rparr>)"
    by (auto simp: run_coords_def exec_access exec_update wco_changed_def Let_def split: if_splits)
  moreover have "same_course x (x\<lparr>x_eff := x_eff y\<rparr>)" by (simp add: course_defs)
  ultimately show ?thesis unfolding after_coords_def by blast
qed

lemma course_runs_straight:
  assumes "run_all (course_runs xe) x = Inr y"
    and "x_axis_command x = AxisCommand_MotionMode"
    and "b_non_modal (w_block (k_words (x_k x))) = NonModal_NoAction"
    and "md_motion (x_modal x) \<in> {Motion_Seek, Motion_Linear}"
    and "md_program_flow (x_modal x) = ProgramFlow_Running"
    and "md_coord_select (g_modal (x_gc x)) = md_coord_select (x_modal x) \<Longrightarrow>
      k_block_coords (x_k x) = g_coord_system (x_gc x)"
  shows "g_position (x_gc y) = v_xyz (x_values x)" "g_coord_system (x_gc y) = k_block_coords (x_k x)"
    "g_coord_offset (x_gc y) = g_coord_offset (x_gc x)"
    "g_tool_length_offset (x_gc y) = g_tool_length_offset (x_gc x)"
    "assignments (k_ps (x_k y)) = assignments (k_ps (x_k x))"
    "\<exists>plan. McLinear (v_xyz (x_values x)) plan \<in> set (x_eff y) \<and> (md_motion (x_modal x) = Motion_Seek \<longrightarrow> pl_rapid plan)"
proof -
  have tlo: "run_tlo x = Inr x" using assms(2) by (simp add: run_tlo_def)
  obtain x1 where x1: "run_coords x = Inr x1" by (simp add: run_coords_def Let_def)
  obtain x2 where x2: "run_distance x1 = Inr x2" by (simp add: run_distance_def Let_def)
  have sys: "g_coord_system (x_gc x1) = k_block_coords (x_k x)"
    by (rule run_coords_system [OF x1]) (rule assms(6))
  obtain z where z: "same_course x z" "x1 = gs_upd (\<lambda>gs. gs\<lparr>g_modal := (g_modal gs)\<lparr>md_coord_select :=
      md_coord_select (x_modal x)\<rparr>, g_coord_system := k_block_coords (x_k x)\<rparr>) z"
    using run_coords_after [OF x1] sys by (auto simp: after_coords_def)
  have x2_course: "same_course x1 x2" by (rule run_devices_course(11) [OF x2])
  have kept: "v_xyz (x_values x2) = v_xyz (x_values x)" "x_axis_command x2 = x_axis_command x"
    "b_non_modal (w_block (k_words (x_k x2))) = b_non_modal (w_block (k_words (x_k x)))"
    "md_motion (x_modal x2) = md_motion (x_modal x)" "md_program_flow (x_modal x2) = md_program_flow (x_modal x)"
    "g_coord_system (x_gc x2) = k_block_coords (x_k x)" "g_coord_offset (x_gc x2) = g_coord_offset (x_gc x)"
    "g_tool_length_offset (x_gc x2) = g_tool_length_offset (x_gc x)"
    "assignments (k_ps (x_k x2)) = assignments (k_ps (x_k x))"
    using z x2_course by (simp_all add: course_defs)
  have nm: "run_non_modal x2 = Inr x2" using assms(3) kept by (simp add: run_non_modal_def)
  obtain x3 where x3: "run_motion xe x2 = Inr x3" "run_program_flow xe x3 = Inr y"
    using assms(1) x1 x2 by (auto simp: course_runs_def tlo nm then_run_def split: sum.splits)
  have m: "md_motion (x_modal x2) = Motion_Seek \<or> md_motion (x_modal x2) = Motion_Linear"
    "x_axis_command x2 = AxisCommand_MotionMode" "md_program_flow (x_modal x2) = ProgramFlow_Running"
    using assms kept by auto
  let ?plan = "if md_motion (x_modal x2) = Motion_Seek then (x_plan x2)\<lparr>pl_rapid := True\<rparr> else x_plan x2"
  let ?moved = "gs_upd (\<lambda>gs. gs\<lparr>g_modal := (g_modal gs)\<lparr>md_motion := md_motion (x_modal x2)\<rparr>,
      g_position := v_xyz (x_values x2)\<rparr>)
    (x2\<lparr>x_plan := ?plan, x_eff := x_eff x2 @ [McLinear (v_xyz (x_values x2)) ?plan]\<rparr>)"
  have "x3 = ?moved"
    using x3(1) m
    by (auto simp: run_motion_def run_motion_command_def mc_linear_def exec_access exec_update Let_def
        split: if_splits)
  with x3(2) m(3) have y: "y = gmd_upd (\<lambda>md. md\<lparr>md_program_flow := ProgramFlow_Running\<rparr>) ?moved"
    by (simp add: run_program_flow_def exec_access exec_update)
  show "g_position (x_gc y) = v_xyz (x_values x)" "g_coord_system (x_gc y) = k_block_coords (x_k x)"
    "g_coord_offset (x_gc y) = g_coord_offset (x_gc x)"
    "g_tool_length_offset (x_gc y) = g_tool_length_offset (x_gc x)"
    "assignments (k_ps (x_k y)) = assignments (k_ps (x_k x))"
    using kept by (simp_all add: y exec_access exec_update k_ps_def)
  show "\<exists>plan. McLinear (v_xyz (x_values x)) plan \<in> set (x_eff y) \<and> (md_motion (x_modal x) = Motion_Seek \<longrightarrow> pl_rapid plan)"
    by (rule exI [of _ ?plan]) (use kept in \<open>simp add: y exec_update\<close>)
qed


lemma pending_gc:
  "pending_only ps ps' \<Longrightarrow> \<exists>t. p_gc ps' = (p_gc ps)\<lparr>g_selected_tool := t\<rparr> \<and> coord_set ps' = coord_set ps"
  by (auto simp: pending_only_def gc_upd_def)

text \<open>No check fails with the code of success.\<close>

lemma err_code [simp]: "err e k = Inl p \<longleftrightarrow> p = (e, w_ps (k_words k))"
  by (auto simp: err_def)

lemma check_error: "f \<in> set (checks ge jog) \<Longrightarrow> f k \<noteq> Inl (Error_Ok, ps)"
  by (auto simp: checks_def check_common_def check_feed_def check_speed_def check_override_def check_dwell_def
      check_io_def check_wait_mode_def require_word_def check_tool_number_def check_units_def check_tlo_def
      check_coords_def check_non_modal_def check_g10_def check_g92_def check_go_home_def check_motion_def
      optional_axes_def check_arc_def check_arc_radius_def check_arc_centre_def check_probe_def check_unused_def
      then_check_def Let_def split: if_splits option.splits sum.splits non_modal.splits prod.splits)

lemma check_block_error: "check_block ge jog w \<noteq> Inl (Error_Ok, ps)"
proof -
  have "run_checks fs k \<noteq> Inl (Error_Ok, ps)" if "set fs \<subseteq> set (checks ge jog)" for fs k
    using that by (induction fs arbitrary: k) (auto simp: then_check_def check_error split: sum.split)
  then show ?thesis by (simp add: check_block_def)
qed

lemma run_block_ok:
  assumes "run_block xe k = (Error_Ok, ps, es)"
  obtains x y ok where "run_all (device_runs xe) (start_run k) = Inr x" "run_all (course_runs xe) x = Inr y"
    "perform_assignments (ge_rd (xe_ge xe)) (k_ps (x_k y)) = (ok, ps)" "es = x_eff y"
proof -
  have fail: "run_all (runs xe) (start_run k) \<noteq> Inl (Error_Ok, x)" for x
  proof -
    have no_ok: "f x \<noteq> Inl (Error_Ok, x')" if "f \<in> set (runs xe)" for f x x'
      using that
      by (auto simp: runs_def run_laser_def run_feed_def run_speed_def run_tool_change_def run_tool_number_def
          run_spindle_def run_coolant_def run_digital_def run_analog_def run_wait_def run_override_def
          run_dwell_def run_plane_units_def run_tlo_def run_coords_def run_distance_def run_non_modal_def
          run_motion_def run_program_flow_def Let_def split: if_splits option.splits prod.splits)
    have "run_all fs x \<noteq> Inl (Error_Ok, x')" if "set fs \<subseteq> set (runs xe)" for fs x x'
      using that by (induction fs arbitrary: x) (auto simp: then_run_def no_ok split: sum.split)
    then show ?thesis by blast
  qed
  with assms obtain y where y: "run_all (runs xe) (start_run k) = Inr y"
    by (auto simp: run_block_def split: sum.splits)
  then obtain x where "run_all (device_runs xe) (start_run k) = Inr x" "run_all (course_runs xe) x = Inr y"
    by (auto simp: runs_split run_all_append then_run_def split: sum.splits)
  moreover have "\<exists>ok. perform_assignments (ge_rd (xe_ge xe)) (k_ps (x_k y)) = (ok, ps)" "es = x_eff y"
    using assms y by (auto simp: run_block_def k_ps_def split: prod.splits if_splits)
  ultimately show thesis using that by blast
qed

lemma no_assignments: "assignments ps = [] \<Longrightarrow> perform_assignments rd ps = (ok, qs) \<Longrightarrow> qs = ps"
  by (simp add: perform_assignments_def) (metis pstate.surjective pstate.update_convs(8))

text \<open>A line that has been executed without an error, step by step.\<close>

lemma executed_line:
  assumes "gc_execute_line xe line i = Some (Error_Ok, i', es)" "\<not> is_jog (cleaned i line)"
    and "parse_line (xe_ge xe) (i_ps i) (cleaned i line) = Parsed w"
  obtains k ps es' x y ok t where "check_block (xe_ge xe) False w = Inr k" "i' = i\<lparr>i_ps := ps\<rparr>"
    "es = comments_of i line @ es'" "run_all (device_runs xe) (start_run k) = Inr x"
    "run_all (course_runs xe) x = Inr y" "perform_assignments (ge_rd (xe_ge xe)) (k_ps (x_k y)) = (ok, ps)"
    "es' = x_eff y" "p_gc (w_ps w) = (p_gc (i_ps i))\<lparr>g_selected_tool := t\<rparr>"
proof -
  obtain k ps es' where k: "check_block (xe_ge xe) False w = Inr k" and r: "run_block xe k = (Error_Ok, ps, es')"
    and i': "i' = i\<lparr>i_ps := ps\<rparr>" "es = comments_of i line @ es'"
  proof (cases "check_block (xe_ge xe) False w")
    case (Inl p)
    then have "fst p = Error_Ok"
      using assms by (cases p) (simp add: gc_execute_line_cases)
    then show thesis using check_block_error [of "xe_ge xe" False w] Inl by (cases p) auto
  next
    case (Inr k)
    obtain e ps es' where "run_block xe k = (e, ps, es')" by (metis prod_cases3)
    then show thesis using that [OF Inr] assms Inr by (simp add: gc_execute_line_cases)
  qed
  obtain t where "p_gc (w_ps w) = (p_gc (i_ps i))\<lparr>g_selected_tool := t\<rparr>"
    using pending_gc [OF parse_line_pending] assms(3) by (metis parsed_state.simps(1))
  with k i' show thesis by (rule_tac run_block_ok [OF r]) (rule that)
qed

text \<open> C12. A G0 or G1 line takes the machine where it says. In exact arithmetic, after a line of
  axis words without another command on the axes: with absolute distances the work position
  of each axis named, the position less the offset the status reports, is the programmed
  value in millimetres, whatever coordinate system, G92 offset and tool length are in force
  or are selected by the line; with incremental ones the axis has moved by the value; the
  other axes have not moved; and the motion control has been given that target.\<close>

theorem straight_move_reaches_target:
  assumes "exact_env (xe_ge xe)" "\<not> is_jog (cleaned i line)"
    and "parse_line (xe_ge xe) (i_ps i) (cleaned i line) = Parsed w" "straight_move w"
    and "gc_execute_line xe line i = Some (Error_Ok, i', es)" "n < n_axis (xe_ge xe)"
  shows "(n \<notin> axis_words w \<longrightarrow> g_position (p_gc (i_ps i')) n = g_position (p_gc (i_ps i)) n)
    \<and> (n \<in> axis_words w \<and> md_distance (b_modal (w_block w)) = Distance_Absolute \<longrightarrow>
        g_position (p_gc (i_ps i')) n - get_wco (ge_rd (xe_ge xe)) (i_ps i') n = programmed w n)
    \<and> (n \<in> axis_words w \<and> md_distance (b_modal (w_block w)) = Distance_Incremental \<longrightarrow>
        g_position (p_gc (i_ps i')) n = g_position (p_gc (i_ps i)) n + programmed w n)
    \<and> (\<exists>plan. McLinear (g_position (p_gc (i_ps i'))) plan \<in> set es
        \<and> (md_motion (b_modal (w_block w)) = Motion_Seek \<longrightarrow> pl_rapid plan))"
proof -
  obtain k ps es' x y ok t where k: "check_block (xe_ge xe) False w = Inr k"
    and i': "i' = i\<lparr>i_ps := ps\<rparr>" "es = comments_of i line @ es'"
    and x: "run_all (device_runs xe) (start_run k) = Inr x" "run_all (course_runs xe) x = Inr y"
      "perform_assignments (ge_rd (xe_ge xe)) (k_ps (x_k y)) = (ok, ps)" "es' = x_eff y"
    and gs: "p_gc (w_ps w) = (p_gc (i_ps i))\<lparr>g_selected_tool := t\<rparr>"
    by (rule executed_line [OF assms(5,2,3)])
  note target = check_straight_move [OF assms(1,4) k]
  note course = device_runs_course [OF x(1)]
  have w: "b_non_modal (w_block w) = NonModal_NoAction" "md_program_flow (b_modal (w_block w)) = ProgramFlow_Running"
    "md_motion (b_modal (w_block w)) \<in> {Motion_Seek, Motion_Linear}" "assignments (w_ps w) = []"
    using assms(4) by (auto simp: straight_move_def plain_block_def)
  have at_x: "x_axis_command x = AxisCommand_MotionMode"
    "b_non_modal (w_block (k_words (x_k x))) = NonModal_NoAction"
    "md_motion (x_modal x) = md_motion (b_modal (w_block w))" "md_program_flow (x_modal x) = ProgramFlow_Running"
    "md_coord_select (x_modal x) = md_coord_select (b_modal (w_block w))"
    "md_coord_select (g_modal (x_gc x)) = md_coord_select (g_modal (p_gc (w_ps w)))"
    "g_coord_system (x_gc x) = g_coord_system (p_gc (w_ps w))" "k_block_coords (x_k x) = k_block_coords k"
    "v_xyz (x_values x) = v_xyz (k_values k)" "assignments (k_ps (x_k x)) = []"
    "g_coord_offset (x_gc x) = g_coord_offset (p_gc (w_ps w))"
    "g_tool_length_offset (x_gc x) = g_tool_length_offset (p_gc (w_ps w))"
    using course target(2) w
    by (simp_all add: same_but_xyz_def same_course_def block_defs exec_access start_check_def start_run_def)
  have sys: "md_coord_select (g_modal (x_gc x)) = md_coord_select (x_modal x) \<Longrightarrow>
      k_block_coords (x_k x) = g_coord_system (x_gc x)"
    using target(3) at_x by simp
  have "md_motion (x_modal x) \<in> {Motion_Seek, Motion_Linear}" using at_x(3) w(3) by simp
  note done_run = course_runs_straight [OF x(2) at_x(1,2) this at_x(4) sys]
  have "ps = k_ps (x_k y)"
    by (rule no_assignments [OF _ x(3)]) (use done_run(5) at_x in simp)
  then have gs': "p_gc ps = x_gc y" by (simp add: exec_access k_ps_def)
  have "g_position (x_gc y) n = target_of w (p_gc (w_ps w)) (k_block_coords k) n"
    using done_run(1) at_x target(1) assms(6) by simp
  moreover have "get_wco (ge_rd (xe_ge xe)) ps n = k_block_coords k n + g_coord_offset (p_gc (i_ps i)) n
      + (if n = TOOL_LENGTH_OFFSET_AXIS then g_tool_length_offset (p_gc (i_ps i)) else 0)"
    using assms(1,6) done_run at_x gs gs'
    by (simp add: get_wco_def exact_env_def n_axis_def TOOL_LENGTH_OFFSET_AXIS_def)
  moreover have "\<exists>plan. McLinear (g_position (p_gc ps)) plan \<in> set es'
      \<and> (md_motion (b_modal (w_block w)) = Motion_Seek \<longrightarrow> pl_rapid plan)"
    using done_run(1,6) at_x gs' x(4) by auto
  ultimately show ?thesis
    using gs gs' i' by (auto simp: target_of_def)
qed


text \<open>A state with offsets in force: G54 at (5, 5, 5), a G92 offset of 1, a tool of length 2.\<close>

definition ex_offset :: "unit interpreter" where
  "ex_offset = ex_start\<lparr>i_ps := gc_upd (\<lambda>gs. gs\<lparr>g_coord_system := (\<lambda>n. 5), g_coord_offset := (\<lambda>n. 1),
     g_tool_length_offset := 2\<rparr>) ex_params\<rparr>"

theorem straight_move_reaches_target_witness:
  "case gc_execute_line ex_xe ''G20 G1 Z2 F30'' ex_offset of
     None \<Rightarrow> False
   | Some (e, i', es) \<Rightarrow> g_position (p_gc (i_ps i')) 2 - get_wco ex_readings (i_ps i') 2 = 2 * MM_PER_INCH"
proof -
  have "case gc_execute_line ex_xe ''G20 G1 Z2 F30'' ex_offset of
      None \<Rightarrow> False | Some (e, i', es) \<Rightarrow> e = Error_Ok"
    by code_simp
  then obtain i' es where run: "gc_execute_line ex_xe ''G20 G1 Z2 F30'' ex_offset = Some (Error_Ok, i', es)"
    by (auto split: option.splits)
  have "case parse_line (xe_ge ex_xe) (i_ps ex_offset) (cleaned ex_offset ''G20 G1 Z2 F30'') of
      Parsed w \<Rightarrow> straight_move w \<and> 2 \<in> axis_words w \<and> programmed w 2 = 2 * MM_PER_INCH
        \<and> md_distance (b_modal (w_block w)) = Distance_Absolute
    | _ \<Rightarrow> False"
    by code_simp
  then obtain w where w: "parse_line (xe_ge ex_xe) (i_ps ex_offset) (cleaned ex_offset ''G20 G1 Z2 F30'') = Parsed w"
    "straight_move w" "2 \<in> axis_words w" "programmed w 2 = 2 * MM_PER_INCH"
    "md_distance (b_modal (w_block w)) = Distance_Absolute"
    by (auto split: parsed_line.splits)
  have "exact_env (xe_ge ex_xe)" "2 < n_axis (xe_ge ex_xe)" "ge_rd (xe_ge ex_xe) = ex_readings"
    by (simp_all add: exact_env_def ex_xe_def ex_ge_def ex_readings_def n_axis_def)
  moreover have "\<not> is_jog (cleaned ex_offset ''G20 G1 Z2 F30'')" by code_simp
  ultimately show ?thesis
    using straight_move_reaches_target [OF _ _ w(1,2) run, of 2] w(3-5) run by simp
qed


section \<open>G92\<close>

definition sets_offset :: "'c words \<Rightarrow> bool" where
  "sets_offset w \<longleftrightarrow> plain_block w \<and> b_non_modal (w_block w) = NonModal_SetCoordinateOffset
     \<and> w_axis_command w = AxisCommand_NonModal"

text \<open>The new G92 offset.\<close>

definition offset_of :: "'c words \<Rightarrow> gc_state \<Rightarrow> (nat \<Rightarrow> rat) \<Rightarrow> nat \<Rightarrow> rat" where
  "offset_of w gs coords n =
     (if n \<in> axis_words w then g_position gs n - coords n - programmed w n
        - (if n = TOOL_LENGTH_OFFSET_AXIS then g_tool_length_offset gs else 0)
      else g_coord_offset gs n)"

lemma check_sets_offset:
  assumes "exact_env ge" "sets_offset w" "check_block ge False w = Inr k"
  shows "n < n_axis ge \<Longrightarrow> v_xyz (k_values k) n = offset_of w (p_gc (w_ps w)) (k_block_coords k) n"
    and "same_but_xyz (start_check w) k"
    and "md_coord_select (g_modal (p_gc (w_ps w))) = md_coord_select (b_modal (w_block w)) \<Longrightarrow>
         k_block_coords k = g_coord_system (p_gc (w_ps w))"
proof -
  let ?s = "start_check w"
  obtain k0 k1 k2 k3 k4 k5 k6 where s:
    "check_common ?s = Inr k0" "same_block k0 k1" "check_units ge k1 = Inr k2"
    "check_tlo k2 = Inr k3" "check_coords k3 = Inr k4" "check_non_modal ge k4 = Inr k5"
    "check_motion ge k5 = Inr k6" "same_block k6 k"
    "k_block_coords k6 = k_block_coords k" "k_coord_data k6 = k_coord_data k"
    by (rule check_block_steps [OF assms(3)])
  have w: "b_non_modal (w_block w) = NonModal_SetCoordinateOffset" "axis_words w \<noteq> {}" "\<not> w_nonmodal_g38 w"
    "w_axis_command w = AxisCommand_NonModal"
    using assms(2) by (auto simp: sets_offset_def plain_block_def)
  have "same_block ?s k0" by (rule check_common_other [OF s(1)]) (simp add: w)
  then have b1: "same_block ?s k1" using s(2) by (rule same_block_trans)
  have b4: "same_but_xyz ?s k4"
    using b1 check_units_same [OF s(3)] check_tlo_same [OF s(4)] check_coords_same(1) [OF s(5)]
    by (meson same_but_xyz_refl same_but_xyz_trans)
  have g92: "check_g92 ge k4 = Inr k5"
    using s(6) b4 w by (simp add: check_non_modal_def same_but_xyz_def block_defs start_check_def)
  then have b5: "same_but_xyz k4 k5" "k_block_coords k5 = k_block_coords k4"
    by (auto simp: check_g92_def Let_def same_but_xyz_def block_defs split: if_splits)
  have k6: "k6 = k5"
    by (rule check_straight_motion [OF s(7)]) (use b4 b5 w in \<open>auto simp: same_but_xyz_def block_defs start_check_def\<close>)
  show "same_but_xyz ?s k"
    using b4 b5 s(8) k6 by (meson same_but_xyz_refl same_but_xyz_trans)
  show "n < n_axis ge \<Longrightarrow> v_xyz (k_values k) n = offset_of w (p_gc (w_ps w)) (k_block_coords k) n"
  proof -
    assume n: "n < n_axis ge"
    have p: "v_xyz (k_values k4) n = programmed w n" if "n \<in> axis_words w"
    proof -
      have "v_xyz (k_values k4) n = v_xyz (k_values k2) n"
        using check_tlo_same [OF s(4)] check_coords_same(1) [OF s(5)] by (simp add: same_block_def)
      also have "\<dots> = programmed w n"
        using check_units_values [OF assms(1) s(3) n] b1 w that
        by (simp add: block_defs start_check_def programmed_def cong: if_cong)
      finally show ?thesis .
    qed
    have "v_xyz (k_values k) n = (if n \<in> axis_words w
        then offset_for ge k4 (k_block_coords k4) n (v_xyz (k_values k4) n) else g_coord_offset (p_gc (w_ps w)) n)"
      using n s(8) b4 g92 k6
      by (auto simp: check_g92_def Let_def each_axis_def same_but_xyz_def block_defs start_check_def split: if_splits)
    moreover have "offset_for ge k4 (k_block_coords k4) n v = g_position (p_gc (w_ps w)) n - k_block_coords k n - v
        - (if n = TOOL_LENGTH_OFFSET_AXIS then g_tool_length_offset (p_gc (w_ps w)) else 0)" for v
      using b4 assms(1) s(9) k6 b5(2)
      by (simp add: offset_for_def same_but_xyz_def block_defs start_check_def Let_def exact_env_def ge_arith_def)
    ultimately show ?thesis using p by (simp add: offset_of_def)
  qed
  assume "md_coord_select (g_modal (p_gc (w_ps w))) = md_coord_select (b_modal (w_block w))"
  then have "k_block_coords k4 = g_coord_system (k_gc k3)"
    by (intro check_coords_same(2) [OF s(5)])
      (use b1 check_units_same [OF s(3)] check_tlo_same [OF s(4)] in
        \<open>auto simp: same_but_xyz_def block_defs start_check_def\<close>)
  then show "k_block_coords k = g_coord_system (p_gc (w_ps w))"
    using s(9) k6 b5(2) b1 check_units_same [OF s(3)] check_tlo_same [OF s(4)]
    by (simp add: same_but_xyz_def block_defs start_check_def)
qed

lemma course_runs_offset:
  assumes "run_all (course_runs xe) x = Inr y"
    and "x_axis_command x = AxisCommand_NonModal"
    and "b_non_modal (w_block (k_words (x_k x))) = NonModal_SetCoordinateOffset"
    and "md_program_flow (x_modal x) = ProgramFlow_Running"
    and "md_coord_select (g_modal (x_gc x)) = md_coord_select (x_modal x) \<Longrightarrow>
      k_block_coords (x_k x) = g_coord_system (x_gc x)"
  shows "g_coord_offset (x_gc y) = v_xyz (x_values x)" "g_coord_system (x_gc y) = k_block_coords (x_k x)"
    "g_position (x_gc y) = g_position (x_gc x)"
    "g_tool_length_offset (x_gc y) = g_tool_length_offset (x_gc x)"
    "assignments (k_ps (x_k y)) = assignments (k_ps (x_k x))"
proof -
  have tlo: "run_tlo x = Inr x" using assms(2) by (simp add: run_tlo_def)
  obtain x1 where x1: "run_coords x = Inr x1" by (simp add: run_coords_def Let_def)
  obtain x2 where x2: "run_distance x1 = Inr x2" by (simp add: run_distance_def Let_def)
  have sys: "g_coord_system (x_gc x1) = k_block_coords (x_k x)"
    by (rule run_coords_system [OF x1]) (rule assms(5))
  obtain z where z: "same_course x z" "x1 = gs_upd (\<lambda>gs. gs\<lparr>g_modal := (g_modal gs)\<lparr>md_coord_select :=
      md_coord_select (x_modal x)\<rparr>, g_coord_system := k_block_coords (x_k x)\<rparr>) z"
    using run_coords_after [OF x1] sys by (auto simp: after_coords_def)
  have "same_course x1 x2" by (rule run_devices_course(11) [OF x2])
  with z have kept: "v_xyz (x_values x2) = v_xyz (x_values x)" "x_axis_command x2 = x_axis_command x"
    "b_non_modal (w_block (k_words (x_k x2))) = b_non_modal (w_block (k_words (x_k x)))"
    "md_program_flow (x_modal x2) = md_program_flow (x_modal x)"
    "g_coord_system (x_gc x2) = k_block_coords (x_k x)" "g_position (x_gc x2) = g_position (x_gc x)"
    "g_tool_length_offset (x_gc x2) = g_tool_length_offset (x_gc x)"
    "assignments (k_ps (x_k x2)) = assignments (k_ps (x_k x))"
    by (simp_all add: course_defs)
  let ?set = "wco_changed (ngc_notify Coord_G92 (gs_upd (\<lambda>gs. gs\<lparr>g_coord_offset := v_xyz (x_values x2)\<rparr>) x2))"
  have nm: "run_non_modal x2 = Inr ?set"
    using assms(3) kept by (simp add: run_non_modal_def Let_def)
  have "x_axis_command ?set = AxisCommand_NonModal" "md_program_flow (x_modal ?set) = ProgramFlow_Running"
    using assms(2,4) kept by (simp_all add: wco_changed_def ngc_notify_def notify_def exec_access exec_update)
  then have "y = gmd_upd (\<lambda>md. md\<lparr>md_program_flow := ProgramFlow_Running\<rparr>)
      (gmd_upd (\<lambda>md. md\<lparr>md_motion := md_motion (x_modal ?set)\<rparr>) ?set)"
    using assms(1) x1 x2
    by (auto simp: course_runs_def tlo nm then_run_def run_motion_def run_program_flow_def exec_access exec_update Let_def)
  then show "g_coord_offset (x_gc y) = v_xyz (x_values x)" "g_coord_system (x_gc y) = k_block_coords (x_k x)"
    "g_position (x_gc y) = g_position (x_gc x)"
    "g_tool_length_offset (x_gc y) = g_tool_length_offset (x_gc x)"
    "assignments (k_ps (x_k y)) = assignments (k_ps (x_k x))"
    using kept by (simp_all add: wco_changed_def ngc_notify_def notify_def exec_access exec_update k_ps_def)
qed


text \<open> C20. G92 gives the current position the programmed coordinates. In exact arithmetic, after
  a G92 line the machine is where it was, the work position of each axis named is the
  programmed value in millimetres, and the offset of the other axes is unchanged.\<close>

theorem g92_sets_work_position:
  assumes "exact_env (xe_ge xe)" "\<not> is_jog (cleaned i line)"
    and "parse_line (xe_ge xe) (i_ps i) (cleaned i line) = Parsed w" "sets_offset w"
    and "gc_execute_line xe line i = Some (Error_Ok, i', es)" "n < n_axis (xe_ge xe)"
  shows "g_position (p_gc (i_ps i')) = g_position (p_gc (i_ps i))
    \<and> (if n \<in> axis_words w
       then g_position (p_gc (i_ps i')) n - get_wco (ge_rd (xe_ge xe)) (i_ps i') n = programmed w n
       else g_coord_offset (p_gc (i_ps i')) n = g_coord_offset (p_gc (i_ps i)) n)"
proof -
  obtain k ps es' x y ok t where k: "check_block (xe_ge xe) False w = Inr k"
    and i': "i' = i\<lparr>i_ps := ps\<rparr>" "es = comments_of i line @ es'"
    and x: "run_all (device_runs xe) (start_run k) = Inr x" "run_all (course_runs xe) x = Inr y"
      "perform_assignments (ge_rd (xe_ge xe)) (k_ps (x_k y)) = (ok, ps)" "es' = x_eff y"
    and gs: "p_gc (w_ps w) = (p_gc (i_ps i))\<lparr>g_selected_tool := t\<rparr>"
    by (rule executed_line [OF assms(5,2,3)])
  note offset = check_sets_offset [OF assms(1,4) k]
  have w: "b_non_modal (w_block w) = NonModal_SetCoordinateOffset" "w_axis_command w = AxisCommand_NonModal"
    "md_program_flow (b_modal (w_block w)) = ProgramFlow_Running" "assignments (w_ps w) = []"
    using assms(4) by (auto simp: sets_offset_def plain_block_def)
  have at_x: "x_axis_command x = AxisCommand_NonModal"
    "b_non_modal (w_block (k_words (x_k x))) = NonModal_SetCoordinateOffset"
    "md_program_flow (x_modal x) = ProgramFlow_Running"
    "md_coord_select (x_modal x) = md_coord_select (b_modal (w_block w))"
    "md_coord_select (g_modal (x_gc x)) = md_coord_select (g_modal (p_gc (w_ps w)))"
    "g_coord_system (x_gc x) = g_coord_system (p_gc (w_ps w))" "k_block_coords (x_k x) = k_block_coords k"
    "v_xyz (x_values x) = v_xyz (k_values k)" "assignments (k_ps (x_k x)) = []"
    "g_position (x_gc x) = g_position (p_gc (w_ps w))"
    "g_tool_length_offset (x_gc x) = g_tool_length_offset (p_gc (w_ps w))"
    using device_runs_course [OF x(1)] offset(2) w
    by (simp_all add: same_but_xyz_def same_course_def block_defs exec_access start_check_def start_run_def)
  have sys: "md_coord_select (g_modal (x_gc x)) = md_coord_select (x_modal x) \<Longrightarrow>
      k_block_coords (x_k x) = g_coord_system (x_gc x)"
    using offset(3) at_x by simp
  note done_run = course_runs_offset [OF x(2) at_x(1-3) sys]
  have "ps = k_ps (x_k y)"
    by (rule no_assignments [OF _ x(3)]) (use done_run(5) at_x in simp)
  then have gs': "p_gc ps = x_gc y" by (simp add: exec_access k_ps_def)
  have off: "g_coord_offset (x_gc y) n = offset_of w (p_gc (w_ps w)) (k_block_coords k) n"
    using done_run(1) at_x offset(1) assms(6) by simp
  have "get_wco (ge_rd (xe_ge xe)) ps n = k_block_coords k n + g_coord_offset (x_gc y) n
      + (if n = TOOL_LENGTH_OFFSET_AXIS then g_tool_length_offset (p_gc (i_ps i)) else 0)"
    using assms(1,6) done_run at_x gs gs'
    by (simp add: get_wco_def exact_env_def n_axis_def TOOL_LENGTH_OFFSET_AXIS_def)
  with off show ?thesis
    using gs gs' i' done_run(3) at_x by (auto simp: offset_of_def)
qed

theorem g92_sets_work_position_witness:
  "case gc_execute_line ex_xe ''G92 X10 Z0'' ex_offset of
     None \<Rightarrow> False
   | Some (e, i', es) \<Rightarrow> g_position (p_gc (i_ps i')) 0 - get_wco ex_readings (i_ps i') 0 = 10"
proof -
  have "case gc_execute_line ex_xe ''G92 X10 Z0'' ex_offset of
      None \<Rightarrow> False | Some (e, i', es) \<Rightarrow> e = Error_Ok"
    by code_simp
  then obtain i' es where run: "gc_execute_line ex_xe ''G92 X10 Z0'' ex_offset = Some (Error_Ok, i', es)"
    by (auto split: option.splits)
  have "case parse_line (xe_ge ex_xe) (i_ps ex_offset) (cleaned ex_offset ''G92 X10 Z0'') of
      Parsed w \<Rightarrow> sets_offset w \<and> 0 \<in> axis_words w \<and> programmed w 0 = 10 | _ \<Rightarrow> False"
    by code_simp
  then obtain w where w: "parse_line (xe_ge ex_xe) (i_ps ex_offset) (cleaned ex_offset ''G92 X10 Z0'') = Parsed w"
    "sets_offset w" "0 \<in> axis_words w" "programmed w 0 = 10"
    by (auto split: parsed_line.splits)
  have "exact_env (xe_ge ex_xe)" "0 < n_axis (xe_ge ex_xe)" "ge_rd (xe_ge ex_xe) = ex_readings"
    by (simp_all add: exact_env_def ex_xe_def ex_ge_def ex_readings_def n_axis_def)
  moreover have "\<not> is_jog (cleaned ex_offset ''G92 X10 Z0'')" by code_simp
  ultimately show ?thesis
    using g92_sets_work_position [OF _ _ w(1,2) run, of 0] w(3,4) run by simp metis
qed

end
