(* ===== verification/GCodeArc.thy ===== *)
theory GCodeArc
  imports GCodeMove
begin

text \<open>
  The centre of an arc that is given by its radius: the computation of the code, with the
  quadratic equation it comes from.
\<close>

section \<open>The circle through two points\<close>

text \<open>
  With the current position as origin, \<open>(x, y)\<close> is the target and \<open>c\<close> the code's
  \<open>h_x2_div_d\<close>, twice the distance of the centre from the chord over the length of the chord.
\<close>

lemma centre_on_circle:
  fixes x y c q :: rat
  assumes "c * c * (x * x + y * y) = 4 * q - x * x - y * y"
  defines "i \<equiv> (x - y * c) / 2" and "j \<equiv> (y + x * c) / 2"
  shows "i * i + j * j = q" "(x - i) * (x - i) + (y - j) * (y - j) = q"
    "x * j - y * i = c * (x * x + y * y) / 2"
proof -
  have "4 * (i * i + j * j) = (x * x + y * y) + c * c * (x * x + y * y)"
    by (simp add: i_def j_def field_simps)
  then show on: "i * i + j * j = q" using assms(1) by simp
  have "(x - i) * (x - i) + (y - j) * (y - j) = i * i + j * j"
    by (simp add: i_def j_def field_simps)
  with on show "(x - i) * (x - i) + (y - j) * (y - j) = q" by simp
  show "x * j - y * i = c * (x * x + y * y) / 2"
    by (simp add: i_def j_def field_simps)
qed

text \<open>
  An arithmetic that is exact, with a square root \<open>sq\<close> and a chord \<open>ch\<close>: \<open>ch h d\<close> is
  \<open>- sqrt(h) / d\<close> of the code.
\<close>

definition arc_arith :: "(rat \<Rightarrow> rat) \<Rightarrow> (rat \<Rightarrow> rat \<Rightarrow> rat) \<Rightarrow> rat arith" where
  "arc_arith sq ch = exact\<lparr>f_chord := ch, sqrtf := sq\<rparr>"

lemma arc_arith_ops [simp]:
  "f_add (arc_arith sq ch) a b = a + b" "f_sub (arc_arith sq ch) a b = a - b"
  "f_mul (arc_arith sq ch) a b = a * b" "f_lit (arc_arith sq ch) q = q" "f_neg (arc_arith sq ch) a = - a"
  "f_less (arc_arith sq ch) a b \<longleftrightarrow> a < b" "f_chord (arc_arith sq ch) = ch" "sqrtf (arc_arith sq ch) = sq"
  by (simp_all add: arc_arith_def exact_def)

text \<open> C21. The centre of a radius-mode arc. When the square root of the arithmetic is right at the
  one place it is used, an arc that is accepted has a centre at the distance of the radius
  from both ends; the centre lies to the right of the chord for a clockwise arc and to the
  left for the other, or opposite when the radius is negative; and the radius passed on to
  the motion is positive.\<close>

theorem radius_arc_centre:
  assumes "rd_arith (ge_rd ge) = arc_arith sq ch" "a0 \<noteq> a1"
    and "check_arc_radius ge a0 a1 x y k = Inr l"
    and "r = (if inch_block k then v_r (k_values k) * MM_PER_INCH else v_r (k_values k))"
    and "ch (4 * r * r - x * x - y * y) (sq (x * x + y * y)) = c"
    and "c \<le> 0" "c * c * (x * x + y * y) = 4 * r * r - x * x - y * y"
  shows "let i = v_ijk (k_values l) a0; j = v_ijk (k_values l) a1 in
    i * i + j * j = r * r \<and> (x - i) * (x - i) + (y - j) * (y - j) = r * r \<and> v_r (k_values l) = abs r
    \<and> (if (md_motion (k_modal k) = Motion_CcwArc) \<longleftrightarrow> (r < 0) then x * j - y * i \<le> 0 else 0 \<le> x * j - y * i)"
proof -
  let ?ccw = "md_motion (k_modal k) = Motion_CcwArc"
  let ?c = "if ?ccw \<longleftrightarrow> (r < 0) then c else - c"
  have ar: "ge_arith ge = arc_arith sq ch" using assms(1) by (simp add: ge_arith_def)
  have inch: "inch_block (clear_words ws k) = inch_block k" "k_modal (clear_words ws k) = k_modal k"
    "k_values (clear_words ws k) = k_values k" for ws
    by (simp_all add: inch_block_def k_modal_def k_values_def clear_words_def k_upd_def)
  have r: "(if inch_block k then inch_mul ge (v_r (k_values k)) else v_r (k_values k)) = r"
    using assms(4) by (simp add: inch_mul_def ar)
  have l: "l = set_values (\<lambda>vs. vs\<lparr>v_r := (if r < 0 then - r else r), v_ijk := (v_ijk vs)
      (a0 := (x - y * ?c) / 2, a1 := (y + x * ?c) / 2)\<rparr>) (clear_words {Word_R} k)"
    using assms(3) unfolding check_arc_radius_def Let_def ar inch r hypot_f_def arc_arith_ops assms(5)
    by (cases "r < 0"; cases ?ccw) (simp_all split: if_splits)
  have "k_values l = (k_values k)\<lparr>v_r := abs r, v_ijk := (v_ijk (k_values k))
      (a0 := (x - y * ?c) / 2, a1 := (y + x * ?c) / 2)\<rparr>"
    by (simp add: l set_values_def val_upd_def k_upd_def k_values_def clear_words_def)
  then have ij: "v_ijk (k_values l) a0 = (x - y * ?c) / 2" "v_ijk (k_values l) a1 = (y + x * ?c) / 2"
    "v_r (k_values l) = abs r"
    using assms(2) by simp_all
  have "?c * ?c * (x * x + y * y) = 4 * (r * r) - x * x - y * y" using assms(7) by (simp add: mult.assoc)
  note circle = centre_on_circle [OF this, folded ij(1,2)]
  have "c * (x * x + y * y) \<le> 0" using assms(6) by (intro mult_nonpos_nonneg) simp_all
  then have "if ?ccw \<longleftrightarrow> (r < 0) then ?c * (x * x + y * y) / 2 \<le> 0 else 0 \<le> ?c * (x * x + y * y) / 2"
    by simp
  then show ?thesis
    unfolding Let_def using circle(1,2) ij(3) by (simp only: circle(3))
qed

text \<open>From (0, 0) to (6, 8) with a radius of 13: the centre is 12 to the right of the middle.\<close>

definition ex_arc_ge :: "unit gc_env" where
  "ex_arc_ge = ex_ge\<lparr>ge_rd := ex_readings\<lparr>rd_arith := arc_arith (\<lambda>q. if q = 100 then 10 else 0)
     (\<lambda>h d. if h = 576 \<and> d = 10 then - 24 / 10 else 0)\<rparr>\<rparr>"

definition ex_arc :: "unit checked" where
  "ex_arc = set_values (\<lambda>vs. vs\<lparr>v_r := 13, v_xyz := (v_xyz vs)(0 := 6, 1 := 8)\<rparr>)
     (k_upd (md_upd (\<lambda>md. md\<lparr>md_motion := Motion_CwArc\<rparr>)) (start_check (init_words ex_ge ex_params [])))"

theorem radius_arc_centre_witness:
  "case check_arc_radius ex_arc_ge 0 1 6 8 ex_arc of
     Inl e \<Rightarrow> False
   | Inr l \<Rightarrow> v_ijk (k_values l) 0 * v_ijk (k_values l) 0 + v_ijk (k_values l) 1 * v_ijk (k_values l) 1 = 169"
proof -
  have "case check_arc_radius ex_arc_ge 0 1 6 8 ex_arc of Inl e \<Rightarrow> False | Inr l \<Rightarrow> True" by code_simp
  then obtain l where l: "check_arc_radius ex_arc_ge 0 1 6 8 ex_arc = Inr l" by (auto split: sum.splits)
  have r: "(13 :: rat) = (if inch_block ex_arc then v_r (k_values ex_arc) * MM_PER_INCH else v_r (k_values ex_arc))"
    by code_simp
  have "rd_arith (ge_rd ex_arc_ge) = arc_arith (\<lambda>q. if q = 100 then 10 else 0)
      (\<lambda>h d. if h = 576 \<and> d = 10 then - 24 / 10 else 0)"
    by (simp add: ex_arc_ge_def ex_ge_def)
  from radius_arc_centre [OF this _ l r, of "- 24 / 10"] l show ?thesis
    by (simp add: Let_def)
qed

end
