(* ===== verification/Planner.thy ===== *)
theory Planner
  imports GCodeExec ThetaRho
begin

text \<open>
  FluidNC/src/Planner.cpp: the ring of planned blocks and the look-ahead that gives each of
  them an entry speed. Speeds are in mm/min, accelerations in mm/min^2, and speeds are kept
  as squares, as in the code. Floats are exact rationals; the square root is a parameter.
  The number of blocks is between 10 and 120 by the configuration, so that the 8-bit indices
  are natural numbers here. Loops over the ring are bounded by its size.
\<close>

section \<open>Blocks and state\<close>

text \<open>
  \<open>plan_block_t\<close>: \<open>pb_line\<close> holds what is copied from the line, with the flags of its
  motion; \<open>pb_system\<close> is the flag of a system motion.
\<close>

record plan_block =
  pb_line :: plan_line
  pb_system :: bool
  steps :: "nat \<Rightarrow> nat"
  step_event_count :: nat
  direction_bits :: "nat set"
  entry_speed_sqr :: rat
  max_entry_speed_sqr :: rat
  acceleration :: rat
  millimeters :: rat
  max_junction_speed_sqr :: rat
  rapid_rate :: rat
  programmed_rate :: rat

text \<open>
  The variables of the file. \<open>exec_speed\<close> is the stepper's: the current speed when it is
  executing the block at the tail, None when it has not loaded one.
\<close>

record planner =
  block_buffer :: "nat \<Rightarrow> plan_block"
  planner_blocks :: nat
  block_buffer_tail :: nat
  block_buffer_head :: nat
  next_buffer_head :: nat
  block_buffer_planned :: nat
  pl_position :: "nat \<Rightarrow> int"
  previous_unit_vec :: "nat \<Rightarrow> rat"
  previous_nominal_speed :: rat
  exec_speed :: "rat option"

text \<open>What the planner reads: the axes, the overrides, the motors.\<close>

record plan_env =
  pn_axes :: nat
  pn_steps_per_mm :: "nat \<Rightarrow> rat"
  pn_acceleration :: "nat \<Rightarrow> rat"
  pn_max_rate :: "nat \<Rightarrow> rat"
  pn_junction_deviation :: rat
  pn_f_override :: nat
  pn_r_override :: nat
  pn_motor_steps :: "nat \<Rightarrow> int"
  pn_unhomed :: bool
  pn_sqrt :: "rat \<Rightarrow> rat"

definition SOME_LARGE_VALUE :: rat where
  "SOME_LARGE_VALUE = 10 ^ 38"

definition MINIMUM_JUNCTION_SPEED :: rat where
  "MINIMUM_JUNCTION_SPEED = 0"

definition MINIMUM_FEED_RATE :: rat where
  "MINIMUM_FEED_RATE = 1"

section \<open>The ring\<close>

definition plan_next_block_index :: "planner \<Rightarrow> nat \<Rightarrow> nat" where
  "plan_next_block_index s i = (if i + 1 = planner_blocks s then 0 else i + 1)"

definition plan_prev_block_index :: "planner \<Rightarrow> nat \<Rightarrow> nat" where
  "plan_prev_block_index s i = (if i = 0 then planner_blocks s - 1 else i - 1)"

definition put_block :: "nat \<Rightarrow> plan_block \<Rightarrow> planner \<Rightarrow> planner" where
  "put_block i b s = s\<lparr>block_buffer := (block_buffer s)(i := b)\<rparr>"

definition set_entry :: "nat \<Rightarrow> rat \<Rightarrow> planner \<Rightarrow> planner" where
  "set_entry i v s = put_block i (block_buffer s i\<lparr>entry_speed_sqr := v\<rparr>) s"

definition plan_reset_buffer :: "planner \<Rightarrow> planner" where
  "plan_reset_buffer s =
     s\<lparr>block_buffer_tail := 0, block_buffer_head := 0, next_buffer_head := 1, block_buffer_planned := 0\<rparr>"

definition plan_reset :: "planner \<Rightarrow> planner" where
  "plan_reset s =
     plan_reset_buffer (s\<lparr>pl_position := (\<lambda>i. 0), previous_unit_vec := (\<lambda>i. 0), previous_nominal_speed := 0\<rparr>)"

definition plan_check_full_buffer :: "planner \<Rightarrow> bool" where
  "plan_check_full_buffer s \<longleftrightarrow> block_buffer_tail s = next_buffer_head s"

definition plan_get_block_buffer_available :: "planner \<Rightarrow> nat" where
  "plan_get_block_buffer_available s =
     (if block_buffer_tail s \<le> block_buffer_head s
      then planner_blocks s - 1 - (block_buffer_head s - block_buffer_tail s)
      else block_buffer_tail s - block_buffer_head s - 1)"

definition plan_get_current_block :: "planner \<Rightarrow> plan_block option" where
  "plan_get_current_block s =
     (if block_buffer_head s = block_buffer_tail s then None else Some (block_buffer s (block_buffer_tail s)))"

definition plan_get_exec_block_exit_speed_sqr :: "planner \<Rightarrow> rat" where
  "plan_get_exec_block_exit_speed_sqr s =
     (let i = plan_next_block_index s (block_buffer_tail s)
      in if i = block_buffer_head s then 0 else entry_speed_sqr (block_buffer s i))"

definition plan_discard_current_block :: "planner \<Rightarrow> planner" where
  "plan_discard_current_block s =
     (if block_buffer_head s \<noteq> block_buffer_tail s then
        let i = plan_next_block_index s (block_buffer_tail s)
        in s\<lparr>block_buffer_planned :=
               (if block_buffer_tail s = block_buffer_planned s then i else block_buffer_planned s),
             block_buffer_tail := i\<rparr>
      else s)"

section \<open>Look-ahead\<close>

text \<open>\<open>Stepper::update_plan_block_parameters\<close>: the block being executed starts at its current speed.\<close>

definition update_plan_block_parameters :: "planner \<Rightarrow> planner" where
  "update_plan_block_parameters s =
     (case exec_speed s of None \<Rightarrow> s
      | Some v \<Rightarrow> (set_entry (block_buffer_tail s) (v * v) s)\<lparr>exec_speed := None\<rparr>)"

text \<open>
  The reverse pass over three or more blocks: \<open>nxt\<close> is the block \<open>next\<close> of the code when the
  loop body begins, \<open>i\<close> the index to be planned.
\<close>

definition braking :: "plan_block \<Rightarrow> rat" where
  "braking b = 2 * acceleration b * millimeters b"

definition reverse_step :: "nat \<Rightarrow> nat \<Rightarrow> planner \<Rightarrow> planner" where
  "reverse_step nxt i s =
     (let s1 = (if plan_prev_block_index s i = block_buffer_tail s then update_plan_block_parameters s else s);
          cur = block_buffer s1 i
      in if entry_speed_sqr cur \<noteq> max_entry_speed_sqr cur then
           let e = entry_speed_sqr (block_buffer s1 nxt) + braking cur
           in set_entry i (if e < max_entry_speed_sqr cur then e else max_entry_speed_sqr cur) s1
         else s1)"

primrec reverse_pass :: "nat \<Rightarrow> nat \<Rightarrow> nat \<Rightarrow> planner \<Rightarrow> planner" where
  "reverse_pass 0 nxt i s = s"
| "reverse_pass (Suc n) nxt i s =
     (if i = block_buffer_planned s then s
      else reverse_pass n i (plan_prev_block_index s i) (reverse_step nxt i s))"

text \<open>The forward pass: \<open>cur\<close> is the block \<open>next\<close> of the iteration before, \<open>i\<close> the index of the next.\<close>

definition forward_step :: "nat \<Rightarrow> nat \<Rightarrow> planner \<Rightarrow> planner" where
  "forward_step cur i s =
     (let e = entry_speed_sqr (block_buffer s cur) + braking (block_buffer s cur);
          s1 = (if entry_speed_sqr (block_buffer s cur) < entry_speed_sqr (block_buffer s i)
                   \<and> e < entry_speed_sqr (block_buffer s i)
                then (set_entry i e s)\<lparr>block_buffer_planned := i\<rparr> else s)
      in if entry_speed_sqr (block_buffer s1 i) = max_entry_speed_sqr (block_buffer s1 i)
         then s1\<lparr>block_buffer_planned := i\<rparr> else s1)"

primrec forward_pass :: "nat \<Rightarrow> nat \<Rightarrow> nat \<Rightarrow> planner \<Rightarrow> planner" where
  "forward_pass 0 cur i s = s"
| "forward_pass (Suc n) cur i s =
     (if i = block_buffer_head s then s
      else forward_pass n i (plan_next_block_index s i) (forward_step cur i s))"

definition planner_recalculate :: "planner \<Rightarrow> planner" where
  "planner_recalculate s =
     (if block_buffer_head s = block_buffer_tail s then s
      else
        let newest = plan_prev_block_index s (block_buffer_head s); n = planner_blocks s in
        if newest = block_buffer_planned s then s
        else
          let b = block_buffer s newest;
              s1 = set_entry newest (min (max_entry_speed_sqr b) (braking b)) s;
              i = plan_prev_block_index s newest;
              s2 = (if i = block_buffer_planned s
                    then (if i = block_buffer_tail s then update_plan_block_parameters s1 else s1)
                    else reverse_pass n newest i s1);
              p = block_buffer_planned s2
          in forward_pass n p (plan_next_block_index s2 p) s2)"

definition plan_cycle_reinitialize :: "planner \<Rightarrow> planner" where
  "plan_cycle_reinitialize s =
     (let s1 = update_plan_block_parameters s
      in planner_recalculate (s1\<lparr>block_buffer_planned := block_buffer_tail s1\<rparr>))"

section \<open>Speeds of a block\<close>

definition plan_compute_profile_nominal_speed :: "plan_env \<Rightarrow> plan_block \<Rightarrow> rat" where
  "plan_compute_profile_nominal_speed pe b =
     (let v = programmed_rate b;
          v1 = (if pl_rapid (pb_line b) then v * (1 / 100 * of_nat (pn_r_override pe))
                else
                  let w = (if pl_no_feed_override (pb_line b) then v else v * (1 / 100 * of_nat (pn_f_override pe)))
                  in if rapid_rate b < w then rapid_rate b else w)
      in if MINIMUM_FEED_RATE < v1 then v1 else MINIMUM_FEED_RATE)"

definition plan_compute_profile_parameters :: "rat \<Rightarrow> rat \<Rightarrow> plan_block \<Rightarrow> plan_block" where
  "plan_compute_profile_parameters nominal prev_nominal b =
     (let m = (if prev_nominal < nominal then prev_nominal * prev_nominal else nominal * nominal)
      in b\<lparr>max_entry_speed_sqr := (if max_junction_speed_sqr b < m then max_junction_speed_sqr b else m)\<rparr>)"

primrec update_profiles :: "plan_env \<Rightarrow> nat \<Rightarrow> nat \<Rightarrow> rat \<Rightarrow> planner \<Rightarrow> planner" where
  "update_profiles pe 0 i prev s = s\<lparr>previous_nominal_speed := prev\<rparr>"
| "update_profiles pe (Suc n) i prev s =
     (if i = block_buffer_head s then s\<lparr>previous_nominal_speed := prev\<rparr>
      else
        let b = block_buffer s i; v = plan_compute_profile_nominal_speed pe b
        in update_profiles pe n (plan_next_block_index s i) v
             (put_block i (plan_compute_profile_parameters v prev b) s))"

definition plan_update_velocity_profile_parameters :: "plan_env \<Rightarrow> planner \<Rightarrow> planner" where
  "plan_update_velocity_profile_parameters pe s =
     (let s1 = update_profiles pe (planner_blocks s) (block_buffer_tail s) SOME_LARGE_VALUE s
      in if block_buffer_tail s1 \<noteq> block_buffer_head s1 then plan_cycle_reinitialize s1 else s1)"

section \<open>Vectors (NutsBolts.cpp)\<close>

definition vector_length :: "plan_env \<Rightarrow> (nat \<Rightarrow> rat) \<Rightarrow> rat" where
  "vector_length pe v = pn_sqrt pe (\<Sum>i < pn_axes pe. v i * v i)"

definition convert_delta_vector_to_unit_vector :: "plan_env \<Rightarrow> (nat \<Rightarrow> rat) \<Rightarrow> rat \<times> (nat \<Rightarrow> rat)" where
  "convert_delta_vector_to_unit_vector pe v =
     (let m = vector_length pe v in (m, \<lambda>i. if i < pn_axes pe then v i * (1 / m) else v i))"

definition limit_by_axis :: "plan_env \<Rightarrow> (nat \<Rightarrow> rat) \<Rightarrow> (nat \<Rightarrow> rat) \<Rightarrow> rat" where
  "limit_by_axis pe setting unit_vec =
     fold (\<lambda>i lim. if unit_vec i \<noteq> 0 then min lim (abs (setting i / unit_vec i)) else lim)
       [0..<pn_axes pe] SOME_LARGE_VALUE"

definition limit_acceleration_by_axis_maximum :: "plan_env \<Rightarrow> (nat \<Rightarrow> rat) \<Rightarrow> rat" where
  "limit_acceleration_by_axis_maximum pe unit_vec = limit_by_axis pe (pn_acceleration pe) unit_vec * (60 * 60)"

definition limit_rate_by_axis_maximum :: "plan_env \<Rightarrow> (nat \<Rightarrow> rat) \<Rightarrow> rat" where
  "limit_rate_by_axis_maximum pe unit_vec = limit_by_axis pe (pn_max_rate pe) unit_vec"

section \<open>A new line\<close>

text \<open>The square of the speed at the junction with the line before.\<close>

definition junction_speed_sqr :: "plan_env \<Rightarrow> (nat \<Rightarrow> rat) \<Rightarrow> (nat \<Rightarrow> rat) \<Rightarrow> rat" where
  "junction_speed_sqr pe prev unit_vec =
     (let cos_theta = - (\<Sum>i < pn_axes pe. prev i * unit_vec i);
          slowest = MINIMUM_JUNCTION_SPEED * MINIMUM_JUNCTION_SPEED
      in if 999999 / 1000000 < cos_theta then slowest
         else if cos_theta < - (999999 / 1000000) then SOME_LARGE_VALUE
         else
           let acc = limit_acceleration_by_axis_maximum pe
                       (snd (convert_delta_vector_to_unit_vector pe (\<lambda>i. unit_vec i - prev i)));
               sin_theta_d2 = pn_sqrt pe (1 / 2 * (1 - cos_theta))
           in max slowest (acc * pn_junction_deviation pe * sin_theta_d2 / (1 - sin_theta_d2)))"

text \<open>
  The block of a line in three steps: what is copied, the steps and directions, and the
  length with the limits of the axes; with it the unit vector of the line.
\<close>

definition blank_block :: "bool \<Rightarrow> plan_line \<Rightarrow> plan_block" where
  "blank_block system line =
     \<lparr>pb_line = line, pb_system = system, steps = (\<lambda>i. 0), step_event_count = 0, direction_bits = {},
      entry_speed_sqr = 0, max_entry_speed_sqr = 0, acceleration = 0, millimeters = 0,
      max_junction_speed_sqr = 0, rapid_rate = 0, programmed_rate = 0\<rparr>"

definition delta_mm :: "plan_env \<Rightarrow> (nat \<Rightarrow> int) \<Rightarrow> nat \<Rightarrow> rat" where
  "delta_mm pe delta i = (if i < pn_axes pe then steps_to_mpos (delta i) (pn_steps_per_mm pe i) else 0)"

definition with_steps :: "plan_env \<Rightarrow> (nat \<Rightarrow> int) \<Rightarrow> plan_block \<Rightarrow> plan_block" where
  "with_steps pe delta b =
     (let st = (\<lambda>i. if i < pn_axes pe then nat (abs (delta i)) else 0)
      in b\<lparr>steps := st, step_event_count := fold (\<lambda>i m. max m (st i)) [0..<pn_axes pe] 0,
           direction_bits := {i \<in> {..<pn_axes pe}. delta_mm pe delta i < 0}\<rparr>)"

definition with_length :: "plan_env \<Rightarrow> (nat \<Rightarrow> int) \<Rightarrow> plan_block \<Rightarrow> plan_block \<times> (nat \<Rightarrow> rat)" where
  "with_length pe delta b =
     (let (mm, unit_vec) = convert_delta_vector_to_unit_vector pe (delta_mm pe delta);
          rapid = limit_rate_by_axis_maximum pe unit_vec; line = pb_line b
      in (b\<lparr>millimeters := mm, acceleration := limit_acceleration_by_axis_maximum pe unit_vec,
            rapid_rate := rapid,
            programmed_rate := (if pl_rapid line then rapid
              else if pl_inverse_time line then pl_feed_rate line * mm else pl_feed_rate line)\<rparr>, unit_vec))"

text \<open>
  The result, whether the alarm for unhomed axes is sent, and the new state. A refused line
  has overwritten the free block at the head.
\<close>

definition plan_buffer_line ::
    "plan_env \<Rightarrow> (nat \<Rightarrow> rat) \<Rightarrow> bool \<Rightarrow> plan_line \<Rightarrow> planner \<Rightarrow> bool \<times> bool \<times> planner" where
  "plan_buffer_line pe target system line s =
     (let n = pn_axes pe; head = block_buffer_head s;
          from_steps = (if system then pn_motor_steps pe else pl_position s);
          target_steps = (\<lambda>i. mpos_to_steps (target i) (pn_steps_per_mm pe i));
          delta = (\<lambda>i. target_steps i - from_steps i);
          blank = blank_block system line; b0 = with_steps pe delta blank
      in if \<not> system \<and> \<not> pl_is_jog line \<and> pn_unhomed pe then (False, True, put_block head blank s)
         else if step_event_count b0 = 0 then (False, False, put_block head b0 s)
         else
           let (b, unit_vec) = with_length pe delta b0;
               rest = (head = block_buffer_tail s \<or> system);
               b1 = b\<lparr>max_junction_speed_sqr :=
                        (if rest then 0 else junction_speed_sqr pe (previous_unit_vec s) unit_vec)\<rparr>
           in if system then (True, False, put_block head b1 s)
              else
                let v = plan_compute_profile_nominal_speed pe b1;
                    b2 = plan_compute_profile_parameters v (previous_nominal_speed s) b1;
                    s1 = (put_block head b2 s)
                      \<lparr>previous_nominal_speed := v,
                       previous_unit_vec := (\<lambda>i. if i < n then unit_vec i else previous_unit_vec s i),
                       pl_position := (\<lambda>i. if i < n then target_steps i else pl_position s i),
                       block_buffer_head := next_buffer_head s,
                       next_buffer_head := plan_next_block_index s (next_buffer_head s)\<rparr>
                in (True, False, planner_recalculate s1))"

text \<open>The planner takes the position of the motors.\<close>

definition plan_sync_position :: "plan_env \<Rightarrow> planner \<Rightarrow> planner" where
  "plan_sync_position pe s =
     s\<lparr>pl_position := (\<lambda>i. if i < pn_axes pe then pn_motor_steps pe i else pl_position s i)\<rparr>"

end
