(* ===== verification/Lookahead.thy ===== *)
theory Lookahead
  imports Complex_Main
begin

text \<open>
  The look-ahead of the planner on a queue of blocks, without the ring: block \<open>j\<close> is entered
  at the squared speed \<open>E j\<close>, at most \<open>M j\<close>, and can change the squared speed by \<open>D j\<close>. The
  passes are the ones of the code; the theorems are that they give a plan that can be driven,
  and the fastest one.
\<close>

section \<open>The two passes\<close>

definition rev_step :: "(nat \<Rightarrow> rat) \<Rightarrow> (nat \<Rightarrow> rat) \<Rightarrow> nat \<Rightarrow> (nat \<Rightarrow> rat) \<Rightarrow> nat \<Rightarrow> rat" where
  "rev_step M D i E = (if E i = M i then E else E(i := min (M i) (E (Suc i) + D i)))"

primrec rev_pass :: "(nat \<Rightarrow> rat) \<Rightarrow> (nat \<Rightarrow> rat) \<Rightarrow> nat \<Rightarrow> nat \<Rightarrow> nat \<Rightarrow> (nat \<Rightarrow> rat) \<Rightarrow> nat \<Rightarrow> rat" where
  "rev_pass M D p 0 i E = E"
| "rev_pass M D p (Suc k) i E = (if i = p then E else rev_pass M D p k (i - 1) (rev_step M D i E))"

definition fwd_step :: "(nat \<Rightarrow> rat) \<Rightarrow> (nat \<Rightarrow> rat) \<Rightarrow> nat \<Rightarrow> (nat \<Rightarrow> rat) \<times> nat \<Rightarrow> (nat \<Rightarrow> rat) \<times> nat" where
  "fwd_step M D i = (\<lambda>(E, q).
     let e = E i + D i;
         (E1, q1) = (if E i < E (Suc i) \<and> e < E (Suc i) then (E(Suc i := e), Suc i) else (E, q))
     in (E1, if E1 (Suc i) = M (Suc i) then Suc i else q1))"

primrec fwd_pass ::
    "(nat \<Rightarrow> rat) \<Rightarrow> (nat \<Rightarrow> rat) \<Rightarrow> nat \<Rightarrow> nat \<Rightarrow> nat \<Rightarrow> (nat \<Rightarrow> rat) \<times> nat \<Rightarrow> (nat \<Rightarrow> rat) \<times> nat" where
  "fwd_pass M D n 0 i x = x"
| "fwd_pass M D n (Suc k) i x = (if Suc i = n then x else fwd_pass M D n k (Suc i) (fwd_step M D i x))"

text \<open>\<open>n\<close> blocks, of which those up to \<open>p\<close> are planned for good; the last is entered from its end.\<close>

definition recalculate :: "(nat \<Rightarrow> rat) \<Rightarrow> (nat \<Rightarrow> rat) \<Rightarrow> nat \<Rightarrow> (nat \<Rightarrow> rat) \<times> nat \<Rightarrow> (nat \<Rightarrow> rat) \<times> nat" where
  "recalculate M D n = (\<lambda>(E, p).
     if n = 0 \<or> n - 1 = p then (E, p)
     else
       let E0 = E(n - 1 := min (M (n - 1)) (D (n - 1)));
           E1 = rev_pass M D p n (n - 2) E0
       in fwd_pass M D n n p (E1, p))"

lemma rev_pass_enough:
  "i - p \<le> k \<Longrightarrow> i - p \<le> l \<Longrightarrow> p \<le> i \<Longrightarrow> rev_pass M D p k i E = rev_pass M D p l i E"
proof (induction k arbitrary: i l E)
  case 0
  then show ?case by (cases l) simp_all
next
  case (Suc k)
  show ?case
  proof (cases "i = p")
    case True then show ?thesis by (cases l) simp_all
  next
    case False
    then obtain m where "l = Suc m" using Suc.prems by (cases l) simp_all
    then show ?thesis using Suc.IH[of "i - 1" m] Suc.prems False by simp
  qed
qed

lemma fwd_pass_enough:
  "n \<le> Suc (i + k) \<Longrightarrow> n \<le> Suc (i + l) \<Longrightarrow> i < n \<Longrightarrow> fwd_pass M D n k i x = fwd_pass M D n l i x"
proof (induction k arbitrary: i l x)
  case 0
  then show ?case by (cases l) simp_all
next
  case (Suc k)
  show ?case
  proof (cases "Suc i = n")
    case True then show ?thesis by (cases l) simp_all
  next
    case False
    then obtain m where "l = Suc m" using Suc.prems by (cases l) simp_all
    then show ?thesis using Suc.IH[of "Suc i" m] Suc.prems False by simp
  qed
qed

section \<open>Plans that can be driven\<close>

text \<open>The speed at the end of block \<open>j\<close>: the plan ends at rest.\<close>

definition exit :: "nat \<Rightarrow> (nat \<Rightarrow> rat) \<Rightarrow> nat \<Rightarrow> rat" where
  "exit n E j = (if Suc j < n then E (Suc j) else 0)"

text \<open>No entry is above its limit, and each block is long enough to brake and to accelerate.\<close>

definition feasible :: "nat \<Rightarrow> (nat \<Rightarrow> rat) \<Rightarrow> (nat \<Rightarrow> rat) \<Rightarrow> (nat \<Rightarrow> rat) \<Rightarrow> bool" where
  "feasible n M D E \<longleftrightarrow>
     (0 < n \<longrightarrow> 0 \<le> E 0) \<and> (\<forall>j. 0 < j \<and> j < n \<longrightarrow> 0 \<le> E j \<and> E j \<le> M j)
     \<and> (\<forall>j < n. E j \<le> exit n E j + D j) \<and> (\<forall>j. Suc j < n \<longrightarrow> E (Suc j) \<le> E j + D j)"

text \<open>
  Why the speed of a block cannot be improved: the first has the speed of the machine, a
  block is at its limit, or it follows from a neighbour by full acceleration or braking.
\<close>

inductive certified :: "(nat \<Rightarrow> rat) \<Rightarrow> (nat \<Rightarrow> rat) \<Rightarrow> (nat \<Rightarrow> rat) \<Rightarrow> nat \<Rightarrow> nat \<Rightarrow> bool"
  for M D E p where
  cert_first: "certified M D E p 0"
| cert_max: "0 < j \<Longrightarrow> j \<le> p \<Longrightarrow> E j = M j \<Longrightarrow> certified M D E p j"
| cert_accel: "Suc j \<le> p \<Longrightarrow> certified M D E p j \<Longrightarrow> E (Suc j) = E j + D j \<Longrightarrow> certified M D E p (Suc j)"
| cert_brake: "0 < j \<Longrightarrow> Suc j \<le> p \<Longrightarrow> certified M D E p (Suc j) \<Longrightarrow> E j = E (Suc j) + D j \<Longrightarrow> certified M D E p j"

definition settled :: "nat \<Rightarrow> (nat \<Rightarrow> rat) \<Rightarrow> (nat \<Rightarrow> rat) \<Rightarrow> (nat \<Rightarrow> rat) \<Rightarrow> nat \<Rightarrow> bool" where
  "settled n M D E p \<longleftrightarrow>
     (\<forall>j \<le> p. certified M D E p j) \<and> (\<forall>j. p < j \<and> j < n \<longrightarrow> E j = min (M j) (exit n E j + D j))"

definition good :: "nat \<Rightarrow> (nat \<Rightarrow> rat) \<Rightarrow> (nat \<Rightarrow> rat) \<Rightarrow> (nat \<Rightarrow> rat) \<Rightarrow> nat \<Rightarrow> bool" where
  "good n M D E p \<longleftrightarrow> (p < n \<or> n = 0 \<and> p = 0) \<and> (\<forall>j < n. 0 \<le> D j) \<and> feasible n M D E \<and> settled n M D E p"

lemma feasibleD:
  assumes "feasible n M D E"
  shows "0 < n \<Longrightarrow> 0 \<le> E 0" "0 < j \<Longrightarrow> j < n \<Longrightarrow> 0 \<le> E j" "0 < j \<Longrightarrow> j < n \<Longrightarrow> E j \<le> M j"
    "j < n \<Longrightarrow> E j \<le> exit n E j + D j" "Suc j < n \<Longrightarrow> E (Suc j) \<le> E j + D j"
  using assms by (auto simp: feasible_def)

lemma feasible_nonneg: "feasible n M D E \<Longrightarrow> j < n \<Longrightarrow> 0 \<le> E j"
  by (cases "j = 0") (auto simp: feasible_def)

lemma certified_cong:
  assumes "certified M D E p j" "p \<le> q" "\<forall>i \<le> p. E' i = E i \<and> D' i = D i \<and> M' i = M i"
  shows "certified M' D' E' q j"
  using assms(1)
proof (induction rule: certified.induct)
  case cert_first
  show ?case by (rule certified.cert_first)
next
  case (cert_max j)
  show ?case by (rule certified.cert_max) (use cert_max.hyps assms(2,3) in \<open>simp_all\<close>)
next
  case (cert_accel j)
  show ?case
    by (rule certified.cert_accel [OF _ cert_accel.IH]) (use cert_accel.hyps assms(2,3) in \<open>simp_all\<close>)
next
  case (cert_brake j)
  show ?case
    by (rule certified.cert_brake [OF _ _ cert_brake.IH]) (use cert_brake.hyps assms(2,3) in \<open>simp_all\<close>)
qed

section \<open>The reverse pass\<close>

text \<open>What the pass leaves below \<open>p\<close> and above \<open>i\<close>, and what it makes of the blocks between.\<close>

lemma rev_pass_values:
  assumes "i - p \<le> k" "p \<le> i"
  shows "(\<forall>j. j \<le> p \<or> i < j \<longrightarrow> rev_pass M D p k i E j = E j)
    \<and> (\<forall>j. p < j \<and> j \<le> i \<longrightarrow> rev_pass M D p k i E j =
        (if E j = M j then M j else min (M j) (rev_pass M D p k i E (Suc j) + D j)))"
  using assms
proof (induction k arbitrary: i E)
  case 0
  then show ?case by auto
next
  case (Suc k)
  show ?case
  proof (cases "i = p")
    case False
    let ?E = "rev_step M D i E"
    let ?R = "rev_pass M D p k (i - 1) ?E"
    have IH: "(\<forall>j. j \<le> p \<or> i - 1 < j \<longrightarrow> ?R j = ?E j)
      \<and> (\<forall>j. p < j \<and> j \<le> i - 1 \<longrightarrow> ?R j = (if ?E j = M j then M j else min (M j) (?R (Suc j) + D j)))"
      by (rule Suc.IH) (use Suc.prems False in auto)
    have other: "j \<noteq> i \<Longrightarrow> ?E j = E j" for j by (simp add: rev_step_def)
    have here: "?E i = (if E i = M i then M i else min (M i) (E (Suc i) + D i))" by (simp add: rev_step_def)
    have at: "?R i = ?E i" "?R (Suc i) = E (Suc i)"
      using IH other[of "Suc i"] False Suc.prems by auto
    have "?R j = E j" if "j \<le> p \<or> i < j" for j
      using IH other[of j] that False Suc.prems by auto
    moreover have "?R j = (if E j = M j then M j else min (M j) (?R (Suc j) + D j))" if "p < j" "j \<le> i" for j
    proof (cases "j = i")
      case True
      then show ?thesis using at here by simp
    next
      case False
      then show ?thesis using IH other[of j] that by simp
    qed
    ultimately show ?thesis using False by simp
  qed auto
qed

text \<open>What the planner starts from: entries that are possible with the queue as it is, planned up to \<open>p\<close>.\<close>

definition plannable :: "nat \<Rightarrow> (nat \<Rightarrow> rat) \<Rightarrow> (nat \<Rightarrow> rat) \<Rightarrow> (nat \<Rightarrow> rat) \<Rightarrow> nat \<Rightarrow> bool" where
  "plannable n M D E p \<longleftrightarrow>
     p < n \<and> (\<forall>j < n. 0 \<le> D j) \<and> 0 \<le> E 0 \<and> (\<forall>j. 0 < j \<and> j < n \<longrightarrow> 0 \<le> E j \<and> E j \<le> M j)
     \<and> (\<forall>j < n. E j \<le> exit n E j + D j) \<and> (\<forall>j < p. E (Suc j) \<le> E j + D j)
     \<and> (\<forall>j \<le> p. certified M D E p j)"

lemma exit_simps: "Suc j < n \<Longrightarrow> exit n E j = E (Suc j)" "\<not> Suc j < n \<Longrightarrow> exit n E j = 0"
  by (simp_all add: exit_def)

lemma plannableD:
  assumes "plannable n M D E p"
  shows "p < n" "j < n \<Longrightarrow> 0 \<le> D j" "j < n \<Longrightarrow> 0 \<le> E j" "0 < j \<Longrightarrow> j < n \<Longrightarrow> E j \<le> M j"
    "j < n \<Longrightarrow> E j \<le> exit n E j + D j" "Suc j < n \<Longrightarrow> E j \<le> E (Suc j) + D j" "E (n - 1) \<le> D (n - 1)"
    "j < p \<Longrightarrow> E (Suc j) \<le> E j + D j" "j \<le> p \<Longrightarrow> certified M D E p j"
proof -
  have brake: "j < n \<Longrightarrow> E j \<le> exit n E j + D j" for j using assms by (simp add: plannable_def)
  show "p < n" "j < n \<Longrightarrow> 0 \<le> D j" "0 < j \<Longrightarrow> j < n \<Longrightarrow> E j \<le> M j" "j < n \<Longrightarrow> E j \<le> exit n E j + D j"
    "j < p \<Longrightarrow> E (Suc j) \<le> E j + D j" "j \<le> p \<Longrightarrow> certified M D E p j"
    using assms by (simp_all add: plannable_def)
  show "j < n \<Longrightarrow> 0 \<le> E j" using assms by (cases "j = 0") (simp_all add: plannable_def)
  show "Suc j < n \<Longrightarrow> E j \<le> E (Suc j) + D j" using brake[of j] by (simp add: exit_def)
  show "E (n - 1) \<le> D (n - 1)" using brake[of "n - 1"] assms by (simp add: exit_def plannable_def)
qed

lemma plannableI:
  assumes "p < n" "\<And>j. j < n \<Longrightarrow> 0 \<le> D j" "\<And>j. j < n \<Longrightarrow> 0 \<le> E j" "\<And>j. 0 < j \<Longrightarrow> j < n \<Longrightarrow> E j \<le> M j"
    and "\<And>j. j < n \<Longrightarrow> E j \<le> exit n E j + D j" "\<And>j. j < p \<Longrightarrow> E (Suc j) \<le> E j + D j"
    and "\<And>j. j \<le> p \<Longrightarrow> certified M D E p j"
  shows "plannable n M D E p"
  using assms by (simp add: plannable_def)

lemma plannable_last:
  assumes "plannable n M D E (n - 1)"
  shows "good n M D E (n - 1)"
  using assms by (auto simp: plannable_def good_def feasible_def settled_def)

text \<open>The entries after the reverse pass: only raised, and each as its limit and its exit allow.\<close>

lemma reverse_plannable:
  assumes "plannable n M D E p" "p < n - 1"
  defines "R \<equiv> rev_pass M D p n (n - 2) (E(n - 1 := min (M (n - 1)) (D (n - 1))))"
  shows "plannable n M D R p" "\<And>j. p < j \<Longrightarrow> j < n \<Longrightarrow> R j = min (M j) (exit n R j + D j)"
    "\<And>j. j \<le> p \<Longrightarrow> R j = E j"
proof -
  let ?E0 = "E(n - 1 := min (M (n - 1)) (D (n - 1)))"
  note pre = plannableD[OF assms(1)]
  have vals: "(\<forall>j. j \<le> p \<or> n - 2 < j \<longrightarrow> R j = ?E0 j)
      \<and> (\<forall>j. p < j \<and> j \<le> n - 2 \<longrightarrow> R j = (if ?E0 j = M j then M j else min (M j) (R (Suc j) + D j)))"
    unfolding R_def by (rule rev_pass_values) (use assms(2) in simp_all)
  have top: "R (n - 1) = min (M (n - 1)) (D (n - 1))" using vals assms(2) by simp
  show low: "R j = E j" if "j \<le> p" for j using vals assms(2) that by simp
  have mid: "R j = (if E j = M j then M j else min (M j) (R (Suc j) + D j))" if "p < j" "Suc j < n" for j
  proof -
    have "j \<le> n - 2" "j \<noteq> n - 1" using that by simp_all
    then show ?thesis using vals that(1) by simp
  qed
  have raised: "E j \<le> R j" if "p < j" "j \<le> n - 1" for j
    using that(2)
  proof (induction rule: inc_induct)
    case base
    show ?case using top pre(4)[of "n - 1"] pre(7) assms(2) by simp
  next
    case (step k)
    have k: "p < k" "Suc k < n" using step.hyps that(1) by simp_all
    show ?case using mid[OF k] pre(4)[of k] pre(6)[OF k(2)] step.IH k by auto
  qed
  show eq: "R j = min (M j) (exit n R j + D j)" if "p < j" "j < n" for j
  proof (cases "Suc j < n")
    case True
    have "E (Suc j) \<le> R (Suc j)" using raised[of "Suc j"] True that by auto
    then have "E j \<le> R (Suc j) + D j" using pre(6)[OF True] by simp
    then show ?thesis using mid[OF that(1) True] True by (auto simp: exit_def)
  next
    case False
    then have "j = n - 1" using that by simp
    then show ?thesis using top False by (simp add: exit_def)
  qed
  show "plannable n M D R p"
  proof (rule plannableI)
    fix j
    assume j: "j < n"
    have up: "E j \<le> R j" using raised[of j] low[of j] j by (cases "j \<le> p") auto
    show "0 \<le> R j" using up pre(3)[OF j] by simp
    show "R j \<le> M j" if "0 < j" using eq[of j] low[of j] pre(4)[OF that j] j by (cases "j \<le> p") auto
    show "R j \<le> exit n R j + D j"
    proof (cases "p < j")
      case True then show ?thesis using eq[OF True j] by simp
    next
      case False
      then have n: "Suc j < n" using assms(2) by simp
      have "E (Suc j) \<le> R (Suc j)" using raised[of "Suc j"] low[of "Suc j"] n by (cases "Suc j \<le> p") auto
      then show ?thesis using low[of j] pre(6)[OF n] False n by (simp add: exit_def)
    qed
  next
    fix j
    show "R (Suc j) \<le> R j + D j" if "j < p" using low that pre(8)[OF that] by simp
    show "certified M D R p j" if "j \<le> p"
      by (rule certified_cong[OF pre(9)[OF that]]) (use low in simp_all)
  qed (use pre in simp_all)
qed

section \<open>The forward pass\<close>

definition forwarding :: "nat \<Rightarrow> (nat \<Rightarrow> rat) \<Rightarrow> (nat \<Rightarrow> rat) \<Rightarrow> nat \<Rightarrow> (nat \<Rightarrow> rat) \<times> nat \<Rightarrow> bool" where
  "forwarding n M D i x \<longleftrightarrow>
     (case x of (E, q) \<Rightarrow>
        q \<le> i \<and> i < n \<and> plannable n M D E q \<and> (\<forall>j < i. E (Suc j) \<le> E j + D j)
        \<and> (\<forall>j. q < j \<and> j < n \<longrightarrow> E j = min (M j) (exit n E j + D j))
        \<and> (\<forall>j. q < j \<and> j \<le> i \<longrightarrow> E j \<noteq> M j))"

lemma forwardingD:
  assumes "forwarding n M D i (E, q)"
  shows "q \<le> i" "i < n" "plannable n M D E q" "j < i \<Longrightarrow> E (Suc j) \<le> E j + D j"
    "q < j \<Longrightarrow> j < n \<Longrightarrow> E j = min (M j) (exit n E j + D j)" "q < j \<Longrightarrow> j \<le> i \<Longrightarrow> E j \<noteq> M j"
  using assms unfolding forwarding_def prod.case by blast+

lemma forwardingI:
  assumes "q \<le> i" "i < n" "plannable n M D E q" "\<And>j. j < i \<Longrightarrow> E (Suc j) \<le> E j + D j"
    and "\<And>j. q < j \<Longrightarrow> j < n \<Longrightarrow> E j = min (M j) (exit n E j + D j)"
    and "\<And>j. q < j \<Longrightarrow> j \<le> i \<Longrightarrow> E j \<noteq> M j"
  shows "forwarding n M D i (E, q)"
  using assms unfolding forwarding_def prod.case by blast

lemma forwarding_good: "forwarding n M D (n - 1) (E, q) \<Longrightarrow> good n M D E q"
  using forwardingD[of n M D "n - 1" E q] plannableD[of n M D E q]
  unfolding good_def feasible_def settled_def by fastforce

text \<open>A block below its limit takes its speed from the next one.\<close>

lemma forwarding_brakes:
  assumes "forwarding n M D i (E, q)" "q < j" "j \<le> i" "Suc j < n"
  shows "E j = E (Suc j) + D j"
proof -
  have "E j = min (M j) (exit n E j + D j)" "E j \<noteq> M j"
    using forwardingD(5,6)[OF assms(1,2)] assms(3,4) by simp_all
  then show ?thesis using assms(4) by (simp add: exit_def min_def split: if_splits)
qed

lemma certified_chain:
  assumes "forwarding n M D i (E, q)" "Suc i < n" "E (Suc i) = M (Suc i)" "j \<le> Suc i"
  shows "certified M D E (Suc i) j"
proof (cases "j \<le> q")
  case True
  show ?thesis
    by (rule certified_cong[OF plannableD(9)[OF forwardingD(3)[OF assms(1)] True]])
       (use forwardingD(1)[OF assms(1)] in simp_all)
next
  case False
  from assms(4) show ?thesis
  proof (induction rule: inc_induct)
    case base
    show ?case by (rule certified.cert_max) (use assms(3) in simp_all)
  next
    case (step k)
    have "q < k" "k \<le> i" "Suc k < n" using step.hyps False assms(2) by simp_all
    then show ?case
      using certified.cert_brake[OF _ _ step.IH forwarding_brakes[OF assms(1), of k]] by simp
  qed
qed

lemma fwd_lowers:
  assumes F: "forwarding n M D i (E, q)" and n: "Suc i < n" and e: "E i + D i < E (Suc i)"
  shows "forwarding n M D (Suc i) (E(Suc i := E i + D i), Suc i)"
proof -
  let ?E = "E(Suc i := E i + D i)"
  note fw = forwardingD[OF F]
  note pre = plannableD[OF fw(3)]
  have D: "0 \<le> D i" using pre(2)[of i] n by simp
  have qi: "q = i"
  proof (rule ccontr)
    assume "q \<noteq> i"
    then have "E i = E (Suc i) + D i" using forwarding_brakes[OF F, of i] fw(1) n by simp
    then show False using e D by simp
  qed
  have cert: "certified M D ?E (Suc i) j" if "j \<le> i" for j
    by (rule certified_cong[OF pre(9)[of j]]) (use qi that in simp_all)
  have top: "certified M D ?E (Suc i) (Suc i)"
    by (rule certified.cert_accel[OF _ cert[of i]]) simp_all
  have accel: "?E (Suc j) \<le> ?E j + D j" if "j < Suc i" for j
    using fw(4)[of j] that by (cases "j = i") simp_all
  have eqs: "?E j = min (M j) (exit n ?E j + D j)" if "Suc i < j" "j < n" for j
    using fw(5)[of j] qi that by (simp add: exit_def)
  have plan: "plannable n M D ?E (Suc i)"
  proof (rule plannableI)
    fix j
    assume j: "j < n"
    show "0 \<le> ?E j" using pre(3)[OF j] pre(3)[of i] n D by simp
    show "?E j \<le> M j" if "0 < j" using pre(4)[OF that j] e by (cases "j = Suc i") simp_all
    show "?E j \<le> exit n ?E j + D j" using pre(5)[OF j] D e n by (cases "j = i") (auto simp: exit_def)
  next
    fix j
    show "certified M D ?E (Suc i) j" if "j \<le> Suc i" using cert[of j] top that by (cases "j = Suc i") simp_all
  qed (use n pre accel in simp_all)
  show ?thesis by (rule forwardingI[OF _ n plan accel eqs]) simp_all
qed

lemma fwd_marks:
  assumes F: "forwarding n M D i (E, q)" and n: "Suc i < n" and e: "E (Suc i) \<le> E i + D i"
  shows "forwarding n M D (Suc i) (E, if E (Suc i) = M (Suc i) then Suc i else q)"
proof -
  note fw = forwardingD[OF F]
  note pre = plannableD[OF fw(3)]
  have accel: "E (Suc j) \<le> E j + D j" if "j < Suc i" for j
    using fw(4)[of j] e that by (cases "j = i") simp_all
  show ?thesis
  proof (cases "E (Suc i) = M (Suc i)")
    case True
    have plan: "plannable n M D E (Suc i)"
      by (rule plannableI[OF n pre(2,3,4,5) accel certified_chain[OF F n True]]) simp_all
    have "forwarding n M D (Suc i) (E, Suc i)"
      by (rule forwardingI[OF _ n plan accel fw(5)]) (use fw(1) in simp_all)
    then show ?thesis using True by simp
  next
    case False
    have "E j \<noteq> M j" if "q < j" "j \<le> Suc i" for j
      using fw(6)[of j] that False by (cases "j = Suc i") simp_all
    then have "forwarding n M D (Suc i) (E, q)"
      by (intro forwardingI[OF _ n fw(3) accel fw(5)]) (use fw(1) in simp_all)
    then show ?thesis using False by simp
  qed
qed

lemma forwarding_step:
  assumes F: "forwarding n M D i (E, q)" and n: "Suc i < n"
  shows "forwarding n M D (Suc i) (fwd_step M D i (E, q))"
proof (cases "E i + D i < E (Suc i)")
  case True
  have "0 \<le> D i" using plannableD(2)[OF forwardingD(3)[OF F], of i] n by simp
  then have "fwd_step M D i (E, q) = (E(Suc i := E i + D i), Suc i)"
    using True by (simp add: fwd_step_def Let_def)
  then show ?thesis using fwd_lowers[OF F n True] by simp
next
  case False
  then have "fwd_step M D i (E, q) = (E, if E (Suc i) = M (Suc i) then Suc i else q)"
    by (simp add: fwd_step_def Let_def)
  then show ?thesis using fwd_marks[OF F n] False by simp
qed

lemma fwd_step_keeps:
  "fst (fwd_step M D i (E, q)) j = (if j = Suc i \<and> E i < E j \<and> E i + D i < E j then E i + D i else E j)"
  by (auto simp: fwd_step_def Let_def)

lemma fwd_pass_good:
  assumes "forwarding n M D i (E, q)" "n \<le> Suc (i + k)" "fwd_pass M D n k i (E, q) = (E', q')"
  shows "good n M D E' q' \<and> (\<forall>j \<le> i. E' j = E j)"
  using assms
proof (induction k arbitrary: i E q)
  case 0
  then have "i = n - 1" using forwardingD(2)[OF 0(1)] by simp
  then show ?case using 0 forwarding_good by simp
next
  case (Suc k)
  show ?case
  proof (cases "Suc i = n")
    case True
    then have "i = n - 1" by simp
    then show ?thesis using Suc.prems True forwarding_good by simp
  next
    case False
    obtain E1 q1 where s: "fwd_step M D i (E, q) = (E1, q1)" by force
    have n: "Suc i < n" using forwardingD(2)[OF Suc.prems(1)] False by simp
    have "good n M D E' q' \<and> (\<forall>j \<le> Suc i. E' j = E1 j)"
      by (rule Suc.IH) (use forwarding_step[OF Suc.prems(1) n] Suc.prems False s in simp_all)
    moreover have "E1 j = E j" if "j \<le> i" for j
      using fwd_step_keeps[of M D i E q j] s that by simp
    ultimately show ?thesis by simp
  qed
qed

text \<open>The entries after the forward pass: each is what it was or what can be reached from the block before.\<close>

lemma fwd_pass_values:
  assumes "n \<le> Suc (i + k)" "i < n" "fwd_pass M D n k i (E, q) = (E', q')"
  shows "(\<forall>j \<le> i. E' j = E j) \<and> (\<forall>j. i \<le> j \<and> Suc j < n \<longrightarrow>
      E' (Suc j) = (if E' j < E (Suc j) \<and> E' j + D j < E (Suc j) then E' j + D j else E (Suc j)))"
  using assms
proof (induction k arbitrary: i E q)
  case 0
  then show ?case by auto
next
  case (Suc k)
  show ?case
  proof (cases "Suc i = n")
    case True
    then show ?thesis using Suc.prems by auto
  next
    case False
    obtain E1 q1 where f: "fwd_step M D i (E, q) = (E1, q1)" by force
    have E1: "E1 j = (if j = Suc i \<and> E i < E j \<and> E i + D i < E j then E i + D i else E j)" for j
      using fwd_step_keeps[of M D i E q j] f by simp
    have IH: "(\<forall>j \<le> Suc i. E' j = E1 j) \<and> (\<forall>j. Suc i \<le> j \<and> Suc j < n \<longrightarrow>
      E' (Suc j) = (if E' j < E1 (Suc j) \<and> E' j + D j < E1 (Suc j) then E' j + D j else E1 (Suc j)))"
      by (rule Suc.IH) (use Suc.prems False f in simp_all)
    have "E' j = E j" if "j \<le> i" for j using IH E1[of j] that by simp
    moreover have "E' (Suc j) = (if E' j < E (Suc j) \<and> E' j + D j < E (Suc j) then E' j + D j else E (Suc j))"
      if "i \<le> j" "Suc j < n" for j
    proof (cases "j = i")
      case True
      then show ?thesis using IH E1[of "Suc i"] E1[of i] by simp
    next
      case F: False
      then have "Suc i \<le> j" using that(1) by simp
      then show ?thesis using IH E1[of "Suc j"] that(2) by simp
    qed
    ultimately show ?thesis by blast
  qed
qed

text \<open>
  A block that is entered at its limit keeps its entry, however low the limit of the next one has
  become: the reverse pass skips it, and the forward pass has no reason to lower it.
\<close>

theorem recalculate_skips:
  assumes "feasible n M0 D E" "\<forall>i < n. 0 \<le> D i" "0 < j" "Suc j < n"
    and "\<forall>i. 0 < i \<and> i < j \<longrightarrow> E i \<le> M i" "E j = M j"
    and "recalculate M D n (E, 0) = (E', q)"
  shows "E' j = E j \<and> E' (Suc j) \<le> M (Suc j)"
proof -
  let ?E0 = "E(n - 1 := min (M (n - 1)) (D (n - 1)))"
  define R where "R = rev_pass M D 0 n (n - 2) ?E0"
  have n: "Suc (n - 2) = n - 1" "j \<le> n - 2" "n - 1 \<noteq> 0" "n \<noteq> 0" using assms(3,4) by auto
  note v = rev_pass_values[of "n - 2" 0 n M D ?E0]
  have R: "R 0 = E 0" "R (n - 1) = min (M (n - 1)) (D (n - 1))"
      "\<And>i. 0 < i \<Longrightarrow> i \<le> n - 2 \<Longrightarrow> R i = (if E i = M i then M i else min (M i) (R (Suc i) + D i))"
    using v n by (auto simp: R_def)
  have Rj: "R j = E j" using R(3)[OF assms(3) n(2)] assms(6) by simp
  have up: "E i \<le> R i" if "i \<le> j" for i
    using that
  proof (induction i rule: inc_induct)
    case base show ?case using Rj by simp
  next
    case (step i)
    have "E i \<le> E (Suc i) + D i"
      using feasibleD(4)[OF assms(1), of i] step.hyps assms(4) by (simp add: exit_simps)
    then have "E i \<le> R (Suc i) + D i" using step.IH by linarith
    then show ?case using R(1) R(3)[of i] assms(5) step.hyps n(2) by (cases "i = 0") auto
  qed
  have fwd: "fwd_pass M D n n 0 (R, 0) = (E', q)"
    using assms(7) n(3,4) by (simp add: recalculate_def R_def Let_def)
  note f = fwd_pass_values[OF _ _ fwd]
  have low: "E i \<le> E' i" if "i \<le> j" for i
    using that
  proof (induction i)
    case 0 show ?case using f n(4) R(1) by simp
  next
    case (Suc i)
    have "E (Suc i) \<le> E i + D i" using feasibleD(5)[OF assms(1), of i] Suc.prems assms(4) by simp
    then have "E (Suc i) \<le> E' i + D i" using Suc by simp
    moreover have "E (Suc i) \<le> R (Suc i)" using up Suc.prems by simp
    ultimately show ?case using f Suc.prems assms(4) by simp
  qed
  have step: "E' (Suc i) \<le> R (Suc i)" if "Suc i < n" for i using f that by simp
  have "E' j = E j"
    using low[of j] step[of "j - 1"] assms(3,4) Rj by simp
  moreover have "R (Suc j) \<le> M (Suc j)"
  proof (cases "Suc j = n - 1")
    case True then show ?thesis using R(2) by simp
  next
    case False
    then show ?thesis using R(3)[of "Suc j"] n(2) assms(4) by auto
  qed
  ultimately show ?thesis using step[OF assms(4)] by simp
qed

theorem recalculate_good:
  assumes "plannable n M D E p" "recalculate M D n (E, p) = (E', p')"
  shows "good n M D E' p'" "\<And>j. j \<le> p \<Longrightarrow> E' j = E j"
proof -
  note pre = plannableD[OF assms(1)]
  let ?R = "rev_pass M D p n (n - 2) (E(n - 1 := min (M (n - 1)) (D (n - 1))))"
  have goal: "good n M D E' p' \<and> (\<forall>j \<le> p. E' j = E j)"
  proof (cases "p = n - 1")
    case True
    then show ?thesis using plannable_last[of n M D E] assms pre(1) by (simp add: recalculate_def)
  next
    case False
    then have np: "p < n - 1" using pre(1) by simp
    note R = reverse_plannable[OF assms(1) np]
    have F: "forwarding n M D p (?R, p)"
      by (rule forwardingI[OF _ pre(1) R(1)]) (use R(2) plannableD(8)[OF R(1)] in simp_all)
    have "fwd_pass M D n n p (?R, p) = (E', p')"
      using assms(2) False pre(1) by (simp add: recalculate_def Let_def)
    then show ?thesis using fwd_pass_good[OF F, of n] R(3) by simp
  qed
  then show "good n M D E' p'" "\<And>j. j \<le> p \<Longrightarrow> E' j = E j" by blast+
qed

section \<open>The plan is the fastest one\<close>

theorem good_is_fastest:
  assumes "good n M D E p"
    and "G 0 \<le> E 0" "\<forall>j. 0 < j \<and> j < n \<longrightarrow> G j \<le> M j"
    and "\<forall>j < n. G j \<le> exit n G j + D j" "\<forall>j. Suc j < n \<longrightarrow> G (Suc j) \<le> G j + D j"
  shows "j < n \<Longrightarrow> G j \<le> E j"
proof -
  have good: "p < n \<or> n = 0" "\<forall>j \<le> p. certified M D E p j"
    "\<forall>j. p < j \<and> j < n \<longrightarrow> E j = min (M j) (exit n E j + D j)"
    using assms(1) by (auto simp: good_def settled_def)
  have low: "G j \<le> E j" if "certified M D E p j" "j < n" "p < n" for j
    using that
  proof (induction rule: certified.induct)
    case cert_first show ?case by (rule assms(2))
  next
    case (cert_max j) then show ?case using assms(3) by auto
  next
    case (cert_accel j)
    then have "G j \<le> E j" "G (Suc j) \<le> G j + D j" using assms(5) by auto
    then show ?case using cert_accel.hyps by simp
  next
    case (cert_brake j)
    then have "Suc j < n" "G (Suc j) \<le> E (Suc j)" by simp_all
    moreover have "G j \<le> exit n G j + D j" using assms(4) cert_brake.prems by blast
    ultimately show ?case using cert_brake.hyps by (simp add: exit_def)
  qed
  assume "j < n"
  then have "j \<le> n - 1" by simp
  then show "G j \<le> E j"
  proof (induction rule: inc_induct)
    case base
    have n: "n - 1 < n" using \<open>j < n\<close> by simp
    have rest: "exit n G (n - 1) = 0" "exit n E (n - 1) = 0" by (rule exit_simps, simp)+
    then have G: "G (n - 1) \<le> D (n - 1)" using assms(4)[rule_format, OF n] rest by simp
    show ?case
    proof (cases "n - 1 \<le> p")
      case True then show ?thesis using low[of "n - 1"] good n by auto
    next
      case False
      then have "E (n - 1) = min (M (n - 1)) (exit n E (n - 1) + D (n - 1))" using good(3) n by auto
      moreover have "G (n - 1) \<le> M (n - 1)" using assms(3) False n by simp
      ultimately show ?thesis using G rest by simp
    qed
  next
    case (step k)
    then have n: "Suc k < n" by simp
    then have k: "k < n" by simp
    have G: "G k \<le> G (Suc k) + D k" using assms(4)[rule_format, OF k] n by (simp add: exit_def)
    show ?case
    proof (cases "k \<le> p")
      case True then show ?thesis using low[of k] good k by auto
    next
      case False
      then have "E k = min (M k) (exit n E k + D k)" using good(3) k by auto
      moreover have "G k \<le> M k" using assms(3) False k by simp
      ultimately show ?thesis using step.IH G n by (simp add: exit_def)
    qed
  qed
qed


section \<open>Changes of the queue\<close>

lemma goodD:
  assumes "good n M D E p"
  shows "p < n \<or> n = 0 \<and> p = 0" "j < n \<Longrightarrow> 0 \<le> D j" "j < n \<Longrightarrow> 0 \<le> E j" "0 < j \<Longrightarrow> j < n \<Longrightarrow> E j \<le> M j"
    "j < n \<Longrightarrow> E j \<le> exit n E j + D j" "Suc j < n \<Longrightarrow> E (Suc j) \<le> E j + D j"
    "j \<le> p \<Longrightarrow> certified M D E p j" "p < j \<Longrightarrow> j < n \<Longrightarrow> E j = min (M j) (exit n E j + D j)"
  using assms feasible_nonneg[of n M D E j] unfolding good_def feasible_def settled_def by blast+

lemma goodI:
  assumes "p < n \<or> n = 0 \<and> p = 0" "\<And>j. j < n \<Longrightarrow> 0 \<le> D j" "\<And>j. j < n \<Longrightarrow> 0 \<le> E j"
    and "\<And>j. 0 < j \<Longrightarrow> j < n \<Longrightarrow> E j \<le> M j"
    and "\<And>j. j < n \<Longrightarrow> E j \<le> exit n E j + D j" "\<And>j. Suc j < n \<Longrightarrow> E (Suc j) \<le> E j + D j"
    and "\<And>j. j \<le> p \<Longrightarrow> certified M D E p j"
    and "\<And>j. p < j \<Longrightarrow> j < n \<Longrightarrow> E j = min (M j) (exit n E j + D j)"
  shows "good n M D E p"
  using assms unfolding good_def feasible_def settled_def by blast

lemma good_feasible: "good n M D E p \<Longrightarrow> feasible n M D E"
  by (simp add: good_def)

text \<open>A new block, to be entered at rest, is at the end.\<close>

lemma append_plannable:
  assumes "good n M D E p" "E n = 0" "0 \<le> x" "0 \<le> y"
  shows "plannable (Suc n) (M(n := x)) (D(n := y)) E p"
proof (rule plannableI)
  note g = goodD[OF assms(1)]
  show "p < Suc n" using g(1) by auto
  fix j
  show "certified (M(n := x)) (D(n := y)) E p j" if "j \<le> p"
  proof (cases "n = 0")
    case True
    then show ?thesis using g(1) that by (auto intro: certified.cert_first)
  next
    case False
    show ?thesis by (rule certified_cong[OF g(7)[OF that]]) (use g(1) False in auto)
  qed
  show "E (Suc j) \<le> E j + (D(n := y)) j" if "j < p" using g(1) g(6)[of j] that by auto
  assume j: "j < Suc n"
  show "0 \<le> (D(n := y)) j" using j g(2)[of j] assms(4) by simp
  show "0 \<le> E j" using j g(3)[of j] assms(2) by (cases "j = n") simp_all
  show "E j \<le> (M(n := x)) j" if "0 < j" using j that g(4)[of j] assms(2,3) by (cases "j = n") simp_all
  show "E j \<le> exit (Suc n) E j + (D(n := y)) j"
  proof (cases "j = n")
    case True then show ?thesis using assms(2,4) by (simp add: exit_def)
  next
    case False
    then have "Suc j < n \<or> Suc j = n" using j by linarith
    then have "exit (Suc n) E j = exit n E j" using assms(2) by (auto simp: exit_def)
    then show ?thesis using False j g(5)[of j] by simp
  qed
qed

text \<open>The first block has been executed.\<close>

lemma certified_shift:
  "certified M D E p j \<Longrightarrow> certified (\<lambda>j. M (Suc j)) (\<lambda>j. D (Suc j)) (\<lambda>j. E (Suc j)) (p - 1) (j - 1)"
proof (induction rule: certified.induct)
  case cert_first
  then show ?case by (auto intro: certified.cert_first)
next
  case (cert_max j)
  show ?case
  proof (cases "j = 1")
    case True then show ?thesis by (auto intro: certified.cert_first)
  next
    case False
    show ?thesis by (rule certified.cert_max) (use cert_max False in auto)
  qed
next
  case (cert_accel j)
  show ?case
  proof (cases j)
    case 0 then show ?thesis by (auto intro: certified.cert_first)
  next
    case (Suc i)
    have "certified (\<lambda>j. M (Suc j)) (\<lambda>j. D (Suc j)) (\<lambda>j. E (Suc j)) (p - 1) (Suc i)"
      by (rule certified.cert_accel) (use cert_accel Suc in auto)
    then show ?thesis using Suc by simp
  qed
next
  case (cert_brake j)
  show ?case
  proof (cases "j = 1")
    case True then show ?thesis by (auto intro: certified.cert_first)
  next
    case False
    show ?thesis by (rule certified.cert_brake) (use cert_brake False in auto)
  qed
qed

lemma good_shift:
  assumes "good n M D E p" "0 < n"
  shows "good (n - 1) (\<lambda>j. M (Suc j)) (\<lambda>j. D (Suc j)) (\<lambda>j. E (Suc j)) (p - 1)"
proof (rule goodI)
  note g = goodD[OF assms(1)]
  show "p - 1 < n - 1 \<or> n - 1 = 0 \<and> p - 1 = 0" using g(1) assms(2) by auto
  fix j
  have e: "exit (n - 1) (\<lambda>j. E (Suc j)) j = exit n E (Suc j)" by (auto simp: exit_def)
  show "certified (\<lambda>j. M (Suc j)) (\<lambda>j. D (Suc j)) (\<lambda>j. E (Suc j)) (p - 1) j" if "j \<le> p - 1"
  proof (cases "p = 0")
    case True then show ?thesis using that by (auto intro: certified.cert_first)
  next
    case False
    then show ?thesis using certified_shift[OF g(7)[of "Suc j"]] that by simp
  qed
  show "E (Suc j) = min (M (Suc j)) (exit (n - 1) (\<lambda>j. E (Suc j)) j + D (Suc j))" if "p - 1 < j" "j < n - 1"
    unfolding e using g(8)[of "Suc j"] that by simp
  show "E (Suc (Suc j)) \<le> E (Suc j) + D (Suc j)" if "Suc j < n - 1" using g(6)[of "Suc j"] that by simp
  assume j: "j < n - 1"
  show "0 \<le> D (Suc j)" "0 \<le> E (Suc j)" "E (Suc j) \<le> M (Suc j)" using g(2-4)[of "Suc j"] j by simp_all
  show "E (Suc j) \<le> exit (n - 1) (\<lambda>j. E (Suc j)) j + D (Suc j)" unfolding e using g(5)[of "Suc j"] j by simp
qed

text \<open>
  The machine is \<open>d\<close> before the end of the first block at the squared speed \<open>e\<close>: it has not
  accelerated beyond its means, and can reach the speed planned for the next block.
\<close>

lemma certified_execute:
  assumes "certified M D E p j" "0 < n" "p < n" "e + d \<le> E 0 + D 0" "exit n E 0 \<le> e + d"
  shows "certified M (D(0 := d)) (E(0 := e)) p j"
  using assms(1)
proof (induction rule: certified.induct)
  case cert_first
  show ?case by (rule certified.cert_first)
next
  case (cert_max j)
  show ?case by (rule certified.cert_max) (use cert_max in simp_all)
next
  case (cert_accel j)
  show ?case
  proof (rule certified.cert_accel[OF cert_accel.hyps(1) cert_accel.IH])
    show "(E(0 := e)) (Suc j) = (E(0 := e)) j + (D(0 := d)) j"
    proof (cases "j = 0")
      case True
      then have "Suc 0 < n" using cert_accel.hyps(1) assms(3) by simp
      then show ?thesis using True cert_accel.hyps(3) assms(4,5) by (simp add: exit_def)
    next
      case False then show ?thesis using cert_accel.hyps(3) by simp
    qed
  qed
next
  case (cert_brake j)
  show ?case by (rule certified.cert_brake[OF _ _ cert_brake.IH]) (use cert_brake in simp_all)
qed

lemma good_execute:
  assumes "good n M D E p" "0 < n" "0 \<le> e" "0 \<le> d" "e + d \<le> E 0 + D 0" "exit n E 0 \<le> e + d" "e \<le> exit n E 0 + d"
  shows "good n M (D(0 := d)) (E(0 := e)) p"
proof (rule goodI)
  note g = goodD[OF assms(1)]
  have x: "exit n (E(0 := e)) = exit n E" by (auto simp: exit_def)
  show "p < n \<or> n = 0 \<and> p = 0" by (rule g(1))
  fix j
  show "certified M (D(0 := d)) (E(0 := e)) p j" if "j \<le> p"
    by (rule certified_execute[OF g(7)[OF that] assms(2) _ assms(5,6)]) (use g(1) assms(2) in auto)
  show "(E(0 := e)) j = min (M j) (exit n (E(0 := e)) j + (D(0 := d)) j)" if "p < j" "j < n"
    using g(8)[OF that] that by (simp add: x)
  show "(E(0 := e)) (Suc j) \<le> (E(0 := e)) j + (D(0 := d)) j" if "Suc j < n"
    using g(6)[OF that] that assms(6) by (cases "j = 0") (simp_all add: exit_def)
  assume j: "j < n"
  show "0 \<le> (D(0 := d)) j" "0 \<le> (E(0 := e)) j" using g(2,3)[OF j] assms(3,4) by simp_all
  show "(E(0 := e)) j \<le> M j" if "0 < j" using g(4)[OF that j] that by simp
  show "(E(0 := e)) j \<le> exit n (E(0 := e)) j + (D(0 := d)) j" using g(5)[OF j] assms(7) by (simp add: x)
qed

text \<open>The plan is made anew from the first block, with other limits, or from rest after a hold.\<close>

lemma replan_plannable:
  assumes "good n M D E p" "0 < n" "\<And>j. 0 < j \<Longrightarrow> j < n \<Longrightarrow> E j \<le> L j"
  shows "plannable n L D E 0"
proof (rule plannableI)
  note g = goodD[OF assms(1)]
  fix j
  show "certified L D E 0 j" if "j \<le> 0" using that by (auto intro: certified.cert_first)
  assume "j < n"
  then show "0 \<le> D j" "0 \<le> E j" "E j \<le> exit n E j + D j" "0 < j \<Longrightarrow> E j \<le> L j"
    using g(2,3,5) assms(3) by simp_all
qed (use assms(2) in simp_all)

lemma held_plannable:
  assumes "good n M D E p" "0 < n" "0 \<le> d"
  shows "plannable n M (D(0 := d)) (E(0 := 0)) 0"
proof (rule plannableI)
  note g = goodD[OF assms(1)]
  fix j
  show "certified M (D(0 := d)) (E(0 := 0)) 0 j" if "j \<le> 0" using that by (auto intro: certified.cert_first)
  assume j: "j < n"
  have "0 \<le> exit n E 0" using g(3)[of 1] by (simp add: exit_def)
  moreover have "exit n (E(0 := 0)) = exit n E" by (auto simp: exit_def)
  ultimately show "(E(0 := 0)) j \<le> exit n (E(0 := 0)) j + (D(0 := d)) j" using g(5)[OF j] assms(3) by simp
  show "0 \<le> (D(0 := d)) j" "0 \<le> (E(0 := 0)) j" using g(2,3)[OF j] assms(3) by simp_all
  show "(E(0 := 0)) j \<le> M j" if "0 < j" using g(4)[OF that j] that by simp
qed (use assms(2) in simp_all)

end
