(* ===== verification/PlannerRing.thy ===== *)
theory PlannerRing
  imports Planner Lookahead
begin

text \<open>
  The ring of Planner.cpp as the queue of \<open>Lookahead\<close>: block \<open>j\<close> of the queue is the one
  \<open>j\<close> places after the tail. The passes over the ring are the passes over the queue.
\<close>

section \<open>The queue in the ring\<close>

definition queued :: "planner \<Rightarrow> nat" where
  "queued s =
     (if block_buffer_tail s \<le> block_buffer_head s then block_buffer_head s - block_buffer_tail s
      else block_buffer_head s + planner_blocks s - block_buffer_tail s)"

definition place :: "planner \<Rightarrow> nat \<Rightarrow> nat" where
  "place s j = (block_buffer_tail s + j) mod planner_blocks s"

text \<open>The first block, when it is executed, has the speed of the machine.\<close>

definition entry_at :: "planner \<Rightarrow> nat \<Rightarrow> rat" where
  "entry_at s j =
     (if queued s \<le> j then 0
      else case exec_speed s of
             None \<Rightarrow> entry_speed_sqr (block_buffer s (place s j))
           | Some v \<Rightarrow> (if j = 0 then v * v else entry_speed_sqr (block_buffer s (place s j))))"

definition limit_at :: "planner \<Rightarrow> nat \<Rightarrow> rat" where
  "limit_at s j = (if j < queued s then max_entry_speed_sqr (block_buffer s (place s j)) else 0)"

definition reach_at :: "planner \<Rightarrow> nat \<Rightarrow> rat" where
  "reach_at s j = (if j < queued s then braking (block_buffer s (place s j)) else 0)"

definition planned_at :: "planner \<Rightarrow> nat" where
  "planned_at s =
     (if block_buffer_tail s \<le> block_buffer_planned s then block_buffer_planned s - block_buffer_tail s
      else block_buffer_planned s + planner_blocks s - block_buffer_tail s)"

definition ring_wf :: "planner \<Rightarrow> bool" where
  "ring_wf s \<longleftrightarrow>
     1 < planner_blocks s \<and> block_buffer_tail s < planner_blocks s \<and> block_buffer_head s < planner_blocks s
     \<and> block_buffer_planned s < planner_blocks s
     \<and> next_buffer_head s = plan_next_block_index s (block_buffer_head s)"

lemma ring_wfD:
  assumes "ring_wf s"
  shows "1 < planner_blocks s" "block_buffer_tail s < planner_blocks s" "block_buffer_head s < planner_blocks s"
    "block_buffer_planned s < planner_blocks s"
    "next_buffer_head s = plan_next_block_index s (block_buffer_head s)"
  using assms by (auto simp: ring_wf_def)

lemma place_eq:
  "block_buffer_tail s < planner_blocks s \<Longrightarrow> j \<le> planner_blocks s \<Longrightarrow>
   place s j = (if block_buffer_tail s + j < planner_blocks s then block_buffer_tail s + j
               else block_buffer_tail s + j - planner_blocks s)"
  by (simp add: place_def mod_if[of "block_buffer_tail s + j"])

lemma queued_less: "ring_wf s \<Longrightarrow> queued s < planner_blocks s"
  by (auto simp: ring_wf_def queued_def)

lemma place_0: "ring_wf s \<Longrightarrow> place s 0 = block_buffer_tail s"
  by (simp add: ring_wf_def place_def)

lemma place_eq_iff:
  "ring_wf s \<Longrightarrow> i < planner_blocks s \<Longrightarrow> j < planner_blocks s \<Longrightarrow> place s i = place s j \<longleftrightarrow> i = j"
  using place_eq[of s i] place_eq[of s j] by (auto simp: ring_wf_def)

lemma place_tail_iff: "ring_wf s \<Longrightarrow> j < planner_blocks s \<Longrightarrow> place s j = block_buffer_tail s \<longleftrightarrow> j = 0"
  using place_eq_iff[of s j 0] place_0[of s] by (auto simp: ring_wf_def)

lemma place_Suc: "ring_wf s \<Longrightarrow> j < planner_blocks s \<Longrightarrow> plan_next_block_index s (place s j) = place s (Suc j)"
  using place_eq[of s j] place_eq[of s "Suc j"] by (auto simp: ring_wf_def plan_next_block_index_def)

lemma place_prev: "ring_wf s \<Longrightarrow> j < planner_blocks s \<Longrightarrow> plan_prev_block_index s (place s (Suc j)) = place s j"
  using place_eq[of s j] place_eq[of s "Suc j"] by (auto simp: ring_wf_def plan_prev_block_index_def)

lemma place_head: "ring_wf s \<Longrightarrow> place s (queued s) = block_buffer_head s"
  using place_eq[of s "queued s"] queued_less[of s] by (auto simp: ring_wf_def queued_def)

lemma place_planned: "ring_wf s \<Longrightarrow> place s (planned_at s) = block_buffer_planned s"
  using place_eq[of s "planned_at s"] by (auto simp: ring_wf_def planned_at_def)

lemma planned_at_less: "ring_wf s \<Longrightarrow> planned_at s < planner_blocks s"
  by (auto simp: ring_wf_def planned_at_def)

lemma planned_at_slot:
  "ring_wf s \<Longrightarrow> block_buffer_planned s = place s p \<Longrightarrow> p < planner_blocks s \<Longrightarrow> planned_at s = p"
  using place_eq_iff[of s p "planned_at s"] place_planned[of s] planned_at_less[of s] by auto

lemma queued_head_iff: "ring_wf s \<Longrightarrow> block_buffer_head s = block_buffer_tail s \<longleftrightarrow> queued s = 0"
  using place_tail_iff[of s "queued s"] place_head[of s] queued_less[of s] by auto

text \<open>What the look-ahead leaves: all but the entry speeds, the mark and the stepper's pointer.\<close>

definition plan_frame ::
    "planner \<Rightarrow> nat \<times> nat \<times> nat \<times> nat \<times> (nat \<Rightarrow> plan_block)" where
  "plan_frame s =
     (planner_blocks s, block_buffer_tail s, block_buffer_head s, next_buffer_head s,
      \<lambda>i. (block_buffer s i)\<lparr>entry_speed_sqr := 0\<rparr>)"

lemma frame_blocks:
  assumes "plan_frame s' = plan_frame s"
  shows "max_entry_speed_sqr (block_buffer s' i) = max_entry_speed_sqr (block_buffer s i)"
    "braking (block_buffer s' i) = braking (block_buffer s i)"
proof -
  have "(block_buffer s' i)\<lparr>entry_speed_sqr := 0\<rparr> = (block_buffer s i)\<lparr>entry_speed_sqr := 0\<rparr>"
    using assms by (auto simp: plan_frame_def dest: fun_cong)
  then show "max_entry_speed_sqr (block_buffer s' i) = max_entry_speed_sqr (block_buffer s i)"
    "braking (block_buffer s' i) = braking (block_buffer s i)"
    by (cases "block_buffer s' i"; cases "block_buffer s i"; simp add: braking_def)+
qed

lemma frame_ring:
  assumes "plan_frame s' = plan_frame s"
  shows "queued s' = queued s" "place s' = place s" "limit_at s' = limit_at s" "reach_at s' = reach_at s"
    "planner_blocks s' = planner_blocks s" "block_buffer_tail s' = block_buffer_tail s"
    "block_buffer_head s' = block_buffer_head s" "next_buffer_head s' = next_buffer_head s"
    "plan_next_block_index s' = plan_next_block_index s" "plan_prev_block_index s' = plan_prev_block_index s"
  using assms frame_blocks[OF assms]
  by (auto simp: plan_frame_def queued_def place_def limit_at_def reach_at_def plan_next_block_index_def
        plan_prev_block_index_def)


section \<open>The passes\<close>

lemma set_entry_simps:
  "plan_frame (set_entry i v s) = plan_frame s"
  "block_buffer_planned (set_entry i v s) = block_buffer_planned s"
  "exec_speed (set_entry i v s) = exec_speed s"
  "entry_speed_sqr (block_buffer (set_entry i v s) k) = (if k = i then v else entry_speed_sqr (block_buffer s k))"
  by (auto simp: set_entry_def put_block_def plan_frame_def)

lemma set_entry_at:
  assumes "ring_wf s" "j < queued s" "0 < j \<or> exec_speed s = None"
  shows "entry_at (set_entry (place s j) v s) = (entry_at s)(j := v)"
proof
  fix k
  have "k < queued s \<Longrightarrow> place s k = place s j \<longleftrightarrow> k = j"
    using place_eq_iff[OF assms(1), of k j] queued_less[OF assms(1)] assms(2) by simp
  then show "entry_at (set_entry (place s j) v s) k = ((entry_at s)(j := v)) k"
    using assms(2,3) frame_ring(1,2)[OF set_entry_simps(1)[of "place s j" v s]]
    by (auto simp: entry_at_def set_entry_simps split: option.split)
qed

lemma raw_entry:
  "ring_wf s \<Longrightarrow> j < queued s \<Longrightarrow> 0 < j \<or> exec_speed s = None \<Longrightarrow>
   entry_speed_sqr (block_buffer s (place s j)) = entry_at s j"
  by (auto simp: entry_at_def split: option.split)

lemma raw_limit: "j < queued s \<Longrightarrow> max_entry_speed_sqr (block_buffer s (place s j)) = limit_at s j"
  by (simp add: limit_at_def)

lemma raw_reach: "j < queued s \<Longrightarrow> braking (block_buffer s (place s j)) = reach_at s j"
  by (simp add: reach_at_def)

lemma ring_wf_frame:
  "plan_frame s' = plan_frame s \<Longrightarrow> block_buffer_planned s' < planner_blocks s \<Longrightarrow> ring_wf s \<Longrightarrow> ring_wf s'"
  by (auto simp: ring_wf_def plan_frame_def plan_next_block_index_def)

text \<open>What a pass has done to the ring: the entries of the queue, the mark, the stepper's pointer.\<close>

definition passed :: "planner \<Rightarrow> planner \<Rightarrow> (nat \<Rightarrow> rat) \<Rightarrow> nat \<Rightarrow> rat option \<Rightarrow> bool" where
  "passed s s' E q x \<longleftrightarrow>
     plan_frame s' = plan_frame s \<and> entry_at s' = E \<and> block_buffer_planned s' = place s q \<and> exec_speed s' = x"

lemma passed_wf:
  assumes "passed s s' E q x" "ring_wf s"
  shows "ring_wf s'" "queued s' = queued s" "place s' = place s" "limit_at s' = limit_at s" "reach_at s' = reach_at s"
    "entry_at s' = E" "block_buffer_planned s' = place s' q" "exec_speed s' = x"
proof -
  have f: "plan_frame s' = plan_frame s" using assms(1) by (simp add: passed_def)
  have "place s q < planner_blocks s" using ring_wfD(1)[OF assms(2)] by (simp add: place_def)
  then show "ring_wf s'" using ring_wf_frame[OF f _ assms(2)] assms(1) by (simp add: passed_def)
  show "queued s' = queued s" "place s' = place s" "limit_at s' = limit_at s" "reach_at s' = reach_at s"
    using frame_ring[OF f] by simp_all
  then show "entry_at s' = E" "block_buffer_planned s' = place s' q" "exec_speed s' = x"
    using assms(1) by (simp_all add: passed_def)
qed

lemma passed_trans:
  assumes "passed s s' E q x" "passed s' s'' E' q' x'"
  shows "passed s s'' E' q' x'"
proof -
  have f: "plan_frame s' = plan_frame s" using assms(1) by (simp add: passed_def)
  show ?thesis using assms frame_ring(2)[OF f] f by (simp add: passed_def)
qed

lemma update_passed:
  assumes "ring_wf s" "0 < queued s" "block_buffer_planned s = place s q"
  shows "passed s (update_plan_block_parameters s) (entry_at s) q None"
proof (cases "exec_speed s")
  case None
  then show ?thesis using assms(3) by (simp add: passed_def update_plan_block_parameters_def)
next
  case (Some v)
  let ?s = "set_entry (block_buffer_tail s) (v * v) s"
  have u: "update_plan_block_parameters s = ?s\<lparr>exec_speed := None\<rparr>"
    using Some by (simp add: update_plan_block_parameters_def)
  have f: "plan_frame (?s\<lparr>exec_speed := None\<rparr>) = plan_frame s"
    using set_entry_simps(1) by (simp add: plan_frame_def)
  have "entry_at (?s\<lparr>exec_speed := None\<rparr>) k = entry_at s k" for k
  proof (cases "k < queued s")
    case True
    then have "place s k = block_buffer_tail s \<longleftrightarrow> k = 0"
      using place_tail_iff[OF assms(1), of k] queued_less[OF assms(1)] by simp
    then show ?thesis using True Some frame_ring(1,2)[OF f] by (simp add: entry_at_def set_entry_simps)
  next
    case False then show ?thesis using frame_ring(1)[OF f] by (simp add: entry_at_def)
  qed
  then show ?thesis unfolding u passed_def using f assms(3) by (auto simp: set_entry_simps)
qed

lemma set_passed:
  assumes "ring_wf s" "j < queued s" "0 < j \<or> exec_speed s = None" "block_buffer_planned s = place s q"
  shows "passed s (set_entry (place s j) v s) ((entry_at s)(j := v)) q (exec_speed s)"
  using set_entry_at[OF assms(1-3)] assms(4) by (simp add: passed_def set_entry_simps)

lemma id_passed: "block_buffer_planned s = place s q \<Longrightarrow> passed s s (entry_at s) q (exec_speed s)"
  by (simp add: passed_def)

lemma mark_passed: "passed s (s\<lparr>block_buffer_planned := place s q\<rparr>) (entry_at s) q (exec_speed s)"
  by (auto simp: passed_def plan_frame_def entry_at_def queued_def place_def fun_eq_iff split: option.split)

lemma reverse_step_passed:
  assumes "ring_wf s" "0 < i" "Suc i < queued s" "block_buffer_planned s = place s q"
  shows "passed s (reverse_step (place s (Suc i)) (place s i) s)
    (rev_step (limit_at s) (reach_at s) i (entry_at s)) q (if i = 1 then None else exec_speed s)"
proof -
  have N: "queued s < planner_blocks s" by (rule queued_less[OF assms(1)])
  have "plan_prev_block_index s (place s i) = place s (i - 1)"
    using place_prev[OF assms(1), of "i - 1"] assms(2,3) N by simp
  then have tail: "plan_prev_block_index s (place s i) = block_buffer_tail s \<longleftrightarrow> i = 1"
    using place_tail_iff[OF assms(1), of "i - 1"] assms(2,3) N by auto
  define s1 where "s1 = (if i = 1 then update_plan_block_parameters s else s)"
  have p1: "passed s s1 (entry_at s) q (if i = 1 then None else exec_speed s)"
    using update_passed[OF assms(1) _ assms(4)] id_passed[OF assms(4)] assms(3) by (auto simp: s1_def)
  note w = passed_wf[OF p1 assms(1)]
  have i: "i < queued s1" "Suc i < queued s1" using assms(3) w(2) by simp_all
  have raw: "entry_speed_sqr (block_buffer s1 (place s i)) = entry_at s i"
    "entry_speed_sqr (block_buffer s1 (place s (Suc i))) = entry_at s (Suc i)"
    "max_entry_speed_sqr (block_buffer s1 (place s i)) = limit_at s i"
    "braking (block_buffer s1 (place s i)) = reach_at s i"
    using raw_entry[OF w(1) i(1)] raw_entry[OF w(1) i(2)] raw_limit[OF i(1)] raw_reach[OF i(1)] assms(2)
    by (simp_all add: w(3-6))
  have step: "reverse_step (place s (Suc i)) (place s i) s =
     (if entry_at s i = limit_at s i then s1
      else set_entry (place s i) (min (limit_at s i) (entry_at s (Suc i) + reach_at s i)) s1)"
    unfolding reverse_step_def Let_def tail s1_def[symmetric] raw by (simp add: min_def)
  have "passed s1 (set_entry (place s i) v s1) ((entry_at s)(i := v)) q (if i = 1 then None else exec_speed s)" for v
    using set_passed[OF w(1) i(1) _ w(7)] assms(2) unfolding w(8) by (simp add: w(3,6))
  then show ?thesis
    unfolding step rev_step_def using p1 passed_trans[OF p1] by (cases "entry_at s i = limit_at s i") (simp, simp only: if_False)
qed

lemma reverse_pass_passed:
  assumes "ring_wf s" "p \<le> i" "Suc i < queued s" "block_buffer_planned s = place s p" "i - p \<le> k"
    and "p < i \<or> 0 < p \<or> exec_speed s = None"
  shows "\<exists>x. passed s (reverse_pass k (place s (Suc i)) (place s i) s)
      (rev_pass (limit_at s) (reach_at s) p k i (entry_at s)) p x \<and> (p = 0 \<longrightarrow> x = None)"
  using assms
proof (induction k arbitrary: i s)
  case 0
  then show ?case using id_passed[OF 0(4)] by auto
next
  case (Suc k)
  have N: "queued s < planner_blocks s" by (rule queued_less[OF Suc.prems(1)])
  have at: "place s i = block_buffer_planned s \<longleftrightarrow> i = p"
    using place_eq_iff[OF Suc.prems(1), of i p] Suc.prems(2-4) N by auto
  show ?case
  proof (cases "i = p")
    case True
    then show ?thesis using id_passed[OF Suc.prems(4)] at Suc.prems(6) by auto
  next
    case False
    then have i: "0 < i" "p < i" using Suc.prems(2) by simp_all
    let ?s = "reverse_step (place s (Suc i)) (place s i) s"
    let ?E = "rev_step (limit_at s) (reach_at s) i (entry_at s)"
    have p1: "passed s ?s ?E p (if i = 1 then None else exec_speed s)"
      by (rule reverse_step_passed[OF Suc.prems(1) i(1) Suc.prems(3,4)])
    note w = passed_wf[OF p1 Suc.prems(1)]
    have prev: "plan_prev_block_index s (place s i) = place s (i - 1)"
      using place_prev[OF Suc.prems(1), of "i - 1"] i Suc.prems(3) N by simp
    have "\<exists>x. passed ?s (reverse_pass k (place ?s (Suc (i - 1))) (place ?s (i - 1)) ?s)
        (rev_pass (limit_at ?s) (reach_at ?s) p k (i - 1) (entry_at ?s)) p x \<and> (p = 0 \<longrightarrow> x = None)"
      by (rule Suc.IH) (use w Suc.prems(2,3,5) i in auto)
    then obtain x where x: "passed ?s (reverse_pass k (place s i) (place s (i - 1)) ?s)
        (rev_pass (limit_at s) (reach_at s) p k (i - 1) ?E) p x" "p = 0 \<longrightarrow> x = None"
      using i by (auto simp: w(3-6))
    show ?thesis using passed_trans[OF p1 x(1)] x(2) False at prev by auto
  qed
qed


lemma forward_step_passed:
  assumes "ring_wf s" "Suc i < queued s" "0 < i \<or> exec_speed s = None" "block_buffer_planned s = place s q"
    and "fwd_step (limit_at s) (reach_at s) i (entry_at s, q) = (E, q')"
  shows "passed s (forward_step (place s i) (place s (Suc i)) s) E q' (exec_speed s)"
proof -
  have i: "i < queued s" using assms(2) by simp
  note raw = raw_entry[OF assms(1) i assms(3)] raw_reach[OF i] raw_limit[OF assms(2)]
    raw_entry[OF assms(1,2) disjI1[OF zero_less_Suc]]
  let ?e = "entry_at s i + reach_at s i"
  define lower where "lower \<longleftrightarrow> entry_at s i < entry_at s (Suc i) \<and> ?e < entry_at s (Suc i)"
  define s1 where "s1 = (if lower then (set_entry (place s (Suc i)) ?e s)\<lparr>block_buffer_planned := place s (Suc i)\<rparr> else s)"
  define E1 where "E1 = (if lower then (entry_at s)(Suc i := ?e) else entry_at s)"
  have p0: "passed s (set_entry (place s (Suc i)) ?e s) ((entry_at s)(Suc i := ?e)) q (exec_speed s)"
    by (rule set_passed[OF assms(1,2) _ assms(4)]) simp
  have p1: "passed s s1 E1 (if lower then Suc i else q) (exec_speed s)"
  proof (cases lower)
    case True
    note w = passed_wf[OF p0 assms(1)]
    show ?thesis
      using passed_trans[OF p0 mark_passed[of _ "Suc i"]] True unfolding w(3,6,8) by (simp add: s1_def E1_def)
  next
    case False then show ?thesis using id_passed[OF assms(4)] by (simp add: s1_def E1_def)
  qed
  note w = passed_wf[OF p1 assms(1)]
  have n: "Suc i < queued s1" using assms(2) w(2) by simp
  have top: "entry_speed_sqr (block_buffer s1 (place s (Suc i))) = E1 (Suc i)"
    "max_entry_speed_sqr (block_buffer s1 (place s (Suc i))) = limit_at s (Suc i)"
    using raw_entry[OF w(1) n disjI1[OF zero_less_Suc]] raw_limit[OF n] by (simp_all add: w(3,4,6))
  have step: "forward_step (place s i) (place s (Suc i)) s =
      (if E1 (Suc i) = limit_at s (Suc i) then s1\<lparr>block_buffer_planned := place s (Suc i)\<rparr> else s1)"
    unfolding forward_step_def Let_def raw lower_def[symmetric] s1_def[symmetric] top by simp
  have "fwd_step (limit_at s) (reach_at s) i (entry_at s, q) =
      (E1, if E1 (Suc i) = limit_at s (Suc i) then Suc i else if lower then Suc i else q)"
    by (simp add: fwd_step_def Let_def lower_def[symmetric] E1_def)
  then have E: "E = E1" "q' = (if E1 (Suc i) = limit_at s (Suc i) then Suc i else if lower then Suc i else q)"
    using assms(5) by simp_all
  have "passed s (s1\<lparr>block_buffer_planned := place s (Suc i)\<rparr>) E1 (Suc i) (exec_speed s)"
    using passed_trans[OF p1 mark_passed[of s1 "Suc i"]] unfolding w(3,6,8) .
  then show ?thesis using p1 unfolding step E by (cases "E1 (Suc i) = limit_at s (Suc i)") simp_all
qed

lemma forward_pass_passed:
  assumes "ring_wf s" "i < queued s" "0 < i \<or> exec_speed s = None" "block_buffer_planned s = place s q"
    and "fwd_pass (limit_at s) (reach_at s) (queued s) k i (entry_at s, q) = (E, q')"
  shows "passed s (forward_pass k (place s i) (place s (Suc i)) s) E q' (exec_speed s)"
  using assms
proof (induction k arbitrary: i s q)
  case 0
  then show ?case using id_passed[OF 0(4)] by simp
next
  case (Suc k)
  have N: "queued s < planner_blocks s" by (rule queued_less[OF Suc.prems(1)])
  have at: "place s (Suc i) = block_buffer_head s \<longleftrightarrow> Suc i = queued s"
    using place_eq_iff[OF Suc.prems(1), of "Suc i" "queued s"] place_head[OF Suc.prems(1)] Suc.prems(2) N by simp
  show ?case
  proof (cases "Suc i = queued s")
    case True
    then show ?thesis using id_passed[OF Suc.prems(4)] at Suc.prems(5) by simp
  next
    case False
    then have n: "Suc i < queued s" using Suc.prems(2) by simp
    let ?s = "forward_step (place s i) (place s (Suc i)) s"
    obtain E1 q1 where f: "fwd_step (limit_at s) (reach_at s) i (entry_at s, q) = (E1, q1)" by force
    have p1: "passed s ?s E1 q1 (exec_speed s)"
      by (rule forward_step_passed[OF Suc.prems(1) n Suc.prems(3,4) f])
    note w = passed_wf[OF p1 Suc.prems(1)]
    have "passed ?s (forward_pass k (place ?s (Suc i)) (place ?s (Suc (Suc i))) ?s) E q' (exec_speed ?s)"
      by (rule Suc.IH[OF w(1) _ _ w(7)]) (use w(2,4,5,6) n f False Suc.prems(5) in simp_all)
    then have "passed ?s (forward_pass k (place s (Suc i)) (place s (Suc (Suc i))) ?s) E q' (exec_speed s)"
      by (simp add: w(3,8))
    then show ?thesis
      using passed_trans[OF p1] place_Suc[OF Suc.prems(1), of "Suc i"] n N False at by simp
  qed
qed

text \<open>The look-ahead over the ring is the look-ahead over the queue.\<close>

lemma rev_pass_start: "rev_pass M D p k p E = E"
  by (cases k) simp_all

lemma recalculate_passed:
  assumes "ring_wf s" "block_buffer_planned s = place s p" "p < queued s"
    and "recalculate (limit_at s) (reach_at s) (queued s) (entry_at s, p) = (E, q)"
  shows "\<exists>x. passed s (planner_recalculate s) E q x"
proof -
  have N: "queued s < planner_blocks s" by (rule queued_less[OF assms(1)])
  let ?n = "queued s" and ?M = "limit_at s" and ?D = "reach_at s"
  have ne: "block_buffer_head s \<noteq> block_buffer_tail s" using queued_head_iff[OF assms(1)] assms(3) by simp
  have newest: "plan_prev_block_index s (block_buffer_head s) = place s (?n - 1)"
    using place_prev[OF assms(1), of "?n - 1"] place_head[OF assms(1)] assms(3) N by simp
  have at: "place s (?n - 1) = block_buffer_planned s \<longleftrightarrow> ?n - 1 = p"
    using place_eq_iff[OF assms(1), of "?n - 1" p] assms(2,3) N by auto
  show ?thesis
  proof (cases "?n - 1 = p")
    case True
    then have "planner_recalculate s = s" using newest at by (simp add: planner_recalculate_def Let_def)
    moreover have "E = entry_at s" "q = p" using assms(4) True by (simp_all add: recalculate_def)
    ultimately show ?thesis using id_passed[OF assms(2)] by metis
  next
    case False
    then have p: "p < ?n - 1" using assms(3) by simp
    then have n1: "?n - 1 < ?n" "0 < ?n - 1" "Suc (?n - 2) = ?n - 1" "Suc (?n - 2) < ?n" "?n - 2 < planner_blocks s"
      using N by simp_all
    let ?v = "min (?M (?n - 1)) (?D (?n - 1))"
    define s1 where "s1 = set_entry (place s (?n - 1)) ?v s"
    have p1: "passed s s1 ((entry_at s)(?n - 1 := ?v)) p (exec_speed s)"
      unfolding s1_def by (rule set_passed[OF assms(1) n1(1) _ assms(2)]) (use n1(2) in simp)
    note w = passed_wf[OF p1 assms(1)]
    have prev: "plan_prev_block_index s (place s (?n - 1)) = place s (?n - 2)"
      using place_prev[OF assms(1) n1(5)] n1(3) by simp
    have at2: "place s (?n - 2) = block_buffer_planned s \<longleftrightarrow> ?n - 2 = p"
      using place_eq_iff[OF assms(1), of "?n - 2" p] assms(2,3) n1(5) N by auto
    have tail: "place s (?n - 2) = block_buffer_tail s \<longleftrightarrow> ?n - 2 = 0"
      by (rule place_tail_iff[OF assms(1) n1(5)])
    let ?R = "rev_pass ?M ?D p ?n (?n - 2) ((entry_at s)(?n - 1 := ?v))"
    define s2 where "s2 = (if ?n - 2 = p then (if ?n - 2 = 0 then update_plan_block_parameters s1 else s1)
      else reverse_pass (planner_blocks s) (place s (?n - 1)) (place s (?n - 2)) s1)"
    have "\<exists>x. passed s s2 ?R p x \<and> (p = 0 \<longrightarrow> x = None)"
    proof (cases "?n - 2 = p")
      case True
      have "passed s1 (update_plan_block_parameters s1) (entry_at s1) p None"
        by (rule update_passed[OF w(1) _ w(7)]) (use w(2) assms(3) in simp)
      then show ?thesis
        using True passed_trans[OF p1] p1 rev_pass_start[of ?M ?D p ?n] by (cases "p = 0") (auto simp: s2_def w(6))
    next
      case F: False
      have "\<exists>x. passed s1 (reverse_pass (planner_blocks s) (place s1 (Suc (?n - 2))) (place s1 (?n - 2)) s1)
          (rev_pass (limit_at s1) (reach_at s1) p (planner_blocks s) (?n - 2) (entry_at s1)) p x \<and> (p = 0 \<longrightarrow> x = None)"
        by (rule reverse_pass_passed[OF w(1)]) (use w(2,7) p F N n1 in simp_all)
      then obtain x where "passed s1 (reverse_pass (planner_blocks s) (place s (?n - 1)) (place s (?n - 2)) s1)
          (rev_pass ?M ?D p (planner_blocks s) (?n - 2) ((entry_at s)(?n - 1 := ?v))) p x" "p = 0 \<longrightarrow> x = None"
        unfolding w(3-6) n1(3) by blast
      moreover have "rev_pass ?M ?D p (planner_blocks s) (?n - 2) E' = rev_pass ?M ?D p ?n (?n - 2) E'" for E'
        by (rule rev_pass_enough) (use p N in simp_all)
      ultimately have "passed s1 s2 ?R p x" "p = 0 \<longrightarrow> x = None" using F by (simp_all add: s2_def)
      then show ?thesis using passed_trans[OF p1] by blast
    qed
    then obtain x where p2: "passed s s2 ?R p x" and x: "p = 0 \<longrightarrow> x = None" by blast
    note w2 = passed_wf[OF p2 assms(1)]
    have "fwd_pass ?M ?D ?n ?n p (?R, p) = (E, q)"
      using assms(3,4) False by (simp add: recalculate_def Let_def)
    then have f: "fwd_pass (limit_at s2) (reach_at s2) (queued s2) (planner_blocks s) p (entry_at s2, p) = (E, q)"
      using fwd_pass_enough[of ?n p "planner_blocks s" ?n ?M ?D "(?R, p)"] N p by (simp add: w2(2,4-6))
    have "passed s2 (forward_pass (planner_blocks s) (place s2 p) (place s2 (Suc p)) s2) E q (exec_speed s2)"
      by (rule forward_pass_passed[OF w2(1) _ _ w2(7) f]) (use w2(2,8) assms(3) x in auto)
    then have fin: "passed s (forward_pass (planner_blocks s) (place s p) (place s (Suc p)) s2) E q x"
      using passed_trans[OF p2] by (simp add: w2(3,8))
    have "plan_frame s2 = plan_frame s" "plan_frame s1 = plan_frame s" using p2 p1 by (simp_all add: passed_def)
    then have next2: "plan_next_block_index s2 (place s p) = place s (Suc p)"
      using place_Suc[OF assms(1), of p] frame_ring(9)[of s2 s] assms(3) N by simp
    have planned2: "block_buffer_planned s2 = place s p" using w2(7) by (simp add: w2(3))
    have "planner_recalculate s = forward_pass (planner_blocks s) (place s p) (place s (Suc p)) s2"
      unfolding planner_recalculate_def Let_def newest if_not_P[OF ne] if_not_P[OF False[folded at]] prev
        raw_limit[OF n1(1)] raw_reach[OF n1(1)] s1_def[symmetric] at2 tail s2_def[symmetric] planned2 next2 ..
    then show ?thesis using fin by auto
  qed
qed

end
