(* ===== verification/PlannerProps.thy ===== *)
theory PlannerProps
  imports PlannerRing Transition
begin

text \<open>
  The planner as a transition system: new lines, blocks that are executed, held and
  discarded, and changes of the overrides. In every state the plan can be driven and is the
  fastest one, as long as no change of an override puts a limit below a planned entry;
  without that condition it is wrong (\<open>override_breaks_plan\<close>).
\<close>

section \<open>Invariant\<close>

definition plan_good :: "planner \<Rightarrow> bool" where
  "plan_good s \<longleftrightarrow> ring_wf s \<and> good (queued s) (limit_at s) (reach_at s) (entry_at s) (planned_at s)"

text \<open>The stepper has no block when the queue is empty.\<close>

definition plan_inv :: "planner \<Rightarrow> bool" where
  "plan_inv s \<longleftrightarrow> plan_good s \<and> (queued s = 0 \<longrightarrow> exec_speed s = None)"

text \<open>The length of a block is what the stepper has left of it, its speed that of the machine.\<close>

definition execute :: "rat \<Rightarrow> rat \<Rightarrow> planner \<Rightarrow> planner" where
  "execute v mm s =
     (put_block (block_buffer_tail s) ((block_buffer s (block_buffer_tail s))\<lparr>millimeters := mm\<rparr>) s)
       \<lparr>exec_speed := Some v\<rparr>"

definition remaining :: "rat \<Rightarrow> planner \<Rightarrow> rat" where
  "remaining mm s = braking ((block_buffer s (block_buffer_tail s))\<lparr>millimeters := mm\<rparr>)"

text \<open>
  The contract of the stepper: it has not accelerated by more than the acceleration of the
  block over the way it has made, and the exit speed of the plan is still within reach.
\<close>

definition legal_execution :: "rat \<Rightarrow> rat \<Rightarrow> planner \<Rightarrow> bool" where
  "legal_execution v mm s \<longleftrightarrow>
     0 < queued s \<and> 0 \<le> remaining mm s \<and> v * v + remaining mm s \<le> entry_at s 0 + reach_at s 0
     \<and> plan_get_exec_block_exit_speed_sqr s \<le> v * v + remaining mm s
     \<and> v * v \<le> plan_get_exec_block_exit_speed_sqr s + remaining mm s"

definition within_limits :: "planner \<Rightarrow> planner \<Rightarrow> bool" where
  "within_limits s s' \<longleftrightarrow> (\<forall>j. 0 < j \<and> j < queued s \<longrightarrow> entry_at s j \<le> limit_at s' j)"

inductive plan_step :: "planner \<Rightarrow> planner \<Rightarrow> bool" where
  step_line: "\<forall>x. 0 \<le> pn_sqrt pe x \<Longrightarrow> \<not> plan_check_full_buffer s \<Longrightarrow>
    plan_buffer_line pe target system line s = (ok, alarm, s') \<Longrightarrow> plan_step s s'"
| step_execute: "legal_execution v mm s \<Longrightarrow> plan_step s (execute v mm s)"
| step_discard: "plan_step s (plan_discard_current_block (s\<lparr>exec_speed := None\<rparr>))"
| step_hold: "0 < queued s \<Longrightarrow> 0 \<le> remaining mm s \<Longrightarrow> plan_step s (plan_cycle_reinitialize (execute 0 mm s))"
| step_reinitialize: "plan_step s (plan_cycle_reinitialize s)"
| step_override: "plan_update_velocity_profile_parameters pe s = s' \<Longrightarrow> within_limits s s' \<Longrightarrow> plan_step s s'"
| step_reset: "plan_step s (plan_reset (s\<lparr>exec_speed := None\<rparr>))"
| step_sync: "plan_step s (plan_sync_position pe s)"

definition plan_start :: "planner \<Rightarrow> bool" where
  "plan_start s \<longleftrightarrow> 10 \<le> planner_blocks s \<and> planner_blocks s \<le> 120 \<and> plan_reset s = s \<and> exec_speed s = None"

section \<open>Steps\<close>

lemma exit_is:
  "ring_wf s \<Longrightarrow> 0 < queued s \<Longrightarrow> plan_get_exec_block_exit_speed_sqr s = exit (queued s) (entry_at s) 0"
proof -
  assume r: "ring_wf s" and q: "0 < queued s"
  have i: "plan_next_block_index s (block_buffer_tail s) = place s (Suc 0)"
    using place_Suc[OF r, of 0] place_0[OF r] q queued_less[OF r] by simp
  have at: "place s (Suc 0) = block_buffer_head s \<longleftrightarrow> queued s = 1"
    using place_eq_iff[OF r, of "Suc 0" "queued s"] place_head[OF r] ring_wfD(1)[OF r] queued_less[OF r] by auto
  show "plan_get_exec_block_exit_speed_sqr s = exit (queued s) (entry_at s) 0"
    using raw_entry[OF r, of "Suc 0"] q
    by (auto simp: plan_get_exec_block_exit_speed_sqr_def Let_def i at exit_def)
qed

lemma recalculate_plan:
  assumes "ring_wf s" "block_buffer_planned s = place s p"
    and "plannable (queued s) (limit_at s) (reach_at s) (entry_at s) p"
  shows "plan_good (planner_recalculate s)" "plan_frame (planner_recalculate s) = plan_frame s"
proof -
  obtain E q where r: "recalculate (limit_at s) (reach_at s) (queued s) (entry_at s, p) = (E, q)" by force
  have p: "p < queued s" by (rule plannableD(1)[OF assms(3)])
  obtain x where x: "passed s (planner_recalculate s) E q x"
    using recalculate_passed[OF assms(1,2) p r] by blast
  then show "plan_frame (planner_recalculate s) = plan_frame s" by (simp add: passed_def)
  note w = passed_wf[OF x assms(1)]
  have g: "good (queued s) (limit_at s) (reach_at s) E q" by (rule recalculate_good(1)[OF assms(3) r])
  have "q < planner_blocks s" using goodD(1)[OF g] p queued_less[OF assms(1)] by auto
  then have "planned_at (planner_recalculate s) = q"
    using planned_at_slot[OF w(1) w(7)] x frame_ring(5)[of "planner_recalculate s" s] by (simp add: passed_def)
  then show "plan_good (planner_recalculate s)" using g w by (simp add: plan_good_def)
qed

lemma recalculate_frame:
  assumes "ring_wf s" "block_buffer_planned s = place s p" "p < queued s"
  shows "plan_frame (planner_recalculate s) = plan_frame s"
proof -
  obtain E q where r: "recalculate (limit_at s) (reach_at s) (queued s) (entry_at s, p) = (E, q)" by force
  then show ?thesis using recalculate_passed[OF assms r] by (auto simp: passed_def)
qed

lemma frame_inv:
  assumes "plan_good s'" "plan_frame s' = plan_frame s" "0 < queued s"
  shows "plan_inv s'"
  using assms frame_ring(1)[OF assms(2)] by (simp add: plan_inv_def)

lemma reinitialize_good:
  assumes "ring_wf s" "0 < queued s" "block_buffer_planned s = place s p"
    and "plannable (queued s) (limit_at s) (reach_at s) (entry_at s) 0"
  shows "plan_good (plan_cycle_reinitialize s)" "plan_frame (plan_cycle_reinitialize s) = plan_frame s"
proof -
  let ?u = "update_plan_block_parameters s"
  have p1: "passed s ?u (entry_at s) p None" by (rule update_passed[OF assms(1-3)])
  note w1 = passed_wf[OF p1 assms(1)]
  have p2: "passed s (?u\<lparr>block_buffer_planned := place ?u 0\<rparr>) (entry_at s) 0 None"
    using passed_trans[OF p1 mark_passed[of ?u 0]] unfolding w1(6,8) .
  note w2 = passed_wf[OF p2 assms(1)]
  have is_rec: "plan_cycle_reinitialize s = planner_recalculate (?u\<lparr>block_buffer_planned := place ?u 0\<rparr>)"
    using place_0[OF w1(1)] by (simp add: plan_cycle_reinitialize_def Let_def)
  note r = recalculate_plan[OF w2(1) w2(7)]
  have pl: "plannable (queued (?u\<lparr>block_buffer_planned := place ?u 0\<rparr>)) (limit_at (?u\<lparr>block_buffer_planned := place ?u 0\<rparr>))
      (reach_at (?u\<lparr>block_buffer_planned := place ?u 0\<rparr>)) (entry_at (?u\<lparr>block_buffer_planned := place ?u 0\<rparr>)) 0"
    using assms(4) unfolding w2(2,4,5,6) .
  show "plan_good (plan_cycle_reinitialize s)" unfolding is_rec by (rule r(1)[OF pl])
  show "plan_frame (plan_cycle_reinitialize s) = plan_frame s"
    unfolding is_rec r(2)[OF pl] using p2 unfolding passed_def by (rule conjunct1)
qed


lemma reinitialize_frame:
  assumes "ring_wf s" "0 < queued s" "block_buffer_planned s = place s p"
  shows "plan_frame (plan_cycle_reinitialize s) = plan_frame s"
proof -
  let ?u = "update_plan_block_parameters s"
  have p1: "passed s ?u (entry_at s) p None" by (rule update_passed[OF assms])
  note w1 = passed_wf[OF p1 assms(1)]
  have p2: "passed s (?u\<lparr>block_buffer_planned := place ?u 0\<rparr>) (entry_at s) 0 None"
    using passed_trans[OF p1 mark_passed[of ?u 0]] unfolding w1(6,8) .
  note w2 = passed_wf[OF p2 assms(1)]
  have is_rec: "plan_cycle_reinitialize s = planner_recalculate (?u\<lparr>block_buffer_planned := place ?u 0\<rparr>)"
    using place_0[OF w1(1)] by (simp add: plan_cycle_reinitialize_def Let_def)
  have "plan_frame (planner_recalculate (?u\<lparr>block_buffer_planned := place ?u 0\<rparr>))
      = plan_frame (?u\<lparr>block_buffer_planned := place ?u 0\<rparr>)"
    by (rule recalculate_frame[OF w2(1) w2(7)]) (use assms(2) w2(2) in simp)
  then show ?thesis unfolding is_rec using p2 unfolding passed_def by simp
qed

lemma execute_simps:
  assumes "ring_wf s" "0 < queued s"
  shows "ring_wf (execute v mm s)" "queued (execute v mm s) = queued s" "planned_at (execute v mm s) = planned_at s"
    "block_buffer_planned (execute v mm s) = place (execute v mm s) (planned_at s)"
    "limit_at (execute v mm s) = limit_at s" "reach_at (execute v mm s) = (reach_at s)(0 := remaining mm s)"
    "entry_at (execute v mm s) = (entry_at s)(0 := v * v)"
proof -
  let ?s = "execute v mm s"
  have fields: "planner_blocks ?s = planner_blocks s" "block_buffer_tail ?s = block_buffer_tail s"
    "block_buffer_head ?s = block_buffer_head s" "next_buffer_head ?s = next_buffer_head s"
    "block_buffer_planned ?s = block_buffer_planned s" "exec_speed ?s = Some v"
    by (simp_all add: execute_def put_block_def)
  show q: "queued ?s = queued s" and p: "planned_at ?s = planned_at s" by (simp_all add: queued_def planned_at_def fields)
  have sl: "place ?s = place s" by (simp add: place_def fields fun_eq_iff)
  show w: "ring_wf ?s" using assms(1) by (simp add: ring_wf_def plan_next_block_index_def fields)
  show "block_buffer_planned ?s = place ?s (planned_at s)" using place_planned[OF w] p by simp
  have tail: "place s j = block_buffer_tail s \<longleftrightarrow> j = 0" if "j < queued s" for j
    using place_tail_iff[OF assms(1)] queued_less[OF assms(1)] that by simp
  have block: "block_buffer ?s k = (if k = block_buffer_tail s
      then (block_buffer s (block_buffer_tail s))\<lparr>millimeters := mm\<rparr> else block_buffer s k)" for k
    by (simp add: execute_def put_block_def)
  show "limit_at ?s = limit_at s" by (rule ext) (simp add: limit_at_def q sl block)
  show "reach_at ?s = (reach_at s)(0 := remaining mm s)"
    using assms(2) tail by (auto simp: reach_at_def q sl block remaining_def fun_eq_iff)
  have "entry_at ?s j = ((entry_at s)(0 := v * v)) j" for j
    using assms(2) tail by (cases "exec_speed s") (auto simp: entry_at_def q sl block fields)
  then show "entry_at ?s = (entry_at s)(0 := v * v)" by blast
qed

lemma plan_goodD:
  "plan_good s \<Longrightarrow> ring_wf s" "plan_good s \<Longrightarrow> good (queued s) (limit_at s) (reach_at s) (entry_at s) (planned_at s)"
  by (simp_all add: plan_good_def)

lemma execute_inv:
  assumes "plan_inv s" "legal_execution v mm s"
  shows "plan_inv (execute v mm s)"
proof -
  have g: "plan_good s" using assms(1) by (simp add: plan_inv_def)
  have q: "0 < queued s" using assms(2) by (simp add: legal_execution_def)
  note e = execute_simps[OF plan_goodD(1)[OF g] q, of v mm]
  have "good (queued s) (limit_at s) ((reach_at s)(0 := remaining mm s)) ((entry_at s)(0 := v * v)) (planned_at s)"
    by (rule good_execute[OF plan_goodD(2)[OF g] q])
      (use assms(2) exit_is[OF plan_goodD(1)[OF g] q] in \<open>simp_all add: legal_execution_def\<close>)
  then show ?thesis using e q by (simp add: plan_inv_def plan_good_def)
qed

lemma hold_inv:
  assumes "plan_inv s" "0 < queued s" "0 \<le> remaining mm s"
  shows "plan_inv (plan_cycle_reinitialize (execute 0 mm s))"
proof -
  have g: "plan_good s" using assms(1) by (simp add: plan_inv_def)
  note e = execute_simps[OF plan_goodD(1)[OF g] assms(2), of 0 mm]
  have "plannable (queued s) (limit_at s) ((reach_at s)(0 := remaining mm s)) ((entry_at s)(0 := 0)) 0"
    by (rule held_plannable[OF plan_goodD(2)[OF g] assms(2,3)])
  then have pl: "plannable (queued (execute 0 mm s)) (limit_at (execute 0 mm s)) (reach_at (execute 0 mm s))
      (entry_at (execute 0 mm s)) 0"
    unfolding e(2,5-7) by simp
  have q: "0 < queued (execute 0 mm s)" using assms(2) e(2) by simp
  note r = reinitialize_good[OF e(1) q e(4) pl]
  show ?thesis by (rule frame_inv[OF r q])
qed

lemma reinitialize_empty:
  assumes "plan_inv s" "queued s = 0"
  shows "plan_cycle_reinitialize s = s"
proof -
  have g: "plan_good s" and x: "exec_speed s = None" using assms by (simp_all add: plan_inv_def)
  have "planned_at s = 0" using goodD(1)[OF plan_goodD(2)[OF g]] assms(2) by simp
  then have "block_buffer_planned s = block_buffer_tail s"
    using place_planned[OF plan_goodD(1)[OF g]] place_0[OF plan_goodD(1)[OF g]] by simp
  moreover have "block_buffer_head s = block_buffer_tail s" using queued_head_iff[OF plan_goodD(1)[OF g]] assms(2) by simp
  ultimately show ?thesis
    using x by (simp add: plan_cycle_reinitialize_def update_plan_block_parameters_def planner_recalculate_def Let_def)
qed

lemma reinitialize_inv:
  assumes "plan_inv s"
  shows "plan_inv (plan_cycle_reinitialize s)"
proof (cases "queued s = 0")
  case True
  then show ?thesis using assms reinitialize_empty by simp
next
  case False
  then have q: "0 < queued s" by simp
  have g: "plan_good s" using assms by (simp add: plan_inv_def)
  note w = plan_goodD[OF g]
  have pl: "plannable (queued s) (limit_at s) (reach_at s) (entry_at s) 0"
    by (rule replan_plannable[OF w(2) q goodD(4)[OF w(2)]])
  show ?thesis
    by (rule frame_inv[OF reinitialize_good[OF w(1) q place_planned[OF w(1), symmetric] pl] q])
qed

lemma discard_inv:
  assumes "plan_inv s"
  shows "plan_inv (plan_discard_current_block (s\<lparr>exec_speed := None\<rparr>))"
proof -
  let ?s = "plan_discard_current_block (s\<lparr>exec_speed := None\<rparr>)"
  have g: "plan_good s" using assms by (simp add: plan_inv_def)
  note w = plan_goodD[OF g]
  show ?thesis
  proof (cases "queued s = 0")
    case True
    then have "block_buffer_head s = block_buffer_tail s" using queued_head_iff[OF w(1)] by simp
    then have "?s = s\<lparr>exec_speed := None\<rparr>" by (simp add: plan_discard_current_block_def)
    moreover have "s\<lparr>exec_speed := None\<rparr> = s" using assms True by (simp add: plan_inv_def)
    ultimately show ?thesis using assms by simp
  next
    case False
    then have q: "0 < queued s" by simp
    have N: "queued s < planner_blocks s" by (rule queued_less[OF w(1)])
    have ne: "block_buffer_head s \<noteq> block_buffer_tail s" using queued_head_iff[OF w(1)] q by simp
    have fields: "planner_blocks ?s = planner_blocks s" "block_buffer_tail ?s = plan_next_block_index s (block_buffer_tail s)"
      "block_buffer_head ?s = block_buffer_head s" "next_buffer_head ?s = next_buffer_head s"
      "block_buffer_planned ?s = (if block_buffer_tail s = block_buffer_planned s
         then plan_next_block_index s (block_buffer_tail s) else block_buffer_planned s)"
      "exec_speed ?s = None" "block_buffer ?s = block_buffer s"
      using ne by (simp_all add: plan_discard_current_block_def Let_def plan_next_block_index_def)
    note r = ring_wfD[OF w(1)]
    have wf: "ring_wf ?s" using r by (auto simp: ring_wf_def fields plan_next_block_index_def)
    have n: "queued ?s = queued s - 1"
      using r ne by (auto simp: queued_def fields plan_next_block_index_def)
    have p: "planned_at ?s = planned_at s - 1"
      using r by (auto simp: planned_at_def fields plan_next_block_index_def)
    have sl: "place ?s j = place s (Suc j)" for j
    proof (cases "block_buffer_tail s + 1 = planner_blocks s")
      case True
      then have "block_buffer_tail s + Suc j = planner_blocks s + j" by simp
      then have "(block_buffer_tail s + Suc j) mod planner_blocks s = j mod planner_blocks s" by (simp only: mod_add_self1)
      then show ?thesis using True by (simp add: place_def fields plan_next_block_index_def)
    next
      case False then show ?thesis by (simp add: place_def fields plan_next_block_index_def)
    qed
    have "limit_at ?s = (\<lambda>j. limit_at s (Suc j))" "reach_at ?s = (\<lambda>j. reach_at s (Suc j))"
      "entry_at ?s = (\<lambda>j. entry_at s (Suc j))"
      using q by (auto simp: limit_at_def reach_at_def entry_at_def n sl fields fun_eq_iff split: option.split)
    then have "plan_good ?s" using good_shift[OF w(2) q] wf by (simp add: plan_good_def n p)
    then show ?thesis using fields(6) by (simp add: plan_inv_def)
  qed
qed


section \<open>New lines\<close>

lemma limit_fold_nonneg:
  "0 \<le> (m :: rat) \<Longrightarrow> 0 \<le> fold (\<lambda>i lim. if u i \<noteq> 0 then min lim (abs (f i / u i)) else lim) xs m"
  by (induction xs arbitrary: m) auto

lemma limit_by_axis_nonneg: "0 \<le> limit_by_axis pe f u"
  unfolding limit_by_axis_def by (rule limit_fold_nonneg) (simp add: SOME_LARGE_VALUE_def)

lemma junction_nonneg: "0 \<le> junction_speed_sqr pe prev u"
  by (simp add: junction_speed_sqr_def Let_def MINIMUM_JUNCTION_SPEED_def SOME_LARGE_VALUE_def)

lemma profile_nonneg:
  "0 \<le> max_junction_speed_sqr b \<Longrightarrow> 0 \<le> max_entry_speed_sqr (plan_compute_profile_parameters v w b)"
  by (simp add: plan_compute_profile_parameters_def Let_def)

lemma profile_keeps:
  "entry_speed_sqr (plan_compute_profile_parameters v w b) = entry_speed_sqr b"
  "braking (plan_compute_profile_parameters v w b) = braking b"
  by (simp_all add: plan_compute_profile_parameters_def Let_def braking_def)

text \<open>A new block is entered at rest; it has a limit, and a way to brake on.\<close>

definition fresh_block :: "plan_block \<Rightarrow> bool" where
  "fresh_block b \<longleftrightarrow> entry_speed_sqr b = 0 \<and> 0 \<le> max_entry_speed_sqr b \<and> 0 \<le> braking b"

definition enqueue :: "plan_block \<Rightarrow> rat \<Rightarrow> (nat \<Rightarrow> rat) \<Rightarrow> (nat \<Rightarrow> int) \<Rightarrow> planner \<Rightarrow> planner" where
  "enqueue b v u pos s =
     (put_block (block_buffer_head s) b s)
       \<lparr>previous_nominal_speed := v, previous_unit_vec := u, pl_position := pos,
        block_buffer_head := next_buffer_head s, next_buffer_head := plan_next_block_index s (next_buffer_head s)\<rparr>"

lemma with_length_facts:
  assumes "with_length pe delta b = (b', u)" "\<forall>x. 0 \<le> pn_sqrt pe x"
  shows "entry_speed_sqr b' = entry_speed_sqr b" "0 \<le> braking b'"
  using assms limit_by_axis_nonneg[of pe "pn_acceleration pe"]
  by (auto simp: with_length_def convert_delta_vector_to_unit_vector_def Let_def vector_length_def braking_def
        limit_acceleration_by_axis_maximum_def)

lemma plan_buffer_line_cases:
  assumes "plan_buffer_line pe target system line s = (ok, alarm, s')" "\<forall>x. 0 \<le> pn_sqrt pe x"
  shows "(\<exists>b. s' = put_block (block_buffer_head s) b s)
    \<or> (\<exists>b v u pos. s' = planner_recalculate (enqueue b v u pos s) \<and> fresh_block b)"
proof -
  let ?from = "if system then pn_motor_steps pe else pl_position s"
  let ?delta = "\<lambda>i. mpos_to_steps (target i) (pn_steps_per_mm pe i) - ?from i"
  let ?b0 = "with_steps pe ?delta (blank_block system line)"
  obtain b u where b: "with_length pe ?delta ?b0 = (b, u)" by force
  have e0: "entry_speed_sqr ?b0 = 0" by (simp add: with_steps_def blank_block_def Let_def)
  let ?j = "if block_buffer_head s = block_buffer_tail s \<or> system then 0
    else junction_speed_sqr pe (previous_unit_vec s) u"
  let ?b1 = "b\<lparr>max_junction_speed_sqr := ?j\<rparr>"
  have fresh: "fresh_block (plan_compute_profile_parameters v w ?b1)" for v w
    using with_length_facts[OF b assms(2)] e0 profile_nonneg[of ?b1] junction_nonneg
    by (simp add: fresh_block_def profile_keeps) (simp add: braking_def)
  show ?thesis
  proof (cases "\<not> system \<and> \<not> pl_is_jog line \<and> pn_unhomed pe \<or> step_event_count ?b0 = 0 \<or> system")
    case True
    then show ?thesis using assms(1) b by (auto simp: plan_buffer_line_def Let_def split: if_splits)
  next
    case False
    then have c: "\<not> system" "pl_is_jog line \<or> \<not> pn_unhomed pe" "step_event_count ?b0 \<noteq> 0" by auto
    then have "s' = planner_recalculate (enqueue
        (plan_compute_profile_parameters (plan_compute_profile_nominal_speed pe ?b1) (previous_nominal_speed s) ?b1)
        (plan_compute_profile_nominal_speed pe ?b1) (\<lambda>i. if i < pn_axes pe then u i else previous_unit_vec s i)
        (\<lambda>i. if i < pn_axes pe then mpos_to_steps (target i) (pn_steps_per_mm pe i) else pl_position s i) s)"
      using assms(1) b
      by (cases "pl_is_jog line"; cases "pn_unhomed pe"; cases "block_buffer_head s = block_buffer_tail s")
        (simp_all add: plan_buffer_line_def Let_def enqueue_def)
    then show ?thesis using fresh by blast
  qed
qed

text \<open>The block at the head is not in the queue.\<close>

lemma put_head_inv:
  assumes "plan_inv s"
  shows "plan_inv (put_block (block_buffer_head s) b s)"
proof -
  let ?s = "put_block (block_buffer_head s) b s"
  have g: "plan_good s" using assms by (simp add: plan_inv_def)
  note w = plan_goodD[OF g]
  have fields: "planner_blocks ?s = planner_blocks s" "block_buffer_tail ?s = block_buffer_tail s"
    "block_buffer_head ?s = block_buffer_head s" "next_buffer_head ?s = next_buffer_head s"
    "block_buffer_planned ?s = block_buffer_planned s" "exec_speed ?s = exec_speed s"
    by (simp_all add: put_block_def)
  have q: "queued ?s = queued s" and p: "planned_at ?s = planned_at s" by (simp_all add: queued_def planned_at_def fields)
  have sl: "place ?s = place s" by (simp add: place_def fields fun_eq_iff)
  have wf: "ring_wf ?s" using w(1) by (simp add: ring_wf_def plan_next_block_index_def fields)
  have block: "block_buffer ?s (place s j) = block_buffer s (place s j)" if "j < queued s" for j
    using place_eq_iff[OF w(1), of j "queued s"] place_head[OF w(1)] queued_less[OF w(1)] that
    by (simp add: put_block_def)
  have "limit_at ?s = limit_at s" "reach_at ?s = reach_at s" "entry_at ?s = entry_at s"
    using block by (auto simp: limit_at_def reach_at_def entry_at_def q sl fields fun_eq_iff split: option.split)
  then show ?thesis using assms wf by (simp add: plan_inv_def plan_good_def q p fields)
qed

lemma enqueue_inv:
  assumes "plan_inv s" "\<not> plan_check_full_buffer s" "fresh_block b"
  shows "plan_inv (planner_recalculate (enqueue b v u pos s))" "queued (planner_recalculate (enqueue b v u pos s)) = Suc (queued s)"
proof -
  let ?s = "enqueue b v u pos s"
  have g: "plan_good s" using assms by (simp add: plan_inv_def)
  note w = plan_goodD[OF g]
  note r = ring_wfD[OF w(1)]
  have fields: "planner_blocks ?s = planner_blocks s" "block_buffer_tail ?s = block_buffer_tail s"
    "block_buffer_head ?s = next_buffer_head s" "next_buffer_head ?s = plan_next_block_index s (next_buffer_head s)"
    "block_buffer_planned ?s = block_buffer_planned s" "exec_speed ?s = exec_speed s"
    "block_buffer ?s = (block_buffer s)(block_buffer_head s := b)"
    by (simp_all add: enqueue_def put_block_def)
  have room: "block_buffer_tail s \<noteq> next_buffer_head s" using assms(2) by (simp add: plan_check_full_buffer_def)
  have q: "queued ?s = Suc (queued s)"
    using r room by (auto simp: queued_def fields plan_next_block_index_def split: if_splits)
  have p: "planned_at ?s = planned_at s" by (simp add: planned_at_def fields)
  have sl: "place ?s = place s" by (simp add: place_def fields fun_eq_iff)
  have wf: "ring_wf ?s" using r by (auto simp: ring_wf_def plan_next_block_index_def fields)
  have head: "place s j = block_buffer_head s \<longleftrightarrow> j = queued s" if "j \<le> queued s" for j
    using place_eq_iff[OF w(1), of j "queued s"] place_head[OF w(1)] queued_less[OF w(1)] that by simp
  have L: "limit_at ?s = (limit_at s)(queued s := max_entry_speed_sqr b)"
    "reach_at ?s = (reach_at s)(queued s := braking b)"
    using head by (auto simp: limit_at_def reach_at_def q sl fields fun_eq_iff)
  have E: "entry_at ?s = entry_at s"
  proof
    fix j
    show "entry_at ?s j = entry_at s j"
      using head[of j] assms(1,3)
      by (cases "j = queued s")
        (auto simp: entry_at_def q sl fields fresh_block_def plan_inv_def split: option.split)
  qed
  have pl: "plannable (queued ?s) (limit_at ?s) (reach_at ?s) (entry_at ?s) (planned_at s)"
    unfolding q L E by (rule append_plannable[OF w(2)]) (use assms(3) in \<open>simp_all add: fresh_block_def entry_at_def\<close>)
  have at: "block_buffer_planned ?s = place ?s (planned_at s)" using place_planned[OF wf] p by simp
  note re = recalculate_plan[OF wf at pl]
  show "plan_inv (planner_recalculate ?s)" by (rule frame_inv[OF re]) (simp add: q)
  show "queued (planner_recalculate ?s) = Suc (queued s)" using frame_ring(1)[OF re(2)] q by simp
qed

section \<open>Overrides\<close>

lemma update_profiles_keeps:
  "planner_blocks (update_profiles pe n i w s) = planner_blocks s
   \<and> block_buffer_tail (update_profiles pe n i w s) = block_buffer_tail s
   \<and> block_buffer_head (update_profiles pe n i w s) = block_buffer_head s
   \<and> next_buffer_head (update_profiles pe n i w s) = next_buffer_head s
   \<and> block_buffer_planned (update_profiles pe n i w s) = block_buffer_planned s
   \<and> exec_speed (update_profiles pe n i w s) = exec_speed s
   \<and> entry_speed_sqr (block_buffer (update_profiles pe n i w s) k) = entry_speed_sqr (block_buffer s k)
   \<and> braking (block_buffer (update_profiles pe n i w s) k) = braking (block_buffer s k)"
proof (induction n arbitrary: i w s)
  case 0
  then show ?case by simp
next
  case (Suc n)
  show ?case
  proof (cases "i = block_buffer_head s")
    case True then show ?thesis by simp
  next
    case False
    then show ?thesis using Suc.IH by (simp add: Let_def put_block_def profile_keeps)
  qed
qed

lemma override_inv:
  assumes "plan_inv s" "plan_update_velocity_profile_parameters pe s = s'" "within_limits s s'"
  shows "plan_inv s'"
proof -
  let ?s = "update_profiles pe (planner_blocks s) (block_buffer_tail s) SOME_LARGE_VALUE s"
  have g: "plan_good s" using assms(1) by (simp add: plan_inv_def)
  note w = plan_goodD[OF g]
  note k = update_profiles_keeps[of pe "planner_blocks s" "block_buffer_tail s" SOME_LARGE_VALUE s]
  have q: "queued ?s = queued s" and p: "planned_at ?s = planned_at s" using k by (simp_all add: queued_def planned_at_def)
  have sl: "place ?s = place s" using k by (simp add: place_def fun_eq_iff)
  have wf: "ring_wf ?s" using w(1) k by (simp add: ring_wf_def plan_next_block_index_def)
  have E: "entry_at ?s = entry_at s" "reach_at ?s = reach_at s"
    using k by (auto simp: entry_at_def reach_at_def q sl fun_eq_iff split: option.split)
  show ?thesis
  proof (cases "queued s = 0")
    case True
    then have "block_buffer_tail ?s = block_buffer_head ?s" using queued_head_iff[OF wf] q by simp
    then have s': "s' = ?s" using assms(2) by (simp add: plan_update_velocity_profile_parameters_def Let_def)
    have "good 0 M D E' 0" for M D E' by (rule goodI) (auto intro: certified.cert_first)
    moreover have "planned_at s = 0" using goodD(1)[OF w(2)] True by simp
    ultimately show ?thesis using True wf k assms(1) by (simp add: s' plan_inv_def plan_good_def q p)
  next
    case False
    then have n: "0 < queued s" by simp
    then have "block_buffer_head ?s \<noteq> block_buffer_tail ?s" using queued_head_iff[OF wf] q by simp
    then have s': "s' = plan_cycle_reinitialize ?s"
      using assms(2) by (auto simp: plan_update_velocity_profile_parameters_def Let_def)
    have n': "0 < queued ?s" using n q by simp
    have at: "block_buffer_planned ?s = place ?s (planned_at s)" using place_planned[OF wf] p by simp
    have "plan_frame s' = plan_frame ?s" unfolding s' by (rule reinitialize_frame[OF wf n' at])
    then have "limit_at s' = limit_at ?s" by (rule frame_ring(3))
    then have "\<And>j. 0 < j \<Longrightarrow> j < queued s \<Longrightarrow> entry_at s j \<le> limit_at ?s j"
      using assms(3) by (simp add: within_limits_def)
    then have "plannable (queued s) (limit_at ?s) (reach_at s) (entry_at s) 0"
      by (rule replan_plannable[OF w(2) n])
    then have pl: "plannable (queued ?s) (limit_at ?s) (reach_at ?s) (entry_at ?s) 0" unfolding q E .
    show ?thesis unfolding s' by (rule frame_inv[OF reinitialize_good[OF wf n' at pl] n'])
  qed
qed


text \<open>The entries after an override, in any case: the look-ahead from the first block on, with the new limits.\<close>

lemma override_entries:
  assumes "plan_good s" "0 < queued s" "plan_update_velocity_profile_parameters pe s = s'"
  shows "queued s' = queued s" "reach_at s' = reach_at s"
    "\<exists>q. recalculate (limit_at s') (reach_at s) (queued s) (entry_at s, 0) = (entry_at s', q)"
proof -
  let ?s = "update_profiles pe (planner_blocks s) (block_buffer_tail s) SOME_LARGE_VALUE s"
  note w = plan_goodD[OF assms(1)]
  note k = update_profiles_keeps[of pe "planner_blocks s" "block_buffer_tail s" SOME_LARGE_VALUE s]
  have q: "queued ?s = queued s" and p: "planned_at ?s = planned_at s" using k by (simp_all add: queued_def planned_at_def)
  have sl: "place ?s = place s" using k by (simp add: place_def fun_eq_iff)
  have wf: "ring_wf ?s" using w(1) k by (simp add: ring_wf_def plan_next_block_index_def)
  have E: "entry_at ?s = entry_at s" "reach_at ?s = reach_at s"
    using k by (auto simp: entry_at_def reach_at_def q sl fun_eq_iff split: option.split)
  have n': "0 < queued ?s" using assms(2) q by simp
  have at: "block_buffer_planned ?s = place ?s (planned_at s)" using place_planned[OF wf] p by simp
  have "block_buffer_head ?s \<noteq> block_buffer_tail ?s" using queued_head_iff[OF wf] n' by simp
  then have s': "s' = plan_cycle_reinitialize ?s"
    using assms(3) by (auto simp: plan_update_velocity_profile_parameters_def Let_def)
  let ?u = "update_plan_block_parameters ?s"
  have p1: "passed ?s ?u (entry_at ?s) (planned_at s) None" by (rule update_passed[OF wf n' at])
  note w1 = passed_wf[OF p1 wf]
  have p2: "passed ?s (?u\<lparr>block_buffer_planned := place ?u 0\<rparr>) (entry_at ?s) 0 None"
    using passed_trans[OF p1 mark_passed[of ?u 0]] unfolding w1(6,8) .
  note w2 = passed_wf[OF p2 wf]
  have is_rec: "s' = planner_recalculate (?u\<lparr>block_buffer_planned := place ?u 0\<rparr>)"
    using place_0[OF w1(1)] by (simp add: s' plan_cycle_reinitialize_def Let_def)
  obtain E' r where r: "recalculate (limit_at (?u\<lparr>block_buffer_planned := place ?u 0\<rparr>))
      (reach_at (?u\<lparr>block_buffer_planned := place ?u 0\<rparr>)) (queued (?u\<lparr>block_buffer_planned := place ?u 0\<rparr>))
      (entry_at (?u\<lparr>block_buffer_planned := place ?u 0\<rparr>), 0) = (E', r)" by force
  obtain x where "passed (?u\<lparr>block_buffer_planned := place ?u 0\<rparr>) s' E' r x"
    using recalculate_passed[OF w2(1) w2(7) _ r] n' w2(2) is_rec by auto
  note w3 = passed_wf[OF this w2(1)]
  show "queued s' = queued s" "reach_at s' = reach_at s" using w2 w3 q E by simp_all
  show "\<exists>q. recalculate (limit_at s') (reach_at s) (queued s) (entry_at s, 0) = (entry_at s', q)"
    using r unfolding w3(4,6) w2(2,4,5,6) q E by blast
qed

section \<open>All states\<close>

lemma empty_inv:
  assumes "1 < planner_blocks s" "block_buffer_tail s = 0" "block_buffer_head s = 0" "next_buffer_head s = 1"
    "block_buffer_planned s = 0" "exec_speed s = None"
  shows "plan_inv s"
proof -
  have "good 0 M D E 0" for M D E by (rule goodI) (auto intro: certified.cert_first)
  then show ?thesis
    using assms by (simp add: plan_inv_def plan_good_def ring_wf_def queued_def planned_at_def plan_next_block_index_def)
qed

lemma reset_inv: "plan_inv s \<Longrightarrow> plan_inv (plan_reset (s\<lparr>exec_speed := None\<rparr>))"
  by (rule empty_inv) (auto simp: plan_inv_def plan_good_def ring_wf_def plan_reset_def plan_reset_buffer_def)

lemma sync_inv:
  assumes "plan_inv s"
  shows "plan_inv (plan_sync_position pe s)"
proof -
  let ?s = "plan_sync_position pe s"
  have "queued ?s = queued s" "planned_at ?s = planned_at s" "ring_wf ?s = ring_wf s" "exec_speed ?s = exec_speed s"
    by (simp_all add: plan_sync_position_def queued_def planned_at_def ring_wf_def plan_next_block_index_def)
  moreover have "limit_at ?s = limit_at s" "reach_at ?s = reach_at s" "entry_at ?s = entry_at s"
    by (simp_all add: plan_sync_position_def queued_def limit_at_def reach_at_def entry_at_def place_def fun_eq_iff
      split: option.split)
  ultimately show ?thesis using assms by (simp add: plan_inv_def plan_good_def)
qed

lemma line_inv:
  assumes "plan_inv s" "\<forall>x. 0 \<le> pn_sqrt pe x" "\<not> plan_check_full_buffer s"
    "plan_buffer_line pe target system line s = (ok, alarm, s')"
  shows "plan_inv s'"
  using plan_buffer_line_cases[OF assms(4,2)] put_head_inv[OF assms(1)] enqueue_inv(1)[OF assms(1,3)] by blast

lemma plan_step_inv:
  assumes "plan_inv s" "plan_step s s'"
  shows "plan_inv s'"
  using assms(2,1)
proof (cases rule: plan_step.cases)
  case step_line then show ?thesis using line_inv assms(1) by blast
next
  case step_execute then show ?thesis using execute_inv assms(1) by blast
next
  case step_override then show ?thesis using override_inv assms(1) by blast
qed (use assms(1) hold_inv discard_inv reinitialize_inv reset_inv sync_inv in blast)+

lemma plan_start_inv:
  assumes "plan_start s"
  shows "plan_inv s"
proof (rule empty_inv)
  have r: "plan_reset s = s" and N: "10 \<le> planner_blocks s" and x: "exec_speed s = None"
    using assms by (simp_all add: plan_start_def)
  have "block_buffer_tail (plan_reset s) = 0" "block_buffer_head (plan_reset s) = 0"
    "next_buffer_head (plan_reset s) = 1" "block_buffer_planned (plan_reset s) = 0"
    by (simp_all add: plan_reset_def plan_reset_buffer_def)
  then show "block_buffer_tail s = 0" "block_buffer_head s = 0" "next_buffer_head s = 1" "block_buffer_planned s = 0"
    unfolding r .
  show "1 < planner_blocks s" using N by simp
  show "exec_speed s = None" by (rule x)
qed

interpretation planner_system: invariant_system plan_start plan_step plan_inv
  by unfold_locales (blast intro: plan_start_inv plan_step_inv)+

lemma reach_good: "reach plan_start plan_step s \<Longrightarrow> plan_good s"
  using planner_system.reach_inv plan_inv_def by blast

text \<open>
  C16. Whatever lines are planned, executed, held and discarded: in the plan of the queue no
  block that has not been started is entered above its limit, each block is long enough to brake from its
  entry speed to that of the next one (to rest, after the last one), and to accelerate from
  one to the other. The entry of the first block is the speed of the machine, which is only
  not negative. Assumed of the stepper, which is not modelled, is that it executes the first
  block as planned: it has not gained more speed than the way it has made allows, and can still
  reach the exit speed of the plan. Overrides are those that leave no planned entry
  above a new limit; others can break the plan.
\<close>
theorem plan_is_feasible:
  "reach plan_start plan_step s \<Longrightarrow> feasible (queued s) (limit_at s) (reach_at s) (entry_at s)"
  by (rule good_feasible[OF plan_goodD(2)[OF reach_good]])

text \<open>
  C17. The plan is the fastest one: a plan of the same blocks that can be driven from the
  present speed of the machine enters no block faster.
\<close>
theorem plan_is_fastest:
  assumes "reach plan_start plan_step s"
    and "feasible (queued s) (limit_at s) (reach_at s) G" "G 0 = entry_at s 0" "j < queued s"
  shows "G j \<le> entry_at s j"
proof -
  note f = assms(2)[unfolded feasible_def]
  have "\<forall>j. 0 < j \<and> j < queued s \<longrightarrow> G j \<le> limit_at s j" "\<forall>j < queued s. G j \<le> exit (queued s) G j + reach_at s j"
    "\<forall>j. Suc j < queued s \<longrightarrow> G (Suc j) \<le> G j + reach_at s j" "G 0 \<le> entry_at s 0"
    using f assms(3) by simp_all
  then show ?thesis
    using good_is_fastest[OF plan_goodD(2)[OF reach_good[OF assms(1)]] _ _ _ _ assms(4)] by blast
qed

section \<open>Limits of the axes\<close>

lemma limit_fold_below:
  assumes "i \<in> set xs" "u i \<noteq> 0"
  shows "fold (\<lambda>i lim. if u i \<noteq> 0 then min lim (abs (f i / u i)) else lim) xs (m :: rat) \<le> abs (f i / u i)"
  using assms(1)
proof (induction xs arbitrary: m rule: rev_induct)
  case (snoc x xs)
  show ?case
  proof (cases "x = i")
    case True then show ?thesis using assms(2) by simp
  next
    case False
    then have "fold (\<lambda>i lim. if u i \<noteq> 0 then min lim (abs (f i / u i)) else lim) xs m \<le> abs (f i / u i)"
      using snoc by simp
    then show ?thesis by (auto simp: min_def)
  qed
qed simp

lemma limit_by_axis_holds:
  assumes "i < pn_axes pe"
  shows "limit_by_axis pe f u * abs (u i) \<le> abs (f i)"
proof (cases "u i = 0")
  case False
  have "limit_by_axis pe f u \<le> abs (f i / u i)"
    unfolding limit_by_axis_def by (rule limit_fold_below) (use assms False in simp_all)
  then have "limit_by_axis pe f u * abs (u i) \<le> abs (f i / u i) * abs (u i)" by (rule mult_right_mono) simp
  also have "\<dots> = abs (f i)" using False by (simp add: abs_divide)
  finally show ?thesis .
qed simp

lemma nominal_speed_below:
  assumes "with_length pe delta b = (b', u)" "pn_r_override pe \<le> 100"
  shows "plan_compute_profile_nominal_speed pe b' \<le> max (limit_rate_by_axis_maximum pe u) MINIMUM_FEED_RATE"
proof -
  let ?r = "limit_rate_by_axis_maximum pe u"
  have r: "rapid_rate b' = ?r" "pb_line b' = pb_line b" "pl_rapid (pb_line b) \<Longrightarrow> programmed_rate b' = ?r"
    using assms(1) by (auto simp: with_length_def convert_delta_vector_to_unit_vector_def Let_def)
  have "0 \<le> ?r" by (simp add: limit_rate_by_axis_maximum_def limit_by_axis_nonneg)
  moreover have "1 / 100 * of_nat (pn_r_override pe) \<le> (1 :: rat)"
    using assms(2) of_nat_mono[of "pn_r_override pe" 100, where ?'a = rat] by simp
  ultimately have rapid: "?r * (1 / 100 * of_nat (pn_r_override pe)) \<le> ?r"
    using mult_left_mono[of "1 / 100 * of_nat (pn_r_override pe)" 1 ?r] by simp
  define v where "v = (if pl_rapid (pb_line b') then programmed_rate b' * (1 / 100 * of_nat (pn_r_override pe))
    else let w = (if pl_no_feed_override (pb_line b') then programmed_rate b'
                  else programmed_rate b' * (1 / 100 * of_nat (pn_f_override pe)))
      in if rapid_rate b' < w then rapid_rate b' else w)"
  have "v \<le> ?r"
  proof (cases "pl_rapid (pb_line b')")
    case True
    then show ?thesis using rapid r unfolding v_def by (simp only: if_True)
  next
    case False
    have "(let w = x in if rapid_rate b' < w then rapid_rate b' else w) \<le> rapid_rate b'" for x by (simp add: Let_def)
    then show ?thesis unfolding v_def if_not_P[OF False] r(1)[symmetric] .
  qed
  moreover have "plan_compute_profile_nominal_speed pe b' = (if MINIMUM_FEED_RATE < v then v else MINIMUM_FEED_RATE)"
    unfolding plan_compute_profile_nominal_speed_def v_def by (simp only: Let_def)
  ultimately show ?thesis by (simp add: le_max_iff_disj)
qed

text \<open>
  C31. A block is never driven faster than its axes allow: its nominal speed, under any feed
  override and a rapid override of at most 100 percent, keeps each axis within its maximum
  rate, but for the minimum of 1 mm/min at which a block is driven in any case; and its
  acceleration keeps each axis within its acceleration.
\<close>
theorem axis_limits_hold:
  assumes "with_length pe delta b = (b', u)" "i < pn_axes pe" "pn_r_override pe \<le> 100"
  shows "plan_compute_profile_nominal_speed pe b' * abs (u i)
      \<le> max (abs (pn_max_rate pe i)) (MINIMUM_FEED_RATE * abs (u i))
    \<and> acceleration b' * abs (u i) \<le> 60 * 60 * abs (pn_acceleration pe i)"
proof
  have "limit_rate_by_axis_maximum pe u * abs (u i) \<le> abs (pn_max_rate pe i)"
    unfolding limit_rate_by_axis_maximum_def by (rule limit_by_axis_holds[OF assms(2)])
  moreover have "plan_compute_profile_nominal_speed pe b' * abs (u i)
      \<le> max (limit_rate_by_axis_maximum pe u) MINIMUM_FEED_RATE * abs (u i)"
    by (rule mult_right_mono[OF nominal_speed_below[OF assms(1,3)]]) simp
  ultimately show "plan_compute_profile_nominal_speed pe b' * abs (u i)
      \<le> max (abs (pn_max_rate pe i)) (MINIMUM_FEED_RATE * abs (u i))"
    by (simp add: max_def split: if_splits)
  have "acceleration b' = limit_by_axis pe (pn_acceleration pe) u * (60 * 60)"
    using assms(1) by (auto simp: with_length_def convert_delta_vector_to_unit_vector_def Let_def
      limit_acceleration_by_axis_maximum_def)
  then show "acceleration b' * abs (u i) \<le> 60 * 60 * abs (pn_acceleration pe i)"
    using limit_by_axis_holds[OF assms(2), of "pn_acceleration pe" u] by simp
qed

text \<open>
  The ring holds one block less than it has places: the number of free places that is reported
  is the number of lines that can still be planned, and the buffer is full when there is none.
\<close>
theorem buffer_capacity:
  assumes "reach plan_start plan_step s"
  shows "plan_get_block_buffer_available s + queued s + 1 = planner_blocks s
    \<and> (plan_check_full_buffer s \<longleftrightarrow> plan_get_block_buffer_available s = 0)
    \<and> (plan_get_current_block s = None \<longleftrightarrow> queued s = 0)"
  using ring_wfD[OF plan_goodD(1)[OF reach_good[OF assms]]]
  by (auto simp: plan_get_block_buffer_available_def queued_def plan_check_full_buffer_def plan_next_block_index_def
      plan_get_current_block_def split: if_splits)

end
