(* ===== verification/PlannerOverride.thy ===== *)
theory PlannerOverride
  imports PlannerProps
begin

text \<open>
  A queue of three blocks, made by the planner from three lines: a state in which the
  properties of \<open>PlannerProps\<close> hold, and one that a feed override turns into a plan that
  cannot be driven.
\<close>

section \<open>Three lines\<close>

text \<open>The queue of the examples: two rapids and a feed motion on one axis, in one direction.\<close>

definition ex_pe :: "nat \<Rightarrow> plan_env" where
  "ex_pe feed =
     \<lparr>pn_axes = 1, pn_steps_per_mm = (\<lambda>i. 1), pn_acceleration = (\<lambda>i. 1), pn_max_rate = (\<lambda>i. 600),
      pn_junction_deviation = 1 / 100, pn_f_override = feed, pn_r_override = 100, pn_motor_steps = (\<lambda>i. 0),
      pn_unhomed = False, pn_sqrt = (\<lambda>x. if x = 2500 then 50 else 1)\<rparr>"

definition ex_empty :: planner where
  "ex_empty =
     \<lparr>block_buffer = (\<lambda>i. blank_block False no_plan), planner_blocks = 10, block_buffer_tail = 0,
      block_buffer_head = 0, next_buffer_head = 1, block_buffer_planned = 0, pl_position = (\<lambda>i. 0),
      previous_unit_vec = (\<lambda>i. 0), previous_nominal_speed = 0, exec_speed = None\<rparr>"

definition ex_line :: "rat \<Rightarrow> bool \<Rightarrow> planner \<Rightarrow> planner" where
  "ex_line x rapid s =
     snd (snd (plan_buffer_line (ex_pe 100) (\<lambda>i. x) False (no_plan\<lparr>pl_feed_rate := 600, pl_rapid := rapid\<rparr>) s))"

definition ex_plan :: planner where
  "ex_plan = ex_line 101 False (ex_line 51 True (ex_line 50 True ex_empty))"

definition ex_block :: "nat \<Rightarrow> bool \<Rightarrow> rat \<Rightarrow> rat \<Rightarrow> rat \<Rightarrow> plan_block" where
  "ex_block d rapid j m e =
     \<lparr>pb_line = no_plan\<lparr>pl_feed_rate := 600, pl_rapid := rapid\<rparr>, pb_system = False, steps = (\<lambda>i. if i = 0 then d else 0),
      step_event_count = d, direction_bits = {}, entry_speed_sqr = e, max_entry_speed_sqr = m, acceleration = 3600,
      millimeters = of_nat d, max_junction_speed_sqr = j, rapid_rate = 600, programmed_rate = 600\<rparr>"

definition ex_state :: "(nat \<Rightarrow> plan_block) \<Rightarrow> nat \<Rightarrow> nat \<Rightarrow> int \<Rightarrow> planner" where
  "ex_state bs n p pos =
     \<lparr>block_buffer = bs, planner_blocks = 10, block_buffer_tail = 0, block_buffer_head = n, next_buffer_head = n + 1,
      block_buffer_planned = p, pl_position = (\<lambda>i. if i = 0 then pos else 0),
      previous_unit_vec = (\<lambda>i. if i = 0 then 1 else 0), previous_nominal_speed = 600, exec_speed = None\<rparr>"

lemma ex_delta:
  "delta_mm (ex_pe f) delta = (\<lambda>i. if i = 0 then of_int (delta 0) else 0)"
  by (auto simp: delta_mm_def ex_pe_def steps_to_mpos_def fun_eq_iff)

lemma ex_unit:
  "x = 50 \<or> x = 1 \<Longrightarrow> convert_delta_vector_to_unit_vector (ex_pe f) (\<lambda>i. if i = 0 then x else 0) =
     (x, \<lambda>i. if i = 0 then 1 else 0)"
  by (auto simp: convert_delta_vector_to_unit_vector_def vector_length_def Let_def ex_pe_def fun_eq_iff)

lemma ex_limit:
  "limit_by_axis (ex_pe f) g (\<lambda>i. if i = 0 then 1 else 0) = min SOME_LARGE_VALUE (abs (g 0))"
  by (simp add: limit_by_axis_def ex_pe_def)

lemma ex_length:
  assumes "delta 0 = 50 \<or> delta 0 = 1"
  shows "with_length (ex_pe f) delta b =
     (b\<lparr>millimeters := of_int (delta 0), acceleration := 3600, rapid_rate := 600,
        programmed_rate := (if pl_rapid (pb_line b) then 600
          else if pl_inverse_time (pb_line b) then pl_feed_rate (pb_line b) * of_int (delta 0)
          else pl_feed_rate (pb_line b))\<rparr>, \<lambda>i. if i = 0 then 1 else 0)"
proof -
  have "(of_int (delta 0) :: rat) = 50 \<or> (of_int (delta 0) :: rat) = 1" using assms by auto
  moreover have "pn_acceleration (ex_pe f) 0 = 1" "pn_max_rate (ex_pe f) 0 = 600" by (simp_all add: ex_pe_def)
  ultimately show ?thesis
    by (simp only: with_length_def Let_def ex_delta ex_unit prod.case ex_limit limit_rate_by_axis_maximum_def
        limit_acceleration_by_axis_maximum_def) (simp add: SOME_LARGE_VALUE_def)
qed

lemma ex_fields: "pn_axes (ex_pe f) = 1" "pn_steps_per_mm (ex_pe f) = (\<lambda>i. 1)" "pn_unhomed (ex_pe f) = False"
  "pn_f_override (ex_pe f) = f" "pn_r_override (ex_pe f) = 100" "pn_max_rate (ex_pe f) = (\<lambda>i. 600)"
  by (simp_all add: ex_pe_def)

lemma ex_steps:
  assumes "delta 0 = 50 \<or> delta 0 = 1"
  shows "with_steps (ex_pe f) delta b =
     b\<lparr>steps := (\<lambda>i. if i = 0 then nat (delta 0) else 0), step_event_count := nat (delta 0), direction_bits := {}\<rparr>"
proof -
  have "(\<lambda>i. if i = 0 then nat \<bar>delta i\<bar> else 0) = (\<lambda>i. if i = 0 then nat (delta 0) else 0)"
    using assms by (auto simp: fun_eq_iff)
  moreover have "{i \<in> {..<pn_axes (ex_pe f)}. delta_mm (ex_pe f) delta i < 0} = {}"
    using assms by (auto simp: ex_delta ex_fields)
  moreover have "pn_axes (ex_pe f) = 1" by (simp add: ex_pe_def)
  ultimately show ?thesis using assms by (auto simp: with_steps_def Let_def)
qed

lemma ex_junction:
  "junction_speed_sqr (ex_pe f) (\<lambda>i. if i = 0 then 1 else 0) (\<lambda>i. if i = 0 then 1 else 0) = SOME_LARGE_VALUE"
  by (simp add: junction_speed_sqr_def Let_def ex_pe_def)

lemma ex_targets: "mpos_to_steps 50 1 = 50" "mpos_to_steps 51 1 = 51" "mpos_to_steps 101 1 = 101"
  by code_simp+

lemma pass_more:
  "0 < n \<Longrightarrow> reverse_pass n nxt i s = (if i = block_buffer_planned s then s
      else reverse_pass (n - 1) i (plan_prev_block_index s i) (reverse_step nxt i s))"
  "0 < n \<Longrightarrow> forward_pass n cur i s = (if i = block_buffer_head s then s
      else forward_pass (n - 1) i (plan_next_block_index s i) (forward_step cur i s))"
  "0 < n \<Longrightarrow> update_profiles pe n i w s = (if i = block_buffer_head s then s\<lparr>previous_nominal_speed := w\<rparr>
      else let b = block_buffer s i; v = plan_compute_profile_nominal_speed pe b
        in update_profiles pe (n - 1) (plan_next_block_index s i) v
             (put_block i (plan_compute_profile_parameters v w b) s))"
  by (cases n; simp)+

lemmas ex_run = plan_buffer_line_def Let_def ex_length ex_steps ex_junction ex_targets ex_fields put_block_def
  set_entry_def plan_compute_profile_parameters_def plan_compute_profile_nominal_speed_def MINIMUM_FEED_RATE_def
  SOME_LARGE_VALUE_def plan_next_block_index_def plan_prev_block_index_def 
  reverse_step_def forward_step_def braking_def blank_block_def no_plan_def update_plan_block_parameters_def

definition ex_blank :: "nat \<Rightarrow> plan_block" where
  "ex_blank = (\<lambda>i. blank_block False no_plan)"

lemma ex_1: "ex_line 50 True ex_empty = ex_state (ex_blank(0 := ex_block 50 True 0 0 0)) 1 0 50"
  unfolding ex_line_def ex_empty_def ex_state_def ex_block_def ex_blank_def[symmetric]
  by (simp add: ex_run planner_recalculate_def fun_eq_iff)



lemma ex_line_next:
  assumes "0 < n" "n < 8" "mpos_to_steps x 1 = pos + int d" "d = 50 \<or> d = 1"
  shows "ex_line x rapid (ex_state bs n p pos) =
    planner_recalculate (ex_state (bs(n := ex_block d rapid SOME_LARGE_VALUE 360000 0)) (n + 1) p (pos + int d))"
proof -
  let ?s = "ex_state bs n p pos"
  let ?t = "enqueue (ex_block d rapid SOME_LARGE_VALUE 360000 0) 600 (\<lambda>i. if i = 0 then 1 else 0)
    (\<lambda>i. if i = 0 then pos + int d else 0) ?s"
  let ?l = "no_plan\<lparr>pl_feed_rate := 600, pl_rapid := rapid\<rparr>"
  have f: "pl_position ?s = (\<lambda>i. if i = 0 then pos else 0)" "block_buffer_head ?s = n" "block_buffer_tail ?s = 0"
    "previous_unit_vec ?s = (\<lambda>i. if i = 0 then 1 else 0)" "previous_nominal_speed ?s = 600"
    "planner_blocks ?s = 10" "next_buffer_head ?s = n + 1"
    by (simp_all add: ex_state_def)
  have u: "(\<lambda>i. if i = 0 then if i = 0 then 1 else 0 else if i = 0 then 1 else 0) = (\<lambda>i. if i = (0 :: nat) then 1 else (0 :: rat))"
    by (simp add: fun_eq_iff)
  have "plan_buffer_line (ex_pe 100) (\<lambda>i. x) False ?l ?s = (True, False, planner_recalculate ?t)"
    using assms(1,4)
    by (auto simp: plan_buffer_line_def Let_def ex_length ex_steps ex_junction ex_fields f assms(3) enqueue_def u
      plan_compute_profile_parameters_def plan_compute_profile_nominal_speed_def MINIMUM_FEED_RATE_def SOME_LARGE_VALUE_def
      blank_block_def ex_block_def no_plan_def cong: if_cong)
  moreover have "?t = ex_state (bs(n := ex_block d rapid SOME_LARGE_VALUE 360000 0)) (n + 1) p (pos + int d)"
    using assms(1,2) by (simp add: enqueue_def ex_state_def put_block_def plan_next_block_index_def)
  ultimately show ?thesis by (simp add: ex_line_def)
qed

abbreviation ex_blocks :: "rat \<Rightarrow> rat \<Rightarrow> rat \<Rightarrow> nat \<Rightarrow> plan_block" where
  "ex_blocks e1 m2 e2 \<equiv>
     ex_blank(0 := ex_block 50 True 0 0 0, 1 := ex_block 1 True SOME_LARGE_VALUE 360000 e1,
       2 := ex_block 50 False SOME_LARGE_VALUE m2 e2)"

lemma ex_2:
  "planner_recalculate (ex_state (ex_blank(0 := ex_block 50 True 0 0 0, 1 := ex_block 1 True SOME_LARGE_VALUE 360000 0)) 2 0 51) =
   ex_state (ex_blank(0 := ex_block 50 True 0 0 0, 1 := ex_block 1 True SOME_LARGE_VALUE 360000 7200)) 2 0 51"
  unfolding ex_state_def ex_block_def
  by (simp add: planner_recalculate_def ex_run pass_more)

lemma ex_3:
  "planner_recalculate (ex_state (ex_blocks 7200 360000 0) 3 0 101) = ex_state (ex_blocks 360000 360000 360000) 3 2 101"
  unfolding ex_state_def ex_block_def
  by (simp add: planner_recalculate_def ex_run pass_more) (rule fun_upd_twist, simp)

lemma ex_4:
  "plan_update_velocity_profile_parameters (ex_pe 50) (ex_state (ex_blocks 360000 360000 360000) 3 2 101)
   = (ex_state (ex_blocks 360000 90000 90000) 3 2 101)\<lparr>previous_nominal_speed := 300\<rparr>"
  unfolding ex_state_def ex_block_def
  by (simp add: planner_recalculate_def ex_run pass_more plan_update_velocity_profile_parameters_def plan_cycle_reinitialize_def)
    (simp add: numeral_2_eq_2)

lemma ex_two_lines:
  "ex_line 51 True (ex_line 50 True ex_empty) =
   ex_state (ex_blank(0 := ex_block 50 True 0 0 0, 1 := ex_block 1 True SOME_LARGE_VALUE 360000 7200)) 2 0 51"
proof -
  have "(1 :: nat) + 1 = 2" "(50 :: int) + int 1 = 51" by simp_all
  moreover have "ex_line 51 True (ex_state (ex_blank(0 := ex_block 50 True 0 0 0)) 1 0 50) =
      planner_recalculate (ex_state (ex_blank(0 := ex_block 50 True 0 0 0, 1 := ex_block 1 True SOME_LARGE_VALUE 360000 0))
        (1 + 1) 0 (50 + int 1))"
    by (rule ex_line_next) (simp_all add: ex_targets)
  ultimately show ?thesis unfolding ex_1 ex_2[symmetric] by metis
qed

lemma ex_plan_is: "ex_plan = ex_state (ex_blocks 360000 360000 360000) 3 2 101"
proof -
  have "(2 :: nat) + 1 = 3" "(51 :: int) + int 50 = 101" by simp_all
  moreover have "ex_line 101 False
        (ex_state (ex_blank(0 := ex_block 50 True 0 0 0, 1 := ex_block 1 True SOME_LARGE_VALUE 360000 7200)) 2 0 51) =
      planner_recalculate (ex_state (ex_blocks 7200 360000 0) (2 + 1) 0 (51 + int 50))"
    by (rule ex_line_next) (simp_all add: ex_targets)
  ultimately show ?thesis unfolding ex_plan_def ex_two_lines ex_3[symmetric] by metis
qed

lemma ex_values:
  "queued (ex_state bs n p pos) = n" "planner_blocks (ex_state bs n p pos) = 10"
  "entry_at (ex_state bs n p pos) j = (if j < n then entry_speed_sqr (bs (j mod 10)) else 0)"
  "limit_at (ex_state bs n p pos) j = (if j < n then max_entry_speed_sqr (bs (j mod 10)) else 0)"
  "reach_at (ex_state bs n p pos) j = (if j < n then braking (bs (j mod 10)) else 0)"
  by (simp_all add: ex_state_def queued_def entry_at_def limit_at_def reach_at_def place_def)

lemma ex_nominal:
  "queued (s\<lparr>previous_nominal_speed := v\<rparr>) = queued s" "entry_at (s\<lparr>previous_nominal_speed := v\<rparr>) = entry_at s"
  "limit_at (s\<lparr>previous_nominal_speed := v\<rparr>) = limit_at s" "reach_at (s\<lparr>previous_nominal_speed := v\<rparr>) = reach_at s"
  by (simp_all add: queued_def entry_at_def limit_at_def reach_at_def place_def fun_eq_iff split: option.split)

lemma ex_block_values:
  "entry_speed_sqr (ex_block d rapid k m e) = e" "max_entry_speed_sqr (ex_block d rapid k m e) = m"
  "braking (ex_block d rapid k m e) = 7200 * of_nat d"
  by (simp_all add: ex_block_def braking_def)

lemma ex_line_step:
  assumes "reach plan_start plan_step s" "\<not> plan_check_full_buffer s"
  shows "reach plan_start plan_step (ex_line x rapid s)"
proof (rule reach_step[OF assms(1)], rule step_line[OF _ assms(2)])
  show "\<forall>x. 0 \<le> pn_sqrt (ex_pe 100) x" by (simp add: ex_pe_def)
  show "plan_buffer_line (ex_pe 100) (\<lambda>i. x) False (no_plan\<lparr>pl_feed_rate := 600, pl_rapid := rapid\<rparr>) s
     = (fst (plan_buffer_line (ex_pe 100) (\<lambda>i. x) False (no_plan\<lparr>pl_feed_rate := 600, pl_rapid := rapid\<rparr>) s),
        fst (snd (plan_buffer_line (ex_pe 100) (\<lambda>i. x) False (no_plan\<lparr>pl_feed_rate := 600, pl_rapid := rapid\<rparr>) s)),
        ex_line x rapid s)"
    by (simp add: ex_line_def)
qed

lemma ex_plan_reached: "reach plan_start plan_step ex_plan"
proof -
  have 0: "reach plan_start plan_step ex_empty"
    by (rule reach_init) (simp add: plan_start_def ex_empty_def plan_reset_def plan_reset_buffer_def)
  have 1: "reach plan_start plan_step (ex_line 50 True ex_empty)"
    by (rule ex_line_step[OF 0]) (simp add: ex_empty_def plan_check_full_buffer_def)
  have 2: "reach plan_start plan_step (ex_line 51 True (ex_line 50 True ex_empty))"
    by (rule ex_line_step[OF 1]) (simp add: ex_1 plan_check_full_buffer_def ex_state_def)
  have "\<not> plan_check_full_buffer (ex_line 51 True (ex_line 50 True ex_empty))"
    unfolding ex_two_lines by (simp add: plan_check_full_buffer_def ex_state_def)
  then show ?thesis unfolding ex_plan_def by (rule ex_line_step[OF 2])
qed

theorem plan_is_feasible_witness:
  "reach plan_start plan_step ex_plan \<and> queued ex_plan = 3
   \<and> feasible (queued ex_plan) (limit_at ex_plan) (reach_at ex_plan) (entry_at ex_plan)"
  using plan_is_feasible[OF ex_plan_reached] ex_plan_reached by (simp add: ex_plan_is ex_values)

lemma ex_cases: "j < (3 :: nat) \<longleftrightarrow> j = 0 \<or> j = 1 \<or> j = 2" "Suc j < 3 \<longleftrightarrow> j = 0 \<or> j = 1"
  by auto

theorem plan_is_fastest_witness:
  "(7200 :: rat) \<le> entry_at ex_plan 1 \<and> queued ex_plan = 3"
proof -
  have "feasible (queued ex_plan) (limit_at ex_plan) (reach_at ex_plan) ((\<lambda>j. 0)(1 := 7200))"
    by (auto simp: feasible_def exit_def ex_plan_is ex_values ex_block_values ex_cases)
  then show ?thesis
    using plan_is_fastest[OF ex_plan_reached, of "(\<lambda>j. 0)(1 := 7200)" 1]
    by (simp add: ex_plan_is ex_values ex_block_values)
qed

theorem buffer_capacity_witness: "plan_get_block_buffer_available ex_plan = 6 \<and> \<not> plan_check_full_buffer ex_plan"
  using buffer_capacity[OF ex_plan_reached] by (simp add: ex_plan_is ex_values)

theorem axis_limits_hold_witness:
  "plan_compute_profile_nominal_speed (ex_pe 100) (fst (with_length (ex_pe 100) (\<lambda>i. 50) (blank_block False no_plan))) \<le> 600"
  using axis_limits_hold[OF ex_length[of "\<lambda>i. 50" 100 "blank_block False no_plan"], of 0]
  by (simp add: ex_length ex_fields MINIMUM_FEED_RATE_def)

section \<open>An override\<close>

text \<open>
  C18. An override can break the plan, in any state of the planner: when a block is entered at the
  limit that it has after the override (as a rapid motion, whose limit a feed override does not
  change, or a junction), and the entries before it are within their new limits, it keeps
  its entry, as the reverse pass skips a block that is entered at its limit; if the new limit of
  the next block is so low that the block is too short to brake to it, the plan that
  results cannot be driven.
\<close>
theorem override_breaks_plan:
  assumes "reach plan_start plan_step s" "plan_update_velocity_profile_parameters pe s = s'"
    and "0 < j" "Suc j < queued s" "\<forall>i. 0 < i \<and> i < j \<longrightarrow> entry_at s i \<le> limit_at s' i"
    and "entry_at s j = limit_at s' j" "limit_at s' (Suc j) + reach_at s j < entry_at s j"
  shows "queued s' = queued s \<and> entry_at s' j = entry_at s j
    \<and> entry_at s' (Suc j) + reach_at s' j < entry_at s' j
    \<and> \<not> feasible (queued s') (limit_at s') (reach_at s') (entry_at s')"
proof -
  have g: "plan_good s" by (rule reach_good[OF assms(1)])
  note w = plan_goodD(2)[OF g]
  have n: "0 < queued s" using assms(4) by simp
  note o = override_entries[OF g n assms(2)]
  obtain q where r: "recalculate (limit_at s') (reach_at s) (queued s) (entry_at s, 0) = (entry_at s', q)"
    using o(3) by blast
  have "entry_at s' j = entry_at s j \<and> entry_at s' (Suc j) \<le> limit_at s' (Suc j)"
    by (rule recalculate_skips[OF good_feasible[OF w] _ assms(3,4,5,6) r]) (use w in \<open>simp add: good_def\<close>)
  then have "entry_at s' j = entry_at s j" "entry_at s' (Suc j) + reach_at s' j < entry_at s' j"
    using assms(7) o(2) by simp_all
  moreover from this have "\<not> feasible (queued s') (limit_at s') (reach_at s') (entry_at s')"
    using feasibleD(4)[of "queued s'" "limit_at s'" "reach_at s'" "entry_at s'" j] assms(4) o(1)
    by (auto simp: exit_simps)
  ultimately show ?thesis using o(1) by simp
qed

text \<open>
  The three lines, at half the feed rate: the short rapid is entered at its limit of 600, the feed motion after it
  is now limited to 300. A plan that can be driven exists: the entry of the rapid only had to be lowered.
\<close>

theorem override_breaks_plan_witness:
  "let s' = plan_update_velocity_profile_parameters (ex_pe 50) ex_plan in
     pl_rapid (pb_line (block_buffer s' 1)) \<and> \<not> pl_rapid (pb_line (block_buffer s' 2))
     \<and> \<not> feasible (queued s') (limit_at s') (reach_at s') (entry_at s')
     \<and> feasible (queued s') (limit_at s') (reach_at s') ((entry_at s')(1 := 97200))"
proof -
  let ?s = "(ex_state (ex_blocks 360000 90000 90000) 3 2 101)\<lparr>previous_nominal_speed := 300\<rparr>"
  have s': "plan_update_velocity_profile_parameters (ex_pe 50) ex_plan = ?s" unfolding ex_plan_is by (rule ex_4)
  have ok: "feasible (queued ?s) (limit_at ?s) (reach_at ?s) ((entry_at ?s)(1 := 97200))"
    by (auto simp: feasible_def exit_def ex_nominal ex_values ex_block_values ex_cases)
  have "\<not> feasible (queued ?s) (limit_at ?s) (reach_at ?s) (entry_at ?s)"
    using override_breaks_plan[OF ex_plan_reached s', of 1]
    by (simp add: ex_nominal ex_plan_is ex_values ex_block_values)
  moreover have "pl_rapid (pb_line (block_buffer ?s 1)) \<and> \<not> pl_rapid (pb_line (block_buffer ?s 2))"
    by (simp add: ex_state_def ex_block_def)
  ultimately show ?thesis unfolding Let_def s' using ok by blast
qed

end
