(* ===== verification/Spec2Isabelle.thy ===== *)
theory Spec2Isabelle
  imports
    MachineTypes PlaylistLimits RingLog HttpRange Regex UTF8 DnsQuery LineeditKeys FlowProps SandStatus Xmodem
    ThetaRho LedColor RealtimeCmd GCodeText GCodeArc PlannerOverride
begin

text \<open>
  A model of the core of the Dune Weaver firmware (FluidNC/src), the controller of a sand
  table: a machine that draws patterns in sand, one file after another, with clearing
  patterns in between and quiet hours at night. Every file below is a path under
  FluidNC/src.

  \<^bold>\<open>Theories and code.\<close>

  \<^item> \<open>Prelude\<close>: word widths, searching and splitting lists (\<open>find_index\<close>, \<open>strip\<close>,
    \<open>split_on\<close>), C strings, case-insensitive comparison, deadlines on the wrapping clock.
  \<^item> \<open>MachineTypes\<close>: the machine states of Types.h, the error codes of Error.h and the
    texts of Error.cpp.
  \<^item> \<open>Transition\<close>: the locale of a transition system with an invariant.
  \<^item> \<open>PlaylistParse\<close>: PlaylistParse.cpp, the pure helpers: lines of a playlist, clear
    modes, the arguments of the run command, file extensions.
  \<^item> \<open>QuietHours\<close>: QuietHours.cpp, the slots of Still Sands.
  \<^item> \<open>PlaylistState\<close>: the members of the class Playlist, its settings, its requests and its
    status snapshot (Playlist.cpp 38-426, 689-721). A request of another task is a field of
    \<open>pl_req\<close>; \<open>effects\<close> lists what the module does to others (LED, deferred reset, homing).
  \<^item> \<open>PlaylistLoad\<close>: shuffling, the streaming scan of the playlist file, loading, resolving
    the path of an item, choosing the clearing file (Playlist.cpp 428-684).
  \<^item> \<open>PlaylistPoll\<close>: the poll of the protocol task, one definition per phase, composed in
    \<open>pollLine\<close> (Playlist.cpp 725-1152).
  \<^item> \<open>PlaylistOrder\<close>, \<open>PlaylistInv\<close>, \<open>PlaylistProps\<close>, \<open>PlaylistRun\<close>, \<open>PlaylistTiming\<close>,
    \<open>PlaylistLimits\<close>: the lemmas and properties of the playlist.
  \<^item> \<open>RingLog\<close>, \<open>HttpRange\<close>, \<open>Regex\<close>, \<open>UTF8\<close>, \<open>DnsQuery\<close>: the files of these names.
  \<^item> \<open>Lineedit\<close>, \<open>LineeditView\<close> and \<open>LineeditKeys\<close>: lineedit.cpp, the editor against a
    split line and a terminal, and the refinement of the keys.

  \<^item> \<open>Job\<close>, \<open>Flowcontrol\<close>, \<open>FlowSemantics\<close>, \<open>FlowProps\<close>: the stack of running jobs
    (Job.cpp), the O-word interpreter (Flowcontrol.cpp), structured programs with their
    meaning and the simulation of that meaning by the interpreter, and the properties.

  \<^item> \<open>CNumbers\<close>: the formats and readers of numbers of the C library, on rationals.

  \<^item> \<open>ThrTranslator\<close>, \<open>ThetaRho\<close>: the files of Kinematics of these names: pattern lines to
    G-code moves, the coupled motors of the round table, and the relabelling of the angle
    between patterns, down to motor steps (System.cpp 38-91).

  \<^item> \<open>LedColor\<close>: LedWhite.h and LedHook.h, the wire order and white byte of a pixel, and
    the user's choice of an effect against the hooks of the machine state.

  \<^item> \<open>SandStatus\<close>: SandStatus.cpp, the JSON status document, read back by a JSON parser.

  \<^item> \<open>Xmodem\<close>: xmodem.cpp, both ends of the protocol, the table-driven CRC against its
    polynomial, and a transfer between the two ends.

  \<^item> \<open>Expression\<close>, \<open>ExpressionProps\<close>, \<open>ExpressionValue\<close>: the numbers of NutsBolts.cpp and the
    expressions of Expression.cpp with the reading half of Parameters.cpp, which call each
    other; what every reading function consumes, that more fuel changes nothing, and the
    value an expression printed from a syntax tree is read back as.

  \<^item> \<open>GCodeTypes\<close>, \<open>Parameters\<close>, \<open>ParameterProps\<close>: the modes, the block and the state of GCode.h;
    the numbered, named and system parameters and the assignments of a line (Parameters.cpp).

  \<^item> \<open>GCodeParse\<close>, \<open>GCodeCheck\<close>, \<open>GCodeExec\<close>, \<open>GCodeProps\<close>: GCode.cpp. The line is cleaned
    (\<open>collapseGCode\<close>) and its words are read into a block (\<open>parse_line\<close>), the block is checked and
    its values are converted (\<open>check_block\<close>, one function for each numbered step of the code),
    and executed (\<open>run_block\<close>, \<open>run_jog\<close>); \<open>gc_execute_line\<close> is the composition, with the
    flow control of \<open>Flowcontrol\<close> and the jobs of \<open>Job\<close> on the lines they own.

  \<^item> \<open>GCodeKeeps\<close>, \<open>GCodeMove\<close>, \<open>GCodeArc\<close>, \<open>GCodeText\<close>: what lines that are rejected, skipped or
    jogs leave alone; where the program is after a straight move and what G92 does to the
    work position; the centre of an arc given by its radius; the text of a block and the
    words it is read as.

  \<^item> \<open>Planner\<close>: Planner.cpp with the vectors of NutsBolts.cpp: the ring of planned blocks, the
    entry speed the look-ahead gives to each, and the block made of a line. \<open>Lookahead\<close>: the
    two passes on a plain queue, with the proof that they give a plan that can be driven, and
    the fastest one. \<open>PlannerRing\<close>: the passes of the code over the ring are those over the
    queue. \<open>PlannerProps\<close>: the planner as a transition system, in which the stepper is what
    executes a block within its acceleration (\<open>legal_execution\<close>). \<open>PlannerOverride\<close>: an example
    of three lines, and the overrides the planner does not cope with.

  \<^item> \<open>MachineCtl\<close>, \<open>Homing\<close>, \<open>Protocol\<close>, \<open>RealtimeCmd\<close>: the state of the motion controller
    (System.h), the homing cycle (Machine/Homing.cpp), the event handlers and loops of the
    protocol task (Protocol.cpp) and the realtime characters that send events. \<open>ProtocolProps\<close> holds the
    properties, each for all sequences of a class of events (locale \<open>kept_by_events\<close>).

  \<^bold>\<open>How the parts interact.\<close> Command handlers (\<open>cmd_run\<close>, \<open>cmd_stop\<close>, \<open>cmd_skip\<close>) and the
  web server only write requests; the poll takes them, so that every change of the run
  happens in the protocol task. The step relation \<open>pl_step\<close> interleaves polls in an
  arbitrary environment, handlers, and captured error lines. The environment \<open>pl_env\<close> holds
  what the poll reads of other modules: clock, machine state, job queue, files, settings,
  random numbers, local time.

  \<^bold>\<open>Bounds and fuel.\<close> Unsigned counters and clocks are words of the width of the code.
  Loops are structural or have a termination proof; those over the ring
  of the planner are bounded by its size, which exceeds the number of blocks in it. Where a loop carries a number of
  steps as an argument, the number is the count of the loop in the code (the number of
  characters left, of items, of slots), so that it cannot run out early. The loops of the
  protocol task that wait run over the list of what arrives at each checkpoint. The functions
  that read expressions call each other without a bound on the depth: they get a fuel of
  three calls for each character of the line, and \<open>evaluation_ends\<close> shows that it suffices,
  since every third call has consumed a character.

  \<^bold>\<open>Numbers.\<close> The float operations of the interpreter are a parameter (\<open>arith\<close>); its theorems
  hold for every arithmetic, or for the exact one where they speak of the value of an
  expression. A float itself is a rational.

  \<^bold>\<open>What the properties assume.\<close> The text before each property names its hypotheses. Those that
  stand for something outside the model: homing runs on switches that work (\<open>pins_work\<close>: a limit
  event has the pin of a motor that still runs, a pull-off leaves the switches), in any order of
  the motors; the stepper executes a block within its acceleration and can still reach the exit
  speed of the plan (\<open>legal_execution\<close>); while a hold decelerates, the stepper may finish blocks
  (\<open>hold_inputs\<close>). The events of the protocol task are handled one by one; a macro key or a
  line that a handler starts is an effect, executed later by the interpreter, and lines typed
  on a channel are not realtime characters. Structured programs keep while loops out of the
  bodies of do loops (\<open>wf_blk\<close>), where the interpreter fails. The first block of a plan has the
  speed of the machine, which \<open>feasible\<close> does not hold against its limit. The kill buffer of
  the editor is a list with a flag for a write behind its end (\<open>le_fault\<close>), and nothing is claimed
  after such a write. The JSON parser of \<open>SandStatus\<close> takes any run of digits, signs and points
  for a number.

  \<^bold>\<open>Not modelled.\<close> Step generation (interrupt timing), device drivers, the web server and other glue to the SDK, and the file system, which is
  a function of the environment. The manifest lists every part with its reason.
\<close>

end
